(* ===== verification/Prelude.thy ===== *)
theory Prelude
  imports Main "HOL-Library.Word"
begin

text \<open>
  Shared vocabulary of the development: the machine types the C++ source uses, the reading
  of \<open>std::vector\<close> indexing by \<open>int\<close>, \<open>std::clamp\<close>, \<open>std::rotate\<close> on an index range,
  and the collections of rewrite rules and introduction rules the component theories extend.
  An index that is out of range is undefined behaviour for \<open>operator[]\<close>; the readers and
  writers below are total and leave the list as it is there, and the well-formedness
  invariants of the component theories show that the code stays in range.
\<close>

unbundle bit_operations_syntax

type_synonym u8 = "8 word"
type_synonym u16 = "16 word"
type_synonym u32 = "32 word"
type_synonym u64 = "64 word"

named_theorems vec_simps \<open>lists read and written at an int index\<close>
named_theorems vtp_simps \<open>definitions of the parser's handlers\<close>
named_theorems grid_frame \<open>fields an operation of the grid leaves alone\<close>
named_theorems grid_inv \<open>operations that keep the invariant of the grid\<close>

section \<open>Clamping\<close>

definition clamp :: "int \<Rightarrow> int \<Rightarrow> int \<Rightarrow> int" where
  "clamp x lo hi = (if x < lo then lo else if hi < x then hi else x)"

lemma clamp_range: "lo \<le> hi \<Longrightarrow> lo \<le> clamp x lo hi \<and> clamp x lo hi \<le> hi"
  by (simp add: clamp_def)

lemma clamp_lower [simp]: "lo \<le> hi \<Longrightarrow> lo \<le> clamp x lo hi"
  by (simp add: clamp_def)

lemma clamp_upper [simp]: "lo \<le> hi \<Longrightarrow> clamp x lo hi \<le> hi"
  by (simp add: clamp_def)

lemma clamp_pred_less [simp]: "0 < n \<Longrightarrow> clamp x 0 (n - 1) < n"
  by (simp add: clamp_def)

lemma clamp_id [simp]: "lo \<le> x \<Longrightarrow> x \<le> hi \<Longrightarrow> clamp x lo hi = x"
  by (simp add: clamp_def)

section \<open>Vectors indexed by int\<close>

definition vget :: "'a list \<Rightarrow> int \<Rightarrow> 'a" where
  "vget xs i = xs ! nat i"

definition vupd :: "int \<Rightarrow> ('a \<Rightarrow> 'a) \<Rightarrow> 'a list \<Rightarrow> 'a list" where
  "vupd i f xs = (if 0 \<le> i \<and> i < int (length xs) then xs[nat i := f (xs ! nat i)] else xs)"

definition vsize :: "'a list \<Rightarrow> int" where
  "vsize xs = int (length xs)"

lemma length_vupd [simp]: "length (vupd i f xs) = length xs"
  by (simp add: vupd_def)

lemma vsize_vupd [simp]: "vsize (vupd i f xs) = vsize xs"
  by (simp add: vsize_def)

lemma vget_vupd_same [vec_simps]:
  "0 \<le> i \<Longrightarrow> i < int (length xs) \<Longrightarrow> vget (vupd i f xs) i = f (vget xs i)"
  by (simp add: vget_def vupd_def)

lemma vget_vupd_other [vec_simps]:
  "i \<noteq> j \<Longrightarrow> 0 \<le> i \<Longrightarrow> 0 \<le> j \<Longrightarrow> vget (vupd i f xs) j = vget xs j"
  by (simp add: vget_def vupd_def)

lemma vget_vupd [vec_simps]:
  "0 \<le> i \<Longrightarrow> 0 \<le> j \<Longrightarrow> i < int (length xs) \<Longrightarrow>
   vget (vupd i f xs) j = (if i = j then f (vget xs j) else vget xs j)"
  by (simp add: vget_def vupd_def)

lemma nth_vupd:
  "k < length xs \<Longrightarrow> vupd i f xs ! k = (if int k = i then f (xs ! k) else xs ! k)"
  by (auto simp: vupd_def nth_list_update)

lemma set_vupd: "y \<in> set (vupd i f xs) \<Longrightarrow> y \<in> set xs \<or> (\<exists>x \<in> set xs. y = f x)"
proof -
  assume "y \<in> set (vupd i f xs)"
  then obtain k where "k < length xs" "y = vupd i f xs ! k"
    by (auto simp: in_set_conv_nth)
  then show ?thesis by (cases "int k = i") (auto simp: nth_vupd)
qed

lemma list_all_vupd:
  "list_all P xs \<Longrightarrow> (\<And>x. P x \<Longrightarrow> P (f x)) \<Longrightarrow> list_all P (vupd i f xs)"
  by (auto simp: list_all_iff dest!: set_vupd)

lemma list_all_vget: "list_all P xs \<Longrightarrow> 0 \<le> i \<Longrightarrow> i < int (length xs) \<Longrightarrow> P (vget xs i)"
  by (simp add: list_all_length vget_def nat_less_iff)

lemma vupd_vupd_same: "vupd i f (vupd i g xs) = vupd i (f \<circ> g) xs"
  by (auto simp: vupd_def nat_less_iff)

lemma vupd_commute: "i \<noteq> j \<Longrightarrow> vupd i f (vupd j g xs) = vupd j g (vupd i f xs)"
  by (auto simp: vupd_def list_update_swap nat_eq_iff)

lemma vupd_id [simp]: "vupd i (\<lambda>x. x) xs = xs"
  by (simp add: vupd_def)

section \<open>A range of indices rewritten in place\<close>

text \<open>\<open>for (c = a; c < b; ++c) xs[c] = f xs[c]\<close>.\<close>

definition vmap_range :: "int \<Rightarrow> int \<Rightarrow> ('a \<Rightarrow> 'a) \<Rightarrow> 'a list \<Rightarrow> 'a list" where
  "vmap_range a b f xs =
     map (\<lambda>(k, x). if a \<le> int k \<and> int k < b then f x else x) (enumerate 0 xs)"

lemma length_vmap_range [simp]: "length (vmap_range a b f xs) = length xs"
  by (simp add: vmap_range_def)

lemma nth_vmap_range:
  "k < length xs \<Longrightarrow> vmap_range a b f xs ! k = (if a \<le> int k \<and> int k < b then f (xs ! k) else xs ! k)"
  by (simp add: vmap_range_def nth_enumerate_eq)

lemma vmap_range_empty: "b \<le> a \<Longrightarrow> vmap_range a b f xs = xs"
  by (rule nth_equalityI) (auto simp: nth_vmap_range)

lemma vmap_range_step:
  assumes "0 \<le> a" "a < b"
  shows "vmap_range a b f xs = vmap_range (a + 1) b f (vupd a f xs)"
proof (rule nth_equalityI)
  fix k assume "k < length (vmap_range a b f xs)"
  then show "vmap_range a b f xs ! k = vmap_range (a + 1) b f (vupd a f xs) ! k"
    using assms by (auto simp: nth_vmap_range nth_vupd)
qed simp

lemma list_all_vmap_range:
  "list_all P xs \<Longrightarrow> (\<And>x. P x \<Longrightarrow> P (f x)) \<Longrightarrow> list_all P (vmap_range a b f xs)"
  by (auto simp: list_all_length nth_vmap_range)

section \<open>std::rotate on a range of rows\<close>

text \<open>
  \<open>rotate_range lo mi hi\<close> moves \<open>[mi, hi)\<close> in front of \<open>[lo, mi)\<close>,
  as \<open>std::rotate(begin + lo, begin + mi, begin + hi)\<close> does.
\<close>

definition rotate_range :: "int \<Rightarrow> int \<Rightarrow> int \<Rightarrow> 'a list \<Rightarrow> 'a list" where
  "rotate_range lo mi hi xs =
     take (nat lo) xs
     @ drop (nat mi) (take (nat hi) xs)
     @ drop (nat lo) (take (nat mi) xs)
     @ drop (nat hi) xs"

lemma length_rotate_range [simp]:
  assumes "0 \<le> lo" "lo \<le> mi" "mi \<le> hi" "hi \<le> int (length xs)"
  shows "length (rotate_range lo mi hi xs) = length xs"
proof -
  have "nat lo \<le> nat mi" "nat mi \<le> nat hi" "nat hi \<le> length xs"
    using assms by auto
  then show ?thesis by (simp add: rotate_range_def)
qed

lemma set_rotate_range_subset: "set (rotate_range lo mi hi xs) \<subseteq> set xs"
  by (auto simp: rotate_range_def dest: in_set_takeD in_set_dropD)

lemma list_all_rotate_range: "list_all P xs \<Longrightarrow> list_all P (rotate_range lo mi hi xs)"
  using set_rotate_range_subset [of lo mi hi xs] by (auto simp: list_all_iff)

lemma nth_rotate_range:
  assumes "0 \<le> lo" "lo \<le> mi" "mi \<le> hi" "hi \<le> int (length xs)" "k < length xs"
  shows "rotate_range lo mi hi xs ! k =
    (if int k < lo then xs ! k
     else if int k < lo + (hi - mi) then xs ! nat (int k + (mi - lo))
     else if int k < hi then xs ! nat (int k - (hi - mi))
     else xs ! k)"
proof -
  define f m l where "f = nat lo" and "m = nat mi" and "l = nat hi"
  have fml: "lo = int f" "mi = int m" "hi = int l" "f \<le> m" "m \<le> l" "l \<le> length xs"
    using assms by (auto simp: f_def m_def l_def)
  have lens: "length (take f xs) = f" "length (drop m (take l xs)) = l - m"
      "length (drop f (take m xs)) = m - f"
    using fml(4-6) by simp_all
  consider "k < f" | "f \<le> k" "k < f + (l - m)" | "f + (l - m) \<le> k" "k < l" | "l \<le> k"
    by linarith
  then show ?thesis
  proof cases
    case 1
    then show ?thesis using fml(4-6) by (simp add: fml(1-3) rotate_range_def nth_append)
  next
    case 2
    then have lt: "m + (k - f) < l" and ix: "nat (int k + (int m - int f)) = m + (k - f)"
      using fml(4-6) by linarith+
    have nf: "\<not> k < f" and df: "k - f < l - m" using 2 fml(4-6) by linarith+
    have "rotate_range (int f) (int m) (int l) xs ! k = take l xs ! (m + (k - f))"
      using fml(4-6) nf df by (simp add: rotate_range_def nth_append lens)
    moreover have "int k < int f + (int l - int m)" "\<not> int k < int f"
      using 2 fml(4-6) by linarith+
    ultimately show ?thesis using lt by (simp add: fml(1-3) ix)
  next
    case 3
    have nf: "\<not> k < f" "\<not> k - f < l - m" and df: "k - f - (l - m) < m - f"
      using 3 fml(4-6) by linarith+
    have ix: "nat (int k - (int l - int m)) = f + (k - f - (l - m))" and lt: "f + (k - f - (l - m)) < m"
      using 3 fml(4-6) by linarith+
    have "rotate_range (int f) (int m) (int l) xs ! k = take m xs ! (f + (k - f - (l - m)))"
      using fml(4-6) nf df by (simp add: rotate_range_def nth_append lens)
    moreover have "\<not> int k < int f + (int l - int m)" "\<not> int k < int f" "int k < int l"
      using 3 fml(4-6) by linarith+
    ultimately show ?thesis using lt by (simp add: fml(1-3) ix)
  next
    case 4
    have nf: "\<not> k < f" "\<not> k - f < l - m" "\<not> k - f - (l - m) < m - f"
      and ix: "l + (k - f - (l - m) - (m - f)) = k"
      using 4 fml(4-6) by linarith+
    have "rotate_range (int f) (int m) (int l) xs ! k = xs ! (l + (k - f - (l - m) - (m - f)))"
      using fml(4-6) nf by (simp add: rotate_range_def nth_append lens del: diff_diff_left)
    moreover have "\<not> int k < int f + (int l - int m)" "\<not> int k < int f" "\<not> int k < int l"
      using 4 fml(4-6) by linarith+
    ultimately show ?thesis by (simp only: fml(1-3) ix if_False)
  qed
qed

section \<open>Bytes, characters and C strings\<close>

text \<open>A \<open>std::string\<close> is a list of \<open>char\<close>, each one byte.\<close>

definition byte_of_char :: "char \<Rightarrow> u8" where
  "byte_of_char c = of_nat (of_char c)"

definition char_of_byte :: "u8 \<Rightarrow> char" where
  "char_of_byte b = char_of (unat b)"

text \<open>\<open>static_cast<char>(ch)\<close> of a code point keeps its low eight bits.\<close>

definition cast_char :: "u32 \<Rightarrow> char" where
  "cast_char ch = char_of (unat ch)"

lemma unat_u8_less_256: "unat (b :: u8) < 256"
proof -
  have "unat b < 2 ^ LENGTH(8)" by (rule unsigned_less)
  then show ?thesis by simp
qed

lemma byte_of_char_of_byte [simp]: "byte_of_char (char_of_byte b) = b"
  by (simp add: byte_of_char_def char_of_byte_def unat_u8_less_256)

lemma char_of_byte_of_char [simp]: "char_of_byte (byte_of_char c) = c"
proof -
  have "(of_char c :: nat) < 256"
    by (metis of_char_mod_256 mod_less_divisor zero_less_numeral)
  then show ?thesis
    by (simp add: byte_of_char_def char_of_byte_def unat_of_nat)
qed

text \<open>\<open>s.c_str()\<close> read back by a callee that stops at the first NUL.\<close>

definition c_str :: "string \<Rightarrow> string" where
  "c_str s = takeWhile (\<lambda>c. c \<noteq> CHR 0x00) s"

text \<open>\<open>s.find(c)\<close>: the index of the first occurrence, if any.\<close>

fun find_char :: "char \<Rightarrow> string \<Rightarrow> nat option" where
  "find_char c [] = None"
| "find_char c (x # xs) = (if x = c then Some 0 else map_option Suc (find_char c xs))"

lemma find_char_Some:
  "find_char c s = Some i \<Longrightarrow> i < length s \<and> s ! i = c \<and> c \<notin> set (take i s)"
  by (induction s arbitrary: i) (auto split: if_splits)

lemma find_char_None: "find_char c s = None \<longleftrightarrow> c \<notin> set s"
  by (induction s) auto

end
