(* ===== verification/VtScan.thy ===== *)
theory VtScan
  imports Prelude
begin

text \<open>
  \<open>scanSafeAsciiRun\<close> of \<open>src/src/vtparser.cpp\<close>: the length of the leading run of printable
  ASCII bytes. The source has three bodies, picked when it is compiled: an SSE2 loop over
  16-byte blocks with signed compares, a NEON loop over 16-byte blocks with unsigned compares
  and two 64-bit lanes, and a scalar loop that is also the tail of the other two. All three
  are modelled, down to the lane arithmetic, and \<open>scan_equivalent\<close> shows that they return
  the same index, which the parser's fast path relies on.
\<close>

section \<open>The scalar loop\<close>

fun scanScalar :: "u8 list \<Rightarrow> nat" where
  "scanScalar [] = 0"
| "scanScalar (b # bs) = (if b < 0x20 \<or> b \<ge> 0x7F then 0 else Suc (scanScalar bs))"

definition safeByte :: "u8 \<Rightarrow> bool" where
  "safeByte b \<longleftrightarrow> \<not> (b < 0x20 \<or> b \<ge> 0x7F)"

lemma scanScalar_takeWhile: "scanScalar bs = length (takeWhile safeByte bs)"
  by (induction bs) (auto simp: safeByte_def)

section \<open>SSE2: signed compares and a move mask\<close>

text \<open>
  \<open>_mm_xor_si128\<close> with \<open>0x80\<close>, two \<open>_mm_cmpgt_epi8\<close> against \<open>-96\<close> and \<open>-2\<close>,
  \<open>_mm_or_si128\<close>: whether each byte of the block is interesting.
\<close>

definition sse2Interesting :: "u8 \<Rightarrow> bool" where
  "sse2Interesting b = (let s = b XOR 0x80 in sint s < -96 \<or> sint s > -2)"

text \<open>\<open>_mm_movemask_epi8\<close> packs the bytes' top bits, the first byte in bit 0.\<close>

fun movemask :: "bool list \<Rightarrow> nat" where
  "movemask [] = 0"
| "movemask (b # bs) = (if b then 1 else 0) + 2 * movemask bs"

text \<open>\<open>__builtin_ctz\<close>: the number of trailing zero bits of a non-zero value.\<close>

fun ctz :: "nat \<Rightarrow> nat" where
  "ctz n = (if n = 0 \<or> odd n then 0 else Suc (ctz (n div 2)))"

declare ctz.simps [simp del]

function scanSse2 :: "u8 list \<Rightarrow> nat" where
  "scanSse2 bs =
     (if 16 \<le> length bs then
        (let mask = movemask (map sse2Interesting (take 16 bs))
         in if mask \<noteq> 0 then ctz mask else 16 + scanSse2 (drop 16 bs))
      else scanScalar bs)"
  by pat_completeness auto
termination
  by (relation "measure length") auto

declare scanSse2.simps [simp del]

section \<open>NEON: unsigned compares and two 64-bit lanes\<close>

definition neonInteresting :: "u8 \<Rightarrow> bool" where
  "neonInteresting b \<longleftrightarrow> b < 0x20 \<or> b > 0x7E"

text \<open>A 64-bit lane of eight compare results: byte \<open>i\<close> is \<open>0xFF\<close> or \<open>0\<close>.\<close>

fun lane64 :: "bool list \<Rightarrow> nat" where
  "lane64 [] = 0"
| "lane64 (b # bs) = (if b then 255 else 0) + 256 * lane64 bs"

function scanNeon :: "u8 list \<Rightarrow> nat" where
  "scanNeon bs =
     (if 16 \<le> length bs then
        (let flags = map neonInteresting (take 16 bs);
             lo = lane64 (take 8 flags);
             hi = lane64 (drop 8 flags)
         in if lo \<noteq> 0 then ctz lo div 8
            else if hi \<noteq> 0 then 8 + ctz hi div 8
            else 16 + scanNeon (drop 16 bs))
      else scanScalar bs)"
  by pat_completeness auto
termination
  by (relation "measure length") auto

declare scanNeon.simps [simp del]

section \<open>The compiled function\<close>

datatype simd = SSE2 | NEON | ScalarOnly

definition scanSafeAsciiRun :: "simd \<Rightarrow> u8 list \<Rightarrow> nat" where
  "scanSafeAsciiRun arch bs =
     (case arch of SSE2 \<Rightarrow> scanSse2 bs | NEON \<Rightarrow> scanNeon bs | ScalarOnly \<Rightarrow> scanScalar bs)"

section \<open>The three bodies agree\<close>

lemma sint_xor_0x80: "sint ((b :: u8) XOR 0x80) = uint b - 128"
proof -
  have "\<forall>n < 256. sint ((word_of_nat n :: u8) XOR 0x80) = int n - 128"
    by code_simp
  moreover have "unat b < 256" by (rule unat_u8_less_256)
  moreover have "(word_of_nat (unat b) :: u8) = b" by simp
  ultimately show ?thesis by (metis uint_nat)
qed

lemma sse2Interesting_iff: "sse2Interesting b \<longleftrightarrow> \<not> safeByte b"
  by (auto simp: sse2Interesting_def safeByte_def Let_def sint_xor_0x80
        word_less_def word_le_def)

lemma neonInteresting_iff: "neonInteresting b \<longleftrightarrow> \<not> safeByte b"
  by (auto simp: neonInteresting_def safeByte_def word_less_nat_alt word_le_nat_alt)

lemma ctz_odd: "odd n \<Longrightarrow> ctz n = 0"
  by (simp add: ctz.simps)

lemma ctz_double: "n \<noteq> 0 \<Longrightarrow> ctz (2 * n) = Suc (ctz n)"
  by (subst ctz.simps) simp

lemma ctz_mult_power: "n \<noteq> 0 \<Longrightarrow> ctz (2 ^ k * n) = k + ctz n"
  by (induction k) (simp_all add: ctz_double mult.assoc)

lemma movemask_zero: "movemask fs = 0 \<longleftrightarrow> True \<notin> set fs"
  by (induction fs) auto

lemma ctz_movemask: "movemask fs \<noteq> 0 \<Longrightarrow> ctz (movemask fs) = length (takeWhile Not fs)"
  by (induction fs) (auto simp: ctz_odd ctz_double)

lemma lane64_zero: "lane64 fs = 0 \<longleftrightarrow> True \<notin> set fs"
  by (induction fs) auto

lemma ctz_lane64: "lane64 fs \<noteq> 0 \<Longrightarrow> ctz (lane64 fs) div 8 = length (takeWhile Not fs)"
proof (induction fs)
  case (Cons f fs)
  show ?case
  proof (cases f)
    case True
    then show ?thesis by (simp add: ctz_odd)
  next
    case False
    with Cons.prems have nz: "lane64 fs \<noteq> 0" by simp
    have "ctz (lane64 (f # fs)) = 8 + ctz (lane64 fs)"
      using False ctz_mult_power [OF nz, of 8] by simp
    then show ?thesis using False Cons.IH [OF nz] by simp
  qed
qed simp

lemma takeWhile_Not_map: "takeWhile Not (map (\<lambda>b. \<not> P b) bs) = map (\<lambda>b. \<not> P b) (takeWhile P bs)"
  by (induction bs) auto

lemma takeWhile_split_all:
  "\<forall>b \<in> set (take n bs). P b \<Longrightarrow> n \<le> length bs \<Longrightarrow>
   length (takeWhile P bs) = n + length (takeWhile P (drop n bs))"
proof -
  assume all: "\<forall>b \<in> set (take n bs). P b" and len: "n \<le> length bs"
  have "takeWhile P (take n bs @ drop n bs) = take n bs @ takeWhile P (drop n bs)"
    using all by (intro takeWhile_append2) simp
  then show ?thesis using len by simp
qed

lemma takeWhile_in_block:
  "\<exists>b \<in> set (take n bs). \<not> P b \<Longrightarrow> takeWhile P (take n bs) = takeWhile P bs"
  by (metis append_take_drop_id takeWhile_append1)

lemma scanSse2_correct: "scanSse2 bs = length (takeWhile safeByte bs)"
proof (induction bs rule: scanSse2.induct)
  case (1 bs)
  let ?m = "movemask (map sse2Interesting (take 16 bs))"
  have fs: "map sse2Interesting (take 16 bs) = map (\<lambda>b. \<not> safeByte b) (take 16 bs)"
    by (simp add: sse2Interesting_iff)
  consider "length bs < 16" | "16 \<le> length bs" "?m \<noteq> 0" | "16 \<le> length bs" "?m = 0"
    by linarith
  then show ?case
  proof cases
    case 1
    then show ?thesis by (simp add: scanSse2.simps scanScalar_takeWhile)
  next
    case 2
    then have "\<exists>b \<in> set (take 16 bs). \<not> safeByte b" by (auto simp: movemask_zero fs)
    then have tw: "takeWhile safeByte (take 16 bs) = takeWhile safeByte bs"
      by (rule takeWhile_in_block)
    have "ctz ?m = length (takeWhile safeByte (take 16 bs))"
      using ctz_movemask [OF 2(2)] by (simp add: fs takeWhile_Not_map)
    with 2 tw show ?thesis by (simp add: scanSse2.simps [of bs] Let_def)
  next
    case 3
    then have "\<forall>b \<in> set (take 16 bs). safeByte b" by (auto simp: movemask_zero fs)
    then show ?thesis
      using 3 "1.IH" takeWhile_split_all [of 16 bs safeByte]
      by (simp add: scanSse2.simps [of bs] Let_def)
  qed
qed

lemma scanNeon_correct: "scanNeon bs = length (takeWhile safeByte bs)"
proof (induction bs rule: scanNeon.induct)
  case (1 bs)
  let ?fs = "map neonInteresting (take 16 bs)"
  let ?lo = "lane64 (take 8 ?fs)" and ?hi = "lane64 (drop 8 ?fs)"
  have lo: "take 8 ?fs = map (\<lambda>b. \<not> safeByte b) (take 8 bs)"
    and hi: "drop 8 ?fs = map (\<lambda>b. \<not> safeByte b) (take 8 (drop 8 bs))"
    by (simp_all add: neonInteresting_iff take_map drop_map drop_take)
  consider "length bs < 16" | "16 \<le> length bs" "?lo \<noteq> 0"
    | "16 \<le> length bs" "?lo = 0" "?hi \<noteq> 0" | "16 \<le> length bs" "?lo = 0" "?hi = 0"
    by linarith
  then show ?case
  proof cases
    case 1
    then show ?thesis by (simp add: scanNeon.simps scanScalar_takeWhile)
  next
    case 2
    then have "\<exists>b \<in> set (take 8 bs). \<not> safeByte b" unfolding lo by (auto simp: lane64_zero)
    then have "takeWhile safeByte (take 8 bs) = takeWhile safeByte bs" by (rule takeWhile_in_block)
    then have "ctz ?lo div 8 = length (takeWhile safeByte bs)"
      using ctz_lane64 [OF 2(2)] unfolding lo by (simp add: takeWhile_Not_map)
    with 2 show ?thesis by (simp add: scanNeon.simps [of bs] Let_def)
  next
    case 3
    then have a: "\<forall>b \<in> set (take 8 bs). safeByte b" unfolding lo by (auto simp: lane64_zero)
    from 3 have "\<exists>b \<in> set (take 8 (drop 8 bs)). \<not> safeByte b"
      unfolding hi by (auto simp: lane64_zero)
    then have "takeWhile safeByte (take 8 (drop 8 bs)) = takeWhile safeByte (drop 8 bs)"
      by (rule takeWhile_in_block)
    then have "ctz ?hi div 8 = length (takeWhile safeByte (drop 8 bs))"
      using ctz_lane64 [OF 3(3)] unfolding hi by (simp add: takeWhile_Not_map)
    with 3 show ?thesis
      using takeWhile_split_all [OF a] by (simp add: scanNeon.simps [of bs] Let_def)
  next
    case 4
    then have a: "\<forall>b \<in> set (take 8 bs). safeByte b" unfolding lo by (auto simp: lane64_zero)
    from 4 have "\<forall>b \<in> set (take 8 (drop 8 bs)). safeByte b"
      unfolding hi by (auto simp: lane64_zero)
    then have "length (takeWhile safeByte (drop 8 bs)) = 8 + length (takeWhile safeByte (drop 16 bs))"
      using takeWhile_split_all [of 8 "drop 8 bs" safeByte] 4(1) by simp
    with 4 "1.IH" show ?thesis
      using takeWhile_split_all [OF a] by (simp add: scanNeon.simps [of bs] Let_def)
  qed
qed

lemma scan_equivalent: "scanSafeAsciiRun arch bs = length (takeWhile safeByte bs)"
  by (cases arch) (simp_all add: scanSafeAsciiRun_def scanSse2_correct scanNeon_correct
        scanScalar_takeWhile)

lemma scan_le_length: "scanSafeAsciiRun arch bs \<le> length bs"
  by (simp add: scan_equivalent length_takeWhile_le)

lemma take_scan_safe: "list_all safeByte (take (scanSafeAsciiRun arch bs) bs)"
proof -
  have "take (length (takeWhile safeByte bs)) bs = takeWhile safeByte bs"
    by (metis takeWhile_eq_take)
  then show ?thesis by (simp add: scan_equivalent list_all_iff) (meson set_takeWhileD)
qed

end
