(* ===== verification/VtParser.thy ===== *)
theory VtParser
  imports VtScan
begin

text \<open>
  The escape-sequence parser of \<open>src/src/vtparser.h\<close> and \<open>src/src/vtparser.cpp\<close>: a state
  machine over code points behind an incremental UTF-8 decoder. A handler maps the parser
  state to the actions it passes to the callback, in order, and the new state. The callback
  itself (the grid, or the batch builder) does not reach back into the parser, so the list of
  emitted actions is all of its effect here.
\<close>

section \<open>Actions\<close>

text \<open>
  \<open>VtAction\<close> is a struct with a type tag; each constructor carries the fields that its tag
  gives a meaning. \<open>Print\<close> holds a decoded code point, \<open>PrintRun\<close> the bytes that
  \<open>printRun\<close>/\<open>printRunLen\<close> point at while the callback runs.
\<close>

datatype vt_action =
    Print u32
  | PrintRun "u8 list"
  | Execute char
  | CsiDispatch (finalChar: char) (params: "int list") (colonSep: "bool list")
      (intermediate: string) (paramsTruncated: bool)
  | EscDispatch char string
  | OscEnd string bool
  | DcsEnd string bool
  | ApcEnd string bool

section \<open>State\<close>

datatype vt_state =
    Ground
  | Escape
  | EscapeIntermediate
  | CsiEntry
  | CsiParam
  | CsiIntermediate
  | CsiIgnore
  | OscString
  | OscStringEsc
  | DcsString
  | DcsStringEsc
  | ApcString
  | ApcStringEsc
  | IgnoreString
  | IgnoreStringEsc

record vt_parser =
  m_state :: vt_state
  m_params :: "int list"
  m_colonSep :: "bool list"
  m_nextIsSubParam :: bool
  m_currentParam :: int
  m_intermediate :: string
  m_oscString :: string
  m_dcsString :: string
  m_apcString :: string
  m_stringTruncated :: bool
  m_paramsTruncated :: bool
  m_utf8Accum :: u32
  m_utf8Remaining :: nat
  m_utf8ExpectedLen :: nat

definition vt_init :: vt_parser where
  "vt_init = \<lparr>m_state = Ground, m_params = [], m_colonSep = [], m_nextIsSubParam = False,
     m_currentParam = -1, m_intermediate = '''', m_oscString = '''', m_dcsString = '''',
     m_apcString = '''', m_stringTruncated = False, m_paramsTruncated = False,
     m_utf8Accum = 0, m_utf8Remaining = 0, m_utf8ExpectedLen = 0\<rparr>"

type_synonym vt_step = "vt_parser \<Rightarrow> vt_action list \<times> vt_parser"

definition kMaxParamValue :: int where "kMaxParamValue = 16384"

definition kMaxParams :: nat where "kMaxParams = 32"

definition kMaxStringBytes :: nat where "kMaxStringBytes = 10 * 1024 * 1024"

section \<open>String accumulators\<close>

text \<open>
  \<open>releaseIfLarge\<close> either swaps the buffer away or clears it: the text left is empty in both
  cases, and the capacity it frees is not part of the state.
\<close>

definition releaseIfLarge :: "string \<Rightarrow> string" where
  "releaseIfLarge s = []"

text \<open>The UTF-8 bytes of a code point, as the four branches of \<open>appendUtf8\<close> write them.\<close>

definition utf8_need :: "u32 \<Rightarrow> nat" where
  "utf8_need ch =
     (if ch < 0x80 then 1 else if ch < 0x800 then 2 else if ch < 0x10000 then 3 else 4)"

definition utf8_bytes :: "u32 \<Rightarrow> u32 list" where
  "utf8_bytes ch =
     (if ch < 0x80 then [ch]
      else if ch < 0x800 then
        [0xC0 OR drop_bit 6 ch, 0x80 OR (ch AND 0x3F)]
      else if ch < 0x10000 then
        [0xE0 OR drop_bit 12 ch, 0x80 OR (drop_bit 6 ch AND 0x3F), 0x80 OR (ch AND 0x3F)]
      else
        [0xF0 OR drop_bit 18 ch, 0x80 OR (drop_bit 12 ch AND 0x3F),
         0x80 OR (drop_bit 6 ch AND 0x3F), 0x80 OR (ch AND 0x3F)])"

text \<open>\<open>None\<close> is the \<open>false\<close> the source returns without writing.\<close>

definition appendUtf8 :: "string \<Rightarrow> u32 \<Rightarrow> nat \<Rightarrow> string option" where
  "appendUtf8 out ch maxBytes =
     (if length out + utf8_need ch > maxBytes then None
      else Some (out @ map cast_char (utf8_bytes ch)))"

section \<open>Transitions and emission\<close>

definition transition :: "vt_state \<Rightarrow> vt_parser \<Rightarrow> vt_parser" where
  "transition s p =
     (let p = p\<lparr>m_state := s\<rparr> in
      if s = CsiEntry then
        p\<lparr>m_params := [], m_colonSep := [], m_currentParam := -1, m_nextIsSubParam := False,
          m_paramsTruncated := False, m_intermediate := ''''\<rparr>
      else if s = Escape then p\<lparr>m_intermediate := ''''\<rparr>
      else if s = OscString \<or> s = DcsString \<or> s = ApcString then p\<lparr>m_stringTruncated := False\<rparr>
      else p)"

definition emitExecute :: "u32 \<Rightarrow> vt_step" where
  "emitExecute ch p = ([Execute (cast_char ch)], p)"

definition dispatchEsc :: "u32 \<Rightarrow> vt_step" where
  "dispatchEsc ch p = ([EscDispatch (cast_char ch) (m_intermediate p)], transition Ground p)"

definition dispatchCsi :: "u32 \<Rightarrow> vt_step" where
  "dispatchCsi ch p =
     ([CsiDispatch (cast_char ch) (m_params p) (m_colonSep p) (m_intermediate p)
         (m_paramsTruncated p)],
      transition Ground p)"

definition pushParam :: "int \<Rightarrow> vt_parser \<Rightarrow> vt_parser" where
  "pushParam v p =
     (if length (m_params p) < kMaxParams
      then p\<lparr>m_params := m_params p @ [v], m_colonSep := m_colonSep p @ [m_nextIsSubParam p]\<rparr>
      else p\<lparr>m_paramsTruncated := True\<rparr>)"

text \<open>
  \<open>endString\<close> for each of the three accumulators: the payload is moved out, the accumulator
  released, and the next state entered.
\<close>

definition endOsc :: "vt_state \<Rightarrow> vt_step" where
  "endOsc next p =
     ([OscEnd (m_oscString p) (m_stringTruncated p)],
      transition next (p\<lparr>m_oscString := releaseIfLarge (m_oscString p)\<rparr>))"

definition endDcs :: "vt_state \<Rightarrow> vt_step" where
  "endDcs next p =
     ([DcsEnd (m_dcsString p) (m_stringTruncated p)],
      transition next (p\<lparr>m_dcsString := releaseIfLarge (m_dcsString p)\<rparr>))"

definition endApc :: "vt_state \<Rightarrow> vt_step" where
  "endApc next p =
     ([ApcEnd (m_apcString p) (m_stringTruncated p)],
      transition next (p\<lparr>m_apcString := releaseIfLarge (m_apcString p)\<rparr>))"

text \<open>\<open>None\<close> is \<open>false\<close> with no state change.\<close>

definition reArmStringIntroducer :: "u32 \<Rightarrow> vt_parser \<Rightarrow> vt_parser option" where
  "reArmStringIntroducer ch p =
     (if ch = 0x5D then Some (transition OscString (p\<lparr>m_oscString := ''''\<rparr>))
      else if ch = 0x50 then Some (transition DcsString (p\<lparr>m_dcsString := ''''\<rparr>))
      else if ch = 0x5F then Some (transition ApcString (p\<lparr>m_apcString := ''''\<rparr>))
      else if ch = 0x58 \<or> ch = 0x5E then Some (transition IgnoreString p)
      else None)"

section \<open>CSI states\<close>

definition csiParam :: "u32 \<Rightarrow> vt_step" where
  "csiParam ch p =
     (if 0x30 \<le> ch \<and> ch \<le> 0x39 then
        (let c = (if m_currentParam p < 0 then 0 else m_currentParam p) * 10
                   + int (unat (ch - 0x30))
         in ([], p\<lparr>m_currentParam := (if c > kMaxParamValue then kMaxParamValue else c)\<rparr>))
      else if ch = 0x3B then
        ([], (pushParam (if m_currentParam p < 0 then 0 else m_currentParam p) p)
               \<lparr>m_currentParam := -1, m_nextIsSubParam := False\<rparr>)
      else if 0x20 \<le> ch \<and> ch \<le> 0x2F then
        (let p = (if m_currentParam p \<ge> 0
                  then (pushParam (m_currentParam p) p)
                         \<lparr>m_currentParam := -1, m_nextIsSubParam := False\<rparr>
                  else p)
         in ([], p\<lparr>m_intermediate := m_intermediate p @ [cast_char ch], m_state := CsiIntermediate\<rparr>))
      else if 0x40 \<le> ch \<and> ch \<le> 0x7E then
        (let p = (if m_currentParam p \<ge> 0 then pushParam (m_currentParam p) p else p)
         in dispatchCsi ch (p\<lparr>m_nextIsSubParam := False\<rparr>))
      else if ch = 0x3A then
        ([], (pushParam (if m_currentParam p < 0 then 0 else m_currentParam p) p)
               \<lparr>m_currentParam := -1, m_nextIsSubParam := True\<rparr>)
      else if ch < 0x20 then emitExecute ch p
      else if ch = 0x7F then ([], p)
      else if 0x3C \<le> ch \<and> ch \<le> 0x3F then ([], p\<lparr>m_state := CsiIgnore\<rparr>)
      else ([], transition Ground p))"

definition csiIntermediate :: "u32 \<Rightarrow> vt_step" where
  "csiIntermediate ch p =
     (if 0x20 \<le> ch \<and> ch \<le> 0x2F then
        ([], if length (m_intermediate p) < 8
             then p\<lparr>m_intermediate := m_intermediate p @ [cast_char ch]\<rparr> else p)
      else if 0x40 \<le> ch \<and> ch \<le> 0x7E then dispatchCsi ch p
      else if ch < 0x20 then emitExecute ch p
      else if ch = 0x7F then ([], p)
      else if 0x30 \<le> ch \<and> ch \<le> 0x3F then ([], p\<lparr>m_state := CsiIgnore\<rparr>)
      else ([], transition Ground p))"

definition csiIgnore :: "u32 \<Rightarrow> vt_step" where
  "csiIgnore ch p =
     (if ch < 0x20 then emitExecute ch p
      else if ch \<ge> 0x40 \<and> ch \<noteq> 0x7F then ([], transition Ground p)
      else ([], p))"

definition processCsi :: "u32 \<Rightarrow> vt_step" where
  "processCsi ch p =
     (case m_state p of
        CsiEntry \<Rightarrow>
          (let p = p\<lparr>m_state := CsiParam\<rparr>
           in if 0x3C \<le> ch \<and> ch \<le> 0x3F
              then ([], p\<lparr>m_intermediate := m_intermediate p @ [cast_char ch]\<rparr>)
              else csiParam ch p)
      | CsiParam \<Rightarrow> csiParam ch p
      | CsiIntermediate \<Rightarrow> csiIntermediate ch p
      | CsiIgnore \<Rightarrow> csiIgnore ch p
      | _ \<Rightarrow> ([], p))"

section \<open>String states\<close>

definition processString :: "u32 \<Rightarrow> vt_step" where
  "processString ch p =
     (case m_state p of
        OscString \<Rightarrow>
          (if ch = 0x07 \<or> ch = 0x9C then endOsc Ground p
           else if ch = 0x1B then endOsc OscStringEsc p
           else (case appendUtf8 (m_oscString p) ch kMaxStringBytes of
                   None \<Rightarrow> ([], p\<lparr>m_stringTruncated := True\<rparr>)
                 | Some s \<Rightarrow> ([], p\<lparr>m_oscString := s\<rparr>)))
      | DcsString \<Rightarrow>
          (if ch = 0x07 \<or> ch = 0x9C then endDcs Ground p
           else if ch = 0x1B then endDcs DcsStringEsc p
           else (case appendUtf8 (m_dcsString p) ch kMaxStringBytes of
                   None \<Rightarrow> ([], p\<lparr>m_stringTruncated := True\<rparr>)
                 | Some s \<Rightarrow> ([], p\<lparr>m_dcsString := s\<rparr>)))
      | ApcString \<Rightarrow>
          (if ch = 0x07 \<or> ch = 0x9C then endApc Ground p
           else if ch = 0x1B then endApc ApcStringEsc p
           else (case appendUtf8 (m_apcString p) ch kMaxStringBytes of
                   None \<Rightarrow> ([], p\<lparr>m_stringTruncated := True\<rparr>)
                 | Some s \<Rightarrow> ([], p\<lparr>m_apcString := s\<rparr>)))
      | IgnoreString \<Rightarrow>
          (if ch = 0x07 \<or> ch = 0x9C then ([], transition Ground p)
           else if ch = 0x1B then ([], transition IgnoreStringEsc p)
           else ([], p))
      | OscStringEsc \<Rightarrow>
          (case reArmStringIntroducer ch p of None \<Rightarrow> ([], transition Ground p) | Some q \<Rightarrow> ([], q))
      | DcsStringEsc \<Rightarrow>
          (case reArmStringIntroducer ch p of None \<Rightarrow> ([], transition Ground p) | Some q \<Rightarrow> ([], q))
      | ApcStringEsc \<Rightarrow>
          (case reArmStringIntroducer ch p of None \<Rightarrow> ([], transition Ground p) | Some q \<Rightarrow> ([], q))
      | IgnoreStringEsc \<Rightarrow>
          (case reArmStringIntroducer ch p of None \<Rightarrow> ([], transition Ground p) | Some q \<Rightarrow> ([], q))
      | _ \<Rightarrow> ([], p))"

section \<open>The state machine\<close>

definition groundChar :: "u32 \<Rightarrow> vt_step" where
  "groundChar ch p =
     (if ch < 0x20 then emitExecute ch p
      else if ch = 0x7F then ([], p)
      else if 0x80 \<le> ch \<and> ch \<le> 0x9F then
        (if ch = 0x9B then ([], transition CsiEntry p)
         else (case reArmStringIntroducer (ch - 0x40) p of
                 None \<Rightarrow> emitExecute ch p
               | Some q \<Rightarrow> ([], q)))
      else ([Print ch], p))"

definition escapeChar :: "u32 \<Rightarrow> vt_step" where
  "escapeChar ch p =
     (if ch = 0x5B then ([], transition CsiEntry p)
      else if 0x20 \<le> ch \<and> ch \<le> 0x2F then
        ([], transition EscapeIntermediate (p\<lparr>m_intermediate := [cast_char ch]\<rparr>))
      else if 0x30 \<le> ch \<and> ch \<le> 0x7E then
        (case reArmStringIntroducer ch p of None \<Rightarrow> dispatchEsc ch p | Some q \<Rightarrow> ([], q))
      else if ch < 0x20 then emitExecute ch p
      else ([], transition Ground p))"

definition escapeIntermediateChar :: "u32 \<Rightarrow> vt_step" where
  "escapeIntermediateChar ch p =
     (if 0x20 \<le> ch \<and> ch \<le> 0x2F then
        ([], if length (m_intermediate p) < 8
             then p\<lparr>m_intermediate := m_intermediate p @ [cast_char ch]\<rparr> else p)
      else if 0x30 \<le> ch \<and> ch \<le> 0x7E then dispatchEsc ch p
      else if ch < 0x20 then emitExecute ch p
      else ([], transition Ground p))"

definition isStringState :: "vt_state \<Rightarrow> bool" where
  "isStringState s \<longleftrightarrow> s = OscString \<or> s = DcsString \<or> s = ApcString \<or> s = IgnoreString \<or>
     s = OscStringEsc \<or> s = DcsStringEsc \<or> s = ApcStringEsc \<or> s = IgnoreStringEsc"

text \<open>CAN and SUB: release the accumulator of an aborted string and return to ground.\<close>

definition abortSequence :: "vt_parser \<Rightarrow> vt_parser" where
  "abortSequence p =
     transition Ground
       (if m_state p = OscString then p\<lparr>m_oscString := releaseIfLarge (m_oscString p)\<rparr>
        else if m_state p = DcsString then p\<lparr>m_dcsString := releaseIfLarge (m_dcsString p)\<rparr>
        else if m_state p = ApcString then p\<lparr>m_apcString := releaseIfLarge (m_apcString p)\<rparr>
        else p)"

definition stateSwitch :: "u32 \<Rightarrow> vt_step" where
  "stateSwitch ch p =
     (case m_state p of
        Ground \<Rightarrow> groundChar ch p
      | Escape \<Rightarrow> escapeChar ch p
      | EscapeIntermediate \<Rightarrow> escapeIntermediateChar ch p
      | CsiEntry \<Rightarrow> processCsi ch p
      | CsiParam \<Rightarrow> processCsi ch p
      | CsiIntermediate \<Rightarrow> processCsi ch p
      | CsiIgnore \<Rightarrow> processCsi ch p
      | _ \<Rightarrow> processString ch p)"

definition processChar :: "u32 \<Rightarrow> vt_step" where
  "processChar ch p =
     (if ch = 0x1B \<and> \<not> isStringState (m_state p) then ([], transition Escape p)
      else if ch = 0x18 \<or> ch = 0x1A then ([], abortSequence p)
      else stateSwitch ch p)"

section \<open>UTF-8 decoding and the feed loop\<close>

definition utf8_valid :: "u32 \<Rightarrow> nat \<Rightarrow> bool" where
  "utf8_valid acc expected =
     (if acc < 0x80 then False
      else if acc < 0x800 \<and> expected \<ge> 3 then False
      else if acc < 0x10000 \<and> expected \<ge> 4 then False
      else if acc \<ge> 0xD800 \<and> acc \<le> 0xDFFF then False
      else if acc > 0x10FFFF then False
      else True)"

text \<open>The part of \<open>feedByte\<close> that starts a new character.\<close>

definition leadByte :: "u8 \<Rightarrow> vt_step" where
  "leadByte byte p =
     (if byte \<le> 0x9F then processChar (ucast byte) p
      else if byte AND 0xE0 = 0xC0 then
        ([], p\<lparr>m_utf8Accum := ucast byte AND 0x1F, m_utf8Remaining := 1, m_utf8ExpectedLen := 2\<rparr>)
      else if byte AND 0xF0 = 0xE0 then
        ([], p\<lparr>m_utf8Accum := ucast byte AND 0x0F, m_utf8Remaining := 2, m_utf8ExpectedLen := 3\<rparr>)
      else if byte AND 0xF8 = 0xF0 then
        ([], p\<lparr>m_utf8Accum := ucast byte AND 0x07, m_utf8Remaining := 3, m_utf8ExpectedLen := 4\<rparr>)
      else processChar 0xFFFD p)"

definition feedByte :: "u8 \<Rightarrow> vt_step" where
  "feedByte byte p =
     (if m_utf8Remaining p > 0 then
        (if byte AND 0xC0 = 0x80 then
           (let p = p\<lparr>m_utf8Accum := push_bit 6 (m_utf8Accum p) OR (ucast byte AND 0x3F),
                      m_utf8Remaining := m_utf8Remaining p - 1\<rparr>
            in if m_utf8Remaining p = 0
               then processChar (if utf8_valid (m_utf8Accum p) (m_utf8ExpectedLen p)
                                 then m_utf8Accum p else 0xFFFD) p
               else ([], p))
         else
           (let (o1, p1) = processChar 0xFFFD (p\<lparr>m_utf8Remaining := 0\<rparr>);
                (o2, p2) = leadByte byte p1
            in (o1 @ o2, p2)))
      else leadByte byte p)"

text \<open>
  One pass of the \<open>while\<close> loop of \<open>feed\<close> emits the printable-ASCII run at the head of the
  buffer, if the parser is in ground state with no pending UTF-8 bytes, and hands the byte
  after it to \<open>feedByte\<close>.
\<close>

function feed :: "simd \<Rightarrow> u8 list \<Rightarrow> vt_step" where
  "feed arch data p =
     (if data = [] then ([], p)
      else
        (let run = (if m_state p = Ground \<and> m_utf8Remaining p = 0
                    then scanSafeAsciiRun arch data else 0);
             o1 = (if run > 0 then [PrintRun (take run data)] else [])
         in (case drop run data of
               [] \<Rightarrow> (o1, p)
             | b # bs \<Rightarrow>
                 (let (o2, p2) = feedByte b p;
                      (o3, p3) = feed arch bs p2
                  in (o1 @ o2 @ o3, p3)))))"
  by pat_completeness auto
termination
proof (relation "measure (\<lambda>(arch, data, p). length data)")
  fix arch :: simd and data :: "u8 list" and p run o1 b bs y o2 p2
  assume "drop run data = b # bs"
  then have "Suc (length bs) = length data - run"
    by (metis length_Cons length_drop)
  then show "((arch, bs, p2), arch, data, p) \<in> measure (\<lambda>(arch, data, p). length data)"
    by auto
qed simp

declare feed.simps [simp del]

lemmas vtp_defs [vtp_simps] = transition_def emitExecute_def dispatchEsc_def dispatchCsi_def
  pushParam_def endOsc_def endDcs_def endApc_def reArmStringIntroducer_def csiParam_def
  csiIntermediate_def csiIgnore_def processCsi_def processString_def groundChar_def
  escapeChar_def escapeIntermediateChar_def abortSequence_def releaseIfLarge_def

end
