(* ===== verification/Transducer.thy ===== *)
theory Transducer
  imports Prelude
begin

text \<open>
  The two contracts every step function of this development is used under: a step that keeps
  an invariant and emits only outputs of an agreed form, and a step that two states cannot
  tell apart. Each is stated once as a locale over an arbitrary step function and lifted to
  runs there; the parser and the grid interpret them.
\<close>

fun run_steps :: "('b \<Rightarrow> 's \<Rightarrow> 'o list \<times> 's) \<Rightarrow> 'b list \<Rightarrow> 's \<Rightarrow> 'o list \<times> 's" where
  "run_steps step [] s = ([], s)"
| "run_steps step (b # bs) s =
     (let (o1, s1) = step b s; (o2, s2) = run_steps step bs s1 in (o1 @ o2, s2))"

lemma run_steps_append:
  "run_steps step (xs @ ys) s =
     (let (o1, s1) = run_steps step xs s; (o2, s2) = run_steps step ys s1 in (o1 @ o2, s2))"
  by (induction xs arbitrary: s) (auto split: prod.splits)

lemma fst_run_append:
  "fst (run_steps step (xs @ ys) s) =
     fst (run_steps step xs s) @ fst (run_steps step ys (snd (run_steps step xs s)))"
  by (simp add: run_steps_append split: prod.splits)

lemma snd_run_append:
  "snd (run_steps step (xs @ ys) s) = snd (run_steps step ys (snd (run_steps step xs s)))"
  by (simp add: run_steps_append split: prod.splits)

lemma run_steps_Cons:
  "fst (run_steps step (b # bs) s) = fst (step b s) @ fst (run_steps step bs (snd (step b s)))"
  "snd (run_steps step (b # bs) s) = snd (run_steps step bs (snd (step b s)))"
  by (simp_all split: prod.splits)

section \<open>Invariants\<close>

locale step_invariant =
  fixes step :: "'b \<Rightarrow> 's \<Rightarrow> 'o list \<times> 's"
    and inp :: "'b \<Rightarrow> bool"
    and inv :: "'s \<Rightarrow> bool"
    and ok :: "'o \<Rightarrow> bool"
  assumes step_keeps: "inp b \<Longrightarrow> inv s \<Longrightarrow> inv (snd (step b s))"
    and step_emits: "inp b \<Longrightarrow> inv s \<Longrightarrow> list_all ok (fst (step b s))"
begin

lemma run_keeps: "list_all inp bs \<Longrightarrow> inv s \<Longrightarrow> inv (snd (run_steps step bs s))"
proof (induction bs arbitrary: s)
  case (Cons b bs)
  then show ?case using step_keeps [of b s] by (simp add: run_steps_Cons del: run_steps.simps)
qed simp

lemma run_emits: "list_all inp bs \<Longrightarrow> inv s \<Longrightarrow> list_all ok (fst (run_steps step bs s))"
proof (induction bs arbitrary: s)
  case (Cons b bs)
  then show ?case
    using step_keeps [of b s] step_emits [of b s]
    by (simp add: run_steps_Cons del: run_steps.simps)
qed simp

end

section \<open>States no input tells apart\<close>

locale step_simulation =
  fixes step :: "'b \<Rightarrow> 's \<Rightarrow> 'o list \<times> 's"
    and sim :: "'s \<Rightarrow> 's \<Rightarrow> bool"
  assumes sim_output: "sim s t \<Longrightarrow> fst (step b s) = fst (step b t)"
    and sim_step: "sim s t \<Longrightarrow> sim (snd (step b s)) (snd (step b t))"
begin

lemma run_sim: "sim s t \<Longrightarrow> sim (snd (run_steps step bs s)) (snd (run_steps step bs t))"
proof (induction bs arbitrary: s t)
  case (Cons b bs)
  then show ?case by (simp add: run_steps_Cons sim_step del: run_steps.simps)
qed simp

lemma run_output: "sim s t \<Longrightarrow> fst (run_steps step bs s) = fst (run_steps step bs t)"
proof (induction bs arbitrary: s t)
  case (Cons b bs)
  then show ?case
    using sim_output [of s t b] sim_step [of s t b]
    by (simp add: run_steps_Cons del: run_steps.simps)
qed simp

end

end
