(* ===== verification/VtParserInv.thy ===== *)
theory VtParserInv
  imports VtParser Transducer
begin

text \<open>
  What the parser keeps true and what it may emit. \<open>parser_inv\<close> bounds every accumulator a
  hostile stream can reach (32 parameters of at most 16384, eight intermediate bytes, 10 MiB
  strings), \<open>action_ok\<close> is the contract the consumers of an action rely on, and
  \<open>feed_inv\<close> lifts both from one byte to any buffer.
\<close>

section \<open>The byte-at-a-time reference\<close>

text \<open>The parser driven one byte at a time, without the fast path.\<close>

definition feedAll :: "u8 list \<Rightarrow> vt_step" where
  "feedAll = run_steps feedByte"

lemma feedAll_Nil [simp]: "feedAll [] p = ([], p)"
  by (simp add: feedAll_def)

lemma feedAll_Cons:
  "feedAll (b # bs) p =
     (let (o1, p1) = feedByte b p; (o2, p2) = feedAll bs p1 in (o1 @ o2, p2))"
  by (simp add: feedAll_def)

section \<open>Invariant\<close>

definition param_range :: "int \<Rightarrow> bool" where
  "param_range v \<longleftrightarrow> 0 \<le> v \<and> v \<le> kMaxParamValue"

definition inter_ok :: "vt_state \<Rightarrow> string \<Rightarrow> bool" where
  "inter_ok s i \<longleftrightarrow>
     length i \<le> (if s = CsiEntry then 0 else if s = CsiParam then 1 else 8)"

definition parser_inv :: "vt_parser \<Rightarrow> bool" where
  "parser_inv p \<longleftrightarrow>
     length (m_params p) = length (m_colonSep p) \<and> length (m_params p) \<le> kMaxParams \<and>
     list_all param_range (m_params p) \<and>
     -1 \<le> m_currentParam p \<and> m_currentParam p \<le> kMaxParamValue \<and>
     inter_ok (m_state p) (m_intermediate p) \<and>
     length (m_oscString p) \<le> kMaxStringBytes \<and> length (m_dcsString p) \<le> kMaxStringBytes \<and>
     length (m_apcString p) \<le> kMaxStringBytes \<and> m_utf8Remaining p \<le> 3"

definition scalar_value :: "u32 \<Rightarrow> bool" where
  "scalar_value ch \<longleftrightarrow> ch \<le> 0x10FFFF \<and> \<not> (0xD800 \<le> ch \<and> ch \<le> 0xDFFF)"

fun action_ok :: "vt_action \<Rightarrow> bool" where
  "action_ok (Print cp) \<longleftrightarrow>
     scalar_value cp \<and> 0x20 \<le> cp \<and> \<not> (0x7F \<le> cp \<and> cp \<le> 0x9F)"
| "action_ok (PrintRun bs) \<longleftrightarrow> bs \<noteq> [] \<and> list_all safeByte bs"
| "action_ok (Execute c) \<longleftrightarrow>
     (let n = (of_char c :: nat) in n < 0x20 \<or> 0x80 \<le> n \<and> n \<le> 0x9F)"
| "action_ok (CsiDispatch f ps cs im tr) \<longleftrightarrow>
     (let n = (of_char f :: nat) in 0x40 \<le> n \<and> n \<le> 0x7E) \<and>
     length ps = length cs \<and> length ps \<le> kMaxParams \<and> list_all param_range ps \<and>
     length im \<le> 8"
| "action_ok (EscDispatch f im) \<longleftrightarrow>
     (let n = (of_char f :: nat) in 0x30 \<le> n \<and> n \<le> 0x7E) \<and> length im \<le> 8"
| "action_ok (OscEnd s tr) \<longleftrightarrow> length s \<le> kMaxStringBytes"
| "action_ok (DcsEnd s tr) \<longleftrightarrow> length s \<le> kMaxStringBytes"
| "action_ok (ApcEnd s tr) \<longleftrightarrow> length s \<le> kMaxStringBytes"

definition step_ok :: "vt_action list \<times> vt_parser \<Rightarrow> bool" where
  "step_ok r \<longleftrightarrow> list_all action_ok (fst r) \<and> parser_inv (snd r)"

lemma parser_inv_init: "parser_inv vt_init"
  by (simp add: parser_inv_def vt_init_def inter_ok_def kMaxParamValue_def)

lemma of_char_cast_char: "ch \<le> 0xFF \<Longrightarrow> (of_char (cast_char ch) :: nat) = unat ch"
  by (simp add: cast_char_def word_le_nat_alt)

section \<open>Each handler keeps the invariant\<close>

lemma inv_transition: "parser_inv p \<Longrightarrow> s \<noteq> CsiParam \<Longrightarrow> parser_inv (transition s p)"
  by (auto simp: parser_inv_def transition_def Let_def inter_ok_def kMaxParamValue_def
      split: if_splits)

lemma inv_pushParam:
  "parser_inv p \<Longrightarrow> param_range v \<Longrightarrow> parser_inv (pushParam v p)"
  by (auto simp: parser_inv_def pushParam_def)

lemma inter_ok_le_8: "inter_ok s i \<Longrightarrow> length i \<le> 8"
  by (auto simp: inter_ok_def split: if_splits)

lemma inter_ok_weaken: "inter_ok s i \<Longrightarrow> s' \<noteq> CsiEntry \<Longrightarrow> s' \<noteq> CsiParam \<Longrightarrow> inter_ok s' i"
  by (auto simp: inter_ok_def split: if_splits)

lemma emitExecute_ok:
  "parser_inv p \<Longrightarrow> ch < 0x20 \<or> 0x80 \<le> ch \<and> ch \<le> 0x9F \<Longrightarrow> step_ok (emitExecute ch p)"
  by (auto simp: step_ok_def emitExecute_def of_char_cast_char word_le_nat_alt word_less_nat_alt)

lemma dispatchEsc_ok:
  "parser_inv p \<Longrightarrow> 0x30 \<le> ch \<Longrightarrow> ch \<le> 0x7E \<Longrightarrow> step_ok (dispatchEsc ch p)"
  by (auto simp: step_ok_def dispatchEsc_def inv_transition of_char_cast_char word_le_nat_alt
      parser_inv_def [of p] dest: inter_ok_le_8)

lemma dispatchCsi_ok:
  "parser_inv p \<Longrightarrow> 0x40 \<le> ch \<Longrightarrow> ch \<le> 0x7E \<Longrightarrow> step_ok (dispatchCsi ch p)"
  by (auto simp: step_ok_def dispatchCsi_def inv_transition of_char_cast_char word_le_nat_alt
      parser_inv_def [of p] dest: inter_ok_le_8)

lemma digit_value: "0x30 \<le> (ch :: u32) \<Longrightarrow> ch \<le> 0x39 \<Longrightarrow> unat (ch - 0x30) \<le> 9"
  by (simp add: word_le_nat_alt unat_sub_if')

lemma inv_subParam [simp]: "parser_inv (p\<lparr>m_nextIsSubParam := b\<rparr>) = parser_inv p"
  by (simp add: parser_inv_def)

lemma inv_currentParam:
  "parser_inv p \<Longrightarrow> -1 \<le> v \<Longrightarrow> v \<le> kMaxParamValue \<Longrightarrow> parser_inv (p\<lparr>m_currentParam := v\<rparr>)"
  by (simp add: parser_inv_def)

lemma inv_current_range: "parser_inv p \<Longrightarrow> param_range (if m_currentParam p < 0 then 0 else m_currentParam p)"
  by (simp add: parser_inv_def param_range_def kMaxParamValue_def)

lemma pushParam_frame [simp]:
  "m_state (pushParam v p) = m_state p" "m_intermediate (pushParam v p) = m_intermediate p"
  "m_currentParam (pushParam v p) = m_currentParam p"
  by (simp_all add: pushParam_def)

lemma inv_to_state:
  "parser_inv p \<Longrightarrow> s \<noteq> CsiEntry \<Longrightarrow> s \<noteq> CsiParam \<Longrightarrow> parser_inv (p\<lparr>m_state := s\<rparr>)"
  by (auto simp: parser_inv_def intro: inter_ok_weaken)

lemma inv_add_intermediate:
  "parser_inv p \<Longrightarrow> length (m_intermediate p) < 8 \<Longrightarrow> s \<noteq> CsiEntry \<Longrightarrow> s \<noteq> CsiParam \<Longrightarrow>
   parser_inv (p\<lparr>m_intermediate := m_intermediate p @ [c], m_state := s\<rparr>)"
  by (simp add: parser_inv_def inter_ok_def)

lemma csiParam_ok:
  assumes inv: "parser_inv p" and st: "m_state p = CsiParam"
  shows "step_ok (csiParam ch p)"
proof -
  let ?cur = "if m_currentParam p < 0 then 0 else m_currentParam p"
  have cur: "param_range ?cur" using inv by (rule inv_current_range)
  have len1: "length (m_intermediate p) \<le> 1"
    using inv st by (simp add: parser_inv_def inter_ok_def)
  have digit: "step_ok ([], p\<lparr>m_currentParam := (if ?cur * 10 + int (unat (ch - 0x30)) > kMaxParamValue
      then kMaxParamValue else ?cur * 10 + int (unat (ch - 0x30)))\<rparr>)"
  proof -
    have "(0::int) \<le> int (unat (ch - 0x30))" by (rule of_nat_0_le_iff)
    moreover have "0 \<le> ?cur" using cur by (simp only: param_range_def)
    ultimately have "-1 \<le> ?cur * 10 + int (unat (ch - 0x30))" by linarith
    then show ?thesis
      using inv_currentParam [OF inv] by (simp del: of_nat_unat add: step_ok_def kMaxParamValue_def)
  qed
  have sep: "step_ok ([], (pushParam ?cur p)\<lparr>m_currentParam := -1, m_nextIsSubParam := b\<rparr>)" for b
    using inv_currentParam [OF inv_pushParam [OF inv cur], of "-1"]
    by (simp add: step_ok_def kMaxParamValue_def)
  have pushed: "m_currentParam p \<ge> 0 \<Longrightarrow> parser_inv (pushParam (m_currentParam p) p)"
    using inv_pushParam [OF inv cur] by (simp split: if_splits)
  have inter: "step_ok ([], q\<lparr>m_intermediate := m_intermediate q @ [c], m_state := CsiIntermediate\<rparr>)"
    if "parser_inv q" "m_intermediate q = m_intermediate p" for q c
    using inv_add_intermediate [OF that(1)] that(2) len1 by (simp add: step_ok_def)
  have inter2: "parser_inv ((pushParam (m_currentParam p) p)
      \<lparr>m_currentParam := -1, m_nextIsSubParam := False\<rparr>)" if "m_currentParam p \<ge> 0"
    using inv_currentParam [OF pushed [OF that], of "-1"] by (simp add: kMaxParamValue_def)
  show ?thesis
    unfolding csiParam_def Let_def
    using digit sep inter [OF inv] inter [OF inter2] inv pushed
    by (auto simp: dispatchCsi_ok emitExecute_ok inv_transition inv_to_state
        step_ok_def [of "([], _)"])
qed

lemma csiIntermediate_ok:
  "parser_inv p \<Longrightarrow> m_state p = CsiIntermediate \<Longrightarrow> step_ok (csiIntermediate ch p)"
  unfolding csiIntermediate_def
  by (auto simp: dispatchCsi_ok emitExecute_ok inv_transition inv_to_state
      step_ok_def [of "([], _)"]) (auto simp: parser_inv_def inter_ok_def)

lemma csiIgnore_ok: "parser_inv p \<Longrightarrow> step_ok (csiIgnore ch p)"
  unfolding csiIgnore_def
  by (auto simp: emitExecute_ok inv_transition step_ok_def [of "([], _)"])

lemma processCsi_ok: "parser_inv p \<Longrightarrow> step_ok (processCsi ch p)"
proof (cases "m_state p")
  case CsiEntry
  assume inv: "parser_inv p"
  have inv2: "parser_inv (p\<lparr>m_state := CsiParam\<rparr>)"
    and empty: "m_intermediate p = []"
    using inv CsiEntry by (auto simp: parser_inv_def inter_ok_def)
  have "parser_inv (p\<lparr>m_state := CsiParam, m_intermediate := [cast_char ch]\<rparr>)"
    using inv2 by (simp add: parser_inv_def inter_ok_def)
  then show ?thesis
    using csiParam_ok [OF inv2, of ch] empty
    by (simp add: processCsi_def CsiEntry Let_def step_ok_def)
qed (simp_all add: processCsi_def csiParam_ok csiIntermediate_ok csiIgnore_ok step_ok_def [of "([], _)"])

lemma appendUtf8_length: "appendUtf8 out ch m = Some s \<Longrightarrow> length s \<le> m"
  by (auto simp: appendUtf8_def utf8_need_def utf8_bytes_def split: if_splits)

lemma reArm_inv: "parser_inv p \<Longrightarrow> reArmStringIntroducer ch p = Some q \<Longrightarrow> parser_inv q"
proof -
  assume p: "parser_inv p"
  then have "parser_inv (p\<lparr>m_oscString := []\<rparr>)" "parser_inv (p\<lparr>m_dcsString := []\<rparr>)"
    "parser_inv (p\<lparr>m_apcString := []\<rparr>)"
    by (simp_all add: parser_inv_def)
  from inv_transition [OF this(1)] inv_transition [OF this(2)] inv_transition [OF this(3)] inv_transition [OF p]
  show "reArmStringIntroducer ch p = Some q \<Longrightarrow> ?thesis"
    by (auto simp: reArmStringIntroducer_def simp del: One_nat_def split: if_split_asm)
qed

lemma end_strings_ok:
  assumes "parser_inv p" "s \<noteq> CsiParam"
  shows "step_ok (endOsc s p)" "step_ok (endDcs s p)" "step_ok (endApc s p)"
  using assms
  by (auto simp: step_ok_def endOsc_def endDcs_def endApc_def releaseIfLarge_def
      intro!: inv_transition) (auto simp: parser_inv_def)

lemma inv_strings:
  assumes "parser_inv p" "length s \<le> kMaxStringBytes"
  shows "parser_inv (p\<lparr>m_oscString := s\<rparr>)" "parser_inv (p\<lparr>m_dcsString := s\<rparr>)"
    "parser_inv (p\<lparr>m_apcString := s\<rparr>)" "parser_inv (p\<lparr>m_stringTruncated := b\<rparr>)"
  using assms by (simp_all add: parser_inv_def)

lemma processString_ok: "parser_inv p \<Longrightarrow> step_ok (processString ch p)"
  unfolding processString_def
  by (cases "m_state p")
    (auto simp: end_strings_ok inv_strings [of p "[]"] inv_transition reArm_inv
      step_ok_def [of "([], _)"] intro!: inv_strings(1-3) dest: appendUtf8_length split: option.splits)

lemma groundChar_ok: "parser_inv p \<Longrightarrow> scalar_value ch \<Longrightarrow> step_ok (groundChar ch p)"
proof -
  assume inv: "parser_inv p" and sc: "scalar_value ch"
  have "step_ok ([Print ch], p)"
    if "\<not> ch < 0x20" "ch \<noteq> 0x7F" "\<not> (0x80 \<le> ch \<and> ch \<le> 0x9F)"
  proof -
    have "\<not> (0x7F \<le> ch \<and> ch \<le> 0x9F)"
      using that(2,3) unfolding word_le_nat_alt word_unat_eq_iff by simp
    then show ?thesis using that inv sc by (simp add: step_ok_def not_less)
  qed
  then show ?thesis
    unfolding groundChar_def using inv
    by (auto simp: emitExecute_ok inv_transition reArm_inv step_ok_def [of "([], _)"]
        split: option.splits)
qed

lemma escapeChar_ok: "parser_inv p \<Longrightarrow> step_ok (escapeChar ch p)"
  unfolding escapeChar_def
  by (auto simp: emitExecute_ok inv_transition dispatchEsc_ok reArm_inv step_ok_def [of "([], _)"]
      split: option.splits) (auto simp: parser_inv_def transition_def Let_def inter_ok_def)

lemma escapeIntermediateChar_ok:
  "parser_inv p \<Longrightarrow> m_state p = EscapeIntermediate \<Longrightarrow> step_ok (escapeIntermediateChar ch p)"
  unfolding escapeIntermediateChar_def
  by (auto simp: emitExecute_ok inv_transition dispatchEsc_ok step_ok_def [of "([], _)"])
    (auto simp: parser_inv_def inter_ok_def)

lemma abortSequence_inv: "parser_inv p \<Longrightarrow> parser_inv (abortSequence p)"
  by (simp add: abortSequence_def releaseIfLarge_def inv_transition inv_strings)

lemma stateSwitch_ok: "parser_inv p \<Longrightarrow> scalar_value ch \<Longrightarrow> step_ok (stateSwitch ch p)"
  unfolding stateSwitch_def
  by (cases "m_state p")
    (simp_all add: groundChar_ok escapeChar_ok escapeIntermediateChar_ok processCsi_ok
      processString_ok)

lemma processChar_ok: "parser_inv p \<Longrightarrow> scalar_value ch \<Longrightarrow> step_ok (processChar ch p)"
  unfolding processChar_def
  by (auto simp: stateSwitch_ok inv_transition abortSequence_inv step_ok_def [of "([], _)"])

section \<open>Bytes and buffers\<close>

lemma scalar_replacement [simp]: "scalar_value 0xFFFD"
  by (simp add: scalar_value_def)

lemma unat_ucast_u8: "unat (ucast (b :: u8) :: u32) = unat b"
proof -
  have "unat b < 2 ^ 32" using unat_u8_less_256 [of b] by simp
  then show ?thesis by (simp add: unsigned_ucast_eq take_bit_nat_eq_self)
qed

lemma scalar_byte: "scalar_value (ucast (b :: u8))"
  using unat_u8_less_256 [of b] by (simp add: scalar_value_def word_le_nat_alt unat_ucast_u8)

lemma scalar_utf8_valid: "utf8_valid acc n \<Longrightarrow> scalar_value acc"
  by (auto simp: utf8_valid_def scalar_value_def split: if_splits)

lemma inv_utf8:
  "parser_inv p \<Longrightarrow> n \<le> 3 \<Longrightarrow>
   parser_inv (p\<lparr>m_utf8Accum := a, m_utf8Remaining := n, m_utf8ExpectedLen := e\<rparr>)"
  by (simp add: parser_inv_def)

lemma leadByte_ok: "parser_inv p \<Longrightarrow> step_ok (leadByte b p)"
  unfolding leadByte_def
  by (auto simp: processChar_ok scalar_byte inv_utf8 step_ok_def [of "([], _)"])

lemma step_ok_seq:
  "step_ok r \<Longrightarrow> (\<And>q. parser_inv q \<Longrightarrow> step_ok (f q)) \<Longrightarrow>
   step_ok (let (o1, p1) = r; (o2, p2) = f p1 in (o1 @ o2, p2))"
  by (auto simp: step_ok_def split: prod.splits) (metis fst_conv snd_conv)+

lemma feedByte_ok:
  assumes inv: "parser_inv p"
  shows "step_ok (feedByte b p)"
proof -
  have rem: "parser_inv (p\<lparr>m_utf8Remaining := 0\<rparr>)"
    using inv by (simp add: parser_inv_def)
  have cont: "parser_inv (p\<lparr>m_utf8Accum := a, m_utf8Remaining := m_utf8Remaining p - 1\<rparr>)" for a
    using inv by (auto simp: parser_inv_def)
  have bad: "step_ok (let (o1, p1) = processChar 0xFFFD (p\<lparr>m_utf8Remaining := 0\<rparr>);
      (o2, p2) = leadByte b p1 in (o1 @ o2, p2))"
    using rem by (intro step_ok_seq) (simp_all add: processChar_ok leadByte_ok)
  show ?thesis
    unfolding feedByte_def Let_def [of "p\<lparr>m_utf8Accum := _, m_utf8Remaining := _\<rparr>"]
    using leadByte_ok [OF inv] cont bad
    by (auto simp: processChar_ok scalar_utf8_valid step_ok_def [of "([], _)"]
        simp del: One_nat_def split del: prod.split)
qed

interpretation vtp: step_invariant feedByte "\<lambda>_. True" parser_inv action_ok
  using feedByte_ok by unfold_locales (auto simp: step_ok_def)

lemma feedAll_ok: "parser_inv p \<Longrightarrow> step_ok (feedAll bs p)"
  by (simp add: step_ok_def feedAll_def vtp.run_keeps vtp.run_emits list_all_iff [of "\<lambda>_. True"])

lemma feed_Nil [simp]: "feed arch [] p = ([], p)"
  by (simp add: feed.simps)

lemma feed_ok: "parser_inv p \<Longrightarrow> step_ok (feed arch bs p)"
proof (induction arch bs p rule: feed.induct)
  case (1 arch data p)
  define run where
    "run = (if m_state p = Ground \<and> m_utf8Remaining p = 0 then scanSafeAsciiRun arch data else 0)"
  define o1 where "o1 = (if run > 0 then [PrintRun (take run data)] else [])"
  have o1: "list_all action_ok o1" if "data \<noteq> []"
    using that take_scan_safe [of arch data] by (auto simp: o1_def run_def)
  have feed: "feed arch data p =
     (if data = [] then ([], p)
      else (case drop run data of [] \<Rightarrow> (o1, p)
        | b # bs \<Rightarrow> (let (o2, p2) = feedByte b p; (o3, p3) = feed arch bs p2 in (o1 @ o2 @ o3, p3))))"
    unfolding feed.simps [of arch data p] run_def o1_def by (simp only: Let_def)
  show ?case
  proof (cases "drop run data")
    case Nil
    then show ?thesis using "1.prems" o1 by (auto simp: feed step_ok_def)
  next
    case (Cons b bs)
    obtain o2 p2 where b: "feedByte b p = (o2, p2)" by (cases "feedByte b p")
    have ok2: "list_all action_ok o2" "parser_inv p2"
      using feedByte_ok [OF "1.prems", of b] by (simp_all add: b step_ok_def)
    have ne: "data \<noteq> []" using Cons by auto
    have "step_ok (feed arch bs p2)"
      using "1.IH" [OF ne run_def refl Cons b [symmetric] refl ok2(2)] .
    then show ?thesis
      using ok2 o1 [OF ne] ne by (auto simp: feed Cons b step_ok_def split: prod.splits)
  qed
qed

end
