(* ===== verification/VtParserFeed.thy ===== *)
theory VtParserFeed
  imports VtParserInv
begin

text \<open>
  Three facts about \<open>VtParser::feed\<close> as a whole. The coalescing fast path is invisible: with
  each printable run expanded to one \<open>Print\<close> per byte, \<open>feed\<close> emits what the byte-at-a-time
  machine emits and leaves the same state, whichever SIMD body was compiled in. So the way
  the input is cut into buffers does not matter either. And a CAN or SUB byte resynchronises
  the parser from any state, whatever an earlier stream left in its accumulators.
\<close>

section \<open>Expanding coalesced runs\<close>

fun expand_action :: "vt_action \<Rightarrow> vt_action list" where
  "expand_action (PrintRun bs) = map (\<lambda>b. Print (ucast b)) bs"
| "expand_action a = [a]"

definition expand :: "vt_action list \<Rightarrow> vt_action list" where
  "expand as = concat (map expand_action as)"

lemma expand_simps [simp]:
  "expand [] = []" "expand (a # as) = expand_action a @ expand as"
  "expand (xs @ ys) = expand xs @ expand ys"
  by (simp_all add: expand_def)

fun single :: "vt_action \<Rightarrow> bool" where
  "single (PrintRun bs) \<longleftrightarrow> False"
| "single a \<longleftrightarrow> True"

lemma expand_single: "list_all single as \<Longrightarrow> expand as = as"
proof (induction as)
  case (Cons a as)
  then show ?case by (cases a) auto
qed simp

text \<open>The state machine itself never emits a run.\<close>

lemma csi_single:
  "list_all single (fst (csiParam ch p))" "list_all single (fst (csiIntermediate ch p))"
  "list_all single (fst (csiIgnore ch p))"
  by (simp_all add: csiParam_def csiIntermediate_def csiIgnore_def emitExecute_def
      dispatchCsi_def Let_def)

lemma processCsi_single: "list_all single (fst (processCsi ch p))"
  by (cases "m_state p") (simp_all add: processCsi_def Let_def csi_single)

lemma processString_single: "list_all single (fst (processString ch p))"
  by (cases "m_state p")
    (simp_all add: processString_def endOsc_def endDcs_def endApc_def split: option.split)

lemma processChar_single: "list_all single (fst (processChar ch p))"
proof -
  have "list_all single (fst (stateSwitch ch p))"
    by (cases "m_state p")
      (simp_all add: stateSwitch_def processCsi_single processString_single groundChar_def
        escapeChar_def escapeIntermediateChar_def emitExecute_def dispatchEsc_def split: option.split)
  then show ?thesis by (simp add: processChar_def)
qed

lemma leadByte_single: "list_all single (fst (leadByte b p))"
  by (simp add: leadByte_def processChar_single)

lemma feedByte_single: "list_all single (fst (feedByte b p))"
  by (auto simp: feedByte_def Let_def processChar_single leadByte_single split: prod.split)
    (metis processChar_single leadByte_single fst_conv)+

section \<open>The fast path\<close>

lemma safe_byte_ground:
  assumes "safeByte b" "m_state p = Ground" "m_utf8Remaining p = 0"
  shows "feedByte b p = ([Print (ucast b)], p)"
proof -
  have n: "32 \<le> unat b" "unat b < 127"
    using assms(1) by (auto simp: safeByte_def word_less_nat_alt word_le_nat_alt)
  have "b \<le> 0x9F" using n by (simp add: word_le_nat_alt)
  moreover have "\<not> (ucast b :: u32) < 0x20" "(ucast b :: u32) < 0x7F" "ucast b \<noteq> (0x7F :: u32)"
      "ucast b \<noteq> (0x1B :: u32)" "ucast b \<noteq> (0x18 :: u32)" "ucast b \<noteq> (0x1A :: u32)" "ucast b \<noteq> (0x9B :: u32)"
      "\<not> 0x80 \<le> (ucast b :: u32)"
    using n by (auto simp: word_less_nat_alt word_le_nat_alt word_unat_eq_iff unat_ucast_u8)
  ultimately show ?thesis
    using assms(2,3)
    by (simp add: feedByte_def leadByte_def processChar_def stateSwitch_def groundChar_def)
qed

lemma safe_run_ground:
  assumes "list_all safeByte bs" "m_state p = Ground" "m_utf8Remaining p = 0"
  shows "feedAll bs p = (map (\<lambda>b. Print (ucast b)) bs, p)"
  using assms(1)
  by (induction bs) (simp_all add: feedAll_Cons safe_byte_ground [OF _ assms(2,3)])

lemma feedAll_append:
  "feedAll (xs @ ys) p =
     (let (o1, p1) = feedAll xs p; (o2, p2) = feedAll ys p1 in (o1 @ o2, p2))"
  by (simp add: feedAll_def run_steps_append)

lemma feed_feedAll: "(expand (fst (feed arch bs p)), snd (feed arch bs p)) = feedAll bs p"
proof (induction arch bs p rule: feed.induct)
  case (1 arch data p)
  define run where
    "run = (if m_state p = Ground \<and> m_utf8Remaining p = 0 then scanSafeAsciiRun arch data else 0)"
  define o1 where "o1 = (if run > 0 then [PrintRun (take run data)] else [])"
  have feed: "feed arch data p =
     (if data = [] then ([], p)
      else (case drop run data of [] \<Rightarrow> (o1, p)
        | b # bs \<Rightarrow> (let (o2, p2) = feedByte b p; (o3, p3) = feed arch bs p2 in (o1 @ o2 @ o3, p3))))"
    unfolding feed.simps [of arch data p] run_def o1_def by (simp only: Let_def)
  have head: "feedAll (take run data) p = (expand o1, p)"
  proof (cases "run > 0")
    case True
    then have g: "m_state p = Ground" "m_utf8Remaining p = 0" by (auto simp: run_def split: if_splits)
    have "list_all safeByte (take run data)" using g take_scan_safe by (simp add: run_def)
    from safe_run_ground [OF this g] show ?thesis using True by (simp add: o1_def)
  qed (simp add: o1_def)
  have split: "feedAll data p =
      (let (o1, p1) = feedAll (take run data) p; (o2, p2) = feedAll (drop run data) p1 in (o1 @ o2, p2))"
    using feedAll_append [of "take run data" "drop run data" p] by simp
  show ?case
  proof (cases "drop run data")
    case Nil
    have "feedAll data p = (expand o1, p)" by (subst split) (simp add: head Nil)
    then show ?thesis by (auto simp: feed Nil)
  next
    case (Cons b bs)
    obtain o2 p2 where b: "feedByte b p = (o2, p2)" by (cases "feedByte b p")
    have ne: "data \<noteq> []" using Cons by auto
    have ih: "(expand (fst (feed arch bs p2)), snd (feed arch bs p2)) = feedAll bs p2"
      using "1.IH" [OF ne run_def refl Cons b [symmetric] refl] .
    have "expand o2 = o2" using feedByte_single [of b p] b by (simp add: expand_single)
    moreover have "feedAll data p =
        (let (o3, p3) = feedAll bs p2 in (expand o1 @ o2 @ o3, p3))"
      by (subst split) (simp add: head Cons feedAll_Cons b split: prod.split)
    ultimately show ?thesis
      using ih ne by (auto simp: feed Cons b split: prod.splits)
  qed
qed

lemma feed_output: "expand (fst (feed arch bs p)) = fst (feedAll bs p)"
  and feed_state: "snd (feed arch bs p) = snd (feedAll bs p)"
  using feed_feedAll [of arch bs p] by (metis fst_conv, metis snd_conv)

lemma feed_chunks:
  "expand (fst (feed arch (xs @ ys) p)) =
     expand (fst (feed arch1 xs p)) @ expand (fst (feed arch2 ys (snd (feed arch1 xs p))))"
  "snd (feed arch (xs @ ys) p) = snd (feed arch2 ys (snd (feed arch1 xs p)))"
  by (simp_all add: feed_output feed_state feedAll_def fst_run_append snd_run_append)

section \<open>Resynchronisation\<close>

text \<open>
  Two parsers agree when no input tells them apart: same state and pending UTF-8 bytes, and
  equal values for what the current state still reads.
\<close>

definition agree :: "vt_parser \<Rightarrow> vt_parser \<Rightarrow> bool" where
  "agree p q \<longleftrightarrow>
     m_state p = m_state q \<and> m_utf8Remaining p = m_utf8Remaining q \<and>
     (m_utf8Remaining p > 0 \<longrightarrow>
        m_utf8Accum p = m_utf8Accum q \<and> m_utf8ExpectedLen p = m_utf8ExpectedLen q) \<and>
     (case m_state p of
        Ground \<Rightarrow> True
      | Escape \<Rightarrow> m_intermediate p = m_intermediate q
      | EscapeIntermediate \<Rightarrow> m_intermediate p = m_intermediate q
      | CsiEntry \<Rightarrow> m_params p = m_params q \<and> m_colonSep p = m_colonSep q \<and>
          m_nextIsSubParam p = m_nextIsSubParam q \<and> m_currentParam p = m_currentParam q \<and>
          m_intermediate p = m_intermediate q \<and> m_paramsTruncated p = m_paramsTruncated q
      | CsiParam \<Rightarrow> m_params p = m_params q \<and> m_colonSep p = m_colonSep q \<and>
          m_nextIsSubParam p = m_nextIsSubParam q \<and> m_currentParam p = m_currentParam q \<and>
          m_intermediate p = m_intermediate q \<and> m_paramsTruncated p = m_paramsTruncated q
      | CsiIntermediate \<Rightarrow> m_params p = m_params q \<and> m_colonSep p = m_colonSep q \<and>
          m_intermediate p = m_intermediate q \<and> m_paramsTruncated p = m_paramsTruncated q
      | CsiIgnore \<Rightarrow> True
      | OscString \<Rightarrow> m_oscString p = m_oscString q \<and> m_stringTruncated p = m_stringTruncated q
      | DcsString \<Rightarrow> m_dcsString p = m_dcsString q \<and> m_stringTruncated p = m_stringTruncated q
      | ApcString \<Rightarrow> m_apcString p = m_apcString q \<and> m_stringTruncated p = m_stringTruncated q
      | _ \<Rightarrow> True)"

definition agree_step :: "vt_action list \<times> vt_parser \<Rightarrow> vt_action list \<times> vt_parser \<Rightarrow> bool" where
  "agree_step r s \<longleftrightarrow> fst r = fst s \<and> agree (snd r) (snd s)"

lemma agree_state: "agree p q \<Longrightarrow> m_state q = m_state p"
  by (simp add: agree_def)

lemma agree_reArm:
  assumes "m_utf8Remaining p = 0" "m_utf8Remaining q = 0"
  shows "rel_option agree (reArmStringIntroducer ch p) (reArmStringIntroducer ch q)"
  using assms by (simp add: reArmStringIntroducer_def transition_def agree_def)

lemma agree_enter:
  assumes "m_utf8Remaining p = 0" "m_utf8Remaining q = 0"
    and "s = Ground \<or> s = Escape \<or> s = CsiEntry \<or> s = OscStringEsc \<or> s = DcsStringEsc \<or>
         s = ApcStringEsc \<or> s = IgnoreStringEsc \<or> s = IgnoreString"
  shows "agree (transition s p) (transition s q)"
  using assms by (auto simp: transition_def agree_def Let_def)

lemma rem_frame [simp]:
  "m_utf8Remaining (transition s p) = m_utf8Remaining p"
  "m_utf8Remaining (pushParam v p) = m_utf8Remaining p"
  by (simp_all add: transition_def pushParam_def Let_def)

lemma agree_CsiParam_iff:
  "m_state p = CsiParam \<Longrightarrow> m_utf8Remaining p = 0 \<Longrightarrow>
   agree p q \<longleftrightarrow>
     m_state q = CsiParam \<and> m_utf8Remaining q = 0 \<and> m_params q = m_params p \<and>
     m_colonSep q = m_colonSep p \<and> m_nextIsSubParam q = m_nextIsSubParam p \<and>
     m_currentParam q = m_currentParam p \<and> m_intermediate q = m_intermediate p \<and>
     m_paramsTruncated q = m_paramsTruncated p"
  by (auto simp: agree_def)

lemma agree_csiParam:
  assumes ag: "agree p q" and st: "m_state p = CsiParam" and rem: "m_utf8Remaining p = 0"
  shows "agree_step (csiParam ch p) (csiParam ch q)"
proof -
  have eqs: "m_state q = CsiParam" "m_utf8Remaining q = 0" "m_params q = m_params p"
      "m_colonSep q = m_colonSep p" "m_nextIsSubParam q = m_nextIsSubParam p"
      "m_currentParam q = m_currentParam p" "m_intermediate q = m_intermediate p"
      "m_paramsTruncated q = m_paramsTruncated p"
    using ag agree_CsiParam_iff [OF st rem] by simp_all
  have push: "agree (pushParam v p) (pushParam v q)" for v
    using ag by (simp add: agree_CsiParam_iff st rem) (simp add: pushParam_def)
  have upd: "agree (x\<lparr>m_currentParam := c, m_nextIsSubParam := n\<rparr>)
      (y\<lparr>m_currentParam := c, m_nextIsSubParam := n\<rparr>)"
    and cur: "agree (x\<lparr>m_currentParam := c\<rparr>) (y\<lparr>m_currentParam := c\<rparr>)"
    and disp: "agree_step (dispatchCsi ch (x\<lparr>m_nextIsSubParam := n\<rparr>))
      (dispatchCsi ch (y\<lparr>m_nextIsSubParam := n\<rparr>))"
    and inter: "agree (x\<lparr>m_intermediate := m_intermediate x @ [i], m_state := CsiIntermediate\<rparr>)
      (y\<lparr>m_intermediate := m_intermediate y @ [i], m_state := CsiIntermediate\<rparr>)"
    if "agree x y" "m_state x = CsiParam" "m_utf8Remaining x = 0" for x y c n i
  proof -
    have e: "m_state y = CsiParam" "m_utf8Remaining y = 0" "m_params y = m_params x"
      "m_colonSep y = m_colonSep x" "m_nextIsSubParam y = m_nextIsSubParam x"
      "m_currentParam y = m_currentParam x" "m_intermediate y = m_intermediate x"
      "m_paramsTruncated y = m_paramsTruncated x"
      using that(1) agree_CsiParam_iff [OF that(2,3)] by simp_all
    show "agree (x\<lparr>m_currentParam := c, m_nextIsSubParam := n\<rparr>)
        (y\<lparr>m_currentParam := c, m_nextIsSubParam := n\<rparr>)"
      "agree (x\<lparr>m_currentParam := c\<rparr>) (y\<lparr>m_currentParam := c\<rparr>)"
      by (simp_all add: agree_CsiParam_iff that(2,3) e)
    show "agree_step (dispatchCsi ch (x\<lparr>m_nextIsSubParam := n\<rparr>))
        (dispatchCsi ch (y\<lparr>m_nextIsSubParam := n\<rparr>))"
      by (simp add: agree_step_def dispatchCsi_def e that(3) agree_enter)
    show "agree (x\<lparr>m_intermediate := m_intermediate x @ [i], m_state := CsiIntermediate\<rparr>)
        (y\<lparr>m_intermediate := m_intermediate y @ [i], m_state := CsiIntermediate\<rparr>)"
      by (simp add: agree_def e that(3))
  qed
  have upd2: "agree ((pushParam v p)\<lparr>m_currentParam := c, m_nextIsSubParam := n\<rparr>)
      ((pushParam v q)\<lparr>m_currentParam := c, m_nextIsSubParam := n\<rparr>)" for v c n
    by (rule upd [OF push]) (simp_all add: st rem)
  have inter2: "agree
      ((pushParam v p)\<lparr>m_currentParam := c, m_nextIsSubParam := n,
         m_intermediate := m_intermediate p @ [i], m_state := CsiIntermediate\<rparr>)
      ((pushParam v q)\<lparr>m_currentParam := c, m_nextIsSubParam := n,
         m_intermediate := m_intermediate q @ [i], m_state := CsiIntermediate\<rparr>)" for v c n i
    using inter [where x = "(pushParam v p)\<lparr>m_currentParam := c, m_nextIsSubParam := n\<rparr>",
        OF upd2, of i] by (simp add: st rem)
  have ex: "agree_step (emitExecute ch p) (emitExecute ch q)"
    using ag by (simp add: emitExecute_def agree_step_def)
  show ?thesis
    unfolding csiParam_def Let_def eqs
    using cur [OF ag st rem] upd2 disp [OF ag st rem] disp [OF push] inter [OF ag st rem] inter2
    by (auto simp: agree_step_def [of "([], _)"] ex eqs st rem ag agree_enter
        agree_def [of "p\<lparr>m_state := CsiIgnore\<rparr>"])
qed

lemma agree_processCsi:
  assumes "agree p q" "m_utf8Remaining p = 0"
    and "m_state p = CsiEntry \<or> m_state p = CsiParam \<or> m_state p = CsiIntermediate \<or> m_state p = CsiIgnore"
  shows "agree_step (processCsi ch p) (processCsi ch q)"
  using assms(3)
proof (elim disjE)
  assume st: "m_state p = CsiEntry"
  let ?p = "p\<lparr>m_state := CsiParam\<rparr>" and ?q = "q\<lparr>m_state := CsiParam\<rparr>"
  have a: "agree ?p ?q" using assms(1,2) st by (simp add: agree_def)
  have "agree_step (csiParam ch ?p) (csiParam ch ?q)"
    using agree_csiParam [OF a] assms(2) by simp
  then show ?thesis
    using assms(1,2) st agree_state [OF assms(1)]
    by (simp add: processCsi_def Let_def agree_step_def) (simp add: agree_def)
next
  assume st: "m_state p = CsiParam"
  then show ?thesis
    using agree_csiParam [OF assms(1) st assms(2)] agree_state [OF assms(1)] by (simp add: processCsi_def)
next
  assume st: "m_state p = CsiIntermediate"
  then have eqs: "m_state q = CsiIntermediate" "m_utf8Remaining q = 0" "m_params q = m_params p"
      "m_colonSep q = m_colonSep p" "m_intermediate q = m_intermediate p"
      "m_paramsTruncated q = m_paramsTruncated p"
    using assms(1,2) by (auto simp: agree_def)
  show ?thesis
    by (simp add: processCsi_def csiIntermediate_def agree_step_def eqs st assms(2) agree_def
        emitExecute_def dispatchCsi_def transition_def)
next
  assume st: "m_state p = CsiIgnore"
  then have eqs: "m_state q = CsiIgnore" "m_utf8Remaining q = 0"
    using assms(1,2) by (auto simp: agree_def)
  show ?thesis
    by (simp add: processCsi_def csiIgnore_def agree_step_def eqs st assms(2) agree_def
        emitExecute_def transition_def)
qed

lemma agree_rearm_or_ground:
  assumes "m_utf8Remaining p = 0" "m_utf8Remaining q = 0"
  shows "agree_step
    (case reArmStringIntroducer ch p of None \<Rightarrow> ([], transition Ground p) | Some q \<Rightarrow> ([], q))
    (case reArmStringIntroducer ch q of None \<Rightarrow> ([], transition Ground q) | Some q \<Rightarrow> ([], q))"
  using agree_reArm [OF assms, of ch] agree_enter [OF assms, of Ground]
  by (auto simp: agree_step_def split: option.splits)

lemma agree_processString:
  assumes "agree p q" "m_utf8Remaining p = 0" "isStringState (m_state p)"
  shows "agree_step (processString ch p) (processString ch q)"
proof -
  have rem: "m_utf8Remaining q = 0" and st: "m_state q = m_state p"
    using assms(1,2) by (auto simp: agree_def)
  show ?thesis
  proof (cases "m_state p")
    case OscString
    then have "m_oscString q = m_oscString p" "m_stringTruncated q = m_stringTruncated p"
      using assms(1) by (simp_all add: agree_def)
    then show ?thesis
      using OscString rem st assms(2)
      by (simp add: processString_def endOsc_def agree_step_def agree_enter split: option.split)
        (simp add: agree_def)
  next
    case DcsString
    then have "m_dcsString q = m_dcsString p" "m_stringTruncated q = m_stringTruncated p"
      using assms(1) by (simp_all add: agree_def)
    then show ?thesis
      using DcsString rem st assms(2)
      by (simp add: processString_def endDcs_def agree_step_def agree_enter split: option.split)
        (simp add: agree_def)
  next
    case ApcString
    then have "m_apcString q = m_apcString p" "m_stringTruncated q = m_stringTruncated p"
      using assms(1) by (simp_all add: agree_def)
    then show ?thesis
      using ApcString rem st assms(2)
      by (simp add: processString_def endApc_def agree_step_def agree_enter split: option.split)
        (simp add: agree_def)
  next
    case IgnoreString
    then show ?thesis
      using rem st assms by (simp add: processString_def agree_step_def agree_enter)
  qed (use assms rem st agree_rearm_or_ground [of p q ch]
        in \<open>simp_all add: processString_def isStringState_def\<close>)
qed

lemma agree_processChar:
  assumes "agree p q" "m_utf8Remaining p = 0"
  shows "agree_step (processChar ch p) (processChar ch q)"
proof -
  have rem: "m_utf8Remaining q = 0" and st: "m_state q = m_state p"
    using assms by (auto simp: agree_def)
  have esc: "m_state p = Escape \<or> m_state p = EscapeIntermediate \<Longrightarrow> m_intermediate q = m_intermediate p"
    using assms(1) by (auto simp: agree_def)
  have "agree_step (stateSwitch ch p) (stateSwitch ch q)"
  proof (cases "m_state p")
    case Ground
    then show ?thesis
      using rem st assms agree_reArm [OF assms(2) rem, of "ch - 0x40"]
      by (auto simp: stateSwitch_def groundChar_def agree_step_def emitExecute_def agree_enter
          split: option.splits)
  next
    case Escape
    have "agree (transition EscapeIntermediate (p\<lparr>m_intermediate := [cast_char ch]\<rparr>))
        (transition EscapeIntermediate (q\<lparr>m_intermediate := [cast_char ch]\<rparr>))"
      using rem assms(2) by (simp add: transition_def agree_def)
    then show ?thesis
      using Escape rem st assms agree_reArm [OF assms(2) rem, of ch] esc
      by (auto simp: stateSwitch_def escapeChar_def agree_step_def emitExecute_def dispatchEsc_def
          agree_enter split: option.splits)
  next
    case EscapeIntermediate
    then show ?thesis
      using rem st assms esc
      by (auto simp: stateSwitch_def escapeIntermediateChar_def agree_step_def emitExecute_def
          dispatchEsc_def agree_enter) (auto simp: agree_def)
  qed (use assms rem st agree_processCsi [OF assms, of ch] agree_processString [OF assms, of ch]
        in \<open>simp_all add: stateSwitch_def isStringState_def\<close>)
  moreover have "agree (abortSequence p) (abortSequence q)"
    using rem assms(2) by (simp add: abortSequence_def agree_enter)
  ultimately show ?thesis
    using rem assms(2) st by (simp add: processChar_def agree_step_def agree_enter)
qed

lemma rem_processChar: "m_utf8Remaining (snd (processChar ch p)) = m_utf8Remaining p"
proof -
  have r: "reArmStringIntroducer c p = Some q \<Longrightarrow> m_utf8Remaining q = m_utf8Remaining p" for c q
    by (auto simp: reArmStringIntroducer_def split: if_splits)
  have c: "m_utf8Remaining (snd (csiParam ch q)) = m_utf8Remaining q" for q
    by (simp add: csiParam_def Let_def emitExecute_def dispatchCsi_def)
  have "m_utf8Remaining (snd (stateSwitch ch p)) = m_utf8Remaining p"
    by (cases "m_state p")
      (auto simp: stateSwitch_def groundChar_def escapeChar_def escapeIntermediateChar_def
        processCsi_def processString_def csiIntermediate_def csiIgnore_def emitExecute_def
        dispatchEsc_def dispatchCsi_def endOsc_def endDcs_def endApc_def Let_def c
        dest: r split: option.split)
  then show ?thesis by (simp add: processChar_def abortSequence_def)
qed

lemma agree_utf8:
  "agree p q \<Longrightarrow>
   agree (p\<lparr>m_utf8Accum := a, m_utf8Remaining := n, m_utf8ExpectedLen := e\<rparr>)
     (q\<lparr>m_utf8Accum := a, m_utf8Remaining := n, m_utf8ExpectedLen := e\<rparr>)"
  "agree p q \<Longrightarrow> agree (p\<lparr>m_utf8Remaining := 0\<rparr>) (q\<lparr>m_utf8Remaining := 0\<rparr>)"
  "agree p q \<Longrightarrow> m_utf8ExpectedLen p = m_utf8ExpectedLen q \<Longrightarrow>
   agree (p\<lparr>m_utf8Accum := a, m_utf8Remaining := n\<rparr>)
     (q\<lparr>m_utf8Accum := a, m_utf8Remaining := n\<rparr>)"
  by (cases "m_state p"; auto simp: agree_def)+

lemma agree_leadByte:
  assumes "agree p q" "m_utf8Remaining p = 0"
  shows "agree_step (leadByte b p) (leadByte b q)"
proof -
  have "agree (p\<lparr>m_utf8Accum := a, m_utf8Remaining := n, m_utf8ExpectedLen := e\<rparr>)
      (q\<lparr>m_utf8Accum := a, m_utf8Remaining := n, m_utf8ExpectedLen := e\<rparr>)" for a n e
    using assms(1) by (rule agree_utf8)
  then show ?thesis
    using agree_processChar [OF assms] by (simp add: leadByte_def agree_step_def)
qed

lemma agree_feedByte:
  assumes "agree p q"
  shows "agree_step (feedByte b p) (feedByte b q)"
proof (cases "m_utf8Remaining p > 0")
  case False
  then have "m_utf8Remaining p = 0" "m_utf8Remaining q = 0" using assms by (auto simp: agree_def)
  then show ?thesis using agree_leadByte [OF assms] by (simp add: feedByte_def)
next
  case True
  then have eqs: "m_utf8Remaining q = m_utf8Remaining p" "m_utf8Accum q = m_utf8Accum p"
      "m_utf8ExpectedLen q = m_utf8ExpectedLen p"
    using assms by (auto simp: agree_def)
  have z: "agree (p\<lparr>m_utf8Remaining := 0\<rparr>) (q\<lparr>m_utf8Remaining := 0\<rparr>)"
    using assms by (rule agree_utf8)
  have c: "agree (p\<lparr>m_utf8Accum := a, m_utf8Remaining := n\<rparr>)
      (q\<lparr>m_utf8Accum := a, m_utf8Remaining := n\<rparr>)" for a n
    using assms eqs(3) [symmetric] by (rule agree_utf8)
  obtain o1 p1 where p1: "processChar 0xFFFD (p\<lparr>m_utf8Remaining := 0\<rparr>) = (o1, p1)"
    by (cases "processChar 0xFFFD (p\<lparr>m_utf8Remaining := 0\<rparr>)")
  obtain o2 q1 where q1: "processChar 0xFFFD (q\<lparr>m_utf8Remaining := 0\<rparr>) = (o2, q1)"
    by (cases "processChar 0xFFFD (q\<lparr>m_utf8Remaining := 0\<rparr>)")
  have a1: "o1 = o2" "agree p1 q1"
    using agree_processChar [OF z, of "0xFFFD"] by (simp_all add: p1 q1 agree_step_def)
  have r1: "m_utf8Remaining p1 = 0"
    using rem_processChar [of "0xFFFD" "p\<lparr>m_utf8Remaining := 0\<rparr>"] by (simp add: p1)
  have l: "agree_step (leadByte b p1) (leadByte b q1)" using a1(2) r1 by (rule agree_leadByte)
  have inv: "agree_step
      (let (o1, p1) = processChar 0xFFFD (p\<lparr>m_utf8Remaining := 0\<rparr>); (o2, p2) = leadByte b p1
       in (o1 @ o2, p2))
      (let (o1, p1) = processChar 0xFFFD (q\<lparr>m_utf8Remaining := 0\<rparr>); (o2, p2) = leadByte b p1
       in (o1 @ o2, p2))"
    using l a1(1) by (simp add: p1 q1 agree_step_def case_prod_beta)
  have fin: "m_utf8Remaining p = 1 \<Longrightarrow>
      agree_step (processChar ch (p\<lparr>m_utf8Accum := a, m_utf8Remaining := 0\<rparr>))
        (processChar ch (q\<lparr>m_utf8Accum := a, m_utf8Remaining := 0\<rparr>))" for ch a
    using agree_processChar [OF c] by simp
  show ?thesis
    unfolding feedByte_def eqs
    using True inv fin c
    by (auto simp: eqs agree_step_def [of "([], _)"] Let_def simp del: One_nat_def split del: prod.split)
qed

interpretation vtsim: step_simulation feedByte agree
  using agree_feedByte by unfold_locales (simp_all add: agree_step_def)

lemma agree_refl_ground: "m_state p = Ground \<Longrightarrow> m_utf8Remaining p = 0 \<Longrightarrow> agree p vt_init"
  by (simp add: agree_def vt_init_def)

lemma ground_output:
  "m_state p = Ground \<Longrightarrow> m_utf8Remaining p = 0 \<Longrightarrow> fst (feedAll bs p) = fst (feedAll bs vt_init)"
  by (simp add: feedAll_def vtsim.run_output agree_refl_ground)

lemma abort_feedByte:
  assumes "b = 0x18 \<or> b = 0x1A"
  shows "m_state (snd (feedByte b p)) = Ground" "m_utf8Remaining (snd (feedByte b p)) = 0"
proof -
  have pc: "m_state (snd (processChar (ucast b) q)) = Ground" for q
    using assms by (auto simp: processChar_def abortSequence_def transition_def Let_def)
  have lead: "leadByte b q = processChar (ucast b) q" for q
    using assms by (auto simp: leadByte_def)
  have nc: "b AND 0xC0 \<noteq> 0x80" using assms by auto
  obtain o1 p1 where p1: "processChar 0xFFFD (p\<lparr>m_utf8Remaining := 0\<rparr>) = (o1, p1)"
    by (cases "processChar 0xFFFD (p\<lparr>m_utf8Remaining := 0\<rparr>)")
  have r1: "m_utf8Remaining p1 = 0"
    using rem_processChar [of "0xFFFD" "p\<lparr>m_utf8Remaining := 0\<rparr>"] by (simp add: p1)
  show "m_state (snd (feedByte b p)) = Ground"
    using nc pc by (simp add: feedByte_def lead p1 case_prod_beta)
  show "m_utf8Remaining (snd (feedByte b p)) = 0"
    using nc r1 rem_processChar [of "ucast b" p1]
    by (simp add: feedByte_def lead p1 rem_processChar case_prod_beta)
qed

section \<open>A stream of buffers\<close>

text \<open>What one parser does with the buffers a PTY delivers, one \<open>feed\<close> call per buffer.\<close>

definition feedChunks :: "simd \<Rightarrow> u8 list list \<Rightarrow> vt_step" where
  "feedChunks arch chunks = run_steps (feed arch) chunks"

interpretation vtf: step_invariant "feed arch" "\<lambda>_. True" parser_inv action_ok for arch
  using feed_ok by unfold_locales (auto simp: step_ok_def)

lemma feedChunks_inv:
  "parser_inv p \<Longrightarrow>
   list_all action_ok (fst (feedChunks arch chunks p)) \<and> parser_inv (snd (feedChunks arch chunks p))"
  by (simp add: feedChunks_def vtf.run_keeps vtf.run_emits list_all_iff [of "\<lambda>_. True"])

lemma feedChunks_feedAll:
  "expand (fst (feedChunks arch chunks p)) = fst (feedAll (concat chunks) p) \<and>
   snd (feedChunks arch chunks p) = snd (feedAll (concat chunks) p)"
proof (induction chunks arbitrary: p)
  case (Cons c chunks)
  then show ?case
    by (simp add: feedChunks_def run_steps_Cons feedAll_def fst_run_append snd_run_append
        feed_output [unfolded feedAll_def] feed_state [unfolded feedAll_def]
        del: run_steps.simps)
qed (simp add: feedChunks_def)

end
