(* ===== verification/VtParserRoundtrip.thy ===== *)
theory VtParserRoundtrip
  imports VtParserFeed
begin

text \<open>
  What the parser reads back is what was written: the UTF-8 bytes \<open>appendUtf8\<close> writes for a
  scalar value decode to that value, a control sequence printed from its parameters dispatches
  with those parameters, and an OSC string delivers its body. The last section is the
  hardening contract of the string states: the byte after a string-ending ESC never
  dispatches anything.
\<close>

section \<open>UTF-8\<close>

lemma small_word_cases:
  assumes "x < of_nat k" "k < 2 ^ 32" "\<forall>n < k. P (word_of_nat n :: u32)"
  shows "P x"
proof -
  have "unat x < k"
    using assms(1,2) by (simp add: word_less_nat_alt unat_of_nat)
  then have "P (word_of_nat (unat x))" using assms(3) by blast
  then show ?thesis by simp
qed

definition cont_byte_ok :: "u32 \<Rightarrow> bool" where
  "cont_byte_ok x \<longleftrightarrow>
     (ucast (0x80 OR x) :: u8) AND 0xC0 = 0x80 \<and> ucast (ucast (0x80 OR x) :: u8) AND 0x3F = x"

lemma cont_byte: "x < 64 \<Longrightarrow> cont_byte_ok x"
proof -
  assume x: "x < 64"
  have "\<forall>n < 64. cont_byte_ok (word_of_nat n)" unfolding cont_byte_ok_def by code_simp
  then show ?thesis using small_word_cases [of x 64 cont_byte_ok] x by simp
qed

definition lead2_ok :: "u32 \<Rightarrow> bool" where
  "lead2_ok x \<longleftrightarrow> (let b = (ucast (0xC0 OR x) :: u8) in
     \<not> b \<le> 0x9F \<and> b AND 0xE0 = 0xC0 \<and> ucast b AND 0x1F = x)"

lemma lead2: "x < 32 \<Longrightarrow> lead2_ok x"
proof -
  assume x: "x < 32"
  have "\<forall>n < 32. lead2_ok (word_of_nat n)" unfolding lead2_ok_def Let_def by code_simp
  then show ?thesis using small_word_cases [of x 32 lead2_ok] x by simp
qed

definition lead3_ok :: "u32 \<Rightarrow> bool" where
  "lead3_ok x \<longleftrightarrow> (let b = (ucast (0xE0 OR x) :: u8) in
     \<not> b \<le> 0x9F \<and> b AND 0xE0 \<noteq> 0xC0 \<and> b AND 0xF0 = 0xE0 \<and> ucast b AND 0x0F = x)"

lemma lead3: "x < 16 \<Longrightarrow> lead3_ok x"
proof -
  assume x: "x < 16"
  have "\<forall>n < 16. lead3_ok (word_of_nat n)" unfolding lead3_ok_def Let_def by code_simp
  then show ?thesis using small_word_cases [of x 16 lead3_ok] x by simp
qed

definition lead4_ok :: "u32 \<Rightarrow> bool" where
  "lead4_ok x \<longleftrightarrow> (let b = (ucast (0xF0 OR x) :: u8) in
     \<not> b \<le> 0x9F \<and> b AND 0xE0 \<noteq> 0xC0 \<and> b AND 0xF0 \<noteq> 0xE0 \<and> b AND 0xF8 = 0xF0 \<and>
     ucast b AND 0x07 = x)"

lemma lead4: "x < 8 \<Longrightarrow> lead4_ok x"
proof -
  assume x: "x < 8"
  have "\<forall>n < 8. lead4_ok (word_of_nat n)" unfolding lead4_ok_def Let_def by code_simp
  then show ?thesis using small_word_cases [of x 8 lead4_ok] x by simp
qed

lemma mask6: "(0x3F :: u32) = mask 6"
  by (simp add: mask_eq_exp_minus_1)

lemma low6_less: "(ch :: u32) AND 0x3F < 64"
proof -
  have "unat (ch AND 0x3F) \<le> unat (0x3F :: u32)"
    using word_and_le1 [of ch "0x3F"] by (simp only: word_le_nat_alt and.commute)
  then show ?thesis by (simp add: word_less_nat_alt)
qed

lemma recombine: "push_bit 6 (drop_bit (6 + k) (ch :: u32)) OR (drop_bit k ch AND 0x3F) = drop_bit k ch"
  unfolding mask6 by (rule bit_word_eqI) (auto simp: bit_simps)

lemma recombine0: "push_bit 6 (drop_bit 6 (ch :: u32)) OR (ch AND 0x3F) = ch"
  using recombine [of 0 ch] by simp

lemma drop_bit_less:
  assumes "unat (ch :: u32) < m * 2 ^ k" "m < 2 ^ 32"
  shows "drop_bit k ch < of_nat m"
proof -
  have "unat (drop_bit k ch) = unat ch div 2 ^ k"
    by (simp only: unat_drop_bit_eq drop_bit_eq_div [of k "unat ch"])
  then show ?thesis
    using assms by (simp only: word_less_nat_alt) (simp add: unat_of_nat less_mult_imp_div_less)
qed

text \<open>One continuation byte, with more to come and as the last one.\<close>

lemma feed_cont:
  assumes "m_utf8Remaining p = Suc (Suc n)" "x < 64"
  shows "feedByte (ucast (0x80 OR x)) p =
    ([], p\<lparr>m_utf8Accum := push_bit 6 (m_utf8Accum p) OR x, m_utf8Remaining := Suc n\<rparr>)"
  using cont_byte [OF assms(2)] assms(1) by (simp add: cont_byte_ok_def feedByte_def Let_def)

lemma feed_cont_last:
  assumes "m_utf8Remaining p = Suc 0" "x < 64"
    "utf8_valid (push_bit 6 (m_utf8Accum p) OR x) (m_utf8ExpectedLen p)"
  shows "feedByte (ucast (0x80 OR x)) p =
    processChar (push_bit 6 (m_utf8Accum p) OR x)
      (p\<lparr>m_utf8Accum := push_bit 6 (m_utf8Accum p) OR x, m_utf8Remaining := 0\<rparr>)"
  using cont_byte [OF assms(2)] assms(1,3) by (simp add: cont_byte_ok_def feedByte_def Let_def)

definition utf8_decoded :: "u32 \<Rightarrow> vt_parser \<Rightarrow> vt_parser" where
  "utf8_decoded ch p =
     p\<lparr>m_utf8ExpectedLen := utf8_need ch, m_utf8Accum := ch, m_utf8Remaining := 0\<rparr>"

lemma feedAll_Cons_silent: "feedByte b p = ([], q) \<Longrightarrow> feedAll (b # bs) p = feedAll bs q"
  by (simp add: feedAll_Cons case_prod_beta)

lemma feedAll_single: "feedAll [b] p = feedByte b p"
  by (simp add: feedAll_Cons case_prod_beta)

lemma utf8_decode:
  assumes sc: "scalar_value ch" and big: "0x80 \<le> ch" and rem: "m_utf8Remaining p = 0"
  shows "feedAll (map ucast (utf8_bytes ch)) p = processChar ch (utf8_decoded ch p)"
proof -
  have n: "128 \<le> unat ch" "unat ch \<le> 0x10FFFF"
    using sc big by (simp_all add: scalar_value_def word_le_nat_alt)
  have nolow: "\<not> ch < 0x80" using big by (simp add: not_less)
  have valid: "utf8_valid ch (utf8_need ch)"
    using sc big by (auto simp: utf8_valid_def scalar_value_def utf8_need_def)
  consider (two) "ch < 0x800" | (three) "\<not> ch < 0x800" "ch < 0x10000" | (four) "\<not> ch < 0x800" "\<not> ch < 0x10000"
    by blast
  then show ?thesis
  proof cases
    case two
    let ?a = "drop_bit 6 ch"
    have "lead2_ok ?a"
      using two drop_bit_less [of ch 32 6] by (intro lead2) (simp add: word_less_nat_alt)
    then have f1: "feedByte (ucast (0xC0 OR ?a)) p =
        ([], p\<lparr>m_utf8Accum := ?a, m_utf8Remaining := 1, m_utf8ExpectedLen := 2\<rparr>)"
      using rem by (simp add: feedByte_def leadByte_def lead2_ok_def Let_def)
    have nd: "utf8_need ch = 2" using two big by (auto simp: utf8_need_def)
    show ?thesis
      using two nolow valid nd
      by (simp add: utf8_bytes_def feedAll_Cons_silent [OF f1] feedAll_single feed_cont_last
          low6_less recombine0 utf8_decoded_def)
  next
    case three
    let ?a = "drop_bit 12 ch"
    have "lead3_ok ?a"
      using three drop_bit_less [of ch 16 12] by (intro lead3) (simp add: word_less_nat_alt)
    then have f1: "feedByte (ucast (0xE0 OR ?a)) p =
        ([], p\<lparr>m_utf8Accum := ?a, m_utf8Remaining := 2, m_utf8ExpectedLen := 3\<rparr>)"
      using rem by (simp add: feedByte_def leadByte_def lead3_ok_def Let_def)
    have f2: "feedByte (ucast (0x80 OR (drop_bit 6 ch AND 0x3F)))
        (p\<lparr>m_utf8Accum := ?a, m_utf8Remaining := 2, m_utf8ExpectedLen := 3\<rparr>) =
        ([], p\<lparr>m_utf8Accum := drop_bit 6 ch, m_utf8Remaining := 1, m_utf8ExpectedLen := 3\<rparr>)"
      using recombine [of 6 ch] by (subst feed_cont [where n = 0]) (simp_all add: low6_less)
    have nd: "utf8_need ch = 3" using three big by (auto simp: utf8_need_def)
    show ?thesis
      using three nolow valid nd
      by (simp add: utf8_bytes_def feedAll_Cons_silent [OF f1] feedAll_Cons_silent [OF f2]
          feedAll_single feed_cont_last low6_less recombine0 utf8_decoded_def)
  next
    case four
    let ?a = "drop_bit 18 ch"
    have "lead4_ok ?a"
      using n drop_bit_less [of ch 8 18] by (intro lead4) simp
    then have f1: "feedByte (ucast (0xF0 OR ?a)) p =
        ([], p\<lparr>m_utf8Accum := ?a, m_utf8Remaining := 3, m_utf8ExpectedLen := 4\<rparr>)"
      using rem by (simp add: feedByte_def leadByte_def lead4_ok_def Let_def)
    have f2: "feedByte (ucast (0x80 OR (drop_bit 12 ch AND 0x3F)))
        (p\<lparr>m_utf8Accum := ?a, m_utf8Remaining := 3, m_utf8ExpectedLen := 4\<rparr>) =
        ([], p\<lparr>m_utf8Accum := drop_bit 12 ch, m_utf8Remaining := 2, m_utf8ExpectedLen := 4\<rparr>)"
      using recombine [of 12 ch] by (subst feed_cont [where n = 1]) (simp_all add: low6_less)
    have f3: "feedByte (ucast (0x80 OR (drop_bit 6 ch AND 0x3F)))
        (p\<lparr>m_utf8Accum := drop_bit 12 ch, m_utf8Remaining := 2, m_utf8ExpectedLen := 4\<rparr>) =
        ([], p\<lparr>m_utf8Accum := drop_bit 6 ch, m_utf8Remaining := 1, m_utf8ExpectedLen := 4\<rparr>)"
      using recombine [of 6 ch] by (subst feed_cont [where n = 0]) (simp_all add: low6_less)
    have nd: "utf8_need ch = 4" using four big by (auto simp: utf8_need_def)
    show ?thesis
      using four nolow valid nd
      by (simp add: utf8_bytes_def feedAll_Cons_silent [OF f1] feedAll_Cons_silent [OF f2]
          feedAll_Cons_silent [OF f3] feedAll_single feed_cont_last low6_less recombine0
          utf8_decoded_def)
  qed
qed

lemma byte_of_cast_char: "byte_of_char (cast_char ch) = ucast ch"
proof -
  have "byte_of_char (cast_char ch) = (of_nat (unat ch mod 256) :: u8)"
    by (simp add: byte_of_char_def cast_char_def)
  also have "\<dots> = ucast ch"
    by (rule word_unat_eq_iff [THEN iffD2]) (simp add: unat_of_nat unsigned_ucast_eq take_bit_eq_mod)
  finally show ?thesis .
qed

section \<open>Control sequences\<close>

text \<open>The bytes of \<open>ESC [ p1 ; p2 ; ... f\<close>, with the parameters in decimal.\<close>

fun dec_bytes :: "nat \<Rightarrow> u8 list" where
  "dec_bytes n = (if n < 10 then [0x30 + of_nat n] else dec_bytes (n div 10) @ [0x30 + of_nat (n mod 10)])"

declare dec_bytes.simps [simp del]

fun csi_params :: "nat list \<Rightarrow> u8 list" where
  "csi_params [] = []"
| "csi_params [n] = dec_bytes n"
| "csi_params (n # m # ns) = dec_bytes n @ 0x3B # csi_params (m # ns)"

definition csi_text :: "nat list \<Rightarrow> u8 \<Rightarrow> u8 list" where
  "csi_text ns f = 0x1B # 0x5B # csi_params ns @ [f]"

lemma feedByte_ascii: "b \<le> 0x9F \<Longrightarrow> m_utf8Remaining p = 0 \<Longrightarrow> feedByte b p = processChar (ucast b) p"
  by (simp add: feedByte_def leadByte_def)

lemma feedByte_csiParam:
  assumes "m_state p = CsiParam" "m_utf8Remaining p = 0" "32 \<le> unat b" "unat b < 127"
  shows "feedByte b p = csiParam (ucast b) p"
proof -
  have "b \<le> 0x9F" using assms(3,4) by (simp add: word_le_nat_alt)
  moreover have "ucast b \<noteq> (0x1B :: u32)" "ucast b \<noteq> (0x18 :: u32)" "ucast b \<noteq> (0x1A :: u32)"
    using assms(3,4) by (auto simp: word_unat_eq_iff unat_ucast_u8)
  ultimately show ?thesis
    using assms(1,2) by (simp add: feedByte_ascii processChar_def stateSwitch_def processCsi_def)
qed

lemma feedByte_csiEntry:
  assumes "m_state p = CsiEntry" "m_utf8Remaining p = 0" "32 \<le> unat b" "unat b < 127"
    "\<not> (60 \<le> unat b \<and> unat b \<le> 63)"
  shows "feedByte b p = feedByte b (p\<lparr>m_state := CsiParam\<rparr>)"
proof -
  have "b \<le> 0x9F" using assms(3,4) by (simp add: word_le_nat_alt)
  moreover have "ucast b \<noteq> (0x1B :: u32)" "ucast b \<noteq> (0x18 :: u32)" "ucast b \<noteq> (0x1A :: u32)"
      "\<not> ((0x3C :: u32) \<le> ucast b \<and> ucast b \<le> (0x3F :: u32))"
    using assms(3-5) by (auto simp: word_unat_eq_iff word_le_nat_alt unat_ucast_u8)
  ultimately show ?thesis
    using assms(1,2)
    by (auto simp: feedByte_ascii processChar_def stateSwitch_def processCsi_def Let_def)
qed

lemma digit_feed:
  assumes "m_state p = CsiParam" "m_utf8Remaining p = 0" "d < 10"
    "(if m_currentParam p < 0 then 0 else m_currentParam p) * 10 + int d \<le> kMaxParamValue"
  shows "feedByte (0x30 + of_nat d) p =
    ([], p\<lparr>m_currentParam := (if m_currentParam p < 0 then 0 else m_currentParam p) * 10 + int d\<rparr>)"
proof -
  have u: "unat (0x30 + of_nat d :: u8) = 48 + d"
    using assms(3) by (simp add: unat_word_ariths unat_of_nat)
  let ?ch = "ucast (0x30 + of_nat d :: u8) :: u32"
  have ch: "unat ?ch = 48 + d" by (simp add: unat_ucast_u8 u)
  have "0x30 \<le> ?ch" "?ch \<le> 0x39" using assms(3) by (simp_all add: word_le_nat_alt ch)
  moreover have "int (unat (?ch - 0x30)) = int d"
    using \<open>0x30 \<le> ?ch\<close> by (subst unat_sub) (simp_all add: ch)
  ultimately show ?thesis
    using assms u by (simp add: feedByte_csiParam csiParam_def Let_def del: of_nat_unat)
qed

lemma dec_feed:
  assumes "m_state p = CsiParam" "m_utf8Remaining p = 0" "m_currentParam p = -1"
    "int n \<le> kMaxParamValue"
  shows "feedAll (dec_bytes n) p = ([], p\<lparr>m_currentParam := int n\<rparr>)"
  using assms
proof (induction n rule: dec_bytes.induct)
  case (1 n)
  show ?case
  proof (cases "n < 10")
    case True
    then show ?thesis
      using "1.prems" by (subst dec_bytes.simps) (simp add: feedAll_single digit_feed)
  next
    case False
    have n: "int n = int (n div 10) * 10 + int (n mod 10)" by presburger
    have "feedAll (dec_bytes (n div 10)) p = ([], p\<lparr>m_currentParam := int (n div 10)\<rparr>)"
      using "1.IH" False "1.prems" n by simp
    then show ?thesis
      using False "1.prems" n
      by (subst dec_bytes.simps) (simp add: feedAll_append feedAll_single digit_feed)
  qed
qed

lemma csi_body:
  assumes "m_state p = CsiParam" "m_utf8Remaining p = 0" "m_currentParam p = -1"
    "\<not> m_nextIsSubParam p" "length (m_params p) + length ns \<le> kMaxParams"
    "list_all (\<lambda>n. int n \<le> kMaxParamValue) ns" "64 \<le> unat f" "unat f < 127"
  shows "fst (feedAll (csi_params ns @ [f]) p) =
      [CsiDispatch (char_of_byte f) (m_params p @ map int ns)
         (m_colonSep p @ map (\<lambda>_. False) ns) (m_intermediate p) (m_paramsTruncated p)]
    \<and> m_state (snd (feedAll (csi_params ns @ [f]) p)) = Ground"
  using assms
proof (induction ns arbitrary: p rule: csi_params.induct)
  case 1
  then show ?case
    by (simp add: feedAll_single feedByte_csiParam csiParam_def dispatchCsi_def word_le_nat_alt
        unat_ucast_u8 word_unat_eq_iff cast_char_def char_of_byte_def transition_def)
next
  case (2 n)
  then show ?case
    by (simp add: feedAll_append dec_feed feedAll_single feedByte_csiParam csiParam_def
        dispatchCsi_def word_le_nat_alt unat_ucast_u8 word_unat_eq_iff cast_char_def
        char_of_byte_def transition_def pushParam_def Let_def)
next
  case (3 n m ns)
  let ?q = "p\<lparr>m_params := m_params p @ [int n], m_colonSep := m_colonSep p @ [False],
      m_currentParam := -1, m_nextIsSubParam := False\<rparr>"
  have sep: "feedByte 0x3B (p\<lparr>m_currentParam := int n\<rparr>) = ([], ?q)"
    using "3.prems"
    by (subst feedByte_csiParam) (simp_all add: csiParam_def pushParam_def)
  have "feedAll (csi_params (n # m # ns) @ [f]) p = feedAll (csi_params (m # ns) @ [f]) ?q"
    using "3.prems" sep by (simp add: feedAll_append [of "dec_bytes n"] dec_feed feedAll_Cons_silent)
  then show ?case using "3.IH" [of ?q] "3.prems" by simp
qed

text \<open>A parameter byte or a final byte met in \<open>CsiEntry\<close> is read as \<open>CsiParam\<close> reads it.\<close>

lemma dec_bytes_hd: "\<exists>d ds. dec_bytes n = (0x30 + of_nat d) # ds \<and> d < 10"
proof (induction n rule: dec_bytes.induct)
  case (1 n)
  show ?case
  proof (cases "n < 10")
    case False
    then obtain d ds where "dec_bytes (n div 10) = (0x30 + of_nat d) # ds" "d < 10"
      using "1.IH" by blast
    then show ?thesis using False by (subst dec_bytes.simps) auto
  qed (subst dec_bytes.simps, auto)
qed

lemma csi_params_hd:
  assumes "64 \<le> unat f" "unat f < 127"
  obtains b bs where "csi_params ns @ [f] = b # bs" "32 \<le> unat b" "unat b < 127"
    "\<not> (60 \<le> unat b \<and> unat b \<le> 63)"
proof -
  have digit: "unat (0x30 + of_nat d :: u8) = 48 + d" if "d < 10" for d
    using that by (simp add: unat_word_ariths unat_of_nat)
  show ?thesis
  proof (cases ns)
    case Nil
    then show ?thesis using that [of f "[]"] assms by simp
  next
    case (Cons n ms)
    obtain d ds where d: "dec_bytes n = (0x30 + of_nat d) # ds" "d < 10"
      using dec_bytes_hd by blast
    have "\<exists>bs. csi_params ns @ [f] = (0x30 + of_nat d) # bs"
      by (cases ms) (simp_all add: Cons d(1))
    then show ?thesis using that [of "0x30 + of_nat d"] digit [OF d(2)] d(2) by auto
  qed
qed

lemma esc_feedByte:
  assumes "\<not> isStringState (m_state p)" "m_utf8Remaining p = 0"
  shows "feedByte 0x1B p = ([], transition Escape p)"
  using assms by (simp add: feedByte_ascii processChar_def)

lemma csi_feed:
  assumes "\<not> isStringState (m_state p)" "m_utf8Remaining p = 0" "length ns \<le> kMaxParams"
    "list_all (\<lambda>n. int n \<le> kMaxParamValue) ns" "64 \<le> unat f" "unat f < 127"
  shows "fst (feedAll (csi_text ns f) p) =
      [CsiDispatch (char_of_byte f) (map int ns) (map (\<lambda>_. False) ns) '''' False]
    \<and> m_state (snd (feedAll (csi_text ns f) p)) = Ground"
proof -
  let ?e = "transition CsiEntry (transition Escape p)"
  have e: "m_state ?e = CsiEntry" "m_utf8Remaining ?e = 0" "m_params ?e = []" "m_colonSep ?e = []"
      "m_currentParam ?e = -1" "\<not> m_nextIsSubParam ?e" "m_intermediate ?e = ''''"
      "\<not> m_paramsTruncated ?e"
    using assms(2) by (simp_all add: transition_def)
  have br: "feedByte 0x5B (transition Escape p) = ([], ?e)"
    using assms(2)
    by (simp add: feedByte_ascii processChar_def stateSwitch_def escapeChar_def transition_def [of Escape])
  have "feedAll (csi_text ns f) p = feedAll (csi_params ns @ [f]) ?e"
    unfolding csi_text_def
    by (simp only: feedAll_Cons_silent [OF esc_feedByte [OF assms(1,2)]] feedAll_Cons_silent [OF br])
  also have "\<dots> = feedAll (csi_params ns @ [f]) (?e\<lparr>m_state := CsiParam\<rparr>)"
  proof -
    obtain b bs where b: "csi_params ns @ [f] = b # bs" "32 \<le> unat b" "unat b < 127"
        "\<not> (60 \<le> unat b \<and> unat b \<le> 63)"
      using csi_params_hd [OF assms(5,6)] by blast
    show ?thesis
      unfolding b(1) feedAll_Cons using feedByte_csiEntry [OF e(1,2) b(2-4)] by simp
  qed
  finally show ?thesis
    using csi_body [of "?e\<lparr>m_state := CsiParam\<rparr>" ns f] assms(3-6) e by simp
qed

section \<open>OSC strings\<close>

definition osc_text :: "string \<Rightarrow> u8 list" where
  "osc_text s = 0x1B # 0x5D # map byte_of_char s @ [0x07]"

definition osc_char :: "char \<Rightarrow> bool" where
  "osc_char c \<longleftrightarrow> (of_char c :: nat) < 0x80 \<and> (of_char c :: nat) \<notin> {0x07, 0x18, 0x1A, 0x1B}"

lemma unat_byte_of_char: "unat (byte_of_char c) = of_char c"
  by (metis byte_of_char_def char_of_byte_of_char char_of_byte_def of_char_of unat_u8_less_256
      mod_less)

lemma osc_char_feed:
  assumes "m_state p = OscString" "m_utf8Remaining p = 0" "osc_char c"
    "length (m_oscString p) < kMaxStringBytes"
  shows "feedByte (byte_of_char c) p = ([], p\<lparr>m_oscString := m_oscString p @ [c]\<rparr>)"
proof -
  let ?ch = "ucast (byte_of_char c) :: u32"
  have u: "unat ?ch = of_char c" by (simp add: unat_ucast_u8 unat_byte_of_char)
  have "byte_of_char c \<le> 0x9F"
    using assms(3) by (simp add: word_le_nat_alt unat_byte_of_char osc_char_def)
  moreover have "?ch \<noteq> 0x07" "?ch \<noteq> 0x1B" "?ch \<noteq> 0x18" "?ch \<noteq> 0x1A" "?ch \<noteq> 0x9C" "?ch < 0x80"
    using assms(3) by (auto simp: word_unat_eq_iff word_less_nat_alt u osc_char_def)
  moreover have "cast_char ?ch = c" unfolding cast_char_def u by simp
  ultimately show ?thesis
    using assms(1,2,4)
    by (simp add: feedByte_ascii processChar_def stateSwitch_def processString_def isStringState_def
        appendUtf8_def utf8_need_def utf8_bytes_def)
qed

lemma osc_body:
  assumes "m_state p = OscString" "m_utf8Remaining p = 0" "list_all osc_char s"
    "length (m_oscString p) + length s \<le> kMaxStringBytes"
  shows "feedAll (map byte_of_char s) p = ([], p\<lparr>m_oscString := m_oscString p @ s\<rparr>)"
  using assms
proof (induction s arbitrary: p)
  case (Cons c s)
  then have "feedByte (byte_of_char c) p = ([], p\<lparr>m_oscString := m_oscString p @ [c]\<rparr>)"
    by (intro osc_char_feed) simp_all
  then show ?case
    using Cons.prems Cons.IH [of "p\<lparr>m_oscString := m_oscString p @ [c]\<rparr>"]
    by (simp add: feedAll_Cons_silent)
qed simp

lemma osc_feed:
  assumes "\<not> isStringState (m_state p)" "m_utf8Remaining p = 0" "list_all osc_char s"
    "length s \<le> kMaxStringBytes"
  shows "fst (feedAll (osc_text s) p) = [OscEnd s False]
    \<and> m_state (snd (feedAll (osc_text s) p)) = Ground"
proof -
  let ?o = "transition OscString ((transition Escape p)\<lparr>m_oscString := ''''\<rparr>)"
  have br: "feedByte 0x5D (transition Escape p) = ([], ?o)"
    using assms(2)
    by (simp add: feedByte_ascii processChar_def stateSwitch_def escapeChar_def
        reArmStringIntroducer_def transition_def [of Escape])
  have "feedAll (osc_text s) p = feedAll (map byte_of_char s @ [0x07]) ?o"
    unfolding osc_text_def
    by (simp only: feedAll_Cons_silent [OF esc_feedByte [OF assms(1,2)]] feedAll_Cons_silent [OF br])
  also have "\<dots> = feedByte 0x07 (?o\<lparr>m_oscString := s\<rparr>)"
    using assms(2-4) by (simp add: feedAll_append osc_body feedAll_single transition_def)
  also have "\<dots> = endOsc Ground (?o\<lparr>m_oscString := s\<rparr>)"
    using assms(2)
    by (simp add: feedByte_ascii processChar_def stateSwitch_def processString_def transition_def)
  finally show ?thesis by (simp add: endOsc_def transition_def)
qed

section \<open>The byte after a string-ending ESC\<close>

definition peekState :: "vt_state \<Rightarrow> bool" where
  "peekState s \<longleftrightarrow> s \<in> {OscStringEsc, DcsStringEsc, ApcStringEsc, IgnoreStringEsc}"

definition stringBody :: "vt_state \<Rightarrow> bool" where
  "stringBody s \<longleftrightarrow> s \<in> {Ground, OscString, DcsString, ApcString, IgnoreString}"

lemma peek_processChar:
  assumes "peekState (m_state p)"
  shows "fst (processChar ch p) = [] \<and> stringBody (m_state (snd (processChar ch p)))"
proof -
  have rearm: "fst r = [] \<and> stringBody (m_state (snd r))"
    if "r = (case reArmStringIntroducer ch p of None \<Rightarrow> ([] :: vt_action list, transition Ground p)
          | Some q \<Rightarrow> ([], q))" for r
    by (simp add: that reArmStringIntroducer_def transition_def stringBody_def)
  have ne: "fst (stateSwitch ch p) = []" "stringBody (m_state (snd (stateSwitch ch p)))"
    using assms by (auto simp: peekState_def stateSwitch_def processString_def rearm)
  have str: "isStringState (m_state p)" using assms by (auto simp: peekState_def isStringState_def)
  show ?thesis
    using ne str by (simp add: processChar_def stringBody_def abortSequence_def transition_def)
qed

end
