(* ===== verification/GridTypes.thy ===== *)
theory GridTypes
  imports Prelude
begin

text \<open>
  The data model of \<open>src/src/terminalgrid.h\<close>: colours packed to four bytes, cells and their
  attributes, lines with their combining characters, hyperlink spans, prompt regions, inline
  images and rate windows, in the order the header declares them.
\<close>

section \<open>Colours\<close>

text \<open>\<open>QColor\<close>: invalid, or the 0xAARRGGBB value \<open>rgba()\<close> returns.\<close>

datatype qcolor = QInvalid | QRgba u32

definition qvalid :: "qcolor \<Rightarrow> bool" where
  "qvalid c = (case c of QInvalid \<Rightarrow> False | QRgba _ \<Rightarrow> True)"

text \<open>\<open>QColor(r, g, b)\<close> is opaque; its channels are in 0..255.\<close>

definition qrgb :: "int \<Rightarrow> int \<Rightarrow> int \<Rightarrow> qcolor" where
  "qrgb r g b = QRgba (0xFF000000 OR push_bit 16 (word_of_int r) OR push_bit 8 (word_of_int g)
     OR word_of_int b)"

definition qred :: "qcolor \<Rightarrow> int" where
  "qred c = (case c of QInvalid \<Rightarrow> 0 | QRgba v \<Rightarrow> uint (drop_bit 16 v AND 0xFF))"

definition qgreen :: "qcolor \<Rightarrow> int" where
  "qgreen c = (case c of QInvalid \<Rightarrow> 0 | QRgba v \<Rightarrow> uint (drop_bit 8 v AND 0xFF))"

definition qblue :: "qcolor \<Rightarrow> int" where
  "qblue c = (case c of QInvalid \<Rightarrow> 0 | QRgba v \<Rightarrow> uint (v AND 0xFF))"

text \<open>\<open>CellColor\<close> keeps only \<open>m_rgba\<close>; one transparent value stands for "unset".\<close>

type_synonym cell_color = u32

definition kUnset :: cell_color where "kUnset = 0x00010203"

definition encodeColor :: "u32 \<Rightarrow> cell_color" where
  "encodeColor v = (if v = kUnset then 0 else v)"

definition cellColor :: "qcolor \<Rightarrow> cell_color" where
  "cellColor c = (case c of QInvalid \<Rightarrow> kUnset | QRgba v \<Rightarrow> encodeColor v)"

definition colorValid :: "cell_color \<Rightarrow> bool" where
  "colorValid c \<longleftrightarrow> c \<noteq> kUnset"

definition toQColor :: "cell_color \<Rightarrow> qcolor" where
  "toQColor c = (if colorValid c then QRgba c else QInvalid)"

lemma cellColor_toQColor [simp]: "cellColor (toQColor c) = c"
  by (simp add: cellColor_def toQColor_def colorValid_def encodeColor_def)

lemma colorValid_cellColor [simp]: "colorValid (cellColor c) = qvalid c"
  by (cases c) (auto simp: colorValid_def cellColor_def encodeColor_def kUnset_def qvalid_def)

text \<open>Every valid colour but the one transparent value that means "unset" survives packing.\<close>

lemma toQColor_cellColor: "c \<noteq> QRgba kUnset \<Longrightarrow> toQColor (cellColor c) = c"
  by (cases c) (auto simp: toQColor_def cellColor_def encodeColor_def colorValid_def kUnset_def)

section \<open>Cells\<close>

datatype underline_style = UNone | USingle | UDouble | UCurly | UDotted | UDashed

record cell_attrs =
  c_fg :: cell_color
  c_bg :: cell_color
  c_underlineColor :: cell_color
  c_bold :: bool
  c_italic :: bool
  c_underline :: bool
  c_underlineStyle :: underline_style
  c_inverse :: bool
  c_dim :: bool
  c_strikethrough :: bool

definition attrs0 :: cell_attrs where
  "attrs0 = \<lparr>c_fg = kUnset, c_bg = kUnset, c_underlineColor = kUnset, c_bold = False,
     c_italic = False, c_underline = False, c_underlineStyle = UNone, c_inverse = False,
     c_dim = False, c_strikethrough = False\<rparr>"

record cell =
  codepoint :: u32
  attrs :: cell_attrs
  isWideChar :: bool
  isWideCont :: bool

definition cell0 :: cell where
  "cell0 = \<lparr>codepoint = 0x20, attrs = attrs0, isWideChar = False, isWideCont = False\<rparr>"

definition blankCell :: "cell_color \<Rightarrow> cell_color \<Rightarrow> cell" where
  "blankCell f b = cell0\<lparr>attrs := attrs0\<lparr>c_fg := f, c_bg := b\<rparr>\<rparr>"

definition makeRow :: "int \<Rightarrow> qcolor \<Rightarrow> qcolor \<Rightarrow> cell list" where
  "makeRow w f b = map (\<lambda>c. c\<lparr>attrs := (attrs c)\<lparr>c_fg := cellColor f, c_bg := cellColor b\<rparr>\<rparr>)
     (replicate (nat w) cell0)"

lemma length_makeRow [simp]: "length (makeRow w f b) = nat w"
  by (simp add: makeRow_def)

lemma makeRow_blank: "makeRow w f b = replicate (nat w) (blankCell (cellColor f) (cellColor b))"
  by (simp add: makeRow_def blankCell_def map_replicate cell0_def)

section \<open>Combining characters of a line\<close>

text \<open>
  \<open>CombiningMap\<close>: column to combining code points, as an association list. The source reads
  it by key, asks whether it is empty and visits every entry; it never depends on the order.
\<close>

type_synonym combining_map = "(int \<times> u32 list) list"

definition combErase :: "int \<Rightarrow> combining_map \<Rightarrow> combining_map" where
  "combErase k m = filter (\<lambda>kv. fst kv \<noteq> k) m"

definition combGet :: "combining_map \<Rightarrow> int \<Rightarrow> u32 list" where
  "combGet m k = (case map_of m k of None \<Rightarrow> [] | Some v \<Rightarrow> v)"

definition combSet :: "int \<Rightarrow> u32 list \<Rightarrow> combining_map \<Rightarrow> combining_map" where
  "combSet k v m = (k, v) # combErase k m"

lemma combErase_twice [simp]: "combErase k (combErase k m) = combErase k m"
  by (simp add: combErase_def)

lemma combErase_commute: "combErase k (combErase j m) = combErase j (combErase k m)"
  by (simp add: combErase_def conj_commute)

lemma combErase_Nil [simp]: "combErase k [] = []"
  by (simp add: combErase_def)

lemma combGet_Set [simp]: "combGet (combSet k v m) j = (if j = k then v else combGet m j)"
proof -
  have "map_of (filter (\<lambda>kv. fst kv \<noteq> k) m) j = map_of m j" if "j \<noteq> k"
    using that by (induction m) auto
  then show ?thesis by (simp add: combGet_def combSet_def combErase_def)
qed

lemma combGet_Erase [simp]: "combGet (combErase k m) j = (if j = k then [] else combGet m j)"
proof -
  have "map_of (filter (\<lambda>kv. fst kv \<noteq> k) m) j = (if j = k then None else map_of m j)"
    by (induction m) auto
  then show ?thesis by (simp add: combGet_def combErase_def)
qed

definition MAX_COMBINING_PER_CELL :: nat where "MAX_COMBINING_PER_CELL = 8"

text \<open>One entry per column, as in any \<open>std::unordered_map\<close>, and at most eight marks in each.\<close>

definition comb_ok :: "combining_map \<Rightarrow> bool" where
  "comb_ok m \<longleftrightarrow>
     distinct (map fst m) \<and> list_all (\<lambda>kv. length (snd kv) \<le> MAX_COMBINING_PER_CELL) m"

lemma comb_ok_Nil [simp]: "comb_ok []"
  by (simp add: comb_ok_def)

lemma comb_ok_filter: "comb_ok m \<Longrightarrow> comb_ok (filter P m)"
  by (auto simp: comb_ok_def list_all_iff distinct_map intro: inj_on_subset)

lemma comb_ok_map_keys:
  assumes "comb_ok m" "inj_on f (set (map fst m))"
  shows "comb_ok (map (\<lambda>(k, v). (f k, v)) m)"
proof -
  have k: "map fst (map (\<lambda>(k, v). (f k, v)) m) = map f (map fst m)"
    by (simp add: case_prod_beta comp_def)
  show ?thesis
    using assms unfolding comb_ok_def k distinct_map [of f] by (auto simp: list_all_iff)
qed

lemma comb_ok_Erase [simp]: "comb_ok m \<Longrightarrow> comb_ok (combErase k m)"
  by (simp add: combErase_def comb_ok_filter)

lemma comb_ok_Get: "comb_ok m \<Longrightarrow> length (combGet m k) \<le> MAX_COMBINING_PER_CELL"
  by (auto simp: comb_ok_def combGet_def list_all_iff split: option.split dest!: map_of_SomeD)

lemma comb_ok_Set: "comb_ok m \<Longrightarrow> length v \<le> MAX_COMBINING_PER_CELL \<Longrightarrow> comb_ok (combSet k v m)"
  using comb_ok_Erase [of m k] by (auto simp: comb_ok_def combSet_def combErase_def list_all_iff)

section \<open>Lines\<close>

record term_line =
  cells :: "cell list"
  softWrapped :: bool
  dirty :: bool
  combining :: combining_map

text \<open>A default-constructed \<open>TermLine\<close>: no cells, dirty.\<close>

definition line0 :: term_line where
  "line0 = \<lparr>cells = [], softWrapped = False, dirty = True, combining = []\<rparr>"

definition lineWith :: "cell list \<Rightarrow> term_line" where
  "lineWith cs = line0\<lparr>cells := cs\<rparr>"

lemma lineWith_simps [simp]:
  "cells (lineWith cs) = cs" "softWrapped (lineWith cs) = False" "dirty (lineWith cs) = True"
  "combining (lineWith cs) = []"
  by (simp_all add: lineWith_def line0_def)

text \<open>
  \<open>sizeof(Cell)\<close>: the three colours, the attribute flags, the code point and the two width
  flags fill 28 bytes, the figure the source states.
\<close>

definition sizeofCell :: int where "sizeofCell = 28"

definition cellBytes :: "term_line \<Rightarrow> int" where
  "cellBytes l = int (length (cells l)) * sizeofCell"

lemma cellBytes_nonneg [simp]: "0 \<le> cellBytes l"
  by (simp add: cellBytes_def sizeofCell_def)

section \<open>Links, prompts, images\<close>

record hyperlink_span =
  startCol :: int
  endCol :: int
  uri :: string
  linkId :: string

record prompt_region =
  startLine :: int
  endLine :: int
  hasOutput :: bool
  commandStartMs :: int
  commandEndMs :: int
  folded :: bool
  exitCode :: int
  commandStartCol :: int
  outputStartLine :: int
  regionId :: nat

datatype image_origin = Kitty | Sixel | ITerm2

text \<open>
  A non-null \<open>QImage\<close>: the identity of its pixel buffer (copies share it), its size in pixels,
  \<open>sizeInBytes()\<close>, and the 0xAARRGGBB value of a pixel. A null image is \<open>None\<close> wherever the
  source can hold one. Buffers are numbered by whoever allocates them, the parse worker or the
  grid.
\<close>

datatype buffer_id = WorkerBuffer nat | GridBuffer nat

record qimage =
  bufferId :: buffer_id
  imgWidth :: int
  imgHeight :: int
  imgBytes :: int
  imgPixel :: "int \<Rightarrow> int \<Rightarrow> u32"

record inline_image =
  image :: qimage
  imgRow :: int
  imgCol :: int
  cellWidth :: int
  cellHeight :: int
  pixelSized :: bool
  origin :: image_origin

datatype cursor_shape =
    BlinkBlock | BlinkBlock1 | SteadyBlock | BlinkUnderline | SteadyUnderline | BlinkBar | SteadyBar

datatype progress_state =
    ProgressNone | ProgressNormal | ProgressError | ProgressIndeterminate | ProgressWarning

text \<open>The \<open>static_cast\<close>s between these enums and \<open>int\<close>.\<close>

definition cursorShapes :: "cursor_shape list" where
  "cursorShapes = [BlinkBlock, BlinkBlock1, SteadyBlock, BlinkUnderline, SteadyUnderline, BlinkBar,
     SteadyBar]"

fun shapeInt :: "cursor_shape \<Rightarrow> int" where
  "shapeInt BlinkBlock = 0"
| "shapeInt BlinkBlock1 = 1"
| "shapeInt SteadyBlock = 2"
| "shapeInt BlinkUnderline = 3"
| "shapeInt SteadyUnderline = 4"
| "shapeInt BlinkBar = 5"
| "shapeInt SteadyBar = 6"

definition underlineStyleOf :: "int \<Rightarrow> underline_style" where
  "underlineStyleOf n = [UNone, USingle, UDouble, UCurly, UDotted, UDashed] ! nat n"

definition progressStates :: "progress_state list" where
  "progressStates = [ProgressNone, ProgressNormal, ProgressError, ProgressIndeterminate,
     ProgressWarning]"

instantiation cursor_shape :: linorder
begin

definition less_eq_cursor_shape :: "cursor_shape \<Rightarrow> cursor_shape \<Rightarrow> bool" where
  "less_eq_cursor_shape a b \<longleftrightarrow> shapeInt a \<le> shapeInt b"

definition less_cursor_shape :: "cursor_shape \<Rightarrow> cursor_shape \<Rightarrow> bool" where
  "less_cursor_shape a b \<longleftrightarrow> shapeInt a < shapeInt b"

instance
proof
  fix a b c :: cursor_shape
  show "a < b \<longleftrightarrow> a \<le> b \<and> \<not> b \<le> a" "a \<le> a" "a \<le> b \<or> b \<le> a"
    by (auto simp: less_eq_cursor_shape_def less_cursor_shape_def)
  show "a \<le> b \<Longrightarrow> b \<le> c \<Longrightarrow> a \<le> c" by (simp add: less_eq_cursor_shape_def)
  show "a \<le> b \<Longrightarrow> b \<le> a \<Longrightarrow> a = b"
    by (cases a; cases b) (simp_all add: less_eq_cursor_shape_def)
qed

end

section \<open>Rate windows\<close>

record rate_window =
  startMs :: int
  winCount :: int
  winBytes :: int

definition window0 :: rate_window where
  "window0 = \<lparr>startMs = 0, winCount = 0, winBytes = 0\<rparr>"

definition roll :: "int \<Rightarrow> int \<Rightarrow> rate_window \<Rightarrow> rate_window" where
  "roll now windowMs w =
     (if now - startMs w \<ge> windowMs then w\<lparr>startMs := now, winCount := 0, winBytes := 0\<rparr> else w)"

record minute_quotas =
  osc52 :: rate_window
  notify :: rate_window
  userVar :: rate_window

definition quotas0 :: minute_quotas where
  "quotas0 = \<lparr>osc52 = window0, notify = window0, userVar = window0\<rparr>"

section \<open>Events\<close>

text \<open>What the callbacks are called with, in order.\<close>

type_synonym qstring = "u16 list"

datatype event =
    Response string
  | Clipboard string char
  | Bell
  | Notify qstring qstring
  | Progress progress_state int
  | CommandFinished int int
  | UserVar qstring qstring
  | Forgery int
  | PromptMarker char int

text \<open>Which callbacks are installed.\<close>

record callbacks =
  cb_response :: bool
  cb_clipboard :: bool
  cb_bell :: bool
  cb_notify :: bool
  cb_lineCompletion :: bool
  cb_progress :: bool
  cb_commandFinished :: bool
  cb_userVar :: bool
  cb_osc133Forgery :: bool
  cb_promptMarker :: bool

definition callbacks0 :: callbacks where
  "callbacks0 = \<lparr>cb_response = False, cb_clipboard = False, cb_bell = False, cb_notify = False,
     cb_lineCompletion = False, cb_progress = False, cb_commandFinished = False,
     cb_userVar = False, cb_osc133Forgery = False, cb_promptMarker = False\<rparr>"

end
