(* ===== verification/GridState.thy ===== *)
theory GridState
  imports GridTypes VtParser
begin

text \<open>
  The state of \<open>TerminalGrid\<close> (the data members of \<open>src/src/terminalgrid.h\<close>, under their own
  names), its constructor, and what it reads from outside: the clocks, \<open>wcwidth\<close>, the decoders
  and the line-completion callback, collected in a record that every operation using one of
  them takes as its first argument. The record of the state is declared in five layers, each
  extending the one before; the operations work on the last.
\<close>

section \<open>State\<close>

record grid_core =
  m_rows :: int
  m_cols :: int
  m_cursorRow :: int
  m_cursorCol :: int
  m_cursorVisible :: bool
  m_currentAttrs :: cell_attrs
  m_screenLines :: "term_line list"
  m_freeCellBuffers :: "cell list list"
  m_defaultFg :: qcolor
  m_defaultBg :: qcolor
  m_scrollTop :: int
  m_scrollBottom :: int
  m_originMode :: bool
  m_autoWrap :: bool
  m_wrapNext :: bool
  m_tabStops :: "bool list"
  m_contentRevision :: nat

record grid_hist = grid_core +
  m_scrollback :: "term_line list"
  m_maxScrollback :: int
  m_maxScrollbackMib :: int
  m_scrollbackBytes :: int
  m_scrollbackPushed :: nat
  m_scrollbackInsertPaused :: bool
  m_csiClearRedrawActive :: bool
  m_csiClearRedrawTimer :: "int option"
  m_recentMode2Timer :: "int option"
  m_screenHyperlinks :: "hyperlink_span list list"
  m_scrollbackHyperlinks :: "hyperlink_span list list"
  m_hyperlinkActive :: bool
  m_hyperlinkUri :: string
  m_hyperlinkId :: string
  m_hyperlinkStartCol :: int
  m_hyperlinkStartRow :: int

record grid_modes = grid_hist +
  m_savedRow :: int
  m_savedCol :: int
  m_savedAttrs :: cell_attrs
  m_savedOriginMode :: bool
  m_savedAutoWrap :: bool
  m_bracketedPaste :: bool
  m_cursorShape :: cursor_shape
  m_applicationKeypad :: bool
  m_applicationCursorKeys :: bool
  m_mouseButtonMode :: bool
  m_mouseMotionMode :: bool
  m_mouseAnyMode :: bool
  m_mouseSgrMode :: bool
  m_focusReporting :: bool
  m_synchronizedOutput :: bool
  m_colorSchemeNotify :: bool
  m_kittyKeyFlags :: int
  m_kittyKeyStack :: "int list"

record grid_alt = grid_modes +
  m_altScreenActive :: bool
  m_altScreen :: "term_line list"
  m_altCursorRow :: int
  m_altCursorCol :: int
  m_altScrollTop :: int
  m_altScrollBottom :: int
  m_altScreenHyperlinks :: "hyperlink_span list list"
  m_altInlineImages :: "inline_image list"
  m_altPromptRegions :: "prompt_region list"
  m_altSavedAttrs :: cell_attrs
  m_altSavedOriginMode :: bool
  m_altSavedAutoWrap :: bool
  m_altScreenMode :: int
  m_inlineImages :: "inline_image list"
  m_kittyImages :: "(u32 \<times> qimage) list"
  m_kittyImageOrder :: "u32 list"
  m_kittyChunkBuffer :: string
  m_kittyChunkId :: u32
  m_kittyChunkParams :: "(char \<times> string) list"
  m_imageBudget :: u64
  m_nextBuffer :: nat

record grid = grid_alt +
  m_windowTitle :: qstring
  m_promptRegions :: "prompt_region list"
  m_promptRegionShift :: int
  m_shellIntegState :: "char option"
  m_nextPromptRegionId :: nat
  m_lastExitCode :: int
  m_commandOutputStart :: int
  m_progressState :: progress_state
  m_progressValue :: int
  m_quotas :: minute_quotas
  m_queryRespQuota :: rate_window
  m_osc133Key :: "u8 list"
  m_osc133ForgeryCount :: int
  m_osc133LastForgeryNotifyMs :: int
  m_debugLog :: bool
  m_callbacks :: callbacks
  m_events :: "event list"

text \<open>
  The callbacks are fields of the C++ class; \<open>m_callbacks\<close> records which of them are set and
  \<open>m_events\<close> what they have been called with. \<open>QElapsedTimer\<close> is the reading at \<open>start()\<close>,
  \<open>None\<close> while invalid. \<open>m_scrollback\<close> and \<open>m_kittyImageOrder\<close> list the deque front first.
\<close>

section \<open>What the grid reads from outside\<close>

text \<open>
  A call the line-completion callback makes back into the grid: \<open>applyRowAttrs\<close> or
  \<open>addRowHyperlink\<close> with its arguments.
\<close>

datatype row_edit =
    ApplyRowAttrs int int int qcolor qcolor
  | AddRowHyperlink int int int qstring

record env =
  e_wcwidth :: "u32 \<Rightarrow> int"
  e_nowMs :: int
  e_monoMs :: int
  e_lineTriggers :: "int \<Rightarrow> term_line list \<Rightarrow> row_edit list"
  e_fromUtf8 :: "string \<Rightarrow> qstring"
  e_toStd :: "qstring \<Rightarrow> string"
  e_base64Strict :: "string \<Rightarrow> string option"
  e_base64Lenient :: "string \<Rightarrow> string"
  e_declaredSize :: "string \<Rightarrow> string option \<Rightarrow> int \<times> int"
  e_loadFromData :: "string \<Rightarrow> string option \<Rightarrow> qimage option"
  e_hmacHex :: "u8 list \<Rightarrow> string \<Rightarrow> string"
  e_osc133KeyFromSetup :: "u8 list"
  e_hash :: "string \<Rightarrow> nat"

text \<open>
  \<open>m_nextBuffer\<close> numbers the pixel buffers the grid allocates. Within one call the clock is read as one value: \<open>e_nowMs\<close> for
  \<open>QDateTime::currentMSecsSinceEpoch\<close>, \<open>e_monoMs\<close> for \<open>QElapsedTimer\<close>.
\<close>

section \<open>Construction\<close>

definition initTabStops :: "grid \<Rightarrow> grid" where
  "initTabStops g = g\<lparr>m_tabStops := map (\<lambda>i. i mod 8 = 0) [0 ..< nat (m_cols g)]\<rparr>"

definition grid_members :: "int \<Rightarrow> int \<Rightarrow> grid" where
  "grid_members rows cols =
    \<lparr>m_rows = rows, m_cols = cols, m_cursorRow = 0, m_cursorCol = 0, m_cursorVisible = True,
     m_currentAttrs = attrs0, m_screenLines = [], m_freeCellBuffers = [],
     m_defaultFg = qrgb 0xCD 0xD6 0xF4, m_defaultBg = qrgb 0x1E 0x1E 0x2E,
     m_scrollTop = 0, m_scrollBottom = 0, m_originMode = False, m_autoWrap = True,
     m_wrapNext = False, m_tabStops = [], m_contentRevision = 0,
     m_scrollback = [], m_maxScrollback = 50000, m_maxScrollbackMib = 256,
     m_scrollbackBytes = 0, m_scrollbackPushed = 0, m_scrollbackInsertPaused = False,
     m_csiClearRedrawActive = False, m_csiClearRedrawTimer = None, m_recentMode2Timer = None,
     m_screenHyperlinks = [], m_scrollbackHyperlinks = [], m_hyperlinkActive = False,
     m_hyperlinkUri = [], m_hyperlinkId = [], m_hyperlinkStartCol = 0, m_hyperlinkStartRow = 0,
     m_savedRow = 0, m_savedCol = 0, m_savedAttrs = attrs0, m_savedOriginMode = False,
     m_savedAutoWrap = True, m_bracketedPaste = False, m_cursorShape = BlinkBlock,
     m_applicationKeypad = False, m_applicationCursorKeys = False, m_mouseButtonMode = False,
     m_mouseMotionMode = False, m_mouseAnyMode = False, m_mouseSgrMode = False,
     m_focusReporting = False, m_synchronizedOutput = False, m_colorSchemeNotify = False,
     m_kittyKeyFlags = 0, m_kittyKeyStack = [],
     m_altScreenActive = False, m_altScreen = [], m_altCursorRow = 0, m_altCursorCol = 0,
     m_altScrollTop = 0, m_altScrollBottom = 0, m_altScreenHyperlinks = [],
     m_altInlineImages = [], m_altPromptRegions = [], m_altSavedAttrs = attrs0,
     m_altSavedOriginMode = False, m_altSavedAutoWrap = True, m_altScreenMode = 0,
     m_inlineImages = [], m_kittyImages = [], m_kittyImageOrder = [], m_kittyChunkBuffer = [],
     m_kittyChunkId = 0, m_kittyChunkParams = [], m_imageBudget = 0, m_nextBuffer = 0,
     m_windowTitle = [], m_promptRegions = [], m_promptRegionShift = 0, m_shellIntegState = None,
     m_nextPromptRegionId = 1, m_lastExitCode = 0, m_commandOutputStart = -1,
     m_progressState = ProgressNone, m_progressValue = 0, m_quotas = quotas0,
     m_queryRespQuota = window0, m_osc133Key = [], m_osc133ForgeryCount = 0,
     m_osc133LastForgeryNotifyMs = 0, m_debugLog = False, m_callbacks = callbacks0,
     m_events = []\<rparr>"

definition TerminalGrid :: "env \<Rightarrow> int \<Rightarrow> int \<Rightarrow> grid" where
  "TerminalGrid e rows cols =
     (let g = grid_members rows cols;
          g = g\<lparr>m_scrollBottom := m_rows g - 1, m_altScrollBottom := m_rows g - 1,
                m_currentAttrs := (m_currentAttrs g)\<lparr>c_fg := cellColor (m_defaultFg g),
                                                     c_bg := cellColor (m_defaultBg g)\<rparr>,
                m_screenLines := replicate (nat (m_rows g))
                  (lineWith (makeRow (m_cols g) (m_defaultFg g) (m_defaultBg g))),
                m_screenHyperlinks := replicate (nat (m_rows g)) []\<rparr>
      in (initTabStops g)\<lparr>m_osc133Key := e_osc133KeyFromSetup e\<rparr>)"

section \<open>Small accessors\<close>

text \<open>Events are appended; \<open>emit\<close> is a callback being called.\<close>

definition emit :: "event \<Rightarrow> grid \<Rightarrow> grid" where
  "emit ev g = g\<lparr>m_events := m_events g @ [ev]\<rparr>"

definition bumpRevision :: "grid \<Rightarrow> grid" where
  "bumpRevision g = g\<lparr>m_contentRevision := m_contentRevision g + 1\<rparr>"

definition updLine :: "int \<Rightarrow> (term_line \<Rightarrow> term_line) \<Rightarrow> grid \<Rightarrow> grid" where
  "updLine r f g = g\<lparr>m_screenLines := vupd r f (m_screenLines g)\<rparr>"

definition lineAt :: "grid \<Rightarrow> int \<Rightarrow> term_line" where
  "lineAt g r = vget (m_screenLines g) r"

definition eraseBg :: "grid \<Rightarrow> qcolor" where
  "eraseBg g = (if colorValid (c_bg (m_currentAttrs g)) then toQColor (c_bg (m_currentAttrs g))
     else m_defaultBg g)"

definition markScreenDirty :: "int \<Rightarrow> grid \<Rightarrow> grid" where
  "markScreenDirty r g =
     (if 0 \<le> r \<and> r < m_rows g then updLine r (\<lambda>l. l\<lparr>dirty := True\<rparr>) g else g)"

definition markAllScreenDirty :: "grid \<Rightarrow> grid" where
  "markAllScreenDirty g = g\<lparr>m_screenLines := map (\<lambda>l. l\<lparr>dirty := True\<rparr>) (m_screenLines g)\<rparr>"

definition clearScreenLineDirty :: "int \<Rightarrow> grid \<Rightarrow> grid" where
  "clearScreenLineDirty r g =
     (if 0 \<le> r \<and> r < m_rows g then updLine r (\<lambda>l. l\<lparr>dirty := False\<rparr>) g else g)"

definition clearAllScreenDirty :: "grid \<Rightarrow> grid" where
  "clearAllScreenDirty g = g\<lparr>m_screenLines := map (\<lambda>l. l\<lparr>dirty := False\<rparr>) (m_screenLines g)\<rparr>"

definition resetAttrs :: "grid \<Rightarrow> cell_attrs" where
  "resetAttrs g = attrs0\<lparr>c_fg := cellColor (m_defaultFg g), c_bg := cellColor (m_defaultBg g)\<rparr>"

text \<open>\<open>cell(row, col)\<close> clamps both indices.\<close>

definition updCell :: "int \<Rightarrow> int \<Rightarrow> (cell \<Rightarrow> cell) \<Rightarrow> grid \<Rightarrow> grid" where
  "updCell r c f g = updLine (clamp r 0 (m_rows g - 1))
     (\<lambda>l. l\<lparr>cells := vupd (clamp c 0 (m_cols g - 1)) f (cells l)\<rparr>) g"

definition cellAt :: "grid \<Rightarrow> int \<Rightarrow> int \<Rightarrow> cell" where
  "cellAt g r c = vget (cells (lineAt g (clamp r 0 (m_rows g - 1)))) (clamp c 0 (m_cols g - 1))"

end
