(* ===== verification/CppString.thy ===== *)
theory CppString
  imports Prelude
begin

text \<open>
  The part of \<open>std::string\<close> and \<open><string>\<close> the OSC, DCS and APC handlers use: splitting at a
  separator, \<open>substr\<close>, \<open>std::stoi\<close> and \<open>std::stoul\<close> with their exceptions as \<open>None\<close>, and
  \<open>std::to_string\<close>.
\<close>

section \<open>Splitting\<close>

text \<open>\<open>find(c)\<close> then the text before and after the match.\<close>

definition cut :: "char \<Rightarrow> string \<Rightarrow> (string \<times> string) option" where
  "cut c s = map_option (\<lambda>i. (take i s, drop (Suc i) s)) (find_char c s)"

lemma cut_length: "cut c s = Some (a, b) \<Longrightarrow> length s = length a + Suc (length b)"
  by (auto simp: cut_def dest!: find_char_Some)

lemma cut_Some: "cut c s = Some (a, b) \<Longrightarrow> s = a @ c # b \<and> c \<notin> set a"
  by (auto simp: cut_def dest!: find_char_Some simp: Cons_nth_drop_Suc [symmetric] id_take_nth_drop)

lemma cut_None: "cut c s = None \<longleftrightarrow> c \<notin> set s"
  by (simp add: cut_def find_char_None)

function splitOn :: "char \<Rightarrow> string \<Rightarrow> string list" where
  "splitOn c s = (case cut c s of None \<Rightarrow> [s] | Some (a, b) \<Rightarrow> a # splitOn c b)"
  by pat_completeness auto
termination by (relation "measure (\<lambda>(c, s). length s)") (auto dest: cut_length)

declare splitOn.simps [simp del]

section \<open>Numbers\<close>

definition isDigit :: "char \<Rightarrow> bool" where
  "isDigit c \<longleftrightarrow> (let n = (of_char c :: nat) in 48 \<le> n \<and> n \<le> 57)"

definition digitVal :: "char \<Rightarrow> int" where
  "digitVal c = int (of_char c) - 48"

definition isSpace :: "char \<Rightarrow> bool" where
  "isSpace c \<longleftrightarrow> (let n = (of_char c :: nat) in n = 32 \<or> 9 \<le> n \<and> n \<le> 13)"

definition digitsValue :: "string \<Rightarrow> int" where
  "digitsValue ds = foldl (\<lambda>v d. v * 10 + digitVal d) 0 ds"

text \<open>What \<open>strtol\<close> reads: white space, a sign, then digits; \<open>None\<close> without a digit.\<close>

definition signedPrefix :: "string \<Rightarrow> (bool \<times> int) option" where
  "signedPrefix s0 =
     (let s = dropWhile isSpace s0;
          (neg, s) = (case s of
                        [] \<Rightarrow> (False, [])
                      | c # cs \<Rightarrow> if c = CHR ''-'' then (True, cs)
                                  else if c = CHR ''+'' then (False, cs) else (False, c # cs));
          ds = takeWhile isDigit s
      in if ds = [] then None else Some (neg, digitsValue ds))"

definition stoi :: "string \<Rightarrow> int option" where
  "stoi s = (case signedPrefix s of
     None \<Rightarrow> None
   | Some (neg, v) \<Rightarrow>
       (let n = (if neg then - v else v)
        in if - (2 ^ 31) \<le> n \<and> n < 2 ^ 31 then Some n else None))"

text \<open>\<open>static_cast<uint32_t>(std::stoul(s))\<close>: 64 bits, a minus sign negating modulo 2^64.\<close>

definition stoul32 :: "string \<Rightarrow> u32 option" where
  "stoul32 s = (case signedPrefix s of
     None \<Rightarrow> None
   | Some (neg, v) \<Rightarrow>
       (if v < 2 ^ 64 then Some (word_of_int (if neg then - v else v)) else None))"

lemma stoi_range: "stoi s = Some n \<Longrightarrow> - (2 ^ 31) \<le> n \<and> n < 2 ^ 31"
  by (auto simp: stoi_def Let_def split: option.splits prod.splits if_splits)

fun natDigits :: "nat \<Rightarrow> string" where
  "natDigits n = (if n < 10 then [char_of (48 + n)] else natDigits (n div 10) @ [char_of (48 + n mod 10)])"

declare natDigits.simps [simp del]

text \<open>\<open>std::to_string\<close>.\<close>

definition toString :: "int \<Rightarrow> string" where
  "toString n = (if n < 0 then CHR ''-'' # natDigits (nat (- n)) else natDigits (nat n))"

text \<open>\<open>%04x\<close> of a value below 2^16.\<close>

definition hexDigit :: "nat \<Rightarrow> char" where
  "hexDigit n = (if n < 10 then char_of (48 + n) else char_of (87 + n))"

definition hex4 :: "int \<Rightarrow> string" where
  "hex4 v = (let n = nat v in
     [hexDigit (n div 4096 mod 16), hexDigit (n div 256 mod 16), hexDigit (n div 16 mod 16),
      hexDigit (n mod 16)])"

section \<open>A number written is a number read\<close>

lemma digit_char:
  assumes "n < 10"
  shows "isDigit (char_of (48 + n))" "digitVal (char_of (48 + n)) = int n"
proof -
  have "(of_char (char_of (48 + n)) :: nat) = 48 + n" using assms by simp
  then show "isDigit (char_of (48 + n))" using assms by (simp add: isDigit_def Let_def)
  show "digitVal (char_of (48 + n)) = int n" using assms by (simp add: digitVal_def)
qed

lemma natDigits_unfold:
  "natDigits n = (if n < 10 then [] else natDigits (n div 10)) @ [char_of (48 + n mod 10)]"
  by (subst natDigits.simps) simp

lemma natDigits_digits: "list_all isDigit (natDigits n) \<and> natDigits n \<noteq> []"
proof (induction n rule: natDigits.induct)
  case (1 n)
  then show ?case
    using digit_char(1) [of "n mod 10"]
    by (cases "n < 10"; subst natDigits_unfold; subst natDigits_unfold) simp_all
qed

lemma digitsValue_snoc: "digitsValue (ds @ [d]) = digitsValue ds * 10 + digitVal d"
  by (simp add: digitsValue_def)

lemma digitsValue_natDigits: "digitsValue (natDigits n) = int n"
proof (induction n rule: natDigits.induct)
  case (1 n)
  have n: "int n = int (n div 10) * 10 + int (n mod 10)" by presburger
  have d: "digitVal (char_of (48 + n mod 10)) = int (n mod 10)" by (rule digit_char) simp
  have v: "digitsValue (if n < 10 then [] else natDigits (n div 10)) = int (n div 10)"
    using "1.IH" by (simp add: digitsValue_def)
  show ?case by (subst natDigits_unfold) (simp only: digitsValue_snoc v d n)
qed

lemma takeWhile_all: "list_all P xs \<Longrightarrow> takeWhile P xs = xs"
  by (simp add: list_all_iff takeWhile_eq_all_conv)

lemma stoi_toString:
  assumes "- (2 ^ 31) \<le> n" "n < 2 ^ 31"
  shows "stoi (toString n) = Some n"
proof -
  obtain c cs where c: "natDigits (nat n) = c # cs" "isDigit c"
    using natDigits_digits [of "nat n"] by (cases "natDigits (nat n)") auto
  then have ns: "\<not> isSpace c" "c \<noteq> CHR ''-''" "c \<noteq> CHR ''+''"
    by (auto simp: isDigit_def isSpace_def Let_def)
  show ?thesis
  proof (cases "n < 0")
    case True
    have "signedPrefix (toString n) = Some (True, - n)"
      using True natDigits_digits [of "nat (- n)"]
      by (simp add: signedPrefix_def toString_def isSpace_def takeWhile_all digitsValue_natDigits)
    then show ?thesis using assms by (simp add: stoi_def)
  next
    case False
    have "signedPrefix (toString n) = Some (False, n)"
      using False natDigits_digits [of "nat n"] ns digitsValue_natDigits [of "nat n"] c
      by (simp add: signedPrefix_def toString_def takeWhile_all)
    then show ?thesis using assms by (simp add: stoi_def)
  qed
qed

end
