(* ===== verification/InlineImage.thy ===== *)
theory InlineImage
  imports GridState CppString
begin

text \<open>
  \<open>src/src/inlineimagedecode.h\<close> and \<open>src/src/inlineimagedecode.cpp\<close>: the key blocks of the two
  image protocols, the guarded decode, and the parse worker's half of the decoding.
\<close>

record predecoded_image =
  preImage :: "qimage option"
  sourceSize :: nat
  sourceHash :: nat

definition matches :: "env \<Rightarrow> predecoded_image \<Rightarrow> string \<Rightarrow> bool" where
  "matches e p b64 \<longleftrightarrow> length b64 = sourceSize p \<and> e_hash e b64 = sourceHash p"

definition predecoded :: "env \<Rightarrow> string \<Rightarrow> qimage option \<Rightarrow> predecoded_image" where
  "predecoded e b64 img = \<lparr>preImage = img, sourceSize = length b64, sourceHash = e_hash e b64\<rparr>"

definition kMaxImageDim :: int where "kMaxImageDim = 4096"
definition kMaxInlineImageB64Bytes :: nat where "kMaxInlineImageB64Bytes = 12 * 1024 * 1024"
definition kMaxKittyB64Bytes :: nat where "kMaxKittyB64Bytes = 15 * 1024 * 1024"
definition kMaxKittyChunkBytes :: nat where "kMaxKittyChunkBytes = 32 * 1024 * 1024"

type_synonym kitty_keys = "(char \<times> string) list"

definition decodeBase64Strict :: "env \<Rightarrow> string \<Rightarrow> string" where
  "decodeBase64Strict e b64 = (case e_base64Strict e b64 of None \<Rightarrow> [] | Some d \<Rightarrow> d)"

definition decodeBytes :: "env \<Rightarrow> string \<Rightarrow> string option \<Rightarrow> int \<Rightarrow> qimage option" where
  "decodeBytes e bytes fmt maxDim =
     (if bytes = [] then None
      else if fst (e_declaredSize e bytes fmt) > maxDim \<or> snd (e_declaredSize e bytes fmt) > maxDim
      then None
      else (case e_loadFromData e bytes fmt of
              None \<Rightarrow> None
            | Some img \<Rightarrow> if imgWidth img > maxDim \<or> imgHeight img > maxDim then None else Some img))"

lemma decodeBytes_dim:
  "decodeBytes e bytes fmt d = Some img \<Longrightarrow> imgWidth img \<le> d \<and> imgHeight img \<le> d"
  by (auto simp: decodeBytes_def split: if_splits option.splits)

section \<open>Key blocks\<close>

fun containsStr :: "string \<Rightarrow> string \<Rightarrow> bool" where
  "containsStr pat [] \<longleftrightarrow> pat = []"
| "containsStr pat (c # cs) \<longleftrightarrow> take (length pat) (c # cs) = pat \<or> containsStr pat cs"

definition splitITerm2 :: "string \<Rightarrow> (string \<times> string) option" where
  "splitITerm2 payload =
     (if take 5 payload \<noteq> ''1337;'' then None
      else (case cut CHR '':'' (drop 5 payload) of
              None \<Rightarrow> None
            | Some (keys, b64) \<Rightarrow> if containsStr ''inline=1'' keys then Some (keys, b64) else None))"

definition keySet :: "char \<Rightarrow> string \<Rightarrow> kitty_keys \<Rightarrow> kitty_keys" where
  "keySet k v m = (k, v) # filter (\<lambda>kv. fst kv \<noteq> k) m"

definition keyErase :: "char \<Rightarrow> kitty_keys \<Rightarrow> kitty_keys" where
  "keyErase k m = filter (\<lambda>kv. fst kv \<noteq> k) m"

text \<open>The loop of \<open>parseKittyKeys\<close>: one \<open>k=value\<close> group per pass, ending at anything else.\<close>

function parseKittyLoop :: "string \<Rightarrow> kitty_keys \<Rightarrow> kitty_keys" where
  "parseKittyLoop s out =
     (case s of
        k # eq # rest \<Rightarrow>
          (if eq = CHR ''='' then
             (let v = takeWhile (\<lambda>c. c \<noteq> CHR '','') rest
              in parseKittyLoop (drop (length v + 1) rest) (keySet k v out))
           else out)
      | _ \<Rightarrow> out)"
  by pat_completeness auto
termination by (relation "measure (\<lambda>(s, out). length s)") auto

declare parseKittyLoop.simps [simp del]

definition parseKittyKeys :: "string \<Rightarrow> kitty_keys" where
  "parseKittyKeys s = parseKittyLoop s []"

definition mergeContinuationKeys :: "kitty_keys \<Rightarrow> kitty_keys \<Rightarrow> kitty_keys" where
  "mergeContinuationKeys keys firstChunk =
     (if list_all (\<lambda>kv. fst kv = CHR ''m'' \<or> fst kv = CHR ''q'') keys
      then keys @ filter (\<lambda>kv. map_of keys (fst kv) = None) firstChunk
      else keys)"

section \<open>The parse worker's half\<close>

record predecoder =
  p_kittyBuffer :: string
  p_kittyFirstKeys :: kitty_keys

definition predecoder0 :: predecoder where
  "predecoder0 = \<lparr>p_kittyBuffer = [], p_kittyFirstKeys = []\<rparr>"

definition resetKitty :: "predecoder \<Rightarrow> predecoder" where
  "resetKitty p = p\<lparr>p_kittyBuffer := [], p_kittyFirstKeys := []\<rparr>"

definition keyValue :: "kitty_keys \<Rightarrow> char \<Rightarrow> string" where
  "keyValue keys k = (case map_of keys k of None \<Rightarrow> [] | Some v \<Rightarrow> v)"

text \<open>The key block and data of an APC body that starts with \<open>G\<close>.\<close>

definition apcKeys :: "string \<Rightarrow> string" where
  "apcKeys payload = (case cut CHR '';'' payload of None \<Rightarrow> drop 1 payload | Some (a, _) \<Rightarrow> drop 1 a)"

definition apcData :: "string \<Rightarrow> string" where
  "apcData payload = (case cut CHR '';'' payload of None \<Rightarrow> [] | Some (_, b) \<Rightarrow> b)"

definition onApc :: "env \<Rightarrow> string \<Rightarrow> predecoder \<Rightarrow> predecoded_image option \<times> predecoder" where
  "onApc e payload p =
     (if payload = [] \<or> hd payload \<noteq> CHR ''G'' then (None, p)
      else
        (let keys = mergeContinuationKeys (parseKittyKeys (apcKeys payload)) (p_kittyFirstKeys p);
             body = apcData payload
         in if keyValue keys CHR ''m'' = ''1'' then
              (let p = (if p_kittyFirstKeys p = []
                        then p\<lparr>p_kittyFirstKeys := keyErase CHR ''m'' keys\<rparr> else p)
               in if length (p_kittyBuffer p) + length body > kMaxKittyChunkBytes
                  then (None, resetKitty p)
                  else (None, p\<lparr>p_kittyBuffer := p_kittyBuffer p @ body\<rparr>))
            else
              (let full = p_kittyBuffer p @ body; p = resetKitty p; action = keyValue keys CHR ''a''
               in if keyValue keys CHR ''f'' \<noteq> ''100'' then (None, p)
                  else if action \<noteq> [] \<and> action \<noteq> ''T'' \<and> action \<noteq> ''t'' then (None, p)
                  else if full = [] \<or> length full > kMaxKittyB64Bytes then (None, p)
                  else (Some (predecoded e full
                          (decodeBytes e (decodeBase64Strict e full) (Some ''PNG'') kMaxImageDim)), p))))"

definition onAction :: "env \<Rightarrow> vt_action \<Rightarrow> predecoder \<Rightarrow> predecoded_image option \<times> predecoder" where
  "onAction e a p =
     (case a of
        OscEnd payload tr \<Rightarrow>
          (if tr then (None, p)
           else (case splitITerm2 payload of
                   None \<Rightarrow> (None, p)
                 | Some (keys, b64) \<Rightarrow>
                     if length b64 > kMaxInlineImageB64Bytes then (None, p)
                     else (Some (predecoded e b64
                             (decodeBytes e (decodeBase64Strict e b64) None kMaxImageDim)), p)))
      | ApcEnd payload tr \<Rightarrow> if tr then (None, p) else onApc e payload p
      | _ \<Rightarrow> (None, p))"

end
