(* ===== verification/Pty.thy ===== *)
theory Pty
  imports Prelude
begin

text \<open>
  \<open>src/src/ptyhandler.h\<close> and \<open>src/src/ptyhandler.cpp\<close>: the environment of the child, the write
  queue of the pseudo-terminal, and the samples taken of its foreground process. The kernel is
  a script of answers to the \<open>::write\<close> calls still to come (\<open>kernelAnswers\<close>); the bytes it
  has accepted are logged in \<open>toKernel\<close>. An exhausted script answers \<open>EAGAIN\<close>.
\<close>

section \<open>The child's environment\<close>

definition kTermOverrides :: "string list" where
  "kTermOverrides = [''--env=TERM=xterm-256color'', ''--env=COLORTERM=truecolor'',
     ''--env=TERM_PROGRAM=AntsTerminal'', ''--env=COLORFGBG=15;0'']"

definition kEnvFlagLen :: nat where "kEnvFlagLen = 6"

definition kClaudeIdentityKeys :: "string list" where
  "kClaudeIdentityKeys = [''CLAUDECODE='', ''CLAUDE_CODE_CHILD_SESSION='', ''CLAUDE_CODE_SESSION_ID='',
     ''CLAUDE_PID='', ''CLAUDE_CODE_MESSAGING_SOCKET='', ''CLAUDE_CODE_EXECPATH='', ''AI_AGENT='']"

text \<open>The end of \<open>entry\<close> is its NUL, which no assignment contains.\<close>

fun sameKey :: "string \<Rightarrow> string \<Rightarrow> bool" where
  "sameKey (e # es) (a # as) = (if e \<noteq> a then False else if a = CHR ''='' then True else sameKey es as)"
| "sameKey _ _ = False"

definition dropEntry :: "string \<Rightarrow> string \<Rightarrow> bool" where
  "dropEntry termProgramVersion entry \<longleftrightarrow> sameKey entry termProgramVersion \<or>
     list_ex (\<lambda>ov. sameKey entry (drop kEnvFlagLen ov)) kTermOverrides \<or>
     list_ex (sameKey entry) kClaudeIdentityKeys"

definition buildChildEnvp :: "string \<Rightarrow> string list \<Rightarrow> string list" where
  "buildChildEnvp termProgramVersion environ =
     filter (\<lambda>entry. \<not> dropEntry termProgramVersion entry) environ
       @ map (drop kEnvFlagLen) kTermOverrides @ [termProgramVersion]"

section \<open>State\<close>

text \<open>One answer of \<open>::write\<close>: how much it would take, \<open>EINTR\<close>, \<open>EAGAIN\<close>, or another error.\<close>

datatype write_answer = Takes nat | Interrupted | WouldBlock | Failed

text \<open>The notifiers are \<open>None\<close> until \<open>start\<close> has created them, then on or off.\<close>

record pty =
  m_masterFd :: int
  m_childPid :: int
  m_lastForegroundPgid :: int
  m_readNotifier :: "bool option"
  m_readEof :: bool
  m_writeNotifier :: "bool option"
  m_pendingWrite :: "u8 list"
  kernelAnswers :: "write_answer list"
  toKernel :: "u8 list"

datatype pty_signal = WriteLost int | WriteDrained

definition MAX_PENDING_WRITE_BYTES :: int where "MAX_PENDING_WRITE_BYTES = 4 * 1024 * 1024"

text \<open>A pseudo-terminal that \<open>start\<close> has opened, with nothing queued.\<close>

definition pty_open :: "int \<Rightarrow> int \<Rightarrow> pty" where
  "pty_open fd pid = \<lparr>m_masterFd = fd, m_childPid = pid, m_lastForegroundPgid = -1,
     m_readNotifier = Some True, m_readEof = False, m_writeNotifier = Some False,
     m_pendingWrite = [], kernelAnswers = [], toKernel = []\<rparr>"

definition writeQueueEmpty :: "pty \<Rightarrow> bool" where
  "writeQueueEmpty p \<longleftrightarrow> m_pendingWrite p = []"

section \<open>Writing\<close>

text \<open>Why the write loop stopped: all out, \<open>EAGAIN\<close> or \<open>EWOULDBLOCK\<close>, or a fatal \<open>errno\<close>.\<close>

datatype write_stop = AllOut | Again | Fatal

text \<open>\<open>writeSome\<close>: what was written, why it stopped, and the answers left.\<close>

fun writeLoop :: "write_answer list \<Rightarrow> u8 list \<Rightarrow> u8 list \<times> write_stop \<times> write_answer list" where
  "writeLoop ks [] = ([], AllOut, ks)"
| "writeLoop [] (b # bs) = ([], Again, [])"
| "writeLoop (Takes n # ks) (b # bs) =
     (if n > 0
      then (let (done, stop, rest) = writeLoop ks (drop n (b # bs)) in (take n (b # bs) @ done, stop, rest))
      else ([], Fatal, ks))"
| "writeLoop (Interrupted # ks) (b # bs) = writeLoop ks (b # bs)"
| "writeLoop (WouldBlock # ks) (b # bs) = ([], Again, ks)"
| "writeLoop (Failed # ks) (b # bs) = ([], Fatal, ks)"

definition writeSome :: "u8 list \<Rightarrow> pty \<Rightarrow> nat \<times> write_stop \<times> pty" where
  "writeSome buf p =
     (let (done, stop, rest) = writeLoop (kernelAnswers p) buf
      in (length done, stop, p\<lparr>kernelAnswers := rest, toKernel := toKernel p @ done\<rparr>))"

definition setWriteNotifier :: "bool \<Rightarrow> pty \<Rightarrow> pty" where
  "setWriteNotifier on p = p\<lparr>m_writeNotifier := map_option (\<lambda>_. on) (m_writeNotifier p)\<rparr>"

definition ptyWrite :: "u8 list \<Rightarrow> pty \<Rightarrow> pty_signal list \<times> pty" where
  "ptyWrite bytes p =
     (if m_masterFd p < 0 then ([], p)
      else if m_pendingWrite p \<noteq> [] then
        (if int (length (m_pendingWrite p)) + int (length bytes) > MAX_PENDING_WRITE_BYTES
         then ([WriteLost (int (length bytes))], p)
         else ([], p\<lparr>m_pendingWrite := m_pendingWrite p @ bytes\<rparr>))
      else
        (let (written, stop, p) = writeSome bytes p; remaining = int (length bytes) - int written
         in if remaining = 0 then ([], p)
            else if stop = Again then
              (if remaining > MAX_PENDING_WRITE_BYTES then ([WriteLost remaining], p)
               else ([], setWriteNotifier True (p\<lparr>m_pendingWrite := drop written bytes\<rparr>)))
            else ([WriteLost remaining], p)))"

definition onWriteReady :: "pty \<Rightarrow> pty_signal list \<times> pty" where
  "onWriteReady p =
     (if m_masterFd p < 0 \<or> m_pendingWrite p = [] then ([], setWriteNotifier False p)
      else
        (let (written, stop, p) = writeSome (m_pendingWrite p) p;
             fatal = (written < length (m_pendingWrite p) \<and> stop \<noteq> Again);
             p = (if written > 0 then p\<lparr>m_pendingWrite := drop written (m_pendingWrite p)\<rparr> else p);
             lost = (if fatal then int (length (m_pendingWrite p)) else 0);
             p = (if fatal then p\<lparr>m_pendingWrite := []\<rparr> else p);
             drained = (m_pendingWrite p = []);
             p = (if drained then setWriteNotifier False p else p)
         in (if lost > 0 then [WriteLost lost] else if drained then [WriteDrained] else [], p)))"

section \<open>Reading\<close>

definition setReadEnabled :: "bool \<Rightarrow> pty \<Rightarrow> pty" where
  "setReadEnabled on p =
     (if m_readNotifier p \<noteq> None \<and> \<not> m_readEof p then p\<lparr>m_readNotifier := Some on\<rparr> else p)"

text \<open>The verdict and the new \<open>lastSeen\<close>.\<close>

definition foregroundReturnedToShell :: "int \<Rightarrow> int \<Rightarrow> int \<Rightarrow> bool \<times> int" where
  "foregroundReturnedToShell fg shellPgid lastSeen =
     (if fg \<le> 0 \<or> shellPgid \<le> 0 then (False, fg)
      else if lastSeen \<le> 0 then (False, fg)
      else (lastSeen \<noteq> shellPgid \<and> fg = shellPgid, fg))"

text \<open>
  \<open>keysShareable\<close>: what \<open>tcgetattr\<close> answered (its \<open>ECHO\<close> and \<open>ICANON\<close> flags), or nothing.
\<close>

definition keysShareable :: "int \<Rightarrow> (bool \<times> bool) option \<Rightarrow> bool" where
  "keysShareable fd termios =
     (case termios of None \<Rightarrow> False
      | Some (ech, icanon) \<Rightarrow> if fd < 0 then False else \<not> (icanon \<and> \<not> ech))"

section \<open>The write loop\<close>

lemma writeLoop_split:
  "writeLoop ks bs = (done, stop, rest) \<Longrightarrow> \<exists>left. bs = done @ left \<and> (left = [] \<longleftrightarrow> stop = AllOut)"
proof (induction ks bs arbitrary: "done" stop rest rule: writeLoop.induct)
  case (3 n ks b bs)
  show ?case
  proof (cases "n > 0")
    case True
    obtain d s r where w: "writeLoop ks (drop n (b # bs)) = (d, s, r)" by (metis prod_cases3)
    then obtain l where "drop n (b # bs) = d @ l" "l = [] \<longleftrightarrow> s = AllOut" using 3(1) [OF True w] by auto
    moreover have "done = take n (b # bs) @ d" "stop = s" using 3(2) True w by auto
    ultimately show ?thesis by (metis append.assoc append_take_drop_id)
  qed (use 3(2) in auto)
qed auto

lemma writeSome_split:
  assumes "writeSome bs p = (n, stop, q)"
  shows "n \<le> length bs" "toKernel q = toKernel p @ take n bs" "n = length bs \<longleftrightarrow> stop = AllOut"
    "q = p\<lparr>kernelAnswers := kernelAnswers q, toKernel := toKernel q\<rparr>"
proof -
  obtain d r where w: "writeLoop (kernelAnswers p) bs = (d, stop, r)" and q: "n = length d"
    "q = p\<lparr>kernelAnswers := r, toKernel := toKernel p @ d\<rparr>"
    using assms by (auto simp: writeSome_def split: prod.splits)
  obtain l where "bs = d @ l" "l = [] \<longleftrightarrow> stop = AllOut" using writeLoop_split [OF w] by blast
  then show "n \<le> length bs" "toKernel q = toKernel p @ take n bs" "n = length bs \<longleftrightarrow> stop = AllOut"
    "q = p\<lparr>kernelAnswers := kernelAnswers q, toKernel := toKernel q\<rparr>"
    using q by auto
qed

text \<open>What the child will have read once the queue is out: what the kernel took, then the queue.\<close>

definition sentBytes :: "pty \<Rightarrow> u8 list" where
  "sentBytes p = toKernel p @ m_pendingWrite p"

text \<open>
  The queue is within its cap, and its notifier is armed exactly while it holds something: no
  byte waits for a wake-up that cannot come, and no wake-up comes with nothing to do.
\<close>

definition queue_ok :: "pty \<Rightarrow> bool" where
  "queue_ok p \<longleftrightarrow> int (length (m_pendingWrite p)) \<le> MAX_PENDING_WRITE_BYTES \<and>
     0 \<le> m_masterFd p \<and> m_writeNotifier p = Some (m_pendingWrite p \<noteq> [])"

lemma queue_ok_open: "0 \<le> fd \<Longrightarrow> queue_ok (pty_open fd pid)"
  by (simp add: queue_ok_def pty_open_def MAX_PENDING_WRITE_BYTES_def)

lemma ptyWrite_queue: "queue_ok p \<Longrightarrow> queue_ok (snd (ptyWrite bs p))"
proof -
  assume q: "queue_ok p"
  obtain n stop p' where w: "writeSome bs p = (n, stop, p')" by (metis prod_cases3)
  note s = writeSome_split [OF w]
  have "m_pendingWrite p' = m_pendingWrite p" "m_masterFd p' = m_masterFd p"
    "m_writeNotifier p' = m_writeNotifier p"
    using s(4) by (metis pty.select_convs pty.update_convs pty.surjective)+
  then show ?thesis using q w s(1)
    by (auto simp: ptyWrite_def queue_ok_def setWriteNotifier_def Let_def)
qed

lemma ptyWrite_sent:
  assumes "queue_ok p" "ptyWrite bs p = (sigs, q)"
  shows "sigs = [] \<and> sentBytes q = sentBytes p @ bs \<or>
    (\<exists>n. sigs = [WriteLost (int n)] \<and> 0 < n \<and> n \<le> length bs \<and>
      sentBytes q = sentBytes p @ take (length bs - n) bs)"
proof (cases "m_pendingWrite p = []")
  case False
  then show ?thesis using assms by (auto simp: ptyWrite_def queue_ok_def sentBytes_def split: if_splits)
next
  case True
  obtain n stop p' where w: "writeSome bs p = (n, stop, p')" by (metis prod_cases3)
  note s = writeSome_split [OF w]
  have p': "m_pendingWrite p' = []" using s(4) True by (metis pty.select_convs(7) pty.update_convs(8,9) pty.surjective)
  show ?thesis
  proof (cases "n = length bs")
    case True
    then show ?thesis
      using assms \<open>m_pendingWrite p = []\<close> w s(2) p'
      by (auto simp: ptyWrite_def queue_ok_def sentBytes_def Let_def)
  next
    case False
    then have "0 < length bs - n" "n \<le> length bs" "length bs - (length bs - n) = n"
      "int (length bs) - int n = int (length bs - n)" using s(1) by simp_all
    then show ?thesis
      using assms \<open>m_pendingWrite p = []\<close> w s(2) p'
      by (auto simp: ptyWrite_def queue_ok_def sentBytes_def setWriteNotifier_def Let_def split: if_splits
          intro!: exI [of _ "length bs - n"])
  qed
qed

lemma onWriteReady_facts:
  assumes "queue_ok p" "onWriteReady p = (sigs, q)"
  shows "queue_ok q \<and> toKernel q = toKernel p @ take (length (toKernel q) - length (toKernel p)) (m_pendingWrite p) \<and>
    (sigs = [] \<and> sentBytes q = sentBytes p \<and> (m_pendingWrite p \<noteq> [] \<longrightarrow> m_pendingWrite q \<noteq> []) \<or>
     sigs = [WriteDrained] \<and> sentBytes q = sentBytes p \<and> m_pendingWrite q = [] \<or>
     (\<exists>n. sigs = [WriteLost (int n)] \<and> 0 < n \<and> m_pendingWrite q = [] \<and>
       sentBytes p = sentBytes q @ drop (length (m_pendingWrite p) - n) (m_pendingWrite p)))"
proof (cases "m_pendingWrite p = []")
  case True
  then show ?thesis using assms by (auto simp: onWriteReady_def queue_ok_def setWriteNotifier_def sentBytes_def)
next
  case False
  obtain n stop p' where w: "writeSome (m_pendingWrite p) p = (n, stop, p')" by (metis prod_cases3)
  note s = writeSome_split [OF w]
  have p': "m_pendingWrite p' = m_pendingWrite p" "m_masterFd p' = m_masterFd p"
    "m_writeNotifier p' = m_writeNotifier p"
    using s(4) by (metis pty.select_convs pty.update_convs pty.surjective)+
  show ?thesis
  proof (cases "n = length (m_pendingWrite p)")
    case True
    then show ?thesis using assms False w s(2) p'
      by (auto simp: onWriteReady_def queue_ok_def sentBytes_def setWriteNotifier_def Let_def)
  next
    case short: False
    then have n: "0 < length (m_pendingWrite p) - n" "n < length (m_pendingWrite p)"
      "length (m_pendingWrite p) - (length (m_pendingWrite p) - n) = n"
      "int (length (m_pendingWrite p)) - int n = int (length (m_pendingWrite p) - n)" using s(1) by simp_all
    show ?thesis
    proof (cases "stop = Again")
      case True
      then show ?thesis using assms False w s(2) p' n(2)
        by (auto simp: onWriteReady_def queue_ok_def sentBytes_def setWriteNotifier_def Let_def split: if_splits)
    next
      case False
      then show ?thesis using assms \<open>m_pendingWrite p \<noteq> []\<close> w s(2) p' n
        by (auto simp: onWriteReady_def queue_ok_def sentBytes_def setWriteNotifier_def Let_def
            split: if_splits intro!: exI [of _ "length (m_pendingWrite p) - n"])
    qed
  qed
qed

end
