(* ===== verification/VtStream.thy ===== *)
theory VtStream
  imports VtParser InlineImage Pty
begin

text \<open>
  The parse worker: \<open>VtBatchBuilder\<close> and \<open>VtStream\<close> (\<open>src/src/vtstream.h\<close>,
  \<open>src/src/vtstream.cpp\<close>), \<open>Pty::onReadReady\<close>, and the loop of
  \<open>TerminalWidget::onVtBatch\<close> that applies a batch. A printable run is a pointer: the parser
  points into the buffer it was fed, the builder turns that into an offset, and the shipped
  batch points into its own bytes. Addresses are \<open>u64\<close>, their arithmetic wraps.
\<close>

section \<open>The parser's view of a buffer\<close>

text \<open>An action as the callback sees it: a run is an address and what is stored there.\<close>

datatype parsed = Parsed vt_action | ParsedRun u64 "u8 list"

fun parsedAction :: "parsed \<Rightarrow> vt_action" where
  "parsedAction (Parsed a) = a"
| "parsedAction (ParsedRun p bs) = PrintRun bs"

text \<open>\<open>VtParser::feed\<close> on a buffer at address \<open>base\<close>: each run action points at its first byte.\<close>

function feedAt :: "simd \<Rightarrow> u64 \<Rightarrow> u8 list \<Rightarrow> vt_parser \<Rightarrow> parsed list \<times> vt_parser" where
  "feedAt arch base data p =
     (if data = [] then ([], p)
      else
        (let run = (if m_state p = Ground \<and> m_utf8Remaining p = 0
                    then scanSafeAsciiRun arch data else 0);
             o1 = (if run > 0 then [ParsedRun base (take run data)] else [])
         in (case drop run data of
               [] \<Rightarrow> (o1, p)
             | b # bs \<Rightarrow>
                 (let (o2, p2) = feedByte b p;
                      (o3, p3) = feedAt arch (base + of_nat run + 1) bs p2
                  in (o1 @ map Parsed o2 @ o3, p3)))))"
  by pat_completeness auto
termination
proof (relation "measure (\<lambda>(arch, base, data, p). length data)")
  fix arch :: simd and base :: u64 and data :: "u8 list" and p run o1 b bs y o2 p2
  assume "drop run data = b # bs"
  then have "Suc (length bs) = length data - run" by (metis length_Cons length_drop)
  then show "((arch, base + of_nat run + 1, bs, p2), arch, base, data, p)
      \<in> measure (\<lambda>(arch, base, data, p). length data)"
    by auto
qed simp

declare feedAt.simps [simp del]

section \<open>The batch builder\<close>

text \<open>
  A queued action; of a run only its length, since \<open>printRun\<close> is set when the batch is taken.
\<close>

datatype queued = Queued vt_action | QueuedRun nat

record batch_builder =
  m_actions :: "queued list"
  m_raw :: "u8 list"
  m_runs :: "(nat \<times> nat) list"
  m_feedBase :: "u64 option"
  m_feedLen :: nat
  m_feedOffset :: nat

definition builder0 :: batch_builder where
  "builder0 = \<lparr>m_actions = [], m_raw = [], m_runs = [], m_feedBase = None, m_feedLen = 0, m_feedOffset = 0\<rparr>"

definition beginFeed :: "u64 \<Rightarrow> u8 list \<Rightarrow> batch_builder \<Rightarrow> batch_builder" where
  "beginFeed base data b = b\<lparr>m_feedOffset := length (m_raw b), m_raw := m_raw b @ data,
     m_feedBase := Some base, m_feedLen := length data\<rparr>"

definition endFeed :: "batch_builder \<Rightarrow> batch_builder" where
  "endFeed b = b\<lparr>m_feedBase := None, m_feedLen := 0\<rparr>"

definition inFeedBuffer :: "u64 \<Rightarrow> u8 list \<Rightarrow> batch_builder \<Rightarrow> u64 option" where
  "inFeedBuffer run0 bs b =
     (case m_feedBase b of None \<Rightarrow> None
      | Some base \<Rightarrow>
          if length bs > 0 \<and> run0 \<ge> base \<and> run0 - base + of_nat (length bs) \<le> of_nat (m_feedLen b)
          then Some (run0 - base) else None)"

definition addAction :: "parsed \<Rightarrow> batch_builder \<Rightarrow> batch_builder" where
  "addAction a b =
     (case a of
        ParsedRun run0 bs \<Rightarrow>
          (case inFeedBuffer run0 bs b of
             Some at \<Rightarrow> b\<lparr>m_runs := m_runs b @ [(length (m_actions b), m_feedOffset b + unat at)],
                        m_actions := m_actions b @ [QueuedRun (length bs)]\<rparr>
           | None \<Rightarrow> b\<lparr>m_actions := m_actions b @ map (\<lambda>c. Queued (Print (ucast c))) bs\<rparr>)
      | Parsed a \<Rightarrow> b\<lparr>m_actions := m_actions b @ [Queued a]\<rparr>)"

definition builderEmpty :: "batch_builder \<Rightarrow> bool" where
  "builderEmpty b \<longleftrightarrow> m_actions b = [] \<and> m_raw b = []"

section \<open>Batches\<close>

text \<open>
  A shipped action: a run is an offset into the batch's own bytes and a length, or no pointer
  when none was set.
\<close>

datatype shipped = Shipped vt_action | ShippedRun "nat option" nat

record vt_batch =
  b_actions :: "shipped list"
  rawBytes :: "u8 list"
  clearSelectionHint :: bool
  wallClockMs :: int
  images :: "(nat \<times> predecoded_image) list"

fun unresolved :: "queued \<Rightarrow> shipped" where
  "unresolved (Queued a) = Shipped a"
| "unresolved (QueuedRun n) = ShippedRun None n"

fun pointAt :: "nat \<Rightarrow> shipped \<Rightarrow> shipped" where
  "pointAt off (ShippedRun p n) = ShippedRun (Some off) n"
| "pointAt off (Shipped a) = Shipped a"

definition resolveRuns :: "(nat \<times> nat) list \<Rightarrow> shipped list \<Rightarrow> shipped list" where
  "resolveRuns runs acts = fold (\<lambda>(i, off) as. as[i := pointAt off (as ! i)]) runs acts"

definition takeInto :: "batch_builder \<Rightarrow> vt_batch \<Rightarrow> vt_batch \<times> batch_builder" where
  "takeInto b batch =
     (batch\<lparr>b_actions := resolveRuns (m_runs b) (map unresolved (m_actions b)), rawBytes := m_raw b\<rparr>,
      builder0)"

text \<open>What \<open>processAction\<close> reads off a shipped action. A null run is a \<open>Print\<close> of code point 0.\<close>

fun readAction :: "u8 list \<Rightarrow> shipped \<Rightarrow> vt_action" where
  "readAction raw (Shipped a) = a"
| "readAction raw (ShippedRun (Some off) n) = PrintRun (take n (drop off raw))"
| "readAction raw (ShippedRun None n) = Print 0"

section \<open>The stream\<close>

definition kPasteSliceBytes :: nat where "kPasteSliceBytes = 64 * 1024"
definition kMaxInFlight :: int where "kMaxInFlight = 8"
definition kFlushActions :: int where "kFlushActions = 4096"
definition kFlushBytes :: int where "kFlushBytes = 16 * 1024"

text \<open>
  \<open>batchesOut\<close> logs the \<open>batchReady\<close> signals, \<open>finishedOut\<close> the \<open>finished\<close> ones, \<open>dataIn\<close> the
  buffers of \<open>dataReceived\<close>, and \<open>lostOut\<close> the byte counts of \<open>writeLost\<close>.
\<close>

record vt_stream =
  m_pty :: pty
  m_parser :: vt_parser
  m_pending :: batch_builder
  m_pendingClearSelection :: bool
  m_predecoder :: predecoder
  m_pendingImages :: "(nat \<times> predecoded_image) list"
  m_flushScheduled :: bool
  m_inFlightBatches :: int
  m_readPaused :: bool
  m_pasteBacklog :: "u8 list"
  m_pasteOffset :: nat
  m_keysShareable :: bool
  batchesOut :: "vt_batch list"
  finishedOut :: "int list"
  dataIn :: "u8 list list"
  lostOut :: "int list"

text \<open>The stream \<open>start\<close> leaves behind when the shell was spawned.\<close>

definition stream0 :: "int \<Rightarrow> int \<Rightarrow> vt_stream" where
  "stream0 fd pid = \<lparr>m_pty = pty_open fd pid, m_parser = vt_init, m_pending = builder0,
     m_pendingClearSelection = False, m_predecoder = predecoder0, m_pendingImages = [],
     m_flushScheduled = False, m_inFlightBatches = 0, m_readPaused = False, m_pasteBacklog = [],
     m_pasteOffset = 0, m_keysShareable = False, batchesOut = [], finishedOut = [],
     dataIn = [], lostOut = []\<rparr>"

definition hasPending :: "vt_stream \<Rightarrow> bool" where
  "hasPending s \<longleftrightarrow> \<not> builderEmpty (m_pending s)"

subsection \<open>Parsed actions and batches\<close>

fun clearsScreen :: "vt_action \<Rightarrow> bool" where
  "clearsScreen (CsiDispatch fc ps cs im tr) \<longleftrightarrow>
     fc = CHR ''J'' \<and> im = [] \<and> length ps = 1 \<and> (hd ps = 2 \<or> hd ps = 3)"
| "clearsScreen (Execute c) \<longleftrightarrow> c = CHR 0x0C"
| "clearsScreen _ \<longleftrightarrow> False"

definition onParsedAction :: "env \<Rightarrow> parsed \<Rightarrow> vt_stream \<Rightarrow> vt_stream" where
  "onParsedAction e a s =
     (let s = (if clearsScreen (parsedAction a) then s\<lparr>m_pendingClearSelection := True\<rparr> else s);
          s = s\<lparr>m_pending := addAction a (m_pending s)\<rparr>;
          (image, pre) = onAction e (parsedAction a) (m_predecoder s);
          s = s\<lparr>m_predecoder := pre\<rparr>
      in case image of None \<Rightarrow> s
         | Some im \<Rightarrow> s\<lparr>m_pendingImages := m_pendingImages s @ [(length (m_actions (m_pending s)) - 1, im)]\<rparr>)"

definition takeBatch :: "int \<Rightarrow> vt_stream \<Rightarrow> vt_batch \<times> vt_stream" where
  "takeBatch elapsed s =
     (let (b, pending) = takeInto (m_pending s)
            \<lparr>b_actions = [], rawBytes = [], clearSelectionHint = False, wallClockMs = 0, images = []\<rparr>;
          b = b\<lparr>clearSelectionHint := m_pendingClearSelection s, wallClockMs := elapsed,
                images := m_pendingImages s\<rparr>
      in (b, s\<lparr>m_pending := pending, m_pendingImages := [], m_pendingClearSelection := False\<rparr>))"

definition emitBatch :: "vt_batch \<Rightarrow> vt_stream \<Rightarrow> vt_stream" where
  "emitBatch b s = s\<lparr>batchesOut := batchesOut s @ [b]\<rparr>"

definition flushBatch :: "int \<Rightarrow> vt_stream \<Rightarrow> vt_stream" where
  "flushBatch elapsed s =
     (if m_inFlightBatches s \<ge> kMaxInFlight then
        (if \<not> m_readPaused s then s\<lparr>m_readPaused := True, m_pty := setReadEnabled False (m_pty s)\<rparr> else s)
      else
        (let (b, s) = takeBatch elapsed s
         in emitBatch b (s\<lparr>m_inFlightBatches := m_inFlightBatches s + 1\<rparr>)))"

definition scheduleFlush :: "vt_stream \<Rightarrow> vt_stream" where
  "scheduleFlush s = s\<lparr>m_flushScheduled := True\<rparr>"

definition onFlushTimer :: "int \<Rightarrow> vt_stream \<Rightarrow> vt_stream" where
  "onFlushTimer elapsed s =
     (let s = s\<lparr>m_flushScheduled := False\<rparr> in if hasPending s then flushBatch elapsed s else s)"

definition drainAck :: "int \<Rightarrow> vt_stream \<Rightarrow> vt_stream" where
  "drainAck elapsed s =
     (let s = (if m_inFlightBatches s > 0 then s\<lparr>m_inFlightBatches := m_inFlightBatches s - 1\<rparr> else s)
      in if m_readPaused s \<and> m_inFlightBatches s < kMaxInFlight then
           (let s = s\<lparr>m_readPaused := False, m_pty := setReadEnabled True (m_pty s)\<rparr>
            in if hasPending s then flushBatch elapsed s else s)
         else s)"

subsection \<open>Reading\<close>

text \<open>
  What the worker's surroundings answer at one event: the clock since \<open>start\<close>, the decoders,
  the architecture, where the next buffer lies.
\<close>

record worker_env =
  w_env :: env
  w_elapsed :: int
  w_arch :: simd
  w_base :: u64

definition onPtyData :: "worker_env \<Rightarrow> u8 list \<Rightarrow> vt_stream \<Rightarrow> vt_stream" where
  "onPtyData w data s =
     (let s = s\<lparr>dataIn := dataIn s @ [data], m_pending := beginFeed (w_base w) data (m_pending s)\<rparr>;
          (acts, parser) = feedAt (w_arch w) (w_base w) data (m_parser s);
          s = fold (onParsedAction (w_env w)) acts s;
          s = s\<lparr>m_parser := parser, m_pending := endFeed (m_pending s)\<rparr>
      in if int (length (m_actions (m_pending s))) \<ge> kFlushActions \<or>
            int (length (m_raw (m_pending s))) \<ge> kFlushBytes
         then flushBatch (w_elapsed w) s else scheduleFlush s)"

definition onPtyFinished :: "int \<Rightarrow> int \<Rightarrow> vt_stream \<Rightarrow> vt_stream" where
  "onPtyFinished elapsed exitStatus s =
     (let s = (if hasPending s then (let (b, s) = takeBatch elapsed s in emitBatch b s) else s)
      in s\<lparr>finishedOut := finishedOut s @ [exitStatus]\<rparr>)"

text \<open>
  One answer of \<open>::read\<close>: bytes, nothing for now (\<open>EAGAIN\<close>, \<open>EINTR\<close>), or the end of file or an
  error, with what \<open>waitpid(WNOHANG)\<close> then says: not reaped, or the exit status of the child.
\<close>

datatype read_answer = Got "u8 list" | NothingNow | Ended "int option option"

definition handleEof :: "int \<Rightarrow> int option option \<Rightarrow> vt_stream \<Rightarrow> vt_stream" where
  "handleEof elapsed reaped s =
     (let p = (m_pty s)\<lparr>m_readEof := True, m_readNotifier := map_option (\<lambda>_. False) (m_readNotifier (m_pty s))\<rparr>;
          exitStatus = (case reaped of Some (Some code) \<Rightarrow> code | _ \<Rightarrow> -1);
          p = (if reaped = None then p else p\<lparr>m_childPid := -1\<rparr>)
      in onPtyFinished elapsed exitStatus (s\<lparr>m_pty := p\<rparr>))"

text \<open>The read loop, over the answers still to come; when they run out there is nothing for now.\<close>

fun readLoop :: "worker_env \<Rightarrow> read_answer list \<Rightarrow> vt_stream \<Rightarrow> vt_stream" where
  "readLoop w [] s = s"
| "readLoop w (Got bytes # answers) s =
     (let s = onPtyData w bytes s
      in if m_readNotifier (m_pty s) \<noteq> Some True then s else readLoop w answers s)"
| "readLoop w (NothingNow # answers) s = s"
| "readLoop w (Ended reaped # answers) s = handleEof (w_elapsed w) reaped s"

definition sgrReset :: "u8 list" where
  "sgrReset = [0x1B, 0x5B, 0x30, 0x6D]"

text \<open>
  \<open>Pty::onReadReady\<close>: \<open>fg\<close> is what \<open>tcgetpgrp\<close> says and \<open>termios\<close> what \<open>tcgetattr\<close> does.
\<close>

definition onReadReady ::
  "worker_env \<Rightarrow> int \<Rightarrow> (bool \<times> bool) option \<Rightarrow> read_answer list \<Rightarrow> vt_stream \<Rightarrow> vt_stream" where
  "onReadReady w fg termios answers s =
     (if m_masterFd (m_pty s) < 0 \<or> m_readEof (m_pty s) then s
      else
        (let (returned, seen) = foregroundReturnedToShell fg (m_childPid (m_pty s)) (m_lastForegroundPgid (m_pty s));
             s = s\<lparr>m_pty := (m_pty s)\<lparr>m_lastForegroundPgid := seen\<rparr>\<rparr>;
             s = (if returned then onPtyData w sgrReset s else s);
             s = s\<lparr>m_keysShareable := keysShareable (m_masterFd (m_pty s)) termios\<rparr>
         in readLoop w answers s))"

subsection \<open>Writing\<close>

text \<open>
  The slots on the signals of \<open>Pty\<close>: \<open>writeLost\<close> drops the rest of the paste. The one on
  \<open>writeDrained\<close> is \<open>feedPaste\<close>.
\<close>

definition onWriteLost :: "int \<Rightarrow> vt_stream \<Rightarrow> vt_stream" where
  "onWriteLost n s = s\<lparr>lostOut := lostOut s @ [n], m_pasteBacklog := [], m_pasteOffset := 0\<rparr>"

fun lostSlot :: "pty_signal \<Rightarrow> vt_stream \<Rightarrow> vt_stream" where
  "lostSlot (WriteLost n) s = onWriteLost n s"
| "lostSlot WriteDrained s = s"

definition streamPtyWrite :: "u8 list \<Rightarrow> vt_stream \<Rightarrow> vt_stream" where
  "streamPtyWrite bytes s =
     (let (sigs, p) = ptyWrite bytes (m_pty s) in fold lostSlot sigs (s\<lparr>m_pty := p\<rparr>))"

lemma lostSlots_empty: "m_pasteBacklog s = [] \<Longrightarrow> m_pasteBacklog (fold lostSlot sigs s) = []"
proof (induction sigs arbitrary: s)
  case (Cons sig sigs)
  then show ?case by (cases sig) (simp_all add: onWriteLost_def)
qed simp

lemma lostSlots_backlog:
  "m_pasteBacklog (fold lostSlot sigs s) = m_pasteBacklog s \<and> m_pasteOffset (fold lostSlot sigs s) = m_pasteOffset s \<or>
   m_pasteBacklog (fold lostSlot sigs s) = []"
proof (induction sigs arbitrary: s)
  case (Cons sig sigs)
  then show ?case by (cases sig) (simp_all add: onWriteLost_def lostSlots_empty)
qed simp

lemma streamPtyWrite_backlog:
  "m_pasteBacklog (streamPtyWrite bs s) = m_pasteBacklog s \<and> m_pasteOffset (streamPtyWrite bs s) = m_pasteOffset s \<or>
   m_pasteBacklog (streamPtyWrite bs s) = []"
proof -
  obtain sigs p where w: "ptyWrite bs (m_pty s) = (sigs, p)" by (cases "ptyWrite bs (m_pty s)")
  show ?thesis using lostSlots_backlog [of sigs "s\<lparr>m_pty := p\<rparr>"] by (simp add: streamPtyWrite_def w)
qed

definition pasteLeft :: "vt_stream \<Rightarrow> u8 list" where
  "pasteLeft s = drop (m_pasteOffset s) (m_pasteBacklog s)"

function feedPasteLoop :: "vt_stream \<Rightarrow> vt_stream" where
  "feedPasteLoop s =
     (if m_pasteOffset s < length (m_pasteBacklog s) \<and> writeQueueEmpty (m_pty s) then
        (let slice = min kPasteSliceBytes (length (m_pasteBacklog s) - m_pasteOffset s);
             s = streamPtyWrite (take slice (drop (m_pasteOffset s) (m_pasteBacklog s))) s
         in feedPasteLoop (s\<lparr>m_pasteOffset := m_pasteOffset s + slice\<rparr>))
      else s)"
  by pat_completeness auto
termination
proof (relation "measure (\<lambda>s. length (m_pasteBacklog s) - m_pasteOffset s)")
  fix s slice t
  assume s: "m_pasteOffset s < length (m_pasteBacklog s) \<and> writeQueueEmpty (m_pty s)"
    "slice = min kPasteSliceBytes (length (m_pasteBacklog s) - m_pasteOffset s)"
    "t = streamPtyWrite (take slice (drop (m_pasteOffset s) (m_pasteBacklog s))) s"
  then have "0 < slice" by (simp add: kPasteSliceBytes_def)
  then show "(t\<lparr>m_pasteOffset := m_pasteOffset t + slice\<rparr>, s)
      \<in> measure (\<lambda>s. length (m_pasteBacklog s) - m_pasteOffset s)"
    using s(1) streamPtyWrite_backlog [of "take slice (drop (m_pasteOffset s) (m_pasteBacklog s))" s]
    unfolding s(3) by auto
qed simp

declare feedPasteLoop.simps [simp del]

definition feedPaste :: "vt_stream \<Rightarrow> vt_stream" where
  "feedPaste s =
     (let s = feedPasteLoop s
      in if m_pasteOffset s \<ge> length (m_pasteBacklog s) then s\<lparr>m_pasteBacklog := [], m_pasteOffset := 0\<rparr> else s)"

definition streamWrite :: "u8 list \<Rightarrow> vt_stream \<Rightarrow> vt_stream" where
  "streamWrite bytes s =
     (if m_pasteOffset s < length (m_pasteBacklog s)
      then s\<lparr>m_pasteBacklog := m_pasteBacklog s @ bytes\<rparr>
      else streamPtyWrite bytes s)"

definition writePaste :: "u8 list \<Rightarrow> vt_stream \<Rightarrow> vt_stream" where
  "writePaste bytes s =
     (if bytes = [] then s else feedPaste (s\<lparr>m_pasteBacklog := m_pasteBacklog s @ bytes\<rparr>))"

text \<open>The write notifier fires; the slots of the signals run at its end.\<close>

definition ptyWritable :: "vt_stream \<Rightarrow> vt_stream" where
  "ptyWritable s =
     (let (sigs, p) = onWriteReady (m_pty s)
      in fold (\<lambda>sig. if sig = WriteDrained then feedPaste else lostSlot sig) sigs (s\<lparr>m_pty := p\<rparr>))"

section \<open>The worker's event loop\<close>

datatype worker_event =
    Readable worker_env int "(bool \<times> bool) option" "read_answer list"
  | FlushTimer int
  | Ack int
  | Write "u8 list"
  | Paste "u8 list"
  | Writable
  | KernelWill "write_answer list"

fun workerStep :: "worker_event \<Rightarrow> vt_stream \<Rightarrow> vt_stream" where
  "workerStep (Readable w fg termios answers) s = onReadReady w fg termios answers s"
| "workerStep (FlushTimer elapsed) s = onFlushTimer elapsed s"
| "workerStep (Ack elapsed) s = drainAck elapsed s"
| "workerStep (Write bytes) s = streamWrite bytes s"
| "workerStep (Paste bytes) s = writePaste bytes s"
| "workerStep Writable s = ptyWritable s"
| "workerStep (KernelWill answers) s = s\<lparr>m_pty := (m_pty s)\<lparr>kernelAnswers := answers\<rparr>\<rparr>"

text \<open>
  When an event can happen: a notifier fires only while enabled, the timer only once scheduled.
\<close>

fun eventEnabled :: "worker_event \<Rightarrow> vt_stream \<Rightarrow> bool" where
  "eventEnabled (Readable w fg termios answers) s \<longleftrightarrow> m_readNotifier (m_pty s) = Some True"
| "eventEnabled (FlushTimer elapsed) s \<longleftrightarrow> m_flushScheduled s"
| "eventEnabled Writable s \<longleftrightarrow> m_writeNotifier (m_pty s) = Some True"
| "eventEnabled _ s \<longleftrightarrow> True"

inductive worker :: "int \<Rightarrow> int \<Rightarrow> worker_event list \<Rightarrow> vt_stream \<Rightarrow> bool" for fd pid where
  Spawned: "worker fd pid [] (stream0 fd pid)"
| Event: "worker fd pid evs s \<Longrightarrow> eventEnabled ev s \<Longrightarrow> worker fd pid (evs @ [ev]) (workerStep ev s)"

section \<open>The consumer\<close>

text \<open>
  The loop of \<open>TerminalWidget::onVtBatch\<close> at index \<open>i\<close>: the image iterator advances when its
  index is reached. The result pairs every action with the image handed along.
\<close>

fun batchLoop :: "u8 list \<Rightarrow> nat \<Rightarrow> shipped list \<Rightarrow> (nat \<times> predecoded_image) list \<Rightarrow>
    (predecoded_image option \<times> vt_action) list" where
  "batchLoop raw i [] ims = []"
| "batchLoop raw i (a # as) [] = (None, readAction raw a) # batchLoop raw (i + 1) as []"
| "batchLoop raw i (a # as) (im # ims) =
     (if fst im = i then (Some (snd im), readAction raw a) # batchLoop raw (i + 1) as ims
      else (None, readAction raw a) # batchLoop raw (i + 1) as (im # ims))"

definition batchActions :: "vt_batch \<Rightarrow> (predecoded_image option \<times> vt_action) list" where
  "batchActions b = batchLoop (rawBytes b) 0 (b_actions b) (images b)"

end
