(* ===== verification/VtStreamFrame.thy ===== *)
theory VtStreamFrame
  imports VtStream
begin

text \<open>
  Writing to the shell and reading from it meet only in the pseudo-terminal: whatever is read
  off a stream through a view that ignores the paste, the losses and the write side of the
  pseudo-terminal is unchanged by every write. The contract is a locale; what is delivered and
  the flow control are its instances.
\<close>

definition readSide :: "pty \<Rightarrow> int \<times> int \<times> int \<times> bool option \<times> bool" where
  "readSide p = (m_masterFd p, m_childPid p, m_lastForegroundPgid p, m_readNotifier p, m_readEof p)"

lemma writeSome_readSide: "readSide (snd (snd (writeSome bs p))) = readSide p"
  by (simp add: writeSome_def readSide_def split_beta)

lemma write_readSide:
  "readSide (setWriteNotifier b p) = readSide p" "readSide (p\<lparr>m_pendingWrite := q\<rparr>) = readSide p"
  by (simp_all add: setWriteNotifier_def readSide_def)

lemma ptyWrite_readSide: "readSide (snd (ptyWrite bs p)) = readSide p"
  by (simp add: ptyWrite_def Let_def split_beta write_readSide writeSome_readSide)

lemma onWriteReady_readSide: "readSide (snd (onWriteReady p)) = readSide p"
  by (simp add: onWriteReady_def Let_def split_beta write_readSide writeSome_readSide)

locale write_frame =
  fixes view :: "vt_stream \<Rightarrow> 'v"
  assumes view_paste: "view (s\<lparr>m_pasteOffset := k\<rparr>) = view s" "view (s\<lparr>m_pasteBacklog := bs\<rparr>) = view s"
      "view (s\<lparr>lostOut := ls\<rparr>) = view s"
    and view_pty: "readSide p = readSide (m_pty s) \<Longrightarrow> view (s\<lparr>m_pty := p\<rparr>) = view s"
begin

lemma view_lost: "view (fold lostSlot sigs s) = view s"
proof (induction sigs arbitrary: s)
  case (Cons sig sigs)
  have "view (lostSlot sig s) = view s" by (cases sig) (simp_all add: onWriteLost_def view_paste)
  then show ?case by (simp add: Cons)
qed simp

lemma view_ptyWrite: "view (streamPtyWrite bs s) = view s"
  by (simp add: streamPtyWrite_def split_beta view_lost view_pty ptyWrite_readSide)

lemma view_feedPaste: "view (feedPaste s) = view s"
proof -
  have "view (feedPasteLoop s) = view s"
    by (induction s rule: feedPasteLoop.induct)
      (subst feedPasteLoop.simps, simp add: Let_def view_paste view_ptyWrite)
  then show ?thesis by (simp add: feedPaste_def Let_def view_paste)
qed

lemma view_writable: "view (ptyWritable s) = view s"
proof -
  have "view (fold (\<lambda>sig. if sig = WriteDrained then feedPaste else lostSlot sig) sigs s) = view s" for sigs s
    using view_lost [of "[sig]" for sig] by (induction sigs arbitrary: s) (simp_all add: view_feedPaste)
  then show ?thesis by (simp add: ptyWritable_def split_beta view_pty onWriteReady_readSide)
qed

lemma view_kernel: "view (s\<lparr>m_pty := (m_pty s)\<lparr>kernelAnswers := ks\<rparr>\<rparr>) = view s"
  by (rule view_pty) (simp add: readSide_def)

text \<open>Every event that is not a read, a flush or an acknowledgement.\<close>

lemma view_writing:
  "view (workerStep (Write bs) s) = view s" "view (workerStep (Paste bs) s) = view s"
  "view (workerStep Writable s) = view s" "view (workerStep (KernelWill ks) s) = view s"
  by (simp_all add: streamWrite_def writePaste_def view_paste view_ptyWrite view_feedPaste view_writable view_kernel)

end

end
