(* ===== verification/GridScrollback.thy ===== *)
theory GridScrollback
  imports GridState
begin

text \<open>
  Scrollback and the row pool of \<open>src/src/terminalgrid.cpp\<close>: recycled cell buffers, the trim a
  row gets on its way into scrollback, eviction to the two caps, and the prompt regions that
  move with evicted lines.
\<close>

section \<open>The row pool\<close>

definition kFreePoolCap :: nat where "kFreePoolCap = 32"

text \<open>The \<open>while\<close> loop of \<open>takeBlankedCellsRow\<close>, on the pool read from its back.\<close>

fun takeFromPool :: "int \<Rightarrow> cell \<Rightarrow> cell list list \<Rightarrow> cell list option \<times> cell list list" where
  "takeFromPool w blank [] = (None, [])"
| "takeFromPool w blank (buf # rest) =
     (if int (length buf) = w then (Some (map (\<lambda>_. blank) buf), rest)
      else takeFromPool w blank rest)"

definition takeBlankedCellsRow :: "grid \<Rightarrow> cell list \<times> grid" where
  "takeBlankedCellsRow g =
     (let bg = eraseBg g;
          blank = blankCell (cellColor (m_defaultFg g)) (cellColor bg);
          (buf, rest) = takeFromPool (m_cols g) blank (rev (m_freeCellBuffers g));
          g = g\<lparr>m_freeCellBuffers := rev rest\<rparr>
      in (case buf of Some b \<Rightarrow> (b, g) | None \<Rightarrow> (makeRow (m_cols g) (m_defaultFg g) bg, g)))"

definition returnCellsRow :: "cell list \<Rightarrow> grid \<Rightarrow> grid" where
  "returnCellsRow cs g =
     (if int (length cs) = m_cols g \<and> length (m_freeCellBuffers g) < kFreePoolCap
      then g\<lparr>m_freeCellBuffers := m_freeCellBuffers g @ [cs]\<rparr> else g)"

section \<open>Rows on their way into scrollback\<close>

definition plainBlank :: "cell_color \<Rightarrow> cell \<Rightarrow> bool" where
  "plainBlank defBg c \<longleftrightarrow>
     codepoint c = 0x20 \<and> \<not> isWideChar c \<and> \<not> isWideCont c \<and>
     \<not> c_underline (attrs c) \<and> \<not> c_inverse (attrs c) \<and> \<not> c_strikethrough (attrs c) \<and>
     (\<not> colorValid (c_bg (attrs c)) \<or> c_bg (attrs c) = defBg)"

text \<open>The length left after dropping trailing cells that satisfy \<open>P\<close>.\<close>

definition keepLen :: "('a \<Rightarrow> bool) \<Rightarrow> 'a list \<Rightarrow> nat" where
  "keepLen P xs = length (dropWhile P (rev xs))"

definition trimmedForScrollback :: "term_line \<Rightarrow> grid \<Rightarrow> term_line \<times> grid" where
  "trimmedForScrollback line g =
     (if softWrapped line then (line, g)
      else
        (let size = int (length (cells line));
             keep = int (keepLen (plainBlank (cellColor (m_defaultBg g))) (cells line));
             keep = fold (\<lambda>kv k. max k (min size (fst kv + 1))) (combining line) keep
         in if keep \<ge> size then (line, g)
            else (line0\<lparr>cells := take (nat keep) (cells line), dirty := dirty line,
                        combining := combining line\<rparr>,
                  returnCellsRow (cells line) g)))"

section \<open>Eviction\<close>

definition byteCap :: "grid \<Rightarrow> int" where
  "byteCap g = m_maxScrollbackMib g * 1024 * 1024"

lemma returnCellsRow_frame [simp]:
  "m_scrollback (returnCellsRow cs g) = m_scrollback g"
  "m_screenLines (returnCellsRow cs g) = m_screenLines g"
  "m_scrollbackHyperlinks (returnCellsRow cs g) = m_scrollbackHyperlinks g"
  "m_scrollbackBytes (returnCellsRow cs g) = m_scrollbackBytes g"
  "m_promptRegionShift (returnCellsRow cs g) = m_promptRegionShift g"
  "m_maxScrollback (returnCellsRow cs g) = m_maxScrollback g"
  "m_maxScrollbackMib (returnCellsRow cs g) = m_maxScrollbackMib g"
  "m_cols (returnCellsRow cs g) = m_cols g"
  by (simp_all add: returnCellsRow_def)

function evictLoop :: "grid \<Rightarrow> grid" where
  "evictLoop g =
     (if int (length (m_scrollback g)) > m_maxScrollback g \<or>
         m_scrollbackBytes g > byteCap g \<and> m_scrollback g \<noteq> []
      then (case m_scrollback g of
              [] \<Rightarrow> g
            | front # rest \<Rightarrow>
                evictLoop ((returnCellsRow (cells front) g)
                  \<lparr>m_scrollbackBytes := m_scrollbackBytes g - cellBytes front,
                   m_scrollback := rest,
                   m_promptRegionShift := m_promptRegionShift g + 1,
                   m_scrollbackHyperlinks := tl (m_scrollbackHyperlinks g)\<rparr>))
      else g)"
  by pat_completeness auto
termination by (relation "measure (\<lambda>g. length (m_scrollback g))") auto

declare evictLoop.simps [simp del]

definition trimScrollbackToCap :: "grid \<Rightarrow> grid" where
  "trimScrollbackToCap g =
     (let g = evictLoop g
      in g\<lparr>m_scrollbackHyperlinks :=
             drop (nat (int (length (m_scrollbackHyperlinks g)) - m_maxScrollback g))
               (m_scrollbackHyperlinks g)\<rparr>)"

text \<open>The push the scroll, the reflow and the session restore share.\<close>

definition appendScrollback :: "term_line \<Rightarrow> grid \<Rightarrow> grid" where
  "appendScrollback line g =
     (let (l, g) = trimmedForScrollback line g
      in g\<lparr>m_scrollback := m_scrollback g @ [l],
           m_scrollbackBytes := m_scrollbackBytes g + cellBytes l,
           m_scrollbackPushed := m_scrollbackPushed g + 1\<rparr>)"

definition pushScrollbackLine :: "term_line \<Rightarrow> grid \<Rightarrow> grid" where
  "pushScrollbackLine line g =
     (let g = appendScrollback line (bumpRevision g)
      in trimScrollbackToCap (g\<lparr>m_scrollbackHyperlinks := m_scrollbackHyperlinks g @ [[]]\<rparr>))"

definition setMaxScrollback :: "int \<Rightarrow> grid \<Rightarrow> grid" where
  "setMaxScrollback lines g =
     trimScrollbackToCap ((bumpRevision g)\<lparr>m_maxScrollback := clamp lines 1000 1000000\<rparr>)"

definition setMaxScrollbackMib :: "int \<Rightarrow> grid \<Rightarrow> grid" where
  "setMaxScrollbackMib mib g =
     trimScrollbackToCap ((bumpRevision g)\<lparr>m_maxScrollbackMib := clamp mib 16 65536\<rparr>)"

section \<open>Prompt regions\<close>

definition shiftRegion :: "int \<Rightarrow> prompt_region \<Rightarrow> prompt_region" where
  "shiftRegion n r =
     r\<lparr>startLine := max (startLine r - n) (-1), endLine := max (endLine r - n) (-1),
       outputStartLine := (if outputStartLine r \<ge> 0 then max (outputStartLine r - n) (-1)
                           else outputStartLine r)\<rparr>"

definition shiftRegions :: "int \<Rightarrow> prompt_region list \<Rightarrow> prompt_region list" where
  "shiftRegions n rs = filter (\<lambda>r. \<not> startLine r < 0) (map (shiftRegion n) rs)"

definition applyPromptRegionShift :: "grid \<Rightarrow> grid" where
  "applyPromptRegionShift g =
     (if m_promptRegionShift g = 0 then g
      else g\<lparr>m_promptRegionShift := 0,
             m_promptRegions := shiftRegions (m_promptRegionShift g) (m_promptRegions g),
             m_altPromptRegions := shiftRegions (m_promptRegionShift g) (m_altPromptRegions g)\<rparr>)"

fun indexById :: "nat \<Rightarrow> prompt_region list \<Rightarrow> int \<Rightarrow> int" where
  "indexById i [] k = -1"
| "indexById i (r # rs) k = (if regionId r = i then k else indexById i rs (k + 1))"

definition promptRegionIndexById :: "nat \<Rightarrow> grid \<Rightarrow> int \<times> grid" where
  "promptRegionIndexById i g =
     (if i = 0 then (-1, g)
      else (let g = applyPromptRegionShift g in (indexById i (m_promptRegions g) 0, g)))"

definition promptRegionOutputLines :: "int \<Rightarrow> grid \<Rightarrow> (int \<times> int) \<times> grid" where
  "promptRegionOutputLines ix g =
     (let g = applyPromptRegionShift g;
          regions = m_promptRegions g;
          pr = vget regions ix;
          first = (if outputStartLine pr > 0 then outputStartLine pr else endLine pr + 1);
          lim = (if ix + 1 < int (length regions) then startLine (vget regions (ix + 1))
                 else int (length (m_scrollback g)) + m_rows g)
      in ((first, lim), g))"

section \<open>Default colours\<close>

definition recolorFg :: "qcolor \<Rightarrow> qcolor \<Rightarrow> cell_attrs \<Rightarrow> cell_attrs" where
  "recolorFg old new a = (if c_fg a = cellColor old then a\<lparr>c_fg := cellColor new\<rparr> else a)"

definition recolorBg :: "qcolor \<Rightarrow> qcolor \<Rightarrow> cell_attrs \<Rightarrow> cell_attrs" where
  "recolorBg old new a = (if c_bg a = cellColor old then a\<lparr>c_bg := cellColor new\<rparr> else a)"

definition mapCells :: "(cell \<Rightarrow> cell) \<Rightarrow> term_line \<Rightarrow> term_line" where
  "mapCells f l = l\<lparr>cells := map f (cells l)\<rparr>"

definition setDefaultFg :: "qcolor \<Rightarrow> grid \<Rightarrow> grid" where
  "setDefaultFg c g =
     (let old = m_defaultFg g
      in g\<lparr>m_defaultFg := c,
           m_screenLines := map (mapCells (\<lambda>x. x\<lparr>attrs := recolorFg old c (attrs x)\<rparr>)) (m_screenLines g),
           m_currentAttrs := recolorFg old c (m_currentAttrs g)\<rparr>)"

definition setDefaultBg :: "qcolor \<Rightarrow> grid \<Rightarrow> grid" where
  "setDefaultBg c g =
     (let old = m_defaultBg g
      in g\<lparr>m_defaultBg := c,
           m_screenLines := map (mapCells (\<lambda>x. x\<lparr>attrs := recolorBg old c (attrs x)\<rparr>)) (m_screenLines g),
           m_currentAttrs := recolorBg old c (m_currentAttrs g)\<rparr>)"

end
