(* ===== verification/GridEdit.thy ===== *)
theory GridEdit
  imports GridScrollback
begin

text \<open>
  Erasing, shifting and scrolling: the screen operations of \<open>src/src/terminalgrid.cpp\<close> below the
  escape-sequence handlers, from \<open>dropHyperlinkSpans\<close> and \<open>clearRow\<close> up to \<open>newLine\<close>. A row is
  replaced by re-blanking a recycled buffer, a region moves by one rotation, and the hyperlink
  side table moves with it.
\<close>

section \<open>Clearing\<close>

definition dropHyperlinkSpans :: "int \<Rightarrow> int \<Rightarrow> int \<Rightarrow> grid \<Rightarrow> grid" where
  "dropHyperlinkSpans row sCol eCol g =
     (if row < 0 \<or> row \<ge> int (length (m_screenHyperlinks g)) then g
      else g\<lparr>m_screenHyperlinks :=
        vupd row (filter (\<lambda>sp. \<not> (startCol sp < eCol \<and> endCol sp \<ge> sCol))) (m_screenHyperlinks g)\<rparr>)"

definition eraseCombRange :: "int \<Rightarrow> int \<Rightarrow> combining_map \<Rightarrow> combining_map" where
  "eraseCombRange a b m = fold combErase [a .. b - 1] m"

text \<open>\<open>clearRow(row, startCol, endCol)\<close>; the default end of -1 means the last column.\<close>

definition clearRow :: "int \<Rightarrow> int \<Rightarrow> int \<Rightarrow> grid \<Rightarrow> grid" where
  "clearRow row sCol eCol0 g =
     (let eCol = (if eCol0 < 0 then m_cols g else eCol0);
          blank = blankCell (cellColor (m_defaultFg g)) (cellColor (eraseBg g));
          g = updLine row (\<lambda>l. l\<lparr>cells := vmap_range sCol (min eCol (m_cols g)) (\<lambda>_. blank) (cells l),
                                softWrapped := False\<rparr>) g;
          g = markScreenDirty row g;
          g = updLine row (\<lambda>l. l\<lparr>combining :=
                (if sCol = 0 \<and> eCol \<ge> m_cols g then []
                 else eraseCombRange sCol (min eCol (m_cols g)) (combining l))\<rparr>) g
      in dropHyperlinkSpans row sCol (min eCol (m_cols g)) g)"

definition clearRows :: "int \<Rightarrow> int \<Rightarrow> grid \<Rightarrow> grid" where
  "clearRows a b g = fold (\<lambda>r. clearRow r 0 (-1)) [a .. b - 1] g"

definition eraseInLine :: "int \<Rightarrow> grid \<Rightarrow> grid" where
  "eraseInLine mode g =
     (if mode = 0 then clearRow (m_cursorRow g) (m_cursorCol g) (m_cols g) g
      else if mode = 1 then clearRow (m_cursorRow g) 0 (m_cursorCol g + 1) g
      else if mode = 2 then clearRow (m_cursorRow g) 0 (-1) g
      else g)"

definition kCsiClearRedrawWindowMs :: int where "kCsiClearRedrawWindowMs = 250"
definition kMode2FollowupWindowMs :: int where "kMode2FollowupWindowMs = 50"

text \<open>\<open>timer.isValid() && timer.elapsed() < window\<close>.\<close>

definition timerWithin :: "env \<Rightarrow> int option \<Rightarrow> int \<Rightarrow> bool" where
  "timerWithin e t window = (case t of None \<Rightarrow> False | Some t0 \<Rightarrow> e_monoMs e - t0 < window)"

definition fullClearLikeMode2 :: "int \<Rightarrow> grid \<Rightarrow> bool" where
  "fullClearLikeMode2 mode g \<longleftrightarrow>
     mode = 2 \<or>
     mode = 0 \<and> m_cursorRow g = 0 \<and> m_cursorCol g = 0 \<or>
     mode = 1 \<and> m_cursorRow g = m_rows g - 1 \<and> m_cursorCol g = m_cols g - 1"

definition isInkOverflowRepaint :: "env \<Rightarrow> int \<Rightarrow> grid \<Rightarrow> bool" where
  "isInkOverflowRepaint e mode g \<longleftrightarrow>
     mode = 3 \<and> timerWithin e (m_recentMode2Timer g) kMode2FollowupWindowMs \<and>
     \<not> m_altScreenActive g \<and> \<not> (m_cursorRow g = 0 \<and> m_cursorCol g = 0)"

definition clearScrollback :: "grid \<Rightarrow> grid" where
  "clearScrollback g =
     g\<lparr>m_promptRegionShift := m_promptRegionShift g + int (length (m_scrollback g)),
       m_scrollback := [], m_scrollbackBytes := 0, m_scrollbackHyperlinks := []\<rparr>"

definition eraseInDisplay :: "env \<Rightarrow> int \<Rightarrow> grid \<Rightarrow> grid" where
  "eraseInDisplay e mode g =
     (let full = fullClearLikeMode2 mode g;
          ink = isInkOverflowRepaint e mode g;
          armWindow = full \<and> mode \<noteq> 3 \<and> \<not> m_altScreenActive g \<or> ink;
          g = (if mode = 0 then clearRows (m_cursorRow g + 1) (m_rows g) (eraseInLine 0 g)
               else if mode = 1 then eraseInLine 1 (clearRows 0 (m_cursorRow g) g)
               else if mode = 2 \<or> mode = 3 then
                 (let g = clearRows 0 (m_rows g) g
                  in if mode = 3 \<and> \<not> ink then clearScrollback g else g)
               else g);
          g = (if mode = 2 then g\<lparr>m_recentMode2Timer := Some (e_monoMs e)\<rparr> else g)
      in if armWindow
         then g\<lparr>m_csiClearRedrawActive := True, m_csiClearRedrawTimer := Some (e_monoMs e)\<rparr>
         else g)"

section \<open>Moving rows\<close>

text \<open>
  \<open>hlInRange\<close>: the hyperlink side table has an entry for the last row of the region, so it is
  rotated along.
\<close>

definition hlInRange :: "grid \<Rightarrow> bool" where
  "hlInRange g \<longleftrightarrow> m_scrollBottom g < int (length (m_screenHyperlinks g))"

definition discardRow :: "int \<Rightarrow> grid \<Rightarrow> grid" where
  "discardRow r g = returnCellsRow (cells (lineAt g r)) g"

definition discardRows :: "int \<Rightarrow> int \<Rightarrow> grid \<Rightarrow> grid" where
  "discardRows first n g = fold discardRow [first .. first + n - 1] g"

definition rotateRegion :: "int \<Rightarrow> int \<Rightarrow> int \<Rightarrow> grid \<Rightarrow> grid" where
  "rotateRegion lo mi hi g =
     g\<lparr>m_screenLines := rotate_range lo mi hi (m_screenLines g),
       m_screenHyperlinks := (if hlInRange g then rotate_range lo mi hi (m_screenHyperlinks g)
                              else m_screenHyperlinks g)\<rparr>"

definition refillRow :: "int \<Rightarrow> grid \<Rightarrow> grid" where
  "refillRow r g =
     (let (cs, g) = takeBlankedCellsRow g;
          g = updLine r (\<lambda>_. lineWith cs) g
      in if hlInRange g then g\<lparr>m_screenHyperlinks := vupd r (\<lambda>_. []) (m_screenHyperlinks g)\<rparr> else g)"

definition refillRows :: "int \<Rightarrow> int \<Rightarrow> grid \<Rightarrow> grid" where
  "refillRows first n g = fold refillRow [first .. first + n - 1] g"

definition insertLines :: "int \<Rightarrow> grid \<Rightarrow> grid" where
  "insertLines count0 g =
     (let bottom = m_scrollBottom g; cur = m_cursorRow g in
      if cur < m_scrollTop g \<or> cur > bottom then g
      else
        (let g = markAllScreenDirty g;
             count = min count0 (bottom - cur + 1)
         in if count \<le> 0 then g
            else refillRows cur count
                   (rotateRegion cur (bottom + 1 - count) (bottom + 1)
                     (discardRows (bottom - count + 1) count g))))"

definition deleteLines :: "int \<Rightarrow> grid \<Rightarrow> grid" where
  "deleteLines count0 g =
     (let bottom = m_scrollBottom g; cur = m_cursorRow g in
      if cur < m_scrollTop g \<or> cur > bottom then g
      else
        (let g = markAllScreenDirty g;
             count = min count0 (bottom - cur + 1)
         in if count \<le> 0 then g
            else refillRows (bottom - count + 1) count
                   (rotateRegion cur (cur + count) (bottom + 1) (discardRows cur count g))))"

section \<open>Moving cells within a row\<close>

text \<open>
  The two key loops over the combining table: entries whose cell goes away are erased, entries
  whose cell moves get the new column.
\<close>

definition combDeleteShift :: "int \<Rightarrow> int \<Rightarrow> combining_map \<Rightarrow> combining_map" where
  "combDeleteShift c n m =
     map (\<lambda>(k, v). if k \<ge> c + n then (k - n, v) else (k, v))
       (filter (\<lambda>kv. \<not> (fst kv \<ge> c \<and> fst kv < c + n)) m)"

definition combInsertShift :: "int \<Rightarrow> int \<Rightarrow> int \<Rightarrow> combining_map \<Rightarrow> combining_map" where
  "combInsertShift c n w m =
     map (\<lambda>(k, v). if k \<ge> c then (k + n, v) else (k, v))
       (filter (\<lambda>kv. \<not> (fst kv \<ge> c \<and> fst kv + n \<ge> w)) m)"

definition deleteChars :: "int \<Rightarrow> grid \<Rightarrow> grid" where
  "deleteChars count0 g =
     (let g = markScreenDirty (m_cursorRow g) g;
          col = m_cursorCol g;
          count = min count0 (m_cols g - col);
          blank = blankCell (cellColor (m_defaultFg g)) (cellColor (eraseBg g))
      in updLine (m_cursorRow g)
           (\<lambda>l. let kept = take (nat col) (cells l) @ drop (nat (col + count)) (cells l)
                in l\<lparr>cells := kept @ replicate (nat (m_cols g) - length kept) blank,
                     combining := combDeleteShift col count (combining l)\<rparr>) g)"

definition insertBlanks :: "int \<Rightarrow> grid \<Rightarrow> grid" where
  "insertBlanks count0 g =
     (let g = markScreenDirty (m_cursorRow g) g;
          col = m_cursorCol g;
          count = min count0 (m_cols g - col);
          blank = blankCell (cellColor (m_defaultFg g)) (cellColor (eraseBg g))
      in updLine (m_cursorRow g)
           (\<lambda>l. l\<lparr>cells := take (nat (m_cols g))
                    (take (nat col) (cells l) @ replicate (nat count) blank @ drop (nat col) (cells l)),
                  combining := combInsertShift col count (m_cols g) (combining l)\<rparr>) g)"

section \<open>Scrolling\<close>

text \<open>An open link's start row moves with the rows it sits on.\<close>

definition moveActiveLink :: "int \<Rightarrow> grid \<Rightarrow> grid" where
  "moveActiveLink count g =
     (if m_hyperlinkActive g \<and> m_hyperlinkStartRow g \<ge> m_scrollTop g \<and>
         m_hyperlinkStartRow g \<le> m_scrollBottom g
      then (let g = g\<lparr>m_hyperlinkStartRow := m_hyperlinkStartRow g - count\<rparr>
            in if m_hyperlinkStartRow g < m_scrollTop g
               then g\<lparr>m_hyperlinkStartRow := m_scrollTop g, m_hyperlinkStartCol := 0\<rparr> else g)
      else g)"

text \<open>The redraw window after a full clear: whether it is open, and what asking does to it.\<close>

definition csiClearWindow :: "env \<Rightarrow> grid \<Rightarrow> bool \<times> grid" where
  "csiClearWindow e g =
     (if m_csiClearRedrawActive g then
        (if timerWithin e (m_csiClearRedrawTimer g) kCsiClearRedrawWindowMs
         then (True, g\<lparr>m_csiClearRedrawTimer := Some (e_monoMs e)\<rparr>)
         else (False, g\<lparr>m_csiClearRedrawActive := False\<rparr>))
      else (False, g))"

definition pushTopRow :: "int \<Rightarrow> grid \<Rightarrow> grid" where
  "pushTopRow r g =
     (let hl = vget (m_screenHyperlinks g) r; inRange = hlInRange g;
          g = appendScrollback (lineAt g r) g
      in if inRange then g\<lparr>m_scrollbackHyperlinks := m_scrollbackHyperlinks g @ [hl]\<rparr> else g)"

definition salvageTopRows :: "bool \<Rightarrow> int \<Rightarrow> int \<Rightarrow> grid \<Rightarrow> grid" where
  "salvageTopRows push first n g =
     (if push then fold pushTopRow [first .. first + n - 1] g else discardRows first n g)"

definition scrollUp :: "env \<Rightarrow> int \<Rightarrow> grid \<Rightarrow> grid" where
  "scrollUp e count0 g =
     (let g = markAllScreenDirty g;
          regionSize = m_scrollBottom g - m_scrollTop g + 1
      in if count0 \<le> 0 \<or> regionSize \<le> 0 then g
         else
           (let count = min count0 regionSize;
                g = moveActiveLink count g;
                (inWindow, g) = csiClearWindow e g;
                suppress = inWindow \<and> \<not> m_scrollbackInsertPaused g;
                push = (m_scrollTop g = 0 \<and> \<not> m_altScreenActive g \<and> \<not> suppress);
                g = salvageTopRows push (m_scrollTop g) count g;
                g = trimScrollbackToCap g;
                g = rotateRegion (m_scrollTop g) (m_scrollTop g + count) (m_scrollBottom g + 1) g
            in refillRows (m_scrollBottom g - count + 1) count g))"

definition scrollDown :: "int \<Rightarrow> grid \<Rightarrow> grid" where
  "scrollDown count0 g =
     (let g = markAllScreenDirty g;
          regionSize = m_scrollBottom g - m_scrollTop g + 1
      in if count0 \<le> 0 \<or> regionSize \<le> 0 then g
         else
           (let count = min count0 regionSize;
                g = discardRows (m_scrollBottom g - count + 1) count g;
                g = rotateRegion (m_scrollTop g) (m_scrollBottom g + 1 - count) (m_scrollBottom g + 1) g
            in refillRows (m_scrollTop g) count g))"

section \<open>Cursor\<close>

definition setCursorPos :: "int \<Rightarrow> int \<Rightarrow> grid \<Rightarrow> grid" where
  "setCursorPos row col g =
     g\<lparr>m_cursorRow := clamp row 0 (m_rows g - 1), m_cursorCol := clamp col 0 (m_cols g - 1)\<rparr>"

definition moveCursor :: "int \<Rightarrow> int \<Rightarrow> grid \<Rightarrow> grid" where
  "moveCursor dRow dCol g = setCursorPos (m_cursorRow g + dRow) (m_cursorCol g + dCol) g"

definition setScrollRegion :: "int \<Rightarrow> int \<Rightarrow> grid \<Rightarrow> grid" where
  "setScrollRegion top0 bottom0 g =
     (let top = clamp top0 0 (m_rows g - 1);
          bottom = clamp bottom0 0 (m_rows g - 1);
          g = (if top < bottom then g\<lparr>m_scrollTop := top, m_scrollBottom := bottom\<rparr> else g)
      in setCursorPos (if m_originMode g then m_scrollTop g else 0) 0 g)"

definition resetScrollRegion :: "grid \<Rightarrow> grid" where
  "resetScrollRegion g =
     g\<lparr>m_scrollTop := 0, m_scrollBottom := m_rows g - 1,
       m_altScrollTop := 0, m_altScrollBottom := m_rows g - 1\<rparr>"

definition saveCursor :: "grid \<Rightarrow> grid" where
  "saveCursor g =
     g\<lparr>m_savedRow := m_cursorRow g, m_savedCol := m_cursorCol g, m_savedAttrs := m_currentAttrs g,
       m_savedOriginMode := m_originMode g, m_savedAutoWrap := m_autoWrap g\<rparr>"

definition restoreCursor :: "grid \<Rightarrow> grid" where
  "restoreCursor g =
     g\<lparr>m_cursorRow := clamp (m_savedRow g) 0 (m_rows g - 1),
       m_cursorCol := clamp (m_savedCol g) 0 (m_cols g - 1),
       m_currentAttrs := m_savedAttrs g, m_originMode := m_savedOriginMode g,
       m_autoWrap := m_savedAutoWrap g\<rparr>"

definition carriageReturn :: "grid \<Rightarrow> grid" where
  "carriageReturn g = g\<lparr>m_cursorCol := 0\<rparr>"

text \<open>\<open>vector<bool>\<close> read with the bound check the callers make.\<close>

definition tabStopAt :: "grid \<Rightarrow> int \<Rightarrow> bool" where
  "tabStopAt g c \<longleftrightarrow> c < int (length (m_tabStops g)) \<and> vget (m_tabStops g) c"

definition nextTab :: "int \<Rightarrow> grid \<Rightarrow> int option" where
  "nextTab c g = find (tabStopAt g) [c + 1 .. m_cols g - 1]"

definition prevTab :: "int \<Rightarrow> grid \<Rightarrow> int option" where
  "prevTab c g = find (tabStopAt g) (rev [1 .. c - 1])"

definition tab :: "grid \<Rightarrow> grid" where
  "tab g = g\<lparr>m_cursorCol := (case nextTab (m_cursorCol g) g of Some c \<Rightarrow> c | None \<Rightarrow> m_cols g - 1)\<rparr>"

definition reverseIndex :: "grid \<Rightarrow> grid" where
  "reverseIndex g =
     (if m_cursorRow g = m_scrollTop g then scrollDown 1 g
      else if m_cursorRow g > 0 then g\<lparr>m_cursorRow := m_cursorRow g - 1\<rparr> else g)"

section \<open>Links and row attributes\<close>

definition toLowerAscii :: "char \<Rightarrow> char" where
  "toLowerAscii c = (let n = (of_char c :: nat) in
     if 65 \<le> n \<and> n \<le> 90 then char_of (n + 32) else c)"

definition isAllowedHyperlinkScheme :: "string \<Rightarrow> bool" where
  "isAllowedHyperlinkScheme u =
     (case find_char CHR '':'' u of
        None \<Rightarrow> False
      | Some p \<Rightarrow>
          (if p = 0 then False
           else (let scheme = map toLowerAscii (take p u)
                 in scheme = ''http'' \<or> scheme = ''https'' \<or> scheme = ''mailto'')))"

definition applyRowAttrs :: "int \<Rightarrow> int \<Rightarrow> int \<Rightarrow> qcolor \<Rightarrow> qcolor \<Rightarrow> grid \<Rightarrow> grid" where
  "applyRowAttrs row sCol eCol f b g0 =
     (let g = bumpRevision g0 in
      if row < 0 \<or> row \<ge> m_rows g then g
      else
        (let maxCol = int (length (cells (lineAt g row)));
             start = max 0 sCol; lim = min (maxCol - 1) eCol;
             paint = (\<lambda>c. c\<lparr>attrs :=
               (let a = attrs c;
                    a = (if qvalid f then a\<lparr>c_fg := cellColor f\<rparr> else a)
                in if qvalid b then a\<lparr>c_bg := cellColor b\<rparr> else a)\<rparr>)
         in if lim < start then g
            else updLine row (\<lambda>l. l\<lparr>cells := vmap_range start (lim + 1) paint (cells l),
                                   dirty := True\<rparr>) g))"

definition kMaxHyperlinkUriLen :: nat where "kMaxHyperlinkUriLen = 4096"

definition addRowHyperlink :: "env \<Rightarrow> int \<Rightarrow> int \<Rightarrow> int \<Rightarrow> qstring \<Rightarrow> grid \<Rightarrow> grid" where
  "addRowHyperlink e row sCol eCol u g =
     (if row < 0 \<or> row \<ge> m_rows g then g
      else if u = [] then g
      else if length u > kMaxHyperlinkUriLen then g
      else if \<not> isAllowedHyperlinkScheme (e_toStd e u) then g
      else
        (let g = (if row \<ge> int (length (m_screenHyperlinks g))
                  then g\<lparr>m_screenHyperlinks := m_screenHyperlinks g @
                           replicate (nat (row + 1) - length (m_screenHyperlinks g)) []\<rparr>
                  else g);
             maxCol = int (length (cells (lineAt g row)));
             start = max 0 sCol; lim = min (maxCol - 1) eCol
         in if lim < start then g
            else updLine row (\<lambda>l. l\<lparr>dirty := True\<rparr>)
              (g\<lparr>m_screenHyperlinks := vupd row
                  (\<lambda>spans. spans @ [\<lparr>startCol = start, endCol = lim, uri = e_toStd e u, linkId = []\<rparr>])
                  (m_screenHyperlinks g)\<rparr>)))"

definition applyEdit :: "env \<Rightarrow> row_edit \<Rightarrow> grid \<Rightarrow> grid" where
  "applyEdit e ed g =
     (case ed of
        ApplyRowAttrs row a b f k \<Rightarrow> applyRowAttrs row a b f k g
      | AddRowHyperlink row a b u \<Rightarrow> addRowHyperlink e row a b u g)"

text \<open>The line-completion callback runs before the cursor moves.\<close>

definition lineCompleted :: "env \<Rightarrow> grid \<Rightarrow> grid" where
  "lineCompleted e g =
     (if cb_lineCompletion (m_callbacks g) \<and> m_cursorRow g \<ge> 0 \<and> m_cursorRow g < m_rows g
      then fold (applyEdit e) (e_lineTriggers e (m_cursorRow g) (m_screenLines g)) g
      else g)"

definition newLine :: "env \<Rightarrow> grid \<Rightarrow> grid" where
  "newLine e g0 =
     (let g = lineCompleted e g0
      in if m_cursorRow g = m_scrollBottom g then scrollUp e 1 g
         else if m_cursorRow g < m_rows g - 1 then g\<lparr>m_cursorRow := m_cursorRow g + 1\<rparr>
         else g)"

definition clearScreenContent :: "grid \<Rightarrow> grid" where
  "clearScreenContent g0 =
     (let g = clearRows 0 (m_rows g0) (bumpRevision g0)
      in g\<lparr>m_cursorRow := 0, m_cursorCol := 0, m_wrapNext := False\<rparr>)"

end
