(* ===== verification/GridPrint.thy ===== *)
theory GridPrint
  imports GridEdit
begin

text \<open>
  Printing and C0 controls: \<open>breakWidePairsAround\<close>, \<open>handlePrint\<close>, the coalesced-run path
  \<open>handleAsciiPrintRun\<close> and \<open>handleExecute\<close> of \<open>src/src/terminalgrid.cpp\<close>.
\<close>

section \<open>Keeping wide pairs whole\<close>

definition unpair :: "cell \<Rightarrow> cell" where
  "unpair c = c\<lparr>codepoint := 0x20, isWideChar := False, isWideCont := False\<rparr>"

definition blankMate :: "int \<Rightarrow> term_line \<Rightarrow> term_line" where
  "blankMate c l = l\<lparr>cells := vupd c unpair (cells l), combining := combErase c (combining l)\<rparr>"

definition breakLeft :: "int \<Rightarrow> int \<Rightarrow> term_line \<Rightarrow> term_line" where
  "breakLeft w sCol l =
     (if sCol > 0 \<and> sCol < w \<and> isWideCont (vget (cells l) sCol) then blankMate (sCol - 1) l else l)"

definition breakRight :: "int \<Rightarrow> int \<Rightarrow> term_line \<Rightarrow> term_line" where
  "breakRight w eCol l =
     (if eCol > 0 \<and> eCol < w \<and> isWideCont (vget (cells l) eCol) then blankMate eCol l else l)"

definition breakWidePairsAround :: "int \<Rightarrow> int \<Rightarrow> int \<Rightarrow> grid \<Rightarrow> grid" where
  "breakWidePairsAround row sCol eCol g =
     (if row < 0 \<or> row \<ge> m_rows g then g
      else updLine row (\<lambda>l. breakRight (m_cols g) eCol (breakLeft (m_cols g) sCol l)) g)"

section \<open>Delayed wrap\<close>

text \<open>The wrap the last column postponed, done before the next character is placed.\<close>

definition wrapPending :: "env \<Rightarrow> grid \<Rightarrow> grid" where
  "wrapPending e g =
     (if m_wrapNext g \<and> m_autoWrap g then
        (newLine e ((updLine (m_cursorRow g) (\<lambda>l. l\<lparr>softWrapped := True\<rparr>) g)\<lparr>m_cursorCol := 0\<rparr>))
          \<lparr>m_wrapNext := False\<rparr>
      else g)"

definition clampCol :: "grid \<Rightarrow> grid" where
  "clampCol g = (if m_cursorCol g \<ge> m_cols g then g\<lparr>m_cursorCol := m_cols g - 1\<rparr> else g)"

definition advance :: "int \<Rightarrow> grid \<Rightarrow> grid" where
  "advance n g =
     (let g = g\<lparr>m_cursorCol := m_cursorCol g + n\<rparr>
      in if m_cursorCol g \<ge> m_cols g then g\<lparr>m_cursorCol := m_cols g - 1, m_wrapNext := True\<rparr> else g)"

section \<open>Runs of printable ASCII\<close>

definition asciiCell :: "cell_attrs \<Rightarrow> u8 \<Rightarrow> cell" where
  "asciiCell a b = \<lparr>codepoint = ucast b, attrs = a, isWideChar = False, isWideCont = False\<rparr>"

fun writeRun :: "cell_attrs \<Rightarrow> int \<Rightarrow> u8 list \<Rightarrow> term_line \<Rightarrow> term_line" where
  "writeRun a c [] l = l"
| "writeRun a c (b # bs) l =
     writeRun a (c + 1) bs
       (l\<lparr>cells := vupd c (\<lambda>_. asciiCell a b) (cells l), combining := combErase c (combining l)\<rparr>)"

text \<open>One span of the run, all on one row; the row loses the links it is written over.\<close>

definition printSpan :: "u8 list \<Rightarrow> grid \<Rightarrow> grid" where
  "printSpan bs g =
     (let row = clamp (m_cursorRow g) 0 (m_rows g - 1);
          start = m_cursorCol g;
          span = int (length bs);
          g = breakWidePairsAround row start (start + span) g;
          g = dropHyperlinkSpans row start (start + span) g;
          g = updLine row (writeRun (m_currentAttrs g) start bs) g;
          g = markScreenDirty row g
      in advance span g)"

definition spanLength :: "u8 list \<Rightarrow> grid \<Rightarrow> int" where
  "spanLength data g = min (int (length data)) (m_cols g - m_cursorCol g)"

function handleAsciiPrintRun :: "env \<Rightarrow> u8 list \<Rightarrow> grid \<Rightarrow> grid" where
  "handleAsciiPrintRun e data g =
     (if data = [] then g
      else
        (let g = clampCol (wrapPending e g);
             span = spanLength data g
         in if span \<le> 0 then g
            else handleAsciiPrintRun e (drop (nat span) data) (printSpan (take (nat span) data) g)))"
  by pat_completeness auto
termination by (relation "measure (\<lambda>(e, data, g). length data)") auto

declare handleAsciiPrintRun.simps [simp del]

section \<open>One code point\<close>

definition charWidthOf :: "env \<Rightarrow> u32 \<Rightarrow> int" where
  "charWidthOf e cp = (if 0x20 \<le> cp \<and> cp < 0x7F then 1 else e_wcwidth e cp)"

text \<open>A zero-width character joins the cell to the left, up to the per-cell cap.\<close>

definition combineTarget :: "grid \<Rightarrow> int option" where
  "combineTarget g =
     (let t = (if m_wrapNext g then Some (m_cursorCol g)
               else if m_cursorCol g > 0 then Some (m_cursorCol g - 1) else None)
      in case t of None \<Rightarrow> None
         | Some c \<Rightarrow> Some (if c > 0 \<and> c < m_cols g \<and>
                              isWideCont (vget (cells (lineAt g (m_cursorRow g))) c)
                           then c - 1 else c))"

definition attachCombining :: "u32 \<Rightarrow> grid \<Rightarrow> grid" where
  "attachCombining cp g =
     (case combineTarget g of None \<Rightarrow> g
      | Some c \<Rightarrow>
          updLine (m_cursorRow g)
            (\<lambda>l. let comb = combGet (combining l) c
                 in l\<lparr>combining := combSet c
                        (if length comb < MAX_COMBINING_PER_CELL then comb @ [cp] else comb)
                        (combining l)\<rparr>) g)"

definition placeChar :: "u32 \<Rightarrow> int \<Rightarrow> grid \<Rightarrow> grid" where
  "placeChar cp w g =
     (let row = m_cursorRow g; col = m_cursorCol g;
          g = breakWidePairsAround row col (col + w) g;
          g = dropHyperlinkSpans row col (col + w) g;
          g = updCell row col (\<lambda>_. \<lparr>codepoint = cp, attrs = m_currentAttrs g,
                isWideChar = (w = 2), isWideCont = False\<rparr>) g;
          g = markScreenDirty row g;
          g = updLine row (\<lambda>l. l\<lparr>combining := combErase col (combining l)\<rparr>) g;
          g = (if w = 2 \<and> col + 1 < m_cols g then
                 updLine row (\<lambda>l. l\<lparr>combining := combErase (col + 1) (combining l)\<rparr>)
                   (updCell row (col + 1) (\<lambda>_. \<lparr>codepoint = 0, attrs = m_currentAttrs g,
                      isWideChar = False, isWideCont = True\<rparr>) g)
               else g)
      in advance w g)"

definition handlePrint :: "env \<Rightarrow> u32 \<Rightarrow> grid \<Rightarrow> grid" where
  "handlePrint e cp g =
     (let w = charWidthOf e cp in
      if w = 0 \<and> cp > 0x20 then attachCombining cp g
      else
        (let g = clampCol (wrapPending e g);
             cw = (if w = 2 then 2 else 1)
         in if cw = 2 \<and> m_cursorCol g \<ge> m_cols g - 1 then
              (if m_autoWrap g then
                 placeChar cp cw (newLine e ((updLine (m_cursorRow g) (\<lambda>l. l\<lparr>softWrapped := True\<rparr>) g)
                                    \<lparr>m_cursorCol := 0\<rparr>))
               else g)
            else placeChar cp cw g))"

section \<open>C0 controls\<close>

definition handleExecute :: "env \<Rightarrow> char \<Rightarrow> grid \<Rightarrow> grid" where
  "handleExecute e ch g0 =
     (let g = g0\<lparr>m_wrapNext := False\<rparr>; n = (of_char ch :: nat) in
      if n = 0x0A \<or> n = 0x0B \<or> n = 0x0C then newLine e g
      else if n = 0x0D then carriageReturn g
      else if n = 0x09 then tab g
      else if n = 0x08 then (if m_cursorCol g > 0 then g\<lparr>m_cursorCol := m_cursorCol g - 1\<rparr> else g)
      else if n = 0x07 then (if cb_bell (m_callbacks g) then emit Bell g else g)
      else g)"

end
