(* ===== verification/GridAlt.thy ===== *)
theory GridAlt
  imports GridPrint
begin

text \<open>
  The image budget, placement of a decoded image, and the switch between the main and the
  alternate screen. The budget counter is a \<open>size_t\<close>, so its arithmetic wraps at 64 bits.
\<close>

section \<open>The image budget\<close>

definition MAX_IMAGE_BYTES :: u64 where "MAX_IMAGE_BYTES = 256 * 1024 * 1024"

definition canFit :: "u64 \<Rightarrow> u64 \<Rightarrow> bool" where
  "canFit used bytes \<longleftrightarrow> bytes \<le> MAX_IMAGE_BYTES - used"

definition budgetAdd :: "u64 \<Rightarrow> grid \<Rightarrow> grid" where
  "budgetAdd bytes g = g\<lparr>m_imageBudget := m_imageBudget g + bytes\<rparr>"

definition budgetRelease :: "u64 \<Rightarrow> grid \<Rightarrow> grid" where
  "budgetRelease bytes g =
     g\<lparr>m_imageBudget := (if bytes \<ge> m_imageBudget g then 0 else m_imageBudget g - bytes)\<rparr>"

definition imageByteCost :: "qimage \<Rightarrow> u64" where
  "imageByteCost img = word_of_int (imgBytes img)"

text \<open>Each distinct pixel buffer counts once.\<close>

fun distinctCost :: "buffer_id list \<Rightarrow> qimage list \<Rightarrow> u64" where
  "distinctCost seen [] = 0"
| "distinctCost seen (img # rest) =
     (if bufferId img \<in> set seen then distinctCost seen rest
      else imageByteCost img + distinctCost (bufferId img # seen) rest)"

definition recomputeImageBudget :: "grid \<Rightarrow> grid" where
  "recomputeImageBudget g =
     g\<lparr>m_imageBudget := distinctCost []
        (map image (m_inlineImages g) @ map image (m_altInlineImages g) @ map snd (m_kittyImages g))\<rparr>"

definition MAX_INLINE_IMAGES :: nat where "MAX_INLINE_IMAGES = 100"
definition MAX_KITTY_CACHE :: nat where "MAX_KITTY_CACHE = 200"
definition MAX_IMAGE_DIM :: int where "MAX_IMAGE_DIM = 4096"

definition placeInlineImage :: "inline_image \<Rightarrow> grid \<Rightarrow> grid" where
  "placeInlineImage img g =
     (let g = (if length (m_inlineImages g) \<ge> MAX_INLINE_IMAGES
               then (budgetRelease (imageByteCost (image (hd (m_inlineImages g)))) g)
                      \<lparr>m_inlineImages := tl (m_inlineImages g)\<rparr>
               else g);
          g = budgetAdd (imageByteCost (image img)) g
      in g\<lparr>m_inlineImages := m_inlineImages g @ [img]\<rparr>)"

definition resetKittyChunk :: "grid \<Rightarrow> grid" where
  "resetKittyChunk g = g\<lparr>m_kittyChunkBuffer := [], m_kittyChunkId := 0, m_kittyChunkParams := []\<rparr>"

section \<open>The alternate screen\<close>

definition altBlankCell :: "grid \<Rightarrow> cell \<Rightarrow> cell" where
  "altBlankCell g c = c\<lparr>codepoint := 0x20, attrs := resetAttrs g\<rparr>"

definition enterAltScreen :: "int \<Rightarrow> grid \<Rightarrow> grid" where
  "enterAltScreen mode g =
     (if m_altScreenActive g then g
      else
        (let g = g\<lparr>m_altScreenActive := True, m_altScreenMode := mode, m_csiClearRedrawActive := False\<rparr>;
             g = markAllScreenDirty (resetKittyChunk g);
             g = g\<lparr>m_altCursorRow := m_cursorRow g, m_altCursorCol := m_cursorCol g,
                   m_altScrollTop := m_scrollTop g, m_altScrollBottom := m_scrollBottom g,
                   m_altScreen := m_screenLines g, m_altScreenHyperlinks := m_screenHyperlinks g,
                   m_altInlineImages := m_inlineImages g\<rparr>;
             g = applyPromptRegionShift g;
             g = g\<lparr>m_altPromptRegions := m_promptRegions g, m_altSavedAttrs := m_currentAttrs g,
                   m_altSavedOriginMode := m_originMode g, m_altSavedAutoWrap := m_autoWrap g\<rparr>;
             g = g\<lparr>m_screenLines := map (\<lambda>l. (mapCells (altBlankCell g) l)\<lparr>combining := []\<rparr>)
                     (m_screenLines g),
                   m_screenHyperlinks := map (\<lambda>_. []) (m_screenHyperlinks g),
                   m_inlineImages := [], m_promptRegions := []\<rparr>
         in (recomputeImageBudget g)\<lparr>m_cursorRow := 0, m_cursorCol := 0\<rparr>))"

definition exitAltScreen :: "grid \<Rightarrow> grid" where
  "exitAltScreen g =
     (if \<not> m_altScreenActive g then g
      else
        (let enteredMode = m_altScreenMode g;
             g = markAllScreenDirty (g\<lparr>m_altScreenActive := False, m_altScreenMode := 0\<rparr>);
             g = g\<lparr>m_screenLines := m_altScreen g, m_screenHyperlinks := m_altScreenHyperlinks g,
                   m_inlineImages := m_altInlineImages g\<rparr>;
             g = applyPromptRegionShift g;
             g = g\<lparr>m_promptRegions := m_altPromptRegions g, m_scrollTop := m_altScrollTop g,
                   m_scrollBottom := m_altScrollBottom g\<rparr>;
             g = (if enteredMode = 1049
                  then g\<lparr>m_cursorRow := m_altCursorRow g, m_cursorCol := m_altCursorCol g,
                         m_currentAttrs := m_altSavedAttrs g, m_originMode := m_altSavedOriginMode g,
                         m_autoWrap := m_altSavedAutoWrap g\<rparr>
                  else g);
             g = g\<lparr>m_altScreen := [], m_altScreenHyperlinks := [], m_altInlineImages := [],
                   m_altPromptRegions := []\<rparr>
         in recomputeImageBudget g))"

end
