(* ===== verification/GridSgr.thy ===== *)
theory GridSgr
  imports GridState
begin

text \<open>
  SGR: the 256-colour palette, the two extended-colour parsers and the attribute loop of
  \<open>TerminalGrid::handleSGR\<close>. The loop index \<open>i\<close> is the source's; a parser that cannot read its
  operands moves it to the end of the sequence.
\<close>

section \<open>Palette\<close>

definition palette16 :: "qcolor list" where
  "palette16 =
     [qrgb 0x00 0x00 0x00, qrgb 0xCD 0x00 0x00, qrgb 0x00 0xCD 0x00, qrgb 0xCD 0xCD 0x00,
      qrgb 0x00 0x00 0xEE, qrgb 0xCD 0x00 0xCD, qrgb 0x00 0xCD 0xCD, qrgb 0xE5 0xE5 0xE5,
      qrgb 0x7F 0x7F 0x7F, qrgb 0xFF 0x00 0x00, qrgb 0x00 0xFF 0x00, qrgb 0xFF 0xFF 0x00,
      qrgb 0x5C 0x5C 0xFF, qrgb 0xFF 0x00 0xFF, qrgb 0x00 0xFF 0xFF, qrgb 0xFF 0xFF 0xFF]"

definition cubeLevel :: "int \<Rightarrow> int" where
  "cubeLevel n = (if n = 0 then 0 else 55 + n * 40)"

definition palette256 :: "int \<Rightarrow> qcolor" where
  "palette256 i =
     (if i < 16 then palette16 ! nat i
      else if i < 232 then
        (let k = i - 16
         in qrgb (cubeLevel (k div 36 mod 6)) (cubeLevel (k div 6 mod 6)) (cubeLevel (k mod 6)))
      else (let v = 8 + (i - 232) * 10 in qrgb v v v))"

section \<open>Extended colours\<close>

definition parse256Color :: "int list \<Rightarrow> nat \<Rightarrow> grid \<Rightarrow> qcolor \<times> nat" where
  "parse256Color ps i g =
     (if i + 2 < length ps then
        (let idx = ps ! (i + 2)
         in (if idx \<ge> 0 \<and> idx < 256 then palette256 idx else m_defaultFg g, i + 2))
      else (m_defaultFg g, length ps))"

definition colonAt :: "bool list \<Rightarrow> nat \<Rightarrow> bool" where
  "colonAt cs k \<longleftrightarrow> k < length cs \<and> cs ! k"

definition parseRGBColor :: "int list \<Rightarrow> bool list \<Rightarrow> nat \<Rightarrow> grid \<Rightarrow> qcolor \<times> nat" where
  "parseRGBColor ps cs i g =
     (if i + 5 < length ps \<and> colonAt cs (i + 1) \<and> colonAt cs (i + 2) \<and> colonAt cs (i + 3) \<and>
         colonAt cs (i + 4) \<and> colonAt cs (i + 5)
      then (qrgb (clamp (ps ! (i + 3)) 0 255) (clamp (ps ! (i + 4)) 0 255)
              (clamp (ps ! (i + 5)) 0 255), i + 5)
      else if i + 4 < length ps
      then (qrgb (clamp (ps ! (i + 2)) 0 255) (clamp (ps ! (i + 3)) 0 255)
              (clamp (ps ! (i + 4)) 0 255), i + 4)
      else (m_defaultFg g, length ps))"

section \<open>The attribute loop\<close>

text \<open>
  One pass of the loop body: the attributes and the index it leaves, before the loop's own
  increment.
\<close>

definition sgrUnderline :: "int list \<Rightarrow> bool list \<Rightarrow> nat \<Rightarrow> cell_attrs \<Rightarrow> cell_attrs \<times> nat" where
  "sgrUnderline ps cs i a =
     (if i + 1 < length ps \<and> colonAt cs (i + 1) \<and> ps ! (i + 1) \<ge> 0 \<and> ps ! (i + 1) \<le> 5
      then (a\<lparr>c_underlineStyle := underlineStyleOf (ps ! (i + 1)),
              c_underline := ps ! (i + 1) \<noteq> 0\<rparr>, i + 1)
      else (a\<lparr>c_underline := True, c_underlineStyle := USingle\<rparr>, i))"

definition sgrUnderlineColor ::
  "int list \<Rightarrow> bool list \<Rightarrow> nat \<Rightarrow> grid \<Rightarrow> cell_attrs \<Rightarrow> cell_attrs \<times> nat" where
  "sgrUnderlineColor ps cs i g a =
     (if i + 1 < length ps then
        (if ps ! (i + 1) = 2 then
           (let (c, j) = parseRGBColor ps cs i g in (a\<lparr>c_underlineColor := cellColor c\<rparr>, j))
         else if ps ! (i + 1) = 5 \<and> i + 2 < length ps then
           (let idx = ps ! (i + 2)
            in (if idx \<ge> 0 \<and> idx < 256 then a\<lparr>c_underlineColor := cellColor (palette256 idx)\<rparr> else a,
                i + 2))
         else (a, length ps))
      else (a, i))"

text \<open>38 and 48: \<open>None\<close> is "no colour was read".\<close>

definition sgrExtended :: "int list \<Rightarrow> bool list \<Rightarrow> nat \<Rightarrow> grid \<Rightarrow> qcolor option \<times> nat" where
  "sgrExtended ps cs i g =
     (if i + 1 < length ps then
        (if ps ! (i + 1) = 5 then map_prod Some id (parse256Color ps i g)
         else if ps ! (i + 1) = 2 then map_prod Some id (parseRGBColor ps cs i g)
         else (None, length ps))
      else (None, i))"

definition setFg :: "qcolor option \<Rightarrow> cell_attrs \<Rightarrow> cell_attrs" where
  "setFg c a = (case c of None \<Rightarrow> a | Some q \<Rightarrow> a\<lparr>c_fg := cellColor q\<rparr>)"

definition setBg :: "qcolor option \<Rightarrow> cell_attrs \<Rightarrow> cell_attrs" where
  "setBg c a = (case c of None \<Rightarrow> a | Some q \<Rightarrow> a\<lparr>c_bg := cellColor q\<rparr>)"

definition sgrStep :: "int list \<Rightarrow> bool list \<Rightarrow> grid \<Rightarrow> nat \<Rightarrow> cell_attrs \<Rightarrow> cell_attrs \<times> nat" where
  "sgrStep ps cs g i a =
     (let code = ps ! i in
      if code = 0 then (resetAttrs g, i)
      else if code = 1 then (a\<lparr>c_bold := True\<rparr>, i)
      else if code = 2 then (a\<lparr>c_dim := True\<rparr>, i)
      else if code = 3 then (a\<lparr>c_italic := True\<rparr>, i)
      else if code = 4 then sgrUnderline ps cs i a
      else if code = 7 then (a\<lparr>c_inverse := True\<rparr>, i)
      else if code = 9 then (a\<lparr>c_strikethrough := True\<rparr>, i)
      else if code = 21 then (a\<lparr>c_underline := True, c_underlineStyle := UDouble\<rparr>, i)
      else if code = 22 then (a\<lparr>c_bold := False, c_dim := False\<rparr>, i)
      else if code = 23 then (a\<lparr>c_italic := False\<rparr>, i)
      else if code = 24 then (a\<lparr>c_underline := False, c_underlineStyle := UNone\<rparr>, i)
      else if code = 27 then (a\<lparr>c_inverse := False\<rparr>, i)
      else if code = 29 then (a\<lparr>c_strikethrough := False\<rparr>, i)
      else if code = 58 then sgrUnderlineColor ps cs i g a
      else if code = 59 then (a\<lparr>c_underlineColor := kUnset\<rparr>, i)
      else if 30 \<le> code \<and> code \<le> 37 then (a\<lparr>c_fg := cellColor (palette256 (code - 30))\<rparr>, i)
      else if code = 38 then (let (c, j) = sgrExtended ps cs i g in (setFg c a, j))
      else if code = 39 then (a\<lparr>c_fg := cellColor (m_defaultFg g)\<rparr>, i)
      else if 40 \<le> code \<and> code \<le> 47 then (a\<lparr>c_bg := cellColor (palette256 (code - 40))\<rparr>, i)
      else if code = 48 then (let (c, j) = sgrExtended ps cs i g in (setBg c a, j))
      else if code = 49 then (a\<lparr>c_bg := cellColor (m_defaultBg g)\<rparr>, i)
      else if 90 \<le> code \<and> code \<le> 97 then (a\<lparr>c_fg := cellColor (palette256 (code - 90 + 8))\<rparr>, i)
      else if 100 \<le> code \<and> code \<le> 107 then (a\<lparr>c_bg := cellColor (palette256 (code - 100 + 8))\<rparr>, i)
      else (a, i))"

lemma parse_index: "i < length ps \<Longrightarrow> i \<le> snd (parse256Color ps i g)" "i < length ps \<Longrightarrow> i \<le> snd (parseRGBColor ps cs i g)"
  by (simp_all add: parse256Color_def parseRGBColor_def Let_def)

lemma sgrStep_index: "i < length ps \<Longrightarrow> i \<le> snd (sgrStep ps cs g i a)"
  using parse_index(1) [of i ps g] parse_index(2) [where i = i and ps = ps and cs = cs and g = g]
  by (auto simp: sgrStep_def Let_def sgrUnderline_def sgrUnderlineColor_def sgrExtended_def
      map_prod_def split: prod.splits)

function sgrLoop :: "int list \<Rightarrow> bool list \<Rightarrow> grid \<Rightarrow> nat \<Rightarrow> cell_attrs \<Rightarrow> cell_attrs" where
  "sgrLoop ps cs g i a =
     (if i < length ps
      then (let (b, j) = sgrStep ps cs g i a in sgrLoop ps cs g (j + 1) b)
      else a)"
  by pat_completeness auto
termination
proof (relation "measure (\<lambda>(ps, cs, g, i, a). length ps - i)")
  fix ps :: "int list" and cs :: "bool list" and g :: grid and i j :: nat and a b :: cell_attrs and x
  assume "i < length ps" "x = sgrStep ps cs g i a" "(b, j) = x"
  moreover from this have "snd (sgrStep ps cs g i a) = j" by (metis snd_conv)
  ultimately show "((ps, cs, g, j + 1, b), ps, cs, g, i, a) \<in> measure (\<lambda>(ps, cs, g, i, a). length ps - i)"
    using sgrStep_index [of i ps cs g a] by simp
qed simp

declare sgrLoop.simps [simp del]

definition handleSGR :: "int list \<Rightarrow> bool list \<Rightarrow> grid \<Rightarrow> grid" where
  "handleSGR ps cs g =
     (if ps = [] then g\<lparr>m_currentAttrs := resetAttrs g\<rparr>
      else g\<lparr>m_currentAttrs := sgrLoop ps cs g 0 (m_currentAttrs g)\<rparr>)"

end
