(* ===== verification/GridCsi.thy ===== *)
theory GridCsi
  imports GridAlt GridSgr CppString
begin

text \<open>
  \<open>TerminalGrid::handleCsi\<close> by groups of final bytes, and the throttled query replies. A final
  byte is looked up by its code, as the \<open>switch\<close> of the source does.
\<close>

section \<open>Replies\<close>

definition ESC :: char where "ESC = CHR 0x1B"

definition QUERY_RESP_MAX_PER_SEC :: int where "QUERY_RESP_MAX_PER_SEC = 256"

definition sendQueryResponse :: "env \<Rightarrow> string \<Rightarrow> grid \<Rightarrow> grid" where
  "sendQueryResponse e s g =
     (if \<not> cb_response (m_callbacks g) then g
      else
        (let g = g\<lparr>m_queryRespQuota := roll (e_nowMs e) 1000 (m_queryRespQuota g)\<rparr>
         in if winCount (m_queryRespQuota g) \<ge> QUERY_RESP_MAX_PER_SEC then g
            else emit (Response s)
              (g\<lparr>m_queryRespQuota := (m_queryRespQuota g)
                    \<lparr>winCount := winCount (m_queryRespQuota g) + 1\<rparr>\<rparr>)))"

section \<open>Parameters\<close>

definition csiParamOr :: "int list \<Rightarrow> nat \<Rightarrow> int \<Rightarrow> int" where
  "csiParamOr p ix d = (if ix < length p \<and> p ! ix > 0 then p ! ix else d)"

definition csiFirst :: "int list \<Rightarrow> int" where
  "csiFirst p = (if p = [] then 0 else p ! 0)"

section \<open>Cursor movement\<close>

definition cursorLineStart :: "int \<Rightarrow> grid \<Rightarrow> grid" where
  "cursorLineStart d g = moveCursor d 0 (g\<lparr>m_cursorCol := 0\<rparr>)"

definition csiCha :: "int list \<Rightarrow> grid \<Rightarrow> grid" where
  "csiCha p g = g\<lparr>m_cursorCol := clamp (csiParamOr p 0 1 - 1) 0 (m_cols g - 1)\<rparr>"

definition csiCup :: "int list \<Rightarrow> grid \<Rightarrow> grid" where
  "csiCup p g =
     (let row = csiParamOr p 0 1 - 1;
          col = (if length p > 1 then csiParamOr p 1 1 - 1 else 0);
          row = (if m_originMode g then clamp (row + m_scrollTop g) (m_scrollTop g) (m_scrollBottom g)
                 else row)
      in setCursorPos row col g)"

definition csiVpa :: "int list \<Rightarrow> grid \<Rightarrow> grid" where
  "csiVpa p g =
     (let row = csiParamOr p 0 1 - 1
      in g\<lparr>m_cursorRow :=
            (if m_originMode g then clamp (row + m_scrollTop g) (m_scrollTop g) (m_scrollBottom g)
             else clamp row 0 (m_rows g - 1))\<rparr>)"

definition forwardTab :: "grid \<Rightarrow> grid" where
  "forwardTab g = g\<lparr>m_cursorCol := (case nextTab (m_cursorCol g) g of
     Some c \<Rightarrow> c | None \<Rightarrow> m_cols g - 1)\<rparr>"

definition backTab :: "grid \<Rightarrow> grid" where
  "backTab g = g\<lparr>m_cursorCol := (case prevTab (m_cursorCol g) g of
     Some c \<Rightarrow> c | None \<Rightarrow> 0)\<rparr>"

definition csiTabs :: "(grid \<Rightarrow> grid) \<Rightarrow> int list \<Rightarrow> grid \<Rightarrow> grid" where
  "csiTabs f p g = (f ^^ nat (max 1 (csiParamOr p 0 1))) g"

definition csiCursor :: "nat \<Rightarrow> int list \<Rightarrow> grid \<Rightarrow> grid option" where
  "csiCursor f p g =
     (if f = 65 then Some (moveCursor (- csiParamOr p 0 1) 0 g)
      else if f = 66 then Some (moveCursor (csiParamOr p 0 1) 0 g)
      else if f = 67 then Some (moveCursor 0 (csiParamOr p 0 1) g)
      else if f = 68 then Some (moveCursor 0 (- csiParamOr p 0 1) g)
      else if f = 69 then Some (cursorLineStart (csiParamOr p 0 1) g)
      else if f = 70 then Some (cursorLineStart (- csiParamOr p 0 1) g)
      else if f = 71 \<or> f = 96 then Some (csiCha p g)
      else if f = 72 \<or> f = 102 then Some (csiCup p g)
      else if f = 73 then Some (csiTabs forwardTab p g)
      else if f = 90 then Some (csiTabs backTab p g)
      else if f = 100 then Some (csiVpa p g)
      else if f = 114 then
        Some (setScrollRegion (csiParamOr p 0 1 - 1)
          (if length p > 1 then csiParamOr p 1 (m_rows g) - 1 else m_rows g - 1) g)
      else if f = 115 then Some (saveCursor g)
      else None)"

section \<open>Editing\<close>

definition eraseChars :: "int \<Rightarrow> grid \<Rightarrow> grid" where
  "eraseChars count g =
     (let row = m_cursorRow g; col = m_cursorCol g;
          blank = blankCell (cellColor (m_defaultFg g)) (cellColor (eraseBg g));
          lim = min (m_cols g) (col + count);
          g = markScreenDirty row g;
          g = dropHyperlinkSpans row col lim g
      in updLine row (\<lambda>l. l\<lparr>cells := vmap_range col lim (\<lambda>_. blank) (cells l),
                            combining := eraseCombRange col lim (combining l)\<rparr>) g)"

definition repeatChar :: "env \<Rightarrow> int \<Rightarrow> grid \<Rightarrow> grid" where
  "repeatChar e n g =
     (let src = (if m_wrapNext g then Some (m_cursorCol g)
                 else if m_cursorCol g > 0 then Some (m_cursorCol g - 1) else None)
      in case src of None \<Rightarrow> g
         | Some c \<Rightarrow>
             if m_cursorRow g < 0 \<or> m_cursorRow g \<ge> m_rows g then g
             else if c < 0 \<or> c \<ge> int (length (cells (lineAt g (m_cursorRow g)))) then g
             else
               (let cp = codepoint (vget (cells (lineAt g (m_cursorRow g))) c)
                in if cp = 0 then g
                   else (handlePrint e cp ^^ nat (min n (m_cols g * 2))) g))"

definition csiEdit :: "env \<Rightarrow> nat \<Rightarrow> int list \<Rightarrow> grid \<Rightarrow> grid option" where
  "csiEdit e f p g =
     (if f = 74 then Some (eraseInDisplay e (csiFirst p) g)
      else if f = 75 then Some (eraseInLine (csiFirst p) g)
      else if f = 76 then Some (insertLines (csiParamOr p 0 1) g)
      else if f = 77 then Some (deleteLines (csiParamOr p 0 1) g)
      else if f = 80 then Some (deleteChars (csiParamOr p 0 1) g)
      else if f = 64 then Some (insertBlanks (csiParamOr p 0 1) g)
      else if f = 83 then Some (scrollUp e (csiParamOr p 0 1) g)
      else if f = 84 then Some (scrollDown (csiParamOr p 0 1) g)
      else if f = 98 then Some (repeatChar e (csiParamOr p 0 1) g)
      else if f = 88 then Some (eraseChars (csiParamOr p 0 1) g)
      else None)"

section \<open>Modes\<close>

definition softReset :: "grid \<Rightarrow> grid" where
  "softReset g =
     g\<lparr>m_scrollTop := 0, m_scrollBottom := m_rows g - 1, m_originMode := False, m_autoWrap := True,
       m_cursorVisible := True, m_currentAttrs := resetAttrs g, m_savedRow := 0, m_savedCol := 0,
       m_savedAttrs := resetAttrs g, m_savedOriginMode := False, m_savedAutoWrap := True,
       m_wrapNext := False\<rparr>"

definition setMode :: "bool \<Rightarrow> int \<Rightarrow> grid \<Rightarrow> grid" where
  "setMode on v g =
     (if v = 1 then g\<lparr>m_applicationCursorKeys := on\<rparr>
      else if v = 6 then g\<lparr>m_originMode := on\<rparr>
      else if v = 7 then g\<lparr>m_autoWrap := on\<rparr>
      else if v = 25 then g\<lparr>m_cursorVisible := on\<rparr>
      else if v = 1049 \<or> v = 47 \<or> v = 1047 then (if on then enterAltScreen v g else exitAltScreen g)
      else if v = 1000 then g\<lparr>m_mouseButtonMode := on\<rparr>
      else if v = 1002 then g\<lparr>m_mouseMotionMode := on\<rparr>
      else if v = 1003 then g\<lparr>m_mouseAnyMode := on\<rparr>
      else if v = 1004 then g\<lparr>m_focusReporting := on\<rparr>
      else if v = 1006 then g\<lparr>m_mouseSgrMode := on\<rparr>
      else if v = 2004 then g\<lparr>m_bracketedPaste := on\<rparr>
      else if v = 2026 then g\<lparr>m_synchronizedOutput := on\<rparr>
      else if v = 2031 then g\<lparr>m_colorSchemeNotify := on\<rparr>
      else g)"

definition setModes :: "bool \<Rightarrow> int list \<Rightarrow> grid \<Rightarrow> grid" where
  "setModes on vs g = fold (setMode on) vs g"

definition setCursorShape :: "int \<Rightarrow> grid \<Rightarrow> grid" where
  "setCursorShape n g = (if 0 \<le> n \<and> n \<le> 6 then g\<lparr>m_cursorShape := cursorShapes ! nat n\<rparr> else g)"

definition clearTabs :: "int \<Rightarrow> grid \<Rightarrow> grid" where
  "clearTabs mode g =
     (if mode = 0 then
        (if m_cursorCol g \<ge> 0 \<and> m_cursorCol g < int (length (m_tabStops g))
         then g\<lparr>m_tabStops := vupd (m_cursorCol g) (\<lambda>_. False) (m_tabStops g)\<rparr> else g)
      else if mode = 3 then g\<lparr>m_tabStops := map (\<lambda>_. False) (m_tabStops g)\<rparr>
      else g)"

section \<open>Kitty keyboard protocol\<close>

definition kMaxKittyStack :: nat where "kMaxKittyStack = 256"

definition kittyFlags :: "int list \<Rightarrow> int" where
  "kittyFlags p = csiParamOr p 0 0 AND 0x1F"

definition kittyPush :: "int \<Rightarrow> grid \<Rightarrow> grid" where
  "kittyPush flags g =
     (if length (m_kittyKeyStack g) < kMaxKittyStack
      then g\<lparr>m_kittyKeyStack := m_kittyKeyStack g @ [m_kittyKeyFlags g], m_kittyKeyFlags := flags\<rparr>
      else g)"

definition kittyPop1 :: "grid \<Rightarrow> grid" where
  "kittyPop1 g =
     (if m_kittyKeyStack g = [] then g
      else g\<lparr>m_kittyKeyFlags := last (m_kittyKeyStack g), m_kittyKeyStack := butlast (m_kittyKeyStack g)\<rparr>)"

text \<open>The loop stops early once the stack is empty, where a further pass would change nothing.\<close>

definition kittyPop :: "int \<Rightarrow> grid \<Rightarrow> grid" where
  "kittyPop count g =
     (let g = (kittyPop1 ^^ min (nat count) (length (m_kittyKeyStack g))) g
      in if m_kittyKeyStack g = [] \<and> count > 0 then g\<lparr>m_kittyKeyFlags := 0\<rparr> else g)"

definition kittySet :: "int \<Rightarrow> int \<Rightarrow> grid \<Rightarrow> grid" where
  "kittySet flags mode g =
     (if mode = 1 then g\<lparr>m_kittyKeyFlags := flags\<rparr>
      else if mode = 2 then g\<lparr>m_kittyKeyFlags := m_kittyKeyFlags g OR flags\<rparr>
      else if mode = 3 then g\<lparr>m_kittyKeyFlags := m_kittyKeyFlags g AND NOT flags\<rparr>
      else g)"

definition csiU :: "env \<Rightarrow> string \<Rightarrow> int list \<Rightarrow> grid \<Rightarrow> grid" where
  "csiU e im p g =
     (if im = '''' then restoreCursor g
      else if im = ''>'' then kittyPush (kittyFlags p) g
      else if im = ''<'' then kittyPop (csiParamOr p 0 1) g
      else if im = ''?'' then
        (if cb_response (m_callbacks g)
         then sendQueryResponse e (ESC # ''[?'' @ toString (m_kittyKeyFlags g) @ ''u'') g else g)
      else if im = ''='' then kittySet (kittyFlags p) (csiParamOr p 1 1) g
      else g)"

section \<open>Reports\<close>

definition csiReport :: "env \<Rightarrow> nat \<Rightarrow> string \<Rightarrow> int list \<Rightarrow> grid \<Rightarrow> grid" where
  "csiReport e f im p g =
     (if f = 99 then
        (if im = '''' then
           (if csiFirst p = 0 \<and> cb_response (m_callbacks g)
            then sendQueryResponse e (ESC # ''[?62;22c'') g else g)
         else if im = ''>'' then
           (if csiFirst p = 0 \<and> cb_response (m_callbacks g)
            then sendQueryResponse e (ESC # ''[>41;0;0c'') g else g)
         else g)
      else
        (if im = '''' then
           (if p \<noteq> [] \<and> p ! 0 = 6 \<and> cb_response (m_callbacks g)
            then sendQueryResponse e (ESC # ''['' @ toString (m_cursorRow g + 1) @ '';'' @
                   toString (m_cursorCol g + 1) @ ''R'') g
            else if p \<noteq> [] \<and> p ! 0 = 5 \<and> cb_response (m_callbacks g)
            then sendQueryResponse e (ESC # ''[0n'') g
            else g)
         else if im = ''?'' then
           (if p \<noteq> [] \<and> p ! 0 = 996 \<and> cb_response (m_callbacks g)
            then sendQueryResponse e (ESC # ''[?996;1n'') g else g)
         else g))"

section \<open>Dispatch\<close>

definition csiModes :: "env \<Rightarrow> nat \<Rightarrow> string \<Rightarrow> int list \<Rightarrow> bool list \<Rightarrow> grid \<Rightarrow> grid" where
  "csiModes e f im p cs g =
     (if f = 109 then (if im = '''' then handleSGR p cs g else g)
      else if f = 112 then (if im = ''!'' then softReset g else g)
      else if f = 104 then (if im = ''?'' then setModes True p g else g)
      else if f = 108 then (if im = ''?'' then setModes False p g else g)
      else if f = 99 \<or> f = 110 then csiReport e f im p g
      else if f = 113 then (if im = '' '' then setCursorShape (csiFirst p) g else g)
      else if f = 103 then (if im = '''' then clearTabs (csiFirst p) g else g)
      else if f = 117 then csiU e im p g
      else g)"

definition handleCsi :: "env \<Rightarrow> char \<Rightarrow> int list \<Rightarrow> bool list \<Rightarrow> string \<Rightarrow> bool \<Rightarrow> grid \<Rightarrow> grid" where
  "handleCsi e fc p cs im tr g0 =
     (let g = g0\<lparr>m_wrapNext := False\<rparr>; f = (of_char fc :: nat) in
      if tr then g
      else (case csiCursor f p g of Some h \<Rightarrow> h
            | None \<Rightarrow> (case csiEdit e f p g of Some h \<Rightarrow> h | None \<Rightarrow> csiModes e f im p cs g)))"

end
