(* ===== verification/GridOsc.thy ===== *)
theory GridOsc
  imports GridCsi InlineImage
begin

text \<open>
  \<open>TerminalGrid::handleOsc\<close> and what it dispatches to: window title, colour queries, OSC 8
  links, the OSC 52 clipboard, OSC 133 shell integration with its HMAC check, OSC 1337 images
  and user variables, OSC 9 and 777 notifications and OSC 9;4 progress.
\<close>

section \<open>Messages printed into the grid\<close>

definition asciiText :: "string \<Rightarrow> u32 list" where
  "asciiText s = map (\<lambda>c. of_nat (of_char c)) s"

definition writeInlineError :: "env \<Rightarrow> u32 list \<Rightarrow> grid \<Rightarrow> grid" where
  "writeInlineError e txt g =
     (let saved = m_currentAttrs g;
          g = g\<lparr>m_currentAttrs := saved\<lparr>c_fg := cellColor (qrgb 0xF7 0x76 0x8E)\<rparr>\<rparr>;
          g = fold (handlePrint e) txt g;
          g = g\<lparr>m_currentAttrs := saved\<rparr>
      in newLine e (carriageReturn g))"

text \<open>\<open>[ants: <what> W x H (M MB) exceeds L MB image budget]\<close>, with a multiplication sign.\<close>

definition budgetMessage :: "string \<Rightarrow> int \<Rightarrow> int \<Rightarrow> u64 \<Rightarrow> u32 list" where
  "budgetMessage what w h bytes =
     asciiText (''[ants: '' @ what @ '' '' @ toString w) @ [0xD7] @
     asciiText (toString h @ '' ('' @ toString (uint (bytes div 1048576)) @ '' MB) exceeds '' @
       toString (uint (MAX_IMAGE_BYTES div 1048576)) @ '' MB image budget]'')"

section \<open>Text\<close>

definition stripC1Controls :: "qstring \<Rightarrow> qstring" where
  "stripC1Controls s = filter (\<lambda>u. \<not> (0x80 \<le> u \<and> u \<le> 0x9F)) s"

definition kMaxWindowTitleChars :: nat where "kMaxWindowTitleChars = 1024"

definition isHighSurrogate :: "u16 \<Rightarrow> bool" where
  "isHighSurrogate u \<longleftrightarrow> u AND 0xFC00 = 0xD800"

definition setTitle :: "qstring \<Rightarrow> grid \<Rightarrow> grid" where
  "setTitle title g0 =
     (let g = bumpRevision g0; t = take kMaxWindowTitleChars title
      in g\<lparr>m_windowTitle := (if t \<noteq> [] \<and> isHighSurrogate (last t) then butlast t else t)\<rparr>)"

definition titleChar :: "u16 \<Rightarrow> bool" where
  "titleChar u \<longleftrightarrow> u \<ge> 0x20 \<and> u \<noteq> 0x7F \<and> \<not> (0x80 \<le> u \<and> u \<le> 0x9F)"

definition oscTitle :: "env \<Rightarrow> string \<Rightarrow> grid \<Rightarrow> grid" where
  "oscTitle e body g = setTitle (filter titleChar (e_fromUtf8 e (c_str body))) g"

definition oscColorQuery :: "env \<Rightarrow> string \<Rightarrow> grid \<Rightarrow> grid" where
  "oscColorQuery e num g =
     (let c = (if num = ''11'' then m_defaultBg g else m_defaultFg g)
      in if qvalid c \<and> cb_response (m_callbacks g)
         then sendQueryResponse e
                (ESC # CHR '']'' # num @ '';rgb:'' @ hex4 (qred c * 0x101) @ ''/'' @
                 hex4 (qgreen c * 0x101) @ ''/'' @ hex4 (qblue c * 0x101) @ [ESC, CHR 0x5C]) g
         else g)"

section \<open>OSC 8 links\<close>

definition MAX_OSC8_URI_BYTES :: nat where "MAX_OSC8_URI_BYTES = 2048"
definition kMaxOsc8IdBytes :: nat where "kMaxOsc8IdBytes = 256"

definition dropActiveHyperlink :: "grid \<Rightarrow> grid" where
  "dropActiveHyperlink g =
     g\<lparr>m_hyperlinkActive := False, m_hyperlinkUri := [], m_hyperlinkId := [],
       m_hyperlinkStartRow := 0, m_hyperlinkStartCol := 0\<rparr>"

definition pushSpan :: "int \<Rightarrow> int \<Rightarrow> int \<Rightarrow> grid \<Rightarrow> grid" where
  "pushSpan row sCol eCol g =
     (if row < 0 \<or> row \<ge> m_rows g then g
      else if eCol < sCol then g
      else g\<lparr>m_screenHyperlinks := vupd row
               (\<lambda>spans. spans @ [\<lparr>startCol = sCol, endCol = eCol, uri = m_hyperlinkUri g,
                                  linkId = m_hyperlinkId g\<rparr>]) (m_screenHyperlinks g)\<rparr>)"

definition pushHyperlinkSpansForActive :: "grid \<Rightarrow> grid" where
  "pushHyperlinkSpansForActive g =
     (if \<not> m_hyperlinkActive g \<or> \<not> isAllowedHyperlinkScheme (m_hyperlinkUri g) then g
      else
        (let startRow = m_hyperlinkStartRow g; endRow = m_cursorRow g;
             eCol = (if m_cursorCol g > 0 then m_cursorCol g - 1 else 0)
         in if startRow \<ge> endRow then pushSpan startRow (m_hyperlinkStartCol g) eCol g
            else pushSpan endRow 0 eCol
                   (fold (\<lambda>r. pushSpan r 0 (m_cols g - 1)) [startRow + 1 .. endRow - 1]
                     (pushSpan startRow (m_hyperlinkStartCol g) (m_cols g - 1) g))))"

text \<open>The id of the first parameter that starts with \<open>id=\<close> and has a value, if short enough.\<close>

fun osc8Id :: "string list \<Rightarrow> string" where
  "osc8Id [] = []"
| "osc8Id (t # ts) =
     (if length t > 3 \<and> take 3 t = ''id=''
      then (if length (drop 3 t) \<le> kMaxOsc8IdBytes then drop 3 t else [])
      else osc8Id ts)"

definition handleOsc8 :: "string \<Rightarrow> grid \<Rightarrow> grid" where
  "handleOsc8 rest g =
     (case cut CHR '';'' rest of
        None \<Rightarrow> g
      | Some (ps, u) \<Rightarrow>
          if u = [] then dropActiveHyperlink (pushHyperlinkSpansForActive g)
          else if length u > MAX_OSC8_URI_BYTES \<or> \<not> isAllowedHyperlinkScheme u
          then dropActiveHyperlink g
          else
            (let g = pushHyperlinkSpansForActive g
             in g\<lparr>m_hyperlinkActive := True, m_hyperlinkUri := u, m_hyperlinkStartCol := m_cursorCol g,
                  m_hyperlinkStartRow := m_cursorRow g, m_hyperlinkId := osc8Id (splitOn CHR '':'' ps)\<rparr>))"

section \<open>OSC 52\<close>

definition kMaxClipboardBytes :: int where "kMaxClipboardBytes = 1 * 1024 * 1024"
definition OSC52_MAX_WRITES_PER_MIN :: int where "OSC52_MAX_WRITES_PER_MIN = 32"
definition OSC52_MAX_BYTES_PER_MIN :: int where "OSC52_MAX_BYTES_PER_MIN = 1 * 1024 * 1024"

fun selectionChar :: "string \<Rightarrow> char" where
  "selectionChar [] = CHR ''c''"
| "selectionChar (s # ss) =
     (if s = CHR ''p'' \<or> s = CHR ''s'' then CHR ''p'' else if s = CHR ''c'' then CHR ''c''
      else selectionChar ss)"

definition setOsc52 :: "rate_window \<Rightarrow> grid \<Rightarrow> grid" where
  "setOsc52 w g = g\<lparr>m_quotas := (m_quotas g)\<lparr>osc52 := w\<rparr>\<rparr>"

definition oscClipboard :: "env \<Rightarrow> string \<Rightarrow> grid \<Rightarrow> grid" where
  "oscClipboard e rest g =
     (case cut CHR '';'' rest of
        None \<Rightarrow> g
      | Some (sel, b64) \<Rightarrow>
          if b64 = ''?'' then g
          else if int (length b64) > kMaxClipboardBytes * 4 div 3 + 16 then g
          else
            (let decoded = decodeBase64Strict e b64; n = int (length decoded)
             in if n > kMaxClipboardBytes then g
                else if decoded = [] then g
                else
                  (let w = roll (e_nowMs e) 60000 (osc52 (m_quotas g)); g = setOsc52 w g
                   in if winCount w \<ge> OSC52_MAX_WRITES_PER_MIN then g
                      else if winBytes w + n > OSC52_MAX_BYTES_PER_MIN then g
                      else
                        (let g = setOsc52 (w\<lparr>winCount := winCount w + 1, winBytes := winBytes w + n\<rparr>) g
                         in if cb_clipboard (m_callbacks g)
                            then emit (Clipboard decoded (selectionChar sel)) g else g))))"

section \<open>OSC 133\<close>

definition lowerHex :: "char \<Rightarrow> char" where
  "lowerHex c = (let n = (of_char c :: nat) in if 65 \<le> n \<and> n \<le> 70 then char_of (n + 32) else c)"

definition verifyOsc133Hmac :: "env \<Rightarrow> char \<Rightarrow> string \<Rightarrow> string \<Rightarrow> string \<Rightarrow> grid \<Rightarrow> bool" where
  "verifyOsc133Hmac e marker promptId extra provided g =
     (if m_osc133Key g = [] then True
      else if provided = [] \<or> promptId = [] then False
      else
        (let msg = marker # CHR ''|'' # promptId @
               (if marker = CHR ''D'' \<and> extra \<noteq> [] then CHR ''|'' # extra else []);
             expected = e_hmacHex e (m_osc133Key g) msg
         in length provided = length expected \<and> map lowerHex provided = map lowerHex expected))"

text \<open>The trailing \<open>key=value\<close> parameters; a later one wins.\<close>

definition osc133Param :: "string \<Rightarrow> string \<times> string \<Rightarrow> string \<times> string" where
  "osc133Param p idHmac =
     (case cut CHR ''='' p of
        None \<Rightarrow> idHmac
      | Some (k, v) \<Rightarrow>
          if k = ''aid'' then (v, snd idHmac)
          else if k = ''ahmac'' then (fst idHmac, v) else idHmac)"

definition OSC133_FORGERY_COOLDOWN_MS :: int where "OSC133_FORGERY_COOLDOWN_MS = 5000"
definition MAX_PROMPT_REGIONS :: nat where "MAX_PROMPT_REGIONS = 1000"

definition rejectForgery :: "env \<Rightarrow> grid \<Rightarrow> grid" where
  "rejectForgery e g0 =
     (let g = g0\<lparr>m_osc133ForgeryCount := m_osc133ForgeryCount g0 + 1\<rparr>
      in if cb_osc133Forgery (m_callbacks g) \<and>
            (m_osc133LastForgeryNotifyMs g = 0 \<or>
             e_nowMs e - m_osc133LastForgeryNotifyMs g \<ge> OSC133_FORGERY_COOLDOWN_MS)
         then emit (Forgery (m_osc133ForgeryCount g)) (g\<lparr>m_osc133LastForgeryNotifyMs := e_nowMs e\<rparr>)
         else g)"

text \<open>\<open>m_promptRegions.back()\<close>, when there is one.\<close>

definition updLastRegion :: "(prompt_region \<Rightarrow> prompt_region) \<Rightarrow> grid \<Rightarrow> grid" where
  "updLastRegion f g =
     (if m_promptRegions g = [] then g
      else g\<lparr>m_promptRegions := butlast (m_promptRegions g) @ [f (last (m_promptRegions g))]\<rparr>)"

definition promptStart :: "int \<Rightarrow> grid \<Rightarrow> grid" where
  "promptStart ln g =
     g\<lparr>m_shellIntegState := Some CHR ''A'',
       m_promptRegions := m_promptRegions g @
         [\<lparr>startLine = ln, endLine = ln, hasOutput = False, commandStartMs = 0, commandEndMs = 0,
           folded = False, exitCode = 0, commandStartCol = 0, outputStartLine = -1,
           regionId = m_nextPromptRegionId g\<rparr>],
       m_nextPromptRegionId := m_nextPromptRegionId g + 1\<rparr>"

definition commandStart :: "env \<Rightarrow> int \<Rightarrow> grid \<Rightarrow> grid" where
  "commandStart e ln g =
     updLastRegion (\<lambda>r. r\<lparr>endLine := ln, commandStartMs := e_nowMs e, commandStartCol := m_cursorCol g\<rparr>)
       (g\<lparr>m_shellIntegState := Some CHR ''B''\<rparr>)"

definition outputStart :: "int \<Rightarrow> grid \<Rightarrow> grid" where
  "outputStart ln g =
     (updLastRegion (\<lambda>r. r\<lparr>hasOutput := True, outputStartLine := ln\<rparr>)
       (g\<lparr>m_shellIntegState := Some CHR ''C''\<rparr>))\<lparr>m_commandOutputStart := ln\<rparr>"

definition commandEnd :: "env \<Rightarrow> string \<Rightarrow> grid \<Rightarrow> grid" where
  "commandEnd e codeStr g =
     (let endMs = e_nowMs e;
          duration = (if m_promptRegions g = [] then 0
                      else (let s = commandStartMs (last (m_promptRegions g))
                            in if s > 0 then max 0 (endMs - s) else 0));
          g = updLastRegion (\<lambda>r. r\<lparr>commandEndMs := endMs\<rparr>) (g\<lparr>m_shellIntegState := None\<rparr>);
          code = (if codeStr = [] then 0 else (case stoi codeStr of None \<Rightarrow> 0 | Some n \<Rightarrow> n));
          g = updLastRegion (\<lambda>r. r\<lparr>exitCode := code\<rparr>) (g\<lparr>m_lastExitCode := code\<rparr>)
      in if cb_commandFinished (m_callbacks g) then emit (CommandFinished code duration) g else g)"

definition capRegions :: "grid \<Rightarrow> grid" where
  "capRegions g =
     g\<lparr>m_promptRegions := drop (length (m_promptRegions g) - MAX_PROMPT_REGIONS) (m_promptRegions g)\<rparr>"

definition markPrompt :: "env \<Rightarrow> char \<Rightarrow> string \<Rightarrow> grid \<Rightarrow> grid" where
  "markPrompt e marker codeStr g =
     (let g = (if marker = CHR ''A'' \<and> m_cursorCol g > 0 then newLine e (carriageReturn g) else g);
          g = applyPromptRegionShift g;
          ln = int (length (m_scrollback g)) + m_cursorRow g;
          g = (if marker = CHR ''A'' then promptStart ln g
               else if marker = CHR ''B'' then commandStart e ln g
               else if marker = CHR ''C'' then outputStart ln g
               else commandEnd e codeStr g);
          g = (if cb_promptMarker (m_callbacks g)
               then emit (PromptMarker marker (if marker = CHR ''D'' then m_lastExitCode g else 0)) g
               else g)
      in capRegions g)"

definition oscShell :: "env \<Rightarrow> string \<Rightarrow> grid \<Rightarrow> grid" where
  "oscShell e rest g =
     (let marker = hd rest in
      if marker \<noteq> CHR ''A'' \<and> marker \<noteq> CHR ''B'' \<and> marker \<noteq> CHR ''C'' \<and> marker \<noteq> CHR ''D'' then g
      else
        (let parts = splitOn CHR '';'' rest;
             hasCode = (marker = CHR ''D'' \<and> length parts \<ge> 2);
             codeStr = (if hasCode then parts ! 1 else []);
             (promptId, provided) =
               fold osc133Param (drop (if hasCode then 2 else 1) parts) ([], [])
         in if verifyOsc133Hmac e marker promptId codeStr provided g
            then markPrompt e marker codeStr g
            else rejectForgery e g))"

section \<open>OSC 1337\<close>

definition USERVAR_MAX_WRITES_PER_MIN :: int where "USERVAR_MAX_WRITES_PER_MIN = 64"
definition kMaxUserVarBytes :: nat where "kMaxUserVarBytes = 4096"
definition kMaxUserVarB64 :: nat where "kMaxUserVarB64 = (4096 div 3 + 1) * 4 + 4"

definition setUserVarWindow :: "rate_window \<Rightarrow> grid \<Rightarrow> grid" where
  "setUserVarWindow w g = g\<lparr>m_quotas := (m_quotas g)\<lparr>userVar := w\<rparr>\<rparr>"

definition oscUserVar :: "env \<Rightarrow> string \<Rightarrow> grid \<Rightarrow> grid" where
  "oscUserVar e rest g =
     (case cut CHR ''='' rest of
        None \<Rightarrow> g
      | Some (name, b64) \<Rightarrow>
          if name = [] \<or> length name > 128 then g
          else
            (let w = roll (e_nowMs e) 60000 (userVar (m_quotas g)); g = setUserVarWindow w g
             in if winCount w \<ge> USERVAR_MAX_WRITES_PER_MIN then g
                else
                  (let g = setUserVarWindow (w\<lparr>winCount := winCount w + 1\<rparr>) g;
                       decoded = take kMaxUserVarBytes (e_base64Lenient e (take kMaxUserVarB64 b64))
                   in emit (UserVar (e_fromUtf8 e name) (e_fromUtf8 e decoded)) g)))"

text \<open>An image the grid decodes for itself gets a buffer of its own.\<close>

definition ownImage :: "qimage \<Rightarrow> grid \<Rightarrow> qimage \<times> grid" where
  "ownImage img g =
     (img\<lparr>bufferId := GridBuffer (m_nextBuffer g)\<rparr>, g\<lparr>m_nextBuffer := m_nextBuffer g + 1\<rparr>)"

definition ownOption :: "qimage option \<Rightarrow> grid \<Rightarrow> qimage option \<times> grid" where
  "ownOption img0 g = (case img0 of None \<Rightarrow> (None, g) | Some img \<Rightarrow> map_prod Some id (ownImage img g))"

definition prematch :: "env \<Rightarrow> predecoded_image option \<Rightarrow> string \<Rightarrow> qimage option option" where
  "prematch e pre b64 = (case pre of None \<Rightarrow> None | Some p \<Rightarrow> if matches e p b64 then Some (preImage p) else None)"

text \<open>\<open>parseParam(key)\<close>: -1 when the key is absent or its value is not a number.\<close>

fun afterStr :: "string \<Rightarrow> string \<Rightarrow> string option" where
  "afterStr pat [] = (if pat = [] then Some [] else None)"
| "afterStr pat (c # cs) =
     (if take (length pat) (c # cs) = pat then Some (drop (length pat) (c # cs)) else afterStr pat cs)"

definition imageParam :: "string \<Rightarrow> string \<Rightarrow> int" where
  "imageParam key ps =
     (case afterStr (key @ ''='') ps of
        None \<Rightarrow> -1
      | Some rest \<Rightarrow>
          (let val = (case cut CHR '';'' rest of None \<Rightarrow> rest | Some (v, _) \<Rightarrow> v)
           in case stoi val of None \<Rightarrow> -1 | Some n \<Rightarrow> n))"

definition imageCells :: "string \<Rightarrow> qimage \<Rightarrow> grid \<Rightarrow> int \<times> int" where
  "imageCells ps img g =
     (let w = min (imgWidth img div 8) (m_cols g - m_cursorCol g);
          h = min (imgHeight img div 16) (m_rows g div 2);
          w = (if w < 1 then 1 else w); h = (if h < 1 then 1 else h);
          pw = imageParam ''width'' ps; ph = imageParam ''height'' ps
      in (if pw > 0 then min pw (m_cols g) else w, if ph > 0 then min ph (m_rows g) else h))"

definition handleOscImage :: "env \<Rightarrow> predecoded_image option \<Rightarrow> string \<Rightarrow> grid \<Rightarrow> grid" where
  "handleOscImage e pre payload g =
     (case splitITerm2 payload of
        None \<Rightarrow> g
      | Some (ps, b64) \<Rightarrow>
          if length b64 > kMaxInlineImageB64Bytes then g
          else
            (let (oimg, g) =
               (case prematch e pre b64 of
                  Some i \<Rightarrow> (i, g)
                | None \<Rightarrow> ownOption (decodeBytes e (decodeBase64Strict e b64) None MAX_IMAGE_DIM) g)
             in case oimg of
                  None \<Rightarrow> g
                | Some img \<Rightarrow>
                    if \<not> canFit (m_imageBudget g) (imageByteCost img)
                    then writeInlineError e
                      (budgetMessage ''image'' (imgWidth img) (imgHeight img) (imageByteCost img)) g
                    else
                      (let (w, h) = imageCells ps img g;
                           g = placeInlineImage \<lparr>image = img, imgRow = m_cursorRow g,
                                 imgCol = m_cursorCol g, cellWidth = w, cellHeight = h,
                                 pixelSized = False, origin = ITerm2\<rparr> g
                       in g\<lparr>m_cursorRow := min (m_cursorRow g + h) (m_rows g - 1), m_cursorCol := 0\<rparr>)))"

definition osc1337 :: "env \<Rightarrow> predecoded_image option \<Rightarrow> string \<Rightarrow> grid \<Rightarrow> grid" where
  "osc1337 e pre payload g =
     (if take 11 (drop 5 payload) = ''SetUserVar='' \<and> cb_userVar (m_callbacks g)
      then oscUserVar e (drop 16 payload) g
      else handleOscImage e pre payload g)"

section \<open>OSC 9 and OSC 777\<close>

definition NOTIFY_MAX_PER_MIN :: int where "NOTIFY_MAX_PER_MIN = 10"
definition kMaxNotifyBody :: nat where "kMaxNotifyBody = 1024"
definition kMaxNotifyTitle :: nat where "kMaxNotifyTitle = 256"

definition setNotifyWindow :: "rate_window \<Rightarrow> grid \<Rightarrow> grid" where
  "setNotifyWindow w g = g\<lparr>m_quotas := (m_quotas g)\<lparr>notify := w\<rparr>\<rparr>"

definition takeNotifyQuota :: "env \<Rightarrow> grid \<Rightarrow> bool \<times> grid" where
  "takeNotifyQuota e g =
     (let w = roll (e_nowMs e) 60000 (notify (m_quotas g))
      in if winCount w \<ge> NOTIFY_MAX_PER_MIN then (False, setNotifyWindow w g)
         else (True, setNotifyWindow (w\<lparr>winCount := winCount w + 1\<rparr>) g))"

definition notifyText :: "env \<Rightarrow> nat \<Rightarrow> string \<Rightarrow> qstring" where
  "notifyText e cap s = stripC1Controls (take cap (e_fromUtf8 e s))"

definition oscNotify :: "env \<Rightarrow> string \<Rightarrow> grid \<Rightarrow> grid" where
  "oscNotify e body g =
     (let (ok, g) = takeNotifyQuota e g
      in if ok then emit (Notify [] (notifyText e kMaxNotifyBody (c_str body))) g else g)"

definition osc777 :: "env \<Rightarrow> string \<Rightarrow> grid \<Rightarrow> grid" where
  "osc777 e rest g =
     (if take 7 rest \<noteq> ''notify;'' then g
      else
        (let (ok, g) = takeNotifyQuota e g; body = drop 7 rest
         in if \<not> ok then g
            else (case cut CHR '';'' body of
                    Some (t, b) \<Rightarrow>
                      emit (Notify (notifyText e kMaxNotifyTitle t)
                              (notifyText e kMaxNotifyBody (c_str b))) g
                  | None \<Rightarrow> emit (Notify [] (notifyText e kMaxNotifyBody (c_str body))) g)))"

text \<open>\<open>9;4\<close>, then \<open>;state\<close> and \<open>;percent\<close>; \<open>None\<close> is a payload that does not parse.\<close>

definition progressNumbers :: "string \<Rightarrow> (int \<times> int) option" where
  "progressNumbers rest =
     (if rest = [] then Some (0, 0)
      else (case cut CHR '';'' rest of
              None \<Rightarrow> map_option (\<lambda>s. (s, 0)) (stoi rest)
            | Some (a, b) \<Rightarrow>
                (case stoi a of None \<Rightarrow> None | Some s \<Rightarrow> map_option (\<lambda>p. (s, p)) (stoi b))))"

definition oscProgress :: "string \<Rightarrow> grid \<Rightarrow> grid" where
  "oscProgress rest g =
     (case progressNumbers rest of
        None \<Rightarrow> g
      | Some (st, pc) \<Rightarrow>
          if st < 0 \<or> st > 4 then g
          else
            (let percent = clamp pc 0 100;
                 g = g\<lparr>m_progressState := progressStates ! nat st,
                       m_progressValue := (if st = 0 \<or> st = 3 then 0 else percent)\<rparr>
             in if cb_progress (m_callbacks g)
                then emit (Progress (m_progressState g) (m_progressValue g)) g else g))"

section \<open>Dispatch\<close>

definition isProgress :: "string \<Rightarrow> bool" where
  "isProgress body \<longleftrightarrow> body \<noteq> [] \<and> hd body = CHR ''4'' \<and> (length body = 1 \<or> body ! 1 = CHR '';'')"

definition handleOsc :: "env \<Rightarrow> predecoded_image option \<Rightarrow> string \<Rightarrow> bool \<Rightarrow> grid \<Rightarrow> grid" where
  "handleOsc e pre payload tr g =
     (let semi = cut CHR '';'' payload;
          oscNum = (case semi of None \<Rightarrow> payload | Some (n, _) \<Rightarrow> n);
          body = (case semi of None \<Rightarrow> [] | Some (_, b) \<Rightarrow> b)
      in if payload = [] then g
         else if tr \<and> (oscNum = ''8'' \<or> oscNum = ''52'') then g
         else if (oscNum = ''0'' \<or> oscNum = ''2'') \<and> semi \<noteq> None then oscTitle e body g
         else if (oscNum = ''10'' \<or> oscNum = ''11'' \<or> oscNum = ''12'') \<and> semi \<noteq> None \<and> body = ''?''
         then oscColorQuery e oscNum g
         else if oscNum = ''8'' \<and> semi \<noteq> None then handleOsc8 body g
         else if oscNum = ''52'' \<and> semi \<noteq> None then oscClipboard e body g
         else if oscNum = ''133'' \<and> semi \<noteq> None \<and> body \<noteq> [] then oscShell e body g
         else if take 5 payload = ''1337;'' then osc1337 e pre payload g
         else if oscNum = ''9'' \<and> semi \<noteq> None \<and> isProgress body then oscProgress (drop 2 body) g
         else if oscNum = ''9'' \<and> semi \<noteq> None \<and> cb_notify (m_callbacks g) then oscNotify e body g
         else if oscNum = ''777'' \<and> semi \<noteq> None \<and> cb_notify (m_callbacks g) then osc777 e body g
         else g)"

end
