(* ===== verification/GridDcs.thy ===== *)
theory GridDcs
  imports GridOsc
begin

text \<open>
  \<open>TerminalGrid::handleDcs\<close>: the DECRQSS status replies and the Sixel decoder with its sizing
  pass, its budget checks and its render pass. The payload is read as the list of characters
  still to come, which is what the source's index \<open>i\<close> stands for at the head of each loop.
\<close>

section \<open>DECRQSS\<close>

definition sgrReply :: "cell_attrs \<Rightarrow> string" where
  "sgrReply a =
     ''0'' @ (if c_bold a then '';1'' else []) @ (if c_dim a then '';2'' else []) @
     (if c_italic a then '';3'' else []) @ (if c_underline a then '';4'' else []) @
     (if c_inverse a then '';7'' else []) @ (if c_strikethrough a then '';9'' else []) @ ''m''"

definition ST :: string where "ST = [ESC, CHR 0x5C]"

definition decrqss :: "env \<Rightarrow> string \<Rightarrow> grid \<Rightarrow> grid" where
  "decrqss e req g =
     (if \<not> cb_response (m_callbacks g) then g
      else
        (let reply =
           (if req = ''r'' then
              Some (toString (m_scrollTop g + 1) @ '';'' @ toString (m_scrollBottom g + 1) @ ''r'')
            else if req = ''m'' then Some (sgrReply (m_currentAttrs g))
            else if req = '' q'' then Some (toString (shapeInt (m_cursorShape g)) @ '' q'')
            else None)
         in case reply of
              None \<Rightarrow> sendQueryResponse e (ESC # ''P0$r'' @ ST) g
            | Some r \<Rightarrow> sendQueryResponse e (ESC # ''P1$r'' @ r @ ST) g))"

section \<open>Sixel text\<close>

definition isSixel :: "char \<Rightarrow> bool" where
  "isSixel c \<longleftrightarrow> (let n = (of_char c :: nat) in 63 \<le> n \<and> n \<le> 126)"

text \<open>\<open>count = min(count * 10 + digit, cap)\<close> over the digits at the head.\<close>

definition cappedNumber :: "int \<Rightarrow> string \<Rightarrow> int" where
  "cappedNumber cap s = foldl (\<lambda>v d. min (v * 10 + digitVal d) cap) 0 (takeWhile isDigit s)"

text \<open>
  The parameter list of a raster attribute or a colour definition: up to \<open>n\<close> numbers separated
  by semicolons, and what follows. A separator after the last number is consumed.
\<close>

fun sixelParams :: "int \<Rightarrow> nat \<Rightarrow> int \<Rightarrow> string \<Rightarrow> int list \<times> string" where
  "sixelParams cap 0 acc s = ([], s)"
| "sixelParams cap (Suc n) acc [] = ([acc], [])"
| "sixelParams cap (Suc n) acc (c # cs) =
     (if isDigit c then sixelParams cap (Suc n) (min (acc * 10 + digitVal c) cap) cs
      else if c = CHR '';'' then
        (let (ps, rest) = sixelParams cap n 0 cs in (acc # ps, rest))
      else ([acc], c # cs))"

definition paramAt :: "int list \<Rightarrow> nat \<Rightarrow> int" where
  "paramAt ps k = (if k < length ps then ps ! k else 0)"

lemma sixelParams_length: "length (snd (sixelParams cap n acc s)) \<le> length s"
  by (induction cap n acc s rule: sixelParams.induct) (auto split: prod.splits)

lemma dropWhile_Cons_length: "dropWhile P xs = d # ds \<Longrightarrow> length ds < Suc (length xs)"
  using length_dropWhile_le [of P xs] by simp

lemma dropWhile_length: "length (dropWhile P xs) < Suc (length xs)"
  by (simp add: length_dropWhile_le less_Suc_eq_le)

lemma sixelParams_rest: "(ps, rest) = sixelParams cap n acc s \<Longrightarrow> length rest \<le> length s"
  using sixelParams_length [of cap n acc s] by (metis snd_conv)

section \<open>The raster header\<close>

text \<open>
  The declared numbers read without the clamp: \<open>None\<close> when one passes the dimension cap, with
  the numbers read before it.
\<close>

fun rasterRaw :: "nat \<Rightarrow> int \<Rightarrow> int list \<Rightarrow> string \<Rightarrow> bool \<times> int list" where
  "rasterRaw 0 acc done s = (False, done)"
| "rasterRaw (Suc n) acc done [] = (False, done @ [acc])"
| "rasterRaw (Suc n) acc done (c # cs) =
     (if isDigit c then
        (if acc * 10 + digitVal c > MAX_IMAGE_DIM then (True, done @ [acc])
         else rasterRaw (Suc n) (acc * 10 + digitVal c) done cs)
      else if c = CHR '';'' then rasterRaw n 0 (done @ [acc]) cs
      else (False, done @ [acc]))"

section \<open>The sizing pass\<close>

text \<open>
  The source keeps \<open>x\<close> in an \<open>int\<close>. Repeat counts are capped at \<open>MAX_IMAGE_DIM\<close> but their sum is not:
  a payload of more than half a million groups overflows it, which is undefined there; the
  integer here does not wrap.
\<close>

record sixel_size =
  sx :: int
  sy :: int
  sMaxX :: int
  sHeight :: int

function sixelSize :: "string \<Rightarrow> sixel_size \<Rightarrow> sixel_size" where
  "sixelSize s z =
     (case s of
        [] \<Rightarrow> z
      | c # cs \<Rightarrow>
          (if isSixel c then
             sixelSize cs (z\<lparr>sx := sx z + 1, sMaxX := max (sMaxX z) (sx z + 1)\<rparr>)
           else if c = CHR ''$'' then sixelSize cs (z\<lparr>sx := 0\<rparr>)
           else if c = CHR ''-'' then sixelSize cs (z\<lparr>sx := 0, sy := sy z + 6\<rparr>)
           else if c = CHR ''!'' then
             (let n = cappedNumber MAX_IMAGE_DIM cs
              in case dropWhile isDigit cs of
                   [] \<Rightarrow> z
                 | d # ds \<Rightarrow>
                     sixelSize ds (if isSixel d
                       then z\<lparr>sx := sx z + n, sMaxX := max (sMaxX z) (sx z + n)\<rparr> else z))
           else if c = CHR ''#'' then
             sixelSize (dropWhile (\<lambda>d. isDigit d \<or> d = CHR '';'') cs) z
           else if c = CHR 0x22 then
             (let (ps, rest) = sixelParams MAX_IMAGE_DIM 4 0 cs;
                  z = (if paramAt ps 2 > 0 then z\<lparr>sMaxX := paramAt ps 2\<rparr> else z);
                  z = (if paramAt ps 3 > 0 then z\<lparr>sy := 0, sHeight := paramAt ps 3\<rparr> else z)
              in sixelSize rest z)
           else sixelSize cs z))"
  by pat_completeness auto
termination
  by (relation "measure (\<lambda>(s, z). length s)")
    (auto dest: dropWhile_Cons_length sixelParams_rest simp: dropWhile_length)

declare sixelSize.simps [simp del]

definition sixelDims :: "string \<Rightarrow> int \<times> int" where
  "sixelDims s =
     (let z = sixelSize s \<lparr>sx = 0, sy = 0, sMaxX = 0, sHeight = 0\<rparr>
      in (sMaxX z, if sHeight z = 0 then sy z + 6 else sHeight z))"

section \<open>The render pass\<close>

record sixel_pen =
  px :: int
  py :: int
  penColor :: nat
  palette :: "qcolor list"
  columnSteps :: int
  pixels :: "int \<Rightarrow> int \<Rightarrow> u32"

definition sixelPalette :: "qcolor list" where
  "sixelPalette = palette16 @ replicate 240 (qrgb 0 0 0)"

definition penRgba :: "sixel_pen \<Rightarrow> u32" where
  "penRgba p = (case palette p ! penColor p of QInvalid \<Rightarrow> 0 | QRgba v \<Rightarrow> v)"

text \<open>The set bits of one sixel, drawn on the columns from \<open>px\<close> up to the image's edge.\<close>

definition drawSixel :: "int \<Rightarrow> int \<Rightarrow> nat \<Rightarrow> int \<Rightarrow> sixel_pen \<Rightarrow> sixel_pen" where
  "drawSixel w h bits n p =
     p\<lparr>pixels := (\<lambda>x y.
        if px p \<le> x \<and> x < min (px p + n) w \<and> py p \<le> y \<and> y < py p + 6 \<and> y < h \<and>
           bit bits (nat (y - py p))
        then penRgba p else pixels p x y)\<rparr>"

definition sixelBits :: "char \<Rightarrow> nat" where
  "sixelBits c = of_char c - 63"

definition defineColor :: "nat \<Rightarrow> int list \<Rightarrow> sixel_pen \<Rightarrow> sixel_pen" where
  "defineColor idx ps p =
     (if paramAt ps 0 = 2
      then p\<lparr>palette := (palette p)[idx := qrgb (clamp (paramAt ps 1 * 255 div 100) 0 255)
               (clamp (paramAt ps 2 * 255 div 100) 0 255)
               (clamp (paramAt ps 3 * 255 div 100) 0 255)]\<rparr>
      else p)"

text \<open>\<open>None\<close> is the work budget running out.\<close>

function sixelRender :: "int \<Rightarrow> int \<Rightarrow> int \<Rightarrow> string \<Rightarrow> sixel_pen \<Rightarrow> sixel_pen option" where
  "sixelRender w h maxSteps s p =
     (case s of
        [] \<Rightarrow> Some p
      | c # cs \<Rightarrow>
          (if isSixel c then
             (let q = (drawSixel w h (sixelBits c) 1 p)
                        \<lparr>px := px p + 1, columnSteps := columnSteps p + 1\<rparr>
              in if columnSteps q > maxSteps then None else sixelRender w h maxSteps cs q)
           else if c = CHR ''$'' then sixelRender w h maxSteps cs (p\<lparr>px := 0\<rparr>)
           else if c = CHR ''-'' then sixelRender w h maxSteps cs (p\<lparr>px := 0, py := py p + 6\<rparr>)
           else if c = CHR ''!'' then
             (let n = cappedNumber MAX_IMAGE_DIM cs
              in case dropWhile isDigit cs of
                   [] \<Rightarrow> Some p
                 | d # ds \<Rightarrow>
                     if isSixel d then
                       (if columnSteps p + n > maxSteps then None
                        else sixelRender w h maxSteps ds
                               ((drawSixel w h (sixelBits d) n p)
                                  \<lparr>px := px p + n, columnSteps := columnSteps p + n\<rparr>))
                     else sixelRender w h maxSteps ds p)
           else if c = CHR ''#'' then
             (let idx = nat (cappedNumber 255 cs)
              in case dropWhile isDigit cs of
                   [] \<Rightarrow> Some (p\<lparr>penColor := idx\<rparr>)
                 | d # ds \<Rightarrow>
                     if d = CHR '';'' then
                       (let (ps, rest) = sixelParams 100 5 0 ds
                        in sixelRender w h maxSteps rest ((defineColor idx ps p)\<lparr>penColor := idx\<rparr>))
                     else sixelRender w h maxSteps ds (p\<lparr>penColor := idx\<rparr>))
           else sixelRender w h maxSteps cs p))"
  by pat_completeness auto
termination
  by (relation "measure (\<lambda>(w, h, m, s, p). length s)")
    (auto dest!: dropWhile_Cons_length sixelParams_rest)

declare sixelRender.simps [simp del]

text \<open>
  After a colour selected without a definition the source's index is left on the next
  character, which its loop then steps over: the \<open>d # ds\<close> branch above drops \<open>d\<close>.
\<close>

definition kSixelColumnCeiling :: int where "kSixelColumnCeiling = 128 * 1024 * 1024"

definition maxColumnSteps :: "int \<Rightarrow> int \<Rightarrow> int" where
  "maxColumnSteps w h = min (w * ((h + 5) div 6) * 256) kSixelColumnCeiling"

section \<open>Placing a Sixel\<close>

definition dimMessage :: "int \<Rightarrow> int \<Rightarrow> u32 list" where
  "dimMessage w h =
     asciiText (''[ants: sixel declared '' @ toString w) @ [0xD7] @
     asciiText (toString h @ '' exceeds '' @ toString MAX_IMAGE_DIM @ '' dim cap]'')"

definition workMessage :: "u32 list" where
  "workMessage = asciiText ''[ants: sixel decode exceeded its work budget]''"

definition sixelCost :: "int \<Rightarrow> int \<Rightarrow> u64" where
  "sixelCost w h = word_of_int (w * h * 4)"

definition sixelImage :: "int \<Rightarrow> int \<Rightarrow> (int \<Rightarrow> int \<Rightarrow> u32) \<Rightarrow> qimage" where
  "sixelImage w h f =
     \<lparr>bufferId = GridBuffer 0, imgWidth = w, imgHeight = h, imgBytes = w * h * 4, imgPixel = f\<rparr>"

definition sixelPen0 :: sixel_pen where
  "sixelPen0 = \<lparr>px = 0, py = 0, penColor = 0, palette = sixelPalette, columnSteps = 0,
     pixels = (\<lambda>_ _. 0)\<rparr>"

definition placeSixel :: "env \<Rightarrow> string \<Rightarrow> grid \<Rightarrow> grid" where
  "placeSixel e body g =
     (let (w, h) = sixelDims body in
      if w \<le> 0 \<or> h \<le> 0 \<or> w > MAX_IMAGE_DIM \<or> h > MAX_IMAGE_DIM then g
      else if \<not> canFit (m_imageBudget g) (sixelCost w h)
      then writeInlineError e (budgetMessage ''sixel'' w h (sixelCost w h)) g
      else
        (case sixelRender w h (maxColumnSteps w h) body sixelPen0 of
           None \<Rightarrow> writeInlineError e workMessage g
         | Some p \<Rightarrow>
             (let (img, g) = ownImage (sixelImage w h (pixels p)) g
              in placeInlineImage \<lparr>image = img, imgRow = m_cursorRow g, imgCol = m_cursorCol g,
                   cellWidth = w, cellHeight = h, pixelSized = True, origin = Sixel\<rparr> g)))"

text \<open>The check of the declared dimensions, before the passes; \<open>None\<close> lets the decode go on.\<close>

definition rasterRefusal :: "string \<Rightarrow> grid \<Rightarrow> u32 list option" where
  "rasterRefusal body g =
     (if body \<noteq> [] \<and> hd body = CHR 0x22 then
        (let (overflow, raw) = rasterRaw 4 0 [] (tl body);
             w = paramAt raw 2; h = paramAt raw 3
         in if overflow \<or> w > MAX_IMAGE_DIM \<or> h > MAX_IMAGE_DIM then Some (dimMessage w h)
            else if w > 0 \<and> h > 0 \<and> \<not> canFit (m_imageBudget g) (sixelCost w h)
            then Some (budgetMessage ''sixel'' w h (sixelCost w h))
            else None)
      else None)"

definition kMaxSixelBytes :: nat where "kMaxSixelBytes = 4 * 1024 * 1024"

definition handleDcs :: "env \<Rightarrow> string \<Rightarrow> bool \<Rightarrow> grid \<Rightarrow> grid" where
  "handleDcs e payload tr g =
     (if payload = [] then g
      else if tr then g
      else if length payload > kMaxSixelBytes then g
      else if length payload \<ge> 2 \<and> payload ! 0 = CHR ''$'' \<and> payload ! 1 = CHR ''q''
      then decrqss e (drop 2 payload) g
      else (case cut CHR ''q'' payload of
              None \<Rightarrow> g
            | Some (_, body) \<Rightarrow>
                (case rasterRefusal body g of
                   Some msg \<Rightarrow> writeInlineError e msg g
                 | None \<Rightarrow> placeSixel e body g)))"

end
