(* ===== verification/GridApc.thy ===== *)
theory GridApc
  imports GridDcs
begin

text \<open>
  \<open>TerminalGrid::handleApc\<close>: the Kitty graphics protocol, with its chunked transfers, its image
  cache and its placements. A frame's keys are parsed into an association list, as
  \<open>inlineimage::KittyKeys\<close> is; \<open>params['x'][0]\<close> of an empty value is NUL.
\<close>

section \<open>Keys\<close>

definition safeStoi :: "string \<Rightarrow> int \<Rightarrow> int" where
  "safeStoi s d = (case stoi s of None \<Rightarrow> d | Some n \<Rightarrow> n)"

definition safeStoul :: "string \<Rightarrow> u32 \<Rightarrow> u32" where
  "safeStoul s d = (case stoul32 s of None \<Rightarrow> d | Some n \<Rightarrow> n)"

definition hasKey :: "kitty_keys \<Rightarrow> char \<Rightarrow> bool" where
  "hasKey m k \<longleftrightarrow> map_of m k \<noteq> None"

definition keyChar :: "kitty_keys \<Rightarrow> char \<Rightarrow> char \<Rightarrow> char" where
  "keyChar m k d = (case map_of m k of None \<Rightarrow> d | Some v \<Rightarrow> (case v of [] \<Rightarrow> CHR 0x00 | c # _ \<Rightarrow> c))"

definition keyInt :: "kitty_keys \<Rightarrow> char \<Rightarrow> int \<Rightarrow> int" where
  "keyInt m k d = (case map_of m k of None \<Rightarrow> d | Some v \<Rightarrow> safeStoi v d)"

definition keyId :: "kitty_keys \<Rightarrow> u32" where
  "keyId m = (case map_of m CHR ''i'' of None \<Rightarrow> 0 | Some v \<Rightarrow> safeStoul v 0)"

definition kittyReply :: "env \<Rightarrow> u32 \<Rightarrow> string \<Rightarrow> grid \<Rightarrow> grid" where
  "kittyReply e i msg g =
     (if cb_response (m_callbacks g)
      then sendQueryResponse e (ESC # ''_Gi='' @ toString (uint i) @ '';'' @ msg @ ST) g else g)"

section \<open>Chunked transfers\<close>

definition stageChunk :: "kitty_keys \<Rightarrow> u32 \<Rightarrow> string \<Rightarrow> grid \<Rightarrow> grid" where
  "stageChunk keys i body g =
     (let g = (if m_kittyChunkBuffer g = [] then g\<lparr>m_kittyChunkId := i\<rparr> else g);
          g = (if m_kittyChunkParams g = [] then g\<lparr>m_kittyChunkParams := keyErase CHR ''m'' keys\<rparr> else g)
      in if length (m_kittyChunkBuffer g) + length body > kMaxKittyChunkBytes then resetKittyChunk g
         else g\<lparr>m_kittyChunkBuffer := m_kittyChunkBuffer g @ body\<rparr>)"

section \<open>The image cache\<close>

definition kittyErase :: "u32 \<Rightarrow> grid \<Rightarrow> grid" where
  "kittyErase i g = g\<lparr>m_kittyImages := filter (\<lambda>kv. fst kv \<noteq> i) (m_kittyImages g)\<rparr>"

definition releaseCached :: "u32 \<Rightarrow> grid \<Rightarrow> grid" where
  "releaseCached i g =
     (case map_of (m_kittyImages g) i of None \<Rightarrow> g | Some img \<Rightarrow> budgetRelease (imageByteCost img) g)"

definition kittyDelete :: "kitty_keys \<Rightarrow> u32 \<Rightarrow> grid \<Rightarrow> grid" where
  "kittyDelete keys i g =
     (let t = keyChar keys CHR ''d'' CHR ''a'' in
      if t = CHR ''a'' then
        recomputeImageBudget
          (g\<lparr>m_kittyImages := [], m_kittyImageOrder := [],
             m_inlineImages := filter (\<lambda>im. origin im \<noteq> Kitty) (m_inlineImages g)\<rparr>)
      else if t = CHR ''i'' \<and> i > 0 then
        (if map_of (m_kittyImages g) i = None then g
         else (let g = kittyErase i (releaseCached i g)
               in g\<lparr>m_kittyImageOrder := remove1 i (m_kittyImageOrder g)\<rparr>))
      else g)"

text \<open>The eviction loop: the oldest ids go until the cache is below its cap.\<close>

fun evictKitty :: "u32 list \<Rightarrow> grid \<Rightarrow> grid" where
  "evictKitty [] g = g\<lparr>m_kittyImageOrder := []\<rparr>"
| "evictKitty (oldest # order) g =
     (if length (m_kittyImages g) \<ge> MAX_KITTY_CACHE
      then evictKitty order (kittyErase oldest (releaseCached oldest g))
      else g\<lparr>m_kittyImageOrder := oldest # order\<rparr>)"

definition storeKitty :: "u32 \<Rightarrow> qimage \<Rightarrow> grid \<Rightarrow> grid" where
  "storeKitty i img g =
     (let g = (if map_of (m_kittyImages g) i = None then g
               else (let g = releaseCached i g
                     in g\<lparr>m_kittyImageOrder := remove1 i (m_kittyImageOrder g)\<rparr>));
          g = evictKitty (m_kittyImageOrder g) g;
          g = budgetAdd (imageByteCost img) g
      in (kittyErase i g)\<lparr>m_kittyImages := (i, img) # m_kittyImages (kittyErase i g),
                          m_kittyImageOrder := m_kittyImageOrder g @ [i]\<rparr>)"

section \<open>Decoding\<close>

definition byteAt :: "string \<Rightarrow> int \<Rightarrow> u32" where
  "byteAt s k = (if 0 \<le> k \<and> k < int (length s) then of_nat (of_char (s ! nat k)) else 0)"

text \<open>A copy of the raw pixels; Qt aligns each line of it to four bytes.\<close>

definition rawImage :: "string \<Rightarrow> int \<Rightarrow> int \<Rightarrow> int \<Rightarrow> qimage" where
  "rawImage d w h bpp =
     \<lparr>bufferId = GridBuffer 0, imgWidth = w, imgHeight = h,
      imgBytes = (w * bpp + 3) div 4 * 4 * h,
      imgPixel = (\<lambda>x y. let k = (y * w + x) * bpp in
        push_bit 24 (if bpp = 4 then byteAt d (k + 3) else 0xFF) OR push_bit 16 (byteAt d k) OR
        push_bit 8 (byteAt d (k + 1)) OR byteAt d (k + 2))\<rparr>"

definition decodeRaw :: "env \<Rightarrow> kitty_keys \<Rightarrow> int \<Rightarrow> string \<Rightarrow> grid \<Rightarrow> qimage option" where
  "decodeRaw e keys fmt full g =
     (let d = decodeBase64Strict e full;
          w = keyInt keys CHR ''s'' 0; h = keyInt keys CHR ''v'' 0; bpp = (if fmt = 32 then 4 else 3)
      in if w > 0 \<and> h > 0 \<and> w \<le> MAX_IMAGE_DIM \<and> h \<le> MAX_IMAGE_DIM \<and>
            int (length d) \<ge> w * h * bpp \<and> canFit (m_imageBudget g) (word_of_int (w * h * bpp))
         then Some (rawImage d w h bpp) else None)"

definition decodePng :: "env \<Rightarrow> predecoded_image option \<Rightarrow> string \<Rightarrow> grid \<Rightarrow> qimage option \<times> grid" where
  "decodePng e pre full g =
     (let (img0, g) =
        (case prematch e pre full of
           Some i \<Rightarrow> (i, g)
         | None \<Rightarrow> ownOption (decodeBytes e (decodeBase64Strict e full) (Some ''PNG'') MAX_IMAGE_DIM) g)
      in case img0 of
           None \<Rightarrow> (None, g)
         | Some img \<Rightarrow> if canFit (m_imageBudget g) (imageByteCost img) then (Some img, g) else (None, g))"

definition kittyDecode ::
  "env \<Rightarrow> predecoded_image option \<Rightarrow> kitty_keys \<Rightarrow> int \<Rightarrow> string \<Rightarrow> grid \<Rightarrow> qimage option \<times> grid" where
  "kittyDecode e pre keys fmt full g =
     (if full = [] \<or> length full > kMaxKittyB64Bytes then (None, g)
      else if fmt = 100 then decodePng e pre full g
      else if fmt = 32 \<or> fmt = 24 then ownOption (decodeRaw e keys fmt full g) g
      else (None, g))"

section \<open>Display\<close>

definition kittyPlacement :: "kitty_keys \<Rightarrow> qimage \<Rightarrow> grid \<Rightarrow> inline_image" where
  "kittyPlacement keys img g =
     \<lparr>image = img, imgRow = m_cursorRow g, imgCol = m_cursorCol g,
      cellWidth = (if hasKey keys CHR ''c'' then clamp (keyInt keys CHR ''c'' 0) 0 MAX_IMAGE_DIM
                   else imgWidth img),
      cellHeight = (if hasKey keys CHR ''r'' then clamp (keyInt keys CHR ''r'' 0) 0 MAX_IMAGE_DIM
                    else imgHeight img),
      pixelSized = (\<not> hasKey keys CHR ''c'' \<and> \<not> hasKey keys CHR ''r''), origin = Kitty\<rparr>"

definition kittyDisplay :: "kitty_keys \<Rightarrow> char \<Rightarrow> u32 \<Rightarrow> qimage option \<Rightarrow> grid \<Rightarrow> grid" where
  "kittyDisplay keys action i img0 g =
     (let shown = (if action = CHR ''p'' \<and> i > 0 \<and> map_of (m_kittyImages g) i \<noteq> None
                   then map_of (m_kittyImages g) i else img0)
      in case shown of None \<Rightarrow> g | Some img \<Rightarrow> placeInlineImage (kittyPlacement keys img g) g)"

section \<open>The handler\<close>

text \<open>What a complete frame does, once its chunks are joined.\<close>

definition kittyFrame ::
  "env \<Rightarrow> predecoded_image option \<Rightarrow> kitty_keys \<Rightarrow> u32 \<Rightarrow> string \<Rightarrow> grid \<Rightarrow> grid" where
  "kittyFrame e pre keys i full g =
     (let action = keyChar keys CHR ''a'' CHR ''T'' in
      if action = CHR ''d'' then kittyReply e i ''OK'' (kittyDelete keys i g)
      else if action = CHR ''q'' then kittyReply e i ''OK'' g
      else
        (let (img0, g) = kittyDecode e pre keys (keyInt keys CHR ''f'' 32) full g in
         if img0 = None \<and> action \<noteq> CHR ''p'' then kittyReply e i ''ENODATA'' g
         else
           (let g = (case img0 of None \<Rightarrow> g | Some img \<Rightarrow> if i > 0 then storeKitty i img g else g);
                g = (if action = CHR ''T'' \<or> action = CHR ''p'' then kittyDisplay keys action i img0 g
                     else g)
            in kittyReply e i ''OK'' g)))"

definition handleApc :: "env \<Rightarrow> predecoded_image option \<Rightarrow> string \<Rightarrow> bool \<Rightarrow> grid \<Rightarrow> grid" where
  "handleApc e pre payload tr g =
     (if payload = [] \<or> hd payload \<noteq> CHR ''G'' then g
      else if tr then g
      else
        (let body = apcData payload;
             keys = mergeContinuationKeys (parseKittyKeys (apcKeys payload)) (m_kittyChunkParams g);
             i = keyId keys
         in if keyInt keys CHR ''m'' 0 = 1 then stageChunk keys i body g
            else if length (m_kittyChunkBuffer g) + length body > kMaxKittyChunkBytes
            then resetKittyChunk g
            else
              (let full = m_kittyChunkBuffer g @ body;
                   i = (if i = 0 \<and> m_kittyChunkId g \<noteq> 0 then m_kittyChunkId g else i)
               in kittyFrame e pre keys i full (resetKittyChunk g))))"

end
