(* ===== verification/GridResize.thy ===== *)
theory GridResize
  imports GridApc
begin

text \<open>
  \<open>TerminalGrid::resize\<close>: soft-wrapped rows are joined into logical lines and wrapped again at
  the new width, in the scrollback, on the live screen and on the saved one; rows that no
  longer fit go to scrollback, and everything that holds a row or a column is brought back
  into range.
\<close>

section \<open>Logical lines\<close>

record logical_line =
  l_cells :: "cell list"
  l_combining :: combining_map

definition logical0 :: logical_line where
  "logical0 = \<lparr>l_cells = [], l_combining = []\<rparr>"

definition isSpaceCell :: "cell \<Rightarrow> bool" where
  "isSpaceCell c \<longleftrightarrow> codepoint c = 0x20"

definition contentWidth :: "term_line \<Rightarrow> nat" where
  "contentWidth l = keepLen isSpaceCell (cells l)"

definition joinLine :: "term_line \<Rightarrow> logical_line \<Rightarrow> logical_line" where
  "joinLine l cur =
     (let len = (if softWrapped l then length (cells l) else contentWidth l);
          before = int (length (l_cells cur))
      in cur\<lparr>l_cells := l_cells cur @ take len (cells l),
             l_combining := fold (\<lambda>kv. combSet (before + fst kv) (snd kv))
               (filter (\<lambda>kv. fst kv < int len) (combining l)) (l_combining cur)\<rparr>)"

fun joinLoop :: "term_line list \<Rightarrow> logical_line \<Rightarrow> logical_line list" where
  "joinLoop [] cur = (if l_cells cur \<noteq> [] \<or> l_combining cur \<noteq> [] then [cur] else [])"
| "joinLoop (l # ls) cur =
     (if softWrapped l then joinLoop ls (joinLine l cur)
      else joinLine l cur # joinLoop ls logical0)"

definition joinLogical :: "term_line list \<Rightarrow> logical_line list" where
  "joinLogical ls = joinLoop ls logical0"

section \<open>Wrapping again\<close>

text \<open>
  The length of the next row: a wide character is not parted from its continuation. For a
  width of at least one column this is at least one, so the loop below advances.
\<close>

definition chunkLen :: "int \<Rightarrow> cell list \<Rightarrow> int" where
  "chunkLen w cs =
     (let chunk = min w (int (length cs))
      in if chunk > 1 \<and> chunk < int (length cs) \<and> isWideChar (vget cs (chunk - 1)) then chunk - 1
         else chunk)"

definition takeComb :: "int \<Rightarrow> int \<Rightarrow> combining_map \<Rightarrow> combining_map" where
  "takeComb pos n m =
     map (\<lambda>(k, v). (k - pos, v)) (filter (\<lambda>kv. fst kv \<ge> pos \<and> fst kv < pos + n) m)"

text \<open>The row from column \<open>pos\<close> of the logical line, of which \<open>cs\<close> is what is left.\<close>

definition wrapRow :: "int \<Rightarrow> cell list \<Rightarrow> int \<Rightarrow> combining_map \<Rightarrow> cell list \<Rightarrow> term_line" where
  "wrapRow n blanks pos m cs =
     line0\<lparr>cells := take (nat n) cs @ drop (nat n) blanks, combining := takeComb pos n m,
           softWrapped := n < int (length cs)\<rparr>"

function rewrapLoop :: "int \<Rightarrow> cell list \<Rightarrow> int \<Rightarrow> combining_map \<Rightarrow> cell list \<Rightarrow> term_line list" where
  "rewrapLoop w blanks pos m cs =
     (let n = chunkLen w cs in
      if cs = [] \<or> n \<le> 0 then []
      else wrapRow n blanks pos m cs # rewrapLoop w blanks (pos + n) m (drop (nat n) cs))"
  by pat_completeness auto
termination by (relation "measure (\<lambda>(w, blanks, pos, m, cs). length cs)") auto

declare rewrapLoop.simps [simp del]

definition rewrap :: "int \<Rightarrow> cell list \<Rightarrow> logical_line \<Rightarrow> term_line list" where
  "rewrap w blanks l =
     (if l_cells l = [] then [lineWith blanks] else rewrapLoop w blanks 0 (l_combining l) (l_cells l))"

definition rewrapAll :: "int \<Rightarrow> cell list \<Rightarrow> term_line list \<Rightarrow> term_line list" where
  "rewrapAll w blanks ls = concat (map (rewrap w blanks) (joinLogical ls))"

section \<open>The scrollback\<close>

definition clipSpansToCols :: "int \<Rightarrow> hyperlink_span list \<Rightarrow> hyperlink_span list" where
  "clipSpansToCols w spans =
     map (\<lambda>s. if endCol s \<ge> w then s\<lparr>endCol := w - 1\<rparr> else s) (filter (\<lambda>s. \<not> startCol s \<ge> w) spans)"

definition inPlaceResize :: "int \<Rightarrow> cell \<Rightarrow> term_line \<Rightarrow> term_line" where
  "inPlaceResize w blank l =
     (let n = int (length (cells l)) in
      if n = w then l
      else if w > n then l\<lparr>cells := cells l @ replicate (nat (w - n)) blank\<rparr>
      else l\<lparr>cells := take (nat w) (cells l),
             combining := filter (\<lambda>kv. \<not> fst kv \<ge> w) (combining l)\<rparr>)"

record reflow =
  rf_lines :: "term_line list"
  rf_links :: "hyperlink_span list list"
  rf_pending :: "term_line list"
  rf_grid :: grid

definition rfPush :: "hyperlink_span list \<Rightarrow> term_line \<Rightarrow> reflow \<Rightarrow> reflow" where
  "rfPush hl l s =
     (let (t, g) = trimmedForScrollback l (rf_grid s)
      in s\<lparr>rf_lines := rf_lines s @ [t], rf_links := rf_links s @ [hl], rf_grid := g\<rparr>)"

definition rowBlanks :: "int \<Rightarrow> grid \<Rightarrow> cell list" where
  "rowBlanks w g = makeRow w (m_defaultFg g) (m_defaultBg g)"

definition flushPending :: "int \<Rightarrow> reflow \<Rightarrow> reflow" where
  "flushPending w s =
     (if rf_pending s = [] then s
      else fold (rfPush []) (rewrapAll w (rowBlanks w (rf_grid s)) (rf_pending s)) (s\<lparr>rf_pending := []\<rparr>))"

definition reflowLine :: "int \<Rightarrow> term_line \<times> hyperlink_span list \<Rightarrow> reflow \<Rightarrow> reflow" where
  "reflowLine w lh s =
     (let (l, hl) = lh in
      if rf_pending s \<noteq> [] \<or> softWrapped l then
        (let s' = s\<lparr>rf_pending := rf_pending s @ [l]\<rparr>
         in if softWrapped l then s' else flushPending w s')
      else if int (contentWidth l) \<le> w then
        rfPush (clipSpansToCols w hl)
          (if int (length (cells l)) > w
           then inPlaceResize w (blankCell (cellColor (m_defaultFg (rf_grid s)))
                                   (cellColor (m_defaultBg (rf_grid s)))) l
           else l) s
      else flushPending w (s\<lparr>rf_pending := rf_pending s @ [l]\<rparr>))"

text \<open>Each scrollback line with its spans, an empty list where the side table is short.\<close>

definition withLinks :: "'a list \<Rightarrow> hyperlink_span list list \<Rightarrow> ('a \<times> hyperlink_span list) list" where
  "withLinks ls hls = zip ls (hls @ replicate (length ls) [])"

definition reflowScrollback :: "int \<Rightarrow> grid \<Rightarrow> grid" where
  "reflowScrollback w g =
     (if w = m_cols g \<or> m_scrollback g = [] then g
      else
        (let s = flushPending w
               (fold (reflowLine w) (withLinks (m_scrollback g) (m_scrollbackHyperlinks g))
                 \<lparr>rf_lines = [], rf_links = [], rf_pending = [], rf_grid = g\<rparr>)
         in trimScrollbackToCap
              ((rf_grid s)\<lparr>m_scrollback := rf_lines s, m_scrollbackHyperlinks := rf_links s,
                          m_scrollbackBytes := sum_list (map cellBytes (rf_lines s))\<rparr>)))"

section \<open>One screen\<close>

definition isBlankLine :: "term_line \<Rightarrow> bool" where
  "isBlankLine l \<longleftrightarrow> list_all (\<lambda>c. codepoint c = 0x20 \<or> codepoint c = 0) (cells l) \<and> combining l = []"

definition pushOverflow :: "term_line \<Rightarrow> grid \<Rightarrow> grid" where
  "pushOverflow l g =
     (if isBlankLine l then g
      else (let g = appendScrollback l g
            in g\<lparr>m_scrollbackHyperlinks := m_scrollbackHyperlinks g @ [[]]\<rparr>))"

text \<open>The rows that stay, and the grid after the overflow went to scrollback.\<close>

definition reflowScreen :: "int \<Rightarrow> int \<Rightarrow> term_line list \<Rightarrow> grid \<Rightarrow> term_line list \<times> grid" where
  "reflowScreen rows w ls g =
     (let blanks = rowBlanks w g;
          reflowed = rewrapAll w blanks ls;
          overflow = nat (max 0 (int (length reflowed) - rows));
          g = fold pushOverflow (take overflow reflowed) g;
          kept = take (nat rows) (drop overflow reflowed)
      in (kept @ replicate (nat rows - length kept) (lineWith blanks), g))"

text \<open>The plain copy when no wrap boundary moves.\<close>

definition copyLine :: "int \<Rightarrow> cell list \<Rightarrow> term_line \<Rightarrow> term_line" where
  "copyLine copyCols blanks l =
     (let n = min (nat copyCols) (length (cells l))
      in line0\<lparr>cells := take n (cells l) @ drop n blanks, softWrapped := softWrapped l,
               combining := filter (\<lambda>kv. fst kv < copyCols) (combining l)\<rparr>)"

definition copyScreen :: "int \<Rightarrow> int \<Rightarrow> int \<Rightarrow> cell list \<Rightarrow> term_line list \<Rightarrow> term_line list" where
  "copyScreen rows copyRows copyCols blanks ls =
     (let kept = map (copyLine copyCols blanks) (take (nat copyRows) ls)
      in kept @ replicate (nat rows - length kept) (lineWith blanks))"

definition lastContentRow :: "term_line list \<Rightarrow> int" where
  "lastContentRow ls =
     int (length (dropWhile (\<lambda>l. list_all isSpaceCell (cells l)) (rev ls))) - 1"

definition resizeLive :: "int \<Rightarrow> int \<Rightarrow> grid \<Rightarrow> grid" where
  "resizeLive rows w g =
     (if w \<noteq> m_cols g \<and> \<not> m_altScreenActive g then
        (let (ls, g) = reflowScreen rows w (m_screenLines g) g;
             lastContent = max 0 (lastContentRow ls)
         in g\<lparr>m_screenLines := ls,
              m_cursorRow := clamp (min (m_cursorRow g) (lastContent + 1)) 0 (rows - 1),
              m_cursorCol := clamp (m_cursorCol g) 0 (w - 1)\<rparr>)
      else g\<lparr>m_screenLines := copyScreen rows (min rows (m_rows g)) (min w (m_cols g)) (rowBlanks w g)
                               (m_screenLines g)\<rparr>)"

definition resizeList :: "nat \<Rightarrow> 'a \<Rightarrow> 'a list \<Rightarrow> 'a list" where
  "resizeList n d xs = take n xs @ replicate (n - length xs) d"

definition resizeSaved :: "int \<Rightarrow> int \<Rightarrow> int \<Rightarrow> grid \<Rightarrow> grid" where
  "resizeSaved rows w oldCols g =
     (if m_altScreen g = [] then g
      else
        (let (ls, g) =
           (if w \<noteq> oldCols then reflowScreen rows w (m_altScreen g) g
            else (copyScreen rows (min rows (int (length (m_altScreen g)))) (min w oldCols)
                    (rowBlanks w g) (m_altScreen g), g))
         in g\<lparr>m_altScreen := ls, m_altCursorRow := clamp (m_altCursorRow g) 0 (rows - 1),
              m_altCursorCol := clamp (m_altCursorCol g) 0 (w - 1),
              m_altScreenHyperlinks := resizeList (nat rows) [] (m_altScreenHyperlinks g)\<rparr>))"

section \<open>Resize\<close>

definition resizeRegions :: "bool \<Rightarrow> bool \<Rightarrow> grid \<Rightarrow> grid" where
  "resizeRegions liveFull savedFull g =
     (let g = (if liveFull then g\<lparr>m_scrollTop := 0, m_scrollBottom := m_rows g - 1\<rparr>
               else (let t = clamp (m_scrollTop g) 0 (m_rows g - 1)
                     in g\<lparr>m_scrollTop := t, m_scrollBottom := clamp (m_scrollBottom g) t (m_rows g - 1)\<rparr>))
      in if savedFull then g\<lparr>m_altScrollTop := 0, m_altScrollBottom := m_rows g - 1\<rparr>
         else (let t = clamp (m_altScrollTop g) 0 (m_rows g - 1)
               in g\<lparr>m_altScrollTop := t,
                    m_altScrollBottom := clamp (m_altScrollBottom g) t (m_rows g - 1)\<rparr>))"

definition resize :: "int \<Rightarrow> int \<Rightarrow> grid \<Rightarrow> grid" where
  "resize rows w g0 =
     (let g = bumpRevision g0 in
      if rows = m_rows g \<and> w = m_cols g then g
      else
        (let g = resetKittyChunk g;
             liveFull = (m_scrollTop g = 0 \<and> m_scrollBottom g = m_rows g - 1);
             savedFull = (m_altScrollTop g = 0 \<and> m_altScrollBottom g = m_rows g - 1);
             oldCols = m_cols g;
             g = resizeSaved rows w oldCols (resizeLive rows w (reflowScrollback w g));
             g = trimScrollbackToCap g;
             g = resizeRegions liveFull savedFull (g\<lparr>m_rows := rows, m_cols := w\<rparr>);
             g = (if w \<noteq> oldCols then g\<lparr>m_freeCellBuffers := []\<rparr> else g);
             g = g\<lparr>m_cursorRow := clamp (m_cursorRow g) 0 (m_rows g - 1),
                   m_cursorCol := clamp (m_cursorCol g) 0 (m_cols g - 1)\<rparr>;
             g = dropActiveHyperlink g;
             g = g\<lparr>m_screenHyperlinks := resizeList (nat (m_rows g)) [] (m_screenHyperlinks g)\<rparr>
         in markAllScreenDirty (initTabStops g)))"

end
