(* ===== verification/GridAction.thy ===== *)
theory GridAction
  imports GridResize
begin

text \<open>
  \<open>TerminalGrid::handleEsc\<close>, with the full reset RIS, and \<open>processAction\<close>, the one door every
  parsed action comes through.
\<close>

section \<open>RIS\<close>

text \<open>
  The callbacks, the OSC 133 key, the per-minute quotas and the configuration survive; so do
  the events already emitted and the numbering of pixel buffers, which are not state of the
  C++ object.
\<close>

definition fullReset :: "env \<Rightarrow> grid \<Rightarrow> grid" where
  "fullReset e old =
     (let g = (TerminalGrid e (m_rows old) (m_cols old))
                \<lparr>m_callbacks := m_callbacks old, m_osc133Key := m_osc133Key old,
                 m_quotas := m_quotas old, m_events := m_events old, m_nextBuffer := m_nextBuffer old\<rparr>
      in setMaxScrollbackMib (m_maxScrollbackMib old)
           (setMaxScrollback (m_maxScrollback old)
             (setDefaultBg (m_defaultBg old) (setDefaultFg (m_defaultFg old) g))))"

definition setTabStop :: "grid \<Rightarrow> grid" where
  "setTabStop g =
     (if m_cursorCol g \<ge> 0 \<and> m_cursorCol g < int (length (m_tabStops g))
      then g\<lparr>m_tabStops := vupd (m_cursorCol g) (\<lambda>_. True) (m_tabStops g)\<rparr> else g)"

definition handleEsc :: "env \<Rightarrow> char \<Rightarrow> string \<Rightarrow> grid \<Rightarrow> grid" where
  "handleEsc e fc im g0 =
     (let g = g0\<lparr>m_wrapNext := False\<rparr>; f = (of_char fc :: nat) in
      if im \<noteq> '''' then g
      else if f = 77 then reverseIndex g
      else if f = 68 then newLine e g
      else if f = 69 then newLine e (carriageReturn g)
      else if f = 55 then saveCursor g
      else if f = 56 then restoreCursor g
      else if f = 72 then setTabStop g
      else if f = 61 then g\<lparr>m_applicationKeypad := True\<rparr>
      else if f = 62 then g\<lparr>m_applicationKeypad := False\<rparr>
      else if f = 99 then fullReset e g
      else g)"

section \<open>Actions\<close>

definition processAction :: "env \<Rightarrow> predecoded_image option \<Rightarrow> vt_action \<Rightarrow> grid \<Rightarrow> grid" where
  "processAction e pre a g0 =
     (let g = bumpRevision g0 in
      case a of
        Print cp \<Rightarrow> handlePrint e cp g
      | PrintRun bs \<Rightarrow> handleAsciiPrintRun e bs g
      | Execute c \<Rightarrow> handleExecute e c g
      | CsiDispatch fc ps cs im tr \<Rightarrow> handleCsi e fc ps cs im tr g
      | EscDispatch fc im \<Rightarrow> handleEsc e fc im g
      | OscEnd payload tr \<Rightarrow> handleOsc e pre payload tr g
      | DcsEnd payload tr \<Rightarrow> handleDcs e payload tr g
      | ApcEnd payload tr \<Rightarrow> handleApc e pre payload tr g)"

end
