(* ===== verification/GridInv.thy ===== *)
theory GridInv
  imports GridAction
begin

text \<open>
  The invariant of \<open>TerminalGrid\<close>. Each conjunct is a predicate over the fields it constrains,
  so an operation that leaves those fields alone keeps it by rewriting; this theory holds the
  invariant, the constructor, and the operations that only move rows to scrollback or evict
  them. \<open>grid_inv\<close> is what holds at every step of every operation, \<open>grid_wf\<close> adds the two
  scrollback caps, which hold between operations.
\<close>

section \<open>Predicates\<close>

definition dims_ok :: "int \<Rightarrow> int \<Rightarrow> bool" where
  "dims_ok r c \<longleftrightarrow> 1 \<le> r \<and> 1 \<le> c"

definition line_ok :: "int \<Rightarrow> term_line \<Rightarrow> bool" where
  "line_ok c l \<longleftrightarrow> int (length (cells l)) = c \<and> comb_ok (combining l)"

definition lines_ok :: "int \<Rightarrow> int \<Rightarrow> term_line list \<Rightarrow> bool" where
  "lines_ok r c ls \<longleftrightarrow> int (length ls) = r \<and> list_all (line_ok c) ls"

definition cursor_ok :: "int \<Rightarrow> int \<Rightarrow> int \<Rightarrow> int \<Rightarrow> bool" where
  "cursor_ok r c y x \<longleftrightarrow> 0 \<le> y \<and> y < r \<and> 0 \<le> x \<and> x < c"

definition region_ok :: "int \<Rightarrow> int \<Rightarrow> int \<Rightarrow> bool" where
  "region_ok r t b \<longleftrightarrow> 0 \<le> t \<and> t \<le> b \<and> b < r"

definition tabs_ok :: "int \<Rightarrow> bool list \<Rightarrow> bool" where
  "tabs_ok c ts \<longleftrightarrow> int (length ts) = c"

definition pool_ok :: "int \<Rightarrow> cell list list \<Rightarrow> bool" where
  "pool_ok c pool \<longleftrightarrow> length pool \<le> kFreePoolCap \<and> list_all (\<lambda>b. int (length b) = c) pool"

definition span_ok :: "hyperlink_span \<Rightarrow> bool" where
  "span_ok s \<longleftrightarrow> 0 \<le> startCol s \<and> startCol s \<le> endCol s \<and> isAllowedHyperlinkScheme (uri s)"

definition links_ok :: "int \<Rightarrow> hyperlink_span list list \<Rightarrow> bool" where
  "links_ok r hl \<longleftrightarrow> int (length hl) = r \<and> list_all (list_all span_ok) hl"

definition active_ok :: "bool \<Rightarrow> string \<Rightarrow> string \<Rightarrow> int \<Rightarrow> bool" where
  "active_ok act u i c \<longleftrightarrow> 0 \<le> c \<and> length i \<le> kMaxOsc8IdBytes \<and>
     (act \<longrightarrow> isAllowedHyperlinkScheme u \<and> length u \<le> MAX_OSC8_URI_BYTES)"

definition hist_ok ::
  "term_line list \<Rightarrow> int \<Rightarrow> hyperlink_span list list \<Rightarrow> int \<Rightarrow> int \<Rightarrow> int \<Rightarrow> bool" where
  "hist_ok sb bytes sbhl maxLines mib shift \<longleftrightarrow>
     bytes = sum_list (map cellBytes sb) \<and> length sbhl = length sb \<and>
     list_all (\<lambda>l. comb_ok (combining l)) sb \<and> list_all (list_all span_ok) sbhl \<and>
     1000 \<le> maxLines \<and> maxLines \<le> 1000000 \<and> 16 \<le> mib \<and> mib \<le> 65536 \<and> 0 \<le> shift"

definition cap_ok :: "term_line list \<Rightarrow> int \<Rightarrow> int \<Rightarrow> int \<Rightarrow> bool" where
  "cap_ok sb bytes maxLines mib \<longleftrightarrow> int (length sb) \<le> maxLines \<and> bytes \<le> mib * 1024 * 1024"

definition flags_ok :: "int \<Rightarrow> bool" where
  "flags_ok n \<longleftrightarrow> 0 \<le> n \<and> n < 32"

definition kitty_ok :: "int \<Rightarrow> int list \<Rightarrow> bool" where
  "kitty_ok n st \<longleftrightarrow> flags_ok n \<and> length st \<le> kMaxKittyStack \<and> list_all flags_ok st"

definition alt_ok ::
  "bool \<Rightarrow> int \<Rightarrow> int \<Rightarrow> term_line list \<Rightarrow> int \<Rightarrow> int \<Rightarrow> hyperlink_span list list \<Rightarrow> bool" where
  "alt_ok act r c ls y x hl \<longleftrightarrow>
     (if act then lines_ok r c ls \<and> cursor_ok r c y x \<and> links_ok r hl else ls = [])"

definition images_ok ::
  "inline_image list \<Rightarrow> inline_image list \<Rightarrow> (u32 \<times> qimage) list \<Rightarrow> u32 list \<Rightarrow> string \<Rightarrow> bool" where
  "images_ok inl alt kit order chunk \<longleftrightarrow>
     length inl \<le> MAX_INLINE_IMAGES \<and> length alt \<le> MAX_INLINE_IMAGES \<and>
     length kit \<le> MAX_KITTY_CACHE \<and> distinct order \<and> distinct (map fst kit) \<and>
     set order = set (map fst kit) \<and> length chunk \<le> kMaxKittyChunkBytes"

definition prompts_ok :: "bool \<Rightarrow> prompt_region list \<Rightarrow> prompt_region list \<Rightarrow> nat \<Rightarrow> bool" where
  "prompts_ok act alt live next \<longleftrightarrow>
     length live \<le> MAX_PROMPT_REGIONS \<and> length alt \<le> MAX_PROMPT_REGIONS \<and>
     sorted_wrt (<) (map regionId (alt @ live)) \<and>
     list_all (\<lambda>r. 1 \<le> regionId r \<and> regionId r < next) (alt @ live) \<and> 1 \<le> next \<and>
     (\<not> act \<longrightarrow> alt = [])"

definition window_ok :: "int \<Rightarrow> int \<Rightarrow> rate_window \<Rightarrow> bool" where
  "window_ok maxCount maxBytes w \<longleftrightarrow>
     0 \<le> winCount w \<and> winCount w \<le> maxCount \<and> 0 \<le> winBytes w \<and> winBytes w \<le> maxBytes"

definition quota_ok :: "minute_quotas \<Rightarrow> rate_window \<Rightarrow> bool" where
  "quota_ok q r \<longleftrightarrow>
     window_ok OSC52_MAX_WRITES_PER_MIN OSC52_MAX_BYTES_PER_MIN (osc52 q) \<and>
     window_ok NOTIFY_MAX_PER_MIN 0 (notify q) \<and> window_ok USERVAR_MAX_WRITES_PER_MIN 0 (userVar q) \<and>
     window_ok QUERY_RESP_MAX_PER_SEC 0 r"

definition misc_ok :: "qstring \<Rightarrow> int \<Rightarrow> bool" where
  "misc_ok title pv \<longleftrightarrow> length title \<le> kMaxWindowTitleChars \<and> 0 \<le> pv \<and> pv \<le> 100"

text \<open>
  The contract of the callbacks: clipboard writes are bounded, non-empty and name a selection,
  notifications are bounded and free of C1 controls, progress is a percentage, a marker is one
  of the four, and only the end of a command carries an exit code.
\<close>

definition noC1 :: "qstring \<Rightarrow> bool" where
  "noC1 s \<longleftrightarrow> list_all (\<lambda>u. \<not> (0x80 \<le> u \<and> u \<le> 0x9F)) s"

fun event_ok :: "event \<Rightarrow> bool" where
  "event_ok (Response s) \<longleftrightarrow> True"
| "event_ok (Clipboard d c) \<longleftrightarrow>
     d \<noteq> [] \<and> int (length d) \<le> kMaxClipboardBytes \<and> (c = CHR ''c'' \<or> c = CHR ''p'')"
| "event_ok Bell \<longleftrightarrow> True"
| "event_ok (Notify t b) \<longleftrightarrow>
     length t \<le> kMaxNotifyTitle \<and> length b \<le> kMaxNotifyBody \<and> noC1 t \<and> noC1 b"
| "event_ok (Progress s v) \<longleftrightarrow> 0 \<le> v \<and> v \<le> 100"
| "event_ok (CommandFinished c d) \<longleftrightarrow> 0 \<le> d"
| "event_ok (UserVar n v) \<longleftrightarrow> True"
| "event_ok (Forgery n) \<longleftrightarrow> True"
| "event_ok (PromptMarker m c) \<longleftrightarrow>
     m \<in> {CHR ''A'', CHR ''B'', CHR ''C'', CHR ''D''} \<and> (m \<noteq> CHR ''D'' \<longrightarrow> c = 0)"

definition events_ok :: "event list \<Rightarrow> bool" where
  "events_ok evs \<longleftrightarrow> list_all event_ok evs"

definition grid_inv :: "grid \<Rightarrow> bool" where
  "grid_inv g \<longleftrightarrow>
     dims_ok (m_rows g) (m_cols g) \<and>
     lines_ok (m_rows g) (m_cols g) (m_screenLines g) \<and>
     cursor_ok (m_rows g) (m_cols g) (m_cursorRow g) (m_cursorCol g) \<and>
     region_ok (m_rows g) (m_scrollTop g) (m_scrollBottom g) \<and>
     region_ok (m_rows g) (m_altScrollTop g) (m_altScrollBottom g) \<and>
     tabs_ok (m_cols g) (m_tabStops g) \<and>
     pool_ok (m_cols g) (m_freeCellBuffers g) \<and>
     links_ok (m_rows g) (m_screenHyperlinks g) \<and>
     active_ok (m_hyperlinkActive g) (m_hyperlinkUri g) (m_hyperlinkId g) (m_hyperlinkStartCol g) \<and>
     hist_ok (m_scrollback g) (m_scrollbackBytes g) (m_scrollbackHyperlinks g) (m_maxScrollback g)
       (m_maxScrollbackMib g) (m_promptRegionShift g) \<and>
     kitty_ok (m_kittyKeyFlags g) (m_kittyKeyStack g) \<and>
     alt_ok (m_altScreenActive g) (m_rows g) (m_cols g) (m_altScreen g) (m_altCursorRow g)
       (m_altCursorCol g) (m_altScreenHyperlinks g) \<and>
     images_ok (m_inlineImages g) (m_altInlineImages g) (m_kittyImages g) (m_kittyImageOrder g)
       (m_kittyChunkBuffer g) \<and>
     prompts_ok (m_altScreenActive g) (m_altPromptRegions g) (m_promptRegions g)
       (m_nextPromptRegionId g) \<and>
     quota_ok (m_quotas g) (m_queryRespQuota g) \<and>
     misc_ok (m_windowTitle g) (m_progressValue g) \<and> events_ok (m_events g)"

definition hist_cap :: "grid \<Rightarrow> bool" where
  "hist_cap g \<longleftrightarrow> cap_ok (m_scrollback g) (m_scrollbackBytes g) (m_maxScrollback g) (m_maxScrollbackMib g)"

definition grid_wf :: "grid \<Rightarrow> bool" where
  "grid_wf g \<longleftrightarrow> grid_inv g \<and> hist_cap g"

lemmas inv_defs = grid_inv_def
lemmas wf_defs = grid_wf_def grid_inv_def hist_cap_def

section \<open>Elementary facts\<close>

lemma line_ok_lineWith [simp]: "line_ok c (lineWith cs) \<longleftrightarrow> int (length cs) = c"
  by (simp add: line_ok_def)

lemma lines_ok_map:
  "lines_ok r c ls \<Longrightarrow> (\<And>l. line_ok c l \<Longrightarrow> line_ok c (f l)) \<Longrightarrow> lines_ok r c (map f ls)"
  by (auto simp: lines_ok_def list_all_iff)

lemma lines_ok_vupd:
  "lines_ok r c ls \<Longrightarrow> (\<And>l. line_ok c l \<Longrightarrow> line_ok c (f l)) \<Longrightarrow> lines_ok r c (vupd i f ls)"
  by (auto simp: lines_ok_def intro: list_all_vupd)

lemma lines_ok_vget: "lines_ok r c ls \<Longrightarrow> 0 \<le> i \<Longrightarrow> i < r \<Longrightarrow> line_ok c (vget ls i)"
  by (auto simp: lines_ok_def intro: list_all_vget)

lemma links_ok_vupd:
  "links_ok r hl \<Longrightarrow> (\<And>x. list_all span_ok x \<Longrightarrow> list_all span_ok (f x)) \<Longrightarrow> links_ok r (vupd i f hl)"
  by (auto simp: links_ok_def intro: list_all_vupd)

lemma links_ok_vget: "links_ok r hl \<Longrightarrow> 0 \<le> i \<Longrightarrow> i < r \<Longrightarrow> list_all span_ok (vget hl i)"
  by (auto simp: links_ok_def intro: list_all_vget)

lemma line_ok_cells: "line_ok c l \<Longrightarrow> length cs = length (cells l) \<Longrightarrow> line_ok c (l\<lparr>cells := cs\<rparr>)"
  by (simp add: line_ok_def)

lemma line_ok_flags [simp]:
  "line_ok c (l\<lparr>dirty := b\<rparr>) = line_ok c l" "line_ok c (l\<lparr>softWrapped := b\<rparr>) = line_ok c l"
  by (simp_all add: line_ok_def)

lemma line_ok_comb: "line_ok c l \<Longrightarrow> comb_ok m \<Longrightarrow> line_ok c (l\<lparr>combining := m\<rparr>)"
  by (simp add: line_ok_def)

lemma fold_keeps: "P s \<Longrightarrow> (\<And>x s. x \<in> set xs \<Longrightarrow> P s \<Longrightarrow> P (f x s)) \<Longrightarrow> P (fold f xs s)"
  by (induction xs arbitrary: s) auto

section \<open>The constructor\<close>

lemma grid_wf_TerminalGrid:
  assumes "1 \<le> rows" "1 \<le> w"
  shows "grid_wf (TerminalGrid e rows w)"
  using assms
  by (simp add: wf_defs TerminalGrid_def grid_members_def initTabStops_def dims_ok_def lines_ok_def
      cursor_ok_def region_ok_def tabs_ok_def pool_ok_def links_ok_def active_ok_def hist_ok_def
      cap_ok_def kitty_ok_def flags_ok_def alt_ok_def images_ok_def prompts_ok_def quota_ok_def
      window_ok_def quotas0_def window0_def misc_ok_def events_ok_def list_all_iff Let_def
      OSC52_MAX_WRITES_PER_MIN_def OSC52_MAX_BYTES_PER_MIN_def NOTIFY_MAX_PER_MIN_def
      USERVAR_MAX_WRITES_PER_MIN_def QUERY_RESP_MAX_PER_SEC_def)

section \<open>Recycled rows\<close>

lemma takeFromPool_Some:
  "takeFromPool w blank bufs = (Some b, rest) \<Longrightarrow> b = replicate (nat w) blank \<and> set rest \<subseteq> set bufs \<and>
   length rest \<le> length bufs"
proof (induction bufs)
  case (Cons buf bufs)
  then show ?case by (auto split: if_splits simp: map_replicate_const)
qed simp

lemma takeFromPool_None:
  "takeFromPool w blank bufs = (None, rest) \<Longrightarrow> rest = []"
  by (induction bufs) (auto split: if_splits)

lemma takeBlankedCellsRow_row:
  "fst (takeBlankedCellsRow g) = makeRow (m_cols g) (m_defaultFg g) (eraseBg g)"
  by (auto simp: takeBlankedCellsRow_def makeRow_blank Let_def split: prod.splits option.splits
      dest!: takeFromPool_Some)

lemma takeBlankedCellsRow_grid:
  "\<exists>pool. set pool \<subseteq> set (m_freeCellBuffers g) \<and> length pool \<le> length (m_freeCellBuffers g) \<and>
     snd (takeBlankedCellsRow g) = g\<lparr>m_freeCellBuffers := pool\<rparr>"
proof -
  let ?blank = "blankCell (cellColor (m_defaultFg g)) (cellColor (eraseBg g))"
  obtain b rest where t: "takeFromPool (m_cols g) ?blank (rev (m_freeCellBuffers g)) = (b, rest)"
    by (cases "takeFromPool (m_cols g) ?blank (rev (m_freeCellBuffers g))")
  then have "set rest \<subseteq> set (m_freeCellBuffers g) \<and> length rest \<le> length (m_freeCellBuffers g)"
    by (cases b) (use takeFromPool_None takeFromPool_Some in fastforce)+
  then show ?thesis
    using t by (intro exI [of _ "rev rest"]) (simp add: takeBlankedCellsRow_def Let_def split: option.split)
qed

lemma pool_ok_subset: "pool_ok c p \<Longrightarrow> set q \<subseteq> set p \<Longrightarrow> length q \<le> length p \<Longrightarrow> pool_ok c q"
  by (auto simp: pool_ok_def list_all_iff)

lemma inv_pool: "grid_inv g \<Longrightarrow> pool_ok (m_cols g) q \<Longrightarrow> grid_inv (g\<lparr>m_freeCellBuffers := q\<rparr>)"
  by (simp add: inv_defs)

lemma inv_takeBlanked: "grid_inv g \<Longrightarrow> grid_inv (snd (takeBlankedCellsRow g))"
  using takeBlankedCellsRow_grid [of g] pool_ok_subset
  by (metis grid_inv_def inv_pool)

lemma inv_returnCellsRow: "grid_inv g \<Longrightarrow> grid_inv (returnCellsRow cs g)"
  by (simp add: returnCellsRow_def inv_defs pool_ok_def)

lemma cap_returnCellsRow [simp]: "hist_cap (returnCellsRow cs g) = hist_cap g"
  by (simp add: returnCellsRow_def hist_cap_def)

section \<open>What only touches the scrollback and the pool\<close>

text \<open>\<open>onlyHist g h\<close>: \<open>h\<close> differs from \<open>g\<close> at most in the scrollback and the row pool.\<close>

definition dropHist :: "grid \<Rightarrow> grid" where
  "dropHist g = g\<lparr>m_freeCellBuffers := [], m_scrollback := [], m_scrollbackBytes := 0,
     m_scrollbackHyperlinks := [], m_scrollbackPushed := 0, m_promptRegionShift := 0\<rparr>"

definition onlyHist :: "grid \<Rightarrow> grid \<Rightarrow> bool" where
  "onlyHist g h \<longleftrightarrow> dropHist h = dropHist g"

lemma dropHist_simps [simp]:
  "dropHist (h\<lparr>m_scrollbackHyperlinks := hl\<rparr>) = dropHist h"
  "dropHist (h\<lparr>m_freeCellBuffers := p\<rparr>) = dropHist h"
  "dropHist (h\<lparr>m_scrollback := s\<rparr>) = dropHist h"
  "dropHist (h\<lparr>m_scrollbackBytes := b\<rparr>) = dropHist h"
  "dropHist (h\<lparr>m_scrollbackPushed := n\<rparr>) = dropHist h"
  "dropHist (h\<lparr>m_promptRegionShift := k\<rparr>) = dropHist h"
  by (simp_all add: dropHist_def)

lemma onlyHist_refl [simp]: "onlyHist g g"
  by (simp add: onlyHist_def)

lemma onlyHist_trans: "onlyHist g h \<Longrightarrow> onlyHist h k \<Longrightarrow> onlyHist g k"
  by (simp add: onlyHist_def)

lemma onlyHist_upd:
  "onlyHist g h \<Longrightarrow> onlyHist g (h\<lparr>m_scrollbackHyperlinks := hl\<rparr>)"
  "onlyHist g h \<Longrightarrow> onlyHist g (h\<lparr>m_freeCellBuffers := p\<rparr>)"
  "onlyHist g h \<Longrightarrow> onlyHist g
     (h\<lparr>m_scrollback := s, m_scrollbackBytes := b, m_scrollbackPushed := n\<rparr>)"
  "onlyHist g h \<Longrightarrow> onlyHist g
     (h\<lparr>m_scrollbackBytes := b, m_scrollback := s, m_promptRegionShift := k, m_scrollbackHyperlinks := hl\<rparr>)"
  by (simp_all add: onlyHist_def)

lemma onlyHist_returnCellsRow: "onlyHist g h \<Longrightarrow> onlyHist g (returnCellsRow cs h)"
  by (simp add: returnCellsRow_def onlyHist_upd)

lemma onlyHist_simps:
  assumes "onlyHist g h"
  shows "m_rows h = m_rows g" "m_cols h = m_cols g" "m_cursorRow h = m_cursorRow g"
    "m_cursorCol h = m_cursorCol g" "m_scrollTop h = m_scrollTop g"
    "m_scrollBottom h = m_scrollBottom g" "m_screenLines h = m_screenLines g"
    "m_screenHyperlinks h = m_screenHyperlinks g" "m_maxScrollback h = m_maxScrollback g"
    "m_maxScrollbackMib h = m_maxScrollbackMib g" "m_defaultBg h = m_defaultBg g" "m_defaultFg h = m_defaultFg g"
    "eraseBg h = eraseBg g" "hlInRange h = hlInRange g" "lineAt h r = lineAt g r"
proof -
  have "f (dropHist h) = f (dropHist g)" for f :: "grid \<Rightarrow> 'b" using assms by (simp add: onlyHist_def)
  note d = this
  show "m_rows h = m_rows g" "m_cols h = m_cols g" "m_cursorRow h = m_cursorRow g"
    "m_cursorCol h = m_cursorCol g" "m_scrollTop h = m_scrollTop g"
    "m_scrollBottom h = m_scrollBottom g" "m_screenLines h = m_screenLines g"
    "m_screenHyperlinks h = m_screenHyperlinks g" "m_maxScrollback h = m_maxScrollback g"
    "m_maxScrollbackMib h = m_maxScrollbackMib g" "m_defaultBg h = m_defaultBg g" "m_defaultFg h = m_defaultFg g"
    "eraseBg h = eraseBg g" "hlInRange h = hlInRange g" "lineAt h r = lineAt g r"
    using d [of m_rows] d [of m_cols] d [of m_cursorRow] d [of m_cursorCol] d [of m_scrollTop]
      d [of m_scrollBottom] d [of m_screenLines] d [of m_screenHyperlinks] d [of m_defaultFg] d [of m_defaultBg] d [of m_maxScrollback] d [of m_maxScrollbackMib]
      d [of eraseBg] d [of hlInRange] d [of "\<lambda>k. lineAt k r"]
    by (simp_all add: dropHist_def eraseBg_def hlInRange_def lineAt_def cong: if_cong)
qed

text \<open>What the invariant says of the scrollback and the pool, and why it is enough for them.\<close>

definition hist_inv :: "grid \<Rightarrow> bool" where
  "hist_inv g \<longleftrightarrow> pool_ok (m_cols g) (m_freeCellBuffers g) \<and>
     hist_ok (m_scrollback g) (m_scrollbackBytes g) (m_scrollbackHyperlinks g) (m_maxScrollback g)
       (m_maxScrollbackMib g) (m_promptRegionShift g)"

lemma inv_hist: "grid_inv g \<Longrightarrow> hist_inv g"
  by (simp add: grid_inv_def hist_inv_def)

lemma dropHist_back:
  "h = (dropHist h)\<lparr>m_freeCellBuffers := m_freeCellBuffers h, m_scrollback := m_scrollback h,
     m_scrollbackBytes := m_scrollbackBytes h, m_scrollbackHyperlinks := m_scrollbackHyperlinks h,
     m_scrollbackPushed := m_scrollbackPushed h, m_promptRegionShift := m_promptRegionShift h\<rparr>"
  by (simp add: dropHist_def)

lemma inv_onlyHist:
  assumes "grid_inv g" "onlyHist g h" "hist_inv h"
  shows "grid_inv h"
proof -
  have m: "m_cols h = m_cols g" "m_maxScrollback h = m_maxScrollback g"
      "m_maxScrollbackMib h = m_maxScrollbackMib g"
    using onlyHist_simps [OF assms(2)] by simp_all
  have "grid_inv ((dropHist g)\<lparr>m_freeCellBuffers := m_freeCellBuffers h, m_scrollback := m_scrollback h,
     m_scrollbackBytes := m_scrollbackBytes h, m_scrollbackHyperlinks := m_scrollbackHyperlinks h,
     m_scrollbackPushed := m_scrollbackPushed h, m_promptRegionShift := m_promptRegionShift h\<rparr>)"
    using assms(1,3) by (simp add: dropHist_def grid_inv_def hist_inv_def m)
  then show ?thesis
    using dropHist_back [of h] assms(2) by (simp only: onlyHist_def)
qed

lemma hist_inv_returnCellsRow: "hist_inv g \<Longrightarrow> hist_inv (returnCellsRow cs g)"
  by (simp add: returnCellsRow_def hist_inv_def pool_ok_def)

section \<open>Into scrollback\<close>

lemma trimmed_grid:
  "snd (trimmedForScrollback l g) = g \<or> snd (trimmedForScrollback l g) = returnCellsRow (cells l) g"
  by (simp add: trimmedForScrollback_def Let_def)

lemma trimmed_combining [simp]: "combining (fst (trimmedForScrollback l g)) = combining l"
  by (simp add: trimmedForScrollback_def line0_def Let_def)

lemma trimmed_wrapped [simp]: "softWrapped (fst (trimmedForScrollback l g)) = softWrapped l"
  by (simp add: trimmedForScrollback_def line0_def Let_def)

lemma inv_trimmed: "grid_inv g \<Longrightarrow> grid_inv (snd (trimmedForScrollback l g))"
  using trimmed_grid [of l g] by (auto simp: inv_returnCellsRow)

lemma trimmed_frame [simp]:
  "m_scrollback (snd (trimmedForScrollback l g)) = m_scrollback g"
  "m_scrollbackBytes (snd (trimmedForScrollback l g)) = m_scrollbackBytes g"
  "m_scrollbackPushed (snd (trimmedForScrollback l g)) = m_scrollbackPushed g"
  "m_scrollbackHyperlinks (snd (trimmedForScrollback l g)) = m_scrollbackHyperlinks g"
  "m_screenLines (snd (trimmedForScrollback l g)) = m_screenLines g"
  "m_screenHyperlinks (snd (trimmedForScrollback l g)) = m_screenHyperlinks g"
  "m_scrollBottom (snd (trimmedForScrollback l g)) = m_scrollBottom g"
  "m_cols (snd (trimmedForScrollback l g)) = m_cols g"
  "m_rows (snd (trimmedForScrollback l g)) = m_rows g"
  using trimmed_grid [of l g] by (auto simp: returnCellsRow_def)

lemma onlyHist_trimmed: "onlyHist g (snd (trimmedForScrollback l g))"
  using trimmed_grid [of l g] by (auto simp: onlyHist_returnCellsRow)

lemma onlyHist_append: "onlyHist g (appendScrollback l g)"
  using onlyHist_trimmed [of g l]
  by (cases "trimmedForScrollback l g") (simp add: appendScrollback_def onlyHist_upd)

lemma hist_ok_push:
  "hist_ok sb bytes sbhl m k n \<Longrightarrow> comb_ok (combining l) \<Longrightarrow> list_all span_ok hl \<Longrightarrow>
   hist_ok (sb @ [l]) (bytes + cellBytes l) (sbhl @ [hl]) m k n"
  by (simp add: hist_ok_def)

text \<open>A row and its spans pushed together keep the two tables in step.\<close>

lemma hist_inv_trimmed: "hist_inv g \<Longrightarrow> hist_inv (snd (trimmedForScrollback l g))"
  using trimmed_grid [of l g] by (auto simp: hist_inv_returnCellsRow)

lemma hist_inv_append:
  assumes "hist_inv g" "comb_ok (combining l)" "list_all span_ok hl"
  shows "hist_inv ((appendScrollback l g)\<lparr>m_scrollbackHyperlinks := m_scrollbackHyperlinks g @ [hl]\<rparr>)"
proof -
  obtain t h where t: "trimmedForScrollback l g = (t, h)" by (cases "trimmedForScrollback l g")
  have h: "hist_inv h" "m_scrollbackHyperlinks h = m_scrollbackHyperlinks g" "combining t = combining l"
    using hist_inv_trimmed [OF assms(1), of l] trimmed_frame(4) [of l g] trimmed_combining [of l g]
    by (simp_all add: t)
  have "hist_ok (m_scrollback h @ [t]) (m_scrollbackBytes h + cellBytes t)
      (m_scrollbackHyperlinks h @ [hl]) (m_maxScrollback h) (m_maxScrollbackMib h) (m_promptRegionShift h)"
    using h(1,3) assms(2,3) by (intro hist_ok_push) (simp_all add: hist_inv_def)
  then show ?thesis using h by (simp add: appendScrollback_def t hist_inv_def)
qed

lemma inv_append:
  "grid_inv g \<Longrightarrow> comb_ok (combining l) \<Longrightarrow> list_all span_ok hl \<Longrightarrow>
   grid_inv ((appendScrollback l g)\<lparr>m_scrollbackHyperlinks := m_scrollbackHyperlinks g @ [hl]\<rparr>)"
  by (rule inv_onlyHist [OF _ onlyHist_upd(1) [OF onlyHist_append] hist_inv_append [OF inv_hist]])

section \<open>Eviction\<close>

lemma hist_ok_pop:
  "hist_ok (l # sb) bytes sbhl m k n \<Longrightarrow> hist_ok sb (bytes - cellBytes l) (tl sbhl) m k (n + 1)"
  by (cases sbhl) (auto simp: hist_ok_def)

lemma hist_inv_evict:
  assumes "hist_inv g" "m_scrollback g = front # rest"
  shows "hist_inv ((returnCellsRow (cells front) g)
     \<lparr>m_scrollbackBytes := m_scrollbackBytes g - cellBytes front, m_scrollback := rest,
       m_promptRegionShift := m_promptRegionShift g + 1,
       m_scrollbackHyperlinks := tl (m_scrollbackHyperlinks g)\<rparr>)"
proof -
  have "hist_ok rest (m_scrollbackBytes g - cellBytes front) (tl (m_scrollbackHyperlinks g))
      (m_maxScrollback g) (m_maxScrollbackMib g) (m_promptRegionShift g + 1)"
    using assms by (intro hist_ok_pop) (simp add: hist_inv_def)
  then show ?thesis using hist_inv_returnCellsRow [OF assms(1), of "cells front"] by (simp add: hist_inv_def)
qed

lemma evictLoop_hist:
  assumes "hist_inv g"
  shows "hist_inv (evictLoop g) \<and> hist_cap (evictLoop g)"
  using assms
proof (induction g rule: evictLoop.induct)
  case (1 g)
  have h: "hist_ok (m_scrollback g) (m_scrollbackBytes g) (m_scrollbackHyperlinks g)
      (m_maxScrollback g) (m_maxScrollbackMib g) (m_promptRegionShift g)"
    using "1.prems" by (simp add: hist_inv_def)
  show ?case
  proof (cases "int (length (m_scrollback g)) > m_maxScrollback g \<or>
      m_scrollbackBytes g > byteCap g \<and> m_scrollback g \<noteq> []")
    case False
    then have "hist_cap g"
      using h by (cases "m_scrollback g = []") (auto simp: hist_cap_def cap_ok_def hist_ok_def byteCap_def)
    then show ?thesis using False "1.prems" by (subst (1 2) evictLoop.simps) simp
  next
    case True
    show ?thesis
    proof (cases "m_scrollback g")
      case Nil
      then show ?thesis using True h by (simp add: hist_ok_def)
    next
      case (Cons front rest)
      then show ?thesis
        using "1.IH" [OF True Cons hist_inv_evict [OF "1.prems" Cons]] True
        by (subst (1 2) evictLoop.simps) simp
    qed
  qed
qed

lemma onlyHist_evictLoop: "onlyHist g (evictLoop g)"
proof (induction g rule: evictLoop.induct)
  case (1 g)
  show ?case
  proof (cases "(int (length (m_scrollback g)) > m_maxScrollback g \<or>
      m_scrollbackBytes g > byteCap g \<and> m_scrollback g \<noteq> []) \<and> m_scrollback g \<noteq> []")
    case False
    then have "evictLoop g = g" by (subst evictLoop.simps) (auto split: list.split)
    then show ?thesis by simp
  next
    case True
    then obtain front rest where sb: "m_scrollback g = front # rest" by (cases "m_scrollback g") auto
    have "evictLoop g = evictLoop ((returnCellsRow (cells front) g)
     \<lparr>m_scrollbackBytes := m_scrollbackBytes g - cellBytes front, m_scrollback := rest,
       m_promptRegionShift := m_promptRegionShift g + 1,
       m_scrollbackHyperlinks := tl (m_scrollbackHyperlinks g)\<rparr>)"
      using True sb by (subst evictLoop.simps) simp
    then show ?thesis
      using onlyHist_trans [OF onlyHist_upd(4) [OF onlyHist_returnCellsRow [OF onlyHist_refl]]
          "1.IH" [OF conjunct1 [OF True] sb]]
      by (simp only:)
  qed
qed

lemma evictLoop_wf: "grid_inv g \<Longrightarrow> grid_wf (evictLoop g)"
  using evictLoop_hist [OF inv_hist, of g] inv_onlyHist [OF _ onlyHist_evictLoop, of g]
  by (simp add: grid_wf_def)

lemma trim_evict: "hist_inv g \<Longrightarrow> trimScrollbackToCap g = evictLoop g"
  using evictLoop_hist [of g]
  by (simp add: trimScrollbackToCap_def Let_def hist_inv_def hist_cap_def hist_ok_def cap_ok_def)

lemma wf_trim: "grid_inv g \<Longrightarrow> grid_wf (trimScrollbackToCap g)"
  by (simp add: trim_evict inv_hist evictLoop_wf)

lemma onlyHist_trim: "onlyHist g (trimScrollbackToCap g)"
  by (simp add: trimScrollbackToCap_def Let_def onlyHist_evictLoop onlyHist_upd)

text \<open>Nothing but the oldest lines goes, in step with their spans, and no more than needed.\<close>

lemma evictLoop_drop:
  "hist_inv g \<Longrightarrow>
   \<exists>k. m_scrollback (evictLoop g) = drop k (m_scrollback g) \<and>
       m_scrollbackHyperlinks (evictLoop g) = drop k (m_scrollbackHyperlinks g) \<and>
       m_promptRegionShift (evictLoop g) = m_promptRegionShift g + int k \<and>
       k \<le> length (m_scrollback g) \<and>
       (k > 0 \<longrightarrow> \<not> cap_ok (drop (k - 1) (m_scrollback g))
          (sum_list (map cellBytes (drop (k - 1) (m_scrollback g)))) (m_maxScrollback g) (m_maxScrollbackMib g))"
proof (induction g rule: evictLoop.induct)
  case (1 g)
  have h: "hist_ok (m_scrollback g) (m_scrollbackBytes g) (m_scrollbackHyperlinks g)
      (m_maxScrollback g) (m_maxScrollbackMib g) (m_promptRegionShift g)"
    using "1.prems" by (simp add: hist_inv_def)
  show ?case
  proof (cases "(int (length (m_scrollback g)) > m_maxScrollback g \<or>
      m_scrollbackBytes g > byteCap g \<and> m_scrollback g \<noteq> []) \<and> m_scrollback g \<noteq> []")
    case False
    then have "evictLoop g = g" by (subst evictLoop.simps) (auto split: list.split)
    then show ?thesis by (intro exI [of _ 0]) simp
  next
    case True
    then obtain front rest where sb: "m_scrollback g = front # rest" by (cases "m_scrollback g") auto
    let ?h = "(returnCellsRow (cells front) g)
     \<lparr>m_scrollbackBytes := m_scrollbackBytes g - cellBytes front, m_scrollback := rest,
       m_promptRegionShift := m_promptRegionShift g + 1,
       m_scrollbackHyperlinks := tl (m_scrollbackHyperlinks g)\<rparr>"
    have step: "evictLoop g = evictLoop ?h"
      using True sb by (subst evictLoop.simps) simp
    obtain k where k: "m_scrollback (evictLoop ?h) = drop k rest"
        "m_scrollbackHyperlinks (evictLoop ?h) = drop k (tl (m_scrollbackHyperlinks g))"
        "m_promptRegionShift (evictLoop ?h) = m_promptRegionShift g + 1 + int k" "k \<le> length rest"
        "k > 0 \<longrightarrow> \<not> cap_ok (drop (k - 1) rest) (sum_list (map cellBytes (drop (k - 1) rest)))
          (m_maxScrollback g) (m_maxScrollbackMib g)"
      using "1.IH" [OF _ sb hist_inv_evict [OF "1.prems" sb]] True by auto
    have over: "\<not> cap_ok (m_scrollback g) (sum_list (map cellBytes (m_scrollback g)))
        (m_maxScrollback g) (m_maxScrollbackMib g)"
      using True h by (auto simp: cap_ok_def hist_ok_def byteCap_def)
    show ?thesis
      using k over sb by (intro exI [of _ "Suc k"]) (cases k; auto simp: step drop_Suc)
  qed
qed

section \<open>The scrollback's own operations\<close>

lemma inv_bumpRevision [simp]: "grid_inv (bumpRevision g) = grid_inv g"
  by (simp add: bumpRevision_def inv_defs)

lemma wf_bumpRevision [simp, grid_inv]: "grid_wf (bumpRevision g) = grid_wf g"
  by (simp add: bumpRevision_def wf_defs)

lemma append_links [simp]: "m_scrollbackHyperlinks (appendScrollback l g) = m_scrollbackHyperlinks g"
  using trimmed_frame(4) [of l g]
  by (cases "trimmedForScrollback l g") (simp add: appendScrollback_def)

lemma wf_pushScrollbackLine: "grid_inv g \<Longrightarrow> comb_ok (combining l) \<Longrightarrow> grid_wf (pushScrollbackLine l g)"
  using inv_append [of "bumpRevision g" l "[]"]
  by (simp add: pushScrollbackLine_def Let_def wf_trim)

lemma hist_ok_config:
  "hist_ok sb b hl m k n \<Longrightarrow> 1000 \<le> m' \<Longrightarrow> m' \<le> 1000000 \<Longrightarrow> hist_ok sb b hl m' k n"
  "hist_ok sb b hl m k n \<Longrightarrow> 16 \<le> k' \<Longrightarrow> k' \<le> 65536 \<Longrightarrow> hist_ok sb b hl m k' n"
  by (simp_all add: hist_ok_def)

lemma wf_setMaxScrollback: "grid_inv g \<Longrightarrow> grid_wf (setMaxScrollback n g)"
  unfolding setMaxScrollback_def
  by (intro wf_trim) (auto simp: inv_defs bumpRevision_def intro: hist_ok_config(1))

lemma wf_setMaxScrollbackMib: "grid_inv g \<Longrightarrow> grid_wf (setMaxScrollbackMib n g)"
  unfolding setMaxScrollbackMib_def
  by (intro wf_trim) (auto simp: inv_defs bumpRevision_def intro: hist_ok_config(2))

section \<open>Prompt regions\<close>

lemma shiftRegion_id [simp]: "regionId (shiftRegion n r) = regionId r"
  by (simp add: shiftRegion_def)

lemma map_regionId_shift: "map regionId (map (shiftRegion n) rs) = map regionId rs"
  by (simp add: o_def)

lemma prompts_ok_shift:
  assumes "prompts_ok act alt live next"
  shows "prompts_ok act (shiftRegions n alt) (shiftRegions n live) next"
proof -
  have "sorted_wrt (<) (map regionId (alt @ live))" using assms by (simp add: prompts_ok_def)
  then have "sorted_wrt (\<lambda>a b. regionId a < regionId b) (map (shiftRegion n) (alt @ live))"
    by (simp only: sorted_wrt_map shiftRegion_id)
  then have "sorted_wrt (\<lambda>a b. regionId a < regionId b)
      (filter (\<lambda>r. \<not> startLine r < 0) (map (shiftRegion n) (alt @ live)))"
    by (rule sorted_wrt_filter)
  then have "sorted_wrt (<) (map regionId (shiftRegions n alt @ shiftRegions n live))"
    unfolding sorted_wrt_map shiftRegions_def by (simp only: map_append filter_append)
  moreover have len: "length (shiftRegions n xs) \<le> length xs" for xs
    unfolding shiftRegions_def by (rule le_trans [OF length_filter_le]) simp
  moreover have "list_all P (shiftRegions n xs)"
    if "list_all P xs" "\<And>r. P (shiftRegion n r) = P r" for P xs
    using that by (auto simp: shiftRegions_def list_all_iff)
  ultimately show ?thesis
    using assms le_trans [OF len, of alt MAX_PROMPT_REGIONS] le_trans [OF len, of live MAX_PROMPT_REGIONS]
    by (simp add: prompts_ok_def) (simp add: shiftRegions_def)
qed

lemma inv_promptShift: "grid_inv g \<Longrightarrow> grid_inv (applyPromptRegionShift g)"
  by (simp add: applyPromptRegionShift_def inv_defs prompts_ok_shift hist_ok_def)

lemma wf_promptShift [grid_inv]: "grid_wf g \<Longrightarrow> grid_wf (applyPromptRegionShift g)"
  using inv_promptShift [of g] by (simp add: grid_wf_def applyPromptRegionShift_def hist_cap_def)

section \<open>Default colours\<close>

lemma line_ok_mapCells [simp]: "line_ok c (mapCells f l) = line_ok c l"
  by (simp add: mapCells_def line_ok_def)

lemma wf_setDefaultFg [grid_inv]: "grid_wf g \<Longrightarrow> grid_wf (setDefaultFg c g)"
  by (simp add: setDefaultFg_def Let_def wf_defs lines_ok_map)

lemma wf_setDefaultBg [grid_inv]: "grid_wf g \<Longrightarrow> grid_wf (setDefaultBg c g)"
  by (simp add: setDefaultBg_def Let_def wf_defs lines_ok_map)

end
