(* ===== verification/GridEditInv.thy ===== *)
theory GridEditInv
  imports GridInv
begin

text \<open>
  Every screen operation of \<open>GridEdit\<close> keeps the invariant, and what a scroll does to the rows:
  a rotation of the region with the exposed rows blank, whatever the row pool holds.
\<close>

section \<open>Rows and cells rewritten in place\<close>

lemma wf_updLine:
  "grid_wf g \<Longrightarrow> (\<And>l. line_ok (m_cols g) l \<Longrightarrow> line_ok (m_cols g) (f l)) \<Longrightarrow> grid_wf (updLine r f g)"
  by (simp add: updLine_def wf_defs lines_ok_vupd)

lemma updLine_frame [simp]:
  "m_rows (updLine r f g) = m_rows g" "m_cols (updLine r f g) = m_cols g"
  "m_cursorRow (updLine r f g) = m_cursorRow g" "m_cursorCol (updLine r f g) = m_cursorCol g"
  "m_screenHyperlinks (updLine r f g) = m_screenHyperlinks g"
  "m_currentAttrs (updLine r f g) = m_currentAttrs g" "m_defaultFg (updLine r f g) = m_defaultFg g"
  "m_defaultBg (updLine r f g) = m_defaultBg g" "m_wrapNext (updLine r f g) = m_wrapNext g"
  "m_autoWrap (updLine r f g) = m_autoWrap g" "m_scrollTop (updLine r f g) = m_scrollTop g"
  "m_scrollBottom (updLine r f g) = m_scrollBottom g"
  "m_screenLines (updLine r f g) = vupd r f (m_screenLines g)"
  by (simp_all add: updLine_def)

lemma dirty_frame [simp]:
  "m_rows (markScreenDirty r g) = m_rows g" "m_cols (markScreenDirty r g) = m_cols g"
  "m_cursorRow (markScreenDirty r g) = m_cursorRow g" "m_cursorCol (markScreenDirty r g) = m_cursorCol g"
  "m_screenHyperlinks (markScreenDirty r g) = m_screenHyperlinks g"
  "m_defaultFg (markScreenDirty r g) = m_defaultFg g" "m_defaultBg (markScreenDirty r g) = m_defaultBg g"
  "m_currentAttrs (markScreenDirty r g) = m_currentAttrs g"
  by (simp_all add: markScreenDirty_def)

lemma wf_markScreenDirty [grid_inv]: "grid_wf g \<Longrightarrow> grid_wf (markScreenDirty r g)"
  by (simp add: markScreenDirty_def wf_updLine)

lemma wf_clearScreenLineDirty [grid_inv]: "grid_wf g \<Longrightarrow> grid_wf (clearScreenLineDirty r g)"
  by (simp add: clearScreenLineDirty_def wf_updLine)

lemma wf_markAllScreenDirty [grid_inv]: "grid_wf g \<Longrightarrow> grid_wf (markAllScreenDirty g)"
  by (simp add: markAllScreenDirty_def wf_defs lines_ok_map)

lemma wf_clearAllScreenDirty [grid_inv]: "grid_wf g \<Longrightarrow> grid_wf (clearAllScreenDirty g)"
  by (simp add: clearAllScreenDirty_def wf_defs lines_ok_map)

lemma wf_dropHyperlinkSpans [grid_inv]: "grid_wf g \<Longrightarrow> grid_wf (dropHyperlinkSpans r a b g)"
  by (auto simp: dropHyperlinkSpans_def wf_defs list_all_iff intro!: links_ok_vupd)

lemma dropSpans_frame [simp]:
  "m_rows (dropHyperlinkSpans r a b g) = m_rows g" "m_cols (dropHyperlinkSpans r a b g) = m_cols g"
  "m_cursorRow (dropHyperlinkSpans r a b g) = m_cursorRow g"
  "m_cursorCol (dropHyperlinkSpans r a b g) = m_cursorCol g"
  "m_screenLines (dropHyperlinkSpans r a b g) = m_screenLines g"
  "m_currentAttrs (dropHyperlinkSpans r a b g) = m_currentAttrs g"
  by (simp_all add: dropHyperlinkSpans_def)

lemma comb_ok_eraseRange: "comb_ok m \<Longrightarrow> comb_ok (eraseCombRange a b m)"
  unfolding eraseCombRange_def by (rule fold_keeps) simp_all

lemma wf_clearRow [grid_inv]: "grid_wf g \<Longrightarrow> grid_wf (clearRow r a b g)"
  unfolding clearRow_def Let_def
  by (intro wf_dropHyperlinkSpans wf_updLine wf_markScreenDirty)
    (simp_all add: line_ok_def comb_ok_eraseRange)

lemma clearRow_frame [simp]:
  "m_rows (clearRow r a b g) = m_rows g" "m_cols (clearRow r a b g) = m_cols g"
  "m_cursorRow (clearRow r a b g) = m_cursorRow g" "m_cursorCol (clearRow r a b g) = m_cursorCol g"
  by (simp_all add: clearRow_def Let_def)

lemma wf_clearRows [grid_inv]: "grid_wf g \<Longrightarrow> grid_wf (clearRows a b g)"
  unfolding clearRows_def by (rule fold_keeps) (simp_all add: wf_clearRow)

lemma wf_eraseInLine [grid_inv]: "grid_wf g \<Longrightarrow> grid_wf (eraseInLine m g)"
  by (simp add: eraseInLine_def wf_clearRow)

lemma wf_clearScrollback [grid_inv]: "grid_wf g \<Longrightarrow> grid_wf (clearScrollback g)"
  by (simp add: clearScrollback_def wf_defs hist_ok_def cap_ok_def)

lemma wf_redrawTimers [grid_inv]:
  "grid_wf (g\<lparr>m_recentMode2Timer := t\<rparr>) = grid_wf g"
  "grid_wf (g\<lparr>m_csiClearRedrawActive := b, m_csiClearRedrawTimer := t\<rparr>) = grid_wf g"
  "grid_wf (g\<lparr>m_csiClearRedrawActive := b\<rparr>) = grid_wf g"
  "grid_wf (g\<lparr>m_csiClearRedrawTimer := t\<rparr>) = grid_wf g"
  by (simp_all add: wf_defs)

lemma wf_eraseInDisplay [grid_inv]: "grid_wf g \<Longrightarrow> grid_wf (eraseInDisplay e m g)"
  unfolding eraseInDisplay_def Let_def
  by (simp add: wf_redrawTimers wf_clearRows wf_eraseInLine wf_clearScrollback)

section \<open>Rows moved\<close>

lemma inv_discardRow: "grid_inv g \<Longrightarrow> grid_inv (discardRow r g)"
  by (simp add: discardRow_def inv_returnCellsRow)

lemma wf_discardRow [grid_inv]: "grid_wf g \<Longrightarrow> grid_wf (discardRow r g)"
  by (simp add: discardRow_def grid_wf_def inv_returnCellsRow)

lemma wf_discardRows [grid_inv]: "grid_wf g \<Longrightarrow> grid_wf (discardRows r n g)"
  unfolding discardRows_def by (rule fold_keeps) (simp_all add: wf_discardRow)

text \<open>Discarding rows only touches the pool.\<close>

lemma discardRows_pool: "\<exists>p. discardRows r n g = g\<lparr>m_freeCellBuffers := p\<rparr>"
  unfolding discardRows_def
proof (rule fold_keeps [where P = "\<lambda>h. \<exists>p. h = g\<lparr>m_freeCellBuffers := p\<rparr>"])
  show "\<exists>p. g = g\<lparr>m_freeCellBuffers := p\<rparr>" by (rule exI [of _ "m_freeCellBuffers g"]) simp
next
  fix x h assume "\<exists>p. h = g\<lparr>m_freeCellBuffers := p\<rparr>"
  then obtain p where h: "h = g\<lparr>m_freeCellBuffers := p\<rparr>" ..
  show "\<exists>p. discardRow x h = g\<lparr>m_freeCellBuffers := p\<rparr>"
    by (cases "int (length (cells (lineAt h x))) = m_cols h \<and> length (m_freeCellBuffers h) < kFreePoolCap")
      (auto simp: discardRow_def returnCellsRow_def h)
qed

lemma hlInRange_inv: "grid_inv g \<Longrightarrow> hlInRange g"
  by (simp add: inv_defs hlInRange_def links_ok_def region_ok_def)

lemma lines_ok_rotate:
  "lines_ok r c ls \<Longrightarrow> 0 \<le> lo \<Longrightarrow> lo \<le> mi \<Longrightarrow> mi \<le> hi \<Longrightarrow> hi \<le> r \<Longrightarrow>
   lines_ok r c (rotate_range lo mi hi ls)"
  by (simp add: lines_ok_def list_all_rotate_range)

lemma links_ok_rotate:
  "links_ok r hl \<Longrightarrow> 0 \<le> lo \<Longrightarrow> lo \<le> mi \<Longrightarrow> mi \<le> hi \<Longrightarrow> hi \<le> r \<Longrightarrow>
   links_ok r (rotate_range lo mi hi hl)"
  by (simp add: links_ok_def list_all_rotate_range)

lemma wf_rotateRegion:
  "grid_wf g \<Longrightarrow> 0 \<le> lo \<Longrightarrow> lo \<le> mi \<Longrightarrow> mi \<le> hi \<Longrightarrow> hi \<le> m_rows g \<Longrightarrow>
   grid_wf (rotateRegion lo mi hi g)"
  by (simp add: rotateRegion_def wf_defs lines_ok_rotate links_ok_rotate)

lemma takeBlanked_frame:
  "\<exists>p. snd (takeBlankedCellsRow g) = g\<lparr>m_freeCellBuffers := p\<rparr>"
  using takeBlankedCellsRow_grid by blast

lemma refillRow_grid:
  "\<exists>p. refillRow r g = g\<lparr>m_freeCellBuffers := p,
     m_screenLines := vupd r (\<lambda>_. lineWith (makeRow (m_cols g) (m_defaultFg g) (eraseBg g))) (m_screenLines g),
     m_screenHyperlinks := (if hlInRange g then vupd r (\<lambda>_. []) (m_screenHyperlinks g)
                            else m_screenHyperlinks g)\<rparr>"
proof -
  obtain p where p: "snd (takeBlankedCellsRow g) = g\<lparr>m_freeCellBuffers := p\<rparr>"
    using takeBlanked_frame by blast
  obtain cs h where t: "takeBlankedCellsRow g = (cs, h)" by (cases "takeBlankedCellsRow g")
  have "cs = makeRow (m_cols g) (m_defaultFg g) (eraseBg g)" "h = g\<lparr>m_freeCellBuffers := p\<rparr>"
    using takeBlankedCellsRow_row [of g] p by (simp_all add: t)
  then show ?thesis
    by (intro exI [of _ p]) (simp add: refillRow_def t updLine_def hlInRange_def)
qed

lemma inv_takeRow: "grid_inv g \<Longrightarrow> dims_ok (m_rows g) (m_cols g)"
  by (simp add: inv_defs)

lemma wf_refillRow [grid_inv]: "grid_wf g \<Longrightarrow> grid_wf (refillRow r g)"
proof -
  assume g: "grid_wf g"
  obtain cs h where t: "takeBlankedCellsRow g = (cs, h)" by (cases "takeBlankedCellsRow g")
  have h: "grid_wf h"
    using g inv_takeBlanked [of g] takeBlanked_frame [of g] by (auto simp: t grid_wf_def hist_cap_def)
  have len: "int (length cs) = m_cols h"
    using takeBlankedCellsRow_row [of g] takeBlanked_frame [of g] g
    by (auto simp: t wf_defs dims_ok_def)
  have u: "grid_wf (updLine r (\<lambda>_. lineWith cs) h)" using h len by (simp add: wf_updLine)
  have "grid_wf (k\<lparr>m_screenHyperlinks := vupd r (\<lambda>_. []) (m_screenHyperlinks k)\<rparr>)"
    if "grid_wf k" for k using that by (simp add: wf_defs links_ok_vupd)
  from this [OF u] u show ?thesis by (simp add: refillRow_def t Let_def)
qed

lemma wf_refillRows [grid_inv]: "grid_wf g \<Longrightarrow> grid_wf (refillRows r n g)"
  unfolding refillRows_def by (rule fold_keeps) (simp_all add: wf_refillRow)

lemma refillRow_frame [simp]:
  "m_cols (refillRow r g) = m_cols g" "m_defaultFg (refillRow r g) = m_defaultFg g"
  "eraseBg (refillRow r g) = eraseBg g" "m_scrollBottom (refillRow r g) = m_scrollBottom g"
  "length (m_screenHyperlinks (refillRow r g)) = length (m_screenHyperlinks g)"
  "hlInRange (refillRow r g) = hlInRange g" "length (m_screenLines (refillRow r g)) = length (m_screenLines g)"
  using refillRow_grid [of r g] by (auto simp: eraseBg_def hlInRange_def split: if_splits)

text \<open>After a refill, the rows of the range are blank and the others are as they were.\<close>

lemma refillRows_lines:
  assumes "0 \<le> a" "k < length (m_screenLines g)"
  shows "m_screenLines (refillRows a n g) ! k =
    (if a \<le> int k \<and> int k < a + n then lineWith (makeRow (m_cols g) (m_defaultFg g) (eraseBg g))
     else m_screenLines g ! k)"
proof -
  have "m_screenLines (fold refillRow rs h) ! k =
      (if int k \<in> set rs then lineWith (makeRow (m_cols h) (m_defaultFg h) (eraseBg h))
       else m_screenLines h ! k)"
    if "k < length (m_screenLines h)" for rs h
    using that
  proof (induction rs arbitrary: h)
    case (Cons r rs)
    have "m_screenLines (refillRow r h) ! k =
        (if int k = r then lineWith (makeRow (m_cols h) (m_defaultFg h) (eraseBg h)) else m_screenLines h ! k)"
      using refillRow_grid [of r h] Cons.prems by (auto simp: nth_vupd)
    then show ?case using Cons.IH [of "refillRow r h"] Cons.prems by simp
  qed simp
  then show ?thesis using assms unfolding refillRows_def by auto
qed

lemma refillRows_links:
  assumes "hlInRange g" "0 \<le> a" "k < length (m_screenHyperlinks g)"
  shows "m_screenHyperlinks (refillRows a n g) ! k =
    (if a \<le> int k \<and> int k < a + n then [] else m_screenHyperlinks g ! k)"
proof -
  have "m_screenHyperlinks (fold refillRow rs h) ! k =
      (if int k \<in> set rs then [] else m_screenHyperlinks h ! k)"
    if "hlInRange h" "k < length (m_screenHyperlinks h)" for rs h
    using that
  proof (induction rs arbitrary: h)
    case (Cons r rs)
    have "m_screenHyperlinks (refillRow r h) ! k = (if int k = r then [] else m_screenHyperlinks h ! k)"
      using refillRow_grid [of r h] Cons.prems by (auto simp: nth_vupd)
    then show ?case using Cons.IH [of "refillRow r h"] Cons.prems by simp
  qed simp
  then show ?thesis using assms unfolding refillRows_def by auto
qed

lemma refillRows_frame [simp]:
  "length (m_screenLines (refillRows a n g)) = length (m_screenLines g)"
  "length (m_screenHyperlinks (refillRows a n g)) = length (m_screenHyperlinks g)"
  unfolding refillRows_def
  by (rule fold_keeps [where P = "\<lambda>h. length (m_screenLines h) = length (m_screenLines g)"]; simp)
    (rule fold_keeps [where P = "\<lambda>h. length (m_screenHyperlinks h) = length (m_screenHyperlinks g)"]; simp)

lemma wf_rows: "grid_wf g \<Longrightarrow> region_ok (m_rows g) (m_scrollTop g) (m_scrollBottom g)"
  "grid_wf g \<Longrightarrow> cursor_ok (m_rows g) (m_cols g) (m_cursorRow g) (m_cursorCol g)"
  "grid_wf g \<Longrightarrow> lines_ok (m_rows g) (m_cols g) (m_screenLines g)"
  "grid_wf g \<Longrightarrow> links_ok (m_rows g) (m_screenHyperlinks g)"
  "grid_wf g \<Longrightarrow> dims_ok (m_rows g) (m_cols g)"
  by (simp_all add: wf_defs)

lemma markAll_frame [simp]:
  "m_rows (markAllScreenDirty g) = m_rows g" "m_cols (markAllScreenDirty g) = m_cols g"
  "m_scrollTop (markAllScreenDirty g) = m_scrollTop g"
  "m_scrollBottom (markAllScreenDirty g) = m_scrollBottom g"
  "m_cursorRow (markAllScreenDirty g) = m_cursorRow g"
  "m_screenHyperlinks (markAllScreenDirty g) = m_screenHyperlinks g"
  "m_altScreenActive (markAllScreenDirty g) = m_altScreenActive g"
  by (simp_all add: markAllScreenDirty_def)

lemma discardRows_frame [simp]:
  "m_rows (discardRows a n g) = m_rows g" "m_cols (discardRows a n g) = m_cols g"
  "m_scrollTop (discardRows a n g) = m_scrollTop g"
  "m_scrollBottom (discardRows a n g) = m_scrollBottom g"
  "m_screenLines (discardRows a n g) = m_screenLines g"
  "m_screenHyperlinks (discardRows a n g) = m_screenHyperlinks g"
  using discardRows_pool [of a n g] by auto

lemma wf_insertLines [grid_inv]: "grid_wf g \<Longrightarrow> grid_wf (insertLines n g)"
proof -
  assume g: "grid_wf g"
  have r: "0 \<le> m_cursorRow g" "m_scrollBottom g < m_rows g"
    using wf_rows(1,2) [OF g] by (simp_all add: region_ok_def cursor_ok_def)
  show ?thesis
    unfolding insertLines_def Let_def
    using g r
    by (auto intro!: wf_refillRows wf_rotateRegion wf_discardRows wf_markAllScreenDirty)
qed

lemma wf_deleteLines [grid_inv]: "grid_wf g \<Longrightarrow> grid_wf (deleteLines n g)"
proof -
  assume g: "grid_wf g"
  have r: "0 \<le> m_cursorRow g" "m_scrollBottom g < m_rows g"
    using wf_rows(1,2) [OF g] by (simp_all add: region_ok_def cursor_ok_def)
  show ?thesis
    unfolding deleteLines_def Let_def
    using g r
    by (auto intro!: wf_refillRows wf_rotateRegion wf_discardRows wf_markAllScreenDirty)
qed

section \<open>Scrolling\<close>

lemma onlyHist_pushTopRow: "onlyHist g (pushTopRow r g)"
  by (simp add: pushTopRow_def Let_def onlyHist_append onlyHist_upd)

lemma onlyHist_salvage: "onlyHist g (salvageTopRows push a n g)"
proof -
  have "onlyHist g (fold pushTopRow rs h)" if "onlyHist g h" for rs h
    using that by (rule fold_keeps) (rule onlyHist_trans [OF _ onlyHist_pushTopRow])
  moreover have "onlyHist g (discardRows a n g)"
    using discardRows_pool [of a n g] onlyHist_upd(2) [OF onlyHist_refl] by metis
  ultimately show ?thesis by (simp add: salvageTopRows_def)
qed

lemma inv_pushTopRow: "grid_inv g \<Longrightarrow> 0 \<le> r \<Longrightarrow> r < m_rows g \<Longrightarrow> grid_inv (pushTopRow r g)"
proof -
  assume g: "grid_inv g" and r: "0 \<le> r" "r < m_rows g"
  have "comb_ok (combining (lineAt g r))"
    using g r lines_ok_vget [of "m_rows g" "m_cols g" "m_screenLines g" r]
    by (simp add: inv_defs lineAt_def line_ok_def)
  moreover have "list_all span_ok (vget (m_screenHyperlinks g) r)"
    using g r links_ok_vget [of "m_rows g" "m_screenHyperlinks g" r] by (simp add: inv_defs)
  ultimately show ?thesis
    using inv_append [OF g] hlInRange_inv [OF g] by (simp add: pushTopRow_def Let_def)
qed

lemma inv_salvage:
  assumes "grid_inv g" "0 \<le> a" "a + n \<le> m_rows g"
  shows "grid_inv (salvageTopRows push a n g)"
proof -
  have "grid_inv (fold pushTopRow [a .. a + n - 1] g) \<and> m_rows (fold pushTopRow [a .. a + n - 1] g) = m_rows g"
    by (rule fold_keeps)
      (use assms in \<open>auto simp: inv_pushTopRow onlyHist_simps(1) [OF onlyHist_pushTopRow]\<close>)
  moreover have "grid_inv (discardRows a n g)"
    unfolding discardRows_def by (rule fold_keeps) (simp_all add: inv_discardRow assms)
  ultimately show ?thesis by (simp add: salvageTopRows_def)
qed

lemma moveActiveLink_frame [simp]:
  "m_rows (moveActiveLink n g) = m_rows g" "m_scrollTop (moveActiveLink n g) = m_scrollTop g"
  "m_scrollBottom (moveActiveLink n g) = m_scrollBottom g"
  "m_screenLines (moveActiveLink n g) = m_screenLines g"
  "m_screenHyperlinks (moveActiveLink n g) = m_screenHyperlinks g"
  by (simp_all add: moveActiveLink_def Let_def)

lemma wf_moveActiveLink [grid_inv]: "grid_wf g \<Longrightarrow> grid_wf (moveActiveLink n g)"
  by (simp add: moveActiveLink_def Let_def wf_defs active_ok_def)

lemma csiClearWindow_frame [simp]:
  "m_rows (snd (csiClearWindow e g)) = m_rows g"
  "m_scrollTop (snd (csiClearWindow e g)) = m_scrollTop g"
  "m_scrollBottom (snd (csiClearWindow e g)) = m_scrollBottom g"
  "m_screenLines (snd (csiClearWindow e g)) = m_screenLines g"
  "m_screenHyperlinks (snd (csiClearWindow e g)) = m_screenHyperlinks g"
  by (simp_all add: csiClearWindow_def)

lemma wf_csiClearWindow [grid_inv]: "grid_wf g \<Longrightarrow> grid_wf (snd (csiClearWindow e g))"
  by (simp add: csiClearWindow_def wf_redrawTimers)

lemma wf_scrollUp [grid_inv]: "grid_wf g \<Longrightarrow> grid_wf (scrollUp e n g)"
proof -
  assume g: "grid_wf g"
  define count where "count = min n (m_scrollBottom g - m_scrollTop g + 1)"
  define h where "h = snd (csiClearWindow e (moveActiveLink count (markAllScreenDirty g)))"
  have h: "grid_wf h" "m_rows h = m_rows g" "m_scrollTop h = m_scrollTop g"
      "m_scrollBottom h = m_scrollBottom g"
    using g by (simp_all add: h_def grid_inv)
  have r: "0 \<le> m_scrollTop g" "m_scrollTop g \<le> m_scrollBottom g" "m_scrollBottom g < m_rows g"
    using wf_rows(1) [OF g] by (simp_all add: region_ok_def)
  have k: "grid_wf (trimScrollbackToCap (salvageTopRows push (m_scrollTop g) count h))" for push
    using h r by (intro wf_trim inv_salvage) (auto simp: grid_wf_def count_def)
  have o: "onlyHist h (trimScrollbackToCap (salvageTopRows push (m_scrollTop g) count h))" for push
    by (rule onlyHist_trans [OF onlyHist_salvage onlyHist_trim])
  have "grid_wf (refillRows (m_scrollBottom g - count + 1) count
      (rotateRegion (m_scrollTop g) (m_scrollTop g + count) (m_scrollBottom g + 1)
        (trimScrollbackToCap (salvageTopRows push (m_scrollTop g) count h))))" if "0 < n" for push
    using that r h onlyHist_simps(1) [OF o]
    by (intro wf_refillRows wf_rotateRegion k) (auto simp: count_def)
  moreover have "grid_wf (markAllScreenDirty g)" using g by (rule wf_markAllScreenDirty)
  moreover have "m_scrollTop (rotateRegion a b c k) = m_scrollTop k"
      "m_scrollBottom (rotateRegion a b c k) = m_scrollBottom k" for a b c k
    by (simp_all add: rotateRegion_def)
  ultimately show ?thesis
    using h(3,4) onlyHist_simps(5,6) [OF o]
    by (simp add: scrollUp_def Let_def split_beta flip: count_def h_def)
qed

lemma wf_scrollDown [grid_inv]: "grid_wf g \<Longrightarrow> grid_wf (scrollDown n g)"
proof -
  assume g: "grid_wf g"
  have r: "0 \<le> m_scrollTop g" "m_scrollTop g \<le> m_scrollBottom g" "m_scrollBottom g < m_rows g"
    using wf_rows(1) [OF g] by (simp_all add: region_ok_def)
  have "m_scrollTop (rotateRegion a b c k) = m_scrollTop k" for a b c k
    by (simp add: rotateRegion_def)
  then show ?thesis
    unfolding scrollDown_def Let_def
    using g r by (auto intro!: wf_refillRows wf_rotateRegion wf_discardRows wf_markAllScreenDirty)
qed

section \<open>Cells moved within a row\<close>

lemma comb_ok_shift:
  assumes "comb_ok m" "0 \<le> n"
  shows "comb_ok (combDeleteShift c n m)" "comb_ok (combInsertShift c n w m)"
proof -
  have d: "combDeleteShift c n m = map (\<lambda>(k, v). (if k \<ge> c + n then k - n else k, v))
      (filter (\<lambda>kv. \<not> (fst kv \<ge> c \<and> fst kv < c + n)) m)"
    unfolding combDeleteShift_def by (rule map_cong) auto
  have i: "combInsertShift c n w m = map (\<lambda>(k, v). (if k \<ge> c then k + n else k, v))
      (filter (\<lambda>kv. \<not> (fst kv \<ge> c \<and> fst kv + n \<ge> w)) m)"
    unfolding combInsertShift_def by (rule map_cong) auto
  show "comb_ok (combDeleteShift c n m)"
    unfolding d by (rule comb_ok_map_keys [OF comb_ok_filter [OF assms(1)]])
      (use assms(2) in \<open>auto simp: inj_on_def\<close>)
  show "comb_ok (combInsertShift c n w m)"
    unfolding i by (rule comb_ok_map_keys [OF comb_ok_filter [OF assms(1)]])
      (use assms(2) in \<open>auto simp: inj_on_def\<close>)
qed

lemma wf_deleteChars [grid_inv]: "grid_wf g \<Longrightarrow> 0 \<le> n \<Longrightarrow> grid_wf (deleteChars n g)"
proof -
  assume g: "grid_wf g" and n: "0 \<le> n"
  have c: "0 \<le> m_cursorCol g" "m_cursorCol g < m_cols g"
    using wf_rows(2) [OF g] by (simp_all add: cursor_ok_def)
  show ?thesis
    unfolding deleteChars_def Let_def
    by (intro wf_updLine wf_markScreenDirty g)
      (use c n in \<open>auto simp: line_ok_def comb_ok_shift\<close>)
qed

lemma wf_insertBlanks [grid_inv]: "grid_wf g \<Longrightarrow> 0 \<le> n \<Longrightarrow> grid_wf (insertBlanks n g)"
proof -
  assume g: "grid_wf g" and n: "0 \<le> n"
  have c: "0 \<le> m_cursorCol g" "m_cursorCol g < m_cols g"
    using wf_rows(2) [OF g] by (simp_all add: cursor_ok_def)
  show ?thesis
    unfolding insertBlanks_def Let_def
    by (intro wf_updLine wf_markScreenDirty g)
      (use c n in \<open>auto simp: line_ok_def comb_ok_shift\<close>)
qed

section \<open>Cursor\<close>

lemma wf_setCursorPos [grid_inv]: "grid_wf g \<Longrightarrow> grid_wf (setCursorPos r c g)"
  by (simp add: setCursorPos_def wf_defs cursor_ok_def dims_ok_def)

lemma wf_moveCursor [grid_inv]: "grid_wf g \<Longrightarrow> grid_wf (moveCursor r c g)"
  by (simp add: moveCursor_def wf_setCursorPos)

lemma wf_region_upd:
  "grid_wf g \<Longrightarrow> 0 \<le> t \<Longrightarrow> t \<le> b \<Longrightarrow> b < m_rows g \<Longrightarrow> grid_wf (g\<lparr>m_scrollTop := t, m_scrollBottom := b\<rparr>)"
  by (simp add: wf_defs region_ok_def)

lemma wf_setScrollRegion [grid_inv]: "grid_wf g \<Longrightarrow> grid_wf (setScrollRegion t b g)"
  using wf_rows(5) [of g]
  by (auto simp: setScrollRegion_def Let_def dims_ok_def intro!: wf_setCursorPos wf_region_upd)

lemma wf_resetScrollRegion [grid_inv]: "grid_wf g \<Longrightarrow> grid_wf (resetScrollRegion g)"
  by (simp add: resetScrollRegion_def wf_defs region_ok_def dims_ok_def)

lemma wf_saveCursor [grid_inv]: "grid_wf g \<Longrightarrow> grid_wf (saveCursor g)"
  by (simp add: saveCursor_def wf_defs)

lemma wf_restoreCursor [grid_inv]: "grid_wf g \<Longrightarrow> grid_wf (restoreCursor g)"
  by (simp add: restoreCursor_def wf_defs cursor_ok_def dims_ok_def)

lemma wf_cursorCol: "grid_wf g \<Longrightarrow> 0 \<le> c \<Longrightarrow> c < m_cols g \<Longrightarrow> grid_wf (g\<lparr>m_cursorCol := c\<rparr>)"
  by (simp add: wf_defs cursor_ok_def)

lemma wf_cursorRow: "grid_wf g \<Longrightarrow> 0 \<le> r \<Longrightarrow> r < m_rows g \<Longrightarrow> grid_wf (g\<lparr>m_cursorRow := r\<rparr>)"
  by (simp add: wf_defs cursor_ok_def)

lemma wf_wrapNext [grid_inv]: "grid_wf (g\<lparr>m_wrapNext := b\<rparr>) = grid_wf g"
  by (simp add: wf_defs)

lemma wf_dims: "grid_wf g \<Longrightarrow> 1 \<le> m_rows g" "grid_wf g \<Longrightarrow> 1 \<le> m_cols g"
  by (simp_all add: wf_defs dims_ok_def)

lemma wf_carriageReturn [grid_inv]: "grid_wf g \<Longrightarrow> grid_wf (carriageReturn g)"
  using wf_dims(2) [of g] by (simp add: carriageReturn_def wf_cursorCol)

lemma find_in: "find P xs = Some x \<Longrightarrow> x \<in> set xs"
  by (auto simp: find_Some_iff)

lemma nextTab_range: "nextTab c g = Some k \<Longrightarrow> c < k \<and> k < m_cols g"
  by (auto simp: nextTab_def dest: find_in)

lemma prevTab_range: "prevTab c g = Some k \<Longrightarrow> 1 \<le> k \<and> k < c"
  by (auto simp: prevTab_def dest: find_in)

lemma wf_forwardTab: "grid_wf g \<Longrightarrow>
  grid_wf (g\<lparr>m_cursorCol := (case nextTab (m_cursorCol g) g of Some c \<Rightarrow> c | None \<Rightarrow> m_cols g - 1)\<rparr>)"
  using wf_dims(2) [of g] wf_rows(2) [of g]
  by (auto simp: cursor_ok_def intro!: wf_cursorCol split: option.split dest!: nextTab_range)

lemma wf_tab [grid_inv]: "grid_wf g \<Longrightarrow> grid_wf (tab g)"
  by (simp add: tab_def wf_forwardTab)

lemma wf_reverseIndex [grid_inv]: "grid_wf g \<Longrightarrow> grid_wf (reverseIndex g)"
  using wf_rows(2) [of g] by (auto simp: reverseIndex_def cursor_ok_def wf_scrollDown wf_cursorRow)

section \<open>Line completion\<close>

lemma wf_applyRowAttrs [grid_inv]: "grid_wf g \<Longrightarrow> grid_wf (applyRowAttrs r a b f k g)"
  unfolding applyRowAttrs_def Let_def
  by (auto intro!: wf_updLine simp: line_ok_def)

lemma wf_addRowHyperlink [grid_inv]: "grid_wf g \<Longrightarrow> grid_wf (addRowHyperlink e r a b u g)"
proof -
  assume g: "grid_wf g"
  have "int (length (m_screenHyperlinks g)) = m_rows g" using wf_rows(4) [OF g] by (simp add: links_ok_def)
  moreover have link: "grid_wf (g\<lparr>m_screenHyperlinks := vupd r (\<lambda>spans. spans @
       [\<lparr>startCol = s, endCol = k, uri = w, linkId = []\<rparr>]) (m_screenHyperlinks g)\<rparr>)"
    if "0 \<le> s" "s \<le> k" "isAllowedHyperlinkScheme w" for s k w
    using g that by (auto simp: wf_defs span_ok_def intro!: links_ok_vupd)
  ultimately show ?thesis
    using g by (auto simp: addRowHyperlink_def Let_def intro!: wf_updLine link)
qed

lemma wf_applyEdit [grid_inv]: "grid_wf g \<Longrightarrow> grid_wf (applyEdit e ed g)"
  by (simp add: applyEdit_def wf_applyRowAttrs wf_addRowHyperlink split: row_edit.split)

lemma wf_lineCompleted [grid_inv]: "grid_wf g \<Longrightarrow> grid_wf (lineCompleted e g)"
  unfolding lineCompleted_def
  by (simp add: fold_keeps [where P = grid_wf] wf_applyEdit)

lemma wf_newLine [grid_inv]: "grid_wf g \<Longrightarrow> grid_wf (newLine e g)"
  using wf_rows(2) [OF wf_lineCompleted [of g e]]
  by (auto simp: newLine_def Let_def cursor_ok_def wf_scrollUp wf_lineCompleted wf_cursorRow)

lemma wf_clearScreenContent [grid_inv]: "grid_wf g \<Longrightarrow> grid_wf (clearScreenContent g)"
proof -
  assume "grid_wf g"
  then have "grid_wf (clearRows 0 (m_rows g) (bumpRevision g))" by (simp add: grid_inv)
  from this wf_rows(5) [OF this] show ?thesis
    by (simp add: clearScreenContent_def Let_def wf_defs cursor_ok_def dims_ok_def)
qed

end
