(* ===== verification/GridPrintInv.thy ===== *)
theory GridPrintInv
  imports GridEditInv
begin

text \<open>
  Printing, controls, SGR, modes and the alternate screen keep the invariant of the grid.
\<close>

section \<open>Printing\<close>

lemma line_ok_blankMate: "line_ok w l \<Longrightarrow> line_ok w (blankMate c l)"
  by (simp add: blankMate_def line_ok_def)

lemma line_ok_break:
  "line_ok w l \<Longrightarrow> line_ok w (breakRight k b (breakLeft k a l))"
  by (simp add: breakLeft_def breakRight_def line_ok_blankMate)

lemma wf_breakWidePairs [grid_inv]: "grid_wf g \<Longrightarrow> grid_wf (breakWidePairsAround r a b g)"
  unfolding breakWidePairsAround_def by (auto intro!: wf_updLine line_ok_break)

lemma breakWidePairs_frame [simp]:
  "m_rows (breakWidePairsAround r a b g) = m_rows g" "m_cols (breakWidePairsAround r a b g) = m_cols g"
  "m_cursorRow (breakWidePairsAround r a b g) = m_cursorRow g"
  "m_cursorCol (breakWidePairsAround r a b g) = m_cursorCol g"
  "m_currentAttrs (breakWidePairsAround r a b g) = m_currentAttrs g"
  "m_screenHyperlinks (breakWidePairsAround r a b g) = m_screenHyperlinks g"
  by (simp_all add: breakWidePairsAround_def)

lemma wf_advance [grid_inv]: "grid_wf g \<Longrightarrow> 0 \<le> n \<Longrightarrow> grid_wf (advance n g)"
  by (auto simp: advance_def Let_def wf_defs cursor_ok_def dims_ok_def)

lemma wf_clampCol [grid_inv]: "grid_wf g \<Longrightarrow> grid_wf (clampCol g)"
  using wf_dims(2) [of g] by (simp add: clampCol_def wf_cursorCol)

lemma wf_softWrap [grid_inv]:
  "grid_wf g \<Longrightarrow> grid_wf ((updLine r (\<lambda>l. l\<lparr>softWrapped := b\<rparr>) g)\<lparr>m_cursorCol := 0\<rparr>)"
proof -
  assume g: "grid_wf g"
  then have "grid_wf (updLine r (\<lambda>l. l\<lparr>softWrapped := b\<rparr>) g)" by (simp add: wf_updLine)
  then show ?thesis using wf_dims(2) [OF g] by (simp add: wf_cursorCol)
qed

lemma wf_wrapPending [grid_inv]: "grid_wf g \<Longrightarrow> grid_wf (wrapPending e g)"
  by (simp add: wrapPending_def wf_newLine wf_softWrap wf_wrapNext)

lemma line_ok_writeRun: "line_ok w l \<Longrightarrow> line_ok w (writeRun a c bs l)"
  by (induction a c bs l rule: writeRun.induct) (simp_all add: line_ok_def)

lemma wf_printSpan [grid_inv]: "grid_wf g \<Longrightarrow> grid_wf (printSpan bs g)"
  unfolding printSpan_def Let_def
  by (auto intro!: wf_advance wf_markScreenDirty wf_updLine wf_dropHyperlinkSpans wf_breakWidePairs
      simp: line_ok_writeRun)

lemma wf_handleAsciiPrintRun [grid_inv]: "grid_wf g \<Longrightarrow> grid_wf (handleAsciiPrintRun e bs g)"
proof (induction e bs g rule: handleAsciiPrintRun.induct)
  case (1 e bs g)
  then show ?case
    by (subst handleAsciiPrintRun.simps) (simp add: Let_def wf_clampCol wf_wrapPending wf_printSpan)
qed

lemma wf_attachCombining [grid_inv]: "grid_wf g \<Longrightarrow> grid_wf (attachCombining cp g)"
proof -
  assume g: "grid_wf g"
  have "line_ok w (l\<lparr>combining := combSet c (if length (combGet (combining l) c) < MAX_COMBINING_PER_CELL
      then combGet (combining l) c @ [cp] else combGet (combining l) c) (combining l)\<rparr>)"
    if "line_ok w l" for w l c
    using that comb_ok_Get [of "combining l" c] by (auto simp: line_ok_def intro!: comb_ok_Set)
  then show ?thesis
    using g by (auto simp: attachCombining_def Let_def intro!: wf_updLine split: option.split)
qed

lemma wf_updCell [grid_inv]: "grid_wf g \<Longrightarrow> grid_wf (updCell r c f g)"
  unfolding updCell_def by (auto intro!: wf_updLine simp: line_ok_def)

lemma wf_eraseComb [grid_inv]:
  "grid_wf g \<Longrightarrow> grid_wf (updLine r (\<lambda>l. l\<lparr>combining := combErase c (combining l)\<rparr>) g)"
  by (rule wf_updLine) (simp_all add: line_ok_def)

lemma wf_placeChar [grid_inv]: "grid_wf g \<Longrightarrow> 0 \<le> w \<Longrightarrow> grid_wf (placeChar cp w g)"
  unfolding placeChar_def Let_def
  by (auto intro!: wf_advance wf_markScreenDirty wf_eraseComb wf_updCell wf_dropHyperlinkSpans
      wf_breakWidePairs)

lemma wf_handlePrint [grid_inv]: "grid_wf g \<Longrightarrow> grid_wf (handlePrint e cp g)"
  by (auto simp: handlePrint_def Let_def
      intro!: wf_attachCombining wf_placeChar wf_clampCol wf_wrapPending wf_newLine wf_softWrap)

lemma wf_emit [grid_inv]: "grid_wf g \<Longrightarrow> event_ok ev \<Longrightarrow> grid_wf (emit ev g)"
  by (simp add: emit_def wf_defs events_ok_def)

lemma wf_cursorBack [grid_inv]:
  "grid_wf g \<Longrightarrow> 0 < m_cursorCol g \<Longrightarrow> grid_wf (g\<lparr>m_cursorCol := m_cursorCol g - 1\<rparr>)"
  using wf_rows(2) [of g] by (simp add: wf_cursorCol cursor_ok_def)

lemma wf_handleExecute [grid_inv]: "grid_wf g \<Longrightarrow> grid_wf (handleExecute e c g)"
  by (simp add: handleExecute_def Let_def wf_newLine wf_carriageReturn wf_tab wf_emit wf_wrapNext)
    (use wf_cursorBack [of "g\<lparr>m_wrapNext := False\<rparr>"] in \<open>simp add: wf_wrapNext\<close>)

section \<open>Attributes\<close>

lemma wf_attrs [grid_inv]: "grid_wf (g\<lparr>m_currentAttrs := a\<rparr>) = grid_wf g"
  by (simp add: wf_defs)

lemma wf_handleSGR [grid_inv]: "grid_wf g \<Longrightarrow> grid_wf (handleSGR ps cs g)"
  by (simp add: handleSGR_def wf_attrs)

section \<open>Images and the alternate screen\<close>

lemma wf_imageBudget [grid_inv]: "grid_wf (g\<lparr>m_imageBudget := b\<rparr>) = grid_wf g"
  by (simp add: wf_defs)

lemma wf_budget [grid_inv]:
  "grid_wf (budgetAdd b g) = grid_wf g" "grid_wf (budgetRelease b g) = grid_wf g"
  "grid_wf (recomputeImageBudget g) = grid_wf g"
  by (simp_all add: budgetAdd_def budgetRelease_def recomputeImageBudget_def wf_imageBudget)

lemma wf_images_upd:
  "grid_wf g \<Longrightarrow> length xs \<le> MAX_INLINE_IMAGES \<Longrightarrow> grid_wf (g\<lparr>m_inlineImages := xs\<rparr>)"
  by (simp add: wf_defs images_ok_def)

lemma wf_placeInlineImage [grid_inv]: "grid_wf g \<Longrightarrow> grid_wf (placeInlineImage img g)"
proof -
  assume g: "grid_wf g"
  then have l: "length (m_inlineImages g) \<le> MAX_INLINE_IMAGES" by (simp add: wf_defs images_ok_def)
  show ?thesis
  proof (cases "length (m_inlineImages g) \<ge> MAX_INLINE_IMAGES")
    case True
    then show ?thesis
      using g l
      by (auto simp: placeInlineImage_def Let_def wf_budget MAX_INLINE_IMAGES_def budgetAdd_def
          budgetRelease_def intro!: wf_images_upd simp: wf_imageBudget)
  next
    case False
    then show ?thesis
      using g by (auto simp: placeInlineImage_def Let_def budgetAdd_def wf_imageBudget intro!: wf_images_upd)
  qed
qed

lemma wf_resetKittyChunk [grid_inv]: "grid_wf g \<Longrightarrow> grid_wf (resetKittyChunk g)"
  by (simp add: resetKittyChunk_def wf_defs images_ok_def)

text \<open>
  Entering moves the main screen into the saved fields and blanks the live one; leaving is the
  reverse. Each is a rearrangement of fields the invariant constrains in the same way.
\<close>

lemma altBlank_ok: "line_ok w l \<Longrightarrow> line_ok w ((mapCells f l)\<lparr>combining := []\<rparr>)"
  by (simp add: line_ok_def mapCells_def)

lemma links_ok_clear: "links_ok r hl \<Longrightarrow> links_ok r (map (\<lambda>_. []) hl)"
  by (auto simp: links_ok_def list_all_iff)

lemma prompts_ok_enter: "prompts_ok False alt live n \<Longrightarrow> prompts_ok True live [] n"
  by (auto simp: prompts_ok_def)

lemma prompts_ok_exit: "prompts_ok True alt live n \<Longrightarrow> prompts_ok False [] alt n"
  by (simp add: prompts_ok_def sorted_wrt_append)

lemma lines_ok_dirty: "lines_ok r w ls \<Longrightarrow> lines_ok r w (map (\<lambda>l. l\<lparr>dirty := b\<rparr>) ls)"
  by (rule lines_ok_map) simp_all

lemma shift_frame [simp]:
  "m_rows (applyPromptRegionShift g) = m_rows g" "m_cols (applyPromptRegionShift g) = m_cols g"
  "m_screenLines (applyPromptRegionShift g) = m_screenLines g"
  "m_screenHyperlinks (applyPromptRegionShift g) = m_screenHyperlinks g"
  "m_cursorRow (applyPromptRegionShift g) = m_cursorRow g"
  "m_cursorCol (applyPromptRegionShift g) = m_cursorCol g"
  "m_scrollTop (applyPromptRegionShift g) = m_scrollTop g"
  "m_scrollBottom (applyPromptRegionShift g) = m_scrollBottom g"
  "m_altScrollTop (applyPromptRegionShift g) = m_altScrollTop g"
  "m_altScrollBottom (applyPromptRegionShift g) = m_altScrollBottom g"
  "m_tabStops (applyPromptRegionShift g) = m_tabStops g"
  "m_freeCellBuffers (applyPromptRegionShift g) = m_freeCellBuffers g"
  "m_hyperlinkActive (applyPromptRegionShift g) = m_hyperlinkActive g"
  "m_hyperlinkUri (applyPromptRegionShift g) = m_hyperlinkUri g"
  "m_hyperlinkId (applyPromptRegionShift g) = m_hyperlinkId g"
  "m_hyperlinkStartCol (applyPromptRegionShift g) = m_hyperlinkStartCol g"
  "m_scrollback (applyPromptRegionShift g) = m_scrollback g"
  "m_scrollbackBytes (applyPromptRegionShift g) = m_scrollbackBytes g"
  "m_scrollbackHyperlinks (applyPromptRegionShift g) = m_scrollbackHyperlinks g"
  "m_maxScrollback (applyPromptRegionShift g) = m_maxScrollback g"
  "m_maxScrollbackMib (applyPromptRegionShift g) = m_maxScrollbackMib g"
  by (simp_all add: applyPromptRegionShift_def)

lemma shift_frame2 [simp]:
  "m_kittyKeyFlags (applyPromptRegionShift g) = m_kittyKeyFlags g"
  "m_kittyKeyStack (applyPromptRegionShift g) = m_kittyKeyStack g"
  "m_altScreenActive (applyPromptRegionShift g) = m_altScreenActive g"
  "m_altScreen (applyPromptRegionShift g) = m_altScreen g"
  "m_altCursorRow (applyPromptRegionShift g) = m_altCursorRow g"
  "m_altCursorCol (applyPromptRegionShift g) = m_altCursorCol g"
  "m_altScreenHyperlinks (applyPromptRegionShift g) = m_altScreenHyperlinks g"
  "m_inlineImages (applyPromptRegionShift g) = m_inlineImages g"
  "m_altInlineImages (applyPromptRegionShift g) = m_altInlineImages g"
  "m_kittyImages (applyPromptRegionShift g) = m_kittyImages g"
  "m_kittyImageOrder (applyPromptRegionShift g) = m_kittyImageOrder g"
  "m_kittyChunkBuffer (applyPromptRegionShift g) = m_kittyChunkBuffer g"
  "m_nextPromptRegionId (applyPromptRegionShift g) = m_nextPromptRegionId g"
  "m_quotas (applyPromptRegionShift g) = m_quotas g"
  "m_queryRespQuota (applyPromptRegionShift g) = m_queryRespQuota g"
  "m_windowTitle (applyPromptRegionShift g) = m_windowTitle g"
  "m_progressValue (applyPromptRegionShift g) = m_progressValue g"
  "m_events (applyPromptRegionShift g) = m_events g"
  by (simp_all add: applyPromptRegionShift_def)

lemma shift_enter: "prompts_ok False alt (m_promptRegions k) n \<Longrightarrow>
    prompts_ok True (m_promptRegions (applyPromptRegionShift k)) [] n"
  using prompts_ok_shift [of False alt "m_promptRegions k" n] prompts_ok_enter
  by (auto simp: applyPromptRegionShift_def)

lemma shift_exit: "prompts_ok True (m_altPromptRegions k) live n \<Longrightarrow>
    prompts_ok False [] (m_altPromptRegions (applyPromptRegionShift k)) n"
  using prompts_ok_shift [of True "m_altPromptRegions k" live n] prompts_ok_exit
  by (auto simp: applyPromptRegionShift_def)

lemma shift_hist: "hist_ok sb b hl m n (m_promptRegionShift k) \<Longrightarrow>
    hist_ok sb b hl m n (m_promptRegionShift (applyPromptRegionShift k))"
  by (simp add: applyPromptRegionShift_def hist_ok_def)

lemma shift_changed [simp]:
  "m_promptRegionShift (applyPromptRegionShift g) = 0"
  by (simp add: applyPromptRegionShift_def)

lemma hist_ok_shift0: "hist_ok sb b hl m n k \<Longrightarrow> hist_ok sb b hl m n 0"
  by (simp add: hist_ok_def)

text \<open>The conjuncts of the invariant, one at a time.\<close>

lemma grid_wfI:
  assumes "dims_ok (m_rows g) (m_cols g)" "lines_ok (m_rows g) (m_cols g) (m_screenLines g)"
    "cursor_ok (m_rows g) (m_cols g) (m_cursorRow g) (m_cursorCol g)"
    "region_ok (m_rows g) (m_scrollTop g) (m_scrollBottom g)"
    "region_ok (m_rows g) (m_altScrollTop g) (m_altScrollBottom g)"
    "tabs_ok (m_cols g) (m_tabStops g)" "pool_ok (m_cols g) (m_freeCellBuffers g)"
    "links_ok (m_rows g) (m_screenHyperlinks g)"
    "active_ok (m_hyperlinkActive g) (m_hyperlinkUri g) (m_hyperlinkId g) (m_hyperlinkStartCol g)"
    "hist_ok (m_scrollback g) (m_scrollbackBytes g) (m_scrollbackHyperlinks g) (m_maxScrollback g)
       (m_maxScrollbackMib g) (m_promptRegionShift g)"
    "kitty_ok (m_kittyKeyFlags g) (m_kittyKeyStack g)"
    "alt_ok (m_altScreenActive g) (m_rows g) (m_cols g) (m_altScreen g) (m_altCursorRow g)
       (m_altCursorCol g) (m_altScreenHyperlinks g)"
    "images_ok (m_inlineImages g) (m_altInlineImages g) (m_kittyImages g) (m_kittyImageOrder g)
       (m_kittyChunkBuffer g)"
    "prompts_ok (m_altScreenActive g) (m_altPromptRegions g) (m_promptRegions g)
       (m_nextPromptRegionId g)"
    "quota_ok (m_quotas g) (m_queryRespQuota g)" "misc_ok (m_windowTitle g) (m_progressValue g)"
    "cap_ok (m_scrollback g) (m_scrollbackBytes g) (m_maxScrollback g) (m_maxScrollbackMib g)"
    "events_ok (m_events g)"
  shows "grid_wf g"
  using assms by (simp add: wf_defs)

lemma wf_parts:
  assumes "grid_wf g"
  shows "dims_ok (m_rows g) (m_cols g)" "lines_ok (m_rows g) (m_cols g) (m_screenLines g)"
    "cursor_ok (m_rows g) (m_cols g) (m_cursorRow g) (m_cursorCol g)"
    "region_ok (m_rows g) (m_scrollTop g) (m_scrollBottom g)"
    "region_ok (m_rows g) (m_altScrollTop g) (m_altScrollBottom g)"
    "tabs_ok (m_cols g) (m_tabStops g)" "pool_ok (m_cols g) (m_freeCellBuffers g)"
    "links_ok (m_rows g) (m_screenHyperlinks g)"
    "active_ok (m_hyperlinkActive g) (m_hyperlinkUri g) (m_hyperlinkId g) (m_hyperlinkStartCol g)"
    "hist_ok (m_scrollback g) (m_scrollbackBytes g) (m_scrollbackHyperlinks g) (m_maxScrollback g)
       (m_maxScrollbackMib g) (m_promptRegionShift g)"
    "kitty_ok (m_kittyKeyFlags g) (m_kittyKeyStack g)"
    "alt_ok (m_altScreenActive g) (m_rows g) (m_cols g) (m_altScreen g) (m_altCursorRow g)
       (m_altCursorCol g) (m_altScreenHyperlinks g)"
    "images_ok (m_inlineImages g) (m_altInlineImages g) (m_kittyImages g) (m_kittyImageOrder g)
       (m_kittyChunkBuffer g)"
    "prompts_ok (m_altScreenActive g) (m_altPromptRegions g) (m_promptRegions g)
       (m_nextPromptRegionId g)"
    "quota_ok (m_quotas g) (m_queryRespQuota g)" "misc_ok (m_windowTitle g) (m_progressValue g)"
    "cap_ok (m_scrollback g) (m_scrollbackBytes g) (m_maxScrollback g) (m_maxScrollbackMib g)"
    "events_ok (m_events g)"
  using assms by (simp_all add: wf_defs)

lemma images_ok_swap: "images_ok inl alt k ord c \<Longrightarrow> images_ok [] inl k ord []"
  "images_ok inl alt k ord c \<Longrightarrow> images_ok alt [] k ord c"
  by (simp_all add: images_ok_def)

lemma cursor_ok_home: "dims_ok r c \<Longrightarrow> cursor_ok r c 0 0"
  by (simp add: dims_ok_def cursor_ok_def)

lemma alt_okI: "lines_ok r c ls \<Longrightarrow> cursor_ok r c y x \<Longrightarrow> links_ok r hl \<Longrightarrow> alt_ok True r c ls y x hl"
  by (simp add: alt_ok_def)

lemma alt_okD: "alt_ok True r c ls y x hl \<Longrightarrow> lines_ok r c ls \<and> cursor_ok r c y x \<and> links_ok r hl"
  by (simp add: alt_ok_def)

lemma wf_enterAltScreen [grid_inv]:
  assumes "grid_wf g"
  shows "grid_wf (enterAltScreen mode g)"
proof (cases "m_altScreenActive g")
  case False
  then have "m_altScreenActive g = False" by simp
  note p = wf_parts [OF assms, unfolded this]
  note d = enterAltScreen_def Let_def recomputeImageBudget_def markAllScreenDirty_def
    resetKittyChunk_def False
  have se: "prompts_ok True (m_promptRegions (applyPromptRegionShift k)) [] n"
    if "m_promptRegions k = m_promptRegions g" "n = m_nextPromptRegionId g" for k n
    by (rule shift_enter [where alt = "m_altPromptRegions g"]) (use p(14) that in simp)
  show ?thesis
    by (rule grid_wfI)
      (use p(1-11,15-18) in \<open>simp_all add: d lines_ok_dirty lines_ok_map altBlank_ok links_ok_clear
        cursor_ok_home hist_ok_shift0 alt_okI images_ok_swap(1) [OF p(13)] se del: map_map\<close>)
qed (use assms in \<open>simp add: enterAltScreen_def\<close>)

lemma wf_exitAltScreen [grid_inv]:
  assumes "grid_wf g"
  shows "grid_wf (exitAltScreen g)"
proof (cases "m_altScreenActive g")
  case True
  then have "m_altScreenActive g = True" by simp
  note p = wf_parts [OF assms, unfolded this]
  note d = exitAltScreen_def Let_def recomputeImageBudget_def markAllScreenDirty_def True
  have sx: "prompts_ok False [] (m_altPromptRegions (applyPromptRegionShift k)) n"
    if "m_altPromptRegions k = m_altPromptRegions g" "n = m_nextPromptRegionId g" for k n
    by (rule shift_exit [where live = "m_promptRegions g"]) (use p(14) that in simp)
  show ?thesis
    by (rule grid_wfI)
      (use p alt_okD [OF p(12)] in \<open>simp_all add: d hist_ok_shift0 sx images_ok_swap(2) [OF p(13)]
        alt_ok_def [of False]\<close>)
qed (use assms in \<open>simp add: exitAltScreen_def\<close>)

end
