(* ===== verification/GridActionInv.thy ===== *)
theory GridActionInv
  imports GridPrintInv
begin

text \<open>
  The escape-sequence handlers keep the invariant of the grid, up to \<open>processAction\<close>, so that
  every state a terminal can reach satisfies it.
\<close>

section \<open>CSI\<close>

lemma wf_quotas_upd:
  "grid_wf g \<Longrightarrow> quota_ok q r \<Longrightarrow> grid_wf (g\<lparr>m_quotas := q, m_queryRespQuota := r\<rparr>)"
  "grid_wf g \<Longrightarrow> quota_ok (m_quotas g) r \<Longrightarrow> grid_wf (g\<lparr>m_queryRespQuota := r\<rparr>)"
  "grid_wf g \<Longrightarrow> quota_ok q (m_queryRespQuota g) \<Longrightarrow> grid_wf (g\<lparr>m_quotas := q\<rparr>)"
  by (simp_all add: wf_defs)

lemma window_ok_roll: "window_ok c b w \<Longrightarrow> window_ok c b (roll now ms w)"
  by (simp add: window_ok_def roll_def)

lemma window_ok_take: "window_ok c b w \<Longrightarrow> \<not> winCount w \<ge> c \<Longrightarrow> window_ok c b (w\<lparr>winCount := winCount w + 1\<rparr>)"
  by (simp add: window_ok_def)

lemma wf_sendQueryResponse [grid_inv]: "grid_wf g \<Longrightarrow> grid_wf (sendQueryResponse e s g)"
proof -
  assume g: "grid_wf g"
  let ?w = "roll (e_nowMs e) 1000 (m_queryRespQuota g)"
  have q: "quota_ok (m_quotas g) (m_queryRespQuota g)" by (rule wf_parts(15) [OF g])
  then have "quota_ok (m_quotas g) ?w" by (simp add: quota_ok_def window_ok_roll)
  moreover from this have "quota_ok (m_quotas g) (?w\<lparr>winCount := winCount ?w + 1\<rparr>)"
    if "\<not> winCount ?w \<ge> QUERY_RESP_MAX_PER_SEC" using that by (simp add: quota_ok_def window_ok_take)
  ultimately show ?thesis
    using g by (simp add: sendQueryResponse_def Let_def wf_emit wf_quotas_upd(2))
qed

lemma wf_csiCha [grid_inv]: "grid_wf g \<Longrightarrow> grid_wf (csiCha p g)"
  using wf_dims(2) [of g] by (simp add: csiCha_def wf_cursorCol)

lemma wf_csiVpa [grid_inv]: "grid_wf g \<Longrightarrow> grid_wf (csiVpa p g)"
  using wf_dims(1) [of g] wf_parts(4) [of g]
  by (auto simp: csiVpa_def Let_def region_ok_def clamp_def intro!: wf_cursorRow)

lemma wf_cursorLineStart [grid_inv]: "grid_wf g \<Longrightarrow> grid_wf (cursorLineStart d g)"
  using wf_dims(2) [of g] by (simp add: cursorLineStart_def wf_moveCursor wf_cursorCol)

lemma funpow_keeps: "P s \<Longrightarrow> (\<And>s. P s \<Longrightarrow> P (f s)) \<Longrightarrow> P ((f ^^ n) s)"
  by (induction n) simp_all

lemma wf_csiTabs:
  "grid_wf g \<Longrightarrow> grid_wf (csiTabs forwardTab p g)" "grid_wf g \<Longrightarrow> grid_wf (csiTabs backTab p g)"
proof -
  have f: "grid_wf (forwardTab h)" if "grid_wf h" for h
    using wf_forwardTab [OF that] by (simp add: forwardTab_def)
  have b: "grid_wf (backTab h)" if "grid_wf h" for h
    using that wf_parts(3) [OF that]
    by (auto simp: backTab_def cursor_ok_def intro!: wf_cursorCol split: option.split dest!: prevTab_range)
  show "grid_wf g \<Longrightarrow> grid_wf (csiTabs forwardTab p g)" "grid_wf g \<Longrightarrow> grid_wf (csiTabs backTab p g)"
    using f b by (simp_all add: csiTabs_def funpow_keeps [where P = grid_wf])
qed

lemma wf_csiCup [grid_inv]: "grid_wf g \<Longrightarrow> grid_wf (csiCup p g)"
  by (simp add: csiCup_def Let_def wf_setCursorPos)

lemma wf_csiCursor: "grid_wf g \<Longrightarrow> csiCursor f p g = Some h \<Longrightarrow> grid_wf h"
  by (auto simp: csiCursor_def wf_moveCursor wf_cursorLineStart wf_csiCha wf_csiCup wf_csiTabs
      wf_csiVpa wf_setScrollRegion wf_saveCursor split: if_splits)

lemma wf_eraseChars [grid_inv]: "grid_wf g \<Longrightarrow> grid_wf (eraseChars n g)"
  unfolding eraseChars_def Let_def
  by (intro wf_updLine wf_dropHyperlinkSpans wf_markScreenDirty)
    (simp_all add: line_ok_def comb_ok_eraseRange)

lemma wf_repeatChar [grid_inv]: "grid_wf g \<Longrightarrow> grid_wf (repeatChar e n g)"
  by (auto simp: repeatChar_def Let_def intro!: funpow_keeps [where P = grid_wf] wf_handlePrint
      split: option.split)

lemma csiParamOr_pos: "0 < d \<Longrightarrow> 0 < csiParamOr p k d"
  by (simp add: csiParamOr_def)

lemma wf_csiEdit: "grid_wf g \<Longrightarrow> csiEdit e f p g = Some h \<Longrightarrow> grid_wf h"
  using csiParamOr_pos [of 1 p 0]
  by (auto simp: csiEdit_def wf_eraseInDisplay wf_eraseInLine wf_insertLines wf_deleteLines
      wf_deleteChars wf_insertBlanks wf_scrollUp wf_scrollDown wf_repeatChar wf_eraseChars
      split: if_splits)

lemma wf_softReset [grid_inv]: "grid_wf g \<Longrightarrow> grid_wf (softReset g)"
  by (simp add: softReset_def wf_defs region_ok_def dims_ok_def)

lemma wf_modeFlags:
  "grid_wf (g\<lparr>m_applicationCursorKeys := b\<rparr>) = grid_wf g" "grid_wf (g\<lparr>m_originMode := b\<rparr>) = grid_wf g"
  "grid_wf (g\<lparr>m_autoWrap := b\<rparr>) = grid_wf g" "grid_wf (g\<lparr>m_cursorVisible := b\<rparr>) = grid_wf g"
  "grid_wf (g\<lparr>m_mouseButtonMode := b\<rparr>) = grid_wf g" "grid_wf (g\<lparr>m_mouseMotionMode := b\<rparr>) = grid_wf g"
  "grid_wf (g\<lparr>m_mouseAnyMode := b\<rparr>) = grid_wf g" "grid_wf (g\<lparr>m_focusReporting := b\<rparr>) = grid_wf g"
  "grid_wf (g\<lparr>m_mouseSgrMode := b\<rparr>) = grid_wf g" "grid_wf (g\<lparr>m_bracketedPaste := b\<rparr>) = grid_wf g"
  "grid_wf (g\<lparr>m_synchronizedOutput := b\<rparr>) = grid_wf g"
  "grid_wf (g\<lparr>m_colorSchemeNotify := b\<rparr>) = grid_wf g"
  "grid_wf (g\<lparr>m_applicationKeypad := b\<rparr>) = grid_wf g" "grid_wf (g\<lparr>m_cursorShape := c\<rparr>) = grid_wf g"
  by (simp_all add: wf_defs)

lemma wf_setMode [grid_inv]: "grid_wf g \<Longrightarrow> grid_wf (setMode on v g)"
  by (simp add: setMode_def wf_modeFlags wf_enterAltScreen wf_exitAltScreen)

lemma wf_setModes [grid_inv]: "grid_wf g \<Longrightarrow> grid_wf (setModes on vs g)"
  unfolding setModes_def by (rule fold_keeps) (simp_all add: wf_setMode)

lemma wf_clearTabs [grid_inv]: "grid_wf g \<Longrightarrow> grid_wf (clearTabs m g)"
  by (simp add: clearTabs_def wf_defs tabs_ok_def)

lemma int_and_range: "0 \<le> b \<Longrightarrow> 0 \<le> (a AND b) \<and> (a AND b) \<le> (b :: int)"
  by simp

lemma int_or_less_32: "flags_ok a \<Longrightarrow> flags_ok b \<Longrightarrow> flags_ok (a OR b)"
  using OR_upper [of a 5 b] by (simp add: flags_ok_def)

lemma flags_ok_and: "flags_ok b \<Longrightarrow> flags_ok (a AND b)" "flags_ok a \<Longrightarrow> flags_ok (a AND b)"
  using AND_upper2 [of b a] AND_upper1 [of a b] by (auto simp: flags_ok_def)

lemma flags_ok_kittyFlags: "flags_ok (kittyFlags p)"
  unfolding kittyFlags_def by (rule flags_ok_and(1)) (simp add: flags_ok_def)

lemma wf_kitty_upd:
  "grid_wf g \<Longrightarrow> kitty_ok n st \<Longrightarrow> grid_wf (g\<lparr>m_kittyKeyFlags := n, m_kittyKeyStack := st\<rparr>)"
  "grid_wf g \<Longrightarrow> kitty_ok n st \<Longrightarrow> grid_wf (g\<lparr>m_kittyKeyStack := st, m_kittyKeyFlags := n\<rparr>)"
  "grid_wf g \<Longrightarrow> kitty_ok n (m_kittyKeyStack g) \<Longrightarrow> grid_wf (g\<lparr>m_kittyKeyFlags := n\<rparr>)"
  by (simp_all add: wf_defs)

lemma wf_kittyPush [grid_inv]: "grid_wf g \<Longrightarrow> flags_ok n \<Longrightarrow> grid_wf (kittyPush n g)"
  using wf_parts(11) [of g]
  by (simp add: kittyPush_def) (auto simp: kitty_ok_def intro!: wf_kitty_upd(2))

lemma kitty_ok_pop: "kitty_ok n st \<Longrightarrow> st \<noteq> [] \<Longrightarrow> kitty_ok (last st) (butlast st)"
proof -
  assume k: "kitty_ok n st" and st: "st \<noteq> []"
  then have "list_all flags_ok (butlast st @ [last st])" by (simp add: kitty_ok_def)
  then show ?thesis using k by (auto simp: kitty_ok_def)
qed

lemma wf_kittyPop1 [grid_inv]: "grid_wf g \<Longrightarrow> grid_wf (kittyPop1 g)"
  using wf_parts(11) [of g] by (simp add: kittyPop1_def kitty_ok_pop wf_kitty_upd(1))

lemma wf_kittyPop [grid_inv]: "grid_wf g \<Longrightarrow> grid_wf (kittyPop n g)"
proof -
  assume "grid_wf g"
  then have h: "grid_wf ((kittyPop1 ^^ k) g)" for k by (rule funpow_keeps) (rule wf_kittyPop1)
  show ?thesis
    using h wf_kitty_upd(3) [OF h, of 0] by (simp add: kittyPop_def Let_def kitty_ok_def flags_ok_def)
qed

lemma wf_kittySet [grid_inv]: "grid_wf g \<Longrightarrow> flags_ok n \<Longrightarrow> grid_wf (kittySet n m g)"
  using wf_parts(11) [of g]
  by (auto simp: kittySet_def kitty_ok_def int_or_less_32 flags_ok_and(2) intro!: wf_kitty_upd)

lemma wf_csiU [grid_inv]: "grid_wf g \<Longrightarrow> grid_wf (csiU e im p g)"
  by (simp add: csiU_def wf_restoreCursor wf_kittyPush wf_kittyPop wf_kittySet wf_sendQueryResponse
      flags_ok_kittyFlags)

lemma wf_csiModes [grid_inv]: "grid_wf g \<Longrightarrow> grid_wf (csiModes e f im p cs g)"
  by (simp add: csiModes_def csiReport_def setCursorShape_def wf_handleSGR wf_softReset wf_setModes
      wf_sendQueryResponse wf_modeFlags wf_clearTabs wf_csiU)

lemma wf_handleCsi [grid_inv]: "grid_wf g \<Longrightarrow> grid_wf (handleCsi e fc p cs im tr g)"
proof -
  assume "grid_wf g"
  then have h: "grid_wf (g\<lparr>m_wrapNext := False\<rparr>)" by (simp add: wf_wrapNext)
  show ?thesis
    unfolding handleCsi_def Let_def
    by (auto simp: h wf_csiModes dest: wf_csiCursor [OF h] wf_csiEdit [OF h] split: option.split)
qed


section \<open>OSC\<close>

lemma wf_writeInlineError [grid_inv]: "grid_wf g \<Longrightarrow> grid_wf (writeInlineError e txt g)"
proof -
  assume g: "grid_wf g"
  have "grid_wf (fold (handlePrint e) txt h)" if "grid_wf h" for h
    using that by (rule fold_keeps) (rule wf_handlePrint)
  then show ?thesis
    using g by (simp add: writeInlineError_def Let_def wf_newLine wf_carriageReturn wf_attrs)
qed

lemma wf_setTitle [grid_inv]: "grid_wf g \<Longrightarrow> grid_wf (setTitle t g)"
  by (auto simp: setTitle_def Let_def bumpRevision_def wf_defs misc_ok_def)

lemma wf_oscColorQuery [grid_inv]: "grid_wf g \<Longrightarrow> grid_wf (oscColorQuery e n g)"
  by (simp add: oscColorQuery_def Let_def wf_sendQueryResponse)

subsection \<open>Links\<close>

lemma wf_dropActiveHyperlink [grid_inv]: "grid_wf g \<Longrightarrow> grid_wf (dropActiveHyperlink g)"
  by (simp add: dropActiveHyperlink_def wf_defs active_ok_def)

lemma wf_links_upd: "grid_wf g \<Longrightarrow> links_ok (m_rows g) hl \<Longrightarrow> grid_wf (g\<lparr>m_screenHyperlinks := hl\<rparr>)"
  by (simp add: wf_defs)

lemma wf_pushSpan:
  assumes "grid_wf g" "isAllowedHyperlinkScheme (m_hyperlinkUri g)" "0 \<le> a"
  shows "grid_wf (pushSpan r a b g)"
proof -
  have "links_ok (m_rows g) (vupd r (\<lambda>spans. spans @ [\<lparr>startCol = a, endCol = b, uri = m_hyperlinkUri g,
      linkId = m_hyperlinkId g\<rparr>]) (m_screenHyperlinks g))" if "a \<le> b"
    using that assms(2,3) by (intro links_ok_vupd wf_parts(8) [OF assms(1)]) (simp add: span_ok_def)
  then show ?thesis using assms(1) by (simp add: pushSpan_def wf_links_upd)
qed

lemma pushSpan_frame [simp]:
  "m_hyperlinkUri (pushSpan r a b g) = m_hyperlinkUri g" "m_cols (pushSpan r a b g) = m_cols g"
  "m_cursorRow (pushSpan r a b g) = m_cursorRow g" "m_cursorCol (pushSpan r a b g) = m_cursorCol g"
  by (simp_all add: pushSpan_def)

lemma wf_pushSpans [grid_inv]: "grid_wf g \<Longrightarrow> grid_wf (pushHyperlinkSpansForActive g)"
proof -
  assume g: "grid_wf g"
  have "0 \<le> m_hyperlinkStartCol g" using wf_parts(9) [OF g] by (simp add: active_ok_def)
  moreover have "grid_wf (fold (\<lambda>r. pushSpan r 0 b) rs h) \<and>
      m_hyperlinkUri (fold (\<lambda>r. pushSpan r 0 b) rs h) = m_hyperlinkUri g"
    if "grid_wf h" "m_hyperlinkUri h = m_hyperlinkUri g" "isAllowedHyperlinkScheme (m_hyperlinkUri g)"
    for rs h b
    by (rule fold_keeps) (use that in \<open>auto simp: wf_pushSpan\<close>)
  ultimately show ?thesis
    using g by (simp add: pushHyperlinkSpansForActive_def Let_def wf_pushSpan)
qed

lemma pushSpans_frame [simp]:
  "m_cursorRow (pushHyperlinkSpansForActive g) = m_cursorRow g"
  "m_cursorCol (pushHyperlinkSpansForActive g) = m_cursorCol g"
proof -
  have "m_cursorRow (fold (\<lambda>r. pushSpan r 0 b) rs h) = m_cursorRow h \<and>
      m_cursorCol (fold (\<lambda>r. pushSpan r 0 b) rs h) = m_cursorCol h" for rs h b
    by (rule fold_keeps) auto
  then show "m_cursorRow (pushHyperlinkSpansForActive g) = m_cursorRow g"
    "m_cursorCol (pushHyperlinkSpansForActive g) = m_cursorCol g"
    by (simp_all add: pushHyperlinkSpansForActive_def Let_def)
qed

lemma osc8Id_length: "length (osc8Id ts) \<le> kMaxOsc8IdBytes"
  by (induction ts) (simp_all add: kMaxOsc8IdBytes_def)

lemma wf_active_upd:
  "grid_wf g \<Longrightarrow> active_ok True u i c \<Longrightarrow>
   grid_wf (g\<lparr>m_hyperlinkActive := True, m_hyperlinkUri := u, m_hyperlinkStartCol := c,
     m_hyperlinkStartRow := r, m_hyperlinkId := i\<rparr>)"
  by (simp add: wf_defs)

lemma wf_handleOsc8 [grid_inv]: "grid_wf g \<Longrightarrow> grid_wf (handleOsc8 rest g)"
proof -
  assume g: "grid_wf g"
  have "0 \<le> m_cursorCol g" using wf_parts(3) [OF g] by (simp add: cursor_ok_def)
  then have "active_ok True u (osc8Id ts) (m_cursorCol g)"
    if "\<not> length u > MAX_OSC8_URI_BYTES" "isAllowedHyperlinkScheme u" for u ts
    using that osc8Id_length [of ts] by (simp add: active_ok_def)
  then show ?thesis
    using g by (auto simp: handleOsc8_def Let_def split: option.split
        intro!: wf_active_upd wf_pushSpans wf_dropActiveHyperlink)
qed

subsection \<open>Quotas\<close>

lemma wf_quota_windows:
  "grid_wf g \<Longrightarrow> window_ok OSC52_MAX_WRITES_PER_MIN OSC52_MAX_BYTES_PER_MIN w \<Longrightarrow> grid_wf (setOsc52 w g)"
  "grid_wf g \<Longrightarrow> window_ok NOTIFY_MAX_PER_MIN 0 w \<Longrightarrow> grid_wf (setNotifyWindow w g)"
  "grid_wf g \<Longrightarrow> window_ok USERVAR_MAX_WRITES_PER_MIN 0 w \<Longrightarrow> grid_wf (setUserVarWindow w g)"
  by (simp_all add: setOsc52_def setNotifyWindow_def setUserVarWindow_def wf_defs quota_ok_def)

lemma wf_windows:
  assumes "grid_wf g"
  shows "window_ok OSC52_MAX_WRITES_PER_MIN OSC52_MAX_BYTES_PER_MIN (osc52 (m_quotas g))"
    "window_ok NOTIFY_MAX_PER_MIN 0 (notify (m_quotas g))"
    "window_ok USERVAR_MAX_WRITES_PER_MIN 0 (userVar (m_quotas g))"
  using wf_parts(15) [OF assms] by (simp_all add: quota_ok_def)

lemma selectionChar_cp: "selectionChar s = CHR ''c'' \<or> selectionChar s = CHR ''p''"
  by (induction s) auto

lemma wf_oscClipboard [grid_inv]: "grid_wf g \<Longrightarrow> grid_wf (oscClipboard e rest g)"
proof -
  assume g: "grid_wf g"
  let ?w = "roll (e_nowMs e) 60000 (osc52 (m_quotas g))"
  have w: "window_ok OSC52_MAX_WRITES_PER_MIN OSC52_MAX_BYTES_PER_MIN ?w"
    by (rule window_ok_roll [OF wf_windows(1) [OF g]])
  then have "window_ok OSC52_MAX_WRITES_PER_MIN OSC52_MAX_BYTES_PER_MIN
      (?w\<lparr>winCount := winCount ?w + 1, winBytes := winBytes ?w + int n\<rparr>)"
    if "\<not> winCount ?w \<ge> OSC52_MAX_WRITES_PER_MIN" "\<not> winBytes ?w + int n > OSC52_MAX_BYTES_PER_MIN" for n
    using that by (simp add: window_ok_def)
  then show ?thesis
    using g w selectionChar_cp by (auto simp: oscClipboard_def Let_def wf_quota_windows split: option.split
        intro!: wf_emit)
qed

lemma wf_takeNotifyQuota [grid_inv]: "grid_wf g \<Longrightarrow> grid_wf (snd (takeNotifyQuota e g))"
  using window_ok_roll [OF wf_windows(2), of g]
  by (simp add: takeNotifyQuota_def Let_def wf_quota_windows window_ok_take)

lemma notifyText_ok: "length (notifyText e n s) \<le> n \<and> noC1 (notifyText e n s)"
  using length_filter_le [of "\<lambda>u. \<not> (0x80 \<le> u \<and> u \<le> 0x9F)" "take n (e_fromUtf8 e s)"]
  by (auto simp: notifyText_def stripC1Controls_def noC1_def list_all_iff)

lemma wf_emit_notify:
  assumes "grid_wf g"
  shows "grid_wf (emit (Notify [] (notifyText e kMaxNotifyBody b)) g)"
    "grid_wf (emit (Notify (notifyText e kMaxNotifyTitle t) (notifyText e kMaxNotifyBody b)) g)"
  using notifyText_ok [of e kMaxNotifyBody b] notifyText_ok [of e kMaxNotifyTitle t] assms
  by (auto intro!: wf_emit simp: noC1_def)

lemma wf_oscNotify [grid_inv]: "grid_wf g \<Longrightarrow> grid_wf (oscNotify e b g)"
  using wf_takeNotifyQuota [of g e]
  by (cases "takeNotifyQuota e g") (simp add: oscNotify_def wf_emit_notify)

lemma wf_osc777 [grid_inv]: "grid_wf g \<Longrightarrow> grid_wf (osc777 e b g)"
  using wf_takeNotifyQuota [of g e]
  by (cases "takeNotifyQuota e g") (simp add: osc777_def Let_def wf_emit_notify split: option.split)

lemma wf_oscUserVar [grid_inv]: "grid_wf g \<Longrightarrow> grid_wf (oscUserVar e b g)"
  using window_ok_roll [OF wf_windows(3), of g]
  by (simp add: oscUserVar_def Let_def wf_quota_windows window_ok_take wf_emit split: option.split prod.split)

lemma wf_oscProgress [grid_inv]: "grid_wf g \<Longrightarrow> grid_wf (oscProgress b g)"
proof -
  assume g: "grid_wf g"
  have "grid_wf (g\<lparr>m_progressState := s, m_progressValue := v\<rparr>)" if "0 \<le> v" "v \<le> 100" for s v
    using g that by (simp add: wf_defs misc_ok_def)
  then show ?thesis
    using g by (simp add: oscProgress_def Let_def wf_emit split: option.split prod.split)
qed

subsection \<open>Prompts\<close>

lemma wf_prompts_upd:
  "grid_wf g \<Longrightarrow> prompts_ok (m_altScreenActive g) (m_altPromptRegions g) rs n \<Longrightarrow>
   grid_wf (g\<lparr>m_promptRegions := rs, m_nextPromptRegionId := n\<rparr>)"
  "grid_wf g \<Longrightarrow> prompts_ok (m_altScreenActive g) (m_altPromptRegions g) rs (m_nextPromptRegionId g) \<Longrightarrow>
   grid_wf (g\<lparr>m_promptRegions := rs\<rparr>)"
  by (simp_all add: wf_defs)

lemma prompts_ok_last:
  assumes "prompts_ok act alt rs n" "rs \<noteq> []" "regionId (f (last rs)) = regionId (last rs)"
  shows "prompts_ok act alt (butlast rs @ [f (last rs)]) n"
proof -
  obtain r qs where rs: "rs = qs @ [r]" using assms(2) by (cases rs rule: rev_cases) auto
  show ?thesis using assms(1,3) by (simp add: rs prompts_ok_def)
qed

lemma wf_updLastRegion [grid_inv]:
  "grid_wf g \<Longrightarrow> (\<And>r. regionId (f r) = regionId r) \<Longrightarrow> grid_wf (updLastRegion f g)"
  by (simp add: updLastRegion_def wf_prompts_upd prompts_ok_last wf_parts(14))

lemma wf_shellFlags [grid_inv]:
  "grid_wf (g\<lparr>m_shellIntegState := s\<rparr>) = grid_wf g" "grid_wf (g\<lparr>m_lastExitCode := c\<rparr>) = grid_wf g"
  "grid_wf (g\<lparr>m_commandOutputStart := c\<rparr>) = grid_wf g"
  by (simp_all add: wf_defs)

lemma wf_commandStart [grid_inv]: "grid_wf g \<Longrightarrow> grid_wf (commandStart e ln g)"
  by (simp add: commandStart_def wf_updLastRegion wf_shellFlags)

lemma wf_outputStart [grid_inv]: "grid_wf g \<Longrightarrow> grid_wf (outputStart ln g)"
  by (simp add: outputStart_def wf_updLastRegion wf_shellFlags)

lemma wf_commandEnd [grid_inv]: "grid_wf g \<Longrightarrow> grid_wf (commandEnd e c g)"
  by (simp add: commandEnd_def Let_def wf_updLastRegion wf_shellFlags wf_emit)

lemma drop_excess_id: "length xs \<le> n \<Longrightarrow> drop (length xs - n) xs = xs"
  by simp

lemma wf_capRegions [grid_inv]: "grid_wf g \<Longrightarrow> grid_wf (capRegions g)"
  using wf_parts(14) [of g] by (simp add: capRegions_def drop_excess_id prompts_ok_def)

text \<open>A new prompt takes the next id; the cap drops the oldest of the live screen's prompts.\<close>

lemma prompts_ok_new:
  assumes "prompts_ok act alt rs n" "regionId r = n"
  shows "prompts_ok act alt (drop (length (rs @ [r]) - MAX_PROMPT_REGIONS) (rs @ [r])) (n + 1)"
proof -
  let ?k = "length (rs @ [r]) - MAX_PROMPT_REGIONS"
  have s: "sorted_wrt (<) (map regionId alt)" "sorted_wrt (<) (map regionId rs)"
      "\<forall>x\<in>set alt. \<forall>y\<in>set rs. regionId x < regionId y"
      "\<forall>x\<in>set alt. 1 \<le> regionId x \<and> regionId x < n" "\<forall>x\<in>set rs. 1 \<le> regionId x \<and> regionId x < n"
    using assms(1) by (auto simp: prompts_ok_def sorted_wrt_append list_all_iff)
  have "sorted_wrt (<) (map regionId (rs @ [r]))"
    using s(2,5) assms(2) by (auto simp: sorted_wrt_append)
  then have "sorted_wrt (<) (map regionId (drop ?k (rs @ [r])))"
    by (metis drop_map sorted_wrt_drop)
  moreover have "set (drop ?k (rs @ [r])) \<subseteq> insert r (set rs)"
    using set_drop_subset [of ?k "rs @ [r]"] by auto
  ultimately have "sorted_wrt (<) (map regionId (alt @ drop ?k (rs @ [r])))"
      "\<forall>x\<in>set (alt @ drop ?k (rs @ [r])). 1 \<le> regionId x \<and> regionId x < n + 1"
    using s assms unfolding map_append sorted_wrt_append set_append set_map prompts_ok_def
    by (fastforce simp del: drop_append)+
  moreover have "length (drop ?k (rs @ [r])) \<le> MAX_PROMPT_REGIONS" by simp
  ultimately show ?thesis
    using assms(1) by (simp add: prompts_ok_def list_all_iff del: drop_append length_append)
qed

lemma wf_promptStart: "grid_wf g \<Longrightarrow> grid_wf (capRegions (promptStart ln g))"
proof -
  assume g: "grid_wf g"
  show ?thesis
    by (rule grid_wfI)
      (use wf_parts [OF g] prompts_ok_new [OF wf_parts(14) [OF g]] in
        \<open>simp_all add: capRegions_def promptStart_def\<close>)
qed

lemma capRegions_emit [simp]: "capRegions (emit ev g) = emit ev (capRegions g)"
  by (simp add: capRegions_def emit_def)

lemma wf_markPrompt [grid_inv]:
  "grid_wf g \<Longrightarrow> m \<in> {CHR ''A'', CHR ''B'', CHR ''C'', CHR ''D''} \<Longrightarrow> grid_wf (markPrompt e m c g)"
  by (simp add: markPrompt_def Let_def wf_promptStart wf_capRegions wf_commandStart wf_outputStart
      wf_commandEnd wf_promptShift wf_newLine wf_carriageReturn wf_emit)

lemma wf_rejectForgery [grid_inv]: "grid_wf g \<Longrightarrow> grid_wf (rejectForgery e g)"
  by (simp add: rejectForgery_def Let_def emit_def wf_defs events_ok_def)

lemma wf_oscShell [grid_inv]: "grid_wf g \<Longrightarrow> grid_wf (oscShell e rest g)"
  by (simp add: oscShell_def Let_def wf_markPrompt wf_rejectForgery split: prod.split)

subsection \<open>Images\<close>

lemma wf_nextBuffer [grid_inv]: "grid_wf (g\<lparr>m_nextBuffer := k\<rparr>) = grid_wf g"
  by (simp add: wf_defs)

lemma wf_ownImage [grid_inv]: "grid_wf g \<Longrightarrow> grid_wf (snd (ownImage img g))"
  by (simp add: ownImage_def wf_nextBuffer)

lemma wf_ownOption [grid_inv]: "grid_wf g \<Longrightarrow> grid_wf (snd (ownOption img g))"
  by (simp add: ownOption_def wf_ownImage split: option.split)

lemma ownOption_frame [simp]:
  "m_cursorRow (snd (ownOption img g)) = m_cursorRow g" "m_rows (snd (ownOption img g)) = m_rows g"
  by (simp_all add: ownOption_def ownImage_def split: option.split)

lemma placeInlineImage_frame [simp]:
  "m_cursorRow (placeInlineImage img g) = m_cursorRow g" "m_rows (placeInlineImage img g) = m_rows g"
  "m_cols (placeInlineImage img g) = m_cols g"
  by (simp_all add: placeInlineImage_def Let_def budgetAdd_def budgetRelease_def)

lemma imageCells_height: "grid_wf g \<Longrightarrow> 1 \<le> snd (imageCells ps img g)"
  using wf_dims(1) [of g] by (auto simp: imageCells_def Let_def)

lemma wf_imageCursor:
  "grid_wf g \<Longrightarrow> 0 \<le> h \<Longrightarrow> grid_wf (g\<lparr>m_cursorRow := min (m_cursorRow g + h) (m_rows g - 1), m_cursorCol := 0\<rparr>)"
  by (auto simp: wf_defs cursor_ok_def dims_ok_def)

lemma wf_handleOscImage [grid_inv]: "grid_wf g \<Longrightarrow> grid_wf (handleOscImage e pre p g)"
proof -
  assume g: "grid_wf g"
  have show_ok: "grid_wf ((placeInlineImage im k)\<lparr>m_cursorRow := min (m_cursorRow k + h) (m_rows k - 1),
      m_cursorCol := 0\<rparr>)" if "imageCells ps img k = (w, h)" "grid_wf k" for k ps img w h im
    using imageCells_height [OF that(2), of ps img] that
      wf_imageCursor [OF wf_placeInlineImage [OF that(2)], of h im] by simp
  have own: "grid_wf h" if "ownOption i g = (j, h)" for i j h
    using wf_ownOption [OF g, of i] by (simp add: that)
  show ?thesis
    using g by (auto simp: handleOscImage_def wf_writeInlineError dest: own intro: show_ok
        split: option.split prod.splits)
qed

lemma wf_handleOsc [grid_inv]: "grid_wf g \<Longrightarrow> grid_wf (handleOsc e pre p tr g)"
  by (simp add: handleOsc_def Let_def osc1337_def oscTitle_def wf_setTitle wf_oscColorQuery
      wf_handleOsc8 wf_oscClipboard wf_oscShell wf_oscUserVar wf_handleOscImage wf_oscProgress
      wf_oscNotify wf_osc777)

section \<open>DCS\<close>

lemma wf_decrqss [grid_inv]: "grid_wf g \<Longrightarrow> grid_wf (decrqss e r g)"
  by (simp add: decrqss_def Let_def wf_sendQueryResponse split: option.split)

lemma wf_placeSixel [grid_inv]: "grid_wf g \<Longrightarrow> grid_wf (placeSixel e b g)"
  using wf_ownImage [of g]
  by (auto simp: placeSixel_def wf_writeInlineError wf_placeInlineImage split_beta Let_def
      split: option.split)

lemma wf_handleDcs [grid_inv]: "grid_wf g \<Longrightarrow> grid_wf (handleDcs e p tr g)"
  by (auto simp: handleDcs_def wf_decrqss wf_writeInlineError wf_placeSixel split: option.split)

section \<open>APC\<close>

lemma wf_kittyReply [grid_inv]: "grid_wf g \<Longrightarrow> grid_wf (kittyReply e i m g)"
  by (simp add: kittyReply_def wf_sendQueryResponse)

lemma wf_stageChunk [grid_inv]: "grid_wf g \<Longrightarrow> grid_wf (stageChunk keys i b g)"
proof -
  assume g: "grid_wf g"
  have *: "grid_wf (h\<lparr>m_kittyChunkId := k\<rparr>) = grid_wf h" "grid_wf (h\<lparr>m_kittyChunkParams := ps\<rparr>) = grid_wf h"
    for h k ps by (simp_all add: wf_defs)
  have "grid_wf (h\<lparr>m_kittyChunkBuffer := c\<rparr>)" if "grid_wf h" "length c \<le> kMaxKittyChunkBytes" for h c
    using that by (simp add: wf_defs images_ok_def)
  then show ?thesis
    using g by (simp add: stageChunk_def Let_def * wf_resetKittyChunk)
qed

text \<open>The cache and its order list, apart from the images on screen.\<close>

definition cache_ok :: "(u32 \<times> qimage) list \<Rightarrow> u32 list \<Rightarrow> bool" where
  "cache_ok kit ord \<longleftrightarrow> distinct ord \<and> distinct (map fst kit) \<and> set ord = set (map fst kit)"

lemma wf_cache_upd:
  "grid_wf g \<Longrightarrow> cache_ok kit ord \<Longrightarrow> length kit \<le> MAX_KITTY_CACHE \<Longrightarrow>
   grid_wf (g\<lparr>m_kittyImages := kit, m_kittyImageOrder := ord\<rparr>)"
  by (simp add: wf_defs images_ok_def cache_ok_def)

lemma wf_cache: "grid_wf g \<Longrightarrow> cache_ok (m_kittyImages g) (m_kittyImageOrder g)"
  "grid_wf g \<Longrightarrow> length (m_kittyImages g) \<le> MAX_KITTY_CACHE"
  using wf_parts(13) [of g] by (simp_all add: images_ok_def cache_ok_def)

lemma cache_ok_remove:
  "cache_ok kit ord \<Longrightarrow> cache_ok (filter (\<lambda>kv. fst kv \<noteq> i) kit) (remove1 i ord)"
  by (auto simp: cache_ok_def distinct_map intro: inj_on_subset)

text \<open>\<open>sameBut g h\<close>: \<open>h\<close> differs from \<open>g\<close> at most in the image cache and the budget.\<close>

definition dropCache :: "grid \<Rightarrow> grid" where
  "dropCache g = g\<lparr>m_kittyImages := [], m_kittyImageOrder := [], m_imageBudget := 0\<rparr>"

lemma wf_from_cache:
  assumes "grid_wf g" "dropCache h = dropCache g" "cache_ok (m_kittyImages h) (m_kittyImageOrder h)"
    "length (m_kittyImages h) \<le> MAX_KITTY_CACHE"
  shows "grid_wf h"
proof -
  have "h = (dropCache h)\<lparr>m_kittyImages := m_kittyImages h, m_kittyImageOrder := m_kittyImageOrder h,
      m_imageBudget := m_imageBudget h\<rparr>" by (simp add: dropCache_def)
  moreover have "grid_wf ((dropCache g)\<lparr>m_kittyImages := m_kittyImages h,
      m_kittyImageOrder := m_kittyImageOrder h, m_imageBudget := m_imageBudget h\<rparr>)"
    using wf_cache_upd [OF assms(1,3,4)] by (simp add: dropCache_def wf_imageBudget)
  ultimately show ?thesis using assms(2) by metis
qed

lemma dropCache_simps [simp]:
  "dropCache (releaseCached i g) = dropCache g" "dropCache (kittyErase i g) = dropCache g"
  "dropCache (budgetAdd b g) = dropCache g" "dropCache (g\<lparr>m_kittyImageOrder := ord\<rparr>) = dropCache g"
  "dropCache (g\<lparr>m_kittyImages := kit\<rparr>) = dropCache g"
  by (simp_all add: dropCache_def releaseCached_def kittyErase_def budgetAdd_def budgetRelease_def
      split: option.split)

lemma cache_fields [simp]:
  "m_kittyImages (releaseCached i g) = m_kittyImages g"
  "m_kittyImageOrder (releaseCached i g) = m_kittyImageOrder g"
  "m_kittyImages (kittyErase i g) = filter (\<lambda>kv. fst kv \<noteq> i) (m_kittyImages g)"
  "m_kittyImageOrder (kittyErase i g) = m_kittyImageOrder g"
  "m_kittyImages (budgetAdd b g) = m_kittyImages g"
  "m_kittyImageOrder (budgetAdd b g) = m_kittyImageOrder g"
  by (simp_all add: releaseCached_def kittyErase_def budgetAdd_def budgetRelease_def split: option.split)

lemma dropCache_evict [simp]: "dropCache (evictKitty ord g) = dropCache g"
  by (induction ord g rule: evictKitty.induct) simp_all

text \<open>
  Eviction leaves the cache below its cap whenever the order list holds every cached id, give
  or take the one about to be replaced.
\<close>

lemma evictKitty_cache:
  assumes "distinct ord" "distinct (map fst (m_kittyImages g))" "i \<notin> set ord"
    "set ord = fst ` set (m_kittyImages g) - {i}"
  shows "distinct (m_kittyImageOrder (evictKitty ord g)) \<and>
    distinct (map fst (m_kittyImages (evictKitty ord g))) \<and>
    i \<notin> set (m_kittyImageOrder (evictKitty ord g)) \<and>
    set (m_kittyImageOrder (evictKitty ord g)) = fst ` set (m_kittyImages (evictKitty ord g)) - {i} \<and>
    length (m_kittyImages (evictKitty ord g)) < MAX_KITTY_CACHE"
  using assms
proof (induction ord g rule: evictKitty.induct)
  case (1 g)
  then have "fst ` set (m_kittyImages g) \<subseteq> {i}" by auto
  then have "length (m_kittyImages g) \<le> 1"
    using "1.prems"(2) card_mono [of "{i}" "fst ` set (m_kittyImages g)"] distinct_card [of "map fst (m_kittyImages g)"]
    by simp
  then show ?case using 1 by (simp add: MAX_KITTY_CACHE_def)
next
  case (2 oldest order g)
  show ?case
  proof (cases "length (m_kittyImages g) \<ge> MAX_KITTY_CACHE")
    case False
    then show ?thesis using 2 by simp
  next
    case True
    have d: "distinct (map fst (filter (\<lambda>kv. fst kv \<noteq> oldest) (m_kittyImages g)))"
      using "2.prems"(2) by (auto simp: distinct_map intro: inj_on_subset)
    have "set order = fst ` set (filter (\<lambda>kv. fst kv \<noteq> oldest) (m_kittyImages g)) - {i}"
      using "2.prems" by auto
    then show ?thesis using "2.IH" [OF True] "2.prems" True d by simp
  qed
qed

lemma wf_storeKitty [grid_inv]: "grid_wf g \<Longrightarrow> grid_wf (storeKitty i img g)"
proof -
  assume g: "grid_wf g"
  define h where "h = (if map_of (m_kittyImages g) i = None then g
      else (releaseCached i g)\<lparr>m_kittyImageOrder := remove1 i (m_kittyImageOrder (releaseCached i g))\<rparr>)"
  have c: "distinct (m_kittyImageOrder g)" "distinct (map fst (m_kittyImages g))"
      "set (m_kittyImageOrder g) = fst ` set (m_kittyImages g)"
    using wf_cache(1) [OF g] by (simp_all add: cache_ok_def)
  have h: "distinct (m_kittyImageOrder h)" "distinct (map fst (m_kittyImages h))"
      "i \<notin> set (m_kittyImageOrder h)" "set (m_kittyImageOrder h) = fst ` set (m_kittyImages h) - {i}"
      "dropCache h = dropCache g"
    using c by (auto simp: h_def map_of_eq_None_iff)
  define k where "k = evictKitty (m_kittyImageOrder h) h"
  note ev = evictKitty_cache [OF h(1-4), folded k_def]
  let ?r = "storeKitty i img g"
  have r: "m_kittyImages ?r = (i, img) # filter (\<lambda>kv. fst kv \<noteq> i) (m_kittyImages k)"
      "m_kittyImageOrder ?r = m_kittyImageOrder k @ [i]" "dropCache ?r = dropCache g"
    using h(5) by (simp_all add: storeKitty_def Let_def k_def h_def)
  have "distinct (map fst (filter (\<lambda>kv. fst kv \<noteq> i) (m_kittyImages k)))"
    using ev by (auto simp: distinct_map intro: inj_on_subset)
  then have "cache_ok (m_kittyImages ?r) (m_kittyImageOrder ?r)"
    using ev by (auto simp: cache_ok_def r)
  moreover have "length (filter (\<lambda>kv. fst kv \<noteq> i) (m_kittyImages k)) < MAX_KITTY_CACHE"
    using ev length_filter_le [of "\<lambda>kv. fst kv \<noteq> i" "m_kittyImages k"] by linarith
  ultimately show ?thesis
    by (intro wf_from_cache [OF g r(3)]) (simp_all add: r)
qed

lemma wf_kittyDelete [grid_inv]: "grid_wf g \<Longrightarrow> grid_wf (kittyDelete keys i g)"
proof -
  assume g: "grid_wf g"
  have i: "images_ok (m_inlineImages g) (m_altInlineImages g) (m_kittyImages g) (m_kittyImageOrder g)
      (m_kittyChunkBuffer g)" by (rule wf_parts(13) [OF g])
  then have "images_ok (filter P (m_inlineImages g)) (m_altInlineImages g) [] [] (m_kittyChunkBuffer g)" for P
    using order_trans [OF length_filter_le [of P "m_inlineImages g"]] by (simp add: images_ok_def)
  then have "grid_wf (recomputeImageBudget (g\<lparr>m_kittyImages := [], m_kittyImageOrder := [],
      m_inlineImages := filter P (m_inlineImages g)\<rparr>))" for P
    using g by (simp add: recomputeImageBudget_def wf_defs)
  moreover have "grid_wf ((kittyErase i (releaseCached i g))\<lparr>m_kittyImageOrder := remove1 i (m_kittyImageOrder g)\<rparr>)"
    using cache_ok_remove [OF wf_cache(1) [OF g], of i]
      le_trans [OF length_filter_le wf_cache(2) [OF g], of "\<lambda>kv. fst kv \<noteq> i"]
    by (intro wf_from_cache [OF g]) auto
  ultimately show ?thesis using g by (simp add: kittyDelete_def Let_def)
qed

lemma wf_kittyDisplay [grid_inv]: "grid_wf g \<Longrightarrow> grid_wf (kittyDisplay keys a i img g)"
  by (simp add: kittyDisplay_def Let_def wf_placeInlineImage split: option.split)

lemma wf_kittyDecode [grid_inv]: "grid_wf g \<Longrightarrow> grid_wf (snd (kittyDecode e pre keys f full g))"
proof -
  assume g: "grid_wf g"
  have own: "grid_wf h" if "ownOption i g = (j, h)" for i j h
    using wf_ownOption [OF g, of i] by (simp add: that)
  show ?thesis
    using g wf_ownOption [OF g]
    by (auto simp: kittyDecode_def decodePng_def dest: own split: option.split prod.split)
qed

lemma wf_kittyFrame [grid_inv]: "grid_wf g \<Longrightarrow> grid_wf (kittyFrame e pre keys i full g)"
proof -
  assume g: "grid_wf g"
  obtain img h where d: "kittyDecode e pre keys (keyInt keys CHR ''f'' 32) full g = (img, h)"
    by (cases "kittyDecode e pre keys (keyInt keys CHR ''f'' 32) full g")
  have "grid_wf h" using wf_kittyDecode [OF g, of e pre keys "keyInt keys CHR ''f'' 32" full] by (simp add: d)
  then show ?thesis
    using g by (simp add: kittyFrame_def d Let_def wf_kittyReply wf_kittyDelete wf_storeKitty
        wf_kittyDisplay split: option.split)
qed

lemma wf_handleApc [grid_inv]: "grid_wf g \<Longrightarrow> grid_wf (handleApc e pre p tr g)"
  by (simp add: handleApc_def Let_def wf_stageChunk wf_resetKittyChunk wf_kittyFrame)

section \<open>ESC and the whole step\<close>

lemma wf_inv: "grid_wf g \<Longrightarrow> grid_inv g"
  by (simp add: grid_wf_def)

lemma wf_fullReset [grid_inv]: "grid_wf g \<Longrightarrow> grid_wf (fullReset e g)"
proof -
  assume g: "grid_wf g"
  let ?k = "TerminalGrid e (m_rows g) (m_cols g)"
  have k: "grid_wf ?k" by (rule grid_wf_TerminalGrid) (use wf_dims [OF g] in simp_all)
  have "quota_ok (m_quotas g) (m_queryRespQuota ?k)"
    using wf_parts(15) [OF g] wf_parts(15) [OF k] by (simp add: quota_ok_def)
  then have "grid_wf (?k\<lparr>m_callbacks := m_callbacks g, m_osc133Key := m_osc133Key g,
      m_quotas := m_quotas g, m_events := m_events g, m_nextBuffer := m_nextBuffer g\<rparr>)"
    using k wf_parts(18) [OF g] by (simp add: wf_defs)
  then show ?thesis
    unfolding fullReset_def Let_def
    by (intro wf_setMaxScrollbackMib wf_setMaxScrollback wf_inv wf_setDefaultBg wf_setDefaultFg)
qed

lemma wf_setTabStop [grid_inv]: "grid_wf g \<Longrightarrow> grid_wf (setTabStop g)"
  by (simp add: setTabStop_def wf_defs tabs_ok_def)

lemma wf_handleEsc [grid_inv]: "grid_wf g \<Longrightarrow> grid_wf (handleEsc e c im g)"
  by (simp add: handleEsc_def Let_def wf_wrapNext wf_reverseIndex wf_newLine wf_carriageReturn
      wf_saveCursor wf_restoreCursor wf_setTabStop wf_modeFlags wf_fullReset)

lemma wf_processAction: "grid_wf g \<Longrightarrow> grid_wf (processAction e pre a g)"
  by (cases a) (simp_all add: processAction_def Let_def wf_handlePrint wf_handleAsciiPrintRun
      wf_handleExecute wf_handleCsi wf_handleEsc wf_handleOsc wf_handleDcs wf_handleApc)

end
