(* ===== verification/GridResizeInv.thy ===== *)
theory GridResizeInv
  imports GridActionInv
begin

text \<open>
  \<open>resize\<close> keeps the invariant at the new size. The proof follows the code: joining and
  wrapping produce rows of the new width with their combining characters in bounds, the
  scrollback side is an instance of what appending and eviction keep, and the last steps bring
  the cursors, the regions, the tab stops and the side tables to the new size.
\<close>

section \<open>Joining and wrapping\<close>

definition comb_line :: "term_line \<Rightarrow> bool" where
  "comb_line l \<longleftrightarrow> comb_ok (combining l)"

lemma comb_ok_fold_set:
  "comb_ok m \<Longrightarrow> list_all (\<lambda>kv. length (snd kv) \<le> MAX_COMBINING_PER_CELL) xs \<Longrightarrow>
   comb_ok (fold (\<lambda>kv. combSet (f kv) (snd kv)) xs m)"
  by (induction xs arbitrary: m) (simp_all add: comb_ok_Set)

lemma joinLine_comb: "comb_line l \<Longrightarrow> comb_ok (l_combining cur) \<Longrightarrow> comb_ok (l_combining (joinLine l cur))"
  by (auto simp: joinLine_def Let_def comb_line_def comb_ok_def [of "combining l"] list_all_iff
      intro!: comb_ok_fold_set)

lemma joinLoop_comb:
  "list_all comb_line ls \<Longrightarrow> comb_ok (l_combining cur) \<Longrightarrow>
   list_all (\<lambda>l. comb_ok (l_combining l)) (joinLoop ls cur)"
  by (induction ls cur rule: joinLoop.induct) (simp_all add: joinLine_comb logical0_def)

lemma comb_ok_takeComb: "comb_ok m \<Longrightarrow> comb_ok (takeComb p n m)"
  unfolding takeComb_def by (intro comb_ok_map_keys comb_ok_filter) (auto simp: inj_on_def)

lemma chunkLen_range: "0 < w \<Longrightarrow> cs \<noteq> [] \<Longrightarrow> 0 < chunkLen w cs \<and> chunkLen w cs \<le> w \<and> chunkLen w cs \<le> int (length cs)"
  by (cases cs) (auto simp: chunkLen_def Let_def)

lemma wrapRow_ok:
  "comb_ok m \<Longrightarrow> int (length blanks) = w \<Longrightarrow> 0 \<le> n \<Longrightarrow> n \<le> w \<Longrightarrow> n \<le> int (length cs) \<Longrightarrow>
   line_ok w (wrapRow n blanks p m cs)"
  by (simp add: wrapRow_def line_ok_def comb_ok_takeComb line0_def min_def) linarith

lemma rewrapLoop_ok:
  assumes "comb_ok m" "int (length blanks) = w"
  shows "list_all (line_ok w) (rewrapLoop w blanks p m cs)"
  using assms
proof (induction w blanks p m cs rule: rewrapLoop.induct)
  case (1 w blanks p m cs)
  show ?case
  proof (cases "cs = [] \<or> chunkLen w cs \<le> 0")
    case True
    then show ?thesis by (subst rewrapLoop.simps) (simp add: Let_def)
  next
    case False
    then have "0 < w" by (cases "0 < w") (auto simp: chunkLen_def Let_def min_def split: if_splits)
    then have "line_ok w (wrapRow (chunkLen w cs) blanks p m cs)"
      using False "1.prems" chunkLen_range [of w cs] by (intro wrapRow_ok) auto
    then show ?thesis
      using "1.IH" [OF refl False "1.prems"] False by (subst rewrapLoop.simps) (simp add: Let_def)
  qed
qed

lemma rewrapAll_ok:
  assumes "list_all comb_line ls" "int (length blanks) = w"
  shows "list_all (line_ok w) (rewrapAll w blanks ls)"
proof -
  have "list_all (line_ok w) (rewrap w blanks l)" if "comb_ok (l_combining l)" for l
    using that assms(2) by (simp add: rewrap_def rewrapLoop_ok)
  moreover have "list_all (\<lambda>l. comb_ok (l_combining l)) (joinLogical ls)"
    using assms(1) by (simp add: joinLogical_def joinLoop_comb logical0_def)
  ultimately show ?thesis
    by (auto simp: rewrapAll_def list_all_iff)
qed

lemma comb_line_line_ok: "list_all (line_ok w) ls \<Longrightarrow> list_all comb_line ls"
  by (auto simp: list_all_iff line_ok_def comb_line_def)

lemma length_rowBlanks: "0 \<le> w \<Longrightarrow> int (length (rowBlanks w g)) = w"
  by (simp add: rowBlanks_def)

section \<open>The scrollback\<close>

lemma span_ok_clip: "list_all span_ok sp \<Longrightarrow> 0 < w \<Longrightarrow> list_all span_ok (clipSpansToCols w sp)"
  by (auto simp: clipSpansToCols_def list_all_iff span_ok_def)

lemma comb_line_inPlace: "comb_line l \<Longrightarrow> comb_line (inPlaceResize w b l)"
  by (simp add: inPlaceResize_def comb_line_def comb_ok_filter Let_def)

definition reflow_ok :: "grid \<Rightarrow> reflow \<Rightarrow> bool" where
  "reflow_ok g s \<longleftrightarrow> onlyHist g (rf_grid s) \<and> hist_inv (rf_grid s) \<and>
     list_all comb_line (rf_lines s) \<and> list_all (list_all span_ok) (rf_links s) \<and>
     length (rf_links s) = length (rf_lines s) \<and> list_all comb_line (rf_pending s)"

lemma reflow_ok_push:
  "reflow_ok g s \<Longrightarrow> comb_line l \<Longrightarrow> list_all span_ok hl \<Longrightarrow> reflow_ok g (rfPush hl l s)"
  using hist_inv_trimmed [of "rf_grid s" l] onlyHist_trans [OF _ onlyHist_trimmed [of "rf_grid s" l], of g]
    trimmed_combining [of l "rf_grid s"]
  by (cases "trimmedForScrollback l (rf_grid s)") (simp add: rfPush_def reflow_ok_def comb_line_def)

lemma reflow_ok_flush: "reflow_ok g s \<Longrightarrow> 0 \<le> w \<Longrightarrow> reflow_ok g (flushPending w s)"
proof -
  assume s: "reflow_ok g s" and w: "0 \<le> w"
  let ?rows = "rewrapAll w (rowBlanks w (rf_grid s)) (rf_pending s)"
  have "list_all comb_line ?rows"
    by (rule comb_line_line_ok [OF rewrapAll_ok [OF _ length_rowBlanks [OF w]]])
      (use s in \<open>simp add: reflow_ok_def\<close>)
  then have rows: "\<forall>l \<in> set ?rows. comb_line l" by (simp add: list_all_iff)
  have "reflow_ok g (fold (rfPush []) ?rows (s\<lparr>rf_pending := []\<rparr>))"
    by (rule fold_keeps [where P = "reflow_ok g"])
      (use s rows in \<open>simp_all add: reflow_ok_push reflow_ok_def [of g "s\<lparr>rf_pending := []\<rparr>"]
        reflow_ok_def [of g s]\<close>)
  then show ?thesis using s by (simp add: flushPending_def)
qed

lemma reflow_ok_line:
  assumes "reflow_ok g s" "0 < w" "comb_line l" "list_all span_ok hl"
  shows "reflow_ok g (reflowLine w (l, hl) s)"
proof -
  have p: "reflow_ok g (s\<lparr>rf_pending := rf_pending s @ [l]\<rparr>)" using assms(1,3) by (simp add: reflow_ok_def)
  show ?thesis
    using assms p reflow_ok_flush [OF p, of w]
    by (auto simp: reflowLine_def Let_def intro!: reflow_ok_push span_ok_clip comb_line_inPlace)
qed

lemma withLinks_ok:
  assumes "list_all comb_line ls" "list_all (list_all span_ok) hls" "(l, hl) \<in> set (withLinks ls hls)"
  shows "comb_line l \<and> list_all span_ok hl"
proof -
  have "l \<in> set ls" "hl \<in> set (hls @ replicate (length ls) [])"
    using assms(3) unfolding withLinks_def by (rule set_zip_leftD, rule set_zip_rightD)
  then show ?thesis using assms(1,2) by (auto simp: list_all_iff)
qed

lemma hist_reflowScrollback:
  assumes "hist_inv g" "hist_cap g" "0 < w"
  shows "hist_inv (reflowScrollback w g) \<and> hist_cap (reflowScrollback w g) \<and> onlyHist g (reflowScrollback w g)"
proof (cases "w = m_cols g \<or> m_scrollback g = []")
  case True
  then show ?thesis using assms by (simp add: reflowScrollback_def)
next
  case False
  let ?s0 = "\<lparr>rf_lines = [], rf_links = [], rf_pending = [], rf_grid = g\<rparr>"
  let ?in = "withLinks (m_scrollback g) (m_scrollbackHyperlinks g)"
  have l: "comb_line l \<and> list_all span_ok hl" if "(l, hl) \<in> set ?in" for l hl
    by (rule withLinks_ok [OF _ _ that])
      (use assms(1) in \<open>simp_all add: hist_inv_def hist_ok_def comb_line_def list_all_iff\<close>)
  have "reflow_ok g (fold (reflowLine w) ?in ?s0)"
  proof (rule fold_keeps [where P = "reflow_ok g"])
    show "reflow_ok g ?s0" using assms(1) by (simp add: reflow_ok_def)
  next
    fix x s assume x: "x \<in> set ?in" and s: "reflow_ok g s"
    obtain k hl where "x = (k, hl)" by (cases x)
    then show "reflow_ok g (reflowLine w x s)"
      using l [of k hl] x s assms(3) by (simp add: reflow_ok_line)
  qed
  then have s: "reflow_ok g (flushPending w (fold (reflowLine w) ?in ?s0))"
    using assms(3) by (simp add: reflow_ok_flush)
  define s where "s = flushPending w (fold (reflowLine w) ?in ?s0)"
  define h where "h = (rf_grid s)\<lparr>m_scrollback := rf_lines s, m_scrollbackHyperlinks := rf_links s,
      m_scrollbackBytes := sum_list (map cellBytes (rf_lines s))\<rparr>"
  have "hist_inv h" "onlyHist g h"
    using s by (auto simp: s_def [symmetric] h_def reflow_ok_def hist_inv_def hist_ok_def comb_line_def
        onlyHist_def list_all_iff)
  then have "hist_inv (trimScrollbackToCap h) \<and> hist_cap (trimScrollbackToCap h) \<and> onlyHist g (trimScrollbackToCap h)"
    using evictLoop_hist [of h] onlyHist_trans [OF _ onlyHist_evictLoop, of g h] by (simp add: trim_evict)
  then show ?thesis using False by (simp add: reflowScrollback_def h_def s_def Let_def)
qed

section \<open>One screen\<close>

lemma pushOverflow_ok:
  "hist_inv g \<Longrightarrow> comb_line l \<Longrightarrow> hist_inv (pushOverflow l g) \<and> onlyHist g (pushOverflow l g)"
  using hist_inv_append [of g l "[]"] onlyHist_upd(1) [OF onlyHist_append [of g l]]
  by (simp add: pushOverflow_def Let_def comb_line_def)

lemma fold_pushOverflow:
  assumes "hist_inv g" "list_all comb_line ls"
  shows "hist_inv (fold pushOverflow ls g) \<and> onlyHist g (fold pushOverflow ls g)"
proof (rule fold_keeps [where P = "\<lambda>h. hist_inv h \<and> onlyHist g h"])
  fix l h assume "l \<in> set ls" "hist_inv h \<and> onlyHist g h"
  then show "hist_inv (pushOverflow l h) \<and> onlyHist g (pushOverflow l h)"
    using assms(2) pushOverflow_ok [of h l] onlyHist_trans [of g h] by (auto simp: list_all_iff)
qed (use assms(1) in simp)

lemma list_all_take_drop: "list_all P xs \<Longrightarrow> list_all P (take n xs)" "list_all P xs \<Longrightarrow> list_all P (drop n xs)"
  by (auto simp: list_all_iff dest: in_set_takeD in_set_dropD)

lemma lines_ok_pad:
  "list_all (line_ok w) ls \<Longrightarrow> 0 \<le> rows \<Longrightarrow> 0 \<le> w \<Longrightarrow>
   lines_ok rows w (take (nat rows) ls @ replicate (nat rows - length (take (nat rows) ls)) (lineWith (rowBlanks w g)))"
  by (auto simp: lines_ok_def length_rowBlanks list_all_iff dest: in_set_takeD)

lemma reflowScreen_ok:
  assumes "hist_inv g" "list_all comb_line ls" "0 \<le> rows" "0 \<le> w"
  shows "lines_ok rows w (fst (reflowScreen rows w ls g)) \<and> hist_inv (snd (reflowScreen rows w ls g)) \<and>
    onlyHist g (snd (reflowScreen rows w ls g))"
proof -
  let ?re = "rewrapAll w (rowBlanks w g) ls"
  let ?k = "nat (max 0 (int (length ?re) - rows))"
  have re: "list_all (line_ok w) ?re"
    by (rule rewrapAll_ok [OF assms(2) length_rowBlanks [OF assms(4)]])
  have "hist_inv (fold pushOverflow (take ?k ?re) g) \<and> onlyHist g (fold pushOverflow (take ?k ?re) g)"
    by (rule fold_pushOverflow [OF assms(1) comb_line_line_ok [OF list_all_take_drop(1) [OF re]]])
  moreover have "lines_ok rows w (take (nat rows) (drop ?k ?re) @
      replicate (nat rows - length (take (nat rows) (drop ?k ?re))) (lineWith (rowBlanks w g)))"
    by (rule lines_ok_pad [OF list_all_take_drop(2) [OF re] assms(3,4)])
  ultimately show ?thesis by (simp add: reflowScreen_def Let_def)
qed

lemma copyScreen_ok:
  assumes "list_all comb_line ls" "0 \<le> rows" "0 \<le> w" "copyRows \<le> rows" "copyCols \<le> w"
  shows "lines_ok rows w (copyScreen rows copyRows copyCols (rowBlanks w g) ls)"
proof -
  have "line_ok w (copyLine copyCols (rowBlanks w g) l)" if "comb_line l" for l
    using that assms(3,5) by (auto simp: copyLine_def line_ok_def line0_def Let_def rowBlanks_def
        comb_line_def comb_ok_filter)
  then have "list_all (line_ok w) (map (copyLine copyCols (rowBlanks w g)) (take (nat copyRows) ls))"
    using assms(1) by (auto simp: list_all_iff dest: in_set_takeD)
  moreover have "take (nat rows) (map f (take (nat copyRows) ls)) = map f (take (nat copyRows) ls)"
    for f :: "term_line \<Rightarrow> term_line" using assms(4) by simp
  ultimately show ?thesis
    using lines_ok_pad [of w "map (copyLine copyCols (rowBlanks w g)) (take (nat copyRows) ls)" rows g] assms(2,3)
    by (simp add: copyScreen_def Let_def)
qed

section \<open>The whole resize\<close>

text \<open>
  \<open>dropScreen\<close> forgets what the reflow may change: the scrollback and the pool, the rows of the
  two screens, the two cursors and the saved screen's links.
\<close>

definition dropScreen :: "grid \<Rightarrow> grid" where
  "dropScreen g = (dropHist g)\<lparr>m_screenLines := [], m_cursorRow := 0, m_cursorCol := 0,
     m_altScreen := [], m_altCursorRow := 0, m_altCursorCol := 0, m_altScreenHyperlinks := []\<rparr>"

lemma dropScreen_onlyHist: "onlyHist g h \<Longrightarrow> dropScreen h = dropScreen g"
  by (simp add: dropScreen_def onlyHist_def)

lemma dropScreen_upd [simp]:
  "dropScreen (g\<lparr>m_screenLines := ls, m_cursorRow := r, m_cursorCol := c\<rparr>) = dropScreen g"
  "dropScreen (g\<lparr>m_screenLines := ls\<rparr>) = dropScreen g"
  "dropScreen (g\<lparr>m_altScreen := ls, m_altCursorRow := r, m_altCursorCol := c, m_altScreenHyperlinks := hl\<rparr>)
     = dropScreen g"
  by (simp_all add: dropScreen_def dropHist_def)

lemma hist_inv_upd [simp]:
  "hist_inv (g\<lparr>m_screenLines := ls, m_cursorRow := r, m_cursorCol := c\<rparr>) = hist_inv g"
  "hist_inv (g\<lparr>m_screenLines := ls\<rparr>) = hist_inv g"
  "hist_inv (g\<lparr>m_altScreen := ls, m_altCursorRow := r, m_altCursorCol := c, m_altScreenHyperlinks := hl\<rparr>)
     = hist_inv g"
  by (simp_all add: hist_inv_def)

lemma onlyHist_alt:
  assumes "onlyHist g h"
  shows "m_altScreen h = m_altScreen g" "m_altCursorRow h = m_altCursorRow g"
    "m_altCursorCol h = m_altCursorCol g" "m_altScreenHyperlinks h = m_altScreenHyperlinks g"
    "m_altScreenActive h = m_altScreenActive g"
proof -
  have d: "f (dropHist h) = f (dropHist g)" for f :: "grid \<Rightarrow> 'b" using assms by (simp add: onlyHist_def)
  show "m_altScreen h = m_altScreen g" "m_altCursorRow h = m_altCursorRow g"
    "m_altCursorCol h = m_altCursorCol g" "m_altScreenHyperlinks h = m_altScreenHyperlinks g"
    "m_altScreenActive h = m_altScreenActive g"
    using d [of m_altScreen] d [of m_altCursorRow] d [of m_altCursorCol] d [of m_altScreenHyperlinks]
      d [of m_altScreenActive] by (simp_all add: dropHist_def)
qed

lemma resizeLive_ok:
  assumes "hist_inv g" "list_all comb_line (m_screenLines g)" "1 \<le> rows" "1 \<le> w"
  shows "lines_ok rows w (m_screenLines (resizeLive rows w g)) \<and> hist_inv (resizeLive rows w g) \<and>
    dropScreen (resizeLive rows w g) = dropScreen g \<and>
    m_altScreen (resizeLive rows w g) = m_altScreen g \<and>
    m_altScreenHyperlinks (resizeLive rows w g) = m_altScreenHyperlinks g"
proof (cases "w \<noteq> m_cols g \<and> \<not> m_altScreenActive g")
  case True
  obtain ls h where r: "reflowScreen rows w (m_screenLines g) g = (ls, h)"
    by (cases "reflowScreen rows w (m_screenLines g) g")
  have "lines_ok rows w ls" "hist_inv h" "onlyHist g h"
    using reflowScreen_ok [OF assms(1,2), of rows w] assms(3,4) by (simp_all add: r)
  then show ?thesis
    using True by (simp add: resizeLive_def r Let_def dropScreen_onlyHist onlyHist_alt)
next
  case False
  then show ?thesis
    using assms copyScreen_ok [OF assms(2), of rows w "min rows (m_rows g)" "min w (m_cols g)" g]
    by (simp only: resizeLive_def if_not_P [OF False]) simp
qed

lemma resizeSaved_ok:
  assumes "hist_inv g" "list_all comb_line (m_altScreen g)" "1 \<le> rows" "1 \<le> w"
    "list_all (list_all span_ok) (m_altScreenHyperlinks g)" "m_altScreen g \<noteq> []"
  shows "lines_ok rows w (m_altScreen (resizeSaved rows w old g)) \<and>
    cursor_ok rows w (m_altCursorRow (resizeSaved rows w old g)) (m_altCursorCol (resizeSaved rows w old g)) \<and>
    links_ok rows (m_altScreenHyperlinks (resizeSaved rows w old g)) \<and>
    hist_inv (resizeSaved rows w old g) \<and> dropScreen (resizeSaved rows w old g) = dropScreen g \<and>
    m_screenLines (resizeSaved rows w old g) = m_screenLines g"
proof -
  obtain ls h where r: "(if w \<noteq> old then reflowScreen rows w (m_altScreen g) g
      else (copyScreen rows (min rows (int (length (m_altScreen g)))) (min w old)
              (rowBlanks w g) (m_altScreen g), g)) = (ls, h)"
    by (cases "if w \<noteq> old then reflowScreen rows w (m_altScreen g) g
      else (copyScreen rows (min rows (int (length (m_altScreen g)))) (min w old)
              (rowBlanks w g) (m_altScreen g), g)")
  have ok: "lines_ok rows w ls" "hist_inv h" "onlyHist g h"
    using reflowScreen_ok [OF assms(1,2), of rows w] assms(1,3,4) r
      copyScreen_ok [OF assms(2), of rows w "min rows (int (length (m_altScreen g)))" "min w old" g]
    by (auto split: if_splits)
  have "links_ok rows (resizeList (nat rows) [] (m_altScreenHyperlinks g))"
    using assms(3,5) by (auto simp: links_ok_def resizeList_def list_all_iff dest: in_set_takeD)
  then show ?thesis
    using ok assms(3,4,6)
    by (simp add: resizeSaved_def r Let_def dropScreen_onlyHist onlyHist_alt onlyHist_simps cursor_ok_def)
qed

lemma dropScreen_fields:
  assumes "dropScreen h = dropScreen g"
  shows "m_maxScrollback h = m_maxScrollback g" "m_maxScrollbackMib h = m_maxScrollbackMib g"
    "m_cols h = m_cols g" "m_kittyKeyFlags h = m_kittyKeyFlags g" "m_kittyKeyStack h = m_kittyKeyStack g"
    "m_altScreenActive h = m_altScreenActive g" "m_inlineImages h = m_inlineImages g"
    "m_altInlineImages h = m_altInlineImages g" "m_kittyImages h = m_kittyImages g"
    "m_kittyImageOrder h = m_kittyImageOrder g" "m_kittyChunkBuffer h = m_kittyChunkBuffer g"
    "m_promptRegions h = m_promptRegions g" "m_altPromptRegions h = m_altPromptRegions g"
    "m_nextPromptRegionId h = m_nextPromptRegionId g" "m_quotas h = m_quotas g"
    "m_queryRespQuota h = m_queryRespQuota g" "m_windowTitle h = m_windowTitle g"
    "m_progressValue h = m_progressValue g" "m_screenHyperlinks h = m_screenHyperlinks g"
    "m_events h = m_events g"
proof -
  have d: "f (dropScreen h) = f (dropScreen g)" for f :: "grid \<Rightarrow> 'b" using assms by simp
  note e = dropScreen_def dropHist_def
  show "m_maxScrollback h = m_maxScrollback g" using d [of m_maxScrollback] by (simp add: e)
  show "m_maxScrollbackMib h = m_maxScrollbackMib g" using d [of m_maxScrollbackMib] by (simp add: e)
  show "m_cols h = m_cols g" using d [of m_cols] by (simp add: e)
  show "m_kittyKeyFlags h = m_kittyKeyFlags g" using d [of m_kittyKeyFlags] by (simp add: e)
  show "m_kittyKeyStack h = m_kittyKeyStack g" using d [of m_kittyKeyStack] by (simp add: e)
  show "m_altScreenActive h = m_altScreenActive g" using d [of m_altScreenActive] by (simp add: e)
  show "m_inlineImages h = m_inlineImages g" using d [of m_inlineImages] by (simp add: e)
  show "m_altInlineImages h = m_altInlineImages g" using d [of m_altInlineImages] by (simp add: e)
  show "m_kittyImages h = m_kittyImages g" using d [of m_kittyImages] by (simp add: e)
  show "m_kittyImageOrder h = m_kittyImageOrder g" using d [of m_kittyImageOrder] by (simp add: e)
  show "m_kittyChunkBuffer h = m_kittyChunkBuffer g" using d [of m_kittyChunkBuffer] by (simp add: e)
  show "m_promptRegions h = m_promptRegions g" using d [of m_promptRegions] by (simp add: e)
  show "m_altPromptRegions h = m_altPromptRegions g" using d [of m_altPromptRegions] by (simp add: e)
  show "m_nextPromptRegionId h = m_nextPromptRegionId g" using d [of m_nextPromptRegionId] by (simp add: e)
  show "m_quotas h = m_quotas g" using d [of m_quotas] by (simp add: e)
  show "m_queryRespQuota h = m_queryRespQuota g" using d [of m_queryRespQuota] by (simp add: e)
  show "m_windowTitle h = m_windowTitle g" using d [of m_windowTitle] by (simp add: e)
  show "m_progressValue h = m_progressValue g" using d [of m_progressValue] by (simp add: e)
  show "m_screenHyperlinks h = m_screenHyperlinks g" using d [of m_screenHyperlinks] by (simp add: e)
  show "m_events h = m_events g" using d [of m_events] by (simp add: e)
qed

lemma clamp_region:
  "1 \<le> r \<Longrightarrow> region_ok r (clamp t 0 (r - 1)) (clamp b (clamp t 0 (r - 1)) (r - 1))"
  by (simp add: region_ok_def clamp_def)

lemma clamp_cursor: "1 \<le> r \<Longrightarrow> 1 \<le> c \<Longrightarrow> cursor_ok r c (clamp y 0 (r - 1)) (clamp x 0 (c - 1))"
  by (simp add: cursor_ok_def)

lemma resizeList_links: "list_all (list_all span_ok) hl \<Longrightarrow> 0 \<le> r \<Longrightarrow> links_ok r (resizeList (nat r) [] hl)"
  by (auto simp: links_ok_def resizeList_def list_all_iff dest: in_set_takeD)

text \<open>The two reflowed screens and the scrollback, before the sizes are written.\<close>

lemma resize_reflow:
  fixes old :: int
  assumes "grid_wf g" "1 \<le> rows" "1 \<le> w"
  defines "k \<equiv> trimScrollbackToCap (resizeSaved rows w old (resizeLive rows w (reflowScrollback w g)))"
  shows "hist_inv k \<and> hist_cap k \<and> dropScreen k = dropScreen g \<and> lines_ok rows w (m_screenLines k) \<and>
    alt_ok (m_altScreenActive k) rows w (m_altScreen k) (m_altCursorRow k) (m_altCursorCol k)
      (m_altScreenHyperlinks k)"
proof -
  note p = wf_parts [OF assms(1)]
  have h: "hist_inv g" "hist_cap g" using assms(1) by (simp_all add: grid_wf_def inv_hist)
  define h1 where "h1 = reflowScrollback w g"
  have h1: "hist_inv h1" "onlyHist g h1"
    using hist_reflowScrollback [OF h, of w] assms(3) by (simp_all add: h1_def)
  have s1: "list_all comb_line (m_screenLines h1)"
    using p(2) comb_line_line_ok [of "m_cols g"] by (simp add: onlyHist_simps [OF h1(2)] lines_ok_def)
  define h2 where "h2 = resizeLive rows w h1"
  note h2 = resizeLive_ok [OF h1(1) s1 assms(2,3), folded h2_def]
  define h3 where "h3 = resizeSaved rows w old h2"
  have h3: "hist_inv h3 \<and> dropScreen h3 = dropScreen g \<and> lines_ok rows w (m_screenLines h3) \<and>
    alt_ok (m_altScreenActive h3) rows w (m_altScreen h3) (m_altCursorRow h3) (m_altCursorCol h3)
      (m_altScreenHyperlinks h3)"
  proof (cases "m_altScreen h2 = []")
    case True
    then have "h3 = h2" by (simp add: h3_def resizeSaved_def)
    moreover have "m_altScreen g = []" using True h2 by (simp add: onlyHist_alt [OF h1(2)])
    then have "\<not> m_altScreenActive g"
      using p(1,12) by (auto simp: alt_ok_def lines_ok_def dims_ok_def split: if_splits)
    ultimately show ?thesis
      using h2 True dropScreen_onlyHist [OF h1(2)] dropScreen_fields(6) [of h2 g] by (simp add: alt_ok_def)
  next
    case False
    have act: "m_altScreenActive g"
      using False h2 p(12) by (auto simp: alt_ok_def onlyHist_alt [OF h1(2)] split: if_splits)
    then have a: "lines_ok (m_rows g) (m_cols g) (m_altScreen g)" "links_ok (m_rows g) (m_altScreenHyperlinks g)"
      using p(12) by (simp_all add: alt_ok_def)
    have "list_all comb_line (m_altScreen h2)" "list_all (list_all span_ok) (m_altScreenHyperlinks h2)"
      using a h2 comb_line_line_ok [of "m_cols g"] by (simp_all add: onlyHist_alt [OF h1(2)] lines_ok_def links_ok_def)
    from resizeSaved_ok [OF _ this(1) assms(2,3) this(2) False, of old, folded h3_def]
    show ?thesis
      using h2 act dropScreen_onlyHist [OF h1(2)] dropScreen_fields(6) [of h3 g] by (simp add: alt_ok_def)
  qed
  have k: "k = evictLoop h3" using h3 by (simp add: k_def h3_def h2_def h1_def trim_evict)
  have o: "onlyHist h3 k" by (simp add: k onlyHist_evictLoop)
  have "hist_inv k" "hist_cap k" using evictLoop_hist [of h3] h3 by (simp_all add: k)
  then show ?thesis
    using h3 dropScreen_onlyHist [OF o] by (simp add: onlyHist_simps [OF o] onlyHist_alt [OF o])
qed

lemma resizeRegions_ok:
  assumes "1 \<le> m_rows g"
  shows "\<exists>st sb at ab. resizeRegions a b g = g\<lparr>m_scrollTop := st, m_scrollBottom := sb,
      m_altScrollTop := at, m_altScrollBottom := ab\<rparr> \<and>
    region_ok (m_rows g) st sb \<and> region_ok (m_rows g) at ab"
proof -
  have full: "region_ok (m_rows g) 0 (m_rows g - 1)" using assms by (simp add: region_ok_def)
  note cl = clamp_region [OF assms]
  show ?thesis
    by (cases a; cases b; simp add: resizeRegions_def Let_def) (use full cl in blast)+
qed

lemma wf_resize:
  assumes "grid_wf g" "1 \<le> rows" "1 \<le> w"
  shows "grid_wf (resize rows w g)"
proof (cases "rows = m_rows g \<and> w = m_cols g")
  case True
  then show ?thesis using assms(1) by (simp add: resize_def bumpRevision_def wf_defs)
next
  case False
  define h where "h = resetKittyChunk (bumpRevision g)"
  have h: "grid_wf h" using assms(1) by (simp add: h_def wf_resetKittyChunk)
  define k where "k = trimScrollbackToCap (resizeSaved rows w (m_cols h)
    (resizeLive rows w (reflowScrollback w h)))"
  note k = resize_reflow [OF h assms(2,3), of "m_cols h", folded k_def]
  have f: "dropScreen k = dropScreen h" using k by blast
  note p = wf_parts [OF h]
  have pool: "pool_ok w (if w \<noteq> m_cols h then [] else m_freeCellBuffers k)"
    using k p(7) by (auto simp: hist_inv_def dropScreen_fields [OF f] pool_ok_def)
  have links: "list_all (list_all span_ok) (m_screenHyperlinks k)"
    using p(8) by (simp add: dropScreen_fields [OF f] links_ok_def)
  have ne: "\<not> (rows = m_rows (bumpRevision g) \<and> w = m_cols (bumpRevision g))"
    using False by (simp add: bumpRevision_def)
  let ?lf = "m_scrollTop h = 0 \<and> m_scrollBottom h = m_rows h - 1"
  let ?sf = "m_altScrollTop h = 0 \<and> m_altScrollBottom h = m_rows h - 1"
  let ?t = "resizeRegions ?lf ?sf (k\<lparr>m_rows := rows, m_cols := w\<rparr>)"
  let ?u = "(if w \<noteq> m_cols h then ?t\<lparr>m_freeCellBuffers := []\<rparr> else ?t)"
  let ?v = "dropActiveHyperlink (?u\<lparr>m_cursorRow := clamp (m_cursorRow ?u) 0 (m_rows ?u - 1),
      m_cursorCol := clamp (m_cursorCol ?u) 0 (m_cols ?u - 1)\<rparr>)"
  let ?w = "initTabStops (?v\<lparr>m_screenHyperlinks :=
      resizeList (nat (m_rows ?v)) [] (m_screenHyperlinks ?v)\<rparr>)"
  have r: "resize rows w g = markAllScreenDirty ?w"
    using ne by (simp only: resize_def Let_def h_def [symmetric] k_def [symmetric] if_not_P if_False)
  obtain st sb at ab where reg: "?t = k\<lparr>m_rows := rows, m_cols := w, m_scrollTop := st, m_scrollBottom := sb,
      m_altScrollTop := at, m_altScrollBottom := ab\<rparr>" "region_ok rows st sb" "region_ok rows at ab"
    using resizeRegions_ok [of "k\<lparr>m_rows := rows, m_cols := w\<rparr>" ?lf ?sf] assms(2) by auto
  have u: "?u = k\<lparr>m_rows := rows, m_cols := w, m_scrollTop := st, m_scrollBottom := sb,
      m_altScrollTop := at, m_altScrollBottom := ab,
      m_freeCellBuffers := (if w \<noteq> m_cols h then [] else m_freeCellBuffers k)\<rparr>"
    unfolding reg(1) by simp
  have "grid_wf ?w"
    unfolding u
    by (rule grid_wfI)
      (use k p links pool assms(2,3) reg(2,3) in \<open>simp_all add: dropActiveHyperlink_def initTabStops_def
        dims_ok_def clamp_cursor resizeList_links tabs_ok_def active_ok_def
        dropScreen_fields [OF f] hist_inv_def hist_cap_def\<close>)
  then show ?thesis by (simp add: r wf_markAllScreenDirty)
qed

end
