(* ===== verification/GridRun.thy ===== *)
theory GridRun
  imports GridResizeInv Transducer
begin

text \<open>
  The public interface of \<open>TerminalGrid\<close> as one step relation: a session is the constructor
  followed by parsed actions, resizes and the setters the widget calls, in any order. Every
  state of a session satisfies the invariant, and every callback made on the way its contract.
\<close>

section \<open>The remaining setters\<close>

definition setCursorPosition :: "int \<Rightarrow> int \<Rightarrow> grid \<Rightarrow> grid" where
  "setCursorPosition row col g = (bumpRevision g)\<lparr>m_cursorRow := row, m_cursorCol := col\<rparr>"

definition setScrollbackInsertPaused :: "bool \<Rightarrow> grid \<Rightarrow> grid" where
  "setScrollbackInsertPaused paused g = g\<lparr>m_scrollbackInsertPaused := paused\<rparr>"

definition forceClearSynchronizedOutput :: "grid \<Rightarrow> grid" where
  "forceClearSynchronizedOutput g = g\<lparr>m_synchronizedOutput := False\<rparr>"

definition setCallbacks :: "callbacks \<Rightarrow> grid \<Rightarrow> grid" where
  "setCallbacks cb g = g\<lparr>m_callbacks := cb\<rparr>"

definition sendResponse :: "string \<Rightarrow> grid \<Rightarrow> grid" where
  "sendResponse s g = (if cb_response (m_callbacks g) then emit (Response s) g else g)"

section \<open>Operations\<close>

datatype grid_op =
    Act env "predecoded_image option" vt_action
  | Resize int int
  | SetMaxScrollback int
  | SetMaxScrollbackMib int
  | SetDefaultFg qcolor
  | SetDefaultBg qcolor
  | SetTitle qstring
  | ClearScreenContent
  | ResetScrollRegion
  | PromptRegions
  | ApplyEdit env row_edit
  | PushScrollbackLine term_line
  | SetCursorPosition int int
  | SetScrollbackInsertPaused bool
  | ForceClearSynchronizedOutput
  | SetCallbacks callbacks
  | SendResponse string
  | ClearScreenLineDirty int
  | ClearAllScreenDirty

fun applyOp :: "grid_op \<Rightarrow> grid \<Rightarrow> grid" where
  "applyOp (Act e pre a) g = processAction e pre a g"
| "applyOp (Resize r c) g = resize r c g"
| "applyOp (SetMaxScrollback n) g = setMaxScrollback n g"
| "applyOp (SetMaxScrollbackMib n) g = setMaxScrollbackMib n g"
| "applyOp (SetDefaultFg c) g = setDefaultFg c g"
| "applyOp (SetDefaultBg c) g = setDefaultBg c g"
| "applyOp (SetTitle t) g = setTitle t g"
| "applyOp ClearScreenContent g = clearScreenContent g"
| "applyOp ResetScrollRegion g = resetScrollRegion g"
| "applyOp PromptRegions g = applyPromptRegionShift g"
| "applyOp (ApplyEdit e ed) g = applyEdit e ed g"
| "applyOp (PushScrollbackLine l) g = pushScrollbackLine l g"
| "applyOp (SetCursorPosition r c) g = setCursorPosition r c g"
| "applyOp (SetScrollbackInsertPaused b) g = setScrollbackInsertPaused b g"
| "applyOp ForceClearSynchronizedOutput g = forceClearSynchronizedOutput g"
| "applyOp (SetCallbacks cb) g = setCallbacks cb g"
| "applyOp (SendResponse s) g = sendResponse s g"
| "applyOp (ClearScreenLineDirty r) g = clearScreenLineDirty r g"
| "applyOp ClearAllScreenDirty g = clearAllScreenDirty g"

text \<open>
  What the callers keep: sizes are positive, a restored line respects the combining cap, and
  \<open>setCursorPosition\<close>, which does not clamp, is called inside the grid.
\<close>

fun op_allowed :: "grid_op \<Rightarrow> grid \<Rightarrow> bool" where
  "op_allowed (Resize r c) g \<longleftrightarrow> 1 \<le> r \<and> 1 \<le> c"
| "op_allowed (PushScrollbackLine l) g \<longleftrightarrow> comb_ok (combining l)"
| "op_allowed (SetCursorPosition r c) g \<longleftrightarrow> 0 \<le> r \<and> r < m_rows g \<and> 0 \<le> c \<and> c < m_cols g"
| "op_allowed _ g \<longleftrightarrow> True"

inductive session :: "grid \<Rightarrow> bool" where
  Start: "1 \<le> rows \<Longrightarrow> 1 \<le> w \<Longrightarrow> session (TerminalGrid e rows w)"
| Step: "session g \<Longrightarrow> op_allowed op g \<Longrightarrow> session (applyOp op g)"

inductive_cases session_cases: "session g"

section \<open>The invariant of a session\<close>

lemma wf_setCursorPosition:
  "grid_wf g \<Longrightarrow> 0 \<le> r \<Longrightarrow> r < m_rows g \<Longrightarrow> 0 \<le> c \<Longrightarrow> c < m_cols g \<Longrightarrow> grid_wf (setCursorPosition r c g)"
  by (simp add: setCursorPosition_def bumpRevision_def wf_defs cursor_ok_def)

lemma wf_flags:
  "grid_wf (setScrollbackInsertPaused b g) = grid_wf g"
  "grid_wf (forceClearSynchronizedOutput g) = grid_wf g" "grid_wf (setCallbacks cb g) = grid_wf g"
  by (simp_all add: setScrollbackInsertPaused_def forceClearSynchronizedOutput_def setCallbacks_def wf_defs)

lemma wf_sendResponse: "grid_wf g \<Longrightarrow> grid_wf (sendResponse s g)"
  by (simp add: sendResponse_def wf_emit)

lemma wf_applyOp: "grid_wf g \<Longrightarrow> op_allowed op g \<Longrightarrow> grid_wf (applyOp op g)"
  by (cases op)
    (simp_all add: wf_processAction wf_resize wf_setMaxScrollback wf_setMaxScrollbackMib wf_inv
      wf_setDefaultFg wf_setDefaultBg wf_setTitle wf_clearScreenContent wf_resetScrollRegion
      wf_promptShift wf_applyEdit wf_pushScrollbackLine wf_setCursorPosition wf_flags wf_sendResponse
      wf_clearScreenLineDirty wf_clearAllScreenDirty)

lemma session_wf: "session g \<Longrightarrow> grid_wf g"
  by (induction rule: session.induct) (simp_all add: grid_wf_TerminalGrid wf_applyOp)

text \<open>
  The whole pipeline behind the parser: actions in order, each with the environment of its
  moment. The step function is one instance of the contract of \<open>step_invariant\<close>, with the
  state's event log as its output.
\<close>

definition actStep :: "env \<times> predecoded_image option \<times> vt_action \<Rightarrow> grid \<Rightarrow> event list \<times> grid" where
  "actStep x g = (case x of (e, pre, a) \<Rightarrow> (m_events (processAction e pre a g), processAction e pre a g))"

interpretation gridrun: step_invariant actStep "\<lambda>_. True" grid_wf event_ok
proof
  fix b :: "env \<times> predecoded_image option \<times> vt_action" and s :: grid
  assume "grid_wf s"
  obtain e pre a where b: "b = (e, pre, a)" by (cases b)
  have k: "grid_wf (processAction e pre a s)" using \<open>grid_wf s\<close> by (rule wf_processAction)
  then show "grid_wf (snd (actStep b s))" by (simp add: b actStep_def)
  show "list_all event_ok (fst (actStep b s))"
    using wf_parts(18) [OF k] by (simp add: b actStep_def events_ok_def)
qed

definition runActions :: "(env \<times> predecoded_image option \<times> vt_action) list \<Rightarrow> grid \<Rightarrow> grid" where
  "runActions xs g = fold (\<lambda>(e, pre, a). processAction e pre a) xs g"

lemma runActions_steps: "runActions xs g = snd (run_steps actStep xs g)"
  by (induction xs arbitrary: g) (simp_all add: runActions_def run_steps_Cons actStep_def split_beta
      del: run_steps.simps(2))

lemma wf_runActions: "grid_wf g \<Longrightarrow> grid_wf (runActions xs g)"
  unfolding runActions_steps by (rule gridrun.run_keeps) (simp_all add: list_all_iff)

end
