(* ===== verification/VtStreamInv.thy ===== *)
theory VtStreamInv
  imports VtStreamFrame VtParserFeed GridRun
begin

text \<open>
  The parse worker delivers what the parser produced: the builder's run pointers resolve to the
  bytes the parser saw, batches carry the pending actions in order with their images, and the
  flow control neither loses nor strands anything.
\<close>

section \<open>The parser's run pointers\<close>

definition leadRun :: "simd \<Rightarrow> u8 list \<Rightarrow> vt_parser \<Rightarrow> nat" where
  "leadRun arch data p = (if m_state p = Ground \<and> m_utf8Remaining p = 0 then scanSafeAsciiRun arch data else 0)"

lemma feed_unfold:
  "feed arch [] p = ([], p)" "feedAt arch base [] p = ([], p)"
  "data \<noteq> [] \<Longrightarrow> drop (leadRun arch data p) data = [] \<Longrightarrow>
     feed arch data p = (if leadRun arch data p > 0 then [PrintRun (take (leadRun arch data p) data)] else [], p)"
  "data \<noteq> [] \<Longrightarrow> drop (leadRun arch data p) data = [] \<Longrightarrow>
     feedAt arch base data p = (if leadRun arch data p > 0 then [ParsedRun base (take (leadRun arch data p) data)] else [], p)"
  "drop (leadRun arch data p) data = b # bs \<Longrightarrow>
     feed arch data p = ((if leadRun arch data p > 0 then [PrintRun (take (leadRun arch data p) data)] else [])
       @ fst (feedByte b p) @ fst (feed arch bs (snd (feedByte b p))), snd (feed arch bs (snd (feedByte b p))))"
  "drop (leadRun arch data p) data = b # bs \<Longrightarrow>
     feedAt arch base data p = ((if leadRun arch data p > 0 then [ParsedRun base (take (leadRun arch data p) data)] else [])
       @ map Parsed (fst (feedByte b p)) @ fst (feedAt arch (base + of_nat (leadRun arch data p) + 1) bs (snd (feedByte b p))),
       snd (feedAt arch (base + of_nat (leadRun arch data p) + 1) bs (snd (feedByte b p))))"
  by (subst feed.simps feedAt.simps, auto simp: leadRun_def Let_def split_beta)+

text \<open>Induction over a buffer, byte by byte after each run.\<close>

lemma feed_cut_induct:
  assumes "\<And>base p. P base [] p"
    "\<And>base data p. data \<noteq> [] \<Longrightarrow> drop (leadRun arch data p) data = [] \<Longrightarrow> P base data p"
    "\<And>base data p b bs. drop (leadRun arch data p) data = b # bs \<Longrightarrow>
       P (base + of_nat (leadRun arch data p) + 1) bs (snd (feedByte b p)) \<Longrightarrow> P base data p"
  shows "P base data p"
proof (induction data arbitrary: base p rule: length_induct)
  case (1 data base p)
  show ?case
  proof (cases "drop (leadRun arch data p) data")
    case Nil
    then show ?thesis using assms(1,2) by (cases "data = []") auto
  next
    case (Cons b bs)
    have "length bs < length (drop (leadRun arch data p) data)" using Cons by simp
    then have "length bs < length data" by simp
    with 1 show ?thesis by (intro assms(3) [OF Cons]) blast
  qed
qed

lemma feedAt_feed:
  "map parsedAction (fst (feedAt arch base data p)) = fst (feed arch data p) \<and>
   snd (feedAt arch base data p) = snd (feed arch data p)"
proof (induction base data p rule: feed_cut_induct [where arch = arch])
  case (3 base data p b bs)
  have "map (parsedAction \<circ> Parsed) as = as" for as by (induction as) simp_all
  then show ?case using 3(2) by (simp add: feed_unfold(5,6) [OF 3(1)])
qed (simp_all add: feed_unfold)

text \<open>A run action points into the buffer, at the bytes it stands for.\<close>

definition run_at :: "u64 \<Rightarrow> u8 list \<Rightarrow> parsed \<Rightarrow> bool" where
  "run_at base data a \<longleftrightarrow>
     (case a of Parsed _ \<Rightarrow> True
      | ParsedRun r bs \<Rightarrow> \<exists>i. r = base + of_nat i \<and> bs \<noteq> [] \<and> i + length bs \<le> length data \<and>
          bs = take (length bs) (drop i data))"

lemma run_at_shift:
  assumes "run_at (base + of_nat k + 1) (drop (Suc k) data) a" "k < length data"
  shows "run_at base data a"
proof (cases a)
  case (ParsedRun r bs)
  then obtain i where i: "r = base + of_nat k + 1 + of_nat i" "bs \<noteq> []"
    "i + length bs \<le> length (drop (Suc k) data)" "bs = take (length bs) (drop i (drop (Suc k) data))"
    using assms(1) by (auto simp: run_at_def)
  have "r = base + of_nat (Suc k + i)" "Suc k + i + length bs \<le> length data"
    "bs = take (length bs) (drop (Suc k + i) data)"
    using i assms(2) by (simp_all add: add_ac)
  then have "\<exists>j. r = base + of_nat j \<and> bs \<noteq> [] \<and> j + length bs \<le> length data \<and> bs = take (length bs) (drop j data)"
    using i(2) by blast
  then show ?thesis by (simp only: run_at_def ParsedRun parsed.case)
qed (simp add: run_at_def)

lemma run_at_Parsed: "list_all (run_at base data) (map Parsed as)"
  by (simp add: list_all_iff run_at_def)

lemma feedAt_runs: "list_all (run_at base data) (fst (feedAt arch base data p))"
proof (induction base data p rule: feed_cut_induct [where arch = arch])
  case (2 base data p)
  have "leadRun arch data p \<le> length data" using scan_le_length by (simp add: leadRun_def)
  then show ?case using 2 by (auto simp: feed_unfold(4) [OF 2] run_at_def intro!: exI [of _ 0])
next
  case (3 base data p b bs)
  have k: "leadRun arch data p < length data" "bs = drop (Suc (leadRun arch data p)) data"
    using 3(1) by (metis drop_all leI list.distinct(1), metis drop_Suc list.sel(3) tl_drop)
  have "list_all (run_at base data)
      (fst (feedAt arch (base + of_nat (leadRun arch data p) + 1) bs (snd (feedByte b p))))"
    using 3(2) run_at_shift [OF _ k(1)] unfolding k(2) by (auto simp: list_all_iff)
  moreover have "list_all (run_at base data)
      (if leadRun arch data p > 0 then [ParsedRun base (take (leadRun arch data p) data)] else [])"
    using k(1) by (auto simp: run_at_def intro!: exI [of _ 0])
  ultimately show ?case by (simp add: feed_unfold(6) [OF 3(1)] run_at_Parsed)
qed (simp add: feed_unfold)

section \<open>The builder\<close>

definition resolved :: "batch_builder \<Rightarrow> shipped list" where
  "resolved b = resolveRuns (m_runs b) (map unresolved (m_actions b))"

fun in_raw :: "u8 list \<Rightarrow> shipped \<Rightarrow> bool" where
  "in_raw raw (Shipped a) \<longleftrightarrow> True"
| "in_raw raw (ShippedRun (Some off) n) \<longleftrightarrow> off + n \<le> length raw"
| "in_raw raw (ShippedRun None n) \<longleftrightarrow> False"

text \<open>Every run of the batch will point into the batch's own bytes.\<close>

definition builder_ok :: "batch_builder \<Rightarrow> bool" where
  "builder_ok b \<longleftrightarrow> list_all (\<lambda>r. fst r < length (m_actions b)) (m_runs b) \<and>
     list_all (in_raw (m_raw b)) (resolved b)"

lemma builder_ok0: "builder_ok builder0" "resolved builder0 = []"
  by (simp_all add: builder_ok_def builder0_def resolved_def resolveRuns_def)

lemma length_resolve [simp]: "length (resolveRuns rs as) = length as"
  by (induction rs arbitrary: as) (auto simp: resolveRuns_def)

lemma resolve_append:
  "list_all (\<lambda>r. fst r < length as) rs \<Longrightarrow> resolveRuns rs (as @ bs) = resolveRuns rs as @ bs"
  by (induction rs arbitrary: as) (auto simp: resolveRuns_def list_update_append nth_append)

lemma resolve_run:
  "list_all (\<lambda>r. fst r < length as) rs \<Longrightarrow>
   resolveRuns (rs @ [(length as, off)]) (as @ [ShippedRun None n]) = resolveRuns rs as @ [ShippedRun (Some off) n]"
proof -
  assume "list_all (\<lambda>r. fst r < length as) rs"
  note r = resolve_append [OF this, of "[ShippedRun None n]"]
  have "resolveRuns (rs @ [(length as, off)]) xs = (resolveRuns rs xs)[length as := pointAt off (resolveRuns rs xs ! length as)]" for xs
    by (simp add: resolveRuns_def)
  then show ?thesis by (simp add: r list_update_append nth_append)
qed

lemma in_raw_read:
  "in_raw raw x \<Longrightarrow> in_raw (raw @ later) x \<and> readAction (raw @ later) x = readAction raw x"
  by (cases "(raw, x)" rule: in_raw.cases) auto

text \<open>While a buffer is being fed: the parser's pointers are understood.\<close>

definition feeding :: "u64 \<Rightarrow> u8 list \<Rightarrow> batch_builder \<Rightarrow> bool" where
  "feeding base data b \<longleftrightarrow> m_feedBase b = Some base \<and> m_feedLen b = length data \<and>
     (\<exists>old. m_raw b = old @ data \<and> m_feedOffset b = length old)"

definition fitsAt :: "u64 \<Rightarrow> u8 list \<Rightarrow> bool" where
  "fitsAt base data \<longleftrightarrow> unat base + length data < 2 ^ 64"

lemma unat_u64: "n < 2 ^ 64 \<Longrightarrow> unat (of_nat n :: u64) = n"
  by (simp add: unat_of_nat)

lemma run_in_buffer:
  assumes "feeding base data b" "fitsAt base data" "run_at base data (ParsedRun r bs)"
  shows "\<exists>i. inFeedBuffer r bs b = Some (of_nat i) \<and> i + length bs \<le> length data \<and> i < 2 ^ 64 \<and>
    bs = take (length bs) (drop i data)"
proof -
  obtain i where i: "r = base + of_nat i" "bs \<noteq> []" "i + length bs \<le> length data"
    "bs = take (length bs) (drop i data)" using assms(3) by (auto simp: run_at_def)
  have n: "unat base + i < 2 ^ 64" "i < 2 ^ 64" "i + length bs < 2 ^ 64" "length data < 2 ^ 64"
    using assms(2) i(3) by (simp_all add: fitsAt_def)
  have "unat (of_nat i :: u64) = i" using n(2) by (simp add: unat_u64)
  then have "unat r = unat base + i" unfolding i(1) using n(1) by (subst unat_add_lem [THEN iffD1]) simp_all
  then have r: "r \<ge> base" "r - base = of_nat i" by (simp_all add: word_le_nat_alt i(1))
  have "(of_nat i + of_nat (length bs) :: u64) = of_nat (i + length bs)" by simp
  then have "unat (of_nat i + of_nat (length bs) :: u64) = i + length bs"
    using n(3) unat_u64 [of "i + length bs"] by (simp only:)
  then have "(of_nat i + of_nat (length bs) :: u64) \<le> of_nat (length data)"
    using n(4) i(3) by (simp add: word_le_nat_alt unat_u64)
  then show ?thesis
    using assms(1) r i n(2) by (auto simp: inFeedBuffer_def feeding_def intro!: exI [of _ i])
qed

lemma builder_append:
  assumes "builder_ok b" "resolved b' = resolved b @ [x]" "in_raw (m_raw b) x" "m_raw b' = m_raw b"
    "list_all (\<lambda>r. fst r < length (m_actions b')) (m_runs b')"
  shows "builder_ok b'"
  using assms by (simp add: builder_ok_def)

lemma addAction_step:
  assumes "builder_ok b" "feeding base data b" "fitsAt base data" "run_at base data a"
  shows "\<exists>x. resolved (addAction a b) = resolved b @ [x] \<and> readAction (m_raw b) x = parsedAction a \<and>
    builder_ok (addAction a b) \<and> feeding base data (addAction a b) \<and> m_raw (addAction a b) = m_raw b \<and>
    length (m_actions (addAction a b)) = length (m_actions b) + 1"
proof -
  have idx: "list_all (\<lambda>r. fst r < length (map unresolved (m_actions b))) (m_runs b)"
    using assms(1) by (simp add: builder_ok_def)
  have idx': "list_all (\<lambda>r. fst r < length (m_actions b) + 1) (m_runs b)"
    using idx by (auto simp: list_all_iff)
  show ?thesis
  proof (cases a)
    case (Parsed c)
    have r: "resolved (addAction a b) = resolved b @ [Shipped c]"
      using resolve_append [OF idx, of "[Shipped c]"] by (simp add: Parsed addAction_def resolved_def)
    then have "builder_ok (addAction a b)"
      using idx' by (intro builder_append [OF assms(1) r]) (simp_all add: Parsed addAction_def)
    then show ?thesis using r assms(2) by (simp add: Parsed addAction_def feeding_def)
  next
    case (ParsedRun p bs)
    obtain i where i: "inFeedBuffer p bs b = Some (of_nat i)" "i + length bs \<le> length data" "i < 2 ^ 64"
      "bs = take (length bs) (drop i data)"
      using run_in_buffer [OF assms(2,3)] assms(4) ParsedRun by blast
    obtain old where old: "m_raw b = old @ data" "m_feedOffset b = length old"
      using assms(2) by (auto simp: feeding_def)
    let ?x = "ShippedRun (Some (length old + i)) (length bs)"
    have u: "unat (of_nat i :: u64) = i" using i(3) by (simp add: unat_u64)
    have r: "resolved (addAction a b) = resolved b @ [?x]"
      using resolve_run [OF idx, of "length old + i" "length bs"]
      by (simp add: ParsedRun addAction_def resolved_def i(1) old u)
    then have "builder_ok (addAction a b)"
      using idx' i(2) by (intro builder_append [OF assms(1) r]) (simp_all add: ParsedRun addAction_def i(1) old)
    moreover have "readAction (m_raw b) ?x = parsedAction a" using i(4) by (simp add: ParsedRun old)
    ultimately show ?thesis using r assms(2) by (simp add: ParsedRun addAction_def i(1) feeding_def)
  qed
qed

lemma beginFeed_step:
  assumes "builder_ok b"
  shows "builder_ok (beginFeed base data b) \<and> feeding base data (beginFeed base data b) \<and>
    resolved (beginFeed base data b) = resolved b \<and>
    map (readAction (m_raw b @ data)) (resolved b) = map (readAction (m_raw b)) (resolved b)"
  using assms in_raw_read [of "m_raw b" _ data]
  by (auto simp: builder_ok_def beginFeed_def feeding_def resolved_def list_all_iff)

end
