(* ===== verification/VtStreamRun.thy ===== *)
theory VtStreamRun
  imports VtStreamInv
begin

text \<open>
  What the worker delivers: read through \<open>batchActions\<close>, the batches sent and the batch being
  filled are, in order, the single-threaded parse of the bytes received, each image with the
  action it was decoded from.
\<close>

section \<open>Images along the actions\<close>

type_synonym tagged = "predecoded_image option \<times> vt_action"

definition imgs_ok :: "nat \<Rightarrow> nat \<Rightarrow> (nat \<times> predecoded_image) list \<Rightarrow> bool" where
  "imgs_ok i n ims \<longleftrightarrow> sorted_wrt (<) (map fst ims) \<and> list_all (\<lambda>im. i \<le> fst im \<and> fst im < n) ims"

lemma imgs_ok_next:
  "imgs_ok i n ((k, im) # ims) \<Longrightarrow> (if k = i then imgs_ok (i + 1) n ims else imgs_ok (i + 1) n ((k, im) # ims))"
  by (auto simp: imgs_ok_def list_all_iff Suc_le_eq)

lemma imgs_ok_empty: "imgs_ok i i ims \<Longrightarrow> ims = []"
  by (cases ims) (auto simp: imgs_ok_def)

lemma imgs_ok_snoc: "imgs_ok 0 n ims \<Longrightarrow> imgs_ok 0 (n + 1) ims \<and> imgs_ok 0 (n + 1) (ims @ [(n, im)])"
  by (auto simp: imgs_ok_def list_all_iff sorted_wrt_append less_SucI)

lemma loop_snoc:
  "imgs_ok i (i + length as) ims \<Longrightarrow>
     batchLoop raw i (as @ [a]) ims = batchLoop raw i as ims @ [(None, readAction raw a)] \<and>
     batchLoop raw i (as @ [a]) (ims @ [(i + length as, im)]) = batchLoop raw i as ims @ [(Some im, readAction raw a)]"
proof (induction as arbitrary: i ims)
  case Nil
  then show ?case using imgs_ok_empty [of i ims] by simp
next
  case (Cons b as)
  show ?case
  proof (cases ims)
    case Nil
    then show ?thesis using Cons.IH [of "i + 1" "[]"] by (simp add: imgs_ok_def)
  next
    case c: (Cons x rest)
    obtain k m where x: "x = (k, m)" by (cases x)
    have n: "if k = i then imgs_ok (i + 1) (i + 1 + length as) rest
        else imgs_ok (i + 1) (i + 1 + length as) ((k, m) # rest)"
      using imgs_ok_next [of i "i + 1 + length as" k m rest] Cons.prems by (simp add: c x)
    show ?thesis
    proof (cases "k = i")
      case True
      then show ?thesis using Cons.IH [of "i + 1" rest] n by (simp add: c x)
    next
      case False
      then show ?thesis using Cons.IH [of "i + 1" "(k, m) # rest"] n by (simp add: c x)
    qed
  qed
qed

lemma loop_raw:
  "map (readAction raw) as = map (readAction raw') as \<Longrightarrow> batchLoop raw i as ims = batchLoop raw' i as ims"
proof (induction as arbitrary: i ims)
  case (Cons a as)
  then show ?case by (cases ims) simp_all
qed simp

section \<open>The batch being filled\<close>

definition pendingPairs :: "vt_stream \<Rightarrow> tagged list" where
  "pendingPairs s = batchLoop (m_raw (m_pending s)) 0 (resolved (m_pending s)) (m_pendingImages s)"

definition batch_ok :: "vt_stream \<Rightarrow> bool" where
  "batch_ok s \<longleftrightarrow> builder_ok (m_pending s) \<and> imgs_ok 0 (length (m_actions (m_pending s))) (m_pendingImages s) \<and>
     (m_pendingClearSelection s \<longleftrightarrow> list_ex clearsScreen (map snd (pendingPairs s)))"

definition delivered :: "vt_stream \<Rightarrow> tagged list" where
  "delivered s = concat (map batchActions (batchesOut s))"

text \<open>The single-threaded parse: the parser's actions, each with what the predecoder makes of it.\<close>

fun predecodeAll :: "env \<Rightarrow> vt_action list \<Rightarrow> predecoder \<Rightarrow> tagged list \<times> predecoder" where
  "predecodeAll e [] p = ([], p)"
| "predecodeAll e (a # as) p =
     (let (im, p1) = onAction e a p; (rest, p2) = predecodeAll e as p1 in ((im, a) # rest, p2))"

lemma predecodeAll_append:
  "predecodeAll e (as @ bs) p =
     (let (r1, p1) = predecodeAll e as p; (r2, p2) = predecodeAll e bs p1 in (r1 @ r2, p2))"
  by (induction as arbitrary: p) (auto split: prod.split)

lemma predecodeAll_actions: "map snd (fst (predecodeAll e as p)) = as"
  by (induction as arbitrary: p) (auto split: prod.split, metis fst_conv)

lemma onParsedAction_frame [simp]:
  "m_pty (onParsedAction e a s) = m_pty s" "m_parser (onParsedAction e a s) = m_parser s"
  "m_flushScheduled (onParsedAction e a s) = m_flushScheduled s"
  "m_inFlightBatches (onParsedAction e a s) = m_inFlightBatches s"
  "m_readPaused (onParsedAction e a s) = m_readPaused s"
  "m_pasteBacklog (onParsedAction e a s) = m_pasteBacklog s"
  "m_pasteOffset (onParsedAction e a s) = m_pasteOffset s"
  "batchesOut (onParsedAction e a s) = batchesOut s" "dataIn (onParsedAction e a s) = dataIn s"
  "lostOut (onParsedAction e a s) = lostOut s" "finishedOut (onParsedAction e a s) = finishedOut s"
  by (simp_all add: onParsedAction_def Let_def split: prod.split option.split)

lemma length_resolved [simp]: "length (resolved b) = length (m_actions b)"
  by (simp add: resolved_def)

lemma onParsedAction_step:
  assumes "batch_ok s" "feeding base data (m_pending s)" "fitsAt base data" "run_at base data a"
  shows "batch_ok (onParsedAction e a s) \<and> feeding base data (m_pending (onParsedAction e a s)) \<and>
    m_raw (m_pending (onParsedAction e a s)) = m_raw (m_pending s) \<and>
    pendingPairs (onParsedAction e a s) =
      pendingPairs s @ [(fst (onAction e (parsedAction a) (m_predecoder s)), parsedAction a)] \<and>
    m_predecoder (onParsedAction e a s) = snd (onAction e (parsedAction a) (m_predecoder s))"
proof -
  let ?b = "m_pending s" and ?b' = "addAction a (m_pending s)"
  obtain im p where o: "onAction e (parsedAction a) (m_predecoder s) = (im, p)" by fastforce
  obtain x where x: "resolved ?b' = resolved ?b @ [x]" "readAction (m_raw ?b) x = parsedAction a"
    "builder_ok ?b'" "feeding base data ?b'" "m_raw ?b' = m_raw ?b" "length (m_actions ?b') = length (m_actions ?b) + 1"
    using addAction_step [OF _ assms(2-4)] assms(1) unfolding batch_ok_def by blast
  have ims: "imgs_ok 0 (length (resolved ?b)) (m_pendingImages s)" using assms(1) by (simp add: batch_ok_def)
  have pend: "m_pending (onParsedAction e a s) = ?b'" "m_predecoder (onParsedAction e a s) = p"
    "m_pendingImages (onParsedAction e a s) =
       (case im of None \<Rightarrow> m_pendingImages s | Some im \<Rightarrow> m_pendingImages s @ [(length (m_actions ?b), im)])"
    "m_pendingClearSelection (onParsedAction e a s) \<longleftrightarrow> m_pendingClearSelection s \<or> clearsScreen (parsedAction a)"
    using o x(6) by (simp_all add: onParsedAction_def Let_def split: option.split)
  have pp: "pendingPairs (onParsedAction e a s) = pendingPairs s @ [(im, parsedAction a)]"
    using loop_snoc [of 0 "resolved ?b" "m_pendingImages s" "m_raw ?b" x] ims
    by (cases im) (simp_all add: pendingPairs_def pend x(1,2,5))
  have "batch_ok (onParsedAction e a s)"
    using assms(1) x(3,6) imgs_ok_snoc [of "length (m_actions ?b)" "m_pendingImages s"]
    by (auto simp: batch_ok_def pp pend split: option.split)
  then show ?thesis using pp pend x(4,5) o by simp
qed

lemma parsed_steps:
  assumes "batch_ok s" "feeding base data (m_pending s)" "fitsAt base data" "list_all (run_at base data) acts"
  shows "batch_ok (fold (onParsedAction e) acts s) \<and>
    m_raw (m_pending (fold (onParsedAction e) acts s)) = m_raw (m_pending s) \<and>
    pendingPairs (fold (onParsedAction e) acts s) =
      pendingPairs s @ fst (predecodeAll e (map parsedAction acts) (m_predecoder s)) \<and>
    m_predecoder (fold (onParsedAction e) acts s) = snd (predecodeAll e (map parsedAction acts) (m_predecoder s))"
  using assms(1,2,4)
proof (induction acts arbitrary: s)
  case (Cons a acts)
  have run: "run_at base data a" "list_all (run_at base data) acts" using Cons.prems(3) by simp_all
  note st = onParsedAction_step [OF Cons.prems(1,2) assms(3) run(1), of e]
  show ?case using Cons.IH [of "onParsedAction e a s"] st run(2) by (auto simp: split_beta)
qed simp

lemma fold_frame [simp]:
  "m_pty (fold (onParsedAction e) as s) = m_pty s" "m_parser (fold (onParsedAction e) as s) = m_parser s"
  "m_flushScheduled (fold (onParsedAction e) as s) = m_flushScheduled s"
  "m_inFlightBatches (fold (onParsedAction e) as s) = m_inFlightBatches s"
  "m_readPaused (fold (onParsedAction e) as s) = m_readPaused s"
  "m_pasteBacklog (fold (onParsedAction e) as s) = m_pasteBacklog s"
  "m_pasteOffset (fold (onParsedAction e) as s) = m_pasteOffset s"
  "batchesOut (fold (onParsedAction e) as s) = batchesOut s" "dataIn (fold (onParsedAction e) as s) = dataIn s"
  "lostOut (fold (onParsedAction e) as s) = lostOut s" "finishedOut (fold (onParsedAction e) as s) = finishedOut s"
  by (induction as arbitrary: s) simp_all

section \<open>Faithful delivery\<close>

text \<open>
  The clear hint of every batch says whether one of its actions clears the screen.
\<close>

definition hints_ok :: "vt_stream \<Rightarrow> bool" where
  "hints_ok s \<longleftrightarrow> list_all (\<lambda>b. clearSelectionHint b \<longleftrightarrow> list_ex clearsScreen (map snd (batchActions b))) (batchesOut s)"

definition faithful :: "env \<Rightarrow> simd \<Rightarrow> vt_stream \<Rightarrow> bool" where
  "faithful e arch s \<longleftrightarrow> batch_ok s \<and> hints_ok s \<and>
     m_parser s = snd (feedChunks arch (dataIn s) vt_init) \<and>
     (delivered s @ pendingPairs s, m_predecoder s) =
       predecodeAll e (fst (feedChunks arch (dataIn s) vt_init)) predecoder0 \<and>
     concat (map rawBytes (batchesOut s)) @ m_raw (m_pending s) = concat (dataIn s)"

text \<open>What \<open>faithful\<close> looks at.\<close>

definition parseView :: "vt_stream \<Rightarrow> vt_parser \<times> batch_builder \<times> bool \<times> predecoder \<times>
    (nat \<times> predecoded_image) list \<times> vt_batch list \<times> u8 list list" where
  "parseView s = (m_parser s, m_pending s, m_pendingClearSelection s, m_predecoder s, m_pendingImages s,
     batchesOut s, dataIn s)"

lemma faithful_view: "parseView t = parseView s \<Longrightarrow> faithful e arch t = faithful e arch s"
  by (simp add: parseView_def faithful_def batch_ok_def hints_ok_def delivered_def pendingPairs_def)

lemma faithful_keep: "faithful e arch s \<Longrightarrow> parseView t = parseView s \<Longrightarrow> faithful e arch t"
  using faithful_view by blast

lemma faithful0: "faithful e arch (stream0 fd pid)"
  by (simp add: faithful_def batch_ok_def hints_ok_def delivered_def pendingPairs_def stream0_def builder_ok0
      imgs_ok_def feedChunks_def) (simp add: builder0_def)

lemma take_batch:
  "takeBatch t s = (b, s') \<Longrightarrow> batchActions b = pendingPairs s \<and> rawBytes b = m_raw (m_pending s) \<and>
   clearSelectionHint b = m_pendingClearSelection s \<and>
   s' = s\<lparr>m_pending := builder0, m_pendingImages := [], m_pendingClearSelection := False\<rparr>"
  by (auto simp: takeBatch_def takeInto_def batchActions_def pendingPairs_def resolved_def Let_def)

lemma faithful_take:
  assumes "faithful e arch s" "takeBatch t s = (b, s')"
  shows "faithful e arch (emitBatch b s')"
proof -
  note b = take_batch [OF assms(2)]
  have e: "pendingPairs (emitBatch b s') = []"
    using b by (simp add: pendingPairs_def emitBatch_def builder_ok0)
  have "batch_ok (emitBatch b s')"
    unfolding batch_ok_def e using b by (simp add: emitBatch_def builder_ok0 imgs_ok_def)
  then show ?thesis
    using assms(1) b e
    by (simp add: faithful_def hints_ok_def delivered_def emitBatch_def batch_ok_def builder0_def)
qed

lemma faithful_flush: "faithful e arch s \<Longrightarrow> faithful e arch (flushBatch t s)"
proof (cases "m_inFlightBatches s \<ge> kMaxInFlight")
  case True
  assume "faithful e arch s"
  then show ?thesis using True
    by (subst faithful_view [of _ s]) (simp_all add: flushBatch_def parseView_def)
next
  case False
  assume f: "faithful e arch s"
  obtain b s' where t: "takeBatch t s = (b, s')" by fastforce
  have "parseView (flushBatch t s) = parseView (emitBatch b s')"
    using False t by (simp add: flushBatch_def parseView_def emitBatch_def)
  then show ?thesis using faithful_take [OF f t] faithful_view by blast
qed

lemma faithful_data:
  assumes "faithful (w_env w) (w_arch w) s" "fitsAt (w_base w) bs"
  shows "faithful (w_env w) (w_arch w) (onPtyData w bs s)"
proof -
  let ?e = "w_env w"
  let ?s0 = "s\<lparr>dataIn := dataIn s @ [bs], m_pending := beginFeed (w_base w) bs (m_pending s)\<rparr>"
  let ?acts = "fst (feedAt (w_arch w) (w_base w) bs (m_parser s))"
  let ?s1 = "fold (onParsedAction ?e) ?acts ?s0"
  let ?s2 = "?s1\<lparr>m_parser := snd (feedAt (w_arch w) (w_base w) bs (m_parser s)), m_pending := endFeed (m_pending ?s1)\<rparr>"
  have b: "batch_ok s" using assms(1) by (simp add: faithful_def)
  note bf = beginFeed_step [of "m_pending s" "w_base w" bs]
  have bb: "builder_ok (m_pending s)" using b by (simp add: batch_ok_def)
  have raw0: "m_raw (m_pending ?s0) = m_raw (m_pending s) @ bs" by (simp add: beginFeed_def)
  have p0: "pendingPairs ?s0 = pendingPairs s"
    unfolding pendingPairs_def raw0 using bf [OF bb] by (simp add: loop_raw)
  have "batch_ok ?s0" unfolding batch_ok_def p0 using b bf [OF bb]
    by (simp add: batch_ok_def beginFeed_def)
  then have st: "batch_ok ?s1" "m_raw (m_pending ?s1) = m_raw (m_pending s) @ bs"
    "pendingPairs ?s1 = pendingPairs s @ fst (predecodeAll ?e (map parsedAction ?acts) (m_predecoder s))"
    "m_predecoder ?s1 = snd (predecodeAll ?e (map parsedAction ?acts) (m_predecoder s))"
    using parsed_steps [of ?s0 "w_base w" bs ?acts ?e] bf [OF bb] assms(2)
      feedAt_runs [of "w_base w" bs "w_arch w" "m_parser s"] raw0 p0 by simp_all
  have ef: "resolved (endFeed x) = resolved x" "m_raw (endFeed x) = m_raw x" "m_actions (endFeed x) = m_actions x"
    "builder_ok (endFeed x) = builder_ok x" for x
    by (simp_all add: resolved_def endFeed_def builder_ok_def)
  have p2: "pendingPairs ?s2 = pendingPairs ?s1" by (simp add: pendingPairs_def ef)
  have b2: "batch_ok ?s2" unfolding batch_ok_def p2 using st(1) by (simp add: batch_ok_def ef)
  have pv: "m_parser s = snd (feedChunks (w_arch w) (dataIn s) vt_init)"
    "(delivered s @ pendingPairs s, m_predecoder s) =
       predecodeAll ?e (fst (feedChunks (w_arch w) (dataIn s) vt_init)) predecoder0"
    using assms(1) by (simp_all add: faithful_def)
  have ch: "fst (feedChunks (w_arch w) (dataIn s @ [bs]) vt_init) =
      fst (feedChunks (w_arch w) (dataIn s) vt_init) @ map parsedAction ?acts"
    "snd (feedChunks (w_arch w) (dataIn s @ [bs]) vt_init) = m_parser ?s2"
    using feedAt_feed [of "w_arch w" "w_base w" bs "m_parser s"] pv(1)
    by (simp_all add: feedChunks_def run_steps_append split_beta)
  have "faithful ?e (w_arch w) ?s2"
    using assms(1) b2 ch st(2) p2 st(3,4) pv(2) [symmetric]
    by (simp add: faithful_def hints_ok_def delivered_def predecodeAll_append split_beta ef)
  moreover have "onPtyData w bs s = flushBatch (w_elapsed w) ?s2 \<or> onPtyData w bs s = scheduleFlush ?s2"
    by (simp add: onPtyData_def Let_def split_beta)
  ultimately show ?thesis
    using faithful_flush faithful_view [of "scheduleFlush ?s2" ?s2] by (auto simp: scheduleFlush_def parseView_def)
qed

section \<open>Every event\<close>

text \<open>
  What the surroundings keep to: the decoders do not change, a buffer does not wrap around the
  address space, and \<open>::read\<close> fills at most the 16 KiB it was given.
\<close>

definition kReadSize :: nat where "kReadSize = 16384"

fun goodAnswer :: "u64 \<Rightarrow> read_answer \<Rightarrow> bool" where
  "goodAnswer base (Got bs) \<longleftrightarrow> fitsAt base bs \<and> length bs \<le> kReadSize"
| "goodAnswer base _ \<longleftrightarrow> True"

fun goodEvent :: "env \<Rightarrow> simd \<Rightarrow> worker_event \<Rightarrow> bool" where
  "goodEvent e arch (Readable w fg termios answers) \<longleftrightarrow>
     w_env w = e \<and> w_arch w = arch \<and> fitsAt (w_base w) sgrReset \<and> list_all (goodAnswer (w_base w)) answers"
| "goodEvent e arch _ \<longleftrightarrow> True"

interpretation parse: write_frame parseView
  by unfold_locales (simp_all add: parseView_def)

lemma faithful_finish: "faithful e arch s \<Longrightarrow> faithful e arch (onPtyFinished t c s)"
proof -
  assume f: "faithful e arch s"
  obtain b s' where t: "takeBatch t s = (b, s')" by fastforce
  have v: "faithful e arch (x\<lparr>finishedOut := ys\<rparr>) = faithful e arch x" for x ys
    by (rule faithful_view) (simp add: parseView_def)
  show ?thesis using f faithful_take [OF f t] by (simp add: onPtyFinished_def t v Let_def)
qed

lemma faithful_pty: "faithful e arch (s\<lparr>m_pty := p\<rparr>) = faithful e arch s"
  by (rule faithful_view) (simp add: parseView_def)

lemma faithful_loop:
  "faithful (w_env w) (w_arch w) s \<Longrightarrow> list_all (goodAnswer (w_base w)) answers \<Longrightarrow>
   faithful (w_env w) (w_arch w) (readLoop w answers s)"
proof (induction w answers s rule: readLoop.induct)
  case (2 w bs answers s)
  then show ?case using faithful_data [of w s bs] by (simp add: Let_def)
qed (simp_all add: handleEof_def Let_def faithful_finish faithful_pty)

lemma faithful_step: "faithful e arch s \<Longrightarrow> goodEvent e arch ev \<Longrightarrow> faithful e arch (workerStep ev s)"
proof (cases ev)
  case (Readable w fg tm answers)
  assume f: "faithful e arch s" and g: "goodEvent e arch ev"
  have k: "faithful e arch (x\<lparr>m_keysShareable := b\<rparr>) = faithful e arch x" for x b
    by (rule faithful_view) (simp add: parseView_def)
  have w: "w_env w = e" "w_arch w = arch" "fitsAt (w_base w) sgrReset" "list_all (goodAnswer (w_base w)) answers"
    using g Readable by simp_all
  have "faithful e arch (onPtyData w sgrReset (s\<lparr>m_pty := p\<rparr>))" for p
    using faithful_data [of w "s\<lparr>m_pty := p\<rparr>" sgrReset] f w by (simp add: faithful_pty)
  then show ?thesis
    using f w faithful_loop [of w _ answers] by (simp add: Readable onReadReady_def Let_def split_beta k faithful_pty)
next
  case (FlushTimer t)
  assume f: "faithful e arch s"
  have "faithful e arch (s\<lparr>m_flushScheduled := b\<rparr>)" for b using f
    by (subst faithful_view [of _ s]) (simp_all add: parseView_def)
  then show ?thesis by (simp add: FlushTimer onFlushTimer_def Let_def faithful_flush)
next
  case (Ack t)
  assume f: "faithful e arch s"
  have "faithful e arch (s\<lparr>m_inFlightBatches := n\<rparr>)" "faithful e arch (s\<lparr>m_readPaused := b, m_pty := p\<rparr>)"
    "faithful e arch (s\<lparr>m_inFlightBatches := n, m_readPaused := b, m_pty := p\<rparr>)" for n b p using f
    by (rule faithful_keep, simp add: parseView_def)+
  then show ?thesis using f by (auto simp: Ack drainAck_def Let_def intro!: faithful_flush)
qed (erule faithful_keep, simp only: parse.view_writing)+

lemma worker_faithful:
  "worker fd pid evs s \<Longrightarrow> list_all (goodEvent e arch) evs \<Longrightarrow> faithful e arch s"
  by (induction rule: worker.induct) (simp_all add: faithful0 faithful_step)

section \<open>The consumer\<close>

text \<open>\<open>onVtBatch\<close> applies a batch, action by action; \<open>env\<close> is the consumer's.\<close>

definition applyBatch :: "env \<Rightarrow> vt_batch \<Rightarrow> grid \<Rightarrow> grid" where
  "applyBatch e b g = fold (\<lambda>(pre, a). processAction e pre a) (batchActions b) g"

definition applyBatches :: "env \<Rightarrow> vt_batch list \<Rightarrow> grid \<Rightarrow> grid" where
  "applyBatches e bs g = fold (applyBatch e) bs g"

lemma applyBatches_run:
  "applyBatches e bs g = runActions (map (\<lambda>(pre, a). (e, pre, a)) (concat (map batchActions bs))) g"
proof (induction bs arbitrary: g)
  case (Cons b bs)
  have "applyBatch e b g = runActions (map (\<lambda>(pre, a). (e, pre, a)) (batchActions b)) g" for g
    unfolding applyBatch_def runActions_def fold_map by (rule arg_cong2 [where f = "\<lambda>f. fold f (batchActions b)"])
      (simp_all add: fun_eq_iff split_beta)
  then show ?case using Cons by (simp add: applyBatches_def runActions_def)
qed (simp add: applyBatches_def runActions_def)

end
