(* ===== verification/VtStreamFlow.thy ===== *)
theory VtStreamFlow
  imports VtStreamRun "HOL-Library.Sublist"
begin

text \<open>
  Flow control of the parse worker: back-pressure pauses reads at eight batches in flight and
  nothing buffered is ever stranded; and the order of writes: what reaches the shell is what
  was written, in order.
\<close>

section \<open>Back-pressure\<close>

definition maxBatchBytes :: nat where
  "maxBatchBytes = nat kFlushBytes - 1 + length sgrReset + kReadSize"

lemma maxBatchBytes: "maxBatchBytes = 32771"
  by (simp add: maxBatchBytes_def kFlushBytes_def sgrReset_def kReadSize_def)

definition flow_core :: "vt_stream \<Rightarrow> bool" where
  "flow_core s \<longleftrightarrow> 0 \<le> m_inFlightBatches s \<and> m_inFlightBatches s \<le> kMaxInFlight \<and>
     (m_readPaused s \<longrightarrow> m_inFlightBatches s = kMaxInFlight) \<and>
     m_readNotifier (m_pty s) = Some (\<not> m_readPaused s \<and> \<not> m_readEof (m_pty s)) \<and>
     list_all (\<lambda>b. length (rawBytes b) \<le> maxBatchBytes) (batchesOut s)"

text \<open>
  Between events: something pending has a flush coming or waits for an acknowledgement, and
  what is pending is short, up to \<open>n\<close> bytes while reads are paused.
\<close>

definition settled :: "nat \<Rightarrow> vt_stream \<Rightarrow> bool" where
  "settled n s \<longleftrightarrow> flow_core s \<and> (hasPending s \<longrightarrow> m_flushScheduled s \<or> m_readPaused s) \<and>
     length (m_raw (m_pending s)) \<le> (if m_readPaused s then n else nat kFlushBytes - 1)"

lemma settled_mono: "settled n s \<Longrightarrow> n \<le> m \<Longrightarrow> settled m s"
  by (auto simp: settled_def)

lemma settled_unpaused: "settled n s \<Longrightarrow> \<not> m_readPaused s \<Longrightarrow> settled m s"
  by (simp add: settled_def)

lemma settled0: "settled n (stream0 fd pid)"
  by (simp add: settled_def flow_core_def stream0_def pty_open_def hasPending_def builderEmpty_def builder0_def
      kMaxInFlight_def)

lemma flush_settled:
  assumes "flow_core s" "length (m_raw (m_pending s)) \<le> n" "n \<le> maxBatchBytes"
  shows "settled n (flushBatch t s)"
proof (cases "m_inFlightBatches s \<ge> kMaxInFlight")
  case True
  then show ?thesis using assms
    by (auto simp: flushBatch_def settled_def flow_core_def setReadEnabled_def)
next
  case False
  obtain b s' where t: "takeBatch t s = (b, s')" by fastforce
  note b = take_batch [OF t]
  have "flushBatch t s = emitBatch b (s'\<lparr>m_inFlightBatches := m_inFlightBatches s' + 1\<rparr>)"
    using False t by (simp add: flushBatch_def)
  then show ?thesis using False assms b
    by (auto simp: settled_def flow_core_def emitBatch_def hasPending_def builderEmpty_def builder0_def)
qed

lemma raw_added [simp]: "m_raw (m_pending (fold (onParsedAction e) as s)) = m_raw (m_pending s)"
proof (induction as arbitrary: s)
  case (Cons a as)
  have "m_raw (addAction a b) = m_raw b" for b
    by (simp add: addAction_def split: parsed.split option.split)
  then have "m_raw (m_pending (onParsedAction e a s)) = m_raw (m_pending s)"
    by (simp add: onParsedAction_def Let_def split: prod.split option.split)
  then show ?case using Cons by simp
qed simp

lemma data_settled:
  assumes "flow_core s" "length (m_raw (m_pending s)) + length bs \<le> n" "n \<le> maxBatchBytes"
  shows "settled n (onPtyData w bs s)"
proof -
  let ?s0 = "s\<lparr>dataIn := dataIn s @ [bs], m_pending := beginFeed (w_base w) bs (m_pending s)\<rparr>"
  let ?s1 = "fold (onParsedAction (w_env w)) (fst (feedAt (w_arch w) (w_base w) bs (m_parser s))) ?s0"
  let ?s2 = "?s1\<lparr>m_parser := snd (feedAt (w_arch w) (w_base w) bs (m_parser s)), m_pending := endFeed (m_pending ?s1)\<rparr>"
  have raw: "m_raw (m_pending ?s2) = m_raw (m_pending s) @ bs" by (simp add: endFeed_def beginFeed_def)
  have core: "flow_core ?s2" using assms(1) by (simp add: flow_core_def)
  have eq: "onPtyData w bs s = (if int (length (m_actions (m_pending ?s2))) \<ge> kFlushActions \<or>
      int (length (m_raw (m_pending ?s2))) \<ge> kFlushBytes then flushBatch (w_elapsed w) ?s2 else scheduleFlush ?s2)"
    by (simp add: onPtyData_def Let_def split_beta)
  have "settled n (flushBatch (w_elapsed w) ?s2)"
    using flush_settled [OF core, of n] raw assms(2,3) by simp
  moreover have "settled n (scheduleFlush ?s2)" if "int (length (m_raw (m_pending ?s2))) < kFlushBytes"
  proof -
    have "length (m_raw (m_pending ?s2)) \<le> nat kFlushBytes - 1" using that by linarith
    then show ?thesis using core raw assms(2)
      by (simp add: settled_def scheduleFlush_def flow_core_def hasPending_def)
  qed
  ultimately show ?thesis unfolding eq by simp
qed

lemma finish_settled:
  assumes "flow_core s" "length (m_raw (m_pending s)) \<le> maxBatchBytes" "m_inFlightBatches s \<le> kMaxInFlight"
  shows "settled m (onPtyFinished t c s)"
proof (cases "hasPending s")
  case True
  obtain b s' where t: "takeBatch t s = (b, s')" by fastforce
  note b = take_batch [OF t]
  show ?thesis using True assms b t
    by (auto simp: onPtyFinished_def settled_def flow_core_def emitBatch_def hasPending_def builderEmpty_def
        builder0_def Let_def)
next
  case False
  then show ?thesis using assms
    by (simp add: onPtyFinished_def settled_def flow_core_def hasPending_def builderEmpty_def Let_def)
qed

lemma eof_settled:
  assumes "settled n s" "n \<le> maxBatchBytes"
  shows "settled m (handleEof t reaped s)"
proof -
  let ?p = "(m_pty s)\<lparr>m_readEof := True, m_readNotifier := map_option (\<lambda>_. False) (m_readNotifier (m_pty s))\<rparr>"
  have "length (m_raw (m_pending s)) \<le> maxBatchBytes"
    using assms by (auto simp: settled_def maxBatchBytes kFlushBytes_def split: if_splits)
  moreover have "flow_core (s\<lparr>m_pty := ?p\<rparr>)" "flow_core (s\<lparr>m_pty := ?p\<lparr>m_childPid := -1\<rparr>\<rparr>)"
    using assms(1) by (simp_all add: settled_def flow_core_def)
  ultimately show ?thesis
    by (auto simp: handleEof_def Let_def flow_core_def intro!: finish_settled)
qed

lemma loop_settled:
  "settled n s \<Longrightarrow> n + kReadSize \<le> maxBatchBytes \<Longrightarrow> nat kFlushBytes - 1 \<le> n \<Longrightarrow>
   list_all (goodAnswer (w_base w)) answers \<Longrightarrow> settled (n + kReadSize) (readLoop w answers s)"
proof (induction w answers s rule: readLoop.induct)
  case (1 w s)
  then show ?case using settled_mono by simp
next
  case (2 w bs answers s)
  let ?s = "onPtyData w bs s"
  have "length (m_raw (m_pending s)) \<le> n" using 2(2,4) by (auto simp: settled_def split: if_splits)
  then have s: "settled (n + kReadSize) ?s"
    using 2(2,3,5) by (intro data_settled) (simp_all add: settled_def)
  show ?case
  proof (cases "m_readNotifier (m_pty ?s) = Some True")
    case True
    then have "\<not> m_readPaused ?s" using s by (simp add: settled_def flow_core_def)
    then have "settled n ?s" using settled_unpaused [OF s] by simp
    then show ?thesis using 2(1) [OF refl] True 2(3-5) by (simp add: Let_def)
  next
    case False
    then show ?thesis using s by (simp add: Let_def)
  qed
next
  case (3 w answers s)
  then show ?case using settled_mono by simp
next
  case (4 w reaped answers s)
  then show ?case using eof_settled [OF 4(1)] by simp
qed

lemma settled_read:
  assumes "settled n s" "eventEnabled (Readable w fg tm answers) s" "goodEvent e arch (Readable w fg tm answers)"
  shows "settled maxBatchBytes (onReadReady w fg tm answers s)"
proof -
  define k where "k = nat kFlushBytes - 1 + length sgrReset"
  have kn: "k + kReadSize = maxBatchBytes" "nat kFlushBytes - 1 \<le> k" "k \<le> maxBatchBytes"
    by (simp_all add: k_def maxBatchBytes_def)
  have p: "\<not> m_readPaused s" "\<not> m_readEof (m_pty s)"
    using assms(1,2) by (simp_all add: settled_def flow_core_def)
  have keep: "settled m (x\<lparr>m_keysShareable := b\<rparr>) = settled m x" for m x b
    by (simp add: settled_def flow_core_def hasPending_def)
  let ?s = "s\<lparr>m_pty := (m_pty s)\<lparr>m_lastForegroundPgid := f\<rparr>\<rparr>"
  have s: "settled k (s\<lparr>m_pty := (m_pty s)\<lparr>m_lastForegroundPgid := f\<rparr>\<rparr>)" for f
    using assms(1) p by (simp add: settled_def flow_core_def hasPending_def)
  have "settled k (onPtyData w sgrReset (s\<lparr>m_pty := (m_pty s)\<lparr>m_lastForegroundPgid := f\<rparr>\<rparr>))" for f
    using assms(1) p kn by (intro data_settled) (simp_all add: settled_def flow_core_def k_def)
  then show ?thesis
    using s assms(3) kn p loop_settled [of k _ w answers] settled_mono [OF s]
      settled_unpaused [OF assms(1) p(1), of maxBatchBytes]
    by (auto simp: onReadReady_def Let_def split_beta keep simp flip: kn(1))
qed

text \<open>What the flow control looks at is not touched by writing.\<close>

definition flowView :: "vt_stream \<Rightarrow> int \<times> bool \<times> bool option \<times> bool \<times> batch_builder \<times> bool \<times> vt_batch list" where
  "flowView s = (m_inFlightBatches s, m_readPaused s, m_readNotifier (m_pty s), m_readEof (m_pty s), m_pending s,
     m_flushScheduled s, batchesOut s)"

interpretation flow: write_frame flowView
  by unfold_locales (simp_all add: flowView_def readSide_def)

lemma settled_view: "settled n s \<Longrightarrow> flowView t = flowView s \<Longrightarrow> settled n t"
  by (simp add: settled_def flow_core_def flowView_def hasPending_def)

lemma settled_timer:
  assumes "settled n s" "n \<le> maxBatchBytes" "nat kFlushBytes - 1 \<le> n"
  shows "settled n (onFlushTimer t s)"
proof -
  let ?s = "s\<lparr>m_flushScheduled := False\<rparr>"
  have s: "flow_core ?s" "length (m_raw (m_pending ?s)) \<le> n"
    using assms by (auto simp: settled_def flow_core_def split: if_splits)
  show ?thesis
  proof (cases "hasPending ?s")
    case True
    then show ?thesis using flush_settled [OF s assms(2)] by (simp add: onFlushTimer_def Let_def)
  next
    case False
    moreover have "settled n ?s" using False assms(1) s(1) by (simp add: settled_def)
    ultimately show ?thesis by (simp add: onFlushTimer_def Let_def)
  qed
qed

lemma settled_ack:
  assumes "settled n s" "n \<le> maxBatchBytes" "nat kFlushBytes - 1 \<le> n"
  shows "settled n (drainAck t s)"
proof -
  have raw: "length (m_raw (m_pending s)) \<le> n" using assms by (auto simp: settled_def split: if_splits)
  show ?thesis
  proof (cases "m_readPaused s")
    case True
    then have n: "m_inFlightBatches s = 8" using assms(1) by (simp add: settled_def flow_core_def kMaxInFlight_def)
    let ?t = "s\<lparr>m_inFlightBatches := 7, m_readPaused := False, m_pty := setReadEnabled True (m_pty s)\<rparr>"
    have t: "flow_core ?t"
      using assms(1) True by (auto simp: settled_def flow_core_def setReadEnabled_def kMaxInFlight_def)
    have "drainAck t s = (if hasPending ?t then flushBatch t ?t else ?t)"
      using True n by (simp add: drainAck_def kMaxInFlight_def)
    moreover have "settled n (flushBatch t ?t)" using t raw assms(2) by (intro flush_settled) simp_all
    moreover have "settled n ?t" if "\<not> hasPending ?t"
      using t that by (simp add: settled_def hasPending_def builderEmpty_def)
    ultimately show ?thesis by simp
  next
    case False
    then show ?thesis using assms(1) by (auto simp: drainAck_def Let_def settled_def flow_core_def hasPending_def)
  qed
qed

lemma settled_step:
  assumes "settled maxBatchBytes s" "eventEnabled ev s" "goodEvent e arch ev"
  shows "settled maxBatchBytes (workerStep ev s)"
proof (cases ev)
  case (Readable w fg tm answers)
  then show ?thesis using settled_read [OF assms(1)] assms(2,3) by simp
next
  case (FlushTimer t)
  then show ?thesis using settled_timer [OF assms(1)] by (simp add: maxBatchBytes_def)
next
  case (Ack t)
  then show ?thesis using settled_ack [OF assms(1)] by (simp add: maxBatchBytes_def)
qed (use assms(1) in \<open>simp_all only: settled_view flow.view_writing\<close>)

lemma worker_settled:
  "worker fd pid evs s \<Longrightarrow> list_all (goodEvent e arch) evs \<Longrightarrow> settled maxBatchBytes s"
  by (induction rule: worker.induct) (auto simp: settled0 intro: settled_step [where e = e and arch = arch])

section \<open>What the counter counts\<close>

text \<open>Acknowledgements of a run that found a batch in flight.\<close>

fun isAck :: "worker_event \<Rightarrow> bool" where
  "isAck (Ack t) \<longleftrightarrow> True"
| "isAck _ \<longleftrightarrow> False"

fun ackedIn :: "worker_event list \<Rightarrow> vt_stream \<Rightarrow> nat" where
  "ackedIn [] s = 0"
| "ackedIn (ev # evs) s = (if isAck ev \<and> m_inFlightBatches s > 0 then 1 else 0) + ackedIn evs (workerStep ev s)"

lemma ackedIn_le: "ackedIn evs s \<le> length (filter isAck evs)"
proof (induction evs arbitrary: s)
  case (Cons ev evs)
  show ?case using Cons [of "workerStep ev s"] by simp
qed simp

lemma ackedIn_snoc:
  "ackedIn (evs @ [ev]) s = ackedIn evs s + (if isAck ev \<and> m_inFlightBatches (fold workerStep evs s) > 0 then 1 else 0)"
  by (induction evs arbitrary: s) simp_all

lemma worker_run: "worker fd pid evs s \<Longrightarrow> s = fold workerStep evs (stream0 fd pid)"
  by (induction rule: worker.induct) simp_all

definition unaccounted :: "vt_stream \<Rightarrow> int" where
  "unaccounted s = int (length (batchesOut s)) - m_inFlightBatches s"

lemma unaccounted_flush [simp]: "unaccounted (flushBatch t s) = unaccounted s"
  by (simp add: flushBatch_def unaccounted_def takeBatch_def takeInto_def emitBatch_def Let_def)

lemma unaccounted_upd [simp]:
  "unaccounted (s\<lparr>m_pty := p\<rparr>) = unaccounted s" "unaccounted (s\<lparr>m_keysShareable := b\<rparr>) = unaccounted s"
  "unaccounted (s\<lparr>m_flushScheduled := b\<rparr>) = unaccounted s" "unaccounted (s\<lparr>m_readPaused := b\<rparr>) = unaccounted s"
  "unaccounted (s\<lparr>dataIn := ds, m_pending := pb\<rparr>) = unaccounted s"
  "unaccounted (s\<lparr>m_parser := pp, m_pending := pb\<rparr>) = unaccounted s"
  by (simp_all add: unaccounted_def)

lemma unaccounted_parsed [simp]: "unaccounted (fold (onParsedAction e) as s) = unaccounted s"
  by (simp add: unaccounted_def)

lemma unaccounted_data [simp]: "unaccounted (onPtyData w bs s) = unaccounted s"
  by (simp add: onPtyData_def Let_def split_beta scheduleFlush_def)

lemma eof_flush [simp]: "m_readEof (m_pty (flushBatch t s)) = m_readEof (m_pty s)"
  by (simp add: flushBatch_def takeBatch_def takeInto_def emitBatch_def setReadEnabled_def Let_def)

lemma eof_data [simp]: "m_readEof (m_pty (onPtyData w bs s)) = m_readEof (m_pty s)"
  by (simp add: onPtyData_def Let_def split_beta scheduleFlush_def)

definition spare :: "vt_stream \<Rightarrow> int \<Rightarrow> bool" where
  "spare s d \<longleftrightarrow> d = 0 \<or> d = 1 \<and> m_readEof (m_pty s)"

lemma loop_counts:
  "\<not> m_readEof (m_pty s) \<Longrightarrow> spare (readLoop w answers s) (unaccounted (readLoop w answers s) - unaccounted s)"
proof (induction w answers s rule: readLoop.induct)
  case (2 w bs answers s)
  then show ?case
    by (cases "m_readNotifier (m_pty (onPtyData w bs s)) = Some True") (simp_all add: Let_def spare_def)
next
  case (4 w reaped answers s)
  then show ?case
    by (simp add: spare_def handleEof_def onPtyFinished_def unaccounted_def takeBatch_def takeInto_def emitBatch_def Let_def)
qed (simp_all add: spare_def)

text \<open>The counter is right, but for the one batch the end of file sends uncounted.\<close>

definition counted :: "nat \<Rightarrow> vt_stream \<Rightarrow> bool" where
  "counted n s \<longleftrightarrow> spare s (int (length (batchesOut s)) - int n - m_inFlightBatches s)"

lemma counted_unaccounted: "counted n s \<longleftrightarrow> spare s (unaccounted s - int n)"
  by (simp add: counted_def unaccounted_def spare_def diff_diff_eq add.commute)

lemma counted_read:
  assumes "counted n s" "settled m s" "m_readNotifier (m_pty s) = Some True"
  shows "counted n (onReadReady w fg tm answers s)"
proof -
  have eof: "\<not> m_readEof (m_pty s)" using assms(2,3) by (simp add: settled_def flow_core_def)
  have u: "unaccounted s = int n" using assms(1) eof by (simp add: counted_unaccounted spare_def)
  have r: "counted n (readLoop w answers x)"
    if "unaccounted x = int n" "\<not> m_readEof (m_pty x)" for x
    using loop_counts [OF that(2), of w answers] that(1) by (simp add: counted_unaccounted)
  show ?thesis
    unfolding onReadReady_def Let_def split_beta using assms(1) u eof by (auto intro!: r)
qed

lemma counted_ack:
  "counted n s \<Longrightarrow> counted (n + (if m_inFlightBatches s > 0 then 1 else 0)) (drainAck t s)"
proof -
  assume c: "counted n s"
  let ?s = "if m_inFlightBatches s > 0 then s\<lparr>m_inFlightBatches := m_inFlightBatches s - 1\<rparr> else s"
  have "unaccounted ?s = unaccounted s + (if m_inFlightBatches s > 0 then 1 else 0)" by (simp add: unaccounted_def)
  moreover have "unaccounted (drainAck t s) = unaccounted ?s"
    unfolding drainAck_def Let_def by (simp only: if_distrib [of unaccounted] unaccounted_flush unaccounted_upd if_cancel)
  moreover have "m_readEof (m_pty (drainAck t s)) = m_readEof (m_pty s)"
    by (simp add: drainAck_def Let_def setReadEnabled_def)
  ultimately show ?thesis using c by (auto simp: counted_unaccounted spare_def)
qed

lemma counted_timer: "counted n s \<Longrightarrow> counted n (onFlushTimer t s)"
  by (simp add: counted_unaccounted spare_def onFlushTimer_def Let_def)

lemma counted_view: "counted n s \<Longrightarrow> flowView t = flowView s \<Longrightarrow> counted n t"
  by (simp add: counted_def spare_def flowView_def)

lemma counted_step:
  assumes "counted n s" "settled m s" "eventEnabled ev s"
  shows "counted (n + (if isAck ev \<and> m_inFlightBatches s > 0 then 1 else 0)) (workerStep ev s)"
proof (cases ev)
  case (Readable w fg tm answers)
  then show ?thesis using counted_read [OF assms(1,2)] assms(3) by simp
next
  case (Ack t)
  then show ?thesis using counted_ack [OF assms(1), of t] by simp
next
  case (FlushTimer t)
  then show ?thesis using counted_timer [OF assms(1)] by simp
qed (simp_all only: isAck.simps simp_thms if_False add_0_right, (rule counted_view [OF assms(1)], simp only: flow.view_writing)+)

lemma worker_counted:
  "worker fd pid evs s \<Longrightarrow> list_all (goodEvent e arch) evs \<Longrightarrow> counted (ackedIn evs (stream0 fd pid)) s"
proof (induction rule: worker.induct)
  case Spawned
  show ?case by (simp add: counted_def spare_def stream0_def)
next
  case (Event evs s ev)
  have g: "list_all (goodEvent e arch) evs" using Event.prems by simp
  show ?case
    using counted_step [OF Event.IH [OF g] worker_settled [OF Event.hyps(1) g] Event.hyps(2)]
    by (simp add: ackedIn_snoc flip: worker_run [OF Event.hyps(1)])
qed

section \<open>Nothing is stranded\<close>

lemma flush_empties: "m_inFlightBatches s < kMaxInFlight \<Longrightarrow> \<not> hasPending (flushBatch t s)"
proof -
  assume n: "m_inFlightBatches s < kMaxInFlight"
  obtain b s' where t: "takeBatch t s = (b, s')" by fastforce
  then show ?thesis using take_batch [OF t] n
    by (simp add: flushBatch_def emitBatch_def hasPending_def builderEmpty_def builder0_def)
qed

lemma ack_empties: "settled n s \<Longrightarrow> m_readPaused s \<Longrightarrow> \<not> hasPending (drainAck t s)"
  using flush_empties [of "s\<lparr>m_inFlightBatches := 7, m_readPaused := False, m_pty := setReadEnabled True (m_pty s)\<rparr>" t]
  by (simp add: drainAck_def settled_def flow_core_def kMaxInFlight_def Let_def)

lemma timer_empties: "m_inFlightBatches s < kMaxInFlight \<Longrightarrow> \<not> hasPending (onFlushTimer t s)"
  using flush_empties [of "s\<lparr>m_flushScheduled := False\<rparr>" t] by (simp add: onFlushTimer_def Let_def)

lemma ack_unpaused: "\<not> m_readPaused s \<Longrightarrow> drainAck t s =
  (if m_inFlightBatches s > 0 then s\<lparr>m_inFlightBatches := m_inFlightBatches s - 1\<rparr> else s)"
  by (simp add: drainAck_def)

lemma flush_data [simp]: "dataIn (flushBatch t s) = dataIn s" "dataIn (drainAck t s) = dataIn s"
  "dataIn (onFlushTimer t s) = dataIn s"
proof -
  show f: "dataIn (flushBatch t s) = dataIn s" for s
    by (simp add: flushBatch_def emitBatch_def takeBatch_def takeInto_def Let_def)
  show "dataIn (drainAck t s) = dataIn s" "dataIn (onFlushTimer t s) = dataIn s"
    by (simp_all add: drainAck_def onFlushTimer_def f Let_def)
qed

lemma ack_and_turn:
  assumes "worker fd pid evs s" "settled n s"
  shows "\<exists>rest s'. worker fd pid (evs @ rest) s' \<and> rest \<in> {[], [Ack t], [Ack t, FlushTimer t]} \<and>
    \<not> hasPending s' \<and> dataIn s' = dataIn s"
proof (cases "hasPending s")
  case False
  then show ?thesis using assms(1) by (intro exI [of _ "[]"] exI [of _ s]) simp
next
  case True
  let ?s = "drainAck t s"
  have w: "worker fd pid (evs @ [Ack t]) ?s" using worker.Event [OF assms(1), of "Ack t"] by simp
  show ?thesis
  proof (cases "m_readPaused s")
    case True
    then show ?thesis using w ack_empties [OF assms(2)] by (intro exI [of _ "[Ack t]"] exI [of _ ?s]) simp
  next
    case False
    then have "m_flushScheduled ?s" "m_inFlightBatches ?s < kMaxInFlight"
      using True assms(2) by (auto simp: ack_unpaused settled_def flow_core_def kMaxInFlight_def)
    then show ?thesis
      using worker.Event [OF w, of "FlushTimer t"] timer_empties [of ?s t]
      by (intro exI [of _ "[Ack t, FlushTimer t]"] exI [of _ "onFlushTimer t ?s"]) simp
  qed
qed

section \<open>What is written, in order\<close>

fun writtenBytes :: "worker_event \<Rightarrow> u8 list" where
  "writtenBytes (Write bs) = bs"
| "writtenBytes (Paste bs) = bs"
| "writtenBytes _ = []"

text \<open>Everything on its way to the shell: taken by the kernel, queued, or left of the paste.\<close>

definition typed :: "vt_stream \<Rightarrow> u8 list" where
  "typed s = sentBytes (m_pty s) @ pasteLeft s"

text \<open>A paste waits only behind a queue that will wake it.\<close>

definition paste_ok :: "vt_stream \<Rightarrow> bool" where
  "paste_ok s \<longleftrightarrow> queue_ok (m_pty s) \<and> m_pasteOffset s \<le> length (m_pasteBacklog s) \<and>
     (pasteLeft s \<noteq> [] \<longrightarrow> m_pendingWrite (m_pty s) \<noteq> [])"

text \<open>One write: all of it goes behind what is there, or a loss is reported and cuts the end.\<close>

definition wrote :: "vt_stream \<Rightarrow> u8 list \<Rightarrow> vt_stream \<Rightarrow> bool" where
  "wrote s bs t \<longleftrightarrow> subseq (typed t) (typed s @ bs) \<and>
     (\<exists>ls. lostOut t = lostOut s @ ls \<and> (ls = [] \<longrightarrow> typed t = typed s @ bs))"

lemma wrote_refl: "typed t = typed s \<Longrightarrow> lostOut t = lostOut s \<Longrightarrow> wrote s [] t"
  by (simp add: wrote_def)

lemma wrote_trans: "wrote s bs t \<Longrightarrow> wrote t cs u \<Longrightarrow> wrote s (bs @ cs) u"
proof -
  assume a: "wrote s bs t" "wrote t cs u"
  have "subseq (typed u) ((typed s @ bs) @ cs)"
    using a by (meson wrote_def list_emb_append_mono subseq_order.order_refl subseq_order.trans)
  then show ?thesis using a by (auto simp: wrote_def)
qed

lemma ptyWrite_wrote:
  assumes "queue_ok (m_pty s)"
  shows "queue_ok (m_pty (streamPtyWrite bs s)) \<and>
    (lostOut (streamPtyWrite bs s) = lostOut s \<and> sentBytes (m_pty (streamPtyWrite bs s)) = sentBytes (m_pty s) @ bs \<and>
       m_pasteBacklog (streamPtyWrite bs s) = m_pasteBacklog s \<and> m_pasteOffset (streamPtyWrite bs s) = m_pasteOffset s \<or>
     (\<exists>n. lostOut (streamPtyWrite bs s) = lostOut s @ [n]) \<and> m_pasteBacklog (streamPtyWrite bs s) = [] \<and>
       m_pasteOffset (streamPtyWrite bs s) = 0 \<and> prefix (sentBytes (m_pty (streamPtyWrite bs s))) (sentBytes (m_pty s) @ bs))"
proof -
  obtain sigs q where w: "ptyWrite bs (m_pty s) = (sigs, q)" by fastforce
  have q: "queue_ok q" using ptyWrite_queue [OF assms, of bs] w by simp
  consider "sigs = []" "sentBytes q = sentBytes (m_pty s) @ bs"
    | n where "sigs = [WriteLost (int n)]" "sentBytes q = sentBytes (m_pty s) @ take (length bs - n) bs"
    using ptyWrite_sent [OF assms w] by blast
  then show ?thesis
  proof cases
    case 1
    then show ?thesis using q w by (simp add: streamPtyWrite_def)
  next
    case (2 n)
    then show ?thesis using q w take_is_prefix by (auto simp: streamPtyWrite_def onWriteLost_def)
  qed
qed

lemma prefix_subseq: "prefix xs ys \<Longrightarrow> subseq xs (ys @ zs)"
  by (auto simp: prefix_def)

lemma prefix_subseq': "prefix xs ys \<Longrightarrow> subseq xs ys"
  using prefix_subseq [of xs ys "[]"] by simp

lemma slice_wrote:
  assumes "queue_ok (m_pty s)" "pasteLeft s = b @ r" "drop (m_pasteOffset s + n) (m_pasteBacklog s) = r"
    "u = (streamPtyWrite b s)\<lparr>m_pasteOffset := m_pasteOffset (streamPtyWrite b s) + n\<rparr>"
  shows "queue_ok (m_pty u) \<and> wrote s [] u"
  using ptyWrite_wrote [OF assms(1), of b] prefix_subseq [of _ "sentBytes (m_pty s) @ b" r] assms(2-4)
  by (auto simp: wrote_def typed_def pasteLeft_def)

lemma feedPasteLoop_wrote:
  "queue_ok (m_pty s) \<Longrightarrow> queue_ok (m_pty (feedPasteLoop s)) \<and> wrote s [] (feedPasteLoop s) \<and>
   (pasteLeft (feedPasteLoop s) \<noteq> [] \<longrightarrow> m_pendingWrite (m_pty (feedPasteLoop s)) \<noteq> [])"
proof (induction s rule: feedPasteLoop.induct)
  case (1 s)
  let ?n = "min kPasteSliceBytes (length (m_pasteBacklog s) - m_pasteOffset s)"
  let ?b = "take ?n (drop (m_pasteOffset s) (m_pasteBacklog s))"
  let ?t = "streamPtyWrite ?b s"
  let ?u = "?t\<lparr>m_pasteOffset := m_pasteOffset ?t + ?n\<rparr>"
  show ?case
  proof (cases "m_pasteOffset s < length (m_pasteBacklog s) \<and> writeQueueEmpty (m_pty s)")
    case True
    have left: "pasteLeft s = ?b @ drop (m_pasteOffset s + ?n) (m_pasteBacklog s)"
      by (metis (no_types) append_take_drop_id drop_drop add.commute pasteLeft_def)
    have u: "queue_ok (m_pty ?u)" "wrote s [] ?u"
      using slice_wrote [OF 1(2) left refl refl] by simp_all
    from 1(1) [OF True refl refl u(1)] have
      "queue_ok (m_pty (feedPasteLoop ?u)) \<and> wrote ?u [] (feedPasteLoop ?u) \<and>
       (pasteLeft (feedPasteLoop ?u) \<noteq> [] \<longrightarrow> m_pendingWrite (m_pty (feedPasteLoop ?u)) \<noteq> [])" .
    moreover have "feedPasteLoop s = feedPasteLoop ?u"
      using True by (subst feedPasteLoop.simps) (simp add: Let_def)
    ultimately show ?thesis using wrote_trans [OF u(2), of "[]"] by simp
  next
    case False
    then have "feedPasteLoop s = s" by (subst feedPasteLoop.simps) (simp only: if_False)
    then show ?thesis using False 1(2) by (auto simp: wrote_refl pasteLeft_def writeQueueEmpty_def)
  qed
qed

lemma feedPaste_wrote:
  assumes "queue_ok (m_pty s)"
  shows "paste_ok (feedPaste s) \<and> wrote s [] (feedPaste s)"
proof -
  note l = feedPasteLoop_wrote [OF assms]
  let ?t = "feedPasteLoop s"
  have "wrote ?t [] (feedPaste s)" by (rule wrote_refl) (simp_all add: feedPaste_def typed_def pasteLeft_def Let_def)
  moreover have "paste_ok (feedPaste s)" using l by (simp add: feedPaste_def paste_ok_def pasteLeft_def Let_def)
  ultimately show ?thesis using l wrote_trans [of s "[]" ?t "[]"] by simp
qed

lemma write_step:
  assumes "paste_ok s"
  shows "paste_ok (streamWrite bs s) \<and> wrote s bs (streamWrite bs s)"
proof (cases "m_pasteOffset s < length (m_pasteBacklog s)")
  case True
  then show ?thesis using assms
    by (simp add: streamWrite_def paste_ok_def wrote_def typed_def pasteLeft_def)
next
  case False
  then have "pasteLeft s = []" "streamWrite bs s = streamPtyWrite bs s" by (simp_all add: pasteLeft_def streamWrite_def)
  then show ?thesis using assms ptyWrite_wrote [of s bs]
    by (auto simp: paste_ok_def wrote_def typed_def pasteLeft_def intro: prefix_subseq')
qed

lemma paste_step:
  assumes "paste_ok s"
  shows "paste_ok (writePaste bs s) \<and> wrote s bs (writePaste bs s)"
proof (cases "bs = []")
  case True
  then show ?thesis using assms by (simp add: writePaste_def wrote_refl)
next
  case False
  let ?s = "s\<lparr>m_pasteBacklog := m_pasteBacklog s @ bs\<rparr>"
  have "queue_ok (m_pty ?s)" "wrote s bs ?s" using assms
    by (simp_all add: paste_ok_def wrote_def typed_def pasteLeft_def)
  then show ?thesis using False feedPaste_wrote [of ?s] wrote_trans [of s bs ?s "[]"] by (simp add: writePaste_def)
qed

lemma writable_step:
  assumes "paste_ok s"
  shows "paste_ok (ptyWritable s) \<and> wrote s [] (ptyWritable s)"
proof -
  obtain sigs q where w: "onWriteReady (m_pty s) = (sigs, q)" by fastforce
  have ok: "queue_ok (m_pty s)" using assms by (simp add: paste_ok_def)
  let ?s = "s\<lparr>m_pty := q\<rparr>"
  have q: "queue_ok q" using onWriteReady_facts [OF ok w] by simp
  consider "sigs = []" "sentBytes q = sentBytes (m_pty s)" "m_pendingWrite (m_pty s) \<noteq> [] \<longrightarrow> m_pendingWrite q \<noteq> []"
    | "sigs = [WriteDrained]" "sentBytes q = sentBytes (m_pty s)"
    | n where "sigs = [WriteLost (int n)]" "prefix (sentBytes q) (sentBytes (m_pty s))"
    using onWriteReady_facts [OF ok w] by (metis prefixI)
  then show ?thesis
  proof cases
    case 1
    then show ?thesis using assms w q
      by (auto simp: ptyWritable_def paste_ok_def pasteLeft_def typed_def intro!: wrote_refl)
  next
    case 2
    have "wrote s [] ?s" using 2 by (intro wrote_refl) (simp_all add: typed_def pasteLeft_def)
    then show ?thesis using 2 w q feedPaste_wrote [of ?s] wrote_trans [of s "[]" ?s "[]"]
      by (simp add: ptyWritable_def)
  next
    case (3 n)
    then show ?thesis using w q prefix_subseq [of "sentBytes q" "sentBytes (m_pty s)" "pasteLeft s"]
      by (simp add: ptyWritable_def onWriteLost_def paste_ok_def wrote_def typed_def pasteLeft_def)
  qed
qed

text \<open>Reading, flushing and acknowledging do not write.\<close>

definition writeView :: "vt_stream \<Rightarrow> (int \<times> bool option \<times> u8 list \<times> u8 list) \<times> u8 list \<times> nat \<times> int list" where
  "writeView s = ((m_masterFd (m_pty s), m_writeNotifier (m_pty s), m_pendingWrite (m_pty s), toKernel (m_pty s)),
     m_pasteBacklog s, m_pasteOffset s, lostOut s)"

lemma writeView_keep:
  "writeView t = writeView s \<Longrightarrow> (paste_ok t = paste_ok s) \<and> wrote s [] t"
  by (auto simp: writeView_def paste_ok_def queue_ok_def wrote_def typed_def sentBytes_def pasteLeft_def)

lemma writeView_flush [simp]: "writeView (flushBatch t s) = writeView s"
  by (simp add: flushBatch_def emitBatch_def takeBatch_def takeInto_def setReadEnabled_def writeView_def Let_def)

lemma writeView_data [simp]: "writeView (onPtyData w bs s) = writeView s"
proof -
  have "writeView (x\<lparr>m_parser := p, m_pending := b\<rparr>) = writeView x" "writeView (scheduleFlush x) = writeView x"
    "writeView (fold (onParsedAction e) as x) = writeView x"
    "writeView (x\<lparr>dataIn := d, m_pending := b\<rparr>) = writeView x" for x p b e as d
    by (simp_all add: writeView_def scheduleFlush_def)
  then show ?thesis by (simp add: onPtyData_def Let_def split_beta)
qed

lemma writeView_finish [simp]: "writeView (handleEof t reaped s) = writeView s"
  by (simp add: handleEof_def onPtyFinished_def takeBatch_def takeInto_def emitBatch_def writeView_def Let_def)

lemma writeView_loop [simp]: "writeView (readLoop w answers s) = writeView s"
  by (induction w answers s rule: readLoop.induct) (simp_all add: Let_def)

lemma writeView_read:
  "writeView (workerStep (Readable w fg tm answers) s) = writeView s"
  "writeView (workerStep (FlushTimer t) s) = writeView s" "writeView (workerStep (Ack t) s) = writeView s"
  "writeView (workerStep (KernelWill ks) s) = writeView s"
proof -
  have u: "writeView (x\<lparr>m_keysShareable := b\<rparr>) = writeView x" "writeView (x\<lparr>m_flushScheduled := b\<rparr>) = writeView x"
    "writeView (x\<lparr>m_inFlightBatches := n\<rparr>) = writeView x"
    "writeView (x\<lparr>m_pty := (m_pty x)\<lparr>m_lastForegroundPgid := n\<rparr>\<rparr>) = writeView x"
    "writeView (x\<lparr>m_pty := (m_pty x)\<lparr>kernelAnswers := ks\<rparr>\<rparr>) = writeView x"
    "writeView (x\<lparr>m_readPaused := b, m_pty := setReadEnabled True (m_pty x)\<rparr>) = writeView x"
    "writeView (x\<lparr>m_inFlightBatches := n, m_readPaused := b, m_pty := setReadEnabled True (m_pty x)\<rparr>) = writeView x"
    for x b n ks
    by (simp_all add: writeView_def setReadEnabled_def)
  show "writeView (workerStep (Readable w fg tm answers) s) = writeView s"
    by (simp add: onReadReady_def Let_def split_beta u)
  show "writeView (workerStep (FlushTimer t) s) = writeView s" by (simp add: onFlushTimer_def Let_def u)
  show "writeView (workerStep (Ack t) s) = writeView s" by (simp add: drainAck_def Let_def u)
  show "writeView (workerStep (KernelWill ks) s) = writeView s" by (simp add: u)
qed

lemma typed_step: "paste_ok s \<Longrightarrow> paste_ok (workerStep ev s) \<and> wrote s (writtenBytes ev) (workerStep ev s)"
proof (cases ev)
  case (Write bs)
  assume "paste_ok s"
  then show ?thesis using write_step by (simp add: Write)
next
  case (Paste bs)
  assume "paste_ok s"
  then show ?thesis using paste_step by (simp add: Paste)
next
  case Writable
  assume "paste_ok s"
  then show ?thesis using writable_step by (simp add: Writable)
qed (simp_all only: writtenBytes.simps writeView_keep [OF writeView_read(1)] writeView_keep [OF writeView_read(2)]
    writeView_keep [OF writeView_read(3)] writeView_keep [OF writeView_read(4)] simp_thms)

lemma worker_typed:
  assumes "worker fd pid evs s" "0 \<le> fd"
  shows "paste_ok s \<and> wrote (stream0 fd pid) (concat (map writtenBytes evs)) s"
  using assms(1)
proof (induction rule: worker.induct)
  case Spawned
  then show ?case using queue_ok_open [OF assms(2), of pid]
    by (simp add: paste_ok_def stream0_def pasteLeft_def wrote_refl)
next
  case (Event evs s ev)
  then show ?case using typed_step [of s ev] wrote_trans by auto
qed

section \<open>A willing kernel\<close>

lemma writeLoop_willing:
  "length bs \<le> n \<Longrightarrow> bs \<noteq> [] \<Longrightarrow> writeLoop (Takes n # ks) bs = (bs, AllOut, ks)"
  by (cases bs) auto

lemma loop_willing:
  assumes "m_pendingWrite (m_pty s) = []" "0 \<le> m_masterFd (m_pty s)"
    "kernelAnswers (m_pty s) = replicate k (Takes n)" "length (pasteLeft s) \<le> k" "kPasteSliceBytes \<le> n"
  shows "m_pendingWrite (m_pty (feedPasteLoop s)) = [] \<and> pasteLeft (feedPasteLoop s) = [] \<and>
    lostOut (feedPasteLoop s) = lostOut s"
  using assms
proof (induction s arbitrary: k rule: feedPasteLoop.induct)
  case (1 s)
  let ?n = "min kPasteSliceBytes (length (m_pasteBacklog s) - m_pasteOffset s)"
  let ?b = "take ?n (drop (m_pasteOffset s) (m_pasteBacklog s))"
  let ?t = "streamPtyWrite ?b s"
  let ?u = "?t\<lparr>m_pasteOffset := m_pasteOffset ?t + ?n\<rparr>"
  show ?case
  proof (cases "m_pasteOffset s < length (m_pasteBacklog s) \<and> writeQueueEmpty (m_pty s)")
    case True
    have n: "0 < ?n" using True by (simp add: kPasteSliceBytes_def)
    then have b: "?b \<noteq> []" "length ?b = ?n" using True by auto
    obtain k' where k: "k = Suc k'" using True 1(5) by (cases k) (auto simp: pasteLeft_def)
    have "writeLoop (kernelAnswers (m_pty s)) ?b = (?b, AllOut, replicate k' (Takes n))"
      using writeLoop_willing [OF _ b(1), of n] 1(4,6) b(2) by (simp add: k)
    then have t: "?t = s\<lparr>m_pty := (m_pty s)\<lparr>kernelAnswers := replicate k' (Takes n), toKernel := toKernel (m_pty s) @ ?b\<rparr>\<rparr>"
      using 1(2,3) by (simp add: streamPtyWrite_def ptyWrite_def writeSome_def Let_def)
    have "length (pasteLeft ?u) \<le> k'" using 1(5) n k True t by (simp add: pasteLeft_def)
    then have "m_pendingWrite (m_pty (feedPasteLoop ?u)) = [] \<and> pasteLeft (feedPasteLoop ?u) = [] \<and>
        lostOut (feedPasteLoop ?u) = lostOut ?u"
      using 1(2,3,6) t by (intro 1(1) [OF True refl refl]) simp_all
    moreover have "feedPasteLoop s = feedPasteLoop ?u"
      using True by (subst feedPasteLoop.simps) (simp add: Let_def)
    ultimately show ?thesis using t by simp
  next
    case False
    then have "feedPasteLoop s = s" by (subst feedPasteLoop.simps) (simp only: if_False)
    then show ?thesis using False 1(2) by (simp add: pasteLeft_def writeQueueEmpty_def)
  qed
qed

lemma writable_willing:
  assumes "paste_ok s" "m_pendingWrite (m_pty s) \<noteq> []" "kernelAnswers (m_pty s) = replicate (Suc k) (Takes n)"
    "length (m_pendingWrite (m_pty s)) \<le> n" "length (pasteLeft s) \<le> k" "kPasteSliceBytes \<le> n"
  shows "m_pendingWrite (m_pty (ptyWritable s)) = [] \<and> pasteLeft (ptyWritable s) = [] \<and>
    lostOut (ptyWritable s) = lostOut s"
proof -
  let ?q = "setWriteNotifier False ((m_pty s)\<lparr>kernelAnswers := replicate k (Takes n),
    toKernel := toKernel (m_pty s) @ m_pendingWrite (m_pty s), m_pendingWrite := []\<rparr>)"
  have "writeSome (m_pendingWrite (m_pty s)) (m_pty s) = (length (m_pendingWrite (m_pty s)), AllOut,
      (m_pty s)\<lparr>kernelAnswers := replicate k (Takes n), toKernel := toKernel (m_pty s) @ m_pendingWrite (m_pty s)\<rparr>)"
    using assms(2-4) by (simp add: writeSome_def writeLoop_willing)
  then have "onWriteReady (m_pty s) = ([WriteDrained], ?q)"
    using assms(1,2) by (simp add: onWriteReady_def Let_def paste_ok_def queue_ok_def)
  then have w: "ptyWritable s = feedPaste (s\<lparr>m_pty := ?q\<rparr>)" by (simp add: ptyWritable_def)
  have "m_pendingWrite (m_pty (feedPasteLoop (s\<lparr>m_pty := ?q\<rparr>))) = [] \<and>
      pasteLeft (feedPasteLoop (s\<lparr>m_pty := ?q\<rparr>)) = [] \<and>
      lostOut (feedPasteLoop (s\<lparr>m_pty := ?q\<rparr>)) = lostOut (s\<lparr>m_pty := ?q\<rparr>)"
    using assms by (intro loop_willing [where k = k and n = n])
      (simp_all add: setWriteNotifier_def paste_ok_def queue_ok_def pasteLeft_def)
  then show ?thesis unfolding w by (simp add: feedPaste_def pasteLeft_def Let_def)
qed

text \<open>So a kernel that takes what it is given finishes every write, paste included.\<close>

lemma willing_finishes:
  assumes "paste_ok s" "worker fd pid evs s"
  shows "\<exists>answers rest s'. worker fd pid (evs @ rest) s' \<and> set rest \<subseteq> {KernelWill answers, Writable} \<and>
    toKernel (m_pty s') = typed s' \<and> lostOut s' = lostOut s"
proof (cases "m_pendingWrite (m_pty s) = []")
  case True
  then show ?thesis using assms
    by (intro exI exI [of _ "[]"] exI [of _ s]) (auto simp: paste_ok_def typed_def sentBytes_def)
next
  case False
  define n where "n = length (m_pendingWrite (m_pty s)) + kPasteSliceBytes"
  define k where "k = length (pasteLeft s)"
  let ?w = "KernelWill (replicate (Suc k) (Takes n))"
  let ?t = "workerStep ?w s"
  have t: "worker fd pid (evs @ [?w]) ?t" using worker.Event [OF assms(2), of ?w] by simp
  have "m_writeNotifier (m_pty ?t) = Some True" using assms(1) False by (simp add: paste_ok_def queue_ok_def)
  then have w: "worker fd pid (evs @ [?w, Writable]) (ptyWritable ?t)" using worker.Event [OF t, of Writable] by simp
  have "m_pendingWrite (m_pty (ptyWritable ?t)) = [] \<and> pasteLeft (ptyWritable ?t) = [] \<and>
      lostOut (ptyWritable ?t) = lostOut ?t"
    using False writeView_keep [OF writeView_read(4), of "replicate (Suc k) (Takes n)" s] assms(1)
    by (intro writable_willing [where k = k and n = n]) (simp_all add: n_def k_def pasteLeft_def)
  then show ?thesis using w False
    by (intro exI [of _ "replicate (Suc k) (Takes n)"] exI [of _ "[?w, Writable]"] exI [of _ "ptyWritable ?t"])
      (auto simp: typed_def sentBytes_def)
qed

end
