(* ===== verification/GridPrintEq.thy ===== *)
theory GridPrintEq
  imports GridPrintInv VtParserFeed
begin

text \<open>
  The coalesced-run path of printing equals the one-code-point path: what
  \<open>handleAsciiPrintRun\<close> leaves is what \<open>handlePrint\<close> leaves called once per byte. The two differ
  in how they repair wide pairs and drop links, once per span or once per cell, which is where
  the invariant of the grid is needed.
\<close>

section \<open>One row\<close>

definition wr1 :: "cell_attrs \<Rightarrow> int \<Rightarrow> u8 \<Rightarrow> term_line \<Rightarrow> term_line" where
  "wr1 a c b l = l\<lparr>cells := vupd c (\<lambda>_. asciiCell a b) (cells l), combining := combErase c (combining l)\<rparr>"

lemma writeRun_Cons: "writeRun a c (b # bs) l = writeRun a (c + 1) bs (wr1 a c b l)"
  by (simp add: wr1_def)

lemma wr1_blankMate_same: "wr1 a c b (blankMate c l) = wr1 a c b l"
  by (simp add: wr1_def blankMate_def vupd_vupd_same o_def)

lemma wr1_blankMate: "c \<noteq> d \<Longrightarrow> wr1 a c b (blankMate d l) = blankMate d (wr1 a c b l)"
  by (simp add: wr1_def blankMate_def vupd_commute combErase_commute)

lemma writeRun_blankMate_same: "bs \<noteq> [] \<Longrightarrow> writeRun a c bs (blankMate c l) = writeRun a c bs l"
  by (cases bs) (simp_all add: writeRun_Cons wr1_blankMate_same del: writeRun.simps(2))

lemma break_dirty [simp]:
  "breakLeft w c (l\<lparr>dirty := d\<rparr>) = (breakLeft w c l)\<lparr>dirty := d\<rparr>"
  "breakRight w c (l\<lparr>dirty := d\<rparr>) = (breakRight w c l)\<lparr>dirty := d\<rparr>"
  by (simp_all add: breakLeft_def breakRight_def blankMate_def)

lemma wr1_dirty: "wr1 a c b (l\<lparr>dirty := d\<rparr>) = (wr1 a c b l)\<lparr>dirty := d\<rparr>"
  by (simp add: wr1_def)

lemma writeRun_dirty: "writeRun a c bs (l\<lparr>dirty := d\<rparr>) = (writeRun a c bs l)\<lparr>dirty := d\<rparr>"
  by (induction bs arbitrary: c l) (simp_all add: writeRun_Cons wr1_dirty del: writeRun.simps(2))

definition spanLine :: "cell_attrs \<Rightarrow> int \<Rightarrow> int \<Rightarrow> u8 list \<Rightarrow> term_line \<Rightarrow> term_line" where
  "spanLine a w s bs l =
     (writeRun a s bs (breakRight w (s + int (length bs)) (breakLeft w s l)))\<lparr>dirty := True\<rparr>"

lemma spanLine_fun: "spanLine a w s bs = (\<lambda>l.
     (writeRun a s bs (breakRight w (s + int (length bs)) (breakLeft w s l)))\<lparr>dirty := True\<rparr>)"
  by (rule ext) (simp add: spanLine_def)

lemma vget_wr1: "0 \<le> c \<Longrightarrow> 0 \<le> d \<Longrightarrow> c \<noteq> d \<Longrightarrow> vget (cells (wr1 a c b l)) d = vget (cells l) d"
  by (simp add: wr1_def vget_vupd_other)

lemma vget_blankMate: "0 \<le> c \<Longrightarrow> 0 \<le> d \<Longrightarrow> c \<noteq> d \<Longrightarrow> vget (cells (blankMate c l)) d = vget (cells l) d"
  by (simp add: blankMate_def vget_vupd_other)

lemma length_breakLeft [simp]: "length (cells (breakLeft w c l)) = length (cells l)"
  by (simp add: breakLeft_def blankMate_def)

text \<open>After one cell is written, the cell to its right is no orphaned right half.\<close>

lemma breakLeft_after:
  assumes "0 \<le> s" "s + 1 < w" "int (length (cells l)) = w"
  shows "breakLeft w (s + 1) (wr1 a s b (breakRight w (s + 1) l)) = wr1 a s b (breakRight w (s + 1) l)"
proof -
  have "\<not> isWideCont (vget (cells (wr1 a s b (breakRight w (s + 1) l))) (s + 1))"
    using assms by (auto simp: vget_wr1 breakRight_def blankMate_def vget_vupd_same unpair_def)
  then show ?thesis by (simp add: breakLeft_def)
qed

lemma writeRun_breakRight:
  assumes "0 \<le> s" "s + 1 < e" "int (length (cells l)) = w" "bs \<noteq> []"
  shows "writeRun a (s + 1) bs (breakRight w e (wr1 a s b (breakRight w (s + 1) l)))
       = writeRun a (s + 1) bs (wr1 a s b (breakRight w e l))"
proof -
  have t: "vget (cells (wr1 a s b (breakRight w (s + 1) l))) e = vget (cells l) e"
    using assms by (simp add: vget_wr1 breakRight_def vget_blankMate)
  have r: "writeRun a (s + 1) bs (blankMate e (blankMate (s + 1) x)) = writeRun a (s + 1) bs (blankMate e x)" for x
  proof -
    have "blankMate e (blankMate (s + 1) x) = blankMate (s + 1) (blankMate e x)"
      using assms by (simp add: blankMate_def vupd_commute combErase_commute)
    then show ?thesis using assms(4) by (simp add: writeRun_blankMate_same)
  qed
  have c: "wr1 a s b (blankMate (s + 1) x) = blankMate (s + 1) (wr1 a s b x)"
     "wr1 a s b (blankMate e x) = blankMate e (wr1 a s b x)" for x
    using assms by (simp_all add: wr1_blankMate)
  show ?thesis
    using assms t by (simp add: breakRight_def [of w e] breakRight_def [of w "s + 1"] c r writeRun_blankMate_same)
qed

lemma spanLine_Cons:
  assumes "0 \<le> s" "s + 1 + int (length bs) \<le> w" "int (length (cells l)) = w" "bs \<noteq> []"
  shows "spanLine a w s (b # bs) l = spanLine a w (s + 1) bs (spanLine a w s [b] l)"
proof -
  have n: "s + 1 < s + 1 + int (length bs)" "s + 1 < w"
    using assms(2) assms(4) by (cases bs; simp)+
  have "spanLine a w (s + 1) bs (spanLine a w s [b] l)
      = (writeRun a (s + 1) bs (breakRight w (s + 1 + int (length bs))
          (wr1 a s b (breakRight w (s + 1) (breakLeft w s l)))))\<lparr>dirty := True\<rparr>"
    using assms n breakLeft_after [of s w "breakLeft w s l" a b]
    by (simp add: spanLine_def writeRun_Cons writeRun_dirty del: writeRun.simps(2))
  also have "\<dots> = (writeRun a (s + 1) bs (wr1 a s b (breakRight w (s + 1 + int (length bs))
          (breakLeft w s l))))\<lparr>dirty := True\<rparr>"
    using assms n by (simp add: writeRun_breakRight)
  also have "s + 1 + int (length bs) = s + int (length (b # bs))" by simp
  finally show ?thesis by (simp only: spanLine_def writeRun_Cons)
qed

section \<open>One span\<close>

definition dropLinks :: "int \<Rightarrow> int \<Rightarrow> int \<Rightarrow> hyperlink_span list list \<Rightarrow> hyperlink_span list list" where
  "dropLinks r s e hl = vupd r (filter (\<lambda>sp. \<not> (startCol sp < e \<and> endCol sp \<ge> s))) hl"

lemma dropLinks_Cons:
  assumes "links_ok n hl" "0 < k"
  shows "dropLinks r s (s + 1 + k) hl = dropLinks r (s + 1) (s + 1 + k) (dropLinks r s (s + 1) hl)"
proof -
  have "filter (\<lambda>sp. \<not> (startCol sp < s + 1 + k \<and> endCol sp \<ge> s)) x
      = filter (\<lambda>sp. \<not> (startCol sp < s + 1 + k \<and> endCol sp \<ge> s + 1))
          (filter (\<lambda>sp. \<not> (startCol sp < s + 1 \<and> endCol sp \<ge> s)) x)"
    if "list_all span_ok x" for x
    using that assms(2) by (auto simp: list_all_iff span_ok_def intro!: filter_cong)
  moreover have "list_all span_ok (hl ! k)" if "k < length hl" for k
    using assms(1) that by (simp add: links_ok_def list_all_length)
  ultimately show ?thesis
    by (auto simp: dropLinks_def vupd_vupd_same o_def vupd_def nat_less_iff)
qed

lemma inGrid:
  assumes "grid_wf g"
  shows "0 \<le> m_cursorRow g" "m_cursorRow g < m_rows g" "m_cursorRow g \<le> m_rows g - 1"
    "0 \<le> m_cursorCol g" "m_cursorCol g < m_cols g" "m_cursorCol g \<le> m_cols g - 1"
    "int (length (m_screenLines g)) = m_rows g" "int (length (m_screenHyperlinks g)) = m_rows g"
    "l \<in> set (m_screenLines g) \<Longrightarrow> int (length (cells l)) = m_cols g"
    "links_ok (m_rows g) (m_screenHyperlinks g)"
  using assms by (auto simp: wf_defs cursor_ok_def lines_ok_def links_ok_def list_all_iff line_ok_def)

text \<open>What a span does to the grid, as one update.\<close>

lemma printSpan_grid:
  assumes "grid_wf g"
  shows "printSpan bs g = advance (int (length bs))
    (g\<lparr>m_screenHyperlinks := dropLinks (m_cursorRow g) (m_cursorCol g)
         (m_cursorCol g + int (length bs)) (m_screenHyperlinks g),
       m_screenLines := vupd (m_cursorRow g)
         (spanLine (m_currentAttrs g) (m_cols g) (m_cursorCol g) bs) (m_screenLines g)\<rparr>)"
  using inGrid [OF assms]
  by (simp add: printSpan_def Let_def
      breakWidePairsAround_def dropHyperlinkSpans_def markScreenDirty_def updLine_def dropLinks_def
      vupd_vupd_same o_def spanLine_fun)

lemma line_upd_order: "l\<lparr>dirty := d, combining := m\<rparr> = l\<lparr>combining := m, dirty := d\<rparr>"
  by simp

lemma placeChar_span:
  assumes "grid_wf g"
  shows "placeChar (ucast b) 1 g = printSpan [b] g"
  using inGrid [OF assms] assms
  by (simp add: printSpan_grid placeChar_def Let_def
      breakWidePairsAround_def dropHyperlinkSpans_def markScreenDirty_def updLine_def updCell_def
      dropLinks_def vupd_vupd_same o_def spanLine_fun asciiCell_def line_upd_order)

lemma printSpan_Cons:
  assumes "grid_wf g" "bs \<noteq> []" "m_cursorCol g + 1 + int (length bs) \<le> m_cols g"
  shows "printSpan (b # bs) g = printSpan bs (printSpan [b] g)"
proof -
  let ?c = "m_cursorCol g" and ?r = "m_cursorRow g" and ?a = "m_currentAttrs g" and ?w = "m_cols g"
  have n: "0 < int (length bs)" using assms(2) by simp
  have ok: "grid_wf (printSpan [b] g)" using assms(1) by (rule wf_printSpan)
  have c: "0 \<le> ?c" "?c + 1 < ?w" using inGrid(4) [OF assms(1)] assms(3) n by linarith+
  have L: "vupd ?r (spanLine ?a ?w ?c (b # bs)) (m_screenLines g)
      = vupd ?r (spanLine ?a ?w (?c + 1) bs) (vupd ?r (spanLine ?a ?w ?c [b]) (m_screenLines g))"
  proof -
    have "int (length (cells l)) = ?w" if "l \<in> set (m_screenLines g)" for l
      using assms(1) that by (simp add: wf_defs lines_ok_def list_all_iff line_ok_def)
    then show ?thesis
      using spanLine_Cons [OF c(1) assms(3) _ assms(2)]
      by (auto simp: vupd_vupd_same o_def vupd_def nat_less_iff)
  qed
  have H: "dropLinks ?r ?c (?c + 1 + int (length bs)) (m_screenHyperlinks g)
      = dropLinks ?r (?c + 1) (?c + 1 + int (length bs)) (dropLinks ?r ?c (?c + 1) (m_screenHyperlinks g))"
    using assms(1) n by (intro dropLinks_Cons [of "m_rows g"]) (auto simp: wf_defs)
  show ?thesis
    using c n H by (subst printSpan_grid [OF ok])
      (simp add: printSpan_grid [OF assms(1)] advance_def Let_def L ac_simps)
qed

section \<open>The loop\<close>

lemma wrapPending_off: "\<not> (m_wrapNext g \<and> m_autoWrap g) \<Longrightarrow> wrapPending e g = g"
  by (auto simp: wrapPending_def)

lemma wrapPending_done:
  "\<not> (m_wrapNext (clampCol (wrapPending e g)) \<and> m_autoWrap (clampCol (wrapPending e g)))"
  by (auto simp: wrapPending_def clampCol_def)

lemma clampCol_in: "grid_wf g \<Longrightarrow> clampCol g = g"
  using inGrid(5) [of g] by (simp add: clampCol_def)

lemma safe_width: "safeByte b \<Longrightarrow> charWidthOf e (ucast b) = 1"
proof -
  assume "safeByte b"
  then have "0x20 \<le> unat b" "unat b < 0x7F"
    by (auto simp: safeByte_def word_le_nat_alt word_less_nat_alt)
  then show ?thesis by (simp add: charWidthOf_def word_le_nat_alt word_less_nat_alt unat_ucast_u8)
qed

lemma handlePrint_safe:
  "safeByte b \<Longrightarrow> handlePrint e (ucast b) g = placeChar (ucast b) 1 (clampCol (wrapPending e g))"
  by (simp add: handlePrint_def safe_width Let_def)

lemma handlePrint_settled:
  assumes "safeByte b" "grid_wf g" "\<not> (m_wrapNext g \<and> m_autoWrap g)"
  shows "handlePrint e (ucast b) g = printSpan [b] g"
  using assms by (simp add: handlePrint_safe wrapPending_off clampCol_in placeChar_span)

lemma handlePrint_settle:
  assumes "safeByte b" "grid_wf g"
  shows "handlePrint e (ucast b) g = handlePrint e (ucast b) (clampCol (wrapPending e g))"
  using assms wrapPending_done [of e g] wf_clampCol [OF wf_wrapPending, of g e]
  by (simp add: handlePrint_safe wrapPending_off clampCol_in)

lemma span_fold:
  assumes "bs \<noteq> []" "list_all safeByte bs" "grid_wf g" "\<not> (m_wrapNext g \<and> m_autoWrap g)"
    "m_cursorCol g + int (length bs) \<le> m_cols g"
  shows "fold (\<lambda>b. handlePrint e (ucast b)) bs g = printSpan bs g"
  using assms
proof (induction bs arbitrary: g)
  case (Cons b bs)
  show ?case
  proof (cases bs)
    case Nil
    then show ?thesis using Cons.prems by (simp add: handlePrint_settled)
  next
    case (Cons c cs)
    then have n: "m_cursorCol g + 1 + int (length bs) \<le> m_cols g" "0 < int (length bs)"
      using Cons.prems by simp_all
    have c: "m_cursorCol g + 1 < m_cols g" using n by linarith
    have p: "handlePrint e (ucast b) g = printSpan [b] g"
      using Cons.prems by (intro handlePrint_settled) simp_all
    have f: "m_cursorCol (printSpan [b] g) = m_cursorCol g + 1" "m_cols (printSpan [b] g) = m_cols g"
      "m_wrapNext (printSpan [b] g) = m_wrapNext g" "m_autoWrap (printSpan [b] g) = m_autoWrap g"
      using c Cons.prems(3) by (simp_all add: printSpan_grid advance_def Let_def)
    have "fold (\<lambda>b. handlePrint e (ucast b)) bs (printSpan [b] g) = printSpan bs (printSpan [b] g)"
      using Cons.prems Cons n by (intro Cons.IH) (simp_all add: f wf_printSpan)
    moreover have "printSpan (b # bs) g = printSpan bs (printSpan [b] g)"
      using Cons Cons.prems(3) n(1) by (intro printSpan_Cons) simp_all
    ultimately show ?thesis by (simp add: p)
  qed
qed simp

lemma run_equals_fold:
  "grid_wf g \<Longrightarrow> list_all safeByte bs \<Longrightarrow>
   handleAsciiPrintRun e bs g = fold (\<lambda>b. handlePrint e (ucast b)) bs g"
proof (induction e bs g rule: handleAsciiPrintRun.induct)
  case (1 e bs g)
  show ?case
  proof (cases "bs = []")
    case True
    then show ?thesis by (subst handleAsciiPrintRun.simps) simp
  next
    case False
    define h where "h = clampCol (wrapPending e g)"
    define n where "n = nat (spanLength bs h)"
    have h: "grid_wf h" using 1(2) by (simp add: h_def wf_clampCol wf_wrapPending)
    have d: "\<not> (m_wrapNext h \<and> m_autoWrap h)" unfolding h_def by (rule wrapPending_done)
    have s: "0 < spanLength bs h" "m_cursorCol h + spanLength bs h \<le> m_cols h"
        "spanLength bs h \<le> int (length bs)"
      using False inGrid(5) [OF h] by (auto simp: spanLength_def min_def)
    have t: "take n bs \<noteq> []" "int (length (take n bs)) = spanLength bs h"
      using s False by (auto simp: n_def)
    have u: "\<forall>x \<in> set (take n bs). safeByte x"
      using 1(3) set_take_subset [of n bs] by (auto simp: list_all_iff)
    have first: "fold (\<lambda>b. handlePrint e (ucast b)) (take n bs) g
        = fold (\<lambda>b. handlePrint e (ucast b)) (take n bs) h"
      using t(1) 1(2) u unfolding h_def
      by (cases "take n bs") (auto intro!: arg_cong [where f = "fold _ _"] handlePrint_settle)
    also have "\<dots> = printSpan (take n bs) h"
      using t s h d 1(3) by (intro span_fold) (auto simp: list_all_iff dest: in_set_takeD)
    finally have one: "fold (\<lambda>b. handlePrint e (ucast b)) (take n bs) g = printSpan (take n bs) h" .
    have "handleAsciiPrintRun e bs g = handleAsciiPrintRun e (drop n bs) (printSpan (take n bs) h)"
      using False s(1) by (subst handleAsciiPrintRun.simps) (simp add: Let_def h_def n_def)
    also have "\<dots> = fold (\<lambda>b. handlePrint e (ucast b)) (drop n bs) (printSpan (take n bs) h)"
      using False s(1) 1(3) h unfolding n_def h_def
      by (intro 1(1)) (auto simp: list_all_iff wf_printSpan dest: in_set_dropD)
    also have "\<dots> = fold (\<lambda>b. handlePrint e (ucast b)) bs g"
      unfolding one [symmetric] by (simp flip: fold_append [THEN fun_cong, unfolded o_def])
    finally show ?thesis .
  qed
qed

end
