(* ===== verification/GridReflow.thy ===== *)
theory GridReflow
  imports GridResizeInv
begin

text \<open>
  What reflow keeps: joining the rows of a rewrapped line gives the line back, so a terminal
  can be made narrower and wider again without losing or moving a character.
\<close>

section \<open>Combining characters under reflow\<close>

lemma combGet_fold_set:
  "distinct (map fst kvs) \<Longrightarrow>
   combGet (fold (\<lambda>kv. combSet (b + fst kv) (snd kv)) kvs m) k =
     (case map_of kvs (k - b) of Some v \<Rightarrow> v | None \<Rightarrow> combGet m k)"
proof (induction kvs arbitrary: m)
  case (Cons kv kvs)
  have "map_of kvs (fst kv) = None" using Cons.prems by (simp add: map_of_eq_None_iff)
  then show ?case
    using Cons by (cases "k = b + fst kv") (auto split: option.split)
qed simp

lemma map_of_takeComb:
  "map_of (takeComb pos n m) k =
     (if 0 \<le> k \<and> k < n then map_of m (k + pos) else None)"
  by (induction m) (auto simp: takeComb_def)

lemma distinct_takeComb: "distinct (map fst m) \<Longrightarrow> distinct (map fst (takeComb pos n m))"
  by (induction m) (force simp: takeComb_def)+

lemma map_of_filter_key:
  "map_of (filter (\<lambda>kv. P (fst kv)) m) k = (if P k then map_of m k else None)"
  by (induction m) auto

lemma distinct_filter_key: "distinct (map fst m) \<Longrightarrow> distinct (map fst (filter P m))"
  by (induction m) auto

section \<open>Widths of rows\<close>

lemma keepLen_pad:
  "cs \<noteq> [] \<Longrightarrow> \<not> P (last cs) \<Longrightarrow> list_all P ps \<Longrightarrow> keepLen P (cs @ ps) = length cs"
proof -
  assume a: "cs \<noteq> []" "\<not> P (last cs)" "list_all P ps"
  have "dropWhile P (rev ps @ rev cs) = dropWhile P (rev cs)"
    using a(3) by (intro dropWhile_append2) (auto simp: list_all_iff)
  also have "\<dots> = rev cs" using a(1,2) by (cases "rev cs") (auto simp: last_rev hd_rev)
  finally show ?thesis by (simp add: keepLen_def)
qed

lemma rowBlanks_space: "list_all isSpaceCell (rowBlanks w g)"
  by (simp add: rowBlanks_def makeRow_blank isSpaceCell_def blankCell_def cell0_def list_all_iff)

lemma list_all_drop: "list_all P xs \<Longrightarrow> list_all P (drop n xs)"
  by (auto simp: list_all_iff dest: in_set_dropD)

definition narrow :: "cell list \<Rightarrow> bool" where
  "narrow cs \<longleftrightarrow> list_all (\<lambda>c. \<not> isWideChar c) cs"

lemma chunkLen_narrow: "narrow cs \<Longrightarrow> 1 \<le> w \<Longrightarrow> chunkLen w cs = min w (int (length cs))"
  by (auto simp: chunkLen_def Let_def narrow_def vget_def list_all_length nat_less_iff)

section \<open>Joining what was wrapped\<close>

definition sameLine :: "logical_line \<Rightarrow> logical_line \<Rightarrow> bool" where
  "sameLine a b \<longleftrightarrow> l_cells a = l_cells b \<and> combGet (l_combining a) = combGet (l_combining b)"

text \<open>
  A logical line reflow keeps: no double-width character, no trailing space, unique combining
  columns inside the line.
\<close>

definition steady :: "logical_line \<Rightarrow> bool" where
  "steady l \<longleftrightarrow> narrow (l_cells l) \<and> (l_cells l \<noteq> [] \<longrightarrow> \<not> isSpaceCell (last (l_cells l))) \<and>
     distinct (map fst (l_combining l)) \<and>
     (\<forall>k \<in> set (map fst (l_combining l)). 0 \<le> k \<and> k < int (length (l_cells l)))"

lemma combGet_beyond: "steady l \<Longrightarrow> int (length (l_cells l)) \<le> k \<or> k < 0 \<Longrightarrow> combGet (l_combining l) k = []"
proof -
  assume "steady l" "int (length (l_cells l)) \<le> k \<or> k < 0"
  then have "k \<notin> set (map fst (l_combining l))" by (force simp: steady_def)
  then show ?thesis by (metis combGet_def map_of_eq_None_iff list.set_map option.simps(4))
qed

lemma join_row:
  assumes "l_cells cur = pre" "pos = int (length pre)" "0 < n" "n \<le> int (length cs)"
    "distinct (map fst m)" "int (length blanks) = w" "n \<le> w"
    "n < int (length cs) \<longrightarrow> n = w"
    "n = int (length cs) \<longrightarrow> \<not> isSpaceCell (last cs)" "list_all isSpaceCell blanks"
    "\<forall>k. combGet (l_combining cur) k = (if k < pos then combGet m k else [])"
    "\<forall>k < 0. combGet m k = []"
  shows "l_cells (joinLine (wrapRow n blanks pos m cs) cur) = pre @ take (nat n) cs"
    "\<forall>k. combGet (l_combining (joinLine (wrapRow n blanks pos m cs) cur)) k =
       (if k < pos + n then combGet m k else [])"
proof -
  let ?r = "wrapRow n blanks pos m cs"
  have r: "cells ?r = take (nat n) cs @ drop (nat n) blanks" "combining ?r = takeComb pos n m"
    "softWrapped ?r = (n < int (length cs))"
    by (simp_all add: wrapRow_def)
  have len: "(if softWrapped ?r then length (cells ?r) else contentWidth ?r) = nat n"
  proof (cases "n < int (length cs)")
    case True
    then have "length (take (nat n) cs @ drop (nat n) blanks) = nat n"
      using assms(3,6,8) by auto
    then show ?thesis using True by (simp only: r if_True)
  next
    case False
    then have "take (nat n) cs = cs" "cs \<noteq> []" using assms(3,4) by auto
    moreover have "keepLen isSpaceCell (cs @ drop (nat n) blanks) = length cs"
      using \<open>cs \<noteq> []\<close> False assms by (intro keepLen_pad) (auto intro: list_all_drop)
    ultimately have "contentWidth ?r = length cs" by (simp only: contentWidth_def r)
    moreover have "\<not> softWrapped ?r" "nat n = length cs" using False assms(4) by (simp_all add: wrapRow_def)
    ultimately show ?thesis by simp
  qed
  have t: "take (nat n) (cells ?r) = take (nat n) cs" using assms(4) by (simp add: r)
  have keys: "filter (\<lambda>kv. fst kv < int (nat n)) (takeComb pos n m) = takeComb pos n m"
    using assms(3) by (induction m) (auto simp: takeComb_def)
  have before: "int (length (l_cells cur)) = pos" using assms(1,2) by simp
  have join: "joinLine ?r cur = cur\<lparr>l_cells := pre @ take (nat n) cs,
      l_combining := fold (\<lambda>kv. combSet (pos + fst kv) (snd kv)) (takeComb pos n m) (l_combining cur)\<rparr>"
    unfolding joinLine_def Let_def len keys r(2) t before using assms(1) by simp
  then show "l_cells (joinLine ?r cur) = pre @ take (nat n) cs" by simp
  show "\<forall>k. combGet (l_combining (joinLine ?r cur)) k = (if k < pos + n then combGet m k else [])"
  proof
    fix k
    have "combGet (l_combining (joinLine ?r cur)) k
        = (case map_of (takeComb pos n m) (k - pos) of Some v \<Rightarrow> v | None \<Rightarrow> combGet (l_combining cur) k)"
      using combGet_fold_set [OF distinct_takeComb [OF assms(5)]] by (simp add: join)
    then show "combGet (l_combining (joinLine ?r cur)) k = (if k < pos + n then combGet m k else [])"
      using assms(3,11) by (auto simp: map_of_takeComb combGet_def split: option.split)
  qed
qed

lemma join_loop:
  assumes "1 \<le> w" "int (length blanks) = w" "list_all isSpaceCell blanks" "distinct (map fst m)"
    "\<forall>k < 0. combGet m k = []"
  shows "cs \<noteq> [] \<Longrightarrow> narrow cs \<Longrightarrow> \<not> isSpaceCell (last cs) \<Longrightarrow> pos = int (length (l_cells cur)) \<Longrightarrow>
    \<forall>k. combGet (l_combining cur) k = (if k < pos then combGet m k else []) \<Longrightarrow>
    \<forall>k. k \<ge> pos + int (length cs) \<longrightarrow> combGet m k = [] \<Longrightarrow>
    \<exists>l. joinLoop (rewrapLoop w blanks pos m cs @ rest) cur = l # joinLoop rest logical0 \<and>
      l_cells l = l_cells cur @ cs \<and> combGet (l_combining l) = combGet m"
proof (induction "length cs" arbitrary: cs pos cur rule: less_induct)
  case less
  let ?n = "chunkLen w cs"
  have n: "?n = min w (int (length cs))" using less.prems(2) assms(1) by (rule chunkLen_narrow)
  then have n': "0 < ?n" "?n \<le> int (length cs)" "?n \<le> w" "?n < int (length cs) \<longrightarrow> ?n = w"
    using assms(1) less.prems(1) by (auto simp: min_def)
  let ?r = "wrapRow ?n blanks pos m cs"
  have row: "l_cells (joinLine ?r cur) = l_cells cur @ take (nat ?n) cs"
    "\<forall>k. combGet (l_combining (joinLine ?r cur)) k = (if k < pos + ?n then combGet m k else [])"
    using join_row [of cur "l_cells cur" pos ?n cs m blanks w] n' assms less.prems by auto
  have step: "rewrapLoop w blanks pos m cs = ?r # rewrapLoop w blanks (pos + ?n) m (drop (nat ?n) cs)"
    using less.prems(1) n'(1) by (subst rewrapLoop.simps) (simp add: Let_def)
  have soft: "softWrapped ?r = (?n < int (length cs))" by (simp add: wrapRow_def)
  show ?case
  proof (cases "?n < int (length cs)")
    case True
    let ?cs = "drop (nat ?n) cs"
    have c: "?cs \<noteq> []" "last ?cs = last cs" "int (length ?cs) = int (length cs) - ?n"
      "length ?cs < length cs" "narrow ?cs"
      using True n'(1) less.prems(2) by (auto simp: narrow_def list_all_drop)
    have p: "pos + ?n = int (length (l_cells (joinLine ?r cur)))"
      unfolding row(1) using n' less.prems(4) by simp
    obtain l where l: "joinLoop (rewrapLoop w blanks (pos + ?n) m ?cs @ rest) (joinLine ?r cur)
          = l # joinLoop rest logical0"
        "l_cells l = l_cells (joinLine ?r cur) @ ?cs" "combGet (l_combining l) = combGet m"
      using less.hyps [of ?cs "pos + ?n" "joinLine ?r cur"] c p row(2) less.prems by auto
    then show ?thesis using True by (simp add: step soft row(1))
  next
    case False
    then have e: "?n = int (length cs)" using n'(2) by simp
    have "rewrapLoop w blanks (pos + ?n) m (drop (nat ?n) cs) = []"
      by (subst rewrapLoop.simps) (simp add: e)
    moreover have "combGet (l_combining (joinLine ?r cur)) = combGet m"
      using row(2) less.prems(6) by (auto simp: e fun_eq_iff)
    moreover have "\<not> softWrapped ?r" "l_cells (joinLine ?r cur) = l_cells cur @ cs"
      using False unfolding soft row(1) by (simp_all add: e)
    ultimately show ?thesis by (simp add: step)
  qed
qed

lemma join_rewrap:
  assumes "1 \<le> w" "int (length blanks) = w" "list_all isSpaceCell blanks" "steady L"
  shows "\<exists>l. joinLogical (rewrap w blanks L @ rest) = l # joinLogical rest \<and> sameLine l L"
proof (cases "l_cells L = []")
  case True
  have m: "l_combining L = []"
    using assms(4) True by (cases "l_combining L") (force simp: steady_def)+
  have "keepLen isSpaceCell blanks = 0"
    using assms(3) by (simp add: keepLen_def list_all_iff)
  then have "joinLine (lineWith blanks) logical0 = logical0"
    by (simp add: joinLine_def Let_def contentWidth_def logical0_def)
  then show ?thesis using True m by (simp add: joinLogical_def rewrap_def sameLine_def logical0_def)
next
  case False
  then have s: "narrow (l_cells L)" "\<not> isSpaceCell (last (l_cells L))" "distinct (map fst (l_combining L))"
    using assms(4) by (simp_all add: steady_def)
  have "\<exists>l. joinLoop (rewrapLoop w blanks 0 (l_combining L) (l_cells L) @ rest) logical0
      = l # joinLoop rest logical0 \<and>
      l_cells l = l_cells logical0 @ l_cells L \<and> combGet (l_combining l) = combGet (l_combining L)"
    using assms False s combGet_beyond [OF assms(4)]
    by (intro join_loop) (auto simp: logical0_def combGet_def [of "[]"])
  then show ?thesis using False by (auto simp: joinLogical_def rewrap_def sameLine_def logical0_def)
qed

lemma join_rewrapAll:
  assumes "1 \<le> w" "int (length blanks) = w" "list_all isSpaceCell blanks" "list_all steady Ls"
  shows "list_all2 sameLine (joinLogical (concat (map (rewrap w blanks) Ls))) Ls"
  using assms(4)
proof (induction Ls)
  case (Cons L Ls)
  obtain l where "joinLogical (rewrap w blanks L @ concat (map (rewrap w blanks) Ls))
      = l # joinLogical (concat (map (rewrap w blanks) Ls))" "sameLine l L"
    using join_rewrap [OF assms(1-3)] Cons.prems by force
  then show ?case using Cons by simp
qed (simp add: joinLogical_def logical0_def)

section \<open>Wrapping is a function of the text\<close>

definition sameRow :: "term_line \<Rightarrow> term_line \<Rightarrow> bool" where
  "sameRow a b \<longleftrightarrow> cells a = cells b \<and> softWrapped a = softWrapped b \<and>
     combGet (combining a) = combGet (combining b)"

lemma combGet_takeComb:
  "combGet (takeComb pos n m) k = (if 0 \<le> k \<and> k < n then combGet m (k + pos) else [])"
  by (simp add: combGet_def map_of_takeComb)

lemma rewrapLoop_same:
  "combGet m = combGet m' \<Longrightarrow> list_all2 sameRow (rewrapLoop w b pos m cs) (rewrapLoop w b pos m' cs)"
proof (induction w b pos m cs rule: rewrapLoop.induct)
  case (1 w b pos m cs)
  have "sameRow (wrapRow n b pos m cs) (wrapRow n b pos m' cs)" for n
    using 1(2) by (simp add: sameRow_def wrapRow_def combGet_takeComb fun_eq_iff)
  then show ?case
    using 1 by (subst rewrapLoop.simps, subst (2) rewrapLoop.simps) (simp add: Let_def)
qed

lemma rewrap_same: "sameLine l l' \<Longrightarrow> list_all2 sameRow (rewrap w b l) (rewrap w b l')"
  by (simp add: sameLine_def rewrap_def rewrapLoop_same sameRow_def)

lemma rewrap_all_same:
  "list_all2 sameLine ls ls' \<Longrightarrow>
   list_all2 sameRow (concat (map (rewrap w b) ls)) (concat (map (rewrap w b) ls'))"
  by (induction rule: list_all2_induct) (simp_all add: rewrap_same list_all2_appendI)

lemma rewrap_twice:
  assumes "1 \<le> w" "int (length blanks) = w" "list_all isSpaceCell blanks"
    "list_all steady (joinLogical ls)"
  shows "list_all2 sameRow (rewrapAll w' blanks' (rewrapAll w blanks ls)) (rewrapAll w' blanks' ls)"
  unfolding rewrapAll_def using join_rewrapAll [OF assms] by (rule rewrap_all_same)

section \<open>No wide character is cut\<close>

lemma rewrap_no_split:
  assumes "2 \<le> w" "int (length blanks) = w" "list_all (\<lambda>c. \<not> isWideChar c) blanks"
  shows "r \<in> set (rewrapLoop w blanks pos m cs) \<Longrightarrow> softWrapped r \<Longrightarrow>
    \<not> isWideChar (cells r ! nat (w - 1))"
  using assms
proof (induction w blanks pos m cs rule: rewrapLoop.induct)
  case (1 w blanks pos m cs)
  let ?n = "chunkLen w cs"
  have "\<not> isWideChar (cells (wrapRow ?n blanks pos m cs) ! nat (w - 1))" if "?n < int (length cs)" "0 < ?n"
  proof -
    have n: "?n = w \<and> \<not> isWideChar (cs ! nat (w - 1)) \<or> ?n = w - 1"
      using that 1(4) by (auto simp: chunkLen_def Let_def vget_def min_def split: if_splits)
    then show ?thesis
    proof
      assume a: "?n = w \<and> \<not> isWideChar (cs ! nat (w - 1))"
      then have "nat (w - 1) < nat w" "nat w \<le> length cs" using that 1(4) by auto
      then show ?thesis using a by (simp add: wrapRow_def nth_append)
    next
      assume a: "?n = w - 1"
      then have "nat (w - 1) < length blanks" using 1(4,5) by auto
      moreover have "\<not> isWideChar (blanks ! nat (w - 1))"
        using 1(6) calculation by (simp add: list_all_length)
      moreover have "length (take (nat (w - 1)) cs) = nat (w - 1)" using a that by simp
      ultimately show ?thesis using a by (simp add: wrapRow_def nth_append)
    qed
  qed
  moreover have "r = wrapRow ?n blanks pos m cs \<or> r \<in> set (rewrapLoop w blanks (pos + ?n) m (drop (nat ?n) cs))"
      "cs \<noteq> []" "0 < ?n"
    using 1(2) by (subst (asm) rewrapLoop.simps; simp add: Let_def split: if_splits)+
  ultimately show ?case using 1 by (auto simp: wrapRow_def)
qed

text \<open>Each pass of the loop takes at least one cell, so it ends within that many rows.\<close>

lemma rewrapLoop_length: "length (rewrapLoop w blanks pos m cs) \<le> length cs"
proof (induction w blanks pos m cs rule: rewrapLoop.induct)
  case (1 w blanks pos m cs)
  show ?case
  proof (cases "cs = [] \<or> chunkLen w cs \<le> 0")
    case True
    then show ?thesis by (subst rewrapLoop.simps) (simp add: Let_def)
  next
    case False
    then have "length (rewrapLoop w blanks (pos + chunkLen w cs) m (drop (nat (chunkLen w cs)) cs))
        \<le> length cs - nat (chunkLen w cs)" "0 < nat (chunkLen w cs)" "cs \<noteq> []"
      using 1 by auto
    then have "Suc (length (rewrapLoop w blanks (pos + chunkLen w cs) m (drop (nat (chunkLen w cs)) cs)))
        \<le> length cs" by (cases cs) auto
    then show ?thesis using False by (subst rewrapLoop.simps) (simp add: Let_def)
  qed
qed

end
