(* ===== verification/GridHistory.thy ===== *)
theory GridHistory
  imports GridResizeInv
begin

text \<open>
  What scrolling does to the rows of the screen, and the transcript it leaves: scrollback and
  screen read as one sequence of rows, to which scrolling the full main screen appends blank
  rows and from which only the oldest rows go.
\<close>

section \<open>Rows of a scrolled region\<close>

definition blankRow :: "grid \<Rightarrow> term_line" where
  "blankRow g = lineWith (makeRow (m_cols g) (m_defaultFg g) (eraseBg g))"

text \<open>Row \<open>k\<close> after the rows \<open>[t, b]\<close> moved up, or down, by \<open>n\<close>.\<close>

definition movedUp :: "int \<Rightarrow> int \<Rightarrow> int \<Rightarrow> grid \<Rightarrow> nat \<Rightarrow> term_line" where
  "movedUp t b n g k =
     (if t \<le> int k \<and> int k \<le> b - n then m_screenLines g ! nat (int k + n)
      else if b - n < int k \<and> int k \<le> b then blankRow g else m_screenLines g ! k)"

definition movedDown :: "int \<Rightarrow> int \<Rightarrow> int \<Rightarrow> grid \<Rightarrow> nat \<Rightarrow> term_line" where
  "movedDown t b n g k =
     (if t + n \<le> int k \<and> int k \<le> b then m_screenLines g ! nat (int k - n)
      else if t \<le> int k \<and> int k < t + n then blankRow g else m_screenLines g ! k)"

lemma rotateRegion_frame [simp]:
  "m_cols (rotateRegion a b c g) = m_cols g" "m_defaultFg (rotateRegion a b c g) = m_defaultFg g"
  "eraseBg (rotateRegion a b c g) = eraseBg g" "m_scrollback (rotateRegion a b c g) = m_scrollback g"
  "m_screenLines (rotateRegion a b c g) = rotate_range a b c (m_screenLines g)"
  by (simp_all add: rotateRegion_def eraseBg_def)

lemma up_rows:
  assumes "0 \<le> t" "1 \<le> n" "n \<le> b - t + 1" "b < int (length (m_screenLines g))"
    "k < length (m_screenLines g)"
  shows "m_screenLines (refillRows (b - n + 1) n (rotateRegion t (t + n) (b + 1) g)) ! k = movedUp t b n g k"
  using assms
  by (auto simp: refillRows_lines nth_rotate_range movedUp_def blankRow_def algebra_simps)

lemma down_rows:
  assumes "0 \<le> t" "1 \<le> n" "n \<le> b - t + 1" "b < int (length (m_screenLines g))"
    "k < length (m_screenLines g)"
  shows "m_screenLines (refillRows t n (rotateRegion t (b + 1 - n) (b + 1) g)) ! k = movedDown t b n g k"
  using assms
  by (auto simp: refillRows_lines nth_rotate_range movedDown_def blankRow_def algebra_simps)

lemma markAll_lines [simp]:
  "m_screenLines (markAllScreenDirty g) = map (\<lambda>l. l\<lparr>dirty := True\<rparr>) (m_screenLines g)"
  by (simp add: markAllScreenDirty_def)

lemma markAll_colours [simp]:
  "m_defaultFg (markAllScreenDirty g) = m_defaultFg g" "eraseBg (markAllScreenDirty g) = eraseBg g"
  by (simp_all add: markAllScreenDirty_def eraseBg_def)

lemma discardRows_colours [simp]:
  "m_defaultFg (discardRows a n g) = m_defaultFg g" "eraseBg (discardRows a n g) = eraseBg g"
  using discardRows_pool [of a n g] by (auto simp: eraseBg_def)

lemma moved_frame:
  assumes "m_screenLines h = m_screenLines g" "m_cols h = m_cols g" "m_defaultFg h = m_defaultFg g"
    "eraseBg h = eraseBg g"
  shows "movedUp t b n h = movedUp t b n g" "movedDown t b n h = movedDown t b n g"
  using assms by (simp_all add: movedUp_def movedDown_def blankRow_def fun_eq_iff)

lemma wf_screen_length: "grid_wf g \<Longrightarrow> int (length (m_screenLines g)) = m_rows g"
  by (simp add: wf_defs lines_ok_def)

lemma scrollDown_rows:
  assumes "grid_wf g" "1 \<le> n" "k < length (m_screenLines g)"
  shows "m_screenLines (scrollDown n g) ! k = movedDown (m_scrollTop g) (m_scrollBottom g)
    (min n (m_scrollBottom g - m_scrollTop g + 1)) (markAllScreenDirty g) k"
proof -
  let ?c = "min n (m_scrollBottom g - m_scrollTop g + 1)"
  have r: "0 \<le> m_scrollTop g" "m_scrollTop g \<le> m_scrollBottom g" "m_scrollBottom g < m_rows g"
    using wf_rows(1) [OF assms(1)] by (simp_all add: region_ok_def)
  let ?h = "discardRows (m_scrollBottom g - ?c + 1) ?c (markAllScreenDirty g)"
  have "m_screenLines (refillRows (m_scrollTop g) ?c
      (rotateRegion (m_scrollTop g) (m_scrollBottom g + 1 - ?c) (m_scrollBottom g + 1) ?h)) ! k
      = movedDown (m_scrollTop g) (m_scrollBottom g) ?c ?h k"
    using r assms wf_screen_length [OF assms(1)] by (intro down_rows) auto
  also have "\<dots> = movedDown (m_scrollTop g) (m_scrollBottom g) ?c (markAllScreenDirty g) k"
    by (subst moved_frame(2) [of ?h "markAllScreenDirty g"]) simp_all
  finally show ?thesis
    using r assms(2) by (simp add: scrollDown_def Let_def) (simp add: rotateRegion_def)
qed

text \<open>IL and DL move the rows from the cursor to the bottom of the region.\<close>

lemma insertLines_rows:
  assumes "grid_wf g" "1 \<le> n" "k < length (m_screenLines g)"
    "m_scrollTop g \<le> m_cursorRow g" "m_cursorRow g \<le> m_scrollBottom g"
  shows "m_screenLines (insertLines n g) ! k = movedDown (m_cursorRow g) (m_scrollBottom g)
    (min n (m_scrollBottom g - m_cursorRow g + 1)) (markAllScreenDirty g) k"
proof -
  let ?c = "min n (m_scrollBottom g - m_cursorRow g + 1)"
  have r: "0 \<le> m_cursorRow g" "m_scrollBottom g < m_rows g"
    using wf_rows(1,2) [OF assms(1)] by (simp_all add: region_ok_def cursor_ok_def)
  let ?h = "discardRows (m_scrollBottom g - ?c + 1) ?c (markAllScreenDirty g)"
  have "m_screenLines (refillRows (m_cursorRow g) ?c
      (rotateRegion (m_cursorRow g) (m_scrollBottom g + 1 - ?c) (m_scrollBottom g + 1) ?h)) ! k
      = movedDown (m_cursorRow g) (m_scrollBottom g) ?c ?h k"
    using r assms wf_screen_length [OF assms(1)] by (intro down_rows) auto
  also have "\<dots> = movedDown (m_cursorRow g) (m_scrollBottom g) ?c (markAllScreenDirty g) k"
    by (subst moved_frame(2) [of ?h "markAllScreenDirty g"]) simp_all
  finally show ?thesis using assms by (simp add: insertLines_def Let_def)
qed

lemma deleteLines_rows:
  assumes "grid_wf g" "1 \<le> n" "k < length (m_screenLines g)"
    "m_scrollTop g \<le> m_cursorRow g" "m_cursorRow g \<le> m_scrollBottom g"
  shows "m_screenLines (deleteLines n g) ! k = movedUp (m_cursorRow g) (m_scrollBottom g)
    (min n (m_scrollBottom g - m_cursorRow g + 1)) (markAllScreenDirty g) k"
proof -
  let ?c = "min n (m_scrollBottom g - m_cursorRow g + 1)"
  have r: "0 \<le> m_cursorRow g" "m_scrollBottom g < m_rows g"
    using wf_rows(1,2) [OF assms(1)] by (simp_all add: region_ok_def cursor_ok_def)
  let ?h = "discardRows (m_cursorRow g) ?c (markAllScreenDirty g)"
  have "m_screenLines (refillRows (m_scrollBottom g - ?c + 1) ?c
      (rotateRegion (m_cursorRow g) (m_cursorRow g + ?c) (m_scrollBottom g + 1) ?h)) ! k
      = movedUp (m_cursorRow g) (m_scrollBottom g) ?c ?h k"
    using r assms wf_screen_length [OF assms(1)] by (intro up_rows) auto
  also have "\<dots> = movedUp (m_cursorRow g) (m_scrollBottom g) ?c (markAllScreenDirty g) k"
    by (subst moved_frame(1) [of ?h "markAllScreenDirty g"]) simp_all
  finally show ?thesis using assms by (simp add: deleteLines_def Let_def)
qed

text \<open>The steps of a scroll up, named.\<close>

definition scrollCount :: "int \<Rightarrow> grid \<Rightarrow> int" where
  "scrollCount n g = min n (m_scrollBottom g - m_scrollTop g + 1)"

definition scrollPrep :: "env \<Rightarrow> int \<Rightarrow> grid \<Rightarrow> grid" where
  "scrollPrep e n g = snd (csiClearWindow e (moveActiveLink (scrollCount n g) (markAllScreenDirty g)))"

definition scrollPush :: "env \<Rightarrow> int \<Rightarrow> grid \<Rightarrow> bool" where
  "scrollPush e n g \<longleftrightarrow> m_scrollTop g = 0 \<and> \<not> m_altScreenActive g \<and>
     \<not> (fst (csiClearWindow e (moveActiveLink (scrollCount n g) (markAllScreenDirty g)))
        \<and> \<not> m_scrollbackInsertPaused g)"

definition scrollSaved :: "env \<Rightarrow> int \<Rightarrow> grid \<Rightarrow> grid" where
  "scrollSaved e n g = trimScrollbackToCap
     (salvageTopRows (scrollPush e n g) (m_scrollTop g) (scrollCount n g) (scrollPrep e n g))"

lemma scrollPrep_frame [simp]:
  "m_rows (scrollPrep e n g) = m_rows g" "m_cols (scrollPrep e n g) = m_cols g"
  "m_scrollTop (scrollPrep e n g) = m_scrollTop g" "m_scrollBottom (scrollPrep e n g) = m_scrollBottom g"
  "m_screenLines (scrollPrep e n g) = m_screenLines (markAllScreenDirty g)"
  "m_defaultFg (scrollPrep e n g) = m_defaultFg g" "m_defaultBg (scrollPrep e n g) = m_defaultBg g"
  "eraseBg (scrollPrep e n g) = eraseBg g" "m_altScreenActive (scrollPrep e n g) = m_altScreenActive g"
  "m_scrollbackInsertPaused (scrollPrep e n g) = m_scrollbackInsertPaused g"
  "m_scrollback (scrollPrep e n g) = m_scrollback g"
  "m_scrollbackBytes (scrollPrep e n g) = m_scrollbackBytes g"
  "m_maxScrollback (scrollPrep e n g) = m_maxScrollback g"
  "m_maxScrollbackMib (scrollPrep e n g) = m_maxScrollbackMib g"
  "m_promptRegionShift (scrollPrep e n g) = m_promptRegionShift g"
  by (simp_all add: scrollPrep_def csiClearWindow_def moveActiveLink_def markAllScreenDirty_def
      eraseBg_def Let_def)

lemma wf_scrollPrep: "grid_wf g \<Longrightarrow> grid_wf (scrollPrep e n g)"
  unfolding scrollPrep_def by (intro wf_csiClearWindow wf_moveActiveLink wf_markAllScreenDirty)

lemma onlyHist_scrollSaved: "onlyHist (scrollPrep e n g) (scrollSaved e n g)"
  unfolding scrollSaved_def by (rule onlyHist_trans [OF onlyHist_salvage onlyHist_trim])

lemma scrollUp_steps:
  assumes "grid_wf g" "1 \<le> n"
  shows "scrollUp e n g = refillRows (m_scrollBottom g - scrollCount n g + 1) (scrollCount n g)
    (rotateRegion (m_scrollTop g) (m_scrollTop g + scrollCount n g) (m_scrollBottom g + 1) (scrollSaved e n g))"
proof -
  have r: "m_scrollTop g \<le> m_scrollBottom g" using wf_rows(1) [OF assms(1)] by (simp add: region_ok_def)
  obtain w h where w: "csiClearWindow e (moveActiveLink (scrollCount n g) (markAllScreenDirty g)) = (w, h)"
    by fastforce
  have h: "h = scrollPrep e n g" by (simp add: scrollPrep_def w)
  have c: "min n (m_scrollBottom g - m_scrollTop g + 1) = scrollCount n g" by (simp add: scrollCount_def)
  have push: "(m_scrollTop g = 0 \<and> \<not> m_altScreenActive g \<and> (w \<longrightarrow> m_scrollbackInsertPaused g))
      = scrollPush e n g" by (auto simp: scrollPush_def w)
  note s = onlyHist_simps(5,6) [OF onlyHist_scrollSaved [of e n g]]
  have t: "m_scrollTop (rotateRegion a b d k) = m_scrollTop k"
    "m_scrollBottom (rotateRegion a b d k) = m_scrollBottom k" for a b d k
    by (simp_all add: rotateRegion_def)
  show ?thesis
    using assms(2) r s by (simp add: scrollUp_def Let_def c w h t push flip: scrollSaved_def)
qed

lemma scrollUp_rows:
  assumes "grid_wf g" "1 \<le> n" "k < length (m_screenLines g)"
  shows "m_screenLines (scrollUp e n g) ! k = movedUp (m_scrollTop g) (m_scrollBottom g)
    (scrollCount n g) (markAllScreenDirty g) k"
proof -
  have r: "0 \<le> m_scrollTop g" "m_scrollTop g \<le> m_scrollBottom g" "m_scrollBottom g < m_rows g"
    using wf_rows(1) [OF assms(1)] by (simp_all add: region_ok_def)
  note o = onlyHist_simps [OF onlyHist_scrollSaved [of e n g]]
  have "m_screenLines (scrollUp e n g) ! k
      = movedUp (m_scrollTop g) (m_scrollBottom g) (scrollCount n g) (scrollSaved e n g) k"
    unfolding scrollUp_steps [OF assms(1,2)]
    using r assms wf_screen_length [OF assms(1)] by (intro up_rows) (auto simp: o scrollCount_def)
  also have "\<dots> = movedUp (m_scrollTop g) (m_scrollBottom g) (scrollCount n g) (markAllScreenDirty g) k"
    by (subst moved_frame(1) [of "scrollSaved e n g" "markAllScreenDirty g"]) (simp_all add: o)
  finally show ?thesis .
qed

section \<open>The transcript\<close>

text \<open>What a row shows: its cells up to the last one that is not a space, and how it joins the next.\<close>

definition rowView :: "term_line \<Rightarrow> cell list \<times> bool \<times> combining_map" where
  "rowView l = (take (contentWidth l) (cells l), softWrapped l, combining l)"

definition transcript :: "grid \<Rightarrow> (cell list \<times> bool \<times> combining_map) list" where
  "transcript g = map rowView (m_scrollback g) @ map rowView (m_screenLines g)"

lemma keepLen_le: "keepLen P xs \<le> length xs"
  by (simp add: keepLen_def) (metis length_dropWhile_le length_rev)

lemma keepLen_mono: "(\<And>x. Q x \<Longrightarrow> P x) \<Longrightarrow> keepLen P xs \<le> keepLen Q xs"
proof -
  assume q: "\<And>x. Q x \<Longrightarrow> P x"
  have "length (dropWhile P ys) \<le> length (dropWhile Q ys)" for ys
  proof (induction ys)
    case (Cons y ys)
    then show ?case using q [of y] length_dropWhile_le [of P ys] by (auto simp: le_SucI)
  qed simp
  then show ?thesis by (simp add: keepLen_def)
qed

lemma keepLen_take:
  assumes "keepLen P xs \<le> n"
  shows "keepLen P (take n xs) = keepLen P xs"
proof (cases "n \<le> length xs")
  case True
  have "list_all P (drop (keepLen P xs) xs)"
  proof -
    have "drop (keepLen P xs) xs = rev (takeWhile P (rev xs))"
      by (metis keepLen_def length_dropWhile_le rev_drop rev_rev_ident rev_take takeWhile_eq_take
          length_rev diff_diff_cancel length_takeWhile_le dropWhile_eq_drop length_drop take_rev)
    then show ?thesis by (auto simp: list_all_iff dest: set_takeWhileD)
  qed
  then have "list_all P (drop n xs)"
    using assms by (auto simp: list_all_iff dest: set_drop_subset_set_drop [OF assms, THEN subsetD])
  then have "dropWhile P (rev (take n xs @ drop n xs)) = dropWhile P (rev (take n xs))"
    by (simp only: rev_append) (rule dropWhile_append2, simp add: list_all_iff)
  then show ?thesis by (simp add: keepLen_def)
next
  case False
  then show ?thesis by simp
qed

lemma rowView_dirty [simp]: "rowView (l\<lparr>dirty := b\<rparr>) = rowView l"
  by (simp add: rowView_def contentWidth_def)

lemma fold_max_ge: "k \<le> fold (\<lambda>kv k. max k (f kv)) m (k :: int)"
  by (induction m arbitrary: k) (auto intro: order.trans [OF max.cobounded1])

text \<open>The trim a row gets on its way into scrollback does not change what it shows.\<close>

lemma rowView_trimmed: "rowView (fst (trimmedForScrollback l g)) = rowView l"
proof -
  let ?P = "plainBlank (cellColor (m_defaultBg g))"
  define keep where "keep = fold (\<lambda>kv k. max k (min (int (length (cells l))) (fst kv + 1)))
    (combining l) (int (keepLen ?P (cells l)))"
  have "contentWidth l \<le> keepLen ?P (cells l)"
    unfolding contentWidth_def by (rule keepLen_mono) (simp add: plainBlank_def isSpaceCell_def)
  also have "int (keepLen ?P (cells l)) \<le> keep" unfolding keep_def by (rule fold_max_ge)
  finally have le: "contentWidth l \<le> nat keep" by simp
  have "keepLen isSpaceCell (take (nat keep) (cells l)) = keepLen isSpaceCell (cells l)"
    using le unfolding contentWidth_def by (rule keepLen_take)
  then have "rowView (line0\<lparr>cells := take (nat keep) (cells l), dirty := dirty l, combining := combining l\<rparr>)
      = rowView l" if "\<not> softWrapped l"
    using that le by (simp add: rowView_def contentWidth_def line0_def min_def)
  then show ?thesis
    by (simp add: trimmedForScrollback_def Let_def flip: keep_def)
qed

lemma append_views:
  "map rowView (m_scrollback (appendScrollback l g)) = map rowView (m_scrollback g) @ [rowView l]"
  using rowView_trimmed [of l g] trimmed_frame(1) [of l g]
  by (cases "trimmedForScrollback l g") (simp add: appendScrollback_def)

section \<open>Scrolling the full main screen\<close>

definition viewsOf :: "grid \<Rightarrow> (cell list \<times> bool \<times> combining_map) list" where
  "viewsOf g = map rowView (m_scrollback g)"

lemma pushTopRow_views:
  "viewsOf (pushTopRow r g) = viewsOf g @ [rowView (lineAt g r)]"
  "m_promptRegionShift (pushTopRow r g) = m_promptRegionShift g"
  "length (m_scrollback (pushTopRow r g)) = length (m_scrollback g) + 1"
  using append_views [of "lineAt g r" g] arg_cong [OF append_views [of "lineAt g r" g], of length]
    trimmed_grid [of "lineAt g r" g]
  by (auto simp: pushTopRow_def Let_def viewsOf_def appendScrollback_def split: prod.splits)

lemma trimmed_bytes: "cellBytes (fst (trimmedForScrollback l g)) \<le> cellBytes l"
  by (auto simp: trimmedForScrollback_def Let_def cellBytes_def sizeofCell_def line0_def nat_le_iff)

lemma pushTopRow_bytes:
  "m_scrollbackBytes (pushTopRow r g) \<le> m_scrollbackBytes g + cellBytes (lineAt g r)"
  using trimmed_bytes [of "lineAt g r" g] trimmed_frame(2) [of "lineAt g r" g]
  by (cases "trimmedForScrollback (lineAt g r) g") (simp add: pushTopRow_def appendScrollback_def Let_def)

lemma pushRows_views:
  assumes "0 \<le> n" "n \<le> int (length (m_screenLines g))" "list_all (line_ok w) (m_screenLines g)"
  shows "viewsOf (fold pushTopRow [0 .. n - 1] g) = viewsOf g @ map rowView (take (nat n) (m_screenLines g)) \<and>
    m_promptRegionShift (fold pushTopRow [0 .. n - 1] g) = m_promptRegionShift g \<and>
    m_scrollbackBytes (fold pushTopRow [0 .. n - 1] g) \<le> m_scrollbackBytes g + n * (w * sizeofCell) \<and>
    m_screenLines (fold pushTopRow [0 .. n - 1] g) = m_screenLines g"
  using assms
proof (induction "nat n" arbitrary: n)
  case 0
  then have "n = 0" by simp
  then show ?case by simp
next
  case (Suc k)
  have k: "k = nat (n - 1)" "0 \<le> n - 1" "n - 1 \<le> int (length (m_screenLines g))"
    using Suc.hyps(2) Suc.prems by auto
  let ?h = "fold pushTopRow [0 .. n - 1 - 1] g"
  have split: "[0 .. n - 1] = [0 .. n - 1 - 1] @ [n - 1]" using k(2) by (simp add: upto_rec2)
  have l: "lineAt ?h (n - 1) = m_screenLines g ! k" "int (length (cells (m_screenLines g ! k))) = w"
    "nat n = Suc k" "k < length (m_screenLines g)"
    using Suc.hyps(1) [OF k] Suc.prems k(1,2)
    by (auto simp: lineAt_def vget_def list_all_length line_ok_def nat_diff_distrib)
  have "m_screenLines (pushTopRow (n - 1) ?h) = m_screenLines ?h"
    using onlyHist_simps(7) [OF onlyHist_pushTopRow] .
  then show ?case
    using Suc.hyps(1) [OF k] Suc.prems pushTopRow_views [of "n - 1" ?h] pushTopRow_bytes [of "n - 1" ?h] l k(1)
    by (simp add: split take_Suc_conv_app_nth cellBytes_def algebra_simps)
qed

lemma blankRow_view: "rowView (blankRow g) = ([], False, [])"
proof -
  have "keepLen isSpaceCell (makeRow w f b) = 0" for w f b
    by (simp add: makeRow_blank keepLen_def isSpaceCell_def blankCell_def cell0_def)
  then show ?thesis by (simp add: rowView_def contentWidth_def blankRow_def)
qed

lemma evict_none:
  assumes "int (length (m_scrollback g)) \<le> m_maxScrollback g" "m_scrollbackBytes g \<le> byteCap g"
  shows "evictLoop g = g"
  using assms by (subst evictLoop.simps) simp

lemma scrolled_screen:
  assumes "grid_wf g" "1 \<le> n" "m_scrollTop g = 0" "m_scrollBottom g = m_rows g - 1"
  shows "map rowView (m_screenLines (scrollUp e n g)) =
    drop (nat (scrollCount n g)) (map rowView (m_screenLines g)) @
    replicate (nat (scrollCount n g)) ([], False, [])"
proof (rule nth_equalityI)
  let ?c = "nat (scrollCount n g)"
  have c: "int ?c = scrollCount n g" "?c \<le> length (m_screenLines g)"
    using assms wf_dims(1) [OF assms(1)] wf_screen_length [OF assms(1)] by (auto simp: scrollCount_def)
  have len: "length (m_screenLines (scrollUp e n g)) = length (m_screenLines g)"
    using wf_dims(1) [OF assms(1)] wf_screen_length [OF assms(1)] assms(2-4)
      onlyHist_simps(7) [OF onlyHist_scrollSaved [of e n g]]
    by (simp add: scrollUp_steps [OF assms(1,2)] scrollCount_def)
  show "length (map rowView (m_screenLines (scrollUp e n g))) =
      length (drop ?c (map rowView (m_screenLines g)) @ replicate ?c ([], False, []))"
    using c by (simp add: len)
  fix k assume "k < length (map rowView (m_screenLines (scrollUp e n g)))"
  then have k: "k < length (m_screenLines g)" by (simp add: len)
  show "map rowView (m_screenLines (scrollUp e n g)) ! k =
      (drop ?c (map rowView (m_screenLines g)) @ replicate ?c ([], False, [])) ! k"
  proof (cases "k < length (m_screenLines g) - ?c")
    case True
    have s: "0 \<le> scrollCount n g" using c(1) by linarith
    have "int k \<le> m_rows g - 1 - scrollCount n g" "?c + k < length (m_screenLines g)"
      using True c s wf_screen_length [OF assms(1)] by auto
    moreover have "nat (int k + scrollCount n g) = ?c + k" using s by simp
    ultimately show ?thesis
      using True k scrollUp_rows [OF assms(1,2) k, of e] assms(3,4)
      by (simp add: len nth_append movedUp_def)
  next
    case False
    then have "m_rows g - 1 - scrollCount n g < int k" "int k \<le> m_rows g - 1"
      using c k wf_screen_length [OF assms(1)] by auto
    then show ?thesis
      using False k c scrollUp_rows [OF assms(1,2) k, of e] assms(3,4) blankRow_view
      by (simp add: len nth_append movedUp_def)
  qed
qed

text \<open>
  Scrolling refines appending blank rows to the transcript; what is lost is the oldest rows,
  and only when a cap asks for it.
\<close>

lemma refill_hist [simp]:
  "m_scrollback (refillRows a n g) = m_scrollback g"
  "m_promptRegionShift (refillRows a n g) = m_promptRegionShift g"
proof -
  have r: "m_scrollback (refillRow r h) = m_scrollback h"
    "m_promptRegionShift (refillRow r h) = m_promptRegionShift h" for r h
    using refillRow_grid [of r h] by auto
  show "m_scrollback (refillRows a n g) = m_scrollback g"
    "m_promptRegionShift (refillRows a n g) = m_promptRegionShift g"
    unfolding refillRows_def
    by (rule fold_keeps [where P = "\<lambda>h. m_scrollback h = m_scrollback g"]; simp add: r)
      (rule fold_keeps [where P = "\<lambda>h. m_promptRegionShift h = m_promptRegionShift g"]; simp add: r)
qed

lemma scroll_transcript:
  assumes "grid_wf g" "1 \<le> n" "m_scrollTop g = 0" "m_scrollBottom g = m_rows g - 1" "scrollPush e n g"
  shows "\<exists>k. transcript (scrollUp e n g) =
      drop k (transcript g @ replicate (nat (scrollCount n g)) ([], False, [])) \<and>
    m_promptRegionShift (scrollUp e n g) = m_promptRegionShift g + int k \<and>
    (int (length (m_scrollback g)) + scrollCount n g \<le> m_maxScrollback g \<and>
     m_scrollbackBytes g + scrollCount n g * (m_cols g * sizeofCell) \<le> byteCap g \<longrightarrow> k = 0)"
proof -
  let ?c = "scrollCount n g" and ?p = "scrollPrep e n g"
  let ?s = "fold pushTopRow [0 .. ?c - 1] ?p"
  have c: "1 \<le> ?c" "?c \<le> int (length (m_screenLines g))"
    using assms wf_dims(1) [OF assms(1)] wf_screen_length [OF assms(1)] by (auto simp: scrollCount_def)
  have lines: "list_all (line_ok (m_cols g)) (m_screenLines (markAllScreenDirty g))"
    using assms(1) by (auto simp: wf_defs lines_ok_def list_all_iff)
  have v: "viewsOf ?s = viewsOf g @ map rowView (take (nat ?c) (m_screenLines g))"
    "m_promptRegionShift ?s = m_promptRegionShift g"
    "m_scrollbackBytes ?s \<le> m_scrollbackBytes g + ?c * (m_cols g * sizeofCell)"
    using pushRows_views [of ?c ?p "m_cols g"] c lines by (simp_all add: viewsOf_def take_map o_def)
  have sv: "salvageTopRows (scrollPush e n g) (m_scrollTop g) ?c ?p = ?s"
    using assms(3,5) by (simp add: salvageTopRows_def)
  have inv: "grid_inv ?s"
    using inv_salvage [of ?p 0 ?c True] wf_scrollPrep [OF assms(1), of e n] c wf_screen_length [OF assms(1)]
    by (simp add: grid_wf_def salvageTopRows_def)
  have saved: "scrollSaved e n g = evictLoop ?s"
    using trim_evict [OF inv_hist [OF inv]] by (simp add: scrollSaved_def sv)
  obtain k where k: "m_scrollback (evictLoop ?s) = drop k (m_scrollback ?s)"
    "m_promptRegionShift (evictLoop ?s) = m_promptRegionShift ?s + int k" "k \<le> length (m_scrollback ?s)"
    using evictLoop_drop [OF inv_hist [OF inv]] by auto
  have len: "length (m_scrollback ?s) = length (m_scrollback g) + nat ?c"
    using arg_cong [OF v(1), of length] c by (simp add: viewsOf_def)
  have up: "m_scrollback (scrollUp e n g) = m_scrollback (evictLoop ?s)"
    "m_promptRegionShift (scrollUp e n g) = m_promptRegionShift g + int k"
    by (simp_all add: scrollUp_steps [OF assms(1,2)] saved k(2) v(2)) (simp add: rotateRegion_def k(2) v(2))
  have "transcript (scrollUp e n g) = drop k (viewsOf ?s) @ map rowView (m_screenLines (scrollUp e n g))"
    by (simp add: transcript_def up(1) k(1) drop_map viewsOf_def)
  also have "\<dots> = drop k (viewsOf g @ map rowView (m_screenLines g) @
      replicate (nat ?c) ([], False, []))"
  proof -
    let ?R = "replicate (nat ?c) ([], False, [] :: combining_map) :: (cell list \<times> bool \<times> combining_map) list"
    have E: "viewsOf g @ map rowView (m_screenLines g) @ ?R =
        viewsOf ?s @ drop (nat ?c) (map rowView (m_screenLines g)) @ ?R"
      by (simp add: v(1) flip: take_map)
    have "k \<le> length (viewsOf ?s)" using k(3) by (simp add: viewsOf_def)
    then show ?thesis unfolding E scrolled_screen [OF assms(1-4)] by simp
  qed
  finally have t: "transcript (scrollUp e n g) =
      drop k (transcript g @ replicate (nat ?c) ([], False, []))"
    by (simp add: transcript_def viewsOf_def)
  have "k = 0" if "int (length (m_scrollback g)) + ?c \<le> m_maxScrollback g"
      "m_scrollbackBytes g + ?c * (m_cols g * sizeofCell) \<le> byteCap g"
  proof -
    have "onlyHist ?p ?s" using onlyHist_salvage [of ?p True 0 ?c] by (simp add: salvageTopRows_def)
    then have m: "m_maxScrollback ?s = m_maxScrollback g" "byteCap ?s = byteCap g"
      by (simp_all add: onlyHist_simps byteCap_def)
    have "evictLoop ?s = ?s"
      using that v(3) len c by (intro evict_none) (simp_all add: m)
    then show ?thesis using k(2) by simp
  qed
  then show ?thesis using t up(2) by blast
qed

text \<open>Where nothing is saved, the rows that scroll off are discarded and the history stays.\<close>

lemma discarded_transcript:
  assumes "grid_wf g" "1 \<le> n" "m_scrollTop g = 0" "m_scrollBottom g = m_rows g - 1" "\<not> scrollPush e n g"
  shows "transcript (scrollUp e n g) = map rowView (m_scrollback g) @
    drop (nat (scrollCount n g)) (map rowView (m_screenLines g)) @ replicate (nat (scrollCount n g)) ([], False, [])"
proof -
  let ?p = "scrollPrep e n g"
  let ?d = "discardRows 0 (scrollCount n g) ?p"
  have sv: "salvageTopRows (scrollPush e n g) (m_scrollTop g) (scrollCount n g) ?p = ?d"
    using assms(3,5) by (simp add: salvageTopRows_def)
  have d: "m_scrollback ?d = m_scrollback g" "m_scrollbackBytes ?d = m_scrollbackBytes g"
    "m_maxScrollback ?d = m_maxScrollback g" "m_maxScrollbackMib ?d = m_maxScrollbackMib g"
    using discardRows_pool [of 0 "scrollCount n g" ?p] by auto
  have "hist_cap g" using assms(1) by (simp add: grid_wf_def)
  then have "evictLoop ?d = ?d"
    by (intro evict_none) (simp_all add: d byteCap_def hist_cap_def cap_ok_def)
  then have "m_scrollback (scrollSaved e n g) = m_scrollback g"
    by (simp add: scrollSaved_def sv trimScrollbackToCap_def Let_def d)
  then have "m_scrollback (scrollUp e n g) = m_scrollback g"
    by (simp add: scrollUp_steps [OF assms(1,2)])
  then show ?thesis
    using scrolled_screen [OF assms(1-4), of e] by (simp add: transcript_def)
qed

end
