(* ===== verification/GridFrame.thy ===== *)
theory GridFrame
  imports GridRun
begin

text \<open>
  Framing for the operations that draw: whatever is read off a grid through a view that does
  not look at the screen, the cursor, the scrollback and their bookkeeping is the same after
  printing, moving, erasing and scrolling. The contract of such a view is a locale; its
  instances are the guarded state, the memory of the saved cursor and of the main screen.
\<close>

locale screen_frame =
  fixes view :: "grid \<Rightarrow> 'v"
  assumes view_rows: "view (g\<lparr>m_screenLines := ls\<rparr>) = view g" "view (g\<lparr>m_screenHyperlinks := hl\<rparr>) = view g"
      "view (g\<lparr>m_freeCellBuffers := pool\<rparr>) = view g"
    and view_cursor_at: "view (g\<lparr>m_cursorRow := i\<rparr>) = view g" "view (g\<lparr>m_cursorCol := i\<rparr>) = view g"
      "view (g\<lparr>m_wrapNext := b\<rparr>) = view g" "view (g\<lparr>m_currentAttrs := at\<rparr>) = view g"
      "view (g\<lparr>m_scrollTop := i\<rparr>) = view g" "view (g\<lparr>m_scrollBottom := i\<rparr>) = view g"
    and view_history: "view (g\<lparr>m_scrollback := ls\<rparr>) = view g" "view (g\<lparr>m_scrollbackBytes := i\<rparr>) = view g"
      "view (g\<lparr>m_scrollbackPushed := n\<rparr>) = view g" "view (g\<lparr>m_scrollbackHyperlinks := hl\<rparr>) = view g"
      "view (g\<lparr>m_promptRegionShift := i\<rparr>) = view g"
    and view_books: "view (g\<lparr>m_contentRevision := n\<rparr>) = view g" "view (g\<lparr>m_tabStops := ts\<rparr>) = view g"
      "view (g\<lparr>m_recentMode2Timer := t\<rparr>) = view g" "view (g\<lparr>m_csiClearRedrawActive := b\<rparr>) = view g"
      "view (g\<lparr>m_csiClearRedrawTimer := t\<rparr>) = view g" "view (g\<lparr>m_hyperlinkStartRow := i\<rparr>) = view g"
      "view (g\<lparr>m_hyperlinkStartCol := i\<rparr>) = view g"
    and view_bell: "view (emit Bell g) = view g"
begin

lemmas view_upd [simp] = view_rows view_cursor_at view_history view_books view_bell

lemma view_fold: "(\<And>x s. view (f x s) = view s) \<Longrightarrow> view (fold f xs s) = view s"
  by (induction xs arbitrary: s) auto

lemma view_pow: "(\<And>s. view (f s) = view s) \<Longrightarrow> view ((f ^^ n) s) = view s"
  by (induction n) auto

text \<open>Screen, scrollback, printing.\<close>

lemma view_screen [simp]:
  "view (bumpRevision g) = view g" "view (updLine r f g) = view g"
  "view (markScreenDirty r g) = view g" "view (markAllScreenDirty g) = view g"
  "view (updCell r c h g) = view g" "view (initTabStops g) = view g"
  "view (returnCellsRow cs g) = view g" "view (dropHyperlinkSpans r a b g) = view g"
  by (simp_all add: bumpRevision_def updLine_def markScreenDirty_def markAllScreenDirty_def updCell_def
      initTabStops_def returnCellsRow_def dropHyperlinkSpans_def)

lemma view_onlyHist: "onlyHist g h \<Longrightarrow> view h = view g"
proof -
  have "view (dropHist g) = view g" for g by (simp add: dropHist_def)
  then show "onlyHist g h \<Longrightarrow> view h = view g" by (metis onlyHist_def)
qed

lemma view_hist [simp]:
  "view (evictLoop g) = view g" "view (trimScrollbackToCap g) = view g"
  "view (appendScrollback l g) = view g" "view (salvageTopRows p a n g) = view g"
  by (rule view_onlyHist, rule onlyHist_evictLoop onlyHist_trim onlyHist_append onlyHist_salvage)+

lemma view_refill [simp]: "view (refillRow r g) = view g" "view (refillRows a n g) = view g"
  "view (discardRows a n g) = view g"
proof -
  have r: "view (refillRow r g) = view g" for r g using refillRow_grid [of r g] by auto
  then show "view (refillRow r g) = view g" .
  show "view (refillRows a n g) = view g" unfolding refillRows_def by (rule view_fold) (rule r)
  show "view (discardRows a n g) = view g" using discardRows_pool [of a n g] by auto
qed

lemma view_edit [simp]:
  "view (clearRow r a b g) = view g"
  "view (clearRows a b g) = view g" "view (eraseInLine m g) = view g"
  "view (clearScrollback g) = view g" "view (rotateRegion a b c g) = view g"
  "view (moveActiveLink n g) = view g" "view (snd (csiClearWindow e g)) = view g"
  by (simp_all add: clearRow_def clearRows_def eraseInLine_def Let_def view_fold
      clearScrollback_def rotateRegion_def moveActiveLink_def csiClearWindow_def)

lemma view_edit2 [simp]:
  "view (eraseInDisplay e m g) = view g" "view (insertLines n g) = view g"
  "view (deleteLines n g) = view g" "view (deleteChars n g) = view g"
  "view (insertBlanks n g) = view g" "view (scrollUp e n g) = view g"
  "view (scrollDown n g) = view g"
  by (simp_all add: eraseInDisplay_def insertLines_def deleteLines_def deleteChars_def insertBlanks_def
      scrollUp_def scrollDown_def Let_def split_beta)

lemma view_cursor [simp]:
  "view (setCursorPos r c g) = view g" "view (moveCursor r c g) = view g"
  "view (setScrollRegion a b g) = view g" "view (carriageReturn g) = view g" "view (tab g) = view g"
  "view (reverseIndex g) = view g" "view (applyRowAttrs r a b f k g) = view g"
  "view (addRowHyperlink e r a b u g) = view g" "view (applyEdit e ed g) = view g"
  by (simp_all add: setCursorPos_def moveCursor_def setScrollRegion_def 
      carriageReturn_def tab_def reverseIndex_def applyRowAttrs_def addRowHyperlink_def applyEdit_def Let_def
      split: row_edit.split)

lemma view_newLine [simp]: "view (lineCompleted e g) = view g" "view (newLine e g) = view g"
  by (simp_all add: lineCompleted_def newLine_def Let_def view_fold)

lemma view_print [simp]:
  "view (breakWidePairsAround r a b g) = view g" "view (wrapPending e g) = view g"
  "view (clampCol g) = view g" "view (advance n g) = view g" "view (printSpan bs g) = view g"
  "view (attachCombining cp g) = view g" "view (placeChar cp w g) = view g"
  by (simp_all add: breakWidePairsAround_def wrapPending_def clampCol_def advance_def printSpan_def
      attachCombining_def placeChar_def Let_def split: option.split)

lemma view_handlePrint [simp]: "view (handlePrint e cp g) = view g"
  by (simp add: handlePrint_def Let_def)

lemma view_run [simp]: "view (handleAsciiPrintRun e bs g) = view g"
proof (induction e bs g rule: handleAsciiPrintRun.induct)
  case (1 e bs g)
  then show ?case by (subst handleAsciiPrintRun.simps) (simp add: Let_def)
qed

lemma view_execute [simp]: "view (handleExecute e c g) = view g"
  by (simp add: handleExecute_def Let_def)

text \<open>Attributes, cursor and editing sequences.\<close>

lemma view_sgr [simp]: "view (handleSGR ps cs g) = view g"
  by (simp add: handleSGR_def)

lemma view_csiCursor: "csiCursor f p g = Some h \<Longrightarrow> f \<noteq> 115 \<Longrightarrow> view h = view g"
  by (auto simp: csiCursor_def cursorLineStart_def csiCha_def csiCup_def csiVpa_def csiTabs_def
      forwardTab_def backTab_def view_pow Let_def split: if_splits)

lemma view_edits [simp]:
  "view (eraseChars n g) = view g" "view (repeatChar e n g) = view g"
  by (simp_all add: eraseChars_def repeatChar_def Let_def view_pow split: option.split)

lemma view_csiEdit: "csiEdit e f p g = Some h \<Longrightarrow> view h = view g"
  by (auto simp: csiEdit_def split: if_splits)

lemma view_clearTabs [simp]: "view (clearTabs m g) = view g"
  by (simp add: clearTabs_def)

end

text \<open>
  The actions that only draw: text, controls, and the control sequences that are neither a
  mode, a report, a reset nor a saved cursor.
\<close>

definition drawingFinal :: "char \<Rightarrow> bool" where
  "drawingFinal fc \<longleftrightarrow> (of_char fc :: nat) \<notin> {99, 104, 108, 110, 112, 113, 115, 117}"

fun drawing :: "vt_action \<Rightarrow> bool" where
  "drawing (Print cp) = True"
| "drawing (PrintRun bs) = True"
| "drawing (Execute c) = True"
| "drawing (CsiDispatch fc ps cs im tr) = drawingFinal fc"
| "drawing _ = False"

context screen_frame begin

lemma view_csi: "drawingFinal fc \<Longrightarrow> view (handleCsi e fc p cs im tr g) = view g"
  by (auto simp: handleCsi_def csiModes_def drawingFinal_def Let_def
      dest!: view_csiCursor view_csiEdit split: option.split)

lemma view_action: "drawing a \<Longrightarrow> view (processAction e pre a g) = view g"
  by (cases a) (simp_all add: processAction_def Let_def view_csi)

lemma view_actions:
  "list_all (\<lambda>(e, pre, a). drawing a) xs \<Longrightarrow> view (runActions xs g) = view g"
  by (induction xs arbitrary: g) (auto simp: runActions_def view_action)

end

end
