(* ===== verification/GridGuard.thy ===== *)
theory GridGuard
  imports GridFrame
begin

text \<open>
  What a program on the terminal cannot change. \<open>program_frame\<close> is the contract of a view
  that only a switch of the screen, a reset and the metered requests may change; it holds of
  the guarded part of the state: the installed callbacks, the OSC 133 key, and
  the per-minute quotas with the events they meter. Every handler but the four metered ones
  leaves them alone, RIS included; the metered ones obey the contract of a throttle, from
  which the bounds on clipboard writes, notifications and user variables follow for any stream.
\<close>

fun limited :: "event \<Rightarrow> bool" where
  "limited (Notify t b) = True"
| "limited (Clipboard d c) = True"
| "limited (UserVar n v) = True"
| "limited _ = False"

section \<open>The frame of a program\<close>

text \<open>
  The views that no action but a switch of the screen, a reset and the metered requests can
  change: those that look at nothing a program draws, sets or asks for.
\<close>

locale program_frame = screen_frame +
  assumes view_link: "view (g\<lparr>m_hyperlinkActive := x0\<rparr>) = view g" "view (g\<lparr>m_hyperlinkUri := x1\<rparr>) = view g"
      "view (g\<lparr>m_hyperlinkId := x2\<rparr>) = view g"
    and view_saved: "view (g\<lparr>m_savedRow := x3\<rparr>) = view g" "view (g\<lparr>m_savedCol := x4\<rparr>) = view g"
      "view (g\<lparr>m_savedAttrs := x5\<rparr>) = view g" "view (g\<lparr>m_savedOriginMode := x6\<rparr>) = view g"
      "view (g\<lparr>m_savedAutoWrap := x7\<rparr>) = view g"
    and view_pictures: "view (g\<lparr>m_imageBudget := x8\<rparr>) = view g" "view (g\<lparr>m_inlineImages := x9\<rparr>) = view g"
      "view (g\<lparr>m_kittyChunkBuffer := x10\<rparr>) = view g" "view (g\<lparr>m_kittyChunkId := x11\<rparr>) = view g"
      "view (g\<lparr>m_kittyChunkParams := x12\<rparr>) = view g" "view (g\<lparr>m_nextBuffer := x13\<rparr>) = view g"
      "view (g\<lparr>m_kittyImages := x14\<rparr>) = view g" "view (g\<lparr>m_kittyImageOrder := x15\<rparr>) = view g"
    and view_marks: "view (g\<lparr>m_promptRegions := x16\<rparr>) = view g" "view (g\<lparr>m_altPromptRegions := x17\<rparr>) = view g"
      "view (g\<lparr>m_shellIntegState := x18\<rparr>) = view g" "view (g\<lparr>m_nextPromptRegionId := x19\<rparr>) = view g"
      "view (g\<lparr>m_lastExitCode := x20\<rparr>) = view g" "view (g\<lparr>m_commandOutputStart := x21\<rparr>) = view g"
      "view (g\<lparr>m_osc133ForgeryCount := x22\<rparr>) = view g" "view (g\<lparr>m_osc133LastForgeryNotifyMs := x23\<rparr>) = view g"
    and view_answers: "view (g\<lparr>m_queryRespQuota := x24\<rparr>) = view g" "view (g\<lparr>m_windowTitle := x25\<rparr>) = view g"
      "view (g\<lparr>m_progressState := x26\<rparr>) = view g" "view (g\<lparr>m_progressValue := x27\<rparr>) = view g"
    and view_keys: "view (g\<lparr>m_kittyKeyFlags := x28\<rparr>) = view g" "view (g\<lparr>m_kittyKeyStack := x29\<rparr>) = view g"
      "view (g\<lparr>m_applicationCursorKeys := x30\<rparr>) = view g" "view (g\<lparr>m_applicationKeypad := x31\<rparr>) = view g"
      "view (g\<lparr>m_bracketedPaste := x32\<rparr>) = view g"
    and view_mouse: "view (g\<lparr>m_mouseButtonMode := x33\<rparr>) = view g" "view (g\<lparr>m_mouseMotionMode := x34\<rparr>) = view g"
      "view (g\<lparr>m_mouseAnyMode := x35\<rparr>) = view g" "view (g\<lparr>m_mouseSgrMode := x36\<rparr>) = view g"
      "view (g\<lparr>m_focusReporting := x37\<rparr>) = view g"
    and view_flags: "view (g\<lparr>m_originMode := x38\<rparr>) = view g" "view (g\<lparr>m_autoWrap := x39\<rparr>) = view g"
      "view (g\<lparr>m_cursorVisible := x40\<rparr>) = view g" "view (g\<lparr>m_synchronizedOutput := x41\<rparr>) = view g"
      "view (g\<lparr>m_colorSchemeNotify := x42\<rparr>) = view g" "view (g\<lparr>m_cursorShape := x43\<rparr>) = view g"
    and view_emit: "\<not> limited ev \<Longrightarrow> view (emit ev g) = view g"
begin

lemmas view_fields [simp] = view_link view_saved view_pictures view_marks view_answers view_keys view_mouse view_flags view_emit

lemma view_other [simp]:
  "view (applyPromptRegionShift g) = view g" "view (saveCursor g) = view g"
  "view (restoreCursor g) = view g"
  by (simp_all add: applyPromptRegionShift_def saveCursor_def restoreCursor_def)

text \<open>Control sequences.\<close>

lemma view_images [simp]:
  "view (budgetAdd b g) = view g" "view (budgetRelease b g) = view g"
  "view (recomputeImageBudget g) = view g" "view (placeInlineImage im g) = view g"
  "view (resetKittyChunk g) = view g"
  by (simp_all add: budgetAdd_def budgetRelease_def recomputeImageBudget_def placeInlineImage_def
      resetKittyChunk_def Let_def)

lemma view_reply [simp]: "view (sendQueryResponse e s g) = view g"
  by (simp add: sendQueryResponse_def Let_def)

lemma view_csiAnyCursor: "csiCursor f p g = Some h \<Longrightarrow> view h = view g"
  using view_csiCursor [of f p g h] by (cases "f = 115") (auto simp: csiCursor_def)

lemma view_csiModes:
  assumes "f = 104 \<and> im = ''?'' \<Longrightarrow> view (setModes True p g) = view g"
    "f = 108 \<and> im = ''?'' \<Longrightarrow> view (setModes False p g) = view g"
  shows "view (csiModes e f im p cs g) = view g"
  using assms
  by (simp add: csiModes_def softReset_def setCursorShape_def csiReport_def
      csiU_def kittyPush_def kittyPop_def kittyPop1_def kittySet_def view_fold view_pow Let_def)

lemma view_anyCsi:
  assumes "\<And>on. of_char fc = (if on then 104 else 108 :: nat) \<Longrightarrow> im = ''?'' \<Longrightarrow>
    view (setModes on p (g\<lparr>m_wrapNext := False\<rparr>)) = view g"
  shows "view (handleCsi e fc p cs im tr g) = view g"
  using view_csiModes [of "of_char fc" im p "g\<lparr>m_wrapNext := False\<rparr>" e cs] assms [of True] assms [of False]
  by (auto simp: handleCsi_def Let_def dest!: view_csiAnyCursor view_csiEdit split: option.split)

text \<open>Strings.\<close>

lemma view_title [simp]: "view (setTitle t g) = view g" "view (oscTitle e b g) = view g"
  by (simp_all add: setTitle_def oscTitle_def Let_def)

lemma view_error [simp]: "view (writeInlineError e t g) = view g"
  by (simp add: writeInlineError_def Let_def view_fold)

lemma view_links [simp]:
  "view (dropActiveHyperlink g) = view g" "view (pushSpan r a b g) = view g"
  "view (pushHyperlinkSpansForActive g) = view g" "view (handleOsc8 s g) = view g"
  by (simp_all add: dropActiveHyperlink_def pushSpan_def pushHyperlinkSpansForActive_def handleOsc8_def
      Let_def view_fold split: option.split)

lemma view_shell [simp]:
  "view (rejectForgery e g) = view g" "view (updLastRegion f g) = view g"
  "view (promptStart l g) = view g" "view (commandStart e l g) = view g"
  "view (outputStart l g) = view g" "view (commandEnd e s g) = view g" "view (capRegions g) = view g"
  by (simp_all add: rejectForgery_def updLastRegion_def promptStart_def commandStart_def outputStart_def
      commandEnd_def capRegions_def Let_def)

lemma view_oscShell [simp]: "view (oscShell e r g) = view g"
  by (simp add: oscShell_def markPrompt_def Let_def split_beta)

lemma view_own [simp]: "view (snd (ownImage i g)) = view g" "view (snd (ownOption oi g)) = view g"
  by (simp_all add: ownImage_def ownOption_def split: option.split)

lemma view_oscImage [simp]: "view (handleOscImage e pre p g) = view g"
proof -
  have own: "view h = view g" if "ownOption i g = (j, h)" for i j h
    using view_own(2) [of i g] by (simp add: that)
  show ?thesis
    by (auto simp: handleOscImage_def Let_def dest: own split: option.split prod.splits)
qed

lemma view_oscRest [simp]: "view (oscColorQuery e n g) = view g" "view (oscProgress r g) = view g"
  by (simp_all add: oscColorQuery_def oscProgress_def Let_def split: option.split prod.split)

lemma view_dcs [simp]: "view (handleDcs e p tr g) = view g"
proof -
  have "view (placeSixel e b h) = view h" for b h
    using view_own(1) [of _ h]
    by (auto simp: placeSixel_def split_beta Let_def split: option.split)
  then show ?thesis
    by (auto simp: handleDcs_def decrqss_def Let_def split: option.split prod.split)
qed

lemma view_kitty [simp]:
  "view (kittyReply e i m g) = view g" "view (stageChunk k i b g) = view g"
  "view (kittyErase i g) = view g" "view (releaseCached i g) = view g"
  "view (kittyDelete k i g) = view g" "view (kittyDisplay k a i im g) = view g"
  by (simp_all add: kittyReply_def stageChunk_def kittyErase_def releaseCached_def kittyDelete_def
      kittyDisplay_def Let_def split: option.split)

lemma view_evictKitty [simp]: "view (evictKitty ids g) = view g"
  by (induction ids g rule: evictKitty.induct) simp_all

lemma view_storeKitty [simp]: "view (storeKitty i img g) = view g"
  by (simp add: storeKitty_def Let_def)

lemma view_kittyDecode: "kittyDecode e pre k f full g = (i, h) \<Longrightarrow> view h = view g"
proof -
  have own: "view h = view g" if "ownOption i g = (j, h)" for i j h
    using view_own(2) [of i g] by (simp add: that)
  show "kittyDecode e pre k f full g = (i, h) \<Longrightarrow> view h = view g"
    by (auto simp: kittyDecode_def decodePng_def Let_def dest: own split: if_splits option.splits prod.splits)
qed

lemma view_apc [simp]: "view (handleApc e pre p tr g) = view g"
  by (auto simp: handleApc_def kittyFrame_def Let_def dest!: view_kittyDecode
      split: prod.splits option.splits)

lemma view_escape: "\<not> (of_char fc = (99 :: nat) \<and> im = '''') \<Longrightarrow> view (handleEsc e fc im g) = view g"
  by (auto simp: handleEsc_def setTabStop_def Let_def)

end

section \<open>The guarded part of the state\<close>

definition guard :: "grid \<Rightarrow> callbacks \<times> u8 list \<times> minute_quotas \<times> event list" where
  "guard g = (m_callbacks g, m_osc133Key g, m_quotas g, filter limited (m_events g))"

lemma guard_upd [simp]:
  "guard (g\<lparr>m_screenLines := a1\<rparr>) = guard g" "guard (g\<lparr>m_cursorRow := a2\<rparr>) = guard g"
  "guard (g\<lparr>m_cursorCol := a2\<rparr>) = guard g" "guard (g\<lparr>m_wrapNext := b\<rparr>) = guard g"
  "guard (g\<lparr>m_freeCellBuffers := a3\<rparr>) = guard g" "guard (g\<lparr>m_contentRevision := n\<rparr>) = guard g"
  "guard (g\<lparr>m_scrollback := a1\<rparr>) = guard g" "guard (g\<lparr>m_scrollbackBytes := a2\<rparr>) = guard g"
  "guard (g\<lparr>m_scrollbackPushed := n\<rparr>) = guard g" "guard (g\<lparr>m_promptRegionShift := a2\<rparr>) = guard g"
  "guard (g\<lparr>m_scrollbackHyperlinks := a4\<rparr>) = guard g" "guard (g\<lparr>m_screenHyperlinks := a4\<rparr>) = guard g"
  "guard (g\<lparr>m_maxScrollback := a2\<rparr>) = guard g" "guard (g\<lparr>m_maxScrollbackMib := a2\<rparr>) = guard g"
  "guard (g\<lparr>m_promptRegions := a5\<rparr>) = guard g" "guard (g\<lparr>m_altPromptRegions := a5\<rparr>) = guard g"
  "guard (g\<lparr>m_defaultFg := a6\<rparr>) = guard g" "guard (g\<lparr>m_defaultBg := a6\<rparr>) = guard g"
  "guard (g\<lparr>m_currentAttrs := a7\<rparr>) = guard g" "guard (g\<lparr>m_tabStops := a8\<rparr>) = guard g"
  "guard (g\<lparr>m_recentMode2Timer := a9\<rparr>) = guard g" "guard (g\<lparr>m_csiClearRedrawActive := b\<rparr>) = guard g"
  "guard (g\<lparr>m_csiClearRedrawTimer := a9\<rparr>) = guard g" "guard (g\<lparr>m_hyperlinkStartRow := a2\<rparr>) = guard g"
  "guard (g\<lparr>m_hyperlinkStartCol := a2\<rparr>) = guard g" "guard (g\<lparr>m_hyperlinkActive := b\<rparr>) = guard g"
  "guard (g\<lparr>m_hyperlinkUri := s\<rparr>) = guard g" "guard (g\<lparr>m_hyperlinkId := s\<rparr>) = guard g"
  "guard (g\<lparr>m_scrollTop := a2\<rparr>) = guard g" "guard (g\<lparr>m_scrollBottom := a2\<rparr>) = guard g"
  "guard (g\<lparr>m_altScrollTop := a2\<rparr>) = guard g" "guard (g\<lparr>m_altScrollBottom := a2\<rparr>) = guard g"
  "guard (g\<lparr>m_savedRow := a2\<rparr>) = guard g" "guard (g\<lparr>m_savedCol := a2\<rparr>) = guard g"
  "guard (g\<lparr>m_savedAttrs := a7\<rparr>) = guard g" "guard (g\<lparr>m_savedOriginMode := b\<rparr>) = guard g"
  "guard (g\<lparr>m_savedAutoWrap := b\<rparr>) = guard g" "guard (g\<lparr>m_originMode := b\<rparr>) = guard g"
  "guard (g\<lparr>m_autoWrap := b\<rparr>) = guard g" "guard (g\<lparr>m_cursorVisible := b\<rparr>) = guard g"
  "guard (g\<lparr>m_imageBudget := a10\<rparr>) = guard g" "guard (g\<lparr>m_inlineImages := a11\<rparr>) = guard g"
  "guard (g\<lparr>m_kittyChunkBuffer := s\<rparr>) = guard g" "guard (g\<lparr>m_kittyChunkId := a12\<rparr>) = guard g"
  "guard (g\<lparr>m_kittyChunkParams := a13\<rparr>) = guard g" "guard (g\<lparr>m_nextBuffer := n\<rparr>) = guard g"
  "guard (g\<lparr>m_kittyImages := a14\<rparr>) = guard g" "guard (g\<lparr>m_kittyImageOrder := a15\<rparr>) = guard g"
  "guard (g\<lparr>m_rows := a2\<rparr>) = guard g" "guard (g\<lparr>m_cols := a2\<rparr>) = guard g"
  "guard (g\<lparr>m_queryRespQuota := a16\<rparr>) = guard g" "guard (g\<lparr>m_windowTitle := a17\<rparr>) = guard g"
  "guard (g\<lparr>m_kittyKeyFlags := a2\<rparr>) = guard g" "guard (g\<lparr>m_kittyKeyStack := a18\<rparr>) = guard g"
  by (simp_all add: guard_def)

lemma guard_modes [simp]:
  "guard (g\<lparr>m_altScreenActive := b\<rparr>) = guard g" "guard (g\<lparr>m_altScreenMode := i\<rparr>) = guard g"
  "guard (g\<lparr>m_altScreen := l\<rparr>) = guard g" "guard (g\<lparr>m_altCursorRow := i\<rparr>) = guard g"
  "guard (g\<lparr>m_altCursorCol := i\<rparr>) = guard g" "guard (g\<lparr>m_altScreenHyperlinks := hl\<rparr>) = guard g"
  "guard (g\<lparr>m_altInlineImages := im\<rparr>) = guard g" "guard (g\<lparr>m_altSavedAttrs := at\<rparr>) = guard g"
  "guard (g\<lparr>m_altSavedOriginMode := b\<rparr>) = guard g" "guard (g\<lparr>m_altSavedAutoWrap := b\<rparr>) = guard g"
  "guard (g\<lparr>m_applicationCursorKeys := b\<rparr>) = guard g" "guard (g\<lparr>m_applicationKeypad := b\<rparr>) = guard g"
  "guard (g\<lparr>m_mouseButtonMode := b\<rparr>) = guard g" "guard (g\<lparr>m_mouseMotionMode := b\<rparr>) = guard g"
  "guard (g\<lparr>m_mouseAnyMode := b\<rparr>) = guard g" "guard (g\<lparr>m_mouseSgrMode := b\<rparr>) = guard g"
  "guard (g\<lparr>m_focusReporting := b\<rparr>) = guard g" "guard (g\<lparr>m_bracketedPaste := b\<rparr>) = guard g"
  "guard (g\<lparr>m_synchronizedOutput := b\<rparr>) = guard g" "guard (g\<lparr>m_colorSchemeNotify := b\<rparr>) = guard g"
  "guard (g\<lparr>m_cursorShape := cs\<rparr>) = guard g" "guard (g\<lparr>m_shellIntegState := c\<rparr>) = guard g"
  "guard (g\<lparr>m_nextPromptRegionId := n\<rparr>) = guard g" "guard (g\<lparr>m_lastExitCode := i\<rparr>) = guard g"
  "guard (g\<lparr>m_commandOutputStart := i\<rparr>) = guard g" "guard (g\<lparr>m_progressState := ps\<rparr>) = guard g"
  "guard (g\<lparr>m_progressValue := i\<rparr>) = guard g" "guard (g\<lparr>m_osc133ForgeryCount := i\<rparr>) = guard g"
  "guard (g\<lparr>m_osc133LastForgeryNotifyMs := i\<rparr>) = guard g"
  "guard (g\<lparr>m_scrollbackInsertPaused := b\<rparr>) = guard g"
  by (simp_all add: guard_def)

lemma guard_emit [simp]: "\<not> limited ev \<Longrightarrow> guard (emit ev g) = guard g"
  by (simp add: guard_def emit_def)

interpretation guard: program_frame guard
  by unfold_locales simp_all

declare guard.view_screen [simp] guard.view_refill [simp] guard.view_hist [simp] guard.view_edit [simp]
  guard.view_edit2 [simp] guard.view_cursor [simp] guard.view_newLine [simp] guard.view_print [simp]
  guard.view_handlePrint [simp] guard.view_run [simp] guard.view_execute [simp] guard.view_other [simp]
  guard.view_images [simp] guard.view_reply [simp] guard.view_title [simp] guard.view_error [simp]
  guard.view_links [simp] guard.view_shell [simp] guard.view_oscShell [simp] guard.view_oscImage [simp]
  guard.view_oscRest [simp] guard.view_dcs [simp] guard.view_apc [simp]

lemma guard_alt [simp]: "guard (enterAltScreen m g) = guard g" "guard (exitAltScreen g) = guard g"
  by (simp_all add: enterAltScreen_def exitAltScreen_def Let_def)

lemma guard_setModes [simp]: "guard (setModes on vs g) = guard g"
  unfolding setModes_def by (rule guard.view_fold) (simp add: setMode_def)

lemma guard_csi [simp]: "guard (handleCsi e fc p cs im tr g) = guard g"
  by (rule guard.view_anyCsi) simp

section \<open>RIS\<close>

lemma guard_ris [simp]: "guard (fullReset e g) = guard g"
proof -
  have "guard (setDefaultFg c g) = guard g" "guard (setDefaultBg c g) = guard g"
    "guard (setMaxScrollback n g) = guard g" "guard (setMaxScrollbackMib n g) = guard g" for c n g
    by (simp_all add: setDefaultFg_def setDefaultBg_def setMaxScrollback_def setMaxScrollbackMib_def Let_def)
  then show ?thesis by (simp add: fullReset_def Let_def guard_def)
qed

lemma guard_esc [simp]: "guard (handleEsc e fc im g) = guard g"
  using guard.view_escape [of fc im e g] by (cases "of_char fc = (99 :: nat) \<and> im = ''''") (auto simp: handleEsc_def Let_def)

end
