(* ===== verification/GridThrottle.thy ===== *)
theory GridThrottle
  imports GridGuard
begin

text \<open>
  The contract of a rate window, proved once in a locale and interpreted for the three
  per-minute quotas of the grid: whatever a program sends, and however often it resets the
  terminal, an interval shorter than the window holds at most twice the budget (the end of
  one window and the start of the next).
\<close>

locale throttle =
  fixes len max :: int
    and level :: "rate_window \<Rightarrow> int"
    and now :: "'i \<Rightarrow> int"
    and act :: "'i \<Rightarrow> 's \<Rightarrow> 's"
    and quota :: "'s \<Rightarrow> rate_window"
    and spent :: "'s \<Rightarrow> int"
    and ok :: "'s \<Rightarrow> bool"
  assumes level_roll: "level (roll t len w) = (if t - startMs w \<ge> len then 0 else level w)"
    and len_pos: "0 < len" and max_nonneg: "0 \<le> max"
    and keeps: "ok s \<Longrightarrow> ok (act i s)"
    and in_budget: "ok s \<Longrightarrow> 0 \<le> level (quota s) \<and> level (quota s) \<le> max"
    and obeys: "ok s \<Longrightarrow> quota (act i s) = quota s \<and> spent (act i s) = spent s \<or>
      startMs (quota (act i s)) = startMs (roll (now i) len (quota s)) \<and>
      spent (act i s) - spent s \<le> level (quota (act i s)) - level (roll (now i) len (quota s))"
begin

text \<open>While the window stays, what is spent shows in its level; a new one starts inside the interval.\<close>

lemma spent_interval:
  assumes "ok s" "\<forall>i \<in> set is. a \<le> now i \<and> now i < a + len"
  shows "spent (fold act is s) - spent s \<le>
    (if a \<le> startMs (quota s) then max else 2 * max) - level (quota s)"
  using assms
proof (induction "is" arbitrary: s)
  case Nil
  then show ?case using in_budget [of s] max_nonneg by simp
next
  case (Cons i rest)
  let ?t = "act i s"
  have t: "ok ?t" using keeps Cons.prems(1) by simp
  have ih: "spent (fold act rest ?t) - spent ?t \<le>
      (if a \<le> startMs (quota ?t) then max else 2 * max) - level (quota ?t)"
    using Cons.IH [OF t] Cons.prems(2) by simp
  have i: "a \<le> now i" "now i < a + len" using Cons.prems(2) by simp_all
  have b: "0 \<le> level (quota s)" "level (quota s) \<le> max" "0 \<le> level (quota ?t)" "level (quota ?t) \<le> max"
    using in_budget Cons.prems(1) t by simp_all
  show ?case
  proof (cases "quota ?t = quota s \<and> spent ?t = spent s")
    case True
    then show ?thesis using ih by simp
  next
    case False
    then have o: "startMs (quota ?t) = startMs (roll (now i) len (quota s))"
      "spent ?t - spent s \<le> level (quota ?t) - level (roll (now i) len (quota s))"
      using obeys [OF Cons.prems(1), of i] by auto
    show ?thesis
    proof (cases "now i - startMs (quota s) \<ge> len")
      case True
      then have "\<not> a \<le> startMs (quota s)" "startMs (quota ?t) = now i" "level (roll (now i) len (quota s)) = 0"
        using i o(1) level_roll [of "now i" "quota s"] by (auto simp: roll_def)
      then show ?thesis using ih o(2) i b by simp
    next
      case False
      then have "startMs (quota ?t) = startMs (quota s)" "level (roll (now i) len (quota s)) = level (quota s)"
        using o(1) level_roll [of "now i" "quota s"] by (auto simp: roll_def)
      then show ?thesis using ih o(2) by simp
    qed
  qed
qed

lemma spent_bound:
  assumes "ok s" "\<forall>i \<in> set is. a \<le> now i \<and> now i < a + len"
  shows "spent (fold act is s) - spent s \<le> 2 * max"
  using spent_interval [OF assms] in_budget [OF assms(1)] max_nonneg by (auto split: if_splits)

text \<open>Inside the window the state is already in, the budget left is the bound.\<close>

lemma spent_window:
  assumes "ok s" "\<forall>i \<in> set is. startMs (quota s) \<le> now i \<and> now i < startMs (quota s) + len"
  shows "spent (fold act is s) - spent s \<le> max - level (quota s)"
  using spent_interval [OF assms] by simp

end

section \<open>What is metered\<close>

type_synonym timed_action = "env \<times> predecoded_image option \<times> vt_action"

definition actAt :: "timed_action \<Rightarrow> grid \<Rightarrow> grid" where
  "actAt x g = (case x of (e, pre, a) \<Rightarrow> processAction e pre a g)"

definition timeOf :: "timed_action \<Rightarrow> int" where
  "timeOf x = (case x of (e, pre, a) \<Rightarrow> e_nowMs e)"

fun noticeCost :: "event \<Rightarrow> int" where
  "noticeCost (Notify t b) = 1"
| "noticeCost _ = 0"

fun userVarCost :: "event \<Rightarrow> int" where
  "userVarCost (UserVar n v) = 1"
| "userVarCost _ = 0"

fun clipCost :: "event \<Rightarrow> int" where
  "clipCost (Clipboard d c) = 1"
| "clipCost _ = 0"

fun clipBytes :: "event \<Rightarrow> int" where
  "clipBytes (Clipboard d c) = int (length d)"
| "clipBytes _ = 0"

definition total :: "(event \<Rightarrow> int) \<Rightarrow> grid \<Rightarrow> int" where
  "total cost g = sum_list (map cost (m_events g))"

definition metered :: "(event \<Rightarrow> int) \<Rightarrow> bool" where
  "metered cost \<longleftrightarrow> (\<forall>ev. \<not> limited ev \<longrightarrow> cost ev = 0)"

lemma costs_metered: "metered noticeCost" "metered userVarCost" "metered clipCost" "metered clipBytes"
  unfolding metered_def by (intro allI impI, rename_tac ev, case_tac ev, simp_all)+

lemma total_guard: "metered cost \<Longrightarrow> guard h = guard g \<Longrightarrow> total cost h = total cost g"
proof -
  assume m: "metered cost" and "guard h = guard g"
  then have "filter limited (m_events h) = filter limited (m_events g)" by (simp add: guard_def)
  moreover have "sum_list (map cost (filter limited evs)) = sum_list (map cost evs)" for evs
    using m by (induction evs) (auto simp: metered_def)
  ultimately show ?thesis by (metis total_def)
qed

lemma total_emit [simp]: "total cost (emit ev g) = total cost g + cost ev"
  by (simp add: total_def emit_def)

lemma quotas_emit [simp]: "m_quotas (emit ev g) = m_quotas g"
  by (simp add: emit_def)

lemma total_quotas [simp]: "total cost (g\<lparr>m_quotas := q\<rparr>) = total cost g"
  by (simp add: total_def)

lemma quotas_guard: "guard h = guard g \<Longrightarrow> m_quotas h = m_quotas g"
  by (simp add: guard_def)

text \<open>What an action can do to the guarded state.\<close>

definition meteredStep :: "env \<Rightarrow> grid \<Rightarrow> grid \<Rightarrow> bool" where
  "meteredStep e g h \<longleftrightarrow> guard h = guard g \<or> (\<exists>b. h = oscClipboard e b g) \<or>
     (\<exists>b. h = oscNotify e b g) \<or> (\<exists>b. h = osc777 e b g) \<or> (\<exists>b. h = oscUserVar e b g)"

lemma meteredStep_guard: "guard h = guard g \<Longrightarrow> meteredStep e g h"
  by (simp add: meteredStep_def)

lemma meteredStep_osc:
  "meteredStep e g (oscClipboard e b g)" "meteredStep e g (oscNotify e b g)"
  "meteredStep e g (osc777 e b g)" "meteredStep e g (oscUserVar e b g)"
  by (auto simp: meteredStep_def)

lemma meteredStep_if:
  "meteredStep e g x \<Longrightarrow> meteredStep e g y \<Longrightarrow> meteredStep e g (if c then x else y)"
  by simp

lemma osc_metered: "meteredStep e g (handleOsc e pre p tr g)"
  unfolding handleOsc_def osc1337_def Let_def
  by (intro meteredStep_if) (simp_all add: meteredStep_osc meteredStep_guard)

lemma action_metered:
  "meteredStep e (bumpRevision g) (processAction e pre a g)"
  by (cases a) (simp_all add: processAction_def Let_def osc_metered meteredStep_guard)

section \<open>The four budgets\<close>

lemma roll_levels:
  "winCount (roll t len w) = (if t - startMs w \<ge> len then 0 else winCount w)"
  "winBytes (roll t len w) = (if t - startMs w \<ge> len then 0 else winBytes w)"
  by (simp_all add: roll_def)

lemma wf_quotas:
  "grid_wf g \<Longrightarrow> window_ok OSC52_MAX_WRITES_PER_MIN OSC52_MAX_BYTES_PER_MIN (osc52 (m_quotas g)) \<and>
     window_ok NOTIFY_MAX_PER_MIN 0 (notify (m_quotas g)) \<and>
     window_ok USERVAR_MAX_WRITES_PER_MIN 0 (userVar (m_quotas g))"
  by (simp add: wf_defs quota_ok_def)

text \<open>One metered handler on a window: unchanged, or one step of the contract.\<close>

definition stepOk ::
  "(rate_window \<Rightarrow> int) \<Rightarrow> (minute_quotas \<Rightarrow> rate_window) \<Rightarrow> (event \<Rightarrow> int) \<Rightarrow> env \<Rightarrow> grid \<Rightarrow> grid \<Rightarrow> bool"
  where
  "stepOk level q cost e g h \<longleftrightarrow>
     (let w = q (m_quotas g); w' = q (m_quotas h); r = roll (e_nowMs e) 60000 w
      in w' = w \<and> total cost h = total cost g \<or>
         startMs w' = startMs r \<and> total cost h - total cost g \<le> level w' - level r)"

lemma stepOk_same: "q (m_quotas h) = q (m_quotas g) \<Longrightarrow> total cost h = total cost g \<Longrightarrow> stepOk level q cost e g h"
  by (simp add: stepOk_def Let_def)

lemma clipboard_steps:
  "stepOk winCount osc52 clipCost e g (oscClipboard e b g)"
  "stepOk winBytes osc52 clipBytes e g (oscClipboard e b g)"
  "stepOk winCount notify noticeCost e g (oscClipboard e b g)"
  "stepOk winCount userVar userVarCost e g (oscClipboard e b g)"
  by (auto simp: oscClipboard_def setOsc52_def stepOk_def Let_def split: option.split)

lemma notify_steps:
  "stepOk winCount osc52 clipCost e g (oscNotify e b g)"
  "stepOk winBytes osc52 clipBytes e g (oscNotify e b g)"
  "stepOk winCount notify noticeCost e g (oscNotify e b g)"
  "stepOk winCount userVar userVarCost e g (oscNotify e b g)"
  by (auto simp: oscNotify_def takeNotifyQuota_def setNotifyWindow_def stepOk_def Let_def)

lemma osc777_steps:
  "stepOk winCount osc52 clipCost e g (osc777 e b g)"
  "stepOk winBytes osc52 clipBytes e g (osc777 e b g)"
  "stepOk winCount notify noticeCost e g (osc777 e b g)"
  "stepOk winCount userVar userVarCost e g (osc777 e b g)"
  by (auto simp: osc777_def takeNotifyQuota_def setNotifyWindow_def stepOk_def Let_def split: option.split)

lemma userVar_steps:
  "stepOk winCount osc52 clipCost e g (oscUserVar e b g)"
  "stepOk winBytes osc52 clipBytes e g (oscUserVar e b g)"
  "stepOk winCount notify noticeCost e g (oscUserVar e b g)"
  "stepOk winCount userVar userVarCost e g (oscUserVar e b g)"
  by (auto simp: oscUserVar_def setUserVarWindow_def stepOk_def Let_def split: option.split)

lemma bump_step: "stepOk l q c e (bumpRevision g) h = stepOk l q c e g h"
  by (simp add: stepOk_def bumpRevision_def total_def)

lemma action_step:
  assumes "metered c" "\<And>b. stepOk l q c e (bumpRevision g) (oscClipboard e b (bumpRevision g))"
    "\<And>b. stepOk l q c e (bumpRevision g) (oscNotify e b (bumpRevision g))"
    "\<And>b. stepOk l q c e (bumpRevision g) (osc777 e b (bumpRevision g))"
    "\<And>b. stepOk l q c e (bumpRevision g) (oscUserVar e b (bumpRevision g))"
  shows "stepOk l q c e g (processAction e pre a g)"
proof (cases "guard (processAction e pre a g) = guard (bumpRevision g)")
  case True
  then show ?thesis
    using total_guard [OF assms(1), of "processAction e pre a g" g] quotas_guard [of "processAction e pre a g" g]
    by (intro stepOk_same) simp_all
next
  case False
  then consider b where "processAction e pre a g = oscClipboard e b (bumpRevision g)"
    | b where "processAction e pre a g = oscNotify e b (bumpRevision g)"
    | b where "processAction e pre a g = osc777 e b (bumpRevision g)"
    | b where "processAction e pre a g = oscUserVar e b (bumpRevision g)"
    using action_metered [of e g pre a] unfolding meteredStep_def by blast
  then have "stepOk l q c e (bumpRevision g) (processAction e pre a g)"
    by cases (simp_all only: assms(2-5))
  then show ?thesis by (simp only: bump_step)
qed

lemmas action_steps =
  action_step [OF costs_metered(3) clipboard_steps(1) notify_steps(1) osc777_steps(1) userVar_steps(1)]
  action_step [OF costs_metered(4) clipboard_steps(2) notify_steps(2) osc777_steps(2) userVar_steps(2)]
  action_step [OF costs_metered(1) clipboard_steps(3) notify_steps(3) osc777_steps(3) userVar_steps(3)]
  action_step [OF costs_metered(2) clipboard_steps(4) notify_steps(4) osc777_steps(4) userVar_steps(4)]

lemma actAt_steps:
  "stepOk l q c (fst x) g (processAction (fst x) (fst (snd x)) (snd (snd x)) g) \<Longrightarrow>
   q (m_quotas (actAt x g)) = q (m_quotas g) \<and> total c (actAt x g) = total c g \<or>
   startMs (q (m_quotas (actAt x g))) = startMs (roll (timeOf x) 60000 (q (m_quotas g))) \<and>
   total c (actAt x g) - total c g
     \<le> l (q (m_quotas (actAt x g))) - l (roll (timeOf x) 60000 (q (m_quotas g)))"
  by (cases x) (simp add: actAt_def timeOf_def stepOk_def Let_def)

lemma wf_actAt: "grid_wf g \<Longrightarrow> grid_wf (actAt x g)"
  by (cases x) (simp add: actAt_def wf_processAction)

lemma clip_writes: "grid_wf g \<Longrightarrow> 0 \<le> winCount (osc52 (m_quotas g)) \<and>
   winCount (osc52 (m_quotas g)) \<le> OSC52_MAX_WRITES_PER_MIN \<and> 0 \<le> winBytes (osc52 (m_quotas g)) \<and>
   winBytes (osc52 (m_quotas g)) \<le> OSC52_MAX_BYTES_PER_MIN"
  using wf_quotas [of g] by (simp add: window_ok_def)

lemma notice_writes: "grid_wf g \<Longrightarrow> 0 \<le> winCount (notify (m_quotas g)) \<and>
   winCount (notify (m_quotas g)) \<le> NOTIFY_MAX_PER_MIN"
  using wf_quotas [of g] by (simp add: window_ok_def)

lemma userVar_writes: "grid_wf g \<Longrightarrow> 0 \<le> winCount (userVar (m_quotas g)) \<and>
   winCount (userVar (m_quotas g)) \<le> USERVAR_MAX_WRITES_PER_MIN"
  using wf_quotas [of g] by (simp add: window_ok_def)

interpretation clip_count: throttle 60000 OSC52_MAX_WRITES_PER_MIN winCount timeOf actAt
  "\<lambda>g. osc52 (m_quotas g)" "total clipCost" grid_wf
  by (unfold_locales;
    (rule roll_levels(1) | rule wf_actAt, assumption | rule actAt_steps [OF action_steps(1)]
     | simp add: clip_writes | simp add: OSC52_MAX_WRITES_PER_MIN_def))

interpretation clip_bytes: throttle 60000 OSC52_MAX_BYTES_PER_MIN winBytes timeOf actAt
  "\<lambda>g. osc52 (m_quotas g)" "total clipBytes" grid_wf
  by (unfold_locales;
    (rule roll_levels(2) | rule wf_actAt, assumption | rule actAt_steps [OF action_steps(2)]
     | simp add: clip_writes | simp add: OSC52_MAX_BYTES_PER_MIN_def))

interpretation notices: throttle 60000 NOTIFY_MAX_PER_MIN winCount timeOf actAt
  "\<lambda>g. notify (m_quotas g)" "total noticeCost" grid_wf
  by (unfold_locales;
    (rule roll_levels(1) | rule wf_actAt, assumption | rule actAt_steps [OF action_steps(3)]
     | simp add: notice_writes | simp add: NOTIFY_MAX_PER_MIN_def))

interpretation user_vars: throttle 60000 USERVAR_MAX_WRITES_PER_MIN winCount timeOf actAt
  "\<lambda>g. userVar (m_quotas g)" "total userVarCost" grid_wf
  by (unfold_locales;
    (rule roll_levels(1) | rule wf_actAt, assumption | rule actAt_steps [OF action_steps(4)]
     | simp add: userVar_writes | simp add: USERVAR_MAX_WRITES_PER_MIN_def))

end
