(* ===== verification/GridModes.thy ===== *)
theory GridModes
  imports GridGuard GridPrintEq
begin

text \<open>
  What the terminal remembers while a program draws: the saved cursor, the main screen behind
  the alternate one, the kitty keyboard stack; how attribute sequences split; and what the
  title and a full reset leave.
\<close>

section \<open>The saved cursor\<close>

definition savedCursor :: "grid \<Rightarrow> int \<times> int \<times> cell_attrs \<times> bool \<times> bool" where
  "savedCursor g = (m_savedRow g, m_savedCol g, m_savedAttrs g, m_savedOriginMode g, m_savedAutoWrap g)"

definition cursorState :: "grid \<Rightarrow> int \<times> int \<times> cell_attrs \<times> bool \<times> bool" where
  "cursorState g = (m_cursorRow g, m_cursorCol g, m_currentAttrs g, m_originMode g, m_autoWrap g)"

definition dimensions :: "grid \<Rightarrow> int \<times> int" where
  "dimensions g = (m_rows g, m_cols g)"

interpretation saved: screen_frame savedCursor
  by unfold_locales (simp_all add: savedCursor_def emit_def)

interpretation dims: screen_frame dimensions
  by unfold_locales (simp_all add: dimensions_def emit_def)

lemma restore_saved:
  assumes "grid_wf g" "savedCursor h = savedCursor (saveCursor g)" "dimensions h = dimensions g"
  shows "cursorState (restoreCursor h) = cursorState g"
  using assms inGrid [OF assms(1)]
  by (simp add: savedCursor_def cursorState_def dimensions_def saveCursor_def restoreCursor_def)

text \<open>ESC 7, any drawing, ESC 8.\<close>

lemma decsc_decrc:
  assumes "grid_wf g" "list_all (\<lambda>(e, pre, a). drawing a) xs"
  shows "cursorState (handleEsc e CHR ''8'' '''' (runActions xs (handleEsc e CHR ''7'' '''' g))) = cursorState g"
proof -
  let ?s = "saveCursor (g\<lparr>m_wrapNext := False\<rparr>)"
  let ?h = "(runActions xs ?s)\<lparr>m_wrapNext := False\<rparr>"
  have "savedCursor ?h = savedCursor ?s" "dimensions ?h = dimensions ?s"
    using saved.view_actions [OF assms(2), of ?s] dims.view_actions [OF assms(2), of ?s]
    by (simp_all add: savedCursor_def dimensions_def)
  then have "cursorState (restoreCursor ?h) = cursorState (g\<lparr>m_wrapNext := False\<rparr>)"
    using assms(1) by (intro restore_saved) (simp_all add: wf_wrapNext dimensions_def saveCursor_def)
  then show ?thesis
    by (simp add: handleEsc_def Let_def cursorState_def)
qed

section \<open>The main screen behind the alternate one\<close>

definition mainBehind :: "grid \<Rightarrow> bool \<times> int \<times> term_line list \<times> hyperlink_span list list \<times>
    inline_image list \<times> (int \<times> int \<times> int \<times> int) \<times> cell_attrs \<times> bool \<times> bool" where
  "mainBehind g = (m_altScreenActive g, m_altScreenMode g, m_altScreen g, m_altScreenHyperlinks g,
     m_altInlineImages g, (m_altCursorRow g, m_altCursorCol g, m_altScrollTop g, m_altScrollBottom g),
     m_altSavedAttrs g, m_altSavedOriginMode g, m_altSavedAutoWrap g)"

interpretation behind: program_frame mainBehind
  by unfold_locales (simp_all add: mainBehind_def emit_def)

definition mainScreen :: "grid \<Rightarrow> term_line list \<times> hyperlink_span list list \<times> inline_image list \<times> int \<times> int" where
  "mainScreen g = (m_screenLines g, m_screenHyperlinks g, m_inlineImages g, m_scrollTop g, m_scrollBottom g)"

lemma shift_fields [simp]:
  "m_screenLines (applyPromptRegionShift g) = m_screenLines g"
  "m_screenHyperlinks (applyPromptRegionShift g) = m_screenHyperlinks g"
  "m_inlineImages (applyPromptRegionShift g) = m_inlineImages g"
  "mainBehind (applyPromptRegionShift g) = mainBehind g"
  "cursorState (applyPromptRegionShift g) = cursorState g"
  by (simp_all add: applyPromptRegionShift_def mainBehind_def cursorState_def)

lemma behind_fields:
  "mainBehind h = (a, m, ls, hl, im, (y, x, t, b), at, orig, wrap) \<Longrightarrow>
   m_altScreenActive h = a \<and> m_altScreenMode h = m \<and> m_altScreen h = ls \<and>
   m_altScreenHyperlinks h = hl \<and> m_altInlineImages h = im \<and> m_altCursorRow h = y \<and>
   m_altCursorCol h = x \<and> m_altScrollTop h = t \<and> m_altScrollBottom h = b \<and>
   m_altSavedAttrs h = at \<and> m_altSavedOriginMode h = orig \<and> m_altSavedAutoWrap h = wrap"
  by (simp add: mainBehind_def)

lemma entered_behind:
  assumes "\<not> m_altScreenActive g"
  shows "mainBehind (enterAltScreen mode g) =
    (True, mode, m_screenLines (markAllScreenDirty g), m_screenHyperlinks g, m_inlineImages g,
     (m_cursorRow g, m_cursorCol g, m_scrollTop g, m_scrollBottom g),
     m_currentAttrs g, m_originMode g, m_autoWrap g)"
  using assms
  by (simp add: enterAltScreen_def Let_def mainBehind_def recomputeImageBudget_def applyPromptRegionShift_def
      markAllScreenDirty_def resetKittyChunk_def)

lemma exited_screen:
  assumes "m_altScreenActive h"
  shows "mainScreen (exitAltScreen h) =
    (m_altScreen h, m_altScreenHyperlinks h, m_altInlineImages h, m_altScrollTop h, m_altScrollBottom h)"
    "m_altScreenMode h = 1049 \<Longrightarrow> cursorState (exitAltScreen h) =
      (m_altCursorRow h, m_altCursorCol h, m_altSavedAttrs h, m_altSavedOriginMode h, m_altSavedAutoWrap h)"
    "\<not> m_altScreenActive (exitAltScreen h)"
  using assms
  by (simp_all add: exitAltScreen_def Let_def mainScreen_def cursorState_def recomputeImageBudget_def
      applyPromptRegionShift_def markAllScreenDirty_def)

lemma exit_restores:
  assumes "\<not> m_altScreenActive g" "mainBehind h = mainBehind (enterAltScreen 1049 g)"
  shows "mainScreen (exitAltScreen h) = mainScreen (markAllScreenDirty g) \<and>
    cursorState (exitAltScreen h) = cursorState g \<and> \<not> m_altScreenActive (exitAltScreen h)"
proof -
  note b = behind_fields [OF trans [OF assms(2) entered_behind [OF assms(1)]]]
  show ?thesis
    using exited_screen [of h] b by (simp add: mainScreen_def cursorState_def markAllScreenDirty_def)
qed

section \<open>The kitty keyboard stack\<close>

lemma kitty_pop_push:
  assumes "length (m_kittyKeyStack g) < kMaxKittyStack"
  shows "kittyPop 1 (kittyPush f g) = (if m_kittyKeyStack g = [] then g\<lparr>m_kittyKeyFlags := 0\<rparr> else g)"
  using assms by (simp add: kittyPop_def kittyPush_def kittyPop1_def Let_def)

definition altOn :: vt_action where "altOn = CsiDispatch CHR ''h'' [1049] [False] ''?'' False"
definition altOff :: vt_action where "altOff = CsiDispatch CHR ''l'' [1049] [False] ''?'' False"

lemma altOn_action: "processAction e pre altOn g = enterAltScreen 1049 ((bumpRevision g)\<lparr>m_wrapNext := False\<rparr>)"
  by (simp add: altOn_def processAction_def handleCsi_def csiCursor_def csiEdit_def csiModes_def
      setModes_def setMode_def Let_def)

lemma altOff_action: "processAction e pre altOff g = exitAltScreen ((bumpRevision g)\<lparr>m_wrapNext := False\<rparr>)"
  by (simp add: altOff_def processAction_def handleCsi_def csiCursor_def csiEdit_def csiModes_def
      setModes_def setMode_def Let_def)

text \<open>
  Every action keeps what is behind the alternate screen unless it leaves that screen or resets
  the terminal; switching to it again does nothing.
\<close>

fun leavesAlt :: "vt_action \<Rightarrow> bool" where
  "leavesAlt (CsiDispatch fc ps cs im tr) =
     (fc = CHR ''l'' \<and> im = ''?'' \<and> list_ex (\<lambda>v. v = 1049 \<or> v = 47 \<or> v = 1047) ps)"
| "leavesAlt (EscDispatch fc im) = (fc = CHR ''c'' \<and> im = '''')"
| "leavesAlt _ = False"

lemma behind_setMode:
  assumes "m_altScreenActive g" "on \<or> \<not> (v = 1049 \<or> v = 47 \<or> v = 1047)"
  shows "mainBehind (setMode on v g) = mainBehind g"
  using assms by (auto simp: setMode_def enterAltScreen_def)

lemma behind_setModes:
  assumes "m_altScreenActive g" "on \<or> \<not> list_ex (\<lambda>v. v = 1049 \<or> v = 47 \<or> v = 1047) vs"
  shows "mainBehind (setModes on vs g) = mainBehind g"
  using assms
proof (induction vs arbitrary: g)
  case (Cons v vs)
  have "on \<or> \<not> (v = 1049 \<or> v = 47 \<or> v = 1047)" using Cons.prems(2) by auto
  then have b: "mainBehind (setMode on v g) = mainBehind g" by (rule behind_setMode [OF Cons.prems(1)])
  then have "m_altScreenActive (setMode on v g)" using Cons.prems(1) by (simp add: mainBehind_def)
  from Cons.IH [OF this] show ?case using b Cons.prems(2) by (auto simp: setModes_def)
qed (simp add: setModes_def)

lemma behind_metered:
  "mainBehind (oscClipboard e b g) = mainBehind g" "mainBehind (oscNotify e b g) = mainBehind g"
  "mainBehind (osc777 e b g) = mainBehind g" "mainBehind (oscUserVar e b g) = mainBehind g"
  by (simp_all add: oscClipboard_def oscNotify_def osc777_def oscUserVar_def setOsc52_def takeNotifyQuota_def
      setNotifyWindow_def setUserVarWindow_def emit_def mainBehind_def Let_def split: option.split)

lemma behind_osc: "mainBehind (handleOsc e pre p tr g) = mainBehind g"
  by (simp add: handleOsc_def osc1337_def behind_metered Let_def)

lemma behind_csi:
  assumes "m_altScreenActive g" "\<not> leavesAlt (CsiDispatch fc ps cs im tr)"
  shows "mainBehind (handleCsi e fc ps cs im tr g) = mainBehind g"
proof (rule behind.view_anyCsi)
  fix on assume f: "of_char fc = (if on then 104 else 108 :: nat)" and im: "im = ''?''"
  have "fc = CHR ''l''" if "\<not> on"
  proof -
    have "of_char fc = (of_char CHR ''l'' :: nat)" using f that by simp
    then show ?thesis by (simp only: of_char_eq_iff)
  qed
  then have "on \<or> \<not> list_ex (\<lambda>v. v = 1049 \<or> v = 47 \<or> v = 1047) ps" using assms(2) im by auto
  then have "mainBehind (setModes on ps (g\<lparr>m_wrapNext := False\<rparr>)) = mainBehind (g\<lparr>m_wrapNext := False\<rparr>)"
    using assms(1) by (intro behind_setModes) simp_all
  then show "mainBehind (setModes on ps (g\<lparr>m_wrapNext := False\<rparr>)) = mainBehind g" by simp
qed

lemma behind_esc: "\<not> leavesAlt (EscDispatch fc im) \<Longrightarrow> mainBehind (handleEsc e fc im g) = mainBehind g"
proof (rule behind.view_escape)
  assume "\<not> leavesAlt (EscDispatch fc im)"
  moreover have "fc = CHR ''c''" if "of_char fc = (99 :: nat)"
  proof -
    have "of_char fc = (of_char CHR ''c'' :: nat)" using that by simp
    then show ?thesis by (simp only: of_char_eq_iff)
  qed
  ultimately show "\<not> (of_char fc = (99 :: nat) \<and> im = '''')" by auto
qed

lemma behind_action:
  assumes "m_altScreenActive g" "\<not> leavesAlt a"
  shows "mainBehind (processAction e pre a g) = mainBehind g"
proof -
  have "m_altScreenActive (bumpRevision g)" using assms(1) by (simp add: bumpRevision_def)
  note csi = behind_csi [OF this]
  show ?thesis using assms(2) by (cases a) (simp_all add: processAction_def Let_def behind_osc behind_esc csi)
qed

lemma behind_actions:
  assumes "m_altScreenActive g" "list_all (\<lambda>(e, pre, a). \<not> leavesAlt a) xs"
  shows "mainBehind (runActions xs g) = mainBehind g"
  using assms
proof (induction xs arbitrary: g)
  case (Cons x xs)
  obtain e pre a where x: "x = (e, pre, a)" by (cases x)
  have b: "mainBehind (processAction e pre a g) = mainBehind g"
    using Cons.prems by (intro behind_action) (simp_all add: x)
  then have "m_altScreenActive (processAction e pre a g)" using Cons.prems(1) by (simp add: mainBehind_def)
  from Cons.IH [OF this] show ?case using b Cons.prems(2) by (simp add: runActions_def x)
qed (simp add: runActions_def)

lemma alt_roundtrip:
  assumes "\<not> m_altScreenActive g" "list_all (\<lambda>(e, pre, a). \<not> leavesAlt a) xs"
  shows "mainScreen (runActions ((e, None, altOn) # xs @ [(e', None, altOff)]) g)
      = mainScreen (markAllScreenDirty g) \<and>
    cursorState (runActions ((e, None, altOn) # xs @ [(e', None, altOff)]) g) = cursorState g \<and>
    \<not> m_altScreenActive (runActions ((e, None, altOn) # xs @ [(e', None, altOff)]) g)"
proof -
  let ?g = "(bumpRevision g)\<lparr>m_wrapNext := False\<rparr>"
  let ?h = "(bumpRevision (runActions xs (enterAltScreen 1049 ?g)))\<lparr>m_wrapNext := False\<rparr>"
  have run: "runActions ((e, None, altOn) # xs @ [(e', None, altOff)]) g = exitAltScreen ?h"
    by (simp add: runActions_def altOn_action altOff_action)
  have g: "\<not> m_altScreenActive ?g" "mainScreen (markAllScreenDirty ?g) = mainScreen (markAllScreenDirty g)"
    "cursorState ?g = cursorState g"
    using assms(1) by (simp_all add: mainScreen_def cursorState_def markAllScreenDirty_def bumpRevision_def)
  have "m_altScreenActive (enterAltScreen 1049 ?g)"
    using entered_behind [OF g(1), of 1049] by (simp add: mainBehind_def)
  from behind_actions [OF this assms(2)] have "mainBehind ?h = mainBehind (enterAltScreen 1049 ?g)" by simp
  from exit_restores [OF g(1) this] show ?thesis unfolding run g(2,3) .
qed

section \<open>The title\<close>

definition isLowSurrogate :: "u16 \<Rightarrow> bool" where
  "isLowSurrogate u \<longleftrightarrow> u AND 0xFC00 = 0xDC00"

text \<open>Every high surrogate is followed by a low one, and no low one stands alone.\<close>

fun utf16_ok :: "qstring \<Rightarrow> bool" where
  "utf16_ok [] = True"
| "utf16_ok [u] = (\<not> isHighSurrogate u \<and> \<not> isLowSurrogate u)"
| "utf16_ok (u # v # us) =
     (if isHighSurrogate u then isLowSurrogate v \<and> utf16_ok us
      else \<not> isLowSurrogate u \<and> utf16_ok (v # us))"

definition dropHigh :: "qstring \<Rightarrow> qstring" where
  "dropHigh t = (if t \<noteq> [] \<and> isHighSurrogate (last t) then butlast t else t)"

lemma low_not_high: "isLowSurrogate u \<Longrightarrow> \<not> isHighSurrogate u"
  by (auto simp: isLowSurrogate_def isHighSurrogate_def)

lemma utf16_tail: "utf16_ok (u # us) \<Longrightarrow> \<not> isHighSurrogate u \<Longrightarrow> utf16_ok us"
  by (cases us) auto

lemma utf16_Cons: "\<not> isHighSurrogate u \<Longrightarrow> \<not> isLowSurrogate u \<Longrightarrow> utf16_ok us \<Longrightarrow> utf16_ok (u # us)"
  by (cases us) auto

lemma dropHigh_Cons: "us \<noteq> [] \<Longrightarrow> dropHigh (u # us) = u # dropHigh us"
  by (auto simp: dropHigh_def)

lemma utf16_take: "utf16_ok t \<Longrightarrow> utf16_ok (dropHigh (take n t))"
proof (induction t arbitrary: n rule: utf16_ok.induct)
  case 1
  then show ?case by (simp add: dropHigh_def)
next
  case (2 u)
  then show ?case by (cases n) (auto simp: dropHigh_def)
next
  case (3 u v us)
  show ?case
  proof (cases n)
    case 0
    then show ?thesis by (simp add: dropHigh_def)
  next
    case (Suc k)
    show ?thesis
    proof (cases "isHighSurrogate u")
      case True
      then have v: "isLowSurrogate v" "utf16_ok us" using "3.prems" by simp_all
      show ?thesis
      proof (cases k)
        case 0
        then show ?thesis using True Suc by (simp add: dropHigh_def)
      next
        case (Suc j)
        have ih: "utf16_ok (dropHigh (take j us))" using "3.IH"(1) [OF True v(2)] .
        have "dropHigh (u # v # take j us) = u # v # dropHigh (take j us)"
          using low_not_high [OF v(1)] by (cases "take j us = []") (simp_all add: dropHigh_def)
        then show ?thesis using True v(1) ih \<open>n = Suc k\<close> Suc by simp
      qed
    next
      case False
      then have u: "\<not> isLowSurrogate u" "utf16_ok (v # us)" using "3.prems" by simp_all
      have ih: "utf16_ok (dropHigh (take k (v # us)))" using "3.IH"(2) [OF False u(2)] .
      show ?thesis
      proof (cases "take k (v # us) = []")
        case True
        then show ?thesis using False u Suc by (simp add: dropHigh_def)
      next
        case nonempty: False
        then show ?thesis
          using False u ih Suc dropHigh_Cons [OF nonempty, of u] by (simp add: utf16_Cons)
      qed
    qed
  qed
qed

lemma title_ok:
  "utf16_ok t \<Longrightarrow> utf16_ok (m_windowTitle (setTitle t g)) \<and>
   length (m_windowTitle (setTitle t g)) \<le> kMaxWindowTitleChars \<and>
   (length t \<le> kMaxWindowTitleChars \<longrightarrow> m_windowTitle (setTitle t g) = t)"
proof -
  assume t: "utf16_ok t"
  have "m_windowTitle (setTitle t g) = dropHigh (take kMaxWindowTitleChars t)"
    by (simp add: setTitle_def dropHigh_def Let_def)
  moreover have "\<not> isHighSurrogate (last t)" if "t \<noteq> []" using t that
    by (induction t rule: utf16_ok.induct) (auto simp: low_not_high split: if_splits)
  ultimately show ?thesis
    using utf16_take [OF t, of kMaxWindowTitleChars]
    by (auto simp: dropHigh_def split: if_splits)
qed

section \<open>Attribute sequences\<close>

text \<open>Codes that read no parameter after them.\<close>

definition plainCode :: "int \<Rightarrow> bool" where
  "plainCode n \<longleftrightarrow> n \<notin> {4, 38, 48, 58}"

lemma sgrStep_plain:
  "plainCode (ps ! i) \<Longrightarrow> sgrStep ps cs g i a = (fst (sgrStep [ps ! i] [] g 0 a), i)"
  by (simp add: sgrStep_def plainCode_def Let_def)

lemma sgrLoop_plain:
  "list_all plainCode ps \<Longrightarrow> i \<le> length ps \<Longrightarrow>
   sgrLoop ps cs g i a = fold (\<lambda>n a. fst (sgrStep [n] [] g 0 a)) (drop i ps) a"
proof (induction "length ps - i" arbitrary: i a)
  case 0
  then show ?case by (subst sgrLoop.simps) simp
next
  case (Suc k)
  then have i: "i < length ps" by simp
  then have p: "plainCode (ps ! i)" using Suc.prems(1) by (simp add: list_all_length)
  have "sgrLoop ps cs g (i + 1) (fst (sgrStep [ps ! i] [] g 0 a)) =
      fold (\<lambda>n a. fst (sgrStep [n] [] g 0 a)) (drop (i + 1) ps) (fst (sgrStep [ps ! i] [] g 0 a))"
    using Suc by (intro Suc.hyps) auto
  then show ?case
    using i by (subst sgrLoop.simps) (simp add: sgrStep_plain [OF p] flip: Cons_nth_drop_Suc)
qed

lemma sgrStep_grid: "fst (sgrStep [n] [] (g\<lparr>m_currentAttrs := b\<rparr>) 0 a) = fst (sgrStep [n] [] g 0 a)"
  by (simp add: sgrStep_def sgrUnderline_def sgrUnderlineColor_def sgrExtended_def resetAttrs_def Let_def)

lemma sgr_split:
  assumes "list_all plainCode (xs @ ys)" "xs \<noteq> []" "ys \<noteq> []"
  shows "handleSGR (xs @ ys) cs g = handleSGR ys cs' (handleSGR xs cs'' g)"
proof -
  have "sgrLoop (xs @ ys) cs g 0 a = sgrLoop ys cs' (g\<lparr>m_currentAttrs := b\<rparr>) 0 (sgrLoop xs cs'' g 0 a)" for a b
    using assms(1) by (simp add: sgrLoop_plain sgrStep_grid)
  then show ?thesis using assms(2,3) by (simp add: handleSGR_def)
qed

section \<open>Full reset\<close>

lemma mapCells_blank:
  "mapCells f (lineWith (makeRow w a b)) =
     lineWith (map f (replicate (nat w) (blankCell (cellColor a) (cellColor b))))"
  by (simp add: mapCells_def makeRow_blank lineWith_def line0_def)

lemma reset_screen:
  "m_screenLines (setDefaultBg b (setDefaultFg f (TerminalGrid e r c))) =
     replicate (nat r) (lineWith (makeRow c f b))"
proof -
  have "m_screenLines (TerminalGrid e r c) =
      replicate (nat r) (lineWith (makeRow c (qrgb 0xCD 0xD6 0xF4) (qrgb 0x1E 0x1E 0x2E)))"
    "m_defaultFg (TerminalGrid e r c) = qrgb 0xCD 0xD6 0xF4" "m_defaultBg (TerminalGrid e r c) = qrgb 0x1E 0x1E 0x2E"
    by (simp_all add: TerminalGrid_def grid_members_def initTabStops_def Let_def)
  then show ?thesis
    by (simp add: setDefaultFg_def setDefaultBg_def Let_def mapCells_blank map_replicate recolorFg_def
        recolorBg_def blankCell_def mapCells_def makeRow_blank lineWith_def line0_def)
qed

lemma setMax_empty:
  assumes "m_scrollback g = []" "m_scrollbackHyperlinks g = []"
  shows "setMaxScrollback n g = (bumpRevision g)\<lparr>m_maxScrollback := clamp n 1000 1000000\<rparr>"
    "0 \<le> m_maxScrollback g \<Longrightarrow>
     setMaxScrollbackMib n g = (bumpRevision g)\<lparr>m_maxScrollbackMib := clamp n 16 65536\<rparr>"
proof -
  have c: "0 \<le> clamp n 1000 1000000" by (simp add: clamp_def)
  show "setMaxScrollback n g = (bumpRevision g)\<lparr>m_maxScrollback := clamp n 1000 1000000\<rparr>"
    using assms c by (simp add: setMaxScrollback_def trimScrollbackToCap_def evictLoop.simps bumpRevision_def)
  show "0 \<le> m_maxScrollback g \<Longrightarrow>
     setMaxScrollbackMib n g = (bumpRevision g)\<lparr>m_maxScrollbackMib := clamp n 16 65536\<rparr>"
    using assms by (simp add: setMaxScrollbackMib_def trimScrollbackToCap_def evictLoop.simps bumpRevision_def)
qed

text \<open>The grid before the configuration is put back.\<close>

definition resetBase :: "env \<Rightarrow> grid \<Rightarrow> grid" where
  "resetBase e g = setDefaultBg (m_defaultBg g) (setDefaultFg (m_defaultFg g)
     ((TerminalGrid e (m_rows g) (m_cols g))
       \<lparr>m_callbacks := m_callbacks g, m_osc133Key := m_osc133Key g, m_quotas := m_quotas g,
        m_events := m_events g, m_nextBuffer := m_nextBuffer g\<rparr>))"

lemma resetBase_fields:
  "m_scrollback (resetBase e g) = []" "m_scrollbackHyperlinks (resetBase e g) = []"
  "m_cursorRow (resetBase e g) = 0" "m_cursorCol (resetBase e g) = 0"
  "m_altScreenActive (resetBase e g) = False" "m_inlineImages (resetBase e g) = []"
  "m_promptRegions (resetBase e g) = []" "m_windowTitle (resetBase e g) = []"
  "m_defaultFg (resetBase e g) = m_defaultFg g" "m_defaultBg (resetBase e g) = m_defaultBg g"
  "m_callbacks (resetBase e g) = m_callbacks g" "m_osc133Key (resetBase e g) = m_osc133Key g"
  "m_quotas (resetBase e g) = m_quotas g" "m_events (resetBase e g) = m_events g"
  "m_rows (resetBase e g) = m_rows g" "m_cols (resetBase e g) = m_cols g"
  "m_queryRespQuota (resetBase e g) = window0" "m_osc133LastForgeryNotifyMs (resetBase e g) = 0"
  by (simp_all add: resetBase_def setDefaultFg_def setDefaultBg_def TerminalGrid_def grid_members_def
      initTabStops_def Let_def)

lemma resetBase_screen:
  "m_screenLines (resetBase e g) =
     replicate (nat (m_rows g)) (lineWith (makeRow (m_cols g) (m_defaultFg g) (m_defaultBg g)))"
proof -
  have "m_screenLines (resetBase e g) = m_screenLines (setDefaultBg (m_defaultBg g)
      (setDefaultFg (m_defaultFg g) (TerminalGrid e (m_rows g) (m_cols g))))"
    by (simp add: resetBase_def setDefaultFg_def setDefaultBg_def Let_def)
  then show ?thesis by (simp only: reset_screen)
qed

lemma fullReset_base:
  assumes "grid_wf g"
  shows "fullReset e g = (bumpRevision (bumpRevision (resetBase e g)))
    \<lparr>m_maxScrollback := m_maxScrollback g, m_maxScrollbackMib := m_maxScrollbackMib g\<rparr>"
proof -
  have m: "clamp (m_maxScrollback g) 1000 1000000 = m_maxScrollback g"
    "clamp (m_maxScrollbackMib g) 16 65536 = m_maxScrollbackMib g" "0 \<le> m_maxScrollback g"
    using assms by (simp_all add: wf_defs hist_ok_def)
  have "fullReset e g = setMaxScrollbackMib (m_maxScrollbackMib g) (setMaxScrollback (m_maxScrollback g) (resetBase e g))"
    by (simp add: fullReset_def resetBase_def Let_def)
  then show ?thesis
    using m by (simp add: setMax_empty resetBase_fields bumpRevision_def)
qed

lemma reset_fields:
  assumes "grid_wf g"
  shows "m_scrollback (fullReset e g) = []" "m_scrollbackHyperlinks (fullReset e g) = []"
    "m_cursorRow (fullReset e g) = 0" "m_cursorCol (fullReset e g) = 0"
    "m_altScreenActive (fullReset e g) = False" "m_inlineImages (fullReset e g) = []"
    "m_promptRegions (fullReset e g) = []" "m_windowTitle (fullReset e g) = []"
    "m_defaultFg (fullReset e g) = m_defaultFg g" "m_defaultBg (fullReset e g) = m_defaultBg g"
    "m_callbacks (fullReset e g) = m_callbacks g" "m_osc133Key (fullReset e g) = m_osc133Key g"
    "m_quotas (fullReset e g) = m_quotas g" "m_events (fullReset e g) = m_events g"
    "m_rows (fullReset e g) = m_rows g" "m_cols (fullReset e g) = m_cols g"
    "m_queryRespQuota (fullReset e g) = window0" "m_osc133LastForgeryNotifyMs (fullReset e g) = 0"
    "m_maxScrollback (fullReset e g) = m_maxScrollback g"
    "m_maxScrollbackMib (fullReset e g) = m_maxScrollbackMib g"
    "m_screenLines (fullReset e g) =
       replicate (nat (m_rows g)) (lineWith (makeRow (m_cols g) (m_defaultFg g) (m_defaultBg g)))"
  using resetBase_fields [of e g] resetBase_screen [of e g]
  by (simp_all add: fullReset_base [OF assms] bumpRevision_def)

end
