(* ===== verification/GridLimits.thy ===== *)
theory GridLimits
  imports GridThrottle GridModes
begin

text \<open>
  Bounds on what hostile input costs, and what it cannot reach: the Sixel work budget, the
  image budget, unauthenticated shell-integration marks, truncated strings, images that do not
  decode, and what a reset does to the limits that are not kept across it.
\<close>

section \<open>Sixel work\<close>

lemma digitVal_nonneg: "isDigit d \<Longrightarrow> 0 \<le> digitVal d"
  by (simp add: isDigit_def digitVal_def Let_def)

lemma cappedNumber_nonneg: "0 \<le> cap \<Longrightarrow> 0 \<le> cappedNumber cap s"
proof -
  assume c: "0 \<le> cap"
  have "0 \<le> foldl (\<lambda>v d. min (v * 10 + digitVal d) cap) v ds" if "list_all isDigit ds" "0 \<le> v" for v ds
    using that
  proof (induction ds arbitrary: v)
    case (Cons d ds)
    have "0 \<le> min (v * 10 + digitVal d) cap" using Cons.prems c digitVal_nonneg [of d] by simp
    then show ?case using Cons by simp
  qed simp
  moreover have "list_all isDigit (takeWhile isDigit s)" by (auto simp: list_all_iff dest: set_takeWhileD)
  ultimately show ?thesis by (simp add: cappedNumber_def)
qed

lemma drawSixel_frame [simp]:
  "columnSteps (drawSixel w h b n p) = columnSteps p" "px (drawSixel w h b n p) = px p"
  by (simp_all add: drawSixel_def)

lemma defineColor_frame [simp]: "columnSteps (defineColor i ps p) = columnSteps p" "px (defineColor i ps p) = px p"
  by (simp_all add: defineColor_def)

lemma controls_not_sixel:
  "\<not> isSixel CHR ''$''" "\<not> isSixel CHR ''-''" "\<not> isSixel CHR ''!''" "\<not> isSixel CHR ''#''"
  by (simp_all add: isSixel_def)

text \<open>The cases of the render loop.\<close>

lemma render_cases:
  "sixelRender w h m [] p = Some p"
  "isSixel c \<Longrightarrow> sixelRender w h m (c # cs) p =
     (if columnSteps p + 1 > m then None
      else sixelRender w h m cs ((drawSixel w h (sixelBits c) 1 p)
             \<lparr>px := px p + 1, columnSteps := columnSteps p + 1\<rparr>))"
  "sixelRender w h m (CHR ''$'' # cs) p = sixelRender w h m cs (p\<lparr>px := 0\<rparr>)"
  "sixelRender w h m (CHR ''-'' # cs) p = sixelRender w h m cs (p\<lparr>px := 0, py := py p + 6\<rparr>)"
  "dropWhile isDigit cs = [] \<Longrightarrow> sixelRender w h m (CHR ''!'' # cs) p = Some p"
  "dropWhile isDigit cs = d # ds \<Longrightarrow> sixelRender w h m (CHR ''!'' # cs) p =
     (if isSixel d then
        (if columnSteps p + cappedNumber MAX_IMAGE_DIM cs > m then None
         else sixelRender w h m ds ((drawSixel w h (sixelBits d) (cappedNumber MAX_IMAGE_DIM cs) p)
                \<lparr>px := px p + cappedNumber MAX_IMAGE_DIM cs,
                 columnSteps := columnSteps p + cappedNumber MAX_IMAGE_DIM cs\<rparr>))
      else sixelRender w h m ds p)"
  "dropWhile isDigit cs = [] \<Longrightarrow>
     sixelRender w h m (CHR ''#'' # cs) p = Some (p\<lparr>penColor := nat (cappedNumber 255 cs)\<rparr>)"
  "dropWhile isDigit cs = CHR '';'' # ds \<Longrightarrow> sixelRender w h m (CHR ''#'' # cs) p =
     sixelRender w h m (snd (sixelParams 100 5 0 ds))
       ((defineColor (nat (cappedNumber 255 cs)) (fst (sixelParams 100 5 0 ds)) p)
          \<lparr>penColor := nat (cappedNumber 255 cs)\<rparr>)"
  "dropWhile isDigit cs = d # ds \<Longrightarrow> d \<noteq> CHR '';'' \<Longrightarrow> sixelRender w h m (CHR ''#'' # cs) p =
     sixelRender w h m ds (p\<lparr>penColor := nat (cappedNumber 255 cs)\<rparr>)"
  "\<not> isSixel c \<Longrightarrow> c \<notin> {CHR ''$'', CHR ''-'', CHR ''!'', CHR ''#''} \<Longrightarrow>
     sixelRender w h m (c # cs) p = sixelRender w h m cs p"
  by (subst sixelRender.simps; simp add: controls_not_sixel split_beta Let_def del: dropWhile_eq_Nil_conv)+

lemma render_induct [case_names Nil Sixel Return Line RepeatEnd Repeat ColorEnd Define Select Skip]:
  fixes P :: "string \<Rightarrow> bool"
  assumes "P []" "\<And>c cs. isSixel c \<Longrightarrow> P cs \<Longrightarrow> P (c # cs)"
    "\<And>cs. P cs \<Longrightarrow> P (CHR ''$'' # cs)" "\<And>cs. P cs \<Longrightarrow> P (CHR ''-'' # cs)"
    "\<And>cs. dropWhile isDigit cs = [] \<Longrightarrow> P (CHR ''!'' # cs)"
    "\<And>cs d ds. dropWhile isDigit cs = d # ds \<Longrightarrow> P ds \<Longrightarrow> P (CHR ''!'' # cs)"
    "\<And>cs. dropWhile isDigit cs = [] \<Longrightarrow> P (CHR ''#'' # cs)"
    "\<And>cs ds. dropWhile isDigit cs = CHR '';'' # ds \<Longrightarrow> P (snd (sixelParams 100 5 0 ds)) \<Longrightarrow> P (CHR ''#'' # cs)"
    "\<And>cs d ds. dropWhile isDigit cs = d # ds \<Longrightarrow> d \<noteq> CHR '';'' \<Longrightarrow> P ds \<Longrightarrow> P (CHR ''#'' # cs)"
    "\<And>c cs. \<not> isSixel c \<Longrightarrow> c \<notin> {CHR ''$'', CHR ''-'', CHR ''!'', CHR ''#''} \<Longrightarrow> P cs \<Longrightarrow> P (c # cs)"
  shows "P s"
proof (induction s rule: length_induct)
  case (1 s)
  show ?case
  proof (cases s)
    case Nil
    then show ?thesis using assms(1) by simp
  next
    case (Cons c cs)
    have cs: "P cs" using 1 Cons by simp
    have ds: "P ds" if "dropWhile isDigit cs = d # ds" for d ds
      using 1 Cons dropWhile_Cons_length [OF that] by simp
    have ps: "P (snd (sixelParams 100 5 0 ds))" if "dropWhile isDigit cs = d # ds" for d ds
      using 1 Cons dropWhile_Cons_length [OF that] sixelParams_length [of 100 5 0 ds] by simp
    consider "isSixel c" | "c = CHR ''$''" | "c = CHR ''-''" | "c = CHR ''!''" | "c = CHR ''#''"
      | "\<not> isSixel c" "c \<notin> {CHR ''$'', CHR ''-'', CHR ''!'', CHR ''#''}" by blast
    then show ?thesis
    proof cases
      case 4
      then show ?thesis using assms(5,6) ds Cons by (cases "dropWhile isDigit cs") auto
    next
      case 5
      then show ?thesis using assms(7,8,9) ds ps Cons by (cases "dropWhile isDigit cs") metis+
    qed (use assms(2,3,4,10) cs Cons in simp_all)
  qed
qed

lemma sixelRender_steps:
  "sixelRender w h m s p = Some q \<Longrightarrow> columnSteps p \<le> m \<Longrightarrow> columnSteps p \<le> columnSteps q \<and> columnSteps q \<le> m"
proof (induction s arbitrary: p rule: render_induct)
  case (Repeat cs d ds)
  have n: "0 \<le> cappedNumber MAX_IMAGE_DIM cs" by (rule cappedNumber_nonneg) (simp add: MAX_IMAGE_DIM_def)
  from Repeat(3) show ?case
    using Repeat(2) [of p] Repeat(4) n
      Repeat(2) [of "(drawSixel w h (sixelBits d) (cappedNumber MAX_IMAGE_DIM cs) p)
        \<lparr>px := px p + cappedNumber MAX_IMAGE_DIM cs, columnSteps := columnSteps p + cappedNumber MAX_IMAGE_DIM cs\<rparr>"]
    by (auto simp: render_cases(6) [OF Repeat(1)] split: if_splits)
next
  case (Sixel c cs)
  from Sixel(3) show ?case
    using Sixel(4) Sixel(2) [of "(drawSixel w h (sixelBits c) 1 p)\<lparr>px := px p + 1, columnSteps := columnSteps p + 1\<rparr>"]
    by (auto simp: render_cases(2) [OF Sixel(1)] split: if_splits)
qed (fastforce simp: render_cases)+

lemma render_budget:
  "sixelRender w h (maxColumnSteps w h) s sixelPen0 = Some p \<Longrightarrow> 0 < w \<Longrightarrow> 0 < h \<Longrightarrow>
   columnSteps p \<le> kSixelColumnCeiling \<and> columnSteps p \<le> w * ((h + 5) div 6) * 256"
proof -
  assume r: "sixelRender w h (maxColumnSteps w h) s sixelPen0 = Some p" and d: "0 < w" "0 < h"
  have "0 \<le> maxColumnSteps w h" using d by (simp add: maxColumnSteps_def kSixelColumnCeiling_def)
  then show ?thesis using sixelRender_steps [OF r] by (simp add: sixelPen0_def maxColumnSteps_def)
qed

text \<open>The sizing pass steps over a colour selection and counts the sixel after it.\<close>

lemma size_select:
  "dropWhile isDigit cs = d # ds \<Longrightarrow> isSixel d \<Longrightarrow> sixelSize (CHR ''#'' # cs) z =
     sixelSize ds (z\<lparr>sx := sx z + 1, sMaxX := max (sMaxX z) (sx z + 1)\<rparr>)"
proof -
  assume d: "dropWhile isDigit cs = d # ds" "isSixel d"
  have nd: "\<not> isDigit d" "d \<noteq> CHR '';''" using d(2) by (auto simp: isSixel_def isDigit_def Let_def)
  have "dropWhile (\<lambda>d. isDigit d \<or> d = CHR '';'') cs = d # ds"
    using d(1) nd by (induction cs) (auto split: if_splits)
  then show ?thesis
    by (subst sixelSize.simps) (simp add: controls_not_sixel, subst sixelSize.simps, simp add: d(2))
qed

section \<open>The image budget\<close>

text \<open>Past the cap the subtraction wraps, and everything fits.\<close>

lemma canFit_wraps:
  assumes "MAX_IMAGE_BYTES < used" "used \<le> 2 ^ 62" "b \<le> 2 ^ 62"
  shows "canFit used b"
proof -
  have n: "unat MAX_IMAGE_BYTES < unat used" "unat used \<le> 2 ^ 62" "unat b \<le> 2 ^ 62"
    using assms by (simp_all add: word_less_nat_alt word_le_nat_alt)
  have "unat (MAX_IMAGE_BYTES - used) = 2 ^ 64 + unat MAX_IMAGE_BYTES - unat used"
    using n by (simp add: unat_sub_if_size word_size)
  then show ?thesis using n by (simp add: canFit_def word_le_nat_alt)
qed

section \<open>Unauthenticated shell marks\<close>

text \<open>The parameters a marker carries, and whether it is refused.\<close>

definition shellCode :: "string \<Rightarrow> string" where
  "shellCode rest = (if hd rest = CHR ''D'' \<and> length (splitOn CHR '';'' rest) \<ge> 2
     then splitOn CHR '';'' rest ! 1 else [])"

definition shellAuth :: "string \<Rightarrow> string \<times> string" where
  "shellAuth rest = fold osc133Param
     (drop (if hd rest = CHR ''D'' \<and> length (splitOn CHR '';'' rest) \<ge> 2 then 2 else 1)
       (splitOn CHR '';'' rest)) ([], [])"

lemma oscShell_forged:
  assumes "\<not> verifyOsc133Hmac e (hd rest) (fst (shellAuth rest)) (shellCode rest) (snd (shellAuth rest)) g"
  shows "oscShell e rest g = g \<or> oscShell e rest g = rejectForgery e g"
  using assms by (auto simp: oscShell_def shellCode_def shellAuth_def Let_def split_beta)

lemma rejectForgery_only:
  "(rejectForgery e g)\<lparr>m_osc133ForgeryCount := m_osc133ForgeryCount g,
     m_osc133LastForgeryNotifyMs := m_osc133LastForgeryNotifyMs g, m_events := m_events g\<rparr> = g"
  by (simp add: rejectForgery_def Let_def emit_def)

text \<open>Without an \<open>ahmac\<close> parameter nothing verifies once a key is set.\<close>

lemma osc133Param_noauth:
  "CHR ''='' \<notin> set p \<Longrightarrow> osc133Param p x = x"
  by (simp add: osc133Param_def cut_None [THEN iffD2])

lemma splitOn_chars: "t \<in> set (splitOn c s) \<Longrightarrow> set t \<subseteq> set s"
proof (induction c s rule: splitOn.induct)
  case (1 c s)
  show ?case
  proof (cases "cut c s")
    case None
    then show ?thesis using 1(2) by (subst (asm) splitOn.simps) simp
  next
    case (Some ab)
    then obtain a b where ab: "cut c s = Some (a, b)" by (cases ab) simp
    then have "set a \<subseteq> set s" "set b \<subseteq> set s" using cut_Some [OF ab] by auto
    moreover have "t = a \<or> t \<in> set (splitOn c b)" using 1(2) ab by (subst (asm) splitOn.simps) simp
    ultimately show ?thesis using 1(1) [OF ab refl] by auto
  qed
qed

lemma shell_unsigned:
  assumes "CHR ''='' \<notin> set rest" "m_osc133Key g \<noteq> []"
  shows "\<not> verifyOsc133Hmac e (hd rest) (fst (shellAuth rest)) (shellCode rest) (snd (shellAuth rest)) g"
proof -
  have "fold osc133Param ts x = x" if "set ts \<subseteq> set (splitOn CHR '';'' rest)" for ts x
    using that
  proof (induction ts arbitrary: x)
    case (Cons t ts)
    then have "CHR ''='' \<notin> set t" using splitOn_chars [of t "CHR '';''" rest] assms(1) by auto
    then show ?case using Cons by (simp add: osc133Param_noauth)
  qed simp
  then have "shellAuth rest = ([], [])" by (simp add: shellAuth_def set_drop_subset)
  then show ?thesis using assms(2) by (simp add: verifyOsc133Hmac_def)
qed

section \<open>Truncated strings\<close>

lemma truncated_csi: "processAction e pre (CsiDispatch fc ps cs im True) g = (bumpRevision g)\<lparr>m_wrapNext := False\<rparr>"
  by (simp add: processAction_def handleCsi_def Let_def)

lemma truncated_strings:
  "processAction e pre (DcsEnd s True) g = bumpRevision g"
  "processAction e pre (ApcEnd s True) g = bumpRevision g"
  by (simp_all add: processAction_def handleDcs_def handleApc_def Let_def)

lemma truncated_osc:
  "n = ''8'' \<or> n = ''52'' \<Longrightarrow> processAction e pre (OscEnd (n @ CHR '';'' # s) True) g = bumpRevision g"
proof -
  assume n: "n = ''8'' \<or> n = ''52''"
  have "cut CHR '';'' (n @ CHR '';'' # s) = Some (n, s)" using n by (auto simp: cut_def)
  then show ?thesis using n by (auto simp: processAction_def handleOsc_def Let_def)
qed

section \<open>Frames that do not decode\<close>

definition imageStore :: "grid \<Rightarrow> inline_image list \<times> (u32 \<times> qimage) list \<times> u32 list \<times> u64" where
  "imageStore g = (m_inlineImages g, m_kittyImages g, m_kittyImageOrder g, m_imageBudget g)"

lemma reply_store [simp]: "imageStore (sendQueryResponse e s g) = imageStore g"
  "imageStore (kittyReply e i m g) = imageStore g"
  by (simp_all add: sendQueryResponse_def kittyReply_def imageStore_def Let_def emit_def)

lemma kitty_undecodable:
  assumes "kittyDecode e pre keys (keyInt keys CHR ''f'' 32) full g = (None, h)"
    "keyChar keys CHR ''a'' CHR ''T'' \<notin> {CHR ''d'', CHR ''q'', CHR ''p''}"
  shows "kittyFrame e pre keys i full g = kittyReply e i ''ENODATA'' h"
  using assms by (simp add: kittyFrame_def Let_def)

lemma own_store: "imageStore (snd (ownOption i g)) = imageStore g"
  by (simp add: ownOption_def ownImage_def imageStore_def split: option.split)

lemma decode_store: "imageStore (snd (kittyDecode e pre keys f full g)) = imageStore g"
  using own_store [of _ g]
  by (auto simp: kittyDecode_def decodePng_def Let_def split_beta split: option.split)

section \<open>What a reset gives back\<close>

definition risAction :: vt_action where "risAction = EscDispatch CHR ''c'' ''''"
definition daAction :: vt_action where "daAction = CsiDispatch CHR ''c'' [] [] '''' False"

fun replyCost :: "event \<Rightarrow> int" where
  "replyCost (Response s) = 1"
| "replyCost _ = 0"

lemma reply_fresh:
  assumes "cb_response (m_callbacks g)" "winCount (m_queryRespQuota g) = 0"
  shows "total replyCost (sendQueryResponse e s g) = total replyCost g + 1"
proof -
  have "winCount (roll (e_nowMs e) 1000 (m_queryRespQuota g)) = 0" using assms(2) by (simp add: roll_def)
  then show ?thesis using assms(1)
    by (simp add: sendQueryResponse_def Let_def QUERY_RESP_MAX_PER_SEC_def total_def emit_def)
qed

lemma ris_then_query:
  assumes "grid_wf g" "cb_response (m_callbacks g)"
  shows "total replyCost (runActions [(e, None, risAction), (e, None, daAction)] g) = total replyCost g + 1 \<and>
    cb_response (m_callbacks (runActions [(e, None, risAction), (e, None, daAction)] g))"
proof -
  let ?g = "(bumpRevision g)\<lparr>m_wrapNext := False\<rparr>"
  have wf: "grid_wf ?g" using assms(1) by (simp add: wf_wrapNext)
  define r where "r = fullReset e ?g"
  have ris: "processAction e None risAction g = r"
    by (simp add: risAction_def processAction_def handleEsc_def r_def Let_def)
  have f: "m_callbacks r = m_callbacks g" "winCount (m_queryRespQuota r) = 0" "m_events r = m_events g"
    by (simp_all add: r_def reset_fields [OF wf] window0_def) (simp_all add: bumpRevision_def)
  have da: "processAction e None daAction r =
      sendQueryResponse e (ESC # ''[?62;22c'') ((bumpRevision r)\<lparr>m_wrapNext := False\<rparr>)"
    using f(1) assms(2)
    by (simp add: daAction_def processAction_def handleCsi_def csiCursor_def csiEdit_def csiModes_def
        csiReport_def csiFirst_def bumpRevision_def Let_def)
  have "total replyCost (processAction e None daAction r) = total replyCost r + 1"
    using f assms(2) by (subst da, subst reply_fresh) (simp_all add: bumpRevision_def total_def)
  moreover have "m_callbacks (processAction e None daAction r) = m_callbacks r"
    by (subst da) (simp add: sendQueryResponse_def Let_def emit_def bumpRevision_def)
  ultimately show ?thesis using f assms(2) by (simp add: runActions_def ris total_def)
qed

end
