(* ===== verification/GridProps.thy ===== *)
theory GridProps
  imports GridPrintEq GridReflow GridHistory GridLimits
begin

text \<open>
  The properties of the terminal grid. Each is a few steps over the lemmas of the component
  theories; the witnesses apply them to concrete grids.
\<close>

section \<open>A small grid for the witnesses\<close>

text \<open>An environment whose clocks stand still and whose decoders refuse everything.\<close>

definition env0 :: env where
  "env0 = \<lparr>e_wcwidth = (\<lambda>_. 1), e_nowMs = 0, e_monoMs = 0, e_lineTriggers = (\<lambda>_ _. []),
     e_fromUtf8 = map (\<lambda>c. of_char c), e_toStd = map (\<lambda>u. char_of (unat u)),
     e_base64Strict = (\<lambda>_. None), e_base64Lenient = (\<lambda>_. []), e_declaredSize = (\<lambda>_ _. (0, 0)),
     e_loadFromData = (\<lambda>_ _. None), e_hmacHex = (\<lambda>_ _. []), e_osc133KeyFromSetup = [],
     e_hash = length\<rparr>"

definition grid0 :: grid where "grid0 = TerminalGrid env0 4 8"

lemma session_grid0: "session grid0"
  unfolding grid0_def by (rule session.Start) simp_all

lemma wf_grid0: "grid_wf grid0"
  by (rule session_wf [OF session_grid0])

section \<open>Sessions\<close>

text \<open>
  C2. Every state a session can reach satisfies the invariant of the grid: the screen is
  \<open>m_rows\<close> rows of \<open>m_cols\<close> cells, cursor and scroll region lie inside it, the saved screen has
  the same size while the alternate one is active, byte accounting equals the scrollback's
  cells, both scrollback caps hold, images, prompt regions, the kitty stack and the quota
  windows are within their caps, and every callback made was in its contract.
\<close>
theorem session_invariant: "session g \<Longrightarrow> grid_wf g"
  by (induction rule: session.induct) (simp_all add: grid_wf_TerminalGrid wf_applyOp)

theorem session_invariant_witness:
  "grid_wf (applyOp (Resize 3 5) (applyOp (Act env0 None (PrintRun [0x41, 0x42])) grid0))"
  by (rule session_invariant)
    (intro session.Step session_grid0; simp)

text \<open>
  Only links with an allowed scheme are ever clickable: every hyperlink span on the
  screen, in the scrollback or on the saved main screen has a URI that passed
  \<open>isAllowedHyperlinkScheme\<close> and a non-empty column range.
\<close>
theorem session_links_safe:
  assumes "session g"
    and "sp \<in> set (concat (m_screenHyperlinks g)) \<or> sp \<in> set (concat (m_scrollbackHyperlinks g)) \<or>
      m_altScreenActive g \<and> sp \<in> set (concat (m_altScreenHyperlinks g))"
  shows "isAllowedHyperlinkScheme (uri sp) \<and> 0 \<le> startCol sp \<and> startCol sp \<le> endCol sp"
proof -
  have "grid_wf g" using assms(1) by (rule session_wf)
  then have "span_ok sp"
    using assms(2) by (auto simp: wf_defs links_ok_def hist_ok_def alt_ok_def list_all_iff)
  then show ?thesis by (simp add: span_ok_def)
qed


definition link0 :: hyperlink_span where
  "link0 = \<lparr>startCol = 1, endCol = 3, uri = ''http:x'', linkId = ''''\<rparr>"

definition linkGrid :: grid where
  "linkGrid = applyOp (ApplyEdit env0 (AddRowHyperlink 2 1 3 (map (\<lambda>c. of_char c) ''http:x''))) grid0"

lemma linkGrid_links: "m_screenHyperlinks linkGrid = [[], [], [link0], []]"
  by code_simp

theorem session_links_safe_witness:
  "isAllowedHyperlinkScheme (uri link0) \<and> 0 \<le> startCol link0 \<and> startCol link0 \<le> endCol link0"
proof (rule session_links_safe)
  show "session linkGrid"
    unfolding linkGrid_def by (rule session.Step [OF session_grid0]) simp
qed (simp add: linkGrid_links)

section \<open>Printing\<close>

text \<open>
  C7. The coalesced path for runs of printable ASCII is the one-character path: writing a run
  span by span, with wide pairs repaired and links dropped once per span, leaves exactly the
  grid that printing its characters one by one leaves, wraps and scrolls included.
\<close>
theorem ascii_run_equals_prints:
  "grid_wf g \<Longrightarrow> list_all safeByte bs \<Longrightarrow>
   handleAsciiPrintRun e bs g = fold (\<lambda>b. handlePrint e (ucast b)) bs g"
  by (rule run_equals_fold)

theorem ascii_run_equals_prints_witness:
  "handleAsciiPrintRun env0 [0x41, 0x20, 0x7E] grid0 =
   fold (\<lambda>b. handlePrint env0 (ucast b)) [0x41 :: u8, 0x20, 0x7E] grid0"
  by (rule ascii_run_equals_prints [OF wf_grid0]) (simp add: safeByte_def)

section \<open>Scrolling and history\<close>

text \<open>
  C20. Scrolling the whole screen up (the scroll region being all of it) refines an append to a
  transcript: read scrollback and screen as one sequence of rows (what a row shows, whether it
  wraps, its combining characters); then scrolling by \<open>n\<close> appends blank rows and drops \<open>k\<close> of the
  oldest, the prompt regions are told of \<open>k\<close>, and nothing is dropped while both caps have room.
  On the alternate screen, and in the redraw window after a clear while scrollback is not paused,
  the rows that scroll off are discarded instead and the history stays as it is.
\<close>
theorem scroll_refines_transcript:
  fixes g n e
  defines "c \<equiv> nat (min n (m_rows g))"
  assumes "grid_wf g" "1 \<le> n" "m_scrollTop g = 0" "m_scrollBottom g = m_rows g - 1"
  shows "if m_altScreenActive g \<or> m_csiClearRedrawActive g \<and> \<not> m_scrollbackInsertPaused g \<and>
        timerWithin e (m_csiClearRedrawTimer g) kCsiClearRedrawWindowMs
    then transcript (scrollUp e n g) = map rowView (m_scrollback g) @
      drop c (map rowView (m_screenLines g)) @ replicate c ([], False, [])
    else \<exists>k. transcript (scrollUp e n g) = drop k (transcript g @ replicate c ([], False, [])) \<and>
      m_promptRegionShift (scrollUp e n g) = m_promptRegionShift g + int k \<and>
      (int (length (m_scrollback g)) + min n (m_rows g) \<le> m_maxScrollback g \<and>
       m_scrollbackBytes g + min n (m_rows g) * (m_cols g * sizeofCell) \<le> byteCap g \<longrightarrow> k = 0)"
proof -
  have c: "scrollCount n g = min n (m_rows g)" using assms(4,5) by (simp add: scrollCount_def)
  have push: "scrollPush e n g \<longleftrightarrow> \<not> (m_altScreenActive g \<or> m_csiClearRedrawActive g \<and>
      \<not> m_scrollbackInsertPaused g \<and> timerWithin e (m_csiClearRedrawTimer g) kCsiClearRedrawWindowMs)"
    using assms(4) by (auto simp: scrollPush_def csiClearWindow_def moveActiveLink_def markAllScreenDirty_def Let_def)
  show ?thesis
    using scroll_transcript [OF assms(2-5), of e] discarded_transcript [OF assms(2-5), of e]
    unfolding push c c_def by (simp only: if_bool_eq_conj) blast
qed

lemma grid0_fields:
  "m_scrollTop grid0 = 0" "m_scrollBottom grid0 = 3" "m_rows grid0 = 4" "m_cols grid0 = 8"
  "\<not> m_altScreenActive grid0" "\<not> m_csiClearRedrawActive grid0" "m_cursorRow grid0 = 0" "m_cursorCol grid0 = 0"
  "m_scrollback grid0 = []" "m_maxScrollback grid0 = 50000" "m_scrollbackBytes grid0 = 0"
  "m_maxScrollbackMib grid0 = 256" "length (m_screenLines grid0) = 4" "m_promptRegionShift grid0 = 0"
  "m_callbacks grid0 = callbacks0" "m_osc133Key grid0 = []" "m_wrapNext grid0 = False"
  by (simp_all add: grid0_def TerminalGrid_def grid_members_def initTabStops_def env0_def Let_def)

theorem scroll_refines_transcript_witness:
  "transcript (scrollUp env0 2 grid0) = transcript grid0 @ replicate 2 ([], False, [])"
proof -
  obtain k where "transcript (scrollUp env0 2 grid0) =
      drop k (transcript grid0 @ replicate (nat (min 2 (m_rows grid0))) ([], False, []))"
    "int (length (m_scrollback grid0)) + min 2 (m_rows grid0) \<le> m_maxScrollback grid0 \<and>
     m_scrollbackBytes grid0 + min 2 (m_rows grid0) * (m_cols grid0 * sizeofCell) \<le> byteCap grid0 \<longrightarrow> k = 0"
    using scroll_refines_transcript [OF wf_grid0, of 2 env0] by (auto simp: grid0_fields split: if_splits)
  then show ?thesis by (simp add: grid0_fields sizeofCell_def byteCap_def)
qed

text \<open>
  Which row ends up where: SU and SD inside the scroll region, IL and DL from the cursor
  to its bottom, move the rows by the count, clipped to the rows there are, fill what opens up
  with blank rows in the current background, and leave every row outside in place.
\<close>
theorem region_rows:
  assumes "grid_wf g" "1 \<le> n" "k < length (m_screenLines g)"
  shows "m_screenLines (scrollUp e n g) ! k = movedUp (m_scrollTop g) (m_scrollBottom g)
      (min n (m_scrollBottom g - m_scrollTop g + 1)) (markAllScreenDirty g) k \<and>
    m_screenLines (scrollDown n g) ! k = movedDown (m_scrollTop g) (m_scrollBottom g)
      (min n (m_scrollBottom g - m_scrollTop g + 1)) (markAllScreenDirty g) k \<and>
    (m_scrollTop g \<le> m_cursorRow g \<and> m_cursorRow g \<le> m_scrollBottom g \<longrightarrow>
      m_screenLines (insertLines n g) ! k = movedDown (m_cursorRow g) (m_scrollBottom g)
        (min n (m_scrollBottom g - m_cursorRow g + 1)) (markAllScreenDirty g) k \<and>
      m_screenLines (deleteLines n g) ! k = movedUp (m_cursorRow g) (m_scrollBottom g)
        (min n (m_scrollBottom g - m_cursorRow g + 1)) (markAllScreenDirty g) k)"
  using scrollUp_rows [OF assms, of e] scrollDown_rows [OF assms] insertLines_rows [OF assms]
    deleteLines_rows [OF assms] by (simp add: scrollCount_def)

theorem region_rows_witness:
  "m_screenLines (insertLines 1 grid0) ! 2 = movedDown 0 3 1 (markAllScreenDirty grid0) 2"
  using region_rows [OF wf_grid0, of 1 2] by (simp add: grid0_fields)

text \<open>
  Eviction takes the oldest lines only, with their links and in step with the prompt
  regions' shift, stops as soon as both caps hold, and takes no line it could have kept.
\<close>
theorem eviction_minimal:
  assumes "grid_inv g"
  shows "\<exists>k. m_scrollback (trimScrollbackToCap g) = drop k (m_scrollback g) \<and>
    m_scrollbackHyperlinks (trimScrollbackToCap g) = drop k (m_scrollbackHyperlinks g) \<and>
    m_promptRegionShift (trimScrollbackToCap g) = m_promptRegionShift g + int k \<and>
    hist_cap (trimScrollbackToCap g) \<and>
    (k > 0 \<longrightarrow> \<not> cap_ok (drop (k - 1) (m_scrollback g))
       (sum_list (map cellBytes (drop (k - 1) (m_scrollback g)))) (m_maxScrollback g) (m_maxScrollbackMib g))"
  using evictLoop_drop [OF inv_hist [OF assms]] evictLoop_hist [OF inv_hist [OF assms]]
  by (simp add: trim_evict [OF inv_hist [OF assms]]) blast

theorem eviction_minimal_witness:
  "hist_cap (trimScrollbackToCap (grid0\<lparr>m_scrollback := [line0], m_scrollbackHyperlinks := [[]]\<rparr>))"
proof -
  have "grid_inv (grid0\<lparr>m_scrollback := [line0], m_scrollbackHyperlinks := [[]]\<rparr>)"
    using wf_grid0 by (simp add: wf_defs hist_ok_def grid0_fields line0_def cellBytes_def)
  from eviction_minimal [OF this] show ?thesis by blast
qed

end
