(* ===== verification/GridProps2.thy ===== *)
theory GridProps2
  imports GridProps
begin

text \<open>
  The properties of the grid, continued: reflow, what the terminal remembers, attribute
  sequences, limits on hostile input, and what a reset leaves.
\<close>

section \<open>Reflow\<close>

text \<open>
  C19. Reflow loses nothing of a line that is \<open>steady\<close> (no double-width character, no trailing
  blank, combining characters on distinct columns inside the line): wrapping such logical lines
  at any width and joining the rows again gives the same lines, cell by cell with attributes and
  combining characters.
\<close>
theorem reflow_roundtrip:
  assumes "1 \<le> w" "list_all steady Ls"
  shows "list_all2 sameLine (joinLogical (concat (map (rewrap w (rowBlanks w g)) Ls))) Ls"
  using assms(1) by (intro join_rewrapAll assms(2) rowBlanks_space length_rowBlanks) simp_all

definition charCell :: "u32 \<Rightarrow> cell" where "charCell u = cell0\<lparr>codepoint := u\<rparr>"

definition sampleLine :: logical_line where
  "sampleLine = \<lparr>l_cells = map charCell [0x41, 0x20, 0x42, 0x43], l_combining = [(2, [0x301])]\<rparr>"

lemma steady_sample: "steady sampleLine"
  by (simp add: steady_def sampleLine_def narrow_def isSpaceCell_def charCell_def cell0_def)

theorem reflow_roundtrip_witness:
  "list_all2 sameLine (joinLogical (concat (map (rewrap 3 (rowBlanks 3 grid0)) [sampleLine, logical0]))) [sampleLine, logical0]"
  by (rule reflow_roundtrip) (simp_all add: steady_sample, simp add: steady_def logical0_def narrow_def)

text \<open>
  The path of widths does not matter: rows rewrapped to one width and then to another are
  the rows obtained by going to the second width at once.
\<close>
theorem reflow_path_independent:
  assumes "1 \<le> w" "list_all steady (joinLogical ls)"
  shows "list_all2 sameRow (rewrapAll w' (rowBlanks w' g) (rewrapAll w (rowBlanks w g) ls))
    (rewrapAll w' (rowBlanks w' g) ls)"
  using assms(1) by (intro rewrap_twice assms(2) rowBlanks_space length_rowBlanks) simp_all

definition sampleRow :: term_line where
  "sampleRow = lineWith (map charCell [0x41, 0x42, 0x43, 0x44, 0x20])"

theorem reflow_path_independent_witness:
  "list_all2 sameRow (rewrapAll 3 (rowBlanks 3 grid0) (rewrapAll 2 (rowBlanks 2 grid0) [sampleRow]))
    (rewrapAll 3 (rowBlanks 3 grid0) [sampleRow])"
proof (rule reflow_path_independent)
  have "joinLogical [sampleRow] = [logical0\<lparr>l_cells := map charCell [0x41, 0x42, 0x43, 0x44]\<rparr>]"
    by (simp add: joinLogical_def sampleRow_def joinLine_def contentWidth_def keepLen_def isSpaceCell_def
        charCell_def cell0_def logical0_def Let_def)
  then show "list_all steady (joinLogical [sampleRow])"
    by (simp add: steady_def narrow_def isSpaceCell_def charCell_def cell0_def logical0_def)
qed simp

text \<open>
  Rewrapping never leaves the left half of a double-width character in the last column of
  a row that continues: it goes to the next row with its right half.
\<close>
theorem wide_character_not_cut:
  assumes "2 \<le> w" "r \<in> set (rewrap w (rowBlanks w g) l)" "softWrapped r"
  shows "\<not> isWideChar (cells r ! nat (w - 1))"
proof -
  have b: "list_all (\<lambda>c. \<not> isWideChar c) (rowBlanks w g)"
    by (simp add: rowBlanks_def makeRow_blank list_all_iff blankCell_def cell0_def)
  have "l_cells l \<noteq> []" using assms(2,3) by (auto simp: rewrap_def)
  then have "r \<in> set (rewrapLoop w (rowBlanks w g) 0 (l_combining l) (l_cells l))"
    using assms(2) by (simp add: rewrap_def)
  from rewrap_no_split [OF assms(1) _ b this assms(3)] show ?thesis
    using assms(1) by (simp add: length_rowBlanks)
qed

definition wideLine :: logical_line where
  "wideLine = \<lparr>l_cells = [charCell 0x41, (charCell 0x4E00)\<lparr>isWideChar := True\<rparr>, (charCell 0)\<lparr>isWideCont := True\<rparr>],
     l_combining = []\<rparr>"

theorem wide_character_not_cut_witness:
  "\<not> isWideChar (cells (hd (rewrap 2 (rowBlanks 2 grid0) wideLine)) ! nat (2 - 1))"
proof (rule wide_character_not_cut)
  have "rewrap 2 (rowBlanks 2 grid0) wideLine =
      [wrapRow 1 (rowBlanks 2 grid0) 0 [] (l_cells wideLine),
       wrapRow 2 (rowBlanks 2 grid0) 1 [] (drop 1 (l_cells wideLine))]"
    by (simp add: rewrap_def wideLine_def rewrapLoop.simps chunkLen_def vget_def Let_def charCell_def cell0_def)
  then show "hd (rewrap 2 (rowBlanks 2 grid0) wideLine) \<in> set (rewrap 2 (rowBlanks 2 grid0) wideLine)"
    "softWrapped (hd (rewrap 2 (rowBlanks 2 grid0) wideLine))"
    by (simp_all add: wrapRow_def wideLine_def)
qed simp

text \<open>
  C28. The rewrap loop ends and its output has the right type: a line gives at most one row per
  cell and at least one row, and every row has exactly the new width.
\<close>
theorem rewrap_terminates:
  assumes "1 \<le> w" "comb_ok (l_combining l)"
  shows "1 \<le> length (rewrap w (rowBlanks w g) l) \<and>
    length (rewrap w (rowBlanks w g) l) \<le> max 1 (length (l_cells l)) \<and>
    list_all (\<lambda>r. int (length (cells r)) = w) (rewrap w (rowBlanks w g) l)"
proof (cases "l_cells l = []")
  case True
  then show ?thesis using assms(1) by (simp add: rewrap_def length_rowBlanks)
next
  case False
  have "list_all (line_ok w) (rewrapLoop w (rowBlanks w g) 0 (l_combining l) (l_cells l))"
    using assms by (intro rewrapLoop_ok) (simp_all add: length_rowBlanks)
  moreover have "rewrapLoop w (rowBlanks w g) 0 (l_combining l) (l_cells l) \<noteq> []"
    using False chunkLen_range [of w "l_cells l"] assms(1)
    by (subst rewrapLoop.simps) (simp add: Let_def)
  ultimately show ?thesis
    using False rewrapLoop_length [of w "rowBlanks w g" 0 "l_combining l" "l_cells l"]
    by (simp add: rewrap_def line_ok_def list_all_iff Suc_le_eq)
qed

theorem rewrap_terminates_witness:
  "length (rewrap 2 (rowBlanks 2 grid0) wideLine) \<le> max 1 (length (l_cells wideLine))"
  using rewrap_terminates [of 2 wideLine grid0] by (simp add: wideLine_def)

end
