(* ===== verification/GridProps3.thy ===== *)
theory GridProps3
  imports GridProps2
begin

text \<open>
  The properties of the grid, continued: what the terminal remembers and restores, attribute
  sequences, and the limits that hold whatever a program sends.
\<close>

section \<open>What is remembered\<close>

text \<open>
  Saving and restoring the cursor is a round trip: whatever a program draws between ESC 7
  and ESC 8, position, attributes, origin mode and auto-wrap are those of the save.
\<close>
theorem cursor_saved_restored:
  assumes "grid_wf g" "list_all (\<lambda>(e, pre, a). drawing a) xs"
  shows "cursorState (handleEsc e CHR ''8'' '''' (runActions xs (handleEsc e CHR ''7'' '''' g))) = cursorState g"
  using assms by (rule decsc_decrc)

theorem cursor_saved_restored_witness:
  "cursorState (handleEsc env0 CHR ''8'' '''' (runActions
      [(env0, None, PrintRun [0x41, 0x42]), (env0, None, Execute CHR 0x0A),
       (env0, None, CsiDispatch CHR ''m'' [1, 31] [False, False] '''' False)]
      (handleEsc env0 CHR ''7'' '''' grid0))) = cursorState grid0"
  by (rule cursor_saved_restored [OF wf_grid0]) (simp add: drawingFinal_def)

text \<open>
  C21. A full-screen program leaves no trace on the main screen: after entering the alternate
  screen (mode 1049), any actions at all but one that leaves it or RIS (text, control sequences,
  modes, links, images, shell marks), and leaving it, the rows, links, images and scroll region
  of the main screen are those it had, all rows marked for repaint, and so are the cursor, its
  attributes, origin mode and auto-wrap. Other modes, the title and the history are not part of
  a screen.
\<close>
theorem alternate_screen_restores:
  assumes "\<not> m_altScreenActive g" "list_all (\<lambda>(e, pre, a). \<not> leavesAlt a) xs"
  shows "mainScreen (runActions ((e, None, altOn) # xs @ [(e', None, altOff)]) g)
      = mainScreen (markAllScreenDirty g) \<and>
    cursorState (runActions ((e, None, altOn) # xs @ [(e', None, altOff)]) g) = cursorState g \<and>
    \<not> m_altScreenActive (runActions ((e, None, altOn) # xs @ [(e', None, altOff)]) g)"
  using assms by (rule alt_roundtrip)

theorem alternate_screen_restores_witness:
  "mainScreen (runActions ((env0, None, altOn) # [(env0, None, PrintRun [0x41, 0x42]),
       (env0, None, OscEnd ''8;;https://a.org'' False), (env0, None, CsiDispatch CHR ''h'' [2004] [False] ''?'' False)]
       @ [(env0, None, altOff)]) grid0)
      = mainScreen (markAllScreenDirty grid0)"
proof -
  have "\<not> m_altScreenActive grid0" by (simp add: grid0_def TerminalGrid_def grid_members_def initTabStops_def Let_def)
  then show ?thesis
    by (rule conjunct1 [OF alternate_screen_restores]) simp
qed

text \<open>
  C30. The window title stays well-formed UTF-16 of at most \<open>kMaxWindowTitleChars\<close> units:
  truncation never splits a surrogate pair, and a title within the limit is kept as it is.
\<close>
theorem title_well_formed:
  "utf16_ok t \<Longrightarrow> utf16_ok (m_windowTitle (setTitle t g)) \<and>
   length (m_windowTitle (setTitle t g)) \<le> kMaxWindowTitleChars \<and>
   (length t \<le> kMaxWindowTitleChars \<longrightarrow> m_windowTitle (setTitle t g) = t)"
  by (rule title_ok)

theorem title_well_formed_witness:
  "utf16_ok (m_windowTitle (setTitle [0x61, 0xD83D, 0xDE00] grid0))"
  using title_well_formed [of "[0x61, 0xD83D, 0xDE00]" grid0]
  by (simp add: isHighSurrogate_def isLowSurrogate_def)

text \<open>
  One attribute sequence with many parameters is the same as several sequences with the
  parts of it, for every parameter that takes no argument.
\<close>
theorem sgr_sequences_split:
  assumes "list_all plainCode (xs @ ys)" "xs \<noteq> []" "ys \<noteq> []"
  shows "handleSGR (xs @ ys) cs g = handleSGR ys cs' (handleSGR xs cs'' g)"
  using assms by (rule sgr_split)

theorem sgr_sequences_split_witness:
  "handleSGR ([1, 31] @ [7]) [] grid0 = handleSGR [7] [] (handleSGR [1, 31] [] grid0)"
  by (rule sgr_sequences_split) (simp_all add: plainCode_def)

section \<open>What a reset leaves\<close>

text \<open>
  RIS gives a blank screen of the same size in the default colours, with no history,
  images, prompts or title and the cursor at home; the callbacks, the shell key, the history
  caps and the per-minute budgets survive it, so a program cannot reset what limits it.
\<close>
theorem reset_state:
  "grid_wf g \<Longrightarrow>
   m_screenLines (fullReset e g) =
     replicate (nat (m_rows g)) (lineWith (makeRow (m_cols g) (m_defaultFg g) (m_defaultBg g))) \<and>
   (m_scrollback (fullReset e g), m_inlineImages (fullReset e g), m_promptRegions (fullReset e g),
    m_windowTitle (fullReset e g), m_altScreenActive (fullReset e g)) = ([], [], [], [], False) \<and>
   (m_cursorRow (fullReset e g), m_cursorCol (fullReset e g)) = (0, 0) \<and>
   (m_callbacks (fullReset e g), m_osc133Key (fullReset e g), m_quotas (fullReset e g)) =
     (m_callbacks g, m_osc133Key g, m_quotas g) \<and>
   (m_maxScrollback (fullReset e g), m_maxScrollbackMib (fullReset e g)) =
     (m_maxScrollback g, m_maxScrollbackMib g)"
  by (simp add: reset_fields)

theorem reset_state_witness:
  "m_scrollback (fullReset env0 (applyOp (Act env0 None (Print 0x41)) grid0)) = []"
  using reset_state [of "applyOp (Act env0 None (Print 0x41)) grid0" env0] wf_grid0
  by (simp add: wf_processAction)

section \<open>Limits\<close>

text \<open>
  C6. What a program can make the terminal do to the desktop in any interval shorter than a
  minute, whatever it sends and however often it resets: at most 64 clipboard writes of 2 MiB
  together, 20 notifications and 128 user variables.
\<close>
theorem minute_budgets:
  assumes "grid_wf g" "\<forall>x \<in> set xs. a \<le> timeOf x \<and> timeOf x < a + 60000"
  shows "total clipCost (fold actAt xs g) - total clipCost g \<le> 64 \<and>
    total clipBytes (fold actAt xs g) - total clipBytes g \<le> 2 * 1024 * 1024 \<and>
    total noticeCost (fold actAt xs g) - total noticeCost g \<le> 20 \<and>
    total userVarCost (fold actAt xs g) - total userVarCost g \<le> 128"
  using clip_count.spent_bound [OF assms] clip_bytes.spent_bound [OF assms]
    notices.spent_bound [OF assms] user_vars.spent_bound [OF assms]
  by (simp add: OSC52_MAX_WRITES_PER_MIN_def OSC52_MAX_BYTES_PER_MIN_def NOTIFY_MAX_PER_MIN_def
      USERVAR_MAX_WRITES_PER_MIN_def)

definition clipAction :: vt_action where "clipAction = OscEnd ''52;c;QUJD'' False"

theorem minute_budgets_witness:
  "total clipCost (fold actAt (replicate 1000 (env0, None, clipAction)) grid0) - total clipCost grid0 \<le> 64"
  using minute_budgets [OF wf_grid0, of "replicate 1000 (env0, None, clipAction)" 0]
  by (simp add: timeOf_def env0_def)

section \<open>The shell key\<close>

lemma metered_secrets:
  "meteredStep e g h \<Longrightarrow> m_callbacks h = m_callbacks g \<and> m_osc133Key h = m_osc133Key g"
  unfolding meteredStep_def
  by (auto simp: guard_def oscClipboard_def setOsc52_def oscNotify_def takeNotifyQuota_def setNotifyWindow_def
      osc777_def oscUserVar_def setUserVarWindow_def emit_def Let_def split: option.split)

text \<open>
  C26. Nothing a program writes changes the key its shell marks are checked with, or the
  callbacks the terminal makes: not one action, and no sequence of them, resets included.
\<close>
theorem secrets_unchanged:
  "m_osc133Key (fold actAt xs g) = m_osc133Key g \<and> m_callbacks (fold actAt xs g) = m_callbacks g"
proof (induction xs arbitrary: g)
  case (Cons x xs)
  have "m_callbacks (actAt x g) = m_callbacks g \<and> m_osc133Key (actAt x g) = m_osc133Key g"
    using metered_secrets [OF action_metered] by (auto simp: actAt_def bumpRevision_def split: prod.split)
  then show ?case using Cons.IH [of "actAt x g"] by simp
qed simp

text \<open>
  C27. Without the key there is no mark: once a key is set, an OSC 133 sequence that carries no
  \<open>key=value\<close> parameter changes nothing but the forgery counter, its alarm clock and the log
  of callbacks.
\<close>
theorem unsigned_marks_rejected:
  assumes "CHR ''='' \<notin> set rest" "m_osc133Key g \<noteq> []"
  shows "(oscShell e rest g)\<lparr>m_osc133ForgeryCount := m_osc133ForgeryCount g,
      m_osc133LastForgeryNotifyMs := m_osc133LastForgeryNotifyMs g, m_events := m_events g\<rparr> = g"
proof -
  consider "oscShell e rest g = g" | "oscShell e rest g = rejectForgery e g"
    using oscShell_forged [OF shell_unsigned [OF assms]] by blast
  then show ?thesis by cases (simp_all add: rejectForgery_only)
qed

definition keyedGrid :: grid where "keyedGrid = grid0\<lparr>m_osc133Key := [1]\<rparr>"

theorem unsigned_marks_rejected_witness:
  "m_promptRegions (oscShell env0 ''A'' keyedGrid) = m_promptRegions keyedGrid"
  using arg_cong [where f = m_promptRegions, OF unsigned_marks_rejected [of "''A''" keyedGrid env0]]
  by (simp add: keyedGrid_def)

end
