(* ===== verification/GridProps4.thy ===== *)
theory GridProps4
  imports GridProps3
begin

text \<open>
  The properties of the grid, concluded: truncated and undecodable input, the budgets of the
  image protocols, and the three places where a limit does not do what its comment says.
\<close>

section \<open>Input that is refused\<close>

text \<open>
  What the parser had to truncate is refused: a control sequence with too many parameters
  only clears the pending wrap, and a cut device, application, clipboard or hyperlink string
  leaves everything but the revision counter as it was.
\<close>
theorem truncated_refused:
  "processAction e pre (CsiDispatch fc ps cs im True) g = (bumpRevision g)\<lparr>m_wrapNext := False\<rparr> \<and>
   processAction e pre (DcsEnd s True) g = bumpRevision g \<and>
   processAction e pre (ApcEnd s True) g = bumpRevision g \<and>
   processAction e pre (OscEnd (''8;'' @ s) True) g = bumpRevision g \<and>
   processAction e pre (OscEnd (''52;'' @ s) True) g = bumpRevision g"
  using truncated_osc [of "''8''"] truncated_osc [of "''52''"]
  by (simp add: truncated_csi truncated_strings)

text \<open>
  A graphics frame that does not decode is answered and stores nothing: placed images,
  the cache, its eviction order and the image budget are unchanged.
\<close>
theorem undecodable_stores_nothing:
  assumes "fst (kittyDecode e pre keys (keyInt keys CHR ''f'' 32) full g) = None"
    "keyChar keys CHR ''a'' CHR ''T'' \<notin> {CHR ''d'', CHR ''q'', CHR ''p''}"
  shows "imageStore (kittyFrame e pre keys i full g) = imageStore g"
proof -
  obtain h where h: "kittyDecode e pre keys (keyInt keys CHR ''f'' 32) full g = (None, h)"
    using assms(1) by (metis prod.collapse)
  then show ?thesis
    using decode_store [of e pre keys "keyInt keys CHR ''f'' 32" full g] kitty_undecodable [OF h assms(2)]
    by simp
qed

theorem undecodable_stores_nothing_witness:
  "imageStore (kittyFrame env0 None [] 7 ''AAAA'' grid0) = imageStore grid0"
  by (rule undecodable_stores_nothing)
    (simp_all add: kittyDecode_def keyInt_def keyChar_def kMaxKittyB64Bytes_def decodeRaw_def
      ownOption_def Let_def)

section \<open>Work and memory\<close>

text \<open>
  The Sixel render loop does bounded work: an image that is drawn took at most
  \<open>kSixelColumnCeiling\<close> column writes, and at most 256 per column of each band.
\<close>
theorem sixel_work_bounded:
  "sixelRender w h (maxColumnSteps w h) s sixelPen0 = Some p \<Longrightarrow> 0 < w \<Longrightarrow> 0 < h \<Longrightarrow>
   columnSteps p \<le> kSixelColumnCeiling \<and> columnSteps p \<le> w * ((h + 5) div 6) * 256"
  by (rule render_budget)

theorem sixel_work_bounded_witness:
  "\<exists>p. sixelRender 2 6 (maxColumnSteps 2 6) ''~~'' sixelPen0 = Some p \<and> columnSteps p \<le> 512"
proof -
  have "\<exists>p. sixelRender 2 6 (maxColumnSteps 2 6) ''~~'' sixelPen0 = Some p"
    by (simp add: render_cases isSixel_def maxColumnSteps_def kSixelColumnCeiling_def sixelPen0_def)
  then obtain p where p: "sixelRender 2 6 (maxColumnSteps 2 6) ''~~'' sixelPen0 = Some p" by blast
  then show ?thesis using sixel_work_bounded [OF p] by simp
qed

lemma evictKitty_short:
  "length (m_kittyImages g) < MAX_KITTY_CACHE \<Longrightarrow> evictKitty order g = g\<lparr>m_kittyImageOrder := order\<rparr>"
  by (cases order) simp_all

lemma store_budget:
  assumes "map_of (m_kittyImages g) i = None" "length (m_kittyImages g) < MAX_KITTY_CACHE"
  shows "m_imageBudget (storeKitty i img g) = m_imageBudget g + imageByteCost img"
    "m_inlineImages (storeKitty i img g) = m_inlineImages g"
  using assms by (simp_all add: storeKitty_def evictKitty_short budgetAdd_def kittyErase_def Let_def)

text \<open>
  The budget can be overdrawn, and then nothing is refused any more: a frame that is both
  cached and shown is checked once and charged twice, and past the cap the subtraction in
  \<open>canFit\<close> wraps, so every image of up to \<open>2 ^ 62\<close> bytes passes.
\<close>
theorem image_budget_overdrawn:
  assumes "kittyDecode e pre keys (keyInt keys CHR ''f'' 32) full g = (Some img, h)"
    "keyChar keys CHR ''a'' CHR ''T'' = CHR ''T''" "0 < i" "map_of (m_kittyImages g) i = None"
    "length (m_kittyImages g) < MAX_KITTY_CACHE" "length (m_inlineImages g) < MAX_INLINE_IMAGES"
    "m_imageBudget g \<le> MAX_IMAGE_BYTES" "imageByteCost img \<le> MAX_IMAGE_BYTES"
    "MAX_IMAGE_BYTES < m_imageBudget g + 2 * imageByteCost img" "b \<le> 2 ^ 62"
  shows "canFit (m_imageBudget (kittyFrame e pre keys i full g)) b"
proof -
  have s: "imageStore h = imageStore g" using decode_store [of e pre keys "keyInt keys CHR ''f'' 32" full g]
    assms(1) by simp
  let ?k = "storeKitty i img h"
  have h: "m_imageBudget ?k = m_imageBudget g + imageByteCost img" "m_inlineImages ?k = m_inlineImages g"
    using s assms(4,5) by (simp_all add: store_budget imageStore_def)
  have "imageStore (kittyFrame e pre keys i full g) = imageStore (kittyDisplay keys CHR ''T'' i (Some img) ?k)"
    using assms(1-3) by (simp add: kittyFrame_def Let_def)
  moreover have "m_imageBudget (kittyDisplay keys CHR ''T'' i (Some img) ?k) =
      m_imageBudget g + 2 * imageByteCost img"
    using h assms(6) by (simp add: kittyDisplay_def placeInlineImage_def budgetAdd_def kittyPlacement_def Let_def)
  ultimately have f: "m_imageBudget (kittyFrame e pre keys i full g) = m_imageBudget g + 2 * imageByteCost img"
    by (simp add: imageStore_def)
  have "unat (m_imageBudget g) \<le> 2 ^ 28" "unat (imageByteCost img) \<le> 2 ^ 28"
    using assms(7,8) by (simp_all add: MAX_IMAGE_BYTES_def word_le_nat_alt)
  then have "unat (m_imageBudget g + 2 * imageByteCost img) \<le> 2 ^ 62"
    by (simp add: unat_word_ariths)
  then have "m_imageBudget g + 2 * imageByteCost img \<le> 2 ^ 62" by (simp add: word_le_nat_alt)
  then show ?thesis unfolding f using assms(9,10) by (intro canFit_wraps)
qed

definition bigImage :: qimage where
  "bigImage = \<lparr>bufferId = GridBuffer 0, imgWidth = 4096, imgHeight = 4096, imgBytes = 0x4000000,
     imgPixel = (\<lambda>_ _. 0)\<rparr>"

definition imageEnv :: env where
  "imageEnv = env0\<lparr>e_base64Strict := (\<lambda>_. Some ''x''), e_loadFromData := (\<lambda>_ _. Some bigImage)\<rparr>"

theorem image_budget_overdrawn_witness:
  "canFit (m_imageBudget (kittyFrame imageEnv None [(CHR ''f'', ''100'')] 7 ''AAAA''
     (grid0\<lparr>m_imageBudget := 0xC000000\<rparr>))) (2 ^ 40)"
proof -
  let ?g = "grid0\<lparr>m_imageBudget := 0xC000000\<rparr>"
  have "keyInt [(CHR ''f'', ''100'')] CHR ''f'' 32 = 100" by (simp add: keyInt_def) code_simp
  then have d: "\<exists>h. kittyDecode imageEnv None [(CHR ''f'', ''100'')]
      (keyInt [(CHR ''f'', ''100'')] CHR ''f'' 32) ''AAAA'' ?g = (Some (fst (ownImage bigImage ?g)), h)"
    by (simp add: kittyDecode_def kMaxKittyB64Bytes_def decodePng_def prematch_def decodeBytes_def
        decodeBase64Strict_def imageEnv_def env0_def bigImage_def MAX_IMAGE_DIM_def ownOption_def ownImage_def
        canFit_def MAX_IMAGE_BYTES_def imageByteCost_def)
  have e: "m_kittyImages grid0 = []" "m_inlineImages grid0 = []"
    by (simp_all add: grid0_def TerminalGrid_def grid_members_def initTabStops_def Let_def)
  obtain h where h: "kittyDecode imageEnv None [(CHR ''f'', ''100'')]
      (keyInt [(CHR ''f'', ''100'')] CHR ''f'' 32) ''AAAA'' ?g = (Some (fst (ownImage bigImage ?g)), h)"
    using d by blast
  show ?thesis
    by (rule image_budget_overdrawn [OF h])
      (simp_all add: keyChar_def e MAX_KITTY_CACHE_def MAX_INLINE_IMAGES_def MAX_IMAGE_BYTES_def
        imageByteCost_def ownImage_def bigImage_def)
qed

section \<open>Replies and resets\<close>

text \<open>
  The cap on query replies is not a bound on what the terminal writes back: each round of
  a reset and a device query gets its reply, any number of them at one instant, since the
  reset gives back the budget of the second.
\<close>
theorem reset_refills_replies:
  assumes "grid_wf g" "cb_response (m_callbacks g)"
  shows "total replyCost (runActions (concat (replicate n [(e, None, risAction), (e, None, daAction)])) g) =
    total replyCost g + int n"
  using assms
proof (induction n arbitrary: g)
  case (Suc n)
  let ?h = "runActions [(e, None, risAction), (e, None, daAction)] g"
  have "total replyCost (runActions (concat (replicate n [(e, None, risAction), (e, None, daAction)])) ?h)
      = total replyCost ?h + int n"
    using ris_then_query [OF Suc.prems, of e] by (intro Suc.IH wf_runActions Suc.prems) simp
  then show ?case using ris_then_query [OF Suc.prems, of e] by (simp add: runActions_def)
qed (simp add: runActions_def)

definition answering :: grid where
  "answering = setCallbacks (callbacks0\<lparr>cb_response := True\<rparr>) grid0"

theorem reset_refills_replies_witness:
  "total replyCost (runActions (concat (replicate 1000 [(env0, None, risAction), (env0, None, daAction)])) answering)
     = total replyCost answering + 1000"
  using reset_refills_replies [of answering 1000 env0] wf_grid0
  by (simp add: answering_def wf_flags) (simp add: setCallbacks_def)

section \<open>Sixel colours\<close>

text \<open>
  The two passes over a Sixel body disagree: after a colour selection without a
  definition the sizing pass counts the sixel that follows, while the render pass reads past
  it, so that sixel is never drawn although the image has a column for it.
\<close>
theorem sixel_lost_after_select:
  assumes "dropWhile isDigit cs = d # ds" "isSixel d"
  shows "sixelSize (CHR ''#'' # cs) z =
      sixelSize ds (z\<lparr>sx := sx z + 1, sMaxX := max (sMaxX z) (sx z + 1)\<rparr>) \<and>
    sixelRender w h m (CHR ''#'' # cs) p = sixelRender w h m ds (p\<lparr>penColor := nat (cappedNumber 255 cs)\<rparr>)"
proof -
  have "d \<noteq> CHR '';''" using assms(2) by (auto simp: isSixel_def)
  then show ?thesis using size_select [OF assms] render_cases(9) [OF assms(1)] by simp
qed

theorem sixel_lost_after_select_witness:
  "sixelRender 1 6 256 ''#2~'' sixelPen0 = Some (sixelPen0\<lparr>penColor := 2\<rparr>) \<and>
   fst (sixelDims ''#2~'') = 1"
proof -
  have d: "dropWhile isDigit ''2~'' = [CHR ''~'']" "isSixel CHR ''~''" "cappedNumber 255 ''2~'' = 2"
    by code_simp+
  show ?thesis
    using sixel_lost_after_select [OF d(1,2), of "\<lparr>sx = 0, sy = 0, sMaxX = 0, sHeight = 0\<rparr>" 1 6 256 sixelPen0]
    by (simp add: d(3) sixelDims_def render_cases sixelSize.simps [of "[]"])
qed

end
