(* ===== verification/StreamProps.thy ===== *)
theory StreamProps
  imports VtStreamFlow GridProps4
begin

text \<open>
  The properties of the pseudo-terminal and the parse worker, and of the whole pipeline from
  the bytes read to the grid.
\<close>

section \<open>From bytes to the grid\<close>

lemma pendingPairs_empty: "\<not> hasPending s \<Longrightarrow> pendingPairs s = []"
proof -
  assume "\<not> hasPending s"
  then have "resolved (m_pending s) = []" by (metis builderEmpty_def hasPending_def length_0_conv length_resolved)
  then show ?thesis by (simp add: pendingPairs_def)
qed

text \<open>
  C1. The worker delivers the single-threaded parse: after any run of its event loop, the
  actions of the batches sent and of the one being filled, with their images, are those the
  parser and the predecoder give for the buffers read, and up to the coalescing of runs those
  of one parse of all their bytes; the raw bytes add up; and once nothing is pending, the grid
  to which the consumer has applied the batches is the one the direct parse leaves.
\<close>
theorem worker_delivers_parse:
  assumes "worker fd pid evs s" "list_all (goodEvent e arch) evs"
  shows "delivered s @ pendingPairs s =
      fst (predecodeAll e (fst (feedChunks arch (dataIn s) vt_init)) predecoder0) \<and>
    expand (map snd (delivered s @ pendingPairs s)) = expand (fst (feed arch (concat (dataIn s)) vt_init)) \<and>
    concat (map rawBytes (batchesOut s)) @ m_raw (m_pending s) = concat (dataIn s) \<and>
    (\<not> hasPending s \<longrightarrow> applyBatches e' (batchesOut s) g =
      runActions (map (\<lambda>(pre, a). (e', pre, a))
        (fst (predecodeAll e (fst (feedChunks arch (dataIn s) vt_init)) predecoder0))) g)"
proof -
  have f: "faithful e arch s" by (rule worker_faithful [OF assms])
  let ?d = "fst (predecodeAll e (fst (feedChunks arch (dataIn s) vt_init)) predecoder0)"
  have d: "delivered s @ pendingPairs s = ?d" using f by (auto simp: faithful_def dest: arg_cong [where f = fst])
  have "map snd ?d = fst (feedChunks arch (dataIn s) vt_init)" by (rule predecodeAll_actions)
  then have x: "expand (map snd (delivered s @ pendingPairs s)) = expand (fst (feed arch (concat (dataIn s)) vt_init))"
    using feedChunks_feedAll by (simp only: d feed_output)
  have "applyBatches e' (batchesOut s) g = runActions (map (\<lambda>(pre, a). (e', pre, a)) ?d) g" if "\<not> hasPending s"
    using d pendingPairs_empty [OF that] by (simp add: applyBatches_run delivered_def)
  moreover have "concat (map rawBytes (batchesOut s)) @ m_raw (m_pending s) = concat (dataIn s)"
    using f by (simp add: faithful_def)
  ultimately show ?thesis using d x by blast
qed

definition w0 :: worker_env where
  "w0 = \<lparr>w_env = env0, w_elapsed = 5, w_arch = SSE2, w_base = 0x1000\<rparr>"

definition read0 :: worker_event where
  "read0 = Readable w0 100 None [Got [0x41, 0x42, 0x0A], Got [0x43], NothingNow]"

lemma read0: "goodEvent env0 SSE2 read0" "worker 3 100 [read0] (workerStep read0 (stream0 3 100))"
proof -
  show "goodEvent env0 SSE2 read0" by (simp add: read0_def w0_def fitsAt_def kReadSize_def sgrReset_def)
  have "eventEnabled read0 (stream0 3 100)" by (simp add: read0_def stream0_def pty_open_def)
  then show "worker 3 100 [read0] (workerStep read0 (stream0 3 100))"
    using worker.Event [OF worker.Spawned] by fastforce
qed

theorem worker_delivers_parse_witness:
  "concat (map rawBytes (batchesOut (workerStep read0 (stream0 3 100)))) @
     m_raw (m_pending (workerStep read0 (stream0 3 100))) = concat (dataIn (workerStep read0 (stream0 3 100)))"
  using worker_delivers_parse [OF read0(2), of env0 SSE2 env0 grid0] read0(1) by simp

text \<open>
  C13. Back-pressure: the counter of batches in flight is the number of batches sent less the
  acknowledgements that arrived for one, but for the last batch, which the end of file sends
  uncounted; so however fast the shell writes, never more than eight batches, nine after the
  end of file, are unacknowledged. Reads are paused only at eight, the read notifier is off exactly
  while they are paused or after the end of file, what is pending is either scheduled for a
  flush or waits for an acknowledgement, and no batch holds more than \<open>maxBatchBytes\<close> bytes.
\<close>
theorem backpressure:
  assumes "worker fd pid evs s" "list_all (goodEvent e arch) evs"
  shows "0 \<le> m_inFlightBatches s \<and> m_inFlightBatches s \<le> kMaxInFlight \<and>
    (let uncounted = int (length (batchesOut s)) - int (ackedIn evs (stream0 fd pid)) - m_inFlightBatches s
     in uncounted = 0 \<or> uncounted = 1 \<and> m_readEof (m_pty s)) \<and>
    ackedIn evs (stream0 fd pid) \<le> length (filter isAck evs) \<and>
    (m_readPaused s \<longrightarrow> m_inFlightBatches s = kMaxInFlight) \<and>
    m_readNotifier (m_pty s) = Some (\<not> m_readPaused s \<and> \<not> m_readEof (m_pty s)) \<and>
    (hasPending s \<longrightarrow> m_flushScheduled s \<or> m_readPaused s) \<and>
    (\<forall>b \<in> set (batchesOut s). length (rawBytes b) \<le> maxBatchBytes)"
  using worker_settled [OF assms] worker_counted [OF assms] ackedIn_le [of evs]
  by (simp add: settled_def flow_core_def list_all_iff counted_def spare_def Let_def)

theorem backpressure_witness:
  "m_inFlightBatches (workerStep read0 (stream0 3 100)) \<le> 8"
  using backpressure [OF read0(2), of env0 SSE2] read0(1) by (simp add: kMaxInFlight_def del: ackedIn.simps)

text \<open>
  C23. Everything read is delivered: from any state of the worker, at most one acknowledgement and
  one run of the flush timer, with no further read, leave nothing pending, and the batches
  are the parse of every buffer read.
\<close>
theorem ack_delivers_all:
  assumes "worker fd pid evs s" "list_all (goodEvent e arch) evs"
  shows "\<exists>rest s'. worker fd pid (evs @ rest) s' \<and> rest \<in> {[], [Ack t], [Ack t, FlushTimer t]} \<and>
    dataIn s' = dataIn s \<and> \<not> hasPending s' \<and>
    delivered s' = fst (predecodeAll e (fst (feedChunks arch (dataIn s) vt_init)) predecoder0)"
proof -
  obtain rest s' where r: "worker fd pid (evs @ rest) s'" "rest \<in> {[], [Ack t], [Ack t, FlushTimer t]}" "\<not> hasPending s'"
    "dataIn s' = dataIn s"
    using ack_and_turn [OF assms(1) worker_settled [OF assms]] by blast
  have "list_all (goodEvent e arch) (evs @ rest)" using assms(2) r(2) by (auto simp: list_all_iff)
  then have f: "faithful e arch s'" using worker_faithful [OF r(1)] by blast
  have "delivered s' = fst (predecodeAll e (fst (feedChunks arch (dataIn s) vt_init)) predecoder0)"
    using f r(4) pendingPairs_empty [OF r(3)] by (auto simp: faithful_def dest: arg_cong [where f = fst])
  then show ?thesis using r by blast
qed

theorem ack_delivers_all_witness:
  "\<exists>rest s'. worker 3 100 ([read0] @ rest) s' \<and> \<not> hasPending s' \<and>
     dataIn s' = dataIn (workerStep read0 (stream0 3 100))"
  using ack_delivers_all [OF read0(2), of env0 SSE2 9] read0(1) by auto

section \<open>To the shell\<close>

lemma stream0_typed: "typed (stream0 fd pid) = []" "lostOut (stream0 fd pid) = []"
  by (simp_all add: stream0_def pty_open_def typed_def sentBytes_def pasteLeft_def)

text \<open>
  C4. Keystrokes, replies and pastes reach the shell in the order they were written: while no
  loss was reported, what the kernel has taken, the queue and the rest of a paste are together
  exactly the bytes written; after a loss they are still a subsequence of them, so nothing is
  reordered, doubled or made up; the queue is within its cap, and whatever waits has its
  wake-up armed.
\<close>
theorem writes_in_order:
  assumes "worker fd pid evs s" "0 \<le> fd"
  shows "(lostOut s = [] \<longrightarrow>
      toKernel (m_pty s) @ m_pendingWrite (m_pty s) @ pasteLeft s = concat (map writtenBytes evs)) \<and>
    subseq (toKernel (m_pty s) @ m_pendingWrite (m_pty s) @ pasteLeft s) (concat (map writtenBytes evs)) \<and>
    int (length (m_pendingWrite (m_pty s))) \<le> MAX_PENDING_WRITE_BYTES \<and>
    (m_pendingWrite (m_pty s) \<noteq> [] \<or> pasteLeft s \<noteq> [] \<longrightarrow> m_writeNotifier (m_pty s) = Some True)"
  using worker_typed [OF assms] stream0_typed [of fd pid]
  by (auto simp: wrote_def typed_def sentBytes_def paste_ok_def queue_ok_def)

definition typing :: "worker_event list" where
  "typing = [Write [0x6C, 0x73], Paste [0x2D, 0x6C], Write [0x0D]]"

lemma worker_enabled:
  "worker fd pid evs s \<Longrightarrow> \<forall>ev \<in> set rest. \<forall>x. eventEnabled ev x \<Longrightarrow>
   worker fd pid (evs @ rest) (fold workerStep rest s)"
proof (induction rest arbitrary: evs s)
  case (Cons ev rest)
  have "worker fd pid (evs @ [ev]) (workerStep ev s)" using Cons.prems by (intro worker.Event) simp_all
  then show ?case using Cons.IH [of "evs @ [ev]" "workerStep ev s"] Cons.prems(2) by simp
qed simp

lemma worker_typing: "worker 3 100 typing (fold workerStep typing (stream0 3 100))"
proof -
  have "\<forall>ev \<in> set typing. \<forall>x. eventEnabled ev x"
    unfolding typing_def by (intro ballI allI) auto
  from worker_enabled [OF worker.Spawned this] show ?thesis by (simp only: append_Nil)
qed

theorem writes_in_order_witness:
  "subseq (toKernel (m_pty (fold workerStep typing (stream0 3 100))) @
       m_pendingWrite (m_pty (fold workerStep typing (stream0 3 100))) @ pasteLeft (fold workerStep typing (stream0 3 100)))
     [0x6C, 0x73, 0x2D, 0x6C, 0x0D]"
  using writes_in_order [OF worker_typing] by (simp add: typing_def)

text \<open>
  C29. A paste of any size gets through: from any state of the worker there is a script of
  kernel answers after which the queue and the paste are out in full, without a loss, by the
  write notifier alone.
\<close>
theorem writes_finish:
  assumes "worker fd pid evs s" "0 \<le> fd"
  shows "\<exists>answers rest s'. worker fd pid (evs @ rest) s' \<and> set rest \<subseteq> {KernelWill answers, Writable} \<and>
    lostOut s' = lostOut s \<and> m_pendingWrite (m_pty s') = [] \<and> pasteLeft s' = [] \<and>
    (lostOut s = [] \<longrightarrow> toKernel (m_pty s') = concat (map writtenBytes evs))"
proof -
  obtain answers rest s' where r: "worker fd pid (evs @ rest) s'" "set rest \<subseteq> {KernelWill answers, Writable}"
    "toKernel (m_pty s') = typed s'" "lostOut s' = lostOut s"
    using willing_finishes [of s fd pid evs] worker_typed [OF assms] assms(1) by blast
  have "\<forall>ev \<in> set rest. writtenBytes ev = []" using r(2) by (auto simp: subset_iff)
  then have "concat (map writtenBytes (evs @ rest)) = concat (map writtenBytes evs)" by simp
  then have "wrote (stream0 fd pid) (concat (map writtenBytes evs)) s'"
    using worker_typed [OF r(1) assms(2)] by (simp only:)
  then have "lostOut s = [] \<longrightarrow> typed s' = concat (map writtenBytes evs)"
    using r(4) stream0_typed by (auto simp: wrote_def)
  moreover have "m_pendingWrite (m_pty s') = [] \<and> pasteLeft s' = []"
    using r(3) unfolding typed_def sentBytes_def by simp
  ultimately show ?thesis using r(1,2,4) r(3) by metis
qed

theorem writes_finish_witness:
  "\<exists>answers rest s'. worker 3 100 (typing @ rest) s' \<and> set rest \<subseteq> {KernelWill answers, Writable} \<and>
     m_pendingWrite (m_pty s') = [] \<and> pasteLeft s' = []"
  using writes_finish [OF worker_typing] by simp blast

section \<open>Images decoded ahead\<close>

text \<open>
  An image the worker decoded is used only where it is the image: if it matches the data
  the grid holds, and no other string of that length has its hash, it is what the grid would
  decode from that data itself.
\<close>
theorem predecoded_same:
  assumes "onAction e a p = (Some im, p')" "prematch e (Some im) b64 = Some img"
    "\<forall>x. length x = length b64 \<longrightarrow> e_hash e x = e_hash e b64 \<longrightarrow> x = b64"
  shows "img = decodeBytes e (decodeBase64Strict e b64)
    (case a of ApcEnd x y \<Rightarrow> Some ''PNG'' | _ \<Rightarrow> None) kMaxImageDim"
proof -
  have "\<exists>src. im = predecoded e src (decodeBytes e (decodeBase64Strict e src)
      (case a of ApcEnd x y \<Rightarrow> Some ''PNG'' | _ \<Rightarrow> None) kMaxImageDim)"
    using assms(1) by (cases a) (auto simp: onAction_def onApc_def Let_def split: if_splits option.splits)
  then obtain src where im: "im = predecoded e src (decodeBytes e (decodeBase64Strict e src)
      (case a of ApcEnd x y \<Rightarrow> Some ''PNG'' | _ \<Rightarrow> None) kMaxImageDim)" ..
  have m: "matches e im b64" "img = preImage im" using assms(2) by (auto simp: prematch_def split: if_splits)
  then have "src = b64" using assms(3) by (simp add: im matches_def predecoded_def)
  then show ?thesis using m(2) by (simp add: im predecoded_def)
qed

definition hashEnv :: env where
  "hashEnv = imageEnv\<lparr>e_hash := (\<lambda>s. if s = ''QUJD'' then 1 else 0)\<rparr>"

theorem predecoded_same_witness:
  "\<exists>im p. onAction hashEnv (OscEnd ''1337;File=inline=1:QUJD'' False) predecoder0 = (Some im, p) \<and>
     preImage im = decodeBytes hashEnv (decodeBase64Strict hashEnv ''QUJD'') None kMaxImageDim"
proof -
  have "splitITerm2 ''1337;File=inline=1:QUJD'' = Some (''File=inline=1'', ''QUJD'')" by code_simp
  then obtain im p where o: "onAction hashEnv (OscEnd ''1337;File=inline=1:QUJD'' False) predecoder0 = (Some im, p)"
    "prematch hashEnv (Some im) ''QUJD'' = Some (preImage im)"
    by (simp add: onAction_def kMaxInlineImageB64Bytes_def prematch_def matches_def predecoded_def)
  have "\<forall>x. length x = length ''QUJD'' \<longrightarrow> e_hash hashEnv x = e_hash hashEnv ''QUJD'' \<longrightarrow> x = ''QUJD''"
    by (simp add: hashEnv_def)
  from predecoded_same [OF o this] show ?thesis using o(1) by auto
qed

section \<open>The child's environment\<close>

lemma sameKey_prefix: "CHR ''='' \<in> set k \<Longrightarrow> sameKey x (k @ v) = sameKey x k"
proof (induction k arbitrary: x)
  case (Cons a k)
  then show ?case by (cases x) auto
qed simp

lemma version_key: "sameKey x (''TERM_PROGRAM_VERSION='' @ v) = sameKey x ''TERM_PROGRAM_VERSION=''"
  by (rule sameKey_prefix) simp

lemma term_entries:
  "drop kEnvFlagLen ''--env=TERM=xterm-256color'' = ''TERM=xterm-256color''"
  "drop kEnvFlagLen ''--env=COLORTERM=truecolor'' = ''COLORTERM=truecolor''"
  "drop kEnvFlagLen ''--env=TERM_PROGRAM=AntsTerminal'' = ''TERM_PROGRAM=AntsTerminal''"
  "drop kEnvFlagLen ''--env=COLORFGBG=15;0'' = ''COLORFGBG=15;0''"
  by (simp_all add: kEnvFlagLen_def)

text \<open>What the terminal adds, against the keys it drops.\<close>

definition addedEntries :: "string \<Rightarrow> string list" where
  "addedEntries v = map (drop kEnvFlagLen) kTermOverrides @ [''TERM_PROGRAM_VERSION='' @ v]"

lemma childEnvp: "buildChildEnvp (''TERM_PROGRAM_VERSION='' @ v) environ =
   filter (\<lambda>x. \<not> dropEntry (''TERM_PROGRAM_VERSION='' @ v) x) environ @ addedEntries v"
  by (simp add: buildChildEnvp_def addedEntries_def)

lemma kept_keys:
  assumes "\<And>x. sameKey x k \<Longrightarrow> dropEntry (''TERM_PROGRAM_VERSION='' @ v) x"
  shows "filter (\<lambda>x. sameKey x k) (buildChildEnvp (''TERM_PROGRAM_VERSION='' @ v) environ) =
    filter (\<lambda>x. sameKey x k) (addedEntries v)"
proof -
  have "filter (\<lambda>x. sameKey x k) (filter (\<lambda>x. \<not> dropEntry (''TERM_PROGRAM_VERSION='' @ v) x) environ) = []"
    using assms by (auto simp: filter_empty_conv)
  then show ?thesis by (simp only: childEnvp filter_append append_Nil)
qed

lemma added_term: "ov \<in> set kTermOverrides \<Longrightarrow>
  filter (\<lambda>x. sameKey x (drop kEnvFlagLen ov)) (addedEntries v) = [drop kEnvFlagLen ov]"
  by (auto simp: kTermOverrides_def addedEntries_def term_entries)

lemma added_version: "filter (\<lambda>x. sameKey x ''TERM_PROGRAM_VERSION='') (addedEntries v) = [''TERM_PROGRAM_VERSION='' @ v]"
  by (simp add: kTermOverrides_def addedEntries_def term_entries)

lemma added_claude: "k \<in> set kClaudeIdentityKeys \<Longrightarrow> filter (\<lambda>x. sameKey x k) (addedEntries v) = []"
  by (auto simp: kTermOverrides_def kClaudeIdentityKeys_def addedEntries_def term_entries)

lemma added_dropped: "filter (\<lambda>x. \<not> dropEntry (''TERM_PROGRAM_VERSION='' @ v) x) (addedEntries v) = []"
  unfolding dropEntry_def version_key by (simp add: kTermOverrides_def addedEntries_def term_entries)

text \<open>
  The shell sees each variable of the TERM family once, with this terminal's value, and
  no session identity of the program that started the terminal; every other variable of the
  environment is passed on as it is, in order.
\<close>
theorem child_environment:
  "(\<forall>ov \<in> set kTermOverrides. filter (\<lambda>x. sameKey x (drop kEnvFlagLen ov))
      (buildChildEnvp (''TERM_PROGRAM_VERSION='' @ v) environ) = [drop kEnvFlagLen ov]) \<and>
   filter (\<lambda>x. sameKey x ''TERM_PROGRAM_VERSION='') (buildChildEnvp (''TERM_PROGRAM_VERSION='' @ v) environ) =
     [''TERM_PROGRAM_VERSION='' @ v] \<and>
   (\<forall>k \<in> set kClaudeIdentityKeys. filter (\<lambda>x. sameKey x k)
      (buildChildEnvp (''TERM_PROGRAM_VERSION='' @ v) environ) = []) \<and>
   filter (\<lambda>x. \<not> dropEntry (''TERM_PROGRAM_VERSION='' @ v) x)
     (buildChildEnvp (''TERM_PROGRAM_VERSION='' @ v) environ) =
     filter (\<lambda>x. \<not> dropEntry (''TERM_PROGRAM_VERSION='' @ v) x) environ"
proof (intro conjI ballI)
  fix ov assume ov: "ov \<in> set kTermOverrides"
  have "filter (\<lambda>x. sameKey x (drop kEnvFlagLen ov)) (buildChildEnvp (''TERM_PROGRAM_VERSION='' @ v) environ) =
      filter (\<lambda>x. sameKey x (drop kEnvFlagLen ov)) (addedEntries v)"
    using ov by (intro kept_keys) (auto simp: dropEntry_def list_ex_iff)
  then show "filter (\<lambda>x. sameKey x (drop kEnvFlagLen ov))
      (buildChildEnvp (''TERM_PROGRAM_VERSION='' @ v) environ) = [drop kEnvFlagLen ov]"
    by (simp only: added_term [OF ov])
next
  show "filter (\<lambda>x. sameKey x ''TERM_PROGRAM_VERSION='')
      (buildChildEnvp (''TERM_PROGRAM_VERSION='' @ v) environ) = [''TERM_PROGRAM_VERSION='' @ v]"
    unfolding added_version [symmetric] by (rule kept_keys) (simp only: dropEntry_def version_key simp_thms)
next
  fix k assume k: "k \<in> set kClaudeIdentityKeys"
  have "filter (\<lambda>x. sameKey x k) (buildChildEnvp (''TERM_PROGRAM_VERSION='' @ v) environ) =
      filter (\<lambda>x. sameKey x k) (addedEntries v)"
    using k by (intro kept_keys) (auto simp: dropEntry_def list_ex_iff)
  then show "filter (\<lambda>x. sameKey x k) (buildChildEnvp (''TERM_PROGRAM_VERSION='' @ v) environ) = []"
    by (simp only: added_claude [OF k])
next
  show "filter (\<lambda>x. \<not> dropEntry (''TERM_PROGRAM_VERSION='' @ v) x)
      (buildChildEnvp (''TERM_PROGRAM_VERSION='' @ v) environ) =
      filter (\<lambda>x. \<not> dropEntry (''TERM_PROGRAM_VERSION='' @ v) x) environ"
    by (simp only: childEnvp filter_append added_dropped filter_filter conj_absorb append_Nil2)
qed

theorem child_environment_witness:
  "filter (\<lambda>x. sameKey x ''TERM=xterm-256color'')
     (buildChildEnvp (''TERM_PROGRAM_VERSION='' @ ''0.7'') [''TERM=dumb'', ''HOME=/root'', ''CLAUDE_PID=7'']) =
     [''TERM=xterm-256color'']"
  using child_environment [of "''0.7''" "[''TERM=dumb'', ''HOME=/root'', ''CLAUDE_PID=7'']"]
  by (simp add: kTermOverrides_def term_entries)

end
