(* ===== verification/SessionCodec.thy ===== *)
theory SessionCodec
  imports GridRun "HOL-Library.Monad_Syntax"
begin

text \<open>
  The byte stream of a saved session (\<open>src/src/sessionmanager.cpp\<close>): cells, combining
  characters and lines, each with the function that writes it and the function that reads it.
  A reader takes the bytes left and returns the value and the bytes after it, or \<open>None\<close> where
  the source refuses the file. A contract of writers and readers (\<open>codec\<close>) carries the round
  trip from one record to a list of them.
\<close>

section \<open>Readers and writers\<close>

type_synonym bytes = "u8 list"
type_synonym 'a reader = "bytes \<Rightarrow> ('a \<times> bytes) option"

text \<open>The \<open>for\<close> loops that read a counted list.\<close>

fun readMany :: "'a reader \<Rightarrow> nat \<Rightarrow> 'a list reader" where
  "readMany rd 0 s = Some ([], s)"
| "readMany rd (Suc n) s =
     do { (x, s) \<leftarrow> rd s; (xs, s) \<leftarrow> readMany rd n s; Some (x # xs, s) }"

lemma readMany_Some:
  "readMany rd n s = Some (xs, r) \<Longrightarrow> (\<And>s x r. rd s = Some (x, r) \<Longrightarrow> P x) \<Longrightarrow>
   length xs = n \<and> list_all P xs"
  by (induction n arbitrary: s xs r) (auto simp: bind_eq_Some_conv)

text \<open>
  What is written by \<open>put\<close> is read by \<open>rd\<close> as its normal form, whatever follows it, and has
  the size \<open>size_of\<close> gives.
\<close>

locale codec =
  fixes put :: "'a \<Rightarrow> bytes" and rd :: "'b reader" and good :: "'a \<Rightarrow> bool" and norm :: "'a \<Rightarrow> 'b"
  assumes rd_put: "good x \<Longrightarrow> rd (put x @ r) = Some (norm x, r)"
begin

lemma rd_put_nil: "good x \<Longrightarrow> rd (put x) = Some (norm x, [])"
  using rd_put [of x "[]"] by simp

lemma readMany_put:
  "list_all good xs \<Longrightarrow> readMany rd (length xs) (concat (map put xs) @ r) = Some (map norm xs, r)"
  by (induction xs) (simp_all add: rd_put)

end

locale sized_codec = codec +
  fixes size_of :: "'a \<Rightarrow> int"
  assumes size_put: "good x \<Longrightarrow> int (length (put x)) = size_of x"
begin

lemma size_concat:
  "list_all good xs \<Longrightarrow> int (length (concat (map put xs))) = sum_list (map size_of xs)"
  by (induction xs) (simp_all add: size_put)

end

section \<open>The data stream\<close>

text \<open>
  \<open>QDataStream\<close> at version \<open>Qt_6_0\<close> is a parameter: what it writes for an unsigned word, a
  byte, a bool and a string, and how it reads them back. What the source relies on is the
  documented format: a reader undoes its writer, a word takes four bytes, a byte and a bool
  one, and a string four bytes and two for each UTF-16 unit. A read that fails leaves the stream's status
  bad for good, and the source refuses the file at its next check of the status.
\<close>

record qds =
  putU32 :: "u32 \<Rightarrow> bytes"
  getU32 :: "u32 reader"
  putU8 :: "u8 \<Rightarrow> bytes"
  getU8 :: "u8 reader"
  putBool :: "bool \<Rightarrow> bytes"
  getBool :: "bool reader"
  putStr :: "qstring \<Rightarrow> bytes"
  getStr :: "qstring reader"

definition qds_ok :: "qds \<Rightarrow> bool" where
  "qds_ok q \<longleftrightarrow>
     (\<forall>x r. getU32 q (putU32 q x @ r) = Some (x, r)) \<and> (\<forall>x. length (putU32 q x) = 4) \<and>
     (\<forall>x r. getU8 q (putU8 q x @ r) = Some (x, r)) \<and> (\<forall>x. length (putU8 q x) = 1) \<and>
     (\<forall>x r. getBool q (putBool q x @ r) = Some (x, r)) \<and> (\<forall>x. length (putBool q x) = 1) \<and>
     (\<forall>s r. length s < 2 ^ 30 \<longrightarrow> getStr q (putStr q s @ r) = Some (s, r)) \<and>
     (\<forall>s. length s < 2 ^ 30 \<longrightarrow> length (putStr q s) = 4 + 2 * length s)"

lemma qds_simps:
  assumes "qds_ok q"
  shows "getU32 q (putU32 q x @ r) = Some (x, r)" "length (putU32 q x) = 4"
    "getU8 q (putU8 q b @ r) = Some (b, r)" "length (putU8 q b) = 1"
    "getBool q (putBool q t @ r) = Some (t, r)" "length (putBool q t) = 1"
    "length s < 2 ^ 30 \<Longrightarrow> getStr q (putStr q s @ r) = Some (s, r)"
    "length s < 2 ^ 30 \<Longrightarrow> length (putStr q s) = 4 + 2 * length s"
  using assms by (simp_all add: qds_ok_def)

text \<open>\<open>int32_t\<close> travels as the word with the same bits.\<close>

definition putI32 :: "qds \<Rightarrow> int \<Rightarrow> bytes" where
  "putI32 q n = putU32 q (word_of_int n)"

definition getI32 :: "qds \<Rightarrow> int reader" where
  "getI32 q s = do { (w, s) \<leftarrow> getU32 q s; Some (sint w, s) }"

definition int32 :: "int \<Rightarrow> bool" where
  "int32 n \<longleftrightarrow> - (2 ^ 31) \<le> n \<and> n < 2 ^ 31"

lemma int32_sint: "int32 n \<Longrightarrow> sint (word_of_int n :: u32) = n"
  by (simp add: int32_def sint_sbintrunc' signed_take_bit_int_eq_self)

interpretation i32: sized_codec "putI32 q" "getI32 q" "\<lambda>n. qds_ok q \<and> int32 n" "\<lambda>n. n" "\<lambda>_. 4" for q
  by unfold_locales (auto simp: putI32_def getI32_def qds_simps int32_sint)

interpretation u32c: sized_codec "putU32 q" "getU32 q" "\<lambda>_. qds_ok q" "\<lambda>n. n" "\<lambda>_. 4" for q
  by unfold_locales (auto simp: qds_simps)


section \<open>Cells\<close>

text \<open>\<open>CellColor::rgba\<close>: an invalid \<open>QColor\<close> is opaque black there.\<close>

definition colorRgba :: "cell_color \<Rightarrow> u32" where
  "colorRgba c = (if colorValid c then c else 0xFF000000)"

definition cellFlags :: "cell \<Rightarrow> u8" where
  "cellFlags c =
     (if c_bold (attrs c) then 0x01 else 0) OR (if c_italic (attrs c) then 0x02 else 0) OR
     (if c_underline (attrs c) then 0x04 else 0) OR (if c_inverse (attrs c) then 0x08 else 0) OR
     (if c_dim (attrs c) then 0x10 else 0) OR (if c_strikethrough (attrs c) then 0x20 else 0) OR
     (if isWideChar c then 0x40 else 0) OR (if isWideCont c then 0x80 else 0)"

definition writeCell :: "qds \<Rightarrow> cell \<Rightarrow> bytes" where
  "writeCell q c = putU32 q (codepoint c) @ putU32 q (colorRgba (c_fg (attrs c))) @
     putU32 q (colorRgba (c_bg (attrs c))) @ putU8 q (cellFlags c)"

text \<open>A cell read back starts as a default one; \<open>QColor::fromRgba\<close> is always valid.\<close>

definition cellOf :: "u32 \<Rightarrow> u32 \<Rightarrow> u32 \<Rightarrow> u8 \<Rightarrow> cell" where
  "cellOf cp fg bg flags = cell0\<lparr>codepoint := cp,
     attrs := attrs0\<lparr>c_fg := cellColor (QRgba fg), c_bg := cellColor (QRgba bg),
       c_bold := flags AND 0x01 \<noteq> 0, c_italic := flags AND 0x02 \<noteq> 0,
       c_underline := flags AND 0x04 \<noteq> 0, c_inverse := flags AND 0x08 \<noteq> 0,
       c_dim := flags AND 0x10 \<noteq> 0, c_strikethrough := flags AND 0x20 \<noteq> 0\<rparr>,
     isWideChar := flags AND 0x40 \<noteq> 0, isWideCont := flags AND 0x80 \<noteq> 0\<rparr>"

definition readCell :: "qds \<Rightarrow> cell reader" where
  "readCell q s = do {
     (cp, s) \<leftarrow> getU32 q s; (fg, s) \<leftarrow> getU32 q s; (bg, s) \<leftarrow> getU32 q s; (flags, s) \<leftarrow> getU8 q s;
     Some (cellOf cp fg bg flags, s) }"

text \<open>
  What a cell keeps on disk: the code point, both colours, six attributes and the two width
  flags. The underline's style and colour are not saved, and an unset colour comes back as
  opaque black.
\<close>

definition savedColor :: "cell_color \<Rightarrow> cell_color" where
  "savedColor c = (if colorValid c then c else 0xFF000000)"

definition savedCell :: "cell \<Rightarrow> cell" where
  "savedCell c = c\<lparr>attrs := (attrs c)\<lparr>c_fg := savedColor (c_fg (attrs c)),
     c_bg := savedColor (c_bg (attrs c)), c_underlineColor := kUnset, c_underlineStyle := UNone\<rparr>\<rparr>"

lemma cellFlags_bits:
  "cellFlags c AND 0x01 \<noteq> 0 \<longleftrightarrow> c_bold (attrs c)" "cellFlags c AND 0x02 \<noteq> 0 \<longleftrightarrow> c_italic (attrs c)"
  "cellFlags c AND 0x04 \<noteq> 0 \<longleftrightarrow> c_underline (attrs c)"
  "cellFlags c AND 0x08 \<noteq> 0 \<longleftrightarrow> c_inverse (attrs c)" "cellFlags c AND 0x10 \<noteq> 0 \<longleftrightarrow> c_dim (attrs c)"
  "cellFlags c AND 0x20 \<noteq> 0 \<longleftrightarrow> c_strikethrough (attrs c)"
  "cellFlags c AND 0x40 \<noteq> 0 \<longleftrightarrow> isWideChar c" "cellFlags c AND 0x80 \<noteq> 0 \<longleftrightarrow> isWideCont c"
  by (simp_all add: cellFlags_def bit.conj_disj_distrib2 split: if_splits)

lemma cellColor_rgba: "cellColor (QRgba (colorRgba c)) = savedColor c"
  by (simp add: cellColor_def colorRgba_def savedColor_def encodeColor_def colorValid_def kUnset_def)

lemma cellOf_written:
  "cellOf (codepoint c) (colorRgba (c_fg (attrs c))) (colorRgba (c_bg (attrs c))) (cellFlags c) = savedCell c"
proof -
  have "cellOf (codepoint c) (colorRgba (c_fg (attrs c))) (colorRgba (c_bg (attrs c))) (cellFlags c)
      = cell0\<lparr>codepoint := codepoint c,
         attrs := attrs0\<lparr>c_fg := savedColor (c_fg (attrs c)), c_bg := savedColor (c_bg (attrs c)),
           c_bold := c_bold (attrs c), c_italic := c_italic (attrs c),
           c_underline := c_underline (attrs c), c_inverse := c_inverse (attrs c),
           c_dim := c_dim (attrs c), c_strikethrough := c_strikethrough (attrs c)\<rparr>,
         isWideChar := isWideChar c, isWideCont := isWideCont c\<rparr>"
    unfolding cellOf_def cellFlags_bits cellColor_rgba ..
  then show ?thesis by (simp add: savedCell_def cell0_def attrs0_def)
qed

interpretation cell_codec: sized_codec "writeCell q" "readCell q" "\<lambda>_. qds_ok q" savedCell "\<lambda>_. 13" for q
  by unfold_locales (auto simp: writeCell_def readCell_def qds_simps cellOf_written)

section \<open>Combining characters\<close>

definition kMaxRestoreCombiningCells :: int where "kMaxRestoreCombiningCells = 10000"
definition kMaxRestoreCombiningMarks :: int where "kMaxRestoreCombiningMarks = 8"

definition writeMarks :: "qds \<Rightarrow> int \<times> u32 list \<Rightarrow> bytes" where
  "writeMarks q kv = putI32 q (fst kv) @ putI32 q (int (length (snd kv))) @
     concat (map (putU32 q) (snd kv))"

definition writeCombining :: "qds \<Rightarrow> combining_map \<Rightarrow> bytes" where
  "writeCombining q m = putI32 q (int (length m)) @ concat (map (writeMarks q) m)"

definition readMarks :: "qds \<Rightarrow> (int \<times> u32 list) reader" where
  "readMarks q s = do {
     (col, s) \<leftarrow> getI32 q s; (n, s) \<leftarrow> getI32 q s;
     if n < 0 \<or> n > kMaxRestoreCombiningMarks then None
     else do { (cps, s) \<leftarrow> readMany (getU32 q) (nat n) s; Some ((col, cps), s) } }"

text \<open>Entries enter the table in order, a later one replacing an earlier; empty ones do not.\<close>

definition addMarks :: "int \<times> u32 list \<Rightarrow> combining_map \<Rightarrow> combining_map" where
  "addMarks kv m = (if snd kv \<noteq> [] then combSet (fst kv) (snd kv) m else m)"

definition readCombining :: "qds \<Rightarrow> combining_map reader" where
  "readCombining q s = do {
     (n, s) \<leftarrow> getI32 q s;
     if n < 0 \<or> n > kMaxRestoreCombiningCells then None
     else do { (kvs, s) \<leftarrow> readMany (readMarks q) (nat n) s; Some (fold addMarks kvs [], s) } }"

definition combBytes :: "combining_map \<Rightarrow> int" where
  "combBytes m = 4 + sum_list (map (\<lambda>kv. 8 + 4 * int (length (snd kv))) m)"

text \<open>A table the reader accepts: at most 10000 columns, each an \<open>int\<close>, of at most eight marks.\<close>

definition marks_fit :: "int \<times> u32 list \<Rightarrow> bool" where
  "marks_fit kv \<longleftrightarrow> int32 (fst kv) \<and> int (length (snd kv)) \<le> kMaxRestoreCombiningMarks"

definition comb_fits :: "combining_map \<Rightarrow> bool" where
  "comb_fits m \<longleftrightarrow> int (length m) \<le> kMaxRestoreCombiningCells \<and> list_all marks_fit m"

definition savedComb :: "combining_map \<Rightarrow> combining_map" where
  "savedComb m = fold addMarks m []"

interpretation marks_codec: sized_codec "writeMarks q" "readMarks q" "\<lambda>kv. qds_ok q \<and> marks_fit kv"
  "\<lambda>kv. kv" "\<lambda>kv. 8 + 4 * int (length (snd kv))" for q
proof unfold_locales
  fix kv :: "int \<times> u32 list" and r
  assume g: "qds_ok q \<and> marks_fit kv"
  then have i: "int32 (fst kv)" "int32 (int (length (snd kv)))" "qds_ok q"
    by (auto simp: marks_fit_def int32_def kMaxRestoreCombiningMarks_def)
  then have all: "list_all (\<lambda>_. qds_ok q) (snd kv)" by (simp add: list_all_iff)
  show "readMarks q (writeMarks q kv @ r) = Some (kv, r)"
    using g i u32c.readMany_put [OF all, of r]
    by (simp add: readMarks_def writeMarks_def i32.rd_put marks_fit_def)
  show "int (length (writeMarks q kv)) = 8 + 4 * int (length (snd kv))"
    using i i32.size_put [of q "fst kv"] i32.size_put [of q "int (length (snd kv))"]
      u32c.size_concat [OF all] by (simp add: writeMarks_def sum_list_triv)
qed

interpretation comb_codec: sized_codec "writeCombining q" "readCombining q"
  "\<lambda>m. qds_ok q \<and> comb_fits m" savedComb combBytes for q
proof unfold_locales
  fix m r
  assume g: "qds_ok q \<and> comb_fits m"
  then have i: "int32 (int (length m))" and all: "list_all (\<lambda>kv. qds_ok q \<and> marks_fit kv) m"
    by (auto simp: comb_fits_def int32_def kMaxRestoreCombiningCells_def list_all_iff)
  show "readCombining q (writeCombining q m @ r) = Some (savedComb m, r)"
    using g i marks_codec.readMany_put [OF all, of r]
    by (simp add: readCombining_def writeCombining_def i32.rd_put comb_fits_def savedComb_def)
  show "int (length (writeCombining q m)) = combBytes m"
    using g i i32.size_put [of q "int (length m)"] marks_codec.size_concat [OF all]
    by (simp add: writeCombining_def combBytes_def)
qed

text \<open>The table read back gives every column the marks it had.\<close>

lemma addMarks_get:
  "combGet (addMarks kv m) j = (if j = fst kv \<and> snd kv \<noteq> [] then snd kv else combGet m j)"
  by (simp add: addMarks_def)

lemma combGet_Cons: "combGet (kv # m) j = (if j = fst kv then snd kv else combGet m j)"
  by (cases kv) (simp add: combGet_def)

lemma combGet_absent: "j \<notin> fst ` set m \<Longrightarrow> combGet m j = []"
  by (induction m) (auto simp: combGet_Cons combGet_def)

lemma fold_addMarks_get:
  "distinct (map fst xs) \<Longrightarrow>
   combGet (fold addMarks xs m) j = (if combGet xs j \<noteq> [] then combGet xs j else combGet m j)"
proof (induction xs arbitrary: m)
  case Nil
  then show ?case by (simp add: combGet_def)
next
  case (Cons kv xs)
  then have "combGet xs (fst kv) = []" by (auto intro: combGet_absent)
  then show ?case using Cons by (auto simp: addMarks_get combGet_Cons)
qed

lemma combGet_savedComb: "distinct (map fst m) \<Longrightarrow> combGet (savedComb m) j = combGet m j"
  by (simp add: savedComb_def fold_addMarks_get) (simp add: combGet_def)

lemma comb_ok_addMarks:
  "comb_ok m \<Longrightarrow> length (snd kv) \<le> MAX_COMBINING_PER_CELL \<Longrightarrow> comb_ok (addMarks kv m)"
  by (simp add: addMarks_def comb_ok_Set)

lemma comb_ok_fold_add:
  "comb_ok m \<Longrightarrow> list_all (\<lambda>kv. length (snd kv) \<le> MAX_COMBINING_PER_CELL) kvs \<Longrightarrow>
   comb_ok (fold addMarks kvs m)"
  by (induction kvs arbitrary: m) (simp_all add: comb_ok_addMarks)

lemma readMarks_short: "readMarks q s = Some (kv, r) \<Longrightarrow> length (snd kv) \<le> MAX_COMBINING_PER_CELL"
  by (auto simp: readMarks_def bind_eq_Some_conv kMaxRestoreCombiningMarks_def
      MAX_COMBINING_PER_CELL_def split: if_splits
      dest!: readMany_Some [where P = "\<lambda>_. True"])

text \<open>Whatever the bytes are, a table that was accepted respects the cap of the grid.\<close>

lemma readCombining_ok:
  assumes "readCombining q s = Some (m, r)"
  shows "comb_ok m"
proof -
  obtain n t kvs where k: "readMany (readMarks q) n t = Some (kvs, r)" "m = fold addMarks kvs []"
    using assms by (auto simp: readCombining_def bind_eq_Some_conv split: if_splits)
  have "length kvs = n \<and> list_all (\<lambda>kv. length (snd kv) \<le> MAX_COMBINING_PER_CELL) kvs"
    using k(1) by (rule readMany_Some) (rule readMarks_short)
  then show ?thesis by (simp add: k(2) comb_ok_fold_add)
qed

end
