(* ===== verification/SessionStream.thy ===== *)
theory SessionStream
  imports SessionCodec
begin

text \<open>
  \<open>SessionManager::serializeStream\<close>, the size of what it writes, the scrollback lines that
  fit (\<open>firstLineWithin\<close>), the loop that trims until the compressed file fits
  (\<open>serialize\<close>) and the checksummed envelope (\<open>seal\<close>).
\<close>

section \<open>Lines\<close>

definition writeCells :: "qds \<Rightarrow> cell list \<Rightarrow> bytes" where
  "writeCells q cs = concat (map (writeCell q) cs)"

definition writeScrollbackLine :: "qds \<Rightarrow> term_line \<Rightarrow> bytes" where
  "writeScrollbackLine q l = putI32 q (int (length (cells l))) @ putBool q (softWrapped l) @
     writeCells q (cells l) @ writeCombining q (combining l)"

text \<open>A screen row: \<open>cols\<close> cells through \<open>cellAt\<close>, which clamps, and its combining characters.\<close>

definition screenCells :: "grid \<Rightarrow> int \<Rightarrow> cell list" where
  "screenCells g row = map (\<lambda>c. cellAt g row (int c)) [0 ..< nat (m_cols g)]"

definition writeScreenRow :: "qds \<Rightarrow> grid \<Rightarrow> int \<Rightarrow> bytes" where
  "writeScreenRow q g row = putI32 q (m_cols g) @ writeCells q (screenCells g row) @
     writeCombining q (combining (lineAt g row))"

section \<open>The stream\<close>

definition MAGIC :: u32 where "MAGIC = 0x414E5453"
definition VERSION :: u32 where "VERSION = 3"

definition streamHeader :: "qds \<Rightarrow> grid \<Rightarrow> bytes" where
  "streamHeader q g = putU32 q MAGIC @ putU32 q VERSION @ putI32 q (m_rows g) @ putI32 q (m_cols g) @
     putI32 q (m_cursorRow g) @ putI32 q (m_cursorCol g)"

definition serializeStream :: "qds \<Rightarrow> grid \<Rightarrow> qstring \<Rightarrow> qstring \<Rightarrow> nat \<Rightarrow> bytes" where
  "serializeStream q g cwd pinned firstLine =
     streamHeader q g @
     putI32 q (int (length (m_scrollback g)) - int firstLine) @
     concat (map (writeScrollbackLine q) (drop firstLine (m_scrollback g))) @
     putI32 q (m_rows g) @
     concat (map (\<lambda>row. writeScreenRow q g (int row)) [0 ..< nat (m_rows g)]) @
     putStr q (m_windowTitle g) @ putStr q cwd @ putStr q pinned"

section \<open>How many lines fit\<close>

definition lineBytes :: "term_line \<Rightarrow> int" where
  "lineBytes l = 4 + 1 + 13 * int (length (cells l)) + combBytes (combining l)"

definition stringBytes :: "qstring \<Rightarrow> int" where
  "stringBytes s = 4 + 2 * int (length s)"

definition rowBytes :: "grid \<Rightarrow> int \<Rightarrow> int" where
  "rowBytes g row = 4 + 13 * m_cols g + combBytes (combining (lineAt g row))"

definition fixedBytes :: "grid \<Rightarrow> qstring \<Rightarrow> qstring \<Rightarrow> int" where
  "fixedBytes g cwd pinned = 6 * 4 + 4 + 4 +
     sum_list (map (\<lambda>row. rowBytes g (int row)) [0 ..< nat (m_rows g)]) +
     (stringBytes (m_windowTitle g) + stringBytes cwd + stringBytes pinned)"

text \<open>The loop from the newest line down: \<open>firstLoop sb cap used first\<close>.\<close>

fun firstLoop :: "term_line list \<Rightarrow> int \<Rightarrow> int \<Rightarrow> nat \<Rightarrow> nat" where
  "firstLoop sb cap used 0 = 0"
| "firstLoop sb cap used (Suc n) =
     (let b = lineBytes (sb ! n) in if used + b > cap then Suc n else firstLoop sb cap (used + b) n)"

definition firstLineWithin :: "grid \<Rightarrow> qstring \<Rightarrow> qstring \<Rightarrow> int \<Rightarrow> nat" where
  "firstLineWithin g cwd pinned maxRawBytes =
     firstLoop (m_scrollback g) maxRawBytes (fixedBytes g cwd pinned) (length (m_scrollback g))"

section \<open>Compression and the envelope\<close>

text \<open>
  \<open>qCompress\<close> at level 6, \<open>qUncompress\<close> (empty where it fails), the SHA-256 hash and the
  floating-point estimate of the lines to keep are parameters. The source relies on their
  documented behaviour: uncompressing undoes compressing, the compressed data starts with the
  length of the raw data as four big-endian bytes, deflate gains at most 1032 to one (with
  slack), a hash has 32 bytes, and the estimate of a non-negative product is non-negative.
\<close>

record packer =
  qCompress :: "bytes \<Rightarrow> bytes"
  qUncompress :: "bytes \<Rightarrow> bytes"
  sha256 :: "bytes \<Rightarrow> bytes"
  keepLines :: "int \<Rightarrow> int \<Rightarrow> int \<Rightarrow> int"

text \<open>The shifts that read the prefix.\<close>

definition claimedLength :: "bytes \<Rightarrow> u32" where
  "claimedLength b = push_bit 24 (ucast (b ! 0)) OR push_bit 16 (ucast (b ! 1)) OR
     push_bit 8 (ucast (b ! 2)) OR ucast (b ! 3)"

definition packer_ok :: "packer \<Rightarrow> bool" where
  "packer_ok z \<longleftrightarrow>
     (\<forall>raw. raw \<noteq> [] \<longrightarrow> length raw < 2 ^ 32 \<longrightarrow>
        qUncompress z (qCompress z raw) = raw \<and> 4 \<le> length (qCompress z raw) \<and>
        uint (claimedLength (qCompress z raw)) = int (length raw) \<and>
        int (length raw) \<le> int (length (qCompress z raw)) * 1032 + 64 * 1024) \<and>
     (\<forall>b. length (sha256 z b) = 32) \<and>
     (\<forall>kept maxFile size. 0 \<le> kept \<longrightarrow> 0 \<le> maxFile \<longrightarrow> 0 < size \<longrightarrow> 0 \<le> keepLines z kept maxFile size)"

definition ENVELOPE_MAGIC :: u32 where "ENVELOPE_MAGIC = 0x53484543"
definition ENVELOPE_VERSION :: u32 where "ENVELOPE_VERSION = 1"
definition ENVELOPE_HEADER_SIZE :: int where "ENVELOPE_HEADER_SIZE = 4 + 4 + 32 + 4"
definition MAX_RESTORE_FILE_BYTES :: int where "MAX_RESTORE_FILE_BYTES = 100 * 1024 * 1024"
definition MAX_UNCOMPRESSED :: u32 where "MAX_UNCOMPRESSED = 500 * 1024 * 1024"
definition MAX_RESTORE_RAW_BYTES :: int where "MAX_RESTORE_RAW_BYTES = uint MAX_UNCOMPRESSED"

definition seal :: "qds \<Rightarrow> packer \<Rightarrow> bytes \<Rightarrow> bytes" where
  "seal q z compressed = putU32 q ENVELOPE_MAGIC @ putU32 q ENVELOPE_VERSION @ sha256 z compressed @
     putU32 q (word_of_int (int (length compressed))) @ compressed"

section \<open>Serialisation\<close>

definition sealedSize :: "bytes \<Rightarrow> int" where
  "sealedSize compressed = ENVELOPE_HEADER_SIZE + int (length compressed)"

text \<open>
  The \<open>for\<close> loop of \<open>serialize\<close>. The compressed data is always that of the current first
  line, so the loop carries the line; \<open>pack first\<close> compresses the stream from there. A
  line count at or past the scrollback's size ends it. The result is the first line and the
  number of passes.
\<close>

definition keptLines :: "packer \<Rightarrow> int \<Rightarrow> int \<Rightarrow> nat \<Rightarrow> int \<Rightarrow> int" where
  "keptLines z maxFile fileBytes attempt kept =
     min (if attempt < 8 then keepLines z kept maxFile fileBytes else 0) (kept - 1)"

function trimLoop :: "packer \<Rightarrow> (nat \<Rightarrow> bytes) \<Rightarrow> int \<Rightarrow> int \<Rightarrow> nat \<Rightarrow> int \<Rightarrow> int \<times> nat" where
  "trimLoop z pack maxFile sbSize attempt first =
     (if sealedSize (pack (nat first)) > maxFile \<and> first < sbSize
      then trimLoop z pack maxFile sbSize (Suc attempt)
             (sbSize - keptLines z maxFile (sealedSize (pack (nat first))) attempt (sbSize - first))
      else (first, attempt))"
  by pat_completeness auto
termination by (relation "measure (\<lambda>(z, pack, maxFile, sbSize, attempt, first). nat (sbSize - first))")
    (auto simp: keptLines_def)

declare trimLoop.simps [simp del]

definition packFrom :: "qds \<Rightarrow> packer \<Rightarrow> grid \<Rightarrow> qstring \<Rightarrow> qstring \<Rightarrow> nat \<Rightarrow> bytes" where
  "packFrom q z g cwd pinned first = qCompress z (serializeStream q g cwd pinned first)"

definition firstKept :: "qds \<Rightarrow> packer \<Rightarrow> grid \<Rightarrow> qstring \<Rightarrow> qstring \<Rightarrow> int \<Rightarrow> int \<Rightarrow> nat" where
  "firstKept q z g cwd pinned maxRaw maxFile =
     nat (fst (trimLoop z (packFrom q z g cwd pinned) maxFile (int (length (m_scrollback g))) 0
       (int (firstLineWithin g cwd pinned maxRaw))))"

definition serialize :: "qds \<Rightarrow> packer \<Rightarrow> grid \<Rightarrow> qstring \<Rightarrow> qstring \<Rightarrow> int \<Rightarrow> int \<Rightarrow> bytes" where
  "serialize q z g cwd pinned maxRaw maxFile =
     seal q z (packFrom q z g cwd pinned (firstKept q z g cwd pinned maxRaw maxFile))"


section \<open>Sizes\<close>

text \<open>Everything written is in the range of its type: what every grid of a session satisfies.\<close>

definition line_fits :: "term_line \<Rightarrow> bool" where
  "line_fits l \<longleftrightarrow> int32 (int (length (cells l))) \<and> comb_fits (combining l)"

definition stream_fits :: "grid \<Rightarrow> qstring \<Rightarrow> qstring \<Rightarrow> bool" where
  "stream_fits g cwd pinned \<longleftrightarrow>
     0 \<le> m_rows g \<and> int32 (m_rows g) \<and> 0 \<le> m_cols g \<and> int32 (m_cols g) \<and>
     int32 (m_cursorRow g) \<and> int32 (m_cursorCol g) \<and> int32 (int (length (m_scrollback g))) \<and>
     list_all line_fits (m_scrollback g) \<and>
     (\<forall>row < nat (m_rows g). comb_fits (combining (lineAt g (int row)))) \<and>
     length (m_windowTitle g) < 2 ^ 30 \<and> length cwd < 2 ^ 30 \<and> length pinned < 2 ^ 30"

lemma size_writeCells: "qds_ok q \<Longrightarrow> int (length (writeCells q cs)) = 13 * int (length cs)"
  using cell_codec.size_concat [of q cs] by (simp add: writeCells_def list_all_iff sum_list_triv)

lemma size_scrollbackLine:
  "qds_ok q \<Longrightarrow> line_fits l \<Longrightarrow> int (length (writeScrollbackLine q l)) = lineBytes l"
  using i32.size_put [of q "int (length (cells l))"] comb_codec.size_put [of q "combining l"]
  by (simp add: writeScrollbackLine_def lineBytes_def line_fits_def qds_simps size_writeCells)

lemma length_screenCells [simp]: "length (screenCells g row) = nat (m_cols g)"
  by (simp add: screenCells_def)

lemma size_screenRow:
  assumes "qds_ok q" "0 \<le> m_cols g" "int32 (m_cols g)" "comb_fits (combining (lineAt g row))"
  shows "int (length (writeScreenRow q g row)) = rowBytes g row"
  using assms i32.size_put [of q "m_cols g"] comb_codec.size_put [of q "combining (lineAt g row)"]
  by (simp add: writeScreenRow_def rowBytes_def size_writeCells)

lemma size_concat_map:
  "(\<And>x. x \<in> set xs \<Longrightarrow> int (length (f x)) = n x) \<Longrightarrow>
   int (length (concat (map f xs))) = sum_list (map n xs)"
  by (induction xs) auto

lemma size_putStr: "qds_ok q \<Longrightarrow> length s < 2 ^ 30 \<Longrightarrow> int (length (putStr q s)) = stringBytes s"
  by (simp add: qds_simps stringBytes_def)

lemma size_header: "qds_ok q \<Longrightarrow> int (length (streamHeader q g)) = 24"
  by (simp add: streamHeader_def putI32_def qds_simps)

lemma serializeStream_size:
  assumes q: "qds_ok q" and f: "stream_fits g cwd pinned" and n: "n \<le> length (m_scrollback g)"
  shows "int (length (serializeStream q g cwd pinned n)) =
    fixedBytes g cwd pinned + sum_list (map lineBytes (drop n (m_scrollback g)))"
proof -
  have sb: "int (length (concat (map (writeScrollbackLine q) (drop n (m_scrollback g))))) =
      sum_list (map lineBytes (drop n (m_scrollback g)))"
    by (rule size_concat_map)
      (use q f in \<open>auto simp: stream_fits_def list_all_iff intro!: size_scrollbackLine dest: in_set_dropD\<close>)
  have rows: "int (length (concat (map (\<lambda>row. writeScreenRow q g (int row)) [0 ..< nat (m_rows g)]))) =
      sum_list (map (\<lambda>row. rowBytes g (int row)) [0 ..< nat (m_rows g)])"
    by (rule size_concat_map) (use q f in \<open>auto simp: stream_fits_def intro!: size_screenRow\<close>)
  have w: "int (length (putI32 q k)) = 4" for k using q by (simp add: putI32_def qds_simps)
  show ?thesis
    using f sb rows size_header [OF q, of g] size_putStr [OF q]
    by (simp only: serializeStream_def stream_fits_def length_append of_nat_add w fixedBytes_def)
qed

section \<open>The kept lines are the most that fit\<close>

lemma lineBytes_pos: "0 < lineBytes l"
proof -
  have "0 \<le> sum_list (map (\<lambda>kv :: int \<times> u32 list. 8 + 4 * int (length (snd kv))) m)" for m
    by (induction m) auto
  then have "0 \<le> combBytes (combining l)" by (simp add: combBytes_def add_nonneg_nonneg)
  then show ?thesis by (simp add: lineBytes_def)
qed

lemma firstLoop_le: "firstLoop sb cap used n \<le> n"
  by (induction sb cap used n rule: firstLoop.induct) (auto simp: Let_def)

lemma firstLoop_fits:
  assumes "n \<le> length sb"
  shows "firstLoop sb cap used n = n \<or>
    used + sum_list (map lineBytes (drop (firstLoop sb cap used n) (take n sb))) \<le> cap"
  using assms
proof (induction sb cap used n rule: firstLoop.induct)
  case (2 sb cap used n)
  let ?m = "firstLoop sb cap (used + lineBytes (sb ! n)) n"
  show ?case
  proof (cases "used + lineBytes (sb ! n) > cap")
    case False
    have t: "take (Suc n) sb = take n sb @ [sb ! n]" using 2(2) by (simp add: take_Suc_conv_app_nth)
    have "?m \<le> n" by (rule firstLoop_le)
    then have "drop ?m (take (Suc n) sb) = drop ?m (take n sb) @ [sb ! n]"
      using 2(2) by (simp add: t)
    moreover have "?m = n \<or>
        used + lineBytes (sb ! n) + sum_list (map lineBytes (drop ?m (take n sb))) \<le> cap"
      using 2(1) [OF refl False] 2(2) by simp
    ultimately show ?thesis using False by (auto simp: Let_def)
  qed (simp add: Let_def)
qed simp

lemma firstLoop_maximal:
  assumes "n \<le> length sb" "0 < firstLoop sb cap used n"
  shows "cap < used + sum_list (map lineBytes (drop (firstLoop sb cap used n - 1) (take n sb)))"
  using assms
proof (induction sb cap used n rule: firstLoop.induct)
  case (2 sb cap used n)
  let ?m = "firstLoop sb cap (used + lineBytes (sb ! n)) n"
  have t: "take (Suc n) sb = take n sb @ [sb ! n]" using 2(2) by (simp add: take_Suc_conv_app_nth)
  show ?case
  proof (cases "used + lineBytes (sb ! n) > cap")
    case True
    then show ?thesis using 2(2) t by (simp add: Let_def)
  next
    case False
    have m: "?m \<le> n" by (rule firstLoop_le)
    then have "drop (?m - 1) (take (Suc n) sb) = drop (?m - 1) (take n sb) @ [sb ! n]"
      using 2(2) by (simp add: t)
    then show ?thesis using 2(1) [OF refl False] 2(2,3) False by (simp add: Let_def)
  qed
qed simp

section \<open>The trim loop\<close>

lemma trimLoop_stop:
  "\<not> (sealedSize (pack (nat first)) > maxFile \<and> first < sbSize) \<Longrightarrow>
   trimLoop z pack maxFile sbSize attempt first = (first, attempt)"
  by (subst trimLoop.simps) (rule if_not_P)

lemma trimLoop_passes: "attempt \<le> 9 \<Longrightarrow> first \<le> sbSize \<Longrightarrow> (attempt = 9 \<longrightarrow> first = sbSize) \<Longrightarrow>
  snd (trimLoop z pack maxFile sbSize attempt first) \<le> 9"
proof (induction z pack maxFile sbSize attempt first rule: trimLoop.induct)
  case (1 z pack maxFile sbSize attempt first)
  let ?kept = "keptLines z maxFile (sealedSize (pack (nat first))) attempt (sbSize - first)"
  show ?case
  proof (cases "sealedSize (pack (nat first)) > maxFile \<and> first < sbSize")
    case True
    show ?thesis
    proof (cases "0 \<le> ?kept")
      case k: True
      have "attempt \<noteq> 9" using 1(4) True by auto
      moreover have "?kept = 0" if "attempt = 8" using that k by (simp add: keptLines_def)
      ultimately show ?thesis
        using 1(1) [OF True] 1(2) True k by (subst trimLoop.simps) auto
    next
      case k: False
      have "trimLoop z pack maxFile sbSize (Suc attempt) (sbSize - ?kept) = (sbSize - ?kept, Suc attempt)"
        using k by (subst trimLoop.simps) simp
      moreover have "attempt \<noteq> 9" using 1(4) True by auto
      ultimately show ?thesis using True 1(2) by (subst trimLoop.simps) simp
    qed
  next
    case False
    then have "trimLoop z pack maxFile sbSize attempt first = (first, attempt)" by (rule trimLoop_stop)
    then show ?thesis using 1(2) by simp
  qed
qed

lemma trimLoop_result:
  assumes "0 \<le> first"
  shows "first \<le> fst (trimLoop z pack maxFile sbSize attempt first) \<and>
    (sealedSize (pack (nat (fst (trimLoop z pack maxFile sbSize attempt first)))) \<le> maxFile \<or>
     sbSize \<le> fst (trimLoop z pack maxFile sbSize attempt first))"
  using assms
proof (induction z pack maxFile sbSize attempt first rule: trimLoop.induct)
  case (1 z pack maxFile sbSize attempt first)
  let ?kept = "keptLines z maxFile (sealedSize (pack (nat first))) attempt (sbSize - first)"
  show ?case
  proof (cases "sealedSize (pack (nat first)) > maxFile \<and> first < sbSize")
    case True
    have k: "?kept \<le> sbSize - first - 1" by (simp add: keptLines_def)
    then have "first \<le> sbSize - ?kept" "0 \<le> sbSize - ?kept" using 1(2) by simp_all
    then show ?thesis using 1(1) [OF True] True by (subst (1 2 3) trimLoop.simps) simp
  qed (subst (1 2 3) trimLoop.simps, auto)
qed


lemma sealedSize_pos: "0 < sealedSize b"
  by (simp add: sealedSize_def ENVELOPE_HEADER_SIZE_def)

lemma trimLoop_le:
  assumes "packer_ok z" "0 \<le> maxFile" "first \<le> sbSize"
  shows "fst (trimLoop z pack maxFile sbSize attempt first) \<le> sbSize"
  using assms
proof (induction z pack maxFile sbSize attempt first rule: trimLoop.induct)
  case (1 z pack maxFile sbSize attempt first)
  let ?kept = "keptLines z maxFile (sealedSize (pack (nat first))) attempt (sbSize - first)"
  show ?case
  proof (cases "sealedSize (pack (nat first)) > maxFile \<and> first < sbSize")
    case True
    then have "0 \<le> ?kept"
      using 1(2,3) sealedSize_pos [of "pack (nat first)"] by (auto simp: keptLines_def packer_ok_def)
    then show ?thesis using 1(1) [OF True 1(2,3)] True by (subst trimLoop.simps) simp
  next
    case False
    then have "trimLoop z pack maxFile sbSize attempt first = (first, attempt)" by (rule trimLoop_stop)
    then show ?thesis using 1(4) by simp
  qed
qed

lemma firstKept_result:
  assumes "packer_ok z" "0 \<le> maxFile"
  shows "firstLineWithin g cwd pinned maxRaw \<le> firstKept q z g cwd pinned maxRaw maxFile"
    "firstKept q z g cwd pinned maxRaw maxFile \<le> length (m_scrollback g)"
    "sealedSize (packFrom q z g cwd pinned (firstKept q z g cwd pinned maxRaw maxFile)) \<le> maxFile \<or>
     firstKept q z g cwd pinned maxRaw maxFile = length (m_scrollback g)"
proof -
  have f: "int (firstLineWithin g cwd pinned maxRaw) \<le> int (length (m_scrollback g))"
    by (simp add: firstLineWithin_def firstLoop_le)
  note r = trimLoop_result [of "int (firstLineWithin g cwd pinned maxRaw)" z "packFrom q z g cwd pinned"
      maxFile "int (length (m_scrollback g))" 0]
  note l = trimLoop_le [OF assms f, of "packFrom q z g cwd pinned" 0]
  show "firstLineWithin g cwd pinned maxRaw \<le> firstKept q z g cwd pinned maxRaw maxFile"
    "firstKept q z g cwd pinned maxRaw maxFile \<le> length (m_scrollback g)"
    "sealedSize (packFrom q z g cwd pinned (firstKept q z g cwd pinned maxRaw maxFile)) \<le> maxFile \<or>
     firstKept q z g cwd pinned maxRaw maxFile = length (m_scrollback g)"
    using r l unfolding firstKept_def by (auto simp: le_nat_iff nat_le_iff)
qed

text \<open>The stream stays within its cap whenever any scrollback line is kept.\<close>

lemma sum_list_drop_mono:
  "m \<le> n \<Longrightarrow> sum_list (map lineBytes (drop n xs)) \<le> sum_list (map lineBytes (drop m xs))"
proof -
  assume "m \<le> n"
  then have "drop m xs = take (n - m) (drop m xs) @ drop n xs"
    using append_take_drop_id [of "n - m" "drop m xs"] by simp
  moreover have "0 \<le> sum_list (map lineBytes ys)" for ys
    by (induction ys) (use lineBytes_pos in \<open>auto intro: add_nonneg_nonneg less_imp_le\<close>)
  ultimately show ?thesis by (metis add_increasing map_append order_refl sum_list_append)
qed

lemma kept_stream_size:
  assumes "qds_ok q" "stream_fits g cwd pinned" "firstLineWithin g cwd pinned maxRaw \<le> n"
    "n < length (m_scrollback g)"
  shows "int (length (serializeStream q g cwd pinned n)) \<le> maxRaw"
proof -
  let ?m = "firstLineWithin g cwd pinned maxRaw"
  have "fixedBytes g cwd pinned + sum_list (map lineBytes (drop ?m (m_scrollback g))) \<le> maxRaw"
    using firstLoop_fits [of "length (m_scrollback g)" "m_scrollback g" maxRaw "fixedBytes g cwd pinned"]
      assms(3,4) by (auto simp: firstLineWithin_def)
  then show ?thesis
    using serializeStream_size [OF assms(1,2), of n] sum_list_drop_mono [OF assms(3), of "m_scrollback g"]
      assms(4) by simp
qed

end
