(* ===== verification/SessionRestore.thy ===== *)
theory SessionRestore
  imports SessionStream
begin

text \<open>
  \<open>SessionManager::restore\<close>: the envelope is checked and removed, the payload's claimed size is
  bounded before it is inflated, the whole stream is parsed into a record, and only then is the
  grid resized and filled.
\<close>

section \<open>The envelope\<close>

text \<open>A word read from a stream whose status is not looked at: zero past the end.\<close>

definition u32Or0 :: "qds \<Rightarrow> bytes \<Rightarrow> u32 \<times> bytes" where
  "u32Or0 q s = (case getU32 q s of None \<Rightarrow> (0, []) | Some p \<Rightarrow> p)"

text \<open>The payload; a file without the envelope, or with an empty payload, is a legacy file.\<close>

definition unwrap :: "qds \<Rightarrow> packer \<Rightarrow> bytes \<Rightarrow> bytes option" where
  "unwrap q z input =
     (if int (length input) \<ge> ENVELOPE_HEADER_SIZE then
        (let (magic, s) = u32Or0 q input; (version, s) = u32Or0 q s
         in if magic \<noteq> ENVELOPE_MAGIC then Some input
            else if version \<noteq> ENVELOPE_VERSION then None
            else if length s < 32 then None
            else (case getU32 q (drop 32 s) of
                    None \<Rightarrow> None
                  | Some (payloadLen, _) \<Rightarrow>
                      let compressed = drop (nat ENVELOPE_HEADER_SIZE) input
                      in if uint payloadLen > MAX_RESTORE_FILE_BYTES then None
                         else if int (length input) \<noteq> ENVELOPE_HEADER_SIZE + uint payloadLen then None
                         else if sha256 z compressed \<noteq> take 32 s then None
                         else Some (if compressed = [] then input else compressed)))
      else Some input)"

definition inflate :: "packer \<Rightarrow> bytes \<Rightarrow> bytes option" where
  "inflate z compressed =
     (if length compressed < 4 then None
      else if claimedLength compressed > MAX_UNCOMPRESSED then None
      else if uint (claimedLength compressed) > int (length compressed) * 1032 + 64 * 1024 then None
      else (let raw = qUncompress z compressed
            in if raw = [] \<or> int (length raw) > uint MAX_UNCOMPRESSED then None else Some raw))"

section \<open>The stream\<close>

definition kMaxRestoreRows :: int where "kMaxRestoreRows = 2000"
definition kMaxRestoreCols :: int where "kMaxRestoreCols = 4000"
definition kMaxRestoreLineCells :: int where "kMaxRestoreLineCells = 10000"
definition kMaxRestoreScrollbackLines :: int where "kMaxRestoreScrollbackLines = 1000000"

definition readScrollbackLine :: "qds \<Rightarrow> term_line reader" where
  "readScrollbackLine q s = do {
     (n, s) \<leftarrow> getI32 q s; (wrapped, s) \<leftarrow> getBool q s;
     if n < 0 \<or> n > kMaxRestoreLineCells then None
     else do {
       (cs, s) \<leftarrow> readMany (readCell q) (nat n) s; (m, s) \<leftarrow> readCombining q s;
       Some (line0\<lparr>cells := cs, softWrapped := wrapped, combining := m\<rparr>, s) } }"

text \<open>A screen row keeps at most \<open>cols\<close> cells and skips the rest.\<close>

definition readScreenRow :: "qds \<Rightarrow> int \<Rightarrow> term_line reader" where
  "readScreenRow q w s = do {
     (n, s) \<leftarrow> getI32 q s;
     if n < 0 \<or> n > kMaxRestoreLineCells then None
     else do {
       (kept, s) \<leftarrow> readMany (readCell q) (nat (min n w)) s;
       (skipped, s) \<leftarrow> readMany (readCell q) (nat (n - w)) s;
       (m, s) \<leftarrow> readCombining q s;
       Some (line0\<lparr>cells := kept, combining := m\<rparr>, s) } }"

record saved_session =
  s_rows :: int
  s_cols :: int
  s_curRow :: int
  s_curCol :: int
  s_scrollback :: "term_line list"
  s_screen :: "term_line list"
  s_title :: qstring
  s_cwd :: qstring
  s_pinned :: qstring

text \<open>A string that is there only from a version on, and only if the stream goes on.\<close>

definition readTrailing :: "qds \<Rightarrow> u32 \<Rightarrow> u32 \<Rightarrow> qstring reader" where
  "readTrailing q since version s = (if version \<ge> since \<and> s \<noteq> [] then getStr q s else Some ([], s))"

definition readHeader :: "qds \<Rightarrow> (u32 \<times> int \<times> int \<times> int \<times> int) reader" where
  "readHeader q s = do {
     (magic, s) \<leftarrow> getU32 q s; (version, s) \<leftarrow> getU32 q s;
     if magic \<noteq> MAGIC \<or> version > VERSION then None
     else do {
       (rows, s) \<leftarrow> getI32 q s; (w, s) \<leftarrow> getI32 q s;
       (curRow, s) \<leftarrow> getI32 q s; (curCol, s) \<leftarrow> getI32 q s;
       if rows \<le> 0 \<or> rows > kMaxRestoreRows \<or> w \<le> 0 \<or> w > kMaxRestoreCols then None
       else Some ((version, rows, w, curRow, curCol), s) } }"

definition readScrollback :: "qds \<Rightarrow> term_line list reader" where
  "readScrollback q s = do {
     (n, s) \<leftarrow> getI32 q s;
     if n < 0 \<or> n > kMaxRestoreScrollbackLines then None
     else readMany (readScrollbackLine q) (nat n) s }"

definition readScreen :: "qds \<Rightarrow> int \<Rightarrow> int \<Rightarrow> term_line list reader" where
  "readScreen q rows w s = do {
     (n, s) \<leftarrow> getI32 q s;
     if n < 0 \<or> n > kMaxRestoreRows then None
     else do {
       (screen, s) \<leftarrow> readMany (readScreenRow q w) (nat (min n rows)) s;
       (skipped, s) \<leftarrow> readMany (readScreenRow q w) (nat (n - rows)) s;
       Some (screen, s) } }"

definition parseStream :: "qds \<Rightarrow> bytes \<Rightarrow> saved_session option" where
  "parseStream q raw = do {
     ((version, rows, w, curRow, curCol), s) \<leftarrow> readHeader q raw;
     (scrollback, s) \<leftarrow> readScrollback q s;
     (screen, s) \<leftarrow> readScreen q rows w s;
     (title, s) \<leftarrow> getStr q s;
     (cwd, s) \<leftarrow> readTrailing q 2 version s;
     (pinned, s) \<leftarrow> readTrailing q 3 version s;
     Some \<lparr>s_rows = rows, s_cols = w, s_curRow = curRow, s_curCol = curCol,
           s_scrollback = scrollback, s_screen = screen, s_title = title, s_cwd = cwd,
           s_pinned = pinned\<rparr> }"

section \<open>Commit\<close>

definition putScreenRow :: "int \<times> term_line \<Rightarrow> grid \<Rightarrow> grid" where
  "putScreenRow rl g = updLine (fst rl)
     (\<lambda>d. d\<lparr>cells := cells (snd rl) @ drop (length (cells (snd rl))) (cells d),
            combining := combining (snd rl)\<rparr>) (bumpRevision g)"

definition putScreen :: "term_line list \<Rightarrow> grid \<Rightarrow> grid" where
  "putScreen ls g = fold putScreenRow (map (\<lambda>(k, l). (int k, l)) (enumerate 0 ls)) g"

definition commit :: "saved_session \<Rightarrow> grid \<Rightarrow> grid" where
  "commit s g =
     (let g = resize (s_rows s) (s_cols s) g;
          g = fold pushScrollbackLine (s_scrollback s) g;
          g = putScreen (s_screen s) g;
          g = setCursorPosition (clamp (s_curRow s) 0 (s_rows s - 1))
                (clamp (s_curCol s) 0 (s_cols s - 1)) g
      in if s_title s \<noteq> [] then setTitle (s_title s) g else g)"

text \<open>
  The parse of a file's bytes, and \<open>restore\<close> itself: whether it succeeded, the grid, and what
  the two out-parameters hold, empty on failure.
\<close>

definition parseFile :: "qds \<Rightarrow> packer \<Rightarrow> bytes \<Rightarrow> saved_session option" where
  "parseFile q z input =
     (if int (length input) > MAX_RESTORE_FILE_BYTES then None
      else do { compressed \<leftarrow> unwrap q z input; raw \<leftarrow> inflate z compressed; parseStream q raw })"

definition restore :: "qds \<Rightarrow> packer \<Rightarrow> bytes \<Rightarrow> grid \<Rightarrow> bool \<times> grid \<times> qstring \<times> qstring" where
  "restore q z input g =
     (case parseFile q z input of
        None \<Rightarrow> (False, g, [], [])
      | Some s \<Rightarrow> (True, commit s g, s_cwd s, s_pinned s))"

section \<open>Reading back what was written\<close>

definition line_restorable :: "term_line \<Rightarrow> bool" where
  "line_restorable l \<longleftrightarrow>
     int (length (cells l)) \<le> kMaxRestoreLineCells \<and> comb_fits (combining l)"

definition savedLine :: "term_line \<Rightarrow> term_line" where
  "savedLine l = line0\<lparr>cells := map savedCell (cells l), softWrapped := softWrapped l,
     combining := savedComb (combining l)\<rparr>"

definition savedRow :: "grid \<Rightarrow> int \<Rightarrow> term_line" where
  "savedRow g row = line0\<lparr>cells := map savedCell (screenCells g row),
     combining := savedComb (combining (lineAt g row))\<rparr>"

lemma line_restorable_fits: "line_restorable l \<Longrightarrow> line_fits l"
  by (simp add: line_restorable_def line_fits_def int32_def kMaxRestoreLineCells_def)

lemma readCells_put:
  "qds_ok q \<Longrightarrow> readMany (readCell q) (length cs) (writeCells q cs @ r) = Some (map savedCell cs, r)"
  using cell_codec.readMany_put [of q cs r] by (simp add: writeCells_def list_all_iff)

interpretation line_codec: sized_codec "writeScrollbackLine q" "readScrollbackLine q"
  "\<lambda>l. qds_ok q \<and> line_restorable l" savedLine lineBytes for q
proof unfold_locales
  fix l r
  assume g: "qds_ok q \<and> line_restorable l"
  then show "int (length (writeScrollbackLine q l)) = lineBytes l"
    by (simp add: size_scrollbackLine line_restorable_fits)
  have i: "int32 (int (length (cells l)))"
    using g line_restorable_fits [of l] by (simp add: line_fits_def)
  show "readScrollbackLine q (writeScrollbackLine q l @ r) = Some (savedLine l, r)"
    using g i by (simp add: readScrollbackLine_def writeScrollbackLine_def i32.rd_put qds_simps
        readCells_put comb_codec.rd_put line_restorable_def savedLine_def)
qed

interpretation row_codec: codec "writeScreenRow q g" "readScreenRow q (m_cols g)"
  "\<lambda>row. qds_ok q \<and> 0 \<le> m_cols g \<and> m_cols g \<le> kMaxRestoreLineCells \<and>
     comb_fits (combining (lineAt g row))" "savedRow g" for q g
proof unfold_locales
  fix row r
  assume a: "qds_ok q \<and> 0 \<le> m_cols g \<and> m_cols g \<le> kMaxRestoreLineCells \<and>
     comb_fits (combining (lineAt g row))"
  then have i: "int32 (m_cols g)" by (simp add: int32_def kMaxRestoreLineCells_def)
  have "readMany (readCell q) (nat (m_cols g)) (writeCells q (screenCells g row) @ t) =
      Some (map savedCell (screenCells g row), t)" for t
    using a readCells_put [of q "screenCells g row" t] by simp
  then show "readScreenRow q (m_cols g) (writeScreenRow q g row @ r) = Some (savedRow g row, r)"
    using a i by (simp add: readScreenRow_def writeScreenRow_def i32.rd_put comb_codec.rd_put
        savedRow_def)
qed


text \<open>What the reader's caps ask of a grid and of the strings saved with it.\<close>

definition restorable :: "grid \<Rightarrow> qstring \<Rightarrow> qstring \<Rightarrow> bool" where
  "restorable g cwd pinned \<longleftrightarrow>
     0 < m_rows g \<and> m_rows g \<le> kMaxRestoreRows \<and> 0 < m_cols g \<and> m_cols g \<le> kMaxRestoreCols \<and>
     int32 (m_cursorRow g) \<and> int32 (m_cursorCol g) \<and>
     int (length (m_scrollback g)) \<le> kMaxRestoreScrollbackLines \<and>
     list_all line_restorable (m_scrollback g) \<and>
     (\<forall>row < nat (m_rows g). comb_fits (combining (lineAt g (int row)))) \<and>
     length (m_windowTitle g) < 2 ^ 30 \<and> length cwd < 2 ^ 30 \<and> length pinned < 2 ^ 30"

lemma restorable_fits: "restorable g cwd pinned \<Longrightarrow> stream_fits g cwd pinned"
  by (auto simp: restorable_def stream_fits_def int32_def kMaxRestoreRows_def kMaxRestoreCols_def
      kMaxRestoreScrollbackLines_def list_all_iff intro: line_restorable_fits)

definition savedSession :: "grid \<Rightarrow> qstring \<Rightarrow> qstring \<Rightarrow> nat \<Rightarrow> saved_session" where
  "savedSession g cwd pinned n =
     \<lparr>s_rows = m_rows g, s_cols = m_cols g, s_curRow = m_cursorRow g, s_curCol = m_cursorCol g,
      s_scrollback = map savedLine (drop n (m_scrollback g)),
      s_screen = map (\<lambda>row. savedRow g (int row)) [0 ..< nat (m_rows g)],
      s_title = m_windowTitle g, s_cwd = cwd, s_pinned = pinned\<rparr>"

lemma restorable_int32:
  assumes "restorable g cwd pinned" "n \<le> length (m_scrollback g)"
  shows "int32 (m_rows g)" "int32 (m_cols g)" "int32 (m_cursorRow g)" "int32 (m_cursorCol g)"
    "int32 (int (length (m_scrollback g)) - int n)"
  using assms by (auto simp: restorable_def int32_def kMaxRestoreRows_def kMaxRestoreCols_def
      kMaxRestoreScrollbackLines_def)

lemma readHeader_put:
  assumes "qds_ok q" "restorable g cwd pinned"
  shows "readHeader q (streamHeader q g @ r) =
    Some ((VERSION, m_rows g, m_cols g, m_cursorRow g, m_cursorCol g), r)"
  using assms restorable_int32 [OF assms(2) order.refl]
  by (simp add: readHeader_def streamHeader_def qds_simps i32.rd_put restorable_def)

lemma readScrollback_put:
  assumes "qds_ok q" "restorable g cwd pinned" "n \<le> length (m_scrollback g)"
  shows "readScrollback q (putI32 q (int (length (m_scrollback g)) - int n) @
      concat (map (writeScrollbackLine q) (drop n (m_scrollback g))) @ r) =
    Some (map savedLine (drop n (m_scrollback g)), r)"
proof -
  have all: "list_all (\<lambda>l. qds_ok q \<and> line_restorable l) (drop n (m_scrollback g))"
    using assms(1,2) by (auto simp: restorable_def list_all_iff dest: in_set_dropD)
  have len: "length (drop n (m_scrollback g)) = nat (int (length (m_scrollback g)) - int n)"
    using assms(3) by simp
  show ?thesis
    using line_codec.readMany_put [OF all, of r] restorable_int32(5) [OF assms(2,3)] assms
    unfolding len by (simp add: readScrollback_def i32.rd_put restorable_def)
qed

lemma readScreen_put:
  assumes "qds_ok q" "restorable g cwd pinned"
  shows "readScreen q (m_rows g) (m_cols g) (putI32 q (m_rows g) @
      concat (map (\<lambda>row. writeScreenRow q g (int row)) [0 ..< nat (m_rows g)]) @ r) =
    Some (map (\<lambda>row. savedRow g (int row)) [0 ..< nat (m_rows g)], r)"
proof -
  let ?rows = "map int [0 ..< nat (m_rows g)]"
  have all: "list_all (\<lambda>row. qds_ok q \<and> 0 \<le> m_cols g \<and> m_cols g \<le> kMaxRestoreLineCells \<and>
      comb_fits (combining (lineAt g row))) ?rows"
    using assms by (auto simp: restorable_def list_all_iff kMaxRestoreLineCells_def kMaxRestoreCols_def)
  show ?thesis
    using row_codec.readMany_put [OF all, of r] restorable_int32(1) [OF assms(2) order.refl] assms
    by (simp add: readScreen_def i32.rd_put restorable_def comp_def)
qed

lemma putStr_nonempty: "qds_ok q \<Longrightarrow> length s < 2 ^ 30 \<Longrightarrow> putStr q s \<noteq> []"
  by (metis Nil_is_append_conv add_is_0 length_0_conv qds_simps(8) zero_neq_numeral)

lemma readTrailing_put:
  "qds_ok q \<Longrightarrow> length s < 2 ^ 30 \<Longrightarrow> since \<le> version \<Longrightarrow>
   readTrailing q since version (putStr q s @ r) = Some (s, r)"
  by (simp add: readTrailing_def putStr_nonempty qds_simps)

text \<open>The stream of a grid is read back as the record of what was saved.\<close>

lemma parse_serialized:
  assumes "qds_ok q" "restorable g cwd pinned" "n \<le> length (m_scrollback g)"
  shows "parseStream q (serializeStream q g cwd pinned n) = Some (savedSession g cwd pinned n)"
proof -
  have len: "length (m_windowTitle g) < 2 ^ 30" "length cwd < 2 ^ 30" "length pinned < 2 ^ 30"
    using assms(2) by (simp_all add: restorable_def)
  have last: "readTrailing q 3 VERSION (putStr q pinned) = Some (pinned, [])"
    using readTrailing_put [OF assms(1) len(3), of 3 VERSION "[]"] by (simp add: VERSION_def)
  show ?thesis
    using len assms(1) last
    by (simp add: parseStream_def serializeStream_def readHeader_put [OF assms(1,2)]
        readScrollback_put [OF assms] readScreen_put [OF assms(1,2)] qds_simps readTrailing_put
        savedSession_def VERSION_def)
qed

section \<open>The envelope is undone\<close>

lemma envelope_header_length:
  "qds_ok q \<Longrightarrow> packer_ok z \<Longrightarrow> int (length (seal q z c)) = sealedSize c"
  by (simp add: seal_def sealedSize_def qds_simps packer_ok_def ENVELOPE_HEADER_SIZE_def)

lemma unwrap_seal:
  assumes "qds_ok q" "packer_ok z" "c \<noteq> []" "sealedSize c \<le> MAX_RESTORE_FILE_BYTES"
  shows "unwrap q z (seal q z c) = Some c"
proof -
  have s: "length (sha256 z c) = 32" using assms(2) by (simp add: packer_ok_def)
  have u: "uint (word_of_nat (length c) :: u32) = int (length c)" "int (length c) \<le> 104857556"
    using assms(4) by (simp_all add: sealedSize_def MAX_RESTORE_FILE_BYTES_def
        ENVELOPE_HEADER_SIZE_def unsigned_of_nat take_bit_nat_eq_self)
  have d: "drop 44 (seal q z c) = c" using assms(1) s by (simp add: seal_def qds_simps)
  have n: "int (length (seal q z c)) = 44 + int (length c)"
    using envelope_header_length [OF assms(1,2), of c]
    by (simp add: sealedSize_def ENVELOPE_HEADER_SIZE_def)
  have h: "u32Or0 q (seal q z c) = (ENVELOPE_MAGIC, putU32 q ENVELOPE_VERSION @ sha256 z c @
      putU32 q (word_of_nat (length c)) @ c)"
    "u32Or0 q (putU32 q ENVELOPE_VERSION @ t) = (ENVELOPE_VERSION, t)" for t
    using assms(1) by (simp_all add: u32Or0_def seal_def qds_simps)
  show ?thesis
    using assms(1,3) s u
    by (simp add: unwrap_def h n d Let_def qds_simps ENVELOPE_HEADER_SIZE_def MAX_RESTORE_FILE_BYTES_def)
qed

lemma inflate_compressed:
  assumes "packer_ok z" "raw \<noteq> []" "int (length raw) \<le> MAX_RESTORE_RAW_BYTES"
  shows "inflate z (qCompress z raw) = Some raw"
proof -
  have "length raw < 2 ^ 32"
    using assms(3) by (simp add: MAX_RESTORE_RAW_BYTES_def MAX_UNCOMPRESSED_def)
  then have p: "qUncompress z (qCompress z raw) = raw" "4 \<le> length (qCompress z raw)"
    "uint (claimedLength (qCompress z raw)) = int (length raw)"
    "int (length raw) \<le> int (length (qCompress z raw)) * 1032 + 64 * 1024"
    using assms(1,2) unfolding packer_ok_def by blast+
  then show ?thesis
    using assms(2,3) by (simp add: inflate_def MAX_RESTORE_RAW_BYTES_def word_less_def not_less)
qed


text \<open>The screen alone, without scrollback, is within both caps.\<close>

definition screen_fits :: "qds \<Rightarrow> packer \<Rightarrow> grid \<Rightarrow> qstring \<Rightarrow> qstring \<Rightarrow> bool" where
  "screen_fits q z g cwd pinned \<longleftrightarrow>
     fixedBytes g cwd pinned \<le> MAX_RESTORE_RAW_BYTES \<and>
     sealedSize (packFrom q z g cwd pinned (length (m_scrollback g))) \<le> MAX_RESTORE_FILE_BYTES"

text \<open>A file written with the default caps is opened, down to the stream that was written.\<close>

lemma saved_file_raw:
  assumes q: "qds_ok q" and z: "packer_ok z" and fit: "stream_fits g cwd pinned"
    and f: "screen_fits q z g cwd pinned"
  shows "parseFile q z (serialize q z g cwd pinned MAX_RESTORE_RAW_BYTES MAX_RESTORE_FILE_BYTES) =
    parseStream q (serializeStream q g cwd pinned
      (firstKept q z g cwd pinned MAX_RESTORE_RAW_BYTES MAX_RESTORE_FILE_BYTES))"
proof -
  define n where "n = firstKept q z g cwd pinned MAX_RESTORE_RAW_BYTES MAX_RESTORE_FILE_BYTES"
  let ?raw = "serializeStream q g cwd pinned n" and ?c = "packFrom q z g cwd pinned n"
  have nn: "0 \<le> MAX_RESTORE_FILE_BYTES" by (simp add: MAX_RESTORE_FILE_BYTES_def)
  have k: "firstLineWithin g cwd pinned MAX_RESTORE_RAW_BYTES \<le> n" "n \<le> length (m_scrollback g)"
    "sealedSize ?c \<le> MAX_RESTORE_FILE_BYTES \<or> n = length (m_scrollback g)"
    unfolding n_def by (rule firstKept_result [OF z nn])+
  have small: "sealedSize ?c \<le> MAX_RESTORE_FILE_BYTES" using k(3) f by (auto simp: screen_fits_def)
  have "int (length ?raw) \<le> MAX_RESTORE_RAW_BYTES"
  proof (cases "n < length (m_scrollback g)")
    case True
    then show ?thesis by (rule kept_stream_size [OF q fit k(1)])
  next
    case False
    then have "n = length (m_scrollback g)" using k(2) by simp
    then show ?thesis using f serializeStream_size [OF q fit k(2)] by (simp add: screen_fits_def)
  qed
  moreover have "?raw \<noteq> []"
    using size_header [OF q, of g] by (auto simp: serializeStream_def)
  ultimately have raw: "inflate z ?c = Some ?raw" "?c \<noteq> []"
    using inflate_compressed [OF z, of ?raw] by (auto simp: packFrom_def inflate_def split: if_splits)
  have "int (length (seal q z ?c)) \<le> MAX_RESTORE_FILE_BYTES"
    using small envelope_header_length [OF q z, of ?c] by simp
  then show ?thesis
    using unwrap_seal [OF q z raw(2) small] raw(1)
    by (simp add: parseFile_def serialize_def flip: n_def)
qed

lemma parse_saved_file:
  assumes "qds_ok q" "packer_ok z" "restorable g cwd pinned" "screen_fits q z g cwd pinned"
  shows "parseFile q z (serialize q z g cwd pinned MAX_RESTORE_RAW_BYTES MAX_RESTORE_FILE_BYTES) =
    Some (savedSession g cwd pinned
      (firstKept q z g cwd pinned MAX_RESTORE_RAW_BYTES MAX_RESTORE_FILE_BYTES))"
proof -
  have nn: "0 \<le> MAX_RESTORE_FILE_BYTES" by (simp add: MAX_RESTORE_FILE_BYTES_def)
  show ?thesis
    using saved_file_raw [OF assms(1,2) restorable_fits [OF assms(3)] assms(4)]
      parse_serialized [OF assms(1,3) firstKept_result(2) [OF assms(2) nn]] by simp
qed

section \<open>The restored grid\<close>

lemma resizeRegions_dims:
  "m_rows (resizeRegions a b g) = m_rows g" "m_cols (resizeRegions a b g) = m_cols g"
  by (simp_all add: resizeRegions_def Let_def)

lemma small_dims:
  "m_rows (markAllScreenDirty k) = m_rows k" "m_cols (markAllScreenDirty k) = m_cols k"
  "m_rows (initTabStops k) = m_rows k" "m_cols (initTabStops k) = m_cols k"
  "m_rows (dropActiveHyperlink k) = m_rows k" "m_cols (dropActiveHyperlink k) = m_cols k"
  "m_rows (k\<lparr>m_screenHyperlinks := hl\<rparr>) = m_rows k" "m_cols (k\<lparr>m_screenHyperlinks := hl\<rparr>) = m_cols k"
  "m_rows (k\<lparr>m_cursorRow := y, m_cursorCol := x\<rparr>) = m_rows k"
  "m_cols (k\<lparr>m_cursorRow := y, m_cursorCol := x\<rparr>) = m_cols k"
  "m_rows (if b then k\<lparr>m_freeCellBuffers := p\<rparr> else k) = m_rows k"
  "m_cols (if b then k\<lparr>m_freeCellBuffers := p\<rparr> else k) = m_cols k"
  by (simp_all add: markAllScreenDirty_def initTabStops_def dropActiveHyperlink_def)

lemma resize_dims [simp]: "m_rows (resize r w g) = r" "m_cols (resize r w g) = w"
proof -
  have "m_rows (k\<lparr>m_rows := r, m_cols := w\<rparr>) = r" "m_cols (k\<lparr>m_rows := r, m_cols := w\<rparr>) = w"
    for k :: grid by simp_all
  then show "m_rows (resize r w g) = r" "m_cols (resize r w g) = w"
    by (simp_all only: resize_def Let_def small_dims resizeRegions_dims split: if_split)
      auto
qed

lemma onlyHist_push: "onlyHist (bumpRevision g) (pushScrollbackLine l g)"
  unfolding pushScrollbackLine_def Let_def
  by (rule onlyHist_trans [OF _ onlyHist_trim]) (rule onlyHist_upd(1) [OF onlyHist_append])

lemmas push_frame = onlyHist_simps(1,2,7,9,10,11) [OF onlyHist_push, unfolded bumpRevision_def, simplified]

lemma wf_push_all:
  "grid_wf g \<Longrightarrow> list_all (\<lambda>l. comb_ok (combining l)) ls \<Longrightarrow> grid_wf (fold pushScrollbackLine ls g)"
  by (induction ls arbitrary: g) (simp_all add: wf_pushScrollbackLine wf_inv)

lemma push_all_dims [simp]:
  "m_rows (fold pushScrollbackLine ls g) = m_rows g" "m_cols (fold pushScrollbackLine ls g) = m_cols g"
  by (induction ls arbitrary: g) (simp_all add: push_frame)

lemma putScreenRow_frame [simp]:
  "m_rows (putScreenRow rl g) = m_rows g" "m_cols (putScreenRow rl g) = m_cols g"
  "m_scrollback (putScreenRow rl g) = m_scrollback g"
  by (simp_all add: putScreenRow_def updLine_def bumpRevision_def)

lemma wf_putScreenRow:
  assumes "grid_wf g" "int (length (cells (snd rl))) \<le> m_cols g" "comb_ok (combining (snd rl))"
  shows "grid_wf (putScreenRow rl g)"
proof -
  have "m_cols (bumpRevision g) = m_cols g" by (simp add: bumpRevision_def)
  then show ?thesis
    unfolding putScreenRow_def
    by (intro wf_updLine) (use assms in \<open>auto simp: line_ok_def\<close>)
qed

end
