(* ===== verification/SessionGrid.thy ===== *)
theory SessionGrid
  imports SessionRestore GridHistory GridModes "HOL-Library.Sublist"
begin

text \<open>
  The grid a restore leaves: it satisfies the invariant whatever bytes were read, its screen is
  the saved screen, and its scrollback is the saved one, up to the cells' trim and the caps.
\<close>

section \<open>What the parser accepts\<close>

definition parsed_line_ok :: "term_line \<Rightarrow> bool" where
  "parsed_line_ok l \<longleftrightarrow>
     comb_ok (combining l) \<and> int (length (cells l)) \<le> kMaxRestoreLineCells \<and> dirty l"

lemma readScrollbackLine_ok: "readScrollbackLine q s = Some (l, r) \<Longrightarrow> parsed_line_ok l"
  by (auto simp: readScrollbackLine_def bind_eq_Some_conv parsed_line_ok_def line0_def readCombining_ok
      split: if_splits dest!: readMany_Some [where P = "\<lambda>_. True"])

definition parsed_row_ok :: "int \<Rightarrow> term_line \<Rightarrow> bool" where
  "parsed_row_ok w l \<longleftrightarrow> comb_ok (combining l) \<and> int (length (cells l)) \<le> w"

lemma readScreenRow_ok: "0 < w \<Longrightarrow> readScreenRow q w s = Some (l, r) \<Longrightarrow> parsed_row_ok w l"
  by (auto simp: readScreenRow_def bind_eq_Some_conv parsed_row_ok_def line0_def readCombining_ok
      split: if_splits dest!: readMany_Some [where P = "\<lambda>_. True"])

definition session_ok :: "saved_session \<Rightarrow> bool" where
  "session_ok s \<longleftrightarrow>
     0 < s_rows s \<and> s_rows s \<le> kMaxRestoreRows \<and> 0 < s_cols s \<and> s_cols s \<le> kMaxRestoreCols \<and>
     int (length (s_scrollback s)) \<le> kMaxRestoreScrollbackLines \<and>
     list_all parsed_line_ok (s_scrollback s) \<and>
     int (length (s_screen s)) \<le> s_rows s \<and> list_all (parsed_row_ok (s_cols s)) (s_screen s)"

lemma readScrollback_ok:
  assumes "readScrollback q s = Some (ls, r)"
  shows "list_all parsed_line_ok ls" "int (length ls) \<le> kMaxRestoreScrollbackLines"
proof -
  obtain n t where n: "readMany (readScrollbackLine q) (nat n) t = Some (ls, r)"
    "n \<le> kMaxRestoreScrollbackLines"
    using assms by (auto simp: readScrollback_def bind_eq_Some_conv split: if_splits)
  have "length ls = nat n \<and> list_all parsed_line_ok ls"
    using n(1) by (rule readMany_Some) (rule readScrollbackLine_ok)
  then show "list_all parsed_line_ok ls" "int (length ls) \<le> kMaxRestoreScrollbackLines"
    using n(2) by (auto simp: kMaxRestoreScrollbackLines_def)
qed

lemma readScreen_ok:
  assumes "readScreen q rows w s = Some (ls, r)" "0 < rows" "0 < w"
  shows "list_all (parsed_row_ok w) ls" "int (length ls) \<le> rows"
proof -
  obtain n t r' where n: "readMany (readScreenRow q w) (nat (min n rows)) t = Some (ls, r')"
    using assms(1) by (auto simp: readScreen_def bind_eq_Some_conv split: if_splits)
  have "length ls = nat (min n rows) \<and> list_all (parsed_row_ok w) ls"
    using n by (rule readMany_Some) (rule readScreenRow_ok [OF assms(3)])
  then show "list_all (parsed_row_ok w) ls" "int (length ls) \<le> rows" using assms(2) by auto
qed

lemma parseStream_ok:
  assumes "parseStream q raw = Some s"
  shows "session_ok s"
proof -
  obtain v curRow curCol t sb t2 sc t3 where
    h: "readHeader q raw = Some ((v, s_rows s, s_cols s, curRow, curCol), t)" and
    b: "readScrollback q t = Some (sb, t2)" and sc: "readScreen q (s_rows s) (s_cols s) t2 = Some (sc, t3)" and
    f: "s_scrollback s = sb" "s_screen s = sc"
    using assms by (fastforce simp: parseStream_def bind_eq_Some_conv)
  have d: "0 < s_rows s" "s_rows s \<le> kMaxRestoreRows" "0 < s_cols s" "s_cols s \<le> kMaxRestoreCols"
    using h by (auto simp: readHeader_def bind_eq_Some_conv split: if_splits)
  show ?thesis
    using readScrollback_ok [OF b] readScreen_ok [OF sc d(1,3)] d by (simp add: session_ok_def f)
qed

lemma parseFile_ok: "parseFile q z input = Some s \<Longrightarrow> session_ok s"
  by (auto simp: parseFile_def bind_eq_Some_conv split: if_splits intro: parseStream_ok)

section \<open>The screen\<close>

lemma putScreen_snoc: "putScreen (ls @ [l]) g = putScreenRow (int (length ls), l) (putScreen ls g)"
  by (simp add: putScreen_def enumerate_append_eq)

lemma putScreen_Nil [simp]: "putScreen [] g = g"
  by (simp add: putScreen_def)

lemma putScreen_frame [simp]:
  "m_rows (putScreen ls g) = m_rows g" "m_cols (putScreen ls g) = m_cols g"
  "m_scrollback (putScreen ls g) = m_scrollback g"
  by (induction ls rule: rev_induct) (simp_all add: putScreen_snoc)

lemma wf_putScreen:
  "grid_wf g \<Longrightarrow> list_all (parsed_row_ok (m_cols g)) ls \<Longrightarrow> grid_wf (putScreen ls g)"
  by (induction ls rule: rev_induct)
    (simp_all add: putScreen_snoc wf_putScreenRow parsed_row_ok_def)

definition overlay :: "term_line \<Rightarrow> term_line \<Rightarrow> term_line" where
  "overlay l d = d\<lparr>cells := cells l @ drop (length (cells l)) (cells d), combining := combining l\<rparr>"

lemma putScreenRow_lines:
  "m_screenLines (putScreenRow (i, l) g) = vupd i (overlay l) (m_screenLines g)"
  by (simp add: putScreenRow_def bumpRevision_def overlay_def [abs_def])

lemma putScreen_line:
  assumes "length ls \<le> length (m_screenLines g)"
  shows "length (m_screenLines (putScreen ls g)) = length (m_screenLines g)"
    "k < length ls \<Longrightarrow> m_screenLines (putScreen ls g) ! k = overlay (ls ! k) (m_screenLines g ! k)"
proof -
  have "length (m_screenLines (putScreen ls g)) = length (m_screenLines g) \<and>
    (\<forall>k < length (m_screenLines g). m_screenLines (putScreen ls g) ! k =
       (if k < length ls then overlay (ls ! k) (m_screenLines g ! k) else m_screenLines g ! k))"
    using assms
    by (induction ls rule: rev_induct)
      (auto simp: putScreen_snoc putScreenRow_lines nth_vupd nth_append less_Suc_eq)
  then show "length (m_screenLines (putScreen ls g)) = length (m_screenLines g)"
    "k < length ls \<Longrightarrow> m_screenLines (putScreen ls g) ! k = overlay (ls ! k) (m_screenLines g ! k)"
    using assms by auto
qed

section \<open>The scrollback\<close>

definition pushed :: "term_line \<Rightarrow> grid \<Rightarrow> grid" where
  "pushed l g = (appendScrollback l (bumpRevision g))
     \<lparr>m_scrollbackHyperlinks := m_scrollbackHyperlinks (bumpRevision g) @ [[]]\<rparr>"

lemma push_pushed: "pushScrollbackLine l g = trimScrollbackToCap (pushed l g)"
  by (simp add: pushScrollbackLine_def Let_def pushed_def)

lemma pushed_views: "viewsOf (pushed l g) = viewsOf g @ [rowView l]"
  using append_views [of l "bumpRevision g"] by (simp add: viewsOf_def pushed_def bumpRevision_def)

lemma pushed_inv: "grid_wf g \<Longrightarrow> comb_ok (combining l) \<Longrightarrow> hist_inv (pushed l g)"
  using inv_append [of "bumpRevision g" l "[]"] by (simp add: pushed_def wf_inv inv_hist)

lemma pushed_evict:
  "grid_wf g \<Longrightarrow> comb_ok (combining l) \<Longrightarrow> pushScrollbackLine l g = evictLoop (pushed l g)"
  by (simp add: push_pushed trim_evict pushed_inv)

text \<open>
  A pushed line is kept without its trailing blanks, and the oldest lines go only as far as the
  caps require: with one line fewer dropped the history would not be within them.
\<close>

definition keptRow :: "grid \<Rightarrow> term_line \<Rightarrow> term_line" where
  "keptRow g l = fst (trimmedForScrollback l g)"

definition capped :: "grid \<Rightarrow> term_line list \<Rightarrow> bool" where
  "capped g xs \<longleftrightarrow> cap_ok xs (sum_list (map cellBytes xs)) (m_maxScrollback g) (m_maxScrollbackMib g)"

definition cutTo :: "grid \<Rightarrow> term_line list \<Rightarrow> term_line list \<Rightarrow> bool" where
  "cutTo g xs ys \<longleftrightarrow> (\<exists>k \<le> length xs. ys = drop k xs \<and> (0 < k \<longrightarrow> \<not> capped g (drop (k - 1) xs)))"

lemma keptRow_bg: "m_defaultBg h = m_defaultBg g \<Longrightarrow> keptRow h l = keptRow g l"
  by (simp add: keptRow_def trimmedForScrollback_def Let_def)

lemma keptRow_view: "rowView (keptRow g l) = rowView l"
  using rowView_trimmed [of l g] by (simp add: keptRow_def)

lemma sum_cellBytes_nonneg: "0 \<le> sum_list (map cellBytes ls)"
  by (induction ls) auto

lemma capped_prefix: "capped g (xs @ ys) \<Longrightarrow> capped g xs"
  using sum_cellBytes_nonneg [of ys] by (simp add: capped_def cap_ok_def)

lemma capped_suffix: "capped g (xs @ ys) \<Longrightarrow> capped g ys"
  using sum_cellBytes_nonneg [of xs] by (simp add: capped_def cap_ok_def)

lemma cutTo_all: "cutTo g xs ys \<Longrightarrow> capped g xs \<Longrightarrow> ys = xs"
proof -
  assume "cutTo g xs ys" and c: "capped g xs"
  then obtain k where k: "ys = drop k xs" "0 < k \<longrightarrow> \<not> capped g (drop (k - 1) xs)"
    by (auto simp: cutTo_def)
  have "capped g (drop (k - 1) xs)"
    using capped_suffix [of g "take (k - 1) xs"] c by simp
  then show ?thesis using k by simp
qed

lemma cutTo_suffix: "cutTo g xs ys \<Longrightarrow> suffix ys xs"
  by (auto simp: cutTo_def suffix_drop)

lemma cutTo_trans:
  assumes "cutTo g xs ys" "cutTo g (ys @ new) zs"
  shows "cutTo g (xs @ new) zs"
proof -
  obtain k j where k: "k \<le> length xs" "ys = drop k xs" "0 < k \<longrightarrow> \<not> capped g (drop (k - 1) xs)"
    and j: "j \<le> length (ys @ new)" "zs = drop j (ys @ new)" "0 < j \<longrightarrow> \<not> capped g (drop (j - 1) (ys @ new))"
    using assms unfolding cutTo_def by blast
  have d: "ys @ new = drop k (xs @ new)" using k(1,2) by simp
  have "zs = drop (j + k) (xs @ new)" unfolding j(2) d by (simp only: drop_drop)
  moreover have "j + k \<le> length (xs @ new)" using j(1) k(1,2) by simp
  moreover have "\<not> capped g (drop (j + k - 1) (xs @ new))" if "0 < j + k"
  proof (cases "0 < j")
    case True
    then have e: "j - 1 + k = j + k - 1" by simp
    have "\<not> capped g (drop (j - 1) (drop k (xs @ new)))" using True j(3) unfolding d by blast
    then show ?thesis unfolding drop_drop e .
  next
    case False
    then have "\<not> capped g (drop (k - 1) xs)" using that k(3) by simp
    moreover have "drop (k - 1) (xs @ new) = drop (k - 1) xs @ new" using k(1) by simp
    ultimately show ?thesis using False capped_prefix [of g "drop (k - 1) xs" new] by auto
  qed
  ultimately show ?thesis unfolding cutTo_def by blast
qed

lemma pushed_scrollback: "m_scrollback (pushed l g) = m_scrollback g @ [keptRow g l]"
proof -
  obtain t k where t: "trimmedForScrollback l (bumpRevision g) = (t, k)"
    by (cases "trimmedForScrollback l (bumpRevision g)")
  have "keptRow g l = t" using keptRow_bg [of "bumpRevision g" g l] t by (simp add: keptRow_def bumpRevision_def)
  then show ?thesis
    using t trimmed_frame(1) [of l "bumpRevision g"] by (simp add: pushed_def appendScrollback_def bumpRevision_def)
qed

lemma push_title: "m_windowTitle (pushScrollbackLine l g) = m_windowTitle g"
proof -
  have "m_windowTitle (dropHist (pushScrollbackLine l g)) = m_windowTitle (dropHist (bumpRevision g))"
    using onlyHist_push [of g l] by (simp add: onlyHist_def)
  then show ?thesis by (simp add: dropHist_def bumpRevision_def)
qed

lemma push_all_fields:
  "m_maxScrollback (fold pushScrollbackLine ls g) = m_maxScrollback g"
  "m_maxScrollbackMib (fold pushScrollbackLine ls g) = m_maxScrollbackMib g"
  "m_defaultBg (fold pushScrollbackLine ls g) = m_defaultBg g"
  "m_windowTitle (fold pushScrollbackLine ls g) = m_windowTitle g"
  by (induction ls arbitrary: g) (simp_all add: push_frame push_title)

lemma push_cut:
  assumes "grid_wf g" "comb_ok (combining l)"
  shows "cutTo g (m_scrollback g @ [keptRow g l]) (m_scrollback (pushScrollbackLine l g))"
proof -
  have o: "onlyHist (bumpRevision g) (pushed l g)"
    unfolding pushed_def by (rule onlyHist_upd(1) [OF onlyHist_append])
  have c: "m_maxScrollback (pushed l g) = m_maxScrollback g" "m_maxScrollbackMib (pushed l g) = m_maxScrollbackMib g"
    using onlyHist_simps(9,10) [OF o] by (simp_all add: bumpRevision_def)
  show ?thesis
    using evictLoop_drop [OF pushed_inv [OF assms]] pushed_evict [OF assms]
    unfolding cutTo_def capped_def pushed_scrollback c by auto
qed

lemma push_all_cut:
  assumes "grid_wf g" "list_all (\<lambda>l. comb_ok (combining l)) ls"
  shows "cutTo g (m_scrollback g @ map (keptRow g) ls) (m_scrollback (fold pushScrollbackLine ls g))"
  using assms
proof (induction ls rule: rev_induct)
  case Nil
  then show ?case by (auto simp: cutTo_def intro: exI [of _ 0])
next
  case (snoc l ls)
  let ?h = "fold pushScrollbackLine ls g"
  have a: "cutTo ?h (m_scrollback ?h @ [keptRow ?h l]) (m_scrollback (pushScrollbackLine l ?h))"
    by (rule push_cut) (use snoc.prems in \<open>auto intro: wf_push_all\<close>)
  then have "cutTo g (m_scrollback ?h @ [keptRow g l]) (m_scrollback (pushScrollbackLine l ?h))"
    using keptRow_bg [OF push_all_fields(3) [of ls g]]
    by (simp add: cutTo_def capped_def push_all_fields)
  moreover have "cutTo g (m_scrollback g @ map (keptRow g) ls) (m_scrollback ?h)"
    using snoc by simp
  ultimately show ?case using cutTo_trans by fastforce
qed

section \<open>The restored grid\<close>

text \<open>\<open>commit\<close> up to the title.\<close>

definition filled :: "saved_session \<Rightarrow> grid \<Rightarrow> grid" where
  "filled s g = putScreen (s_screen s) (fold pushScrollbackLine (s_scrollback s) (resize (s_rows s) (s_cols s) g))"

lemma commit_filled:
  "commit s g =
     (let h = setCursorPosition (clamp (s_curRow s) 0 (s_rows s - 1))
                (clamp (s_curCol s) 0 (s_cols s - 1)) (filled s g)
      in if s_title s \<noteq> [] then setTitle (s_title s) h else h)"
  by (simp add: commit_def filled_def Let_def)

lemma commit_fields:
  "m_rows (commit s g) = s_rows s" "m_cols (commit s g) = s_cols s"
  "m_screenLines (commit s g) = m_screenLines (filled s g)"
  "m_scrollback (commit s g) =
     m_scrollback (fold pushScrollbackLine (s_scrollback s) (resize (s_rows s) (s_cols s) g))"
  "m_cursorRow (commit s g) = clamp (s_curRow s) 0 (s_rows s - 1)"
  "m_cursorCol (commit s g) = clamp (s_curCol s) 0 (s_cols s - 1)"
  by (simp_all add: commit_filled Let_def setCursorPosition_def setTitle_def bumpRevision_def filled_def)

lemma commit_title:
  "s_title s \<noteq> [] \<Longrightarrow> m_windowTitle (commit s g) = dropHigh (take kMaxWindowTitleChars (s_title s))"
  by (simp add: commit_filled Let_def setTitle_def dropHigh_def)

lemma putScreen_title: "m_windowTitle (putScreen ls g) = m_windowTitle g"
  by (induction ls rule: rev_induct) (simp_all add: putScreen_snoc putScreenRow_def bumpRevision_def updLine_def)

lemma commit_untitled:
  "s_title s = [] \<Longrightarrow> m_windowTitle (commit s g) = m_windowTitle (resize (s_rows s) (s_cols s) g)"
  by (simp add: commit_filled Let_def filled_def putScreen_title push_all_fields setCursorPosition_def bumpRevision_def)

lemma session_comb: "session_ok s \<Longrightarrow> list_all (\<lambda>l. comb_ok (combining l)) (s_scrollback s)"
  by (auto simp: session_ok_def parsed_line_ok_def list_all_iff)

lemma wf_filled:
  assumes "grid_wf g" "session_ok s"
  shows "grid_wf (filled s g)"
  unfolding filled_def
  using assms session_comb [OF assms(2)]
  by (intro wf_putScreen wf_push_all wf_resize) (auto simp: session_ok_def)

lemma wf_commit:
  assumes "grid_wf g" "session_ok s"
  shows "grid_wf (commit s g)"
proof -
  have d: "m_rows (filled s g) = s_rows s" "m_cols (filled s g) = s_cols s"
    by (simp_all add: filled_def)
  have "grid_wf (setCursorPosition (clamp (s_curRow s) 0 (s_rows s - 1))
      (clamp (s_curCol s) 0 (s_cols s - 1)) (filled s g))"
    by (rule wf_setCursorPosition [OF wf_filled [OF assms]])
      (use assms(2) in \<open>simp_all add: session_ok_def d\<close>)
  then show ?thesis by (simp add: commit_filled Let_def wf_setTitle)
qed

text \<open>Each row of the restored screen is the saved row, laid over what the row held.\<close>

lemma commit_row:
  assumes "grid_wf g" "session_ok s" "k < length (s_screen s)"
  shows "m_screenLines (commit s g) ! k =
    overlay (s_screen s ! k)
      (m_screenLines (fold pushScrollbackLine (s_scrollback s) (resize (s_rows s) (s_cols s) g)) ! k)"
proof -
  let ?h = "fold pushScrollbackLine (s_scrollback s) (resize (s_rows s) (s_cols s) g)"
  have "grid_wf ?h"
    using assms(1,2) session_comb [OF assms(2)]
    by (intro wf_push_all wf_resize) (auto simp: session_ok_def)
  then have "int (length (m_screenLines ?h)) = s_rows s" by (simp add: wf_defs lines_ok_def)
  then have "length (s_screen s) \<le> length (m_screenLines ?h)"
    using assms(2) by (simp add: session_ok_def)
  then show ?thesis
    using putScreen_line(2) [of "s_screen s" ?h k] assms(3) by (simp add: commit_fields filled_def)
qed

end
