(* ===== verification/SessionFiles.thy ===== *)
theory SessionFiles
  imports SessionGrid
begin

text \<open>
  The files of a session: the atomic owner-only write every saved file goes through
  (\<open>writeFileAtomicOwnerOnly\<close>, \<open>src/src/secureio.h\<close>), the copy kept of a refused file
  (\<open>rotateCorruptFileAside\<close>, \<open>src/src/configbackup.h\<close>), and what \<open>SessionManager\<close> does with
  them: session paths, synchronous and queued saves, loading, removing, and the tab order.
\<close>

section \<open>Text\<close>

definition asc :: "string \<Rightarrow> qstring" where
  "asc s = map (\<lambda>c. of_char c) s"

definition isAlnumHyphen :: "u16 \<Rightarrow> bool" where
  "isAlnumHyphen u \<longleftrightarrow> 0x61 \<le> u \<and> u \<le> 0x7A \<or> 0x41 \<le> u \<and> u \<le> 0x5A \<or> 0x30 \<le> u \<and> u \<le> 0x39 \<or> u = 0x2D"

text \<open>
  The match of \<open>^[a-zA-Z0-9\-]+$\<close>. Without \<open>DollarEndOnly\<close> the dollar also matches before a
  final line feed.
\<close>

definition idCore :: "qstring \<Rightarrow> qstring" where
  "idCore s = (if s \<noteq> [] \<and> last s = 0x0A then butlast s else s)"

definition validId :: "qstring \<Rightarrow> bool" where
  "validId s \<longleftrightarrow> idCore s \<noteq> [] \<and> list_all isAlnumHyphen (idCore s)"

text \<open>An empty path stands for a refused id. The directory is a parameter.\<close>

definition sessionPath :: "qstring \<Rightarrow> qstring \<Rightarrow> qstring" where
  "sessionPath dir tabId = (if validId tabId then dir @ asc ''/session_'' @ tabId @ asc ''.dat'' else [])"

definition tmpPath :: "qstring \<Rightarrow> qstring \<Rightarrow> qstring" where
  "tmpPath pid path = path @ asc ''.'' @ pid @ asc ''.tmp''"

lemma tmpPath_neq [simp]: "tmpPath pid path \<noteq> path" "path \<noteq> tmpPath pid path"
  by (simp_all add: tmpPath_def asc_def)

section \<open>The atomic owner-only write\<close>

record disk_file =
  contents :: bytes
  ownerOnly :: bool

type_synonym disk = "qstring \<Rightarrow> disk_file option"

text \<open>
  What the system answers to the calls of one write: whether \<open>open\<close> gives a descriptor and
  \<open>QFile::open\<close> takes it, whether the mode is set, how many bytes reach the file before the
  write or the flush fails, whether the rename succeeds, whether the mode is set again, and
  whether the temp file of a failed write can be removed. The results of \<open>fsync\<close> are ignored
  by the source and have no effect on the states of the disk as programs read it.
\<close>

record syscalls =
  sc_open :: bool
  sc_fdopen :: bool
  sc_fchmod :: bool
  sc_written :: nat
  sc_flush :: bool
  sc_rename :: bool
  sc_chmod :: bool
  sc_unlink :: bool

datatype temp_perms = Refuse | Warn

text \<open>\<open>open(O_CREAT | O_TRUNC, 0600)\<close>: a file that is there is emptied and keeps its mode.\<close>

definition openTmp :: "qstring \<Rightarrow> disk \<Rightarrow> disk" where
  "openTmp tmp d = d(tmp \<mapsto> (case d tmp of None \<Rightarrow> \<lparr>contents = [], ownerOnly = True\<rparr>
                                  | Some f \<Rightarrow> f\<lparr>contents := []\<rparr>))"

definition setOwnerOnly :: "qstring \<Rightarrow> bool \<Rightarrow> disk \<Rightarrow> disk" where
  "setOwnerOnly path ok d =
     (if ok then d(path := map_option (\<lambda>f. f\<lparr>ownerOnly := True\<rparr>) (d path)) else d)"

definition writeTmp :: "qstring \<Rightarrow> bytes \<Rightarrow> disk \<Rightarrow> disk" where
  "writeTmp tmp bs d = d(tmp := map_option (\<lambda>f. f\<lparr>contents := bs\<rparr>) (d tmp))"

definition removeFile :: "qstring \<Rightarrow> disk \<Rightarrow> disk" where
  "removeFile path d = d(path := None)"

definition renameFile :: "qstring \<Rightarrow> qstring \<Rightarrow> disk \<Rightarrow> disk" where
  "renameFile tmp path d = d(path := d tmp, tmp := None)"

definition removeTmp :: "syscalls \<Rightarrow> qstring \<Rightarrow> disk \<Rightarrow> disk" where
  "removeTmp sc tmp d = (if sc_unlink sc then removeFile tmp d else d)"

text \<open>
  The result and every state the disk goes through, in order: a crash leaves one of them. A
  descriptor \<open>QFile\<close> does not take is closed, and the emptied temp file stays.
\<close>

definition writeFileAtomicOwnerOnly ::
  "syscalls \<Rightarrow> temp_perms \<Rightarrow> qstring \<Rightarrow> qstring \<Rightarrow> bytes \<Rightarrow> disk \<Rightarrow> bool \<times> disk list" where
  "writeFileAtomicOwnerOnly sc perms path tmp bs d0 =
     (if \<not> sc_open sc then (False, [d0])
      else if \<not> sc_fdopen sc then (False, [d0, openTmp tmp d0])
      else
        (let d1 = openTmp tmp d0;
             d2 = setOwnerOnly tmp (sc_fchmod sc) d1
         in if \<not> sc_fchmod sc \<and> perms = Refuse then (False, [d0, d1, removeTmp sc tmp d2])
            else
              (let d3 = writeTmp tmp (take (sc_written sc) bs) d2
               in if sc_written sc < length bs \<or> \<not> sc_flush sc
                  then (False, [d0, d1, d2, d3, removeTmp sc tmp d3])
                  else if \<not> sc_rename sc then (False, [d0, d1, d2, d3, removeTmp sc tmp d3])
                  else (let d4 = renameFile tmp path d3
                        in (True, [d0, d1, d2, d3, d4, setOwnerOnly path (sc_chmod sc) d4])))))"

definition afterWrite ::
  "syscalls \<Rightarrow> temp_perms \<Rightarrow> qstring \<Rightarrow> qstring \<Rightarrow> bytes \<Rightarrow> disk \<Rightarrow> disk" where
  "afterWrite sc perms path tmp bs d = last (snd (writeFileAtomicOwnerOnly sc perms path tmp bs d))"

lemmas disk_ops = openTmp_def setOwnerOnly_def writeTmp_def removeFile_def renameFile_def removeTmp_def

text \<open>At every moment the path holds the old file or all of the new one.\<close>

lemma write_atomic:
  assumes "tmp \<noteq> path" "d \<in> set (snd (writeFileAtomicOwnerOnly sc perms path tmp bs d0))"
  shows "d path = d0 path \<or> map_option contents (d path) = Some bs"
  using assms
  by (auto simp: writeFileAtomicOwnerOnly_def Let_def disk_ops split: if_splits option.splits)

text \<open>
  The result says which, and no temp file is left behind a write that got one open and could
  remove it.
\<close>

lemma write_result:
  assumes "tmp \<noteq> path"
  shows "fst (writeFileAtomicOwnerOnly sc perms path tmp bs d0) \<Longrightarrow>
      map_option contents (afterWrite sc perms path tmp bs d0 path) = Some bs"
    "\<not> fst (writeFileAtomicOwnerOnly sc perms path tmp bs d0) \<Longrightarrow>
      afterWrite sc perms path tmp bs d0 path = d0 path"
    "sc_open sc \<Longrightarrow> sc_fdopen sc \<Longrightarrow> sc_unlink sc \<Longrightarrow> afterWrite sc perms path tmp bs d0 tmp = None"
    "other \<noteq> path \<Longrightarrow> other \<noteq> tmp \<Longrightarrow> afterWrite sc perms path tmp bs d0 other = d0 other"
  using assms
  by (auto simp: afterWrite_def writeFileAtomicOwnerOnly_def Let_def disk_ops
      split: if_splits option.splits)

text \<open>Under \<open>Refuse\<close> the data is never in a file others can read.\<close>

lemma write_private:
  assumes "tmp \<noteq> path" "d \<in> set (snd (writeFileAtomicOwnerOnly sc Refuse path tmp bs d0))"
  shows "\<And>f. d tmp = Some f \<Longrightarrow> contents f = [] \<or> ownerOnly f \<or> d tmp = d0 tmp"
    "\<And>f. d path = Some f \<Longrightarrow> ownerOnly f \<or> d path = d0 path"
  using assms
  by (auto simp: writeFileAtomicOwnerOnly_def Let_def disk_ops split: if_splits option.splits)


section \<open>Keeping a refused file\<close>

definition corruptName :: "qstring \<Rightarrow> int \<Rightarrow> nat \<Rightarrow> qstring" where
  "corruptName path stamp attempt = path @ asc ''.corrupt-'' @ asc (toString stamp) @
     (if attempt > 0 then asc ''-'' @ asc (toString (int attempt)) else [])"

text \<open>\<open>QFile::copy\<close> refuses to overwrite; \<open>copyOk\<close> is whether the system lets it write.\<close>

definition copyFile :: "(qstring \<Rightarrow> bool) \<Rightarrow> qstring \<Rightarrow> qstring \<Rightarrow> disk \<Rightarrow> disk option" where
  "copyFile copyOk src dst d =
     (case d src of None \<Rightarrow> None
      | Some f \<Rightarrow> if d dst = None \<and> copyOk dst then Some (d(dst \<mapsto> f)) else None)"

fun copyAside :: "(qstring \<Rightarrow> bool) \<Rightarrow> qstring \<Rightarrow> int \<Rightarrow> nat list \<Rightarrow> disk \<Rightarrow> (qstring \<times> disk) option" where
  "copyAside copyOk path stamp [] d = None"
| "copyAside copyOk path stamp (k # ks) d =
     (case copyFile copyOk path (corruptName path stamp k) d of
        Some d' \<Rightarrow> Some (corruptName path stamp k, d')
      | None \<Rightarrow> copyAside copyOk path stamp ks d)"

text \<open>
  \<open>siblings\<close> is the directory's listing of the names that start with the path and
  \<open>.corrupt-\<close>, newest first; all but the first five of them are removed.
\<close>

definition rotateCorruptFileAside ::
  "(qstring \<Rightarrow> bool) \<Rightarrow> (disk \<Rightarrow> qstring \<Rightarrow> qstring list) \<Rightarrow> int \<Rightarrow> qstring \<Rightarrow> disk \<Rightarrow> qstring \<times> disk" where
  "rotateCorruptFileAside copyOk siblings stamp path d =
     (case copyAside copyOk path stamp [0 ..< 10] d of
        None \<Rightarrow> ([], d)
      | Some (chosen, d) \<Rightarrow> (chosen, fold removeFile (drop 5 (siblings d path)) d))"

section \<open>The sessions on disk\<close>

record save_job =
  j_tab :: qstring
  j_path :: qstring
  j_tmp :: qstring
  j_raw :: bytes
  j_maxFile :: int
  j_kept :: bool
  j_sys :: syscalls

text \<open>The disk, the tabs whose queued save overshot, and the job of the one worker.\<close>

record sessions =
  ss_disk :: disk
  ss_overshot :: "qstring set"
  ss_pending :: "save_job option"

text \<open>The directory, the process id and the two libraries.\<close>

record session_env =
  se_qds :: qds
  se_packer :: packer
  se_dir :: qstring
  se_pid :: qstring

definition jobOverLimit :: "session_env \<Rightarrow> save_job \<Rightarrow> bool" where
  "jobOverLimit e j \<longleftrightarrow> j_kept j \<and> sealedSize (qCompress (se_packer e) (j_raw j)) > j_maxFile j"

definition writeBlob :: "syscalls \<Rightarrow> qstring \<Rightarrow> qstring \<Rightarrow> bytes \<Rightarrow> disk \<Rightarrow> disk" where
  "writeBlob sc path tmp bs d = afterWrite sc Refuse path tmp bs d"

definition runJob :: "session_env \<Rightarrow> save_job \<Rightarrow> sessions \<Rightarrow> sessions" where
  "runJob e j s =
     (if jobOverLimit e j then s\<lparr>ss_overshot := insert (j_tab j) (ss_overshot s)\<rparr>
      else s\<lparr>ss_disk := writeBlob (j_sys j) (j_path j) (j_tmp j)
               (seal (se_qds e) (se_packer e) (qCompress (se_packer e) (j_raw j))) (ss_disk s)\<rparr>)"

definition waitForPendingSaves :: "session_env \<Rightarrow> sessions \<Rightarrow> sessions" where
  "waitForPendingSaves e s =
     (case ss_pending s of None \<Rightarrow> s | Some j \<Rightarrow> (runJob e j s)\<lparr>ss_pending := None\<rparr>)"

definition saveSession ::
  "session_env \<Rightarrow> syscalls \<Rightarrow> qstring \<Rightarrow> grid \<Rightarrow> qstring \<Rightarrow> qstring \<Rightarrow> sessions \<Rightarrow> sessions" where
  "saveSession e sc tabId g cwd pinned s0 =
     (let s = waitForPendingSaves e s0;
          bs = serialize (se_qds e) (se_packer e) g cwd pinned MAX_RESTORE_RAW_BYTES MAX_RESTORE_FILE_BYTES;
          path = sessionPath (se_dir e) tabId
      in if path = [] then s
         else s\<lparr>ss_disk := writeBlob sc path (tmpPath (se_pid e) path) bs (ss_disk s)\<rparr>)"

definition saveJob ::
  "session_env \<Rightarrow> syscalls \<Rightarrow> qstring \<Rightarrow> grid \<Rightarrow> qstring \<Rightarrow> qstring \<Rightarrow> int \<Rightarrow> save_job" where
  "saveJob e sc tabId g cwd pinned maxFile =
     (let path = sessionPath (se_dir e) tabId;
          first = firstLineWithin g cwd pinned MAX_RESTORE_RAW_BYTES
      in \<lparr>j_tab = tabId, j_path = path, j_tmp = tmpPath (se_pid e) path,
          j_raw = serializeStream (se_qds e) g cwd pinned first, j_maxFile = maxFile,
          j_kept = first < length (m_scrollback g), j_sys = sc\<rparr>)"

definition saveSessionAsync ::
  "session_env \<Rightarrow> syscalls \<Rightarrow> qstring \<Rightarrow> grid \<Rightarrow> qstring \<Rightarrow> qstring \<Rightarrow> int \<Rightarrow> sessions \<Rightarrow> sessions" where
  "saveSessionAsync e sc tabId g cwd pinned maxFile s =
     (if sessionPath (se_dir e) tabId = [] then s
      else (waitForPendingSaves e s)\<lparr>ss_pending := Some (saveJob e sc tabId g cwd pinned maxFile)\<rparr>)"

definition takeOvershoot :: "qstring \<Rightarrow> sessions \<Rightarrow> bool \<times> sessions" where
  "takeOvershoot tabId s = (tabId \<in> ss_overshot s, s\<lparr>ss_overshot := ss_overshot s - {tabId}\<rparr>)"

definition removeSession :: "session_env \<Rightarrow> qstring \<Rightarrow> sessions \<Rightarrow> sessions" where
  "removeSession e tabId s0 =
     (let s = waitForPendingSaves e s0; path = sessionPath (se_dir e) tabId
      in if path = [] then s else s\<lparr>ss_disk := removeFile path (ss_disk s)\<rparr>)"

text \<open>
  Loading; the two strings are the caller's variables, untouched unless \<open>restore\<close> runs.
  \<open>readable\<close> is whether the file opens.
\<close>

definition loadSession ::
  "session_env \<Rightarrow> (qstring \<Rightarrow> bool) \<Rightarrow> (disk \<Rightarrow> qstring \<Rightarrow> qstring list) \<Rightarrow> int \<Rightarrow> bool \<Rightarrow> qstring \<Rightarrow> grid \<Rightarrow>
   qstring \<Rightarrow> qstring \<Rightarrow> disk \<Rightarrow> (bool \<times> grid \<times> qstring \<times> qstring) \<times> disk" where
  "loadSession e copyOk siblings stamp readable tabId g cwd pinned d =
     (let path = sessionPath (se_dir e) tabId
      in if path = [] then ((False, g, cwd, pinned), d)
         else (case d path of
                 None \<Rightarrow> ((False, g, cwd, pinned), d)
               | Some f \<Rightarrow>
                   if \<not> readable then ((False, g, cwd, pinned), d)
                   else (let r = (if int (length (contents f)) \<le> MAX_RESTORE_FILE_BYTES
                                  then restore (se_qds e) (se_packer e) (contents f) g
                                  else (False, g, cwd, pinned))
                         in (r, if fst r then d
                                else snd (rotateCorruptFileAside copyOk siblings stamp path d)))))"


section \<open>Runs with the worker\<close>

datatype session_op =
    SaveNow syscalls qstring grid qstring qstring
  | SaveQueued syscalls qstring grid qstring qstring int
  | TakeOvershoot qstring
  | Remove qstring

fun sessionOp :: "session_env \<Rightarrow> session_op \<Rightarrow> sessions \<Rightarrow> sessions" where
  "sessionOp e (SaveNow sc t g c p) s = saveSession e sc t g c p s"
| "sessionOp e (SaveQueued sc t g c p n) s = saveSessionAsync e sc t g c p n s"
| "sessionOp e (TakeOvershoot t) s = snd (takeOvershoot t s)"
| "sessionOp e (Remove t) s = removeSession e t s"

text \<open>The worker may finish its job between any two calls, or later.\<close>

inductive sessionRun :: "session_env \<Rightarrow> session_op list \<Rightarrow> sessions \<Rightarrow> sessions \<Rightarrow> bool" for e where
  Stop: "sessionRun e [] s s"
| Call: "sessionRun e ops (sessionOp e op s) t \<Longrightarrow> sessionRun e (op # ops) s t"
| Finish: "ss_pending s \<noteq> None \<Longrightarrow> sessionRun e ops (waitForPendingSaves e s) t \<Longrightarrow> sessionRun e ops s t"

inductive_cases sessionRun_Nil: "sessionRun e [] s t"

text \<open>The specification: every save is written, or not, at the moment it is called.\<close>

fun specOp :: "session_env \<Rightarrow> session_op \<Rightarrow> disk \<Rightarrow> disk" where
  "specOp e (SaveNow sc t g c p) d =
     (let path = sessionPath (se_dir e) t in
      if path = [] then d
      else writeBlob sc path (tmpPath (se_pid e) path)
             (serialize (se_qds e) (se_packer e) g c p MAX_RESTORE_RAW_BYTES MAX_RESTORE_FILE_BYTES) d)"
| "specOp e (SaveQueued sc t g c p n) d =
     (let j = saveJob e sc t g c p n in
      if sessionPath (se_dir e) t = [] \<or> jobOverLimit e j then d
      else writeBlob sc (j_path j) (j_tmp j)
             (seal (se_qds e) (se_packer e) (qCompress (se_packer e) (j_raw j))) d)"
| "specOp e (TakeOvershoot t) d = d"
| "specOp e (Remove t) d =
     (let path = sessionPath (se_dir e) t in if path = [] then d else removeFile path d)"

definition settledDisk :: "session_env \<Rightarrow> sessions \<Rightarrow> disk" where
  "settledDisk e s = ss_disk (waitForPendingSaves e s)"

lemma wait_pending [simp]: "ss_pending (waitForPendingSaves e s) = None"
  by (simp add: waitForPendingSaves_def split: option.split)

lemma wait_idle [simp]: "ss_pending s = None \<Longrightarrow> waitForPendingSaves e s = s"
  by (simp add: waitForPendingSaves_def)

lemma settled_wait [simp]: "settledDisk e (waitForPendingSaves e s) = settledDisk e s"
  by (simp add: settledDisk_def)

lemma settled_job:
  "settledDisk e (s\<lparr>ss_pending := Some j\<rparr>) =
   (if jobOverLimit e j then ss_disk s
    else writeBlob (j_sys j) (j_path j) (j_tmp j)
      (seal (se_qds e) (se_packer e) (qCompress (se_packer e) (j_raw j))) (ss_disk s))"
  by (simp add: settledDisk_def waitForPendingSaves_def runJob_def)

lemma settled_disk_upd:
  "ss_pending s = None \<Longrightarrow> settledDisk e (s\<lparr>ss_disk := d\<rparr>) = d"
  by (simp add: settledDisk_def waitForPendingSaves_def)

lemma settled_take: "settledDisk e (snd (takeOvershoot t s)) = settledDisk e s"
  by (simp add: settledDisk_def takeOvershoot_def waitForPendingSaves_def runJob_def split: option.split)

lemma sessionOp_spec: "settledDisk e (sessionOp e op s) = specOp e op (settledDisk e s)"
proof (cases op)
  case (SaveNow sc t g c p)
  then show ?thesis
    by (simp add: saveSession_def Let_def settled_disk_upd) (simp add: settledDisk_def)
next
  case (SaveQueued sc t g c p n)
  have j: "j_sys (saveJob e sc t g c p n) = sc" by (simp add: saveJob_def Let_def)
  show ?thesis
    unfolding SaveQueued
    by (simp add: saveSessionAsync_def Let_def settled_job j) (simp add: settledDisk_def)
next
  case (Remove t)
  then show ?thesis
    by (simp add: removeSession_def Let_def settled_disk_upd) (simp add: settledDisk_def)
qed (simp add: settled_take)

lemma sessionRun_spec:
  "sessionRun e ops s t \<Longrightarrow> settledDisk e t = fold (specOp e) ops (settledDisk e s)"
  by (induction rule: sessionRun.induct) (simp_all add: sessionOp_spec)


section \<open>Rotation keeps what is there\<close>

lemma copyAside_adds:
  "copyAside copyOk path stamp ks d = Some (c, d') \<Longrightarrow> d f \<noteq> None \<Longrightarrow> d' f = d f"
  by (induction ks) (auto simp: copyFile_def split: option.splits if_splits)

lemma copyAside_copies:
  assumes "d path = Some f" "k \<in> set ks" "d (corruptName path stamp k) = None" "copyOk (corruptName path stamp k)"
  shows "\<exists>j \<in> set ks. d (corruptName path stamp j) = None \<and>
    copyAside copyOk path stamp ks d = Some (corruptName path stamp j, d(corruptName path stamp j \<mapsto> f))"
  using assms(2)
proof (induction ks)
  case (Cons j ks)
  show ?case
  proof (cases "d (corruptName path stamp j) = None \<and> copyOk (corruptName path stamp j)")
    case True
    then show ?thesis using assms(1) by (simp add: copyFile_def fun_upd_def)
  next
    case False
    then have "k \<in> set ks" using Cons.prems assms(3,4) by auto
    moreover have "copyFile copyOk path (corruptName path stamp j) d = None"
      using False assms(1) by (auto simp: copyFile_def)
    ultimately show ?thesis using Cons.IH by auto
  qed
qed simp

lemma removeAll: "fold removeFile fs d f = (if f \<in> set fs then None else d f)"
  by (induction fs arbitrary: d) (auto simp: removeFile_def)

lemma rotate_keeps:
  assumes "d f \<noteq> None" "\<And>d f. f \<in> set (siblings d path) \<Longrightarrow> \<exists>t. f = path @ asc ''.corrupt-'' @ t"
  shows "snd (rotateCorruptFileAside copyOk siblings stamp path d) f = d f \<or>
    snd (rotateCorruptFileAside copyOk siblings stamp path d) f = None \<and>
    (\<exists>t. f = path @ asc ''.corrupt-'' @ t)"
  using assms copyAside_adds [of copyOk path stamp "[0 ..< 10]" d _ _ f]
  by (auto simp: rotateCorruptFileAside_def removeAll split: option.splits dest: in_set_dropD)

end
