(* ===== verification/SessionTabs.thy ===== *)
theory SessionTabs
  imports SessionFiles CppString
begin

text \<open>
  The tab order and the upkeep of the sessions directory (\<open>src/src/sessionmanager.cpp\<close>): the
  text \<open>saveTabOrder\<close> writes and \<open>loadTabOrder\<close> reads, the ids \<open>savedSessions\<close> finds and the
  files \<open>cleanupOldSessions\<close> removes. Text is UTF-16; the file holds its UTF-8, and decoding
  undoes encoding.
\<close>

section \<open>Text\<close>

text \<open>\<open>QChar::isSpace\<close>, \<open>QString::trimmed\<close>, and \<open>QString::toInt\<close>, zero where it fails.\<close>

definition isSpaceQ :: "u16 \<Rightarrow> bool" where
  "isSpaceQ u \<longleftrightarrow> 9 \<le> u \<and> u \<le> 13 \<or> u = 0x20 \<or> u = 0x85 \<or> u = 0xA0 \<or> u = 0x1680 \<or>
     0x2000 \<le> u \<and> u \<le> 0x200A \<or> u = 0x2028 \<or> u = 0x2029 \<or> u = 0x202F \<or> u = 0x205F \<or> u = 0x3000"

definition trimmedQ :: "qstring \<Rightarrow> qstring" where
  "trimmedQ s = rev (dropWhile isSpaceQ (rev (dropWhile isSpaceQ s)))"

definition isDigitQ :: "u16 \<Rightarrow> bool" where
  "isDigitQ u \<longleftrightarrow> 0x30 \<le> u \<and> u \<le> 0x39"

definition digitsQ :: "qstring \<Rightarrow> int" where
  "digitsQ ds = foldl (\<lambda>v d. v * 10 + (uint d - 48)) 0 ds"

definition toIntQ :: "qstring \<Rightarrow> int" where
  "toIntQ s =
     (let t = trimmedQ s;
          neg = (t \<noteq> [] \<and> hd t = 0x2D);
          ds = (if t \<noteq> [] \<and> (hd t = 0x2D \<or> hd t = 0x2B) then tl t else t);
          n = (if neg then - digitsQ ds else digitsQ ds)
      in if ds \<noteq> [] \<and> list_all isDigitQ ds \<and> - (2 ^ 31) \<le> n \<and> n < 2 ^ 31 then n else 0)"

text \<open>\<open>QString::arg(int)\<close>.\<close>

definition numberQ :: "int \<Rightarrow> qstring" where
  "numberQ n = asc (toString n)"

text \<open>\<open>readLine\<close> until the end of the file; the line feeds go with the trim that follows.\<close>

fun linesQ :: "qstring \<Rightarrow> qstring list" where
  "linesQ [] = []"
| "linesQ (u # us) =
     (if u = 0x0A then [u] # linesQ us
      else (case linesQ us of [] \<Rightarrow> [[u]] | l # ls \<Rightarrow> (u # l) # ls))"

section \<open>The tab order\<close>

definition activePrefix :: qstring where "activePrefix = asc ''active:''"

definition tabOrderText :: "qstring list \<Rightarrow> int \<Rightarrow> qstring" where
  "tabOrderText tabIds activeIndex =
     activePrefix @ numberQ activeIndex @ [0x0A] @ concat (map (\<lambda>i. i @ [0x0A]) tabIds)"

text \<open>One line of \<open>loadTabOrder\<close>: the ids so far and the active index.\<close>

definition tabLine :: "qstring \<Rightarrow> qstring list \<times> int \<Rightarrow> qstring list \<times> int" where
  "tabLine raw st =
     (let line = trimmedQ raw in
      if line = [] then st
      else if take 7 line = activePrefix then (fst st, toIntQ (drop 7 line))
      else (fst st @ [line], snd st))"

text \<open>The loop that keeps the ids with a file and moves the active index with its tab.\<close>

fun keepTabs :: "(qstring \<Rightarrow> bool) \<Rightarrow> int \<Rightarrow> int \<Rightarrow> qstring list \<Rightarrow> qstring list \<times> int \<Rightarrow> qstring list \<times> int" where
  "keepTabs present saved i [] st = st"
| "keepTabs present saved i (t # ts) st =
     keepTabs present saved (i + 1) ts
       (if present t
        then (fst st @ [t], if i = saved then int (length (fst st)) else snd st)
        else st)"

text \<open>
  \<open>loadTabOrder\<close> with an out-parameter, which keeps its value when the file does not open:
  the file's text, whether a session's file exists, and the caller's index.
\<close>

definition loadTabOrder :: "(qstring \<Rightarrow> bool) \<Rightarrow> qstring option \<Rightarrow> int \<Rightarrow> qstring list \<times> int" where
  "loadTabOrder present text active0 =
     (case text of
        None \<Rightarrow> ([], active0)
      | Some t \<Rightarrow>
          (let (ids, saved) = fold tabLine (linesQ t) ([], active0);
               (valid, adjusted) = keepTabs present saved 0 ids ([], 0)
           in (valid, if valid = [] then 0 else clamp adjusted 0 (int (length valid) - 1))))"

section \<open>The sessions directory\<close>

text \<open>A wildcard pattern as \<open>QDir\<close> matches it: \<open>*\<close> is any text, letter case is ignored.\<close>

definition lowerQ :: "u16 \<Rightarrow> u16" where
  "lowerQ u = (if 0x41 \<le> u \<and> u \<le> 0x5A then u + 0x20 else u)"

fun globQ :: "string \<Rightarrow> qstring \<Rightarrow> bool" where
  "globQ [] s = (s = [])"
| "globQ (p # ps) [] = (p = CHR ''*'' \<and> globQ ps [])"
| "globQ (p # ps) (u # us) =
     (if p = CHR ''*'' then globQ ps (u # us) \<or> globQ (p # ps) us
      else of_char p = lowerQ u \<and> globQ ps us)"

definition sessionPattern :: string where "sessionPattern = ''session_*.dat''"

text \<open>\<open>f.mid(8)\<close> and \<open>chop(4)\<close>; the listing comes oldest first.\<close>

definition sessionIdOf :: "qstring \<Rightarrow> qstring" where
  "sessionIdOf f = (let t = drop 8 f in take (length t - 4) t)"

definition savedSessions :: "qstring list \<Rightarrow> qstring list" where
  "savedSessions listing = map sessionIdOf (filter (globQ sessionPattern) listing)"

definition sessionFile :: "qstring \<Rightarrow> qstring" where
  "sessionFile tabId = asc ''session_'' @ tabId @ asc ''.dat''"

definition tempPatterns :: "string list" where
  "tempPatterns = [''session_*.dat.tmp'', ''tab_order.txt.tmp'', ''session_*.dat.*.tmp'',
     ''tab_order.txt.*.tmp'']"

text \<open>
  \<open>cleanupOldSessions\<close>: the files of the directory with their times of last change, in
  milliseconds, and those left; a day counts 86400000.
\<close>

definition dayMs :: int where "dayMs = 86400000"

definition cleanupOldSessions :: "int \<Rightarrow> int \<Rightarrow> (qstring \<times> int) list \<Rightarrow> (qstring \<times> int) list" where
  "cleanupOldSessions now maxAgeDays files =
     (let kept = filter (\<lambda>(f, t). \<not> (globQ sessionPattern f \<and> t < now - maxAgeDays * dayMs)) files
      in filter (\<lambda>(f, t). \<not> ((\<exists>p \<in> set tempPatterns. globQ p f) \<and> t < now - dayMs)) kept)"

section \<open>Reading back\<close>

lemma validId_strict: "s \<noteq> [] \<Longrightarrow> list_all isAlnumHyphen s \<Longrightarrow> validId s"
proof -
  assume a: "s \<noteq> []" "list_all isAlnumHyphen s"
  then have "isAlnumHyphen (last s)" by (simp add: list_all_iff)
  then have "last s \<noteq> 0x0A" by (auto simp: isAlnumHyphen_def)
  then show "validId s" using a by (simp add: validId_def idCore_def)
qed

lemma alnum_class: "isAlnumHyphen u \<Longrightarrow> \<not> isSpaceQ u \<and> u \<noteq> 0x0A \<and> u \<noteq> 0x3A \<and> u \<noteq> 0x2F \<and> u \<noteq> 0x2E"
  unfolding isAlnumHyphen_def isSpaceQ_def word_le_def word_uint_eq_iff by simp presburger

lemma dropWhile_stop: "s = [] \<or> \<not> P (hd s) \<Longrightarrow> dropWhile P s = s"
  by (cases s) auto

lemma trimmedQ_plain: "\<not> isSpaceQ (hd s) \<Longrightarrow> \<not> isSpaceQ (last s) \<Longrightarrow> trimmedQ s = s"
  by (simp add: trimmedQ_def dropWhile_stop hd_rev)

lemma dropWhile_all: "list_all P s \<Longrightarrow> dropWhile P s = []"
  by (simp add: list_all_iff)

lemma trimmedQ_newline: "trimmedQ (s @ [0x0A]) = trimmedQ s"
proof -
  have n: "isSpaceQ 0x0A" by (simp add: isSpaceQ_def)
  show ?thesis
  proof (cases "list_all isSpaceQ s")
    case True
    then have "list_all isSpaceQ (s @ [0x0A])" using n by (simp add: list_all_iff)
    then show ?thesis using True by (simp only: trimmedQ_def dropWhile_all)
  next
    case False
    then have "dropWhile isSpaceQ (s @ [0x0A]) = dropWhile isSpaceQ s @ [0x0A]"
      by (auto simp: list_all_iff intro: dropWhile_append1)
    then show ?thesis using n by (simp add: trimmedQ_def)
  qed
qed

lemma linesQ_line: "0x0A \<notin> set s \<Longrightarrow> linesQ (s @ [0x0A] @ r) = (s @ [0x0A]) # linesQ r"
  by (induction s) auto

lemma linesQ_concat:
  "list_all (\<lambda>s. 0x0A \<notin> set s) ss \<Longrightarrow>
   linesQ (concat (map (\<lambda>s. s @ [0x0A]) ss)) = map (\<lambda>s. s @ [0x0A]) ss"
  using linesQ_line by (induction ss) auto

lemma uint_of_char: "uint (of_char c :: u16) = int (of_char c)"
proof -
  have "(of_char c :: nat) < 2 ^ LENGTH(16)"
    by (rule order.strict_trans [OF nat_of_char_less_256]) simp
  then have "uint (word_of_nat (of_char c) :: u16) = int (of_char c)"
    by (simp only: unsigned_of_nat take_bit_nat_eq_self)
  then show ?thesis by (simp only: of_nat_of_char)
qed

lemma asc_simps [simp]:
  "asc [] = []" "asc (c # cs) = of_char c # asc cs" "asc (s @ t) = asc s @ asc t"
  "asc s = [] \<longleftrightarrow> s = []"
  by (simp_all add: asc_def)

lemma isDigitQ_char: "isDigitQ (of_char c) = isDigit c"
  unfolding isDigitQ_def word_le_def uint_of_char isDigit_def Let_def by simp

lemma asc_digits: "list_all isDigit ds \<Longrightarrow> list_all isDigitQ (asc ds)"
  by (induction ds) (simp_all add: isDigitQ_char)

lemma digitsQ_asc: "digitsQ (asc ds) = digitsValue ds"
proof -
  have "foldl (\<lambda>v d. v * 10 + (uint d - 48)) a (asc ds) = foldl (\<lambda>v d. v * 10 + digitVal d) a ds" for a
    by (induction ds arbitrary: a) (simp_all add: uint_of_char digitVal_def)
  then show ?thesis by (simp add: digitsQ_def digitsValue_def)
qed

lemma digit_class: "isDigitQ u \<Longrightarrow> \<not> isSpaceQ u \<and> u \<noteq> 0x2D \<and> u \<noteq> 0x2B \<and> u \<noteq> 0x0A"
  using alnum_class [of u] by (auto simp: isDigitQ_def isAlnumHyphen_def)

lemma minus_char: "of_char CHR ''-'' = (0x2D :: u16)"
  by simp

lemma numberQ_form:
  obtains ds where "ds \<noteq> []" "list_all isDigitQ ds" "digitsQ ds = \<bar>n\<bar>"
    "numberQ n = (if n < 0 then 0x2D # ds else ds)"
proof -
  let ?ds = "asc (natDigits (nat \<bar>n\<bar>))"
  have d: "list_all isDigit (natDigits (nat \<bar>n\<bar>))" "natDigits (nat \<bar>n\<bar>) \<noteq> []"
    using natDigits_digits by auto
  show ?thesis
  proof (rule that [of ?ds])
    show "?ds \<noteq> []" using d(2) by simp
    show "list_all isDigitQ ?ds" using d(1) by (rule asc_digits)
    show "digitsQ ?ds = \<bar>n\<bar>" by (simp add: digitsQ_asc digitsValue_natDigits)
    show "numberQ n = (if n < 0 then 0x2D # ?ds else ?ds)"
      by (simp add: numberQ_def toString_def)
  qed
qed

lemma toIntQ_numberQ:
  assumes "- (2 ^ 31) \<le> n" "n < 2 ^ 31"
  shows "toIntQ (numberQ n) = n"
proof -
  obtain ds where ds: "ds \<noteq> []" "list_all isDigitQ ds" "digitsQ ds = \<bar>n\<bar>"
    "numberQ n = (if n < 0 then 0x2D # ds else ds)" by (rule numberQ_form)
  have h: "isDigitQ (hd ds)" "isDigitQ (last ds)" using ds(1,2) by (simp_all add: list_all_iff)
  have t: "trimmedQ (numberQ n) = numberQ n"
    using ds(1,4) digit_class [OF h(1)] digit_class [OF h(2)]
    by (intro trimmedQ_plain) (auto simp: isSpaceQ_def split: if_splits)
  show ?thesis
    using ds assms digit_class [OF h(1)] unfolding toIntQ_def t by (auto simp: Let_def)
qed

section \<open>The order read back\<close>

definition plainId :: "qstring \<Rightarrow> bool" where
  "plainId s \<longleftrightarrow> s \<noteq> [] \<and> list_all isAlnumHyphen s"

lemma plainId_chars: "plainId s \<Longrightarrow> 0x0A \<notin> set s \<and> 0x3A \<notin> set s \<and> trimmedQ s = s"
proof -
  assume p: "plainId s"
  then have "isAlnumHyphen u" if "u \<in> set s" for u using that by (simp add: plainId_def list_all_iff)
  then have "\<not> isSpaceQ u \<and> u \<noteq> 0x0A \<and> u \<noteq> 0x3A" if "u \<in> set s" for u
    using that alnum_class by blast
  moreover have "hd s \<in> set s" "last s \<in> set s" using p by (simp_all add: plainId_def)
  ultimately show ?thesis by (blast intro: trimmedQ_plain)
qed

lemma activePrefix_colon: "0x3A \<in> set activePrefix" "length activePrefix = 7"
  by (simp_all add: activePrefix_def asc_def)

lemma tabLine_id: "plainId s \<Longrightarrow> tabLine (s @ [0x0A]) st = (fst st @ [s], snd st)"
proof -
  assume p: "plainId s"
  have "0x3A \<notin> set (take 7 s)" using plainId_chars [OF p] by (auto dest: in_set_takeD)
  then have "take 7 s \<noteq> activePrefix" using activePrefix_colon(1) by metis
  then show ?thesis
    using p plainId_chars [OF p] by (simp add: tabLine_def trimmedQ_newline Let_def plainId_def)
qed

lemma tabLine_ids:
  "list_all plainId ids \<Longrightarrow> fold tabLine (map (\<lambda>s. s @ [0x0A]) ids) st = (fst st @ ids, snd st)"
  by (induction ids arbitrary: st) (simp_all add: tabLine_id)

lemma activeLine:
  assumes "- (2 ^ 31) \<le> n" "n < 2 ^ 31"
  shows "tabLine ((activePrefix @ numberQ n) @ [0x0A]) st = (fst st, n)"
    "0x0A \<notin> set (activePrefix @ numberQ n)"
proof -
  obtain ds where ds: "ds \<noteq> []" "list_all isDigitQ ds" "numberQ n = (if n < 0 then 0x2D # ds else ds)"
    by (rule numberQ_form)
  have "isDigitQ (last ds)" using ds(1,2) by (simp add: list_all_iff)
  then have "trimmedQ (activePrefix @ numberQ n) = activePrefix @ numberQ n"
    using ds(1,3) digit_class [of "last ds"]
    by (intro trimmedQ_plain) (auto simp: activePrefix_def isSpaceQ_def)
  then show "tabLine ((activePrefix @ numberQ n) @ [0x0A]) st = (fst st, n)"
    using activePrefix_colon(2) toIntQ_numberQ [OF assms]
    by (simp add: tabLine_def trimmedQ_newline Let_def del: append_assoc) auto
  show "0x0A \<notin> set (activePrefix @ numberQ n)"
    using ds(2,3) digit_class by (fastforce simp: activePrefix_def list_all_iff split: if_splits)
qed

text \<open>The lines written are read as the ids and the index.\<close>

lemma tab_order_parsed:
  assumes "list_all plainId ids" "- (2 ^ 31) \<le> n" "n < 2 ^ 31"
  shows "fold tabLine (linesQ (tabOrderText ids n)) ([], a) = (ids, n)"
proof -
  have "list_all (\<lambda>s. 0x0A \<notin> set s) ids"
    using assms(1) plainId_chars by (auto simp: list_all_iff)
  then have "linesQ (tabOrderText ids n) =
      ((activePrefix @ numberQ n) @ [0x0A]) # map (\<lambda>s. s @ [0x0A]) ids"
    using linesQ_line [OF activeLine(2) [OF assms(2,3)]] linesQ_concat by (simp add: tabOrderText_def)
  then show ?thesis using assms(1) by (simp only: fold_simps comp_apply activeLine(1) [OF assms(2,3)])
      (simp add: tabLine_ids)
qed

text \<open>The ids kept, and where the active tab went.\<close>

lemma keepTabs_valid:
  "fst (keepTabs present saved i ts st) = fst st @ filter present ts"
  by (induction ts arbitrary: i st) auto

lemma keepTabs_active:
  assumes "k < length ts" "present (ts ! k)"
  shows "snd (keepTabs present (i + int k) i ts st) =
    int (length (fst st)) + int (length (filter present (take k ts)))"
proof -
  have miss: "snd (keepTabs present saved i ts st) = snd st" if "saved < i" for saved i ts and st :: "qstring list \<times> int"
    using that by (induction ts arbitrary: i st) auto
  show ?thesis
    using assms
  proof (induction k arbitrary: ts i st)
    case 0
    then obtain t r where "ts = t # r" by (cases ts) auto
    then show ?case using 0 miss [of i "i + 1"] by simp
  next
    case (Suc k)
    then obtain t r where t: "ts = t # r" by (cases ts) auto
    have i: "i + int (Suc k) = (i + 1) + int k" by simp
    have "k < length r" "present (r ! k)" using Suc.prems t by simp_all
    then show ?case unfolding i t keepTabs.simps by (subst Suc.IH) auto
  qed
qed

end
