(* ===== verification/SessionSample.thy ===== *)
theory SessionSample
  imports SessionTabs
begin

text \<open>
  One stream and one packer that satisfy the documented behaviour the session theorems assume
  of \<open>QDataStream\<close>, zlib and SHA-256: words big-endian, strings as their size in bytes and
  their UTF-16 units, data stored uncompressed behind its length, and a constant hash.
\<close>

section \<open>A big-endian stream\<close>

definition be32 :: "u32 \<Rightarrow> bytes" where
  "be32 w = [ucast (drop_bit 24 w), ucast (drop_bit 16 w), ucast (drop_bit 8 w), ucast w]"

lemma claimedLength_be32: "claimedLength (be32 w @ r) = w"
proof (rule bit_word_eqI)
  fix n assume "n < LENGTH(32)"
  then consider "n < 8" | "8 \<le> n" "n < 16" | "16 \<le> n" "n < 24" | "24 \<le> n" "n < 32"
    by fastforce
  then show "bit (claimedLength (be32 w @ r)) n = bit w n"
    unfolding claimedLength_def be32_def by cases (auto simp: bit_simps)
qed

definition readBe32 :: "u32 reader" where
  "readBe32 s = (if length s < 4 then None else Some (claimedLength s, drop 4 s))"

definition be16 :: "u16 \<Rightarrow> bytes" where
  "be16 u = [ucast (drop_bit 8 u), ucast u]"

fun unitsOf :: "bytes \<Rightarrow> qstring" where
  "unitsOf (a # b # r) = (push_bit 8 (ucast a) OR ucast b) # unitsOf r"
| "unitsOf _ = []"

definition beString :: "qstring \<Rightarrow> bytes" where
  "beString s = be32 (word_of_nat (2 * length s)) @ concat (map be16 s)"

definition readBeString :: "qstring reader" where
  "readBeString s = do {
     (n, s) \<leftarrow> readBe32 s;
     if length s < unat n then None else Some (unitsOf (take (unat n) s), drop (unat n) s) }"

definition beStream :: qds where
  "beStream = \<lparr>putU32 = be32, getU32 = readBe32, putU8 = (\<lambda>b. [b]),
     getU8 = (\<lambda>s. case s of [] \<Rightarrow> None | b # r \<Rightarrow> Some (b, r)),
     putBool = (\<lambda>t. [if t then 1 else 0]),
     getBool = (\<lambda>s. case s of [] \<Rightarrow> None | b # r \<Rightarrow> Some (b \<noteq> 0, r)),
     putStr = beString, getStr = readBeString\<rparr>"

lemma unitsOf_be16: "unitsOf (concat (map be16 s)) = s"
proof (induction s)
  case (Cons u s)
  have "push_bit 8 (ucast (ucast (drop_bit 8 u) :: u8)) OR ucast (ucast u :: u8) = u" for u :: u16
    by (rule bit_word_eqI) (auto simp: bit_simps)
  then show ?case using Cons by (simp add: be16_def)
qed simp

lemma length_units: "length (concat (map be16 s)) = 2 * length s"
  by (induction s) (simp_all add: be16_def)

lemma readBeString_put:
  assumes "length s < 2 ^ 30"
  shows "readBeString (beString s @ r) = Some (s, r)"
proof -
  have "unat (word_of_nat (2 * length s) :: u32) = 2 * length s"
    using assms by (simp only: unsigned_of_nat) (simp add: take_bit_nat_eq_self)
  moreover have "readBe32 (be32 w @ t) = Some (w, t)" for w t
    by (simp add: readBe32_def claimedLength_be32) (simp add: be32_def)
  ultimately show ?thesis
    by (simp only: readBeString_def beString_def append_assoc bind.bind_lunit case_prod_conv)
      (simp add: length_units unitsOf_be16)
qed

lemma beStream_ok: "qds_ok beStream"
  unfolding qds_ok_def beStream_def
  by (auto simp: readBe32_def claimedLength_be32 readBeString_put)
    (simp_all add: be32_def beString_def length_units)

section \<open>A packer that stores\<close>

definition storePacker :: packer where
  "storePacker = \<lparr>qCompress = (\<lambda>raw. be32 (word_of_nat (length raw)) @ raw), qUncompress = drop 4,
     sha256 = (\<lambda>_. replicate 32 0), keepLines = (\<lambda>kept _ _. kept div 2)\<rparr>"

lemma storePacker_ok: "packer_ok storePacker"
proof -
  have "uint (word_of_nat n :: u32) = int n" if "n < 2 ^ 32" for n
    using that by (simp only: unsigned_of_nat) (simp add: take_bit_nat_eq_self)
  moreover have "length (be32 w) = 4" for w by (simp add: be32_def)
  ultimately show ?thesis by (simp add: packer_ok_def storePacker_def claimedLength_be32)
qed

end
