(* ===== verification/GridGrow.thy ===== *)
theory GridGrow
  imports GridGuard
begin

text \<open>
  How actions change the history. Every action but RIS keeps the size of the grid and turns the
  scrollback into a tail of what it was with the pushed lines appended, counting each of them in
  \<open>m_scrollbackPushed\<close>: what the view of a reader scrolled up relies on. A history within its
  caps loses lines only to a push or all at once.
\<close>

section \<open>Growing\<close>

definition sameHist :: "grid \<Rightarrow> grid \<Rightarrow> bool" where
  "sameHist g h \<longleftrightarrow> m_scrollback h = m_scrollback g \<and> m_scrollbackBytes h = m_scrollbackBytes g \<and>
     m_maxScrollback h = m_maxScrollback g \<and> m_maxScrollbackMib h = m_maxScrollbackMib g"

lemma sameHist_cap: "sameHist g h \<Longrightarrow> hist_cap h = hist_cap g"
  by (simp add: sameHist_def hist_cap_def)

definition grows :: "grid \<Rightarrow> grid \<Rightarrow> bool" where
  "grows g h \<longleftrightarrow> m_rows h = m_rows g \<and> m_cols h = m_cols g \<and>
     (\<exists>k new. m_scrollback h = drop k (m_scrollback g @ new) \<and> k \<le> length (m_scrollback g) + length new \<and>
       m_scrollbackPushed h = m_scrollbackPushed g + length new \<and>
       (hist_cap g \<and> new = [] \<longrightarrow> sameHist g h \<or> m_scrollback h = []))"

lemma grows_refl [simp]: "grows g g"
  unfolding grows_def by (intro conjI exI [of _ 0] exI [of _ "[]"]) (simp_all add: sameHist_def)

lemma grows_trans: "grows a g \<Longrightarrow> grows g h \<Longrightarrow> grows a h"
proof -
  assume "grows a g" "grows g h"
  then obtain k new k' new' where
    1: "m_rows g = m_rows a" "m_cols g = m_cols a" "m_scrollback g = drop k (m_scrollback a @ new)"
      "k \<le> length (m_scrollback a) + length new" "m_scrollbackPushed g = m_scrollbackPushed a + length new"
      "hist_cap a \<and> new = [] \<longrightarrow> sameHist a g \<or> m_scrollback g = []" and
    2: "m_rows h = m_rows g" "m_cols h = m_cols g" "m_scrollback h = drop k' (m_scrollback g @ new')"
      "k' \<le> length (m_scrollback g) + length new'" "m_scrollbackPushed h = m_scrollbackPushed g + length new'"
      "hist_cap g \<and> new' = [] \<longrightarrow> sameHist g h \<or> m_scrollback h = []"
    unfolding grows_def by blast
  have d: "drop k (m_scrollback a @ new) @ new' = drop k (m_scrollback a @ new @ new')"
    using drop_append [of k "m_scrollback a @ new" new'] 1(4) by simp
  have "m_scrollback h = drop (k' + k) (m_scrollback a @ (new @ new'))"
    unfolding 2(3) 1(3) d by (simp only: drop_drop append_assoc)
  moreover have "k' + k \<le> length (m_scrollback a) + length (new @ new')" using 1(3,4) 2(4) by simp
  moreover have "m_scrollbackPushed h = m_scrollbackPushed a + length (new @ new')" using 1(5) 2(5) by simp
  moreover have "sameHist a h \<or> m_scrollback h = []" if c: "hist_cap a \<and> new @ new' = []"
  proof (cases "m_scrollback g = []")
    case True
    then show ?thesis using 2(3) c by simp
  next
    case False
    then have g: "sameHist a g" using 1(6) c by simp
    then have "sameHist g h \<or> m_scrollback h = []" using 2(6) c sameHist_cap by simp
    then show ?thesis using g by (auto simp: sameHist_def)
  qed
  ultimately show ?thesis
    unfolding grows_def using 1(1,2) 2(1,2)
    by (intro conjI exI [of _ "k' + k"] exI [of _ "new @ new'"]) simp_all
qed

text \<open>A history within its caps that nothing was pushed to is the same or empty.\<close>

lemma grows_unpushed:
  assumes "grows g h" "hist_cap g" "m_scrollbackPushed h = m_scrollbackPushed g"
  shows "m_scrollback h = m_scrollback g \<or> m_scrollback h = []"
  using assms by (auto simp: grows_def sameHist_def)

lemma grows_upd [simp]:
  "grows a (g\<lparr>m_screenLines := x0\<rparr>) = grows a g" "grows a (g\<lparr>m_cursorRow := x1\<rparr>) = grows a g"
  "grows a (g\<lparr>m_cursorCol := x2\<rparr>) = grows a g" "grows a (g\<lparr>m_wrapNext := x3\<rparr>) = grows a g"
  "grows a (g\<lparr>m_freeCellBuffers := x4\<rparr>) = grows a g" "grows a (g\<lparr>m_contentRevision := x5\<rparr>) = grows a g"
  "grows a (g\<lparr>m_promptRegionShift := x7\<rparr>) = grows a g"
  "grows a (g\<lparr>m_scrollbackHyperlinks := x8\<rparr>) = grows a g" "grows a (g\<lparr>m_screenHyperlinks := x9\<rparr>) = grows a g"
  "grows a (g\<lparr>m_promptRegions := x12\<rparr>) = grows a g" "grows a (g\<lparr>m_altPromptRegions := x13\<rparr>) = grows a g"
  "grows a (g\<lparr>m_defaultFg := x14\<rparr>) = grows a g" "grows a (g\<lparr>m_defaultBg := x15\<rparr>) = grows a g"
  "grows a (g\<lparr>m_currentAttrs := x16\<rparr>) = grows a g" "grows a (g\<lparr>m_tabStops := x17\<rparr>) = grows a g"
  "grows a (g\<lparr>m_recentMode2Timer := x18\<rparr>) = grows a g" "grows a (g\<lparr>m_csiClearRedrawActive := x19\<rparr>) = grows a g"
  "grows a (g\<lparr>m_csiClearRedrawTimer := x20\<rparr>) = grows a g" "grows a (g\<lparr>m_hyperlinkStartRow := x21\<rparr>) = grows a g"
  "grows a (g\<lparr>m_hyperlinkStartCol := x22\<rparr>) = grows a g" "grows a (g\<lparr>m_hyperlinkActive := x23\<rparr>) = grows a g"
  "grows a (g\<lparr>m_hyperlinkUri := x24\<rparr>) = grows a g" "grows a (g\<lparr>m_hyperlinkId := x25\<rparr>) = grows a g"
  "grows a (g\<lparr>m_scrollTop := x26\<rparr>) = grows a g" "grows a (g\<lparr>m_scrollBottom := x27\<rparr>) = grows a g"
  "grows a (g\<lparr>m_altScrollTop := x28\<rparr>) = grows a g" "grows a (g\<lparr>m_altScrollBottom := x29\<rparr>) = grows a g"
  "grows a (g\<lparr>m_savedRow := x30\<rparr>) = grows a g" "grows a (g\<lparr>m_savedCol := x31\<rparr>) = grows a g"
  "grows a (g\<lparr>m_savedAttrs := x32\<rparr>) = grows a g" "grows a (g\<lparr>m_savedOriginMode := x33\<rparr>) = grows a g"
  "grows a (g\<lparr>m_savedAutoWrap := x34\<rparr>) = grows a g" "grows a (g\<lparr>m_originMode := x35\<rparr>) = grows a g"
  "grows a (g\<lparr>m_autoWrap := x36\<rparr>) = grows a g" "grows a (g\<lparr>m_cursorVisible := x37\<rparr>) = grows a g"
  "grows a (g\<lparr>m_imageBudget := x38\<rparr>) = grows a g" "grows a (g\<lparr>m_inlineImages := x39\<rparr>) = grows a g"
  "grows a (g\<lparr>m_kittyChunkBuffer := x40\<rparr>) = grows a g" "grows a (g\<lparr>m_kittyChunkId := x41\<rparr>) = grows a g"
  "grows a (g\<lparr>m_kittyChunkParams := x42\<rparr>) = grows a g" "grows a (g\<lparr>m_nextBuffer := x43\<rparr>) = grows a g"
  "grows a (g\<lparr>m_kittyImages := x44\<rparr>) = grows a g" "grows a (g\<lparr>m_kittyImageOrder := x45\<rparr>) = grows a g"
  "grows a (g\<lparr>m_queryRespQuota := x46\<rparr>) = grows a g" "grows a (g\<lparr>m_windowTitle := x47\<rparr>) = grows a g"
  "grows a (g\<lparr>m_kittyKeyFlags := x48\<rparr>) = grows a g" "grows a (g\<lparr>m_kittyKeyStack := x49\<rparr>) = grows a g"
  "grows a (g\<lparr>m_altScreenActive := x50\<rparr>) = grows a g" "grows a (g\<lparr>m_altScreenMode := x51\<rparr>) = grows a g"
  "grows a (g\<lparr>m_altScreen := x52\<rparr>) = grows a g" "grows a (g\<lparr>m_altCursorRow := x53\<rparr>) = grows a g"
  "grows a (g\<lparr>m_altCursorCol := x54\<rparr>) = grows a g" "grows a (g\<lparr>m_altScreenHyperlinks := x55\<rparr>) = grows a g"
  "grows a (g\<lparr>m_altInlineImages := x56\<rparr>) = grows a g" "grows a (g\<lparr>m_altSavedAttrs := x57\<rparr>) = grows a g"
  "grows a (g\<lparr>m_altSavedOriginMode := x58\<rparr>) = grows a g" "grows a (g\<lparr>m_altSavedAutoWrap := x59\<rparr>) = grows a g"
  "grows a (g\<lparr>m_applicationCursorKeys := x60\<rparr>) = grows a g" "grows a (g\<lparr>m_applicationKeypad := x61\<rparr>) = grows a g"
  "grows a (g\<lparr>m_mouseButtonMode := x62\<rparr>) = grows a g" "grows a (g\<lparr>m_mouseMotionMode := x63\<rparr>) = grows a g"
  "grows a (g\<lparr>m_mouseAnyMode := x64\<rparr>) = grows a g" "grows a (g\<lparr>m_mouseSgrMode := x65\<rparr>) = grows a g"
  "grows a (g\<lparr>m_focusReporting := x66\<rparr>) = grows a g" "grows a (g\<lparr>m_bracketedPaste := x67\<rparr>) = grows a g"
  "grows a (g\<lparr>m_synchronizedOutput := x68\<rparr>) = grows a g" "grows a (g\<lparr>m_colorSchemeNotify := x69\<rparr>) = grows a g"
  "grows a (g\<lparr>m_cursorShape := x70\<rparr>) = grows a g" "grows a (g\<lparr>m_shellIntegState := x71\<rparr>) = grows a g"
  "grows a (g\<lparr>m_nextPromptRegionId := x72\<rparr>) = grows a g" "grows a (g\<lparr>m_lastExitCode := x73\<rparr>) = grows a g"
  "grows a (g\<lparr>m_commandOutputStart := x74\<rparr>) = grows a g" "grows a (g\<lparr>m_progressState := x75\<rparr>) = grows a g"
  "grows a (g\<lparr>m_progressValue := x76\<rparr>) = grows a g" "grows a (g\<lparr>m_osc133ForgeryCount := x77\<rparr>) = grows a g"
  "grows a (g\<lparr>m_osc133LastForgeryNotifyMs := x78\<rparr>) = grows a g" "grows a (g\<lparr>m_scrollbackInsertPaused := x79\<rparr>) = grows a g"
  "grows a (g\<lparr>m_quotas := x80\<rparr>) = grows a g" "grows a (g\<lparr>m_callbacks := x81\<rparr>) = grows a g"
  "grows a (g\<lparr>m_events := x82\<rparr>) = grows a g"
  by (simp_all add: grows_def sameHist_def)

lemma grows_emit [simp]: "grows a (emit ev g) = grows a g"
  by (simp add: emit_def)

lemma grows_fold: "(\<And>x s. grows a (f x s) = grows a s) \<Longrightarrow> grows a (fold f xs g) = grows a g"
  by (induction xs arbitrary: g) auto

lemma grows_fold_step: "grows a g \<Longrightarrow> (\<And>x s. grows a s \<Longrightarrow> grows a (f x s)) \<Longrightarrow> grows a (fold f xs g)"
  by (induction xs arbitrary: g) auto

lemma grows_pow: "(\<And>s. grows a (f s) = grows a s) \<Longrightarrow> grows a ((f ^^ n) g) = grows a g"
  by (induction n) auto

lemma grows_pow_step: "grows a g \<Longrightarrow> (\<And>s. grows a s \<Longrightarrow> grows a (f s)) \<Longrightarrow> grows a ((f ^^ n) g)"
  by (induction n) auto

section \<open>Rows, history and scrolling\<close>

lemma grows_screen [simp]:
  "grows a (bumpRevision g) = grows a g" "grows a (updLine r f g) = grows a g"
  "grows a (markScreenDirty r g) = grows a g" "grows a (markAllScreenDirty g) = grows a g"
  "grows a (updCell r c h g) = grows a g" "grows a (initTabStops g) = grows a g"
  "grows a (returnCellsRow cs g) = grows a g" "grows a (dropHyperlinkSpans r x y g) = grows a g"
  "grows a (setCursorPos r c g) = grows a g" "grows a (moveCursor r c g) = grows a g"
  by (simp_all add: bumpRevision_def updLine_def markScreenDirty_def markAllScreenDirty_def updCell_def
      initTabStops_def returnCellsRow_def dropHyperlinkSpans_def moveCursor_def setCursorPos_def)

lemma grows_refill [simp]:
  "grows a (refillRow r g) = grows a g" "grows a (refillRows x n g) = grows a g"
  "grows a (discardRows x n g) = grows a g"
proof -
  have r: "grows a (refillRow r g) = grows a g" for r g using refillRow_grid [of r g] by auto
  then show "grows a (refillRow r g) = grows a g" .
  show "grows a (refillRows x n g) = grows a g" unfolding refillRows_def by (rule grows_fold) (rule r)
  show "grows a (discardRows x n g) = grows a g" using discardRows_pool [of x n g] by auto
qed

lemma grows_push: "m_rows h = m_rows g \<Longrightarrow> m_cols h = m_cols g \<Longrightarrow> m_scrollback h = m_scrollback g @ [l] \<Longrightarrow>
    m_scrollbackPushed h = m_scrollbackPushed g + 1 \<Longrightarrow> grows g h"
  unfolding grows_def by (intro conjI exI [of _ 0] exI [of _ "[l]"]) simp_all

lemma grows_pop: "m_rows h = m_rows g \<Longrightarrow> m_cols h = m_cols g \<Longrightarrow> m_scrollback h = drop k (m_scrollback g) \<Longrightarrow>
    k \<le> length (m_scrollback g) \<Longrightarrow> m_scrollbackPushed h = m_scrollbackPushed g \<Longrightarrow>
    hist_cap g \<longrightarrow> m_scrollback h = [] \<Longrightarrow> grows g h"
  unfolding grows_def by (intro conjI exI [of _ k] exI [of _ "[]"]) simp_all

lemma grows_append [simp]: "grows a g \<Longrightarrow> grows a (appendScrollback l g)"
proof (rule grows_trans)
  obtain t h where t: "trimmedForScrollback l g = (t, h)" by fastforce
  then have "m_scrollback h = m_scrollback g" "m_scrollbackPushed h = m_scrollbackPushed g"
      "m_rows h = m_rows g" "m_cols h = m_cols g"
    using trimmed_frame [of l g] by simp_all
  then show "grows g (appendScrollback l g)"
    by (intro grows_push [where l = t]) (simp_all add: appendScrollback_def t)
qed

lemma grows_evict [simp]: "grows a g \<Longrightarrow> grows a (evictLoop g)"
proof (induction g rule: evictLoop.induct)
  case (1 g)
  show ?case
  proof (cases "m_scrollback g")
    case Nil
    then show ?thesis using 1(2) by (subst evictLoop.simps) simp
  next
    case (Cons front rest)
    let ?h = "(returnCellsRow (cells front) g)
                  \<lparr>m_scrollbackBytes := m_scrollbackBytes g - cellBytes front,
                   m_scrollback := rest, m_promptRegionShift := m_promptRegionShift g + 1,
                   m_scrollbackHyperlinks := tl (m_scrollbackHyperlinks g)\<rparr>"
    show ?thesis
    proof (cases "hist_cap g")
      case True
      then have "\<not> (int (length (m_scrollback g)) > m_maxScrollback g \<or>
          m_scrollbackBytes g > byteCap g \<and> m_scrollback g \<noteq> [])"
        by (auto simp: hist_cap_def cap_ok_def byteCap_def)
      then show ?thesis using 1(2) by (subst evictLoop.simps) (simp only: if_False)
    next
      case False
      then have "grows g ?h"
        using Cons by (intro grows_pop [where k = 1]) (simp_all add: returnCellsRow_def)
      then have "grows a ?h" using 1(2) grows_trans by blast
      then show ?thesis using 1(1) [OF _ Cons] 1(2) Cons by (subst evictLoop.simps) simp
    qed
  qed
qed

lemma grows_trim [simp]: "grows a g \<Longrightarrow> grows a (trimScrollbackToCap g)"
  by (simp add: trimScrollbackToCap_def Let_def)

lemma grows_clear [simp]: "grows a g \<Longrightarrow> grows a (clearScrollback g)"
proof (rule grows_trans)
  show "grows g (clearScrollback g)"
    by (rule grows_pop [where k = "length (m_scrollback g)"]) (simp_all add: clearScrollback_def)
qed

lemma grows_pushTopRow [simp]: "grows a g \<Longrightarrow> grows a (pushTopRow r g)"
  by (simp add: pushTopRow_def Let_def)

lemma grows_salvage [simp]: "grows a g \<Longrightarrow> grows a (salvageTopRows p f n g)"
  by (simp add: salvageTopRows_def grows_fold_step)

lemma grows_edit [simp]:
  "grows a (clearRow r x y g) = grows a g" "grows a (clearRows x y g) = grows a g"
  "grows a (eraseInLine m g) = grows a g" "grows a (rotateRegion x y z g) = grows a g"
  "grows a (moveActiveLink n g) = grows a g" "grows a (snd (csiClearWindow e g)) = grows a g"
  by (simp_all add: clearRow_def clearRows_def eraseInLine_def Let_def grows_fold
      rotateRegion_def moveActiveLink_def csiClearWindow_def)

lemma grows_edit2 [simp]:
  "grows a (insertLines n g) = grows a g" "grows a (deleteLines n g) = grows a g"
  "grows a (deleteChars n g) = grows a g" "grows a (insertBlanks n g) = grows a g"
  "grows a (scrollDown n g) = grows a g"
  by (simp_all add: insertLines_def deleteLines_def deleteChars_def insertBlanks_def
      scrollDown_def Let_def split_beta)

lemma grows_erase [simp]: "grows a g \<Longrightarrow> grows a (eraseInDisplay e m g)"
  by (simp add: eraseInDisplay_def Let_def)

lemma grows_scrollUp [simp]: "grows a g \<Longrightarrow> grows a (scrollUp e n g)"
  by (simp add: scrollUp_def Let_def split_beta)

section \<open>Printing and sequences\<close>

lemma grows_cursor [simp]:
  "grows a (setScrollRegion x y g) = grows a g" "grows a (carriageReturn g) = grows a g"
  "grows a (tab g) = grows a g" "grows a (reverseIndex g) = grows a g"
  "grows a (applyRowAttrs r x y b f g) = grows a g" "grows a (addRowHyperlink e r x y u g) = grows a g"
  "grows a (applyEdit e ed g) = grows a g" "grows a (saveCursor g) = grows a g"
  "grows a (restoreCursor g) = grows a g" "grows a (applyPromptRegionShift g) = grows a g"
  by (simp_all add: setScrollRegion_def carriageReturn_def tab_def reverseIndex_def applyRowAttrs_def
      addRowHyperlink_def applyEdit_def saveCursor_def restoreCursor_def applyPromptRegionShift_def Let_def
      split: row_edit.split)

lemma grows_newLine [simp]: "grows a g \<Longrightarrow> grows a (newLine e g)"
  by (simp add: lineCompleted_def newLine_def Let_def grows_fold)

lemma grows_print [simp]:
  "grows a (breakWidePairsAround r x y g) = grows a g" "grows a (clampCol g) = grows a g"
  "grows a (advance n g) = grows a g" "grows a (printSpan bs g) = grows a g"
  "grows a (attachCombining cp g) = grows a g" "grows a (placeChar cp w g) = grows a g"
  by (simp_all add: breakWidePairsAround_def clampCol_def advance_def printSpan_def
      attachCombining_def placeChar_def Let_def split: option.split)

lemma grows_wrap [simp]: "grows a g \<Longrightarrow> grows a (wrapPending e g)"
  by (simp add: wrapPending_def Let_def)

lemma grows_handlePrint [simp]: "grows a g \<Longrightarrow> grows a (handlePrint e cp g)"
  by (simp add: handlePrint_def Let_def)

lemma grows_run [simp]: "grows a g \<Longrightarrow> grows a (handleAsciiPrintRun e bs g)"
proof (induction e bs g rule: handleAsciiPrintRun.induct)
  case (1 e bs g)
  then show ?case by (subst handleAsciiPrintRun.simps) (simp add: Let_def)
qed

lemma grows_execute [simp]: "grows a g \<Longrightarrow> grows a (handleExecute e c g)"
  by (simp add: handleExecute_def Let_def)

lemma grows_sgr [simp]: "grows a (handleSGR ps cs g) = grows a g"
  by (simp add: handleSGR_def)

lemma grows_csiCursor: "csiCursor f p g = Some h \<Longrightarrow> grows a h = grows a g"
  by (auto simp: csiCursor_def cursorLineStart_def csiCha_def csiCup_def csiVpa_def csiTabs_def
      forwardTab_def backTab_def grows_pow Let_def split: if_splits)

lemma grows_edits [simp]: "grows a (eraseChars n g) = grows a g"
  by (simp add: eraseChars_def Let_def)

lemma grows_repeat [simp]: "grows a g \<Longrightarrow> grows a (repeatChar e n g)"
  by (simp add: repeatChar_def Let_def grows_pow_step split: option.split)

lemma grows_csiEdit: "csiEdit e f p g = Some h \<Longrightarrow> grows a g \<Longrightarrow> grows a h"
  by (auto simp: csiEdit_def split: if_splits)

lemma grows_images [simp]:
  "grows a (budgetAdd b g) = grows a g" "grows a (budgetRelease b g) = grows a g"
  "grows a (recomputeImageBudget g) = grows a g" "grows a (placeInlineImage im g) = grows a g"
  "grows a (resetKittyChunk g) = grows a g"
  by (simp_all add: budgetAdd_def budgetRelease_def recomputeImageBudget_def placeInlineImage_def
      resetKittyChunk_def Let_def)

lemma grows_alt [simp]: "grows a (enterAltScreen m g) = grows a g" "grows a (exitAltScreen g) = grows a g"
  by (simp_all add: enterAltScreen_def exitAltScreen_def Let_def)

lemma grows_reply [simp]: "grows a (sendQueryResponse e s g) = grows a g"
  by (simp add: sendQueryResponse_def Let_def)

lemma grows_setMode [simp]: "grows a (setMode b v g) = grows a g"
  by (simp add: setMode_def)

lemma grows_csiModes [simp]: "grows a (csiModes e f im p cs g) = grows a g"
  by (simp add: csiModes_def softReset_def setModes_def setCursorShape_def clearTabs_def csiReport_def
      csiU_def kittyPush_def kittyPop_def kittyPop1_def kittySet_def grows_fold grows_pow Let_def)

lemma grows_csi [simp]: "grows a g \<Longrightarrow> grows a (handleCsi e fc p cs im tr g)"
  by (auto simp: handleCsi_def Let_def grows_csiCursor intro: grows_csiEdit split: option.split)

section \<open>Strings\<close>

lemma grows_title [simp]: "grows a (setTitle t g) = grows a g" "grows a (oscTitle e b g) = grows a g"
  by (simp_all add: setTitle_def oscTitle_def Let_def)

lemma grows_error [simp]: "grows a g \<Longrightarrow> grows a (writeInlineError e t g)"
  by (simp add: writeInlineError_def Let_def grows_fold_step)

lemma grows_links [simp]:
  "grows a (dropActiveHyperlink g) = grows a g" "grows a (pushSpan r x y g) = grows a g"
  "grows a (pushHyperlinkSpansForActive g) = grows a g" "grows a (handleOsc8 s g) = grows a g"
  by (simp_all add: dropActiveHyperlink_def pushSpan_def pushHyperlinkSpansForActive_def handleOsc8_def
      Let_def grows_fold split: option.split)

lemma grows_shell [simp]:
  "grows a (rejectForgery e g) = grows a g" "grows a (updLastRegion f g) = grows a g"
  "grows a (promptStart l g) = grows a g" "grows a (commandStart e l g) = grows a g"
  "grows a (outputStart l g) = grows a g" "grows a (commandEnd e s g) = grows a g" "grows a (capRegions g) = grows a g"
  by (simp_all add: rejectForgery_def updLastRegion_def promptStart_def commandStart_def outputStart_def
      commandEnd_def capRegions_def Let_def)

lemma grows_oscShell [simp]: "grows a g \<Longrightarrow> grows a (oscShell e r g)"
  by (simp add: oscShell_def markPrompt_def Let_def split_beta)

lemma grows_own [simp]: "grows a (snd (ownImage i g)) = grows a g" "grows a (snd (ownOption oi g)) = grows a g"
  by (simp_all add: ownImage_def ownOption_def split: option.split)

lemma grows_ownOption: "ownOption i g = (j, h) \<Longrightarrow> grows a h = grows a g"
  using grows_own(2) [of a i g] by simp

lemma grows_oscImage [simp]: "grows a g \<Longrightarrow> grows a (handleOscImage e pre p g)"
  by (auto simp: handleOscImage_def Let_def grows_ownOption split: option.split prod.splits)

lemma grows_metered [simp]:
  "grows a (oscClipboard e b g) = grows a g" "grows a (oscNotify e b g) = grows a g"
  "grows a (osc777 e b g) = grows a g" "grows a (oscUserVar e b g) = grows a g"
  by (simp_all add: oscClipboard_def oscNotify_def osc777_def oscUserVar_def setOsc52_def takeNotifyQuota_def
      setNotifyWindow_def setUserVarWindow_def Let_def split: option.split)

lemma grows_oscRest [simp]: "grows a (oscColorQuery e n g) = grows a g" "grows a (oscProgress r g) = grows a g"
  by (simp_all add: oscColorQuery_def oscProgress_def Let_def split: option.split prod.split)

lemma grows_osc [simp]: "grows a g \<Longrightarrow> grows a (handleOsc e pre p tr g)"
  by (simp add: handleOsc_def osc1337_def Let_def)

lemma grows_dcs [simp]: "grows a g \<Longrightarrow> grows a (handleDcs e p tr g)"
proof -
  have "grows a h \<Longrightarrow> grows a (placeSixel e b h)" for b h
    using grows_own(1) [of a _ h]
    by (auto simp: placeSixel_def split_beta Let_def split: option.split)
  then show "grows a g \<Longrightarrow> grows a (handleDcs e p tr g)"
    by (auto simp: handleDcs_def decrqss_def Let_def split: option.split prod.split)
qed

lemma grows_kitty [simp]:
  "grows a (kittyReply e i m g) = grows a g" "grows a (stageChunk k i b g) = grows a g"
  "grows a (kittyErase i g) = grows a g" "grows a (releaseCached i g) = grows a g"
  "grows a (kittyDelete k i g) = grows a g" "grows a (kittyDisplay k x i im g) = grows a g"
  by (simp_all add: kittyReply_def stageChunk_def kittyErase_def releaseCached_def kittyDelete_def
      kittyDisplay_def Let_def split: option.split)

lemma grows_evictKitty [simp]: "grows a (evictKitty ids g) = grows a g"
  by (induction ids g rule: evictKitty.induct) simp_all

lemma grows_storeKitty [simp]: "grows a (storeKitty i img g) = grows a g"
  by (simp add: storeKitty_def Let_def)

lemma grows_kittyDecode: "kittyDecode e pre k f full g = (i, h) \<Longrightarrow> grows a g \<Longrightarrow> grows a h"
  by (auto simp: kittyDecode_def decodePng_def Let_def grows_ownOption split: if_splits option.splits prod.splits)

lemma grows_apc [simp]: "grows a g \<Longrightarrow> grows a (handleApc e pre p tr g)"
  by (auto simp: handleApc_def kittyFrame_def Let_def dest!: grows_kittyDecode
      split: prod.splits option.splits)

section \<open>Actions\<close>

fun resets :: "vt_action \<Rightarrow> bool" where
  "resets (EscDispatch fc im) = (fc = CHR ''c'' \<and> im = '''')"
| "resets _ = False"

lemma grows_esc [simp]:
  "\<not> resets (EscDispatch fc im) \<Longrightarrow> grows a g \<Longrightarrow> grows a (handleEsc e fc im g)"
proof -
  assume "\<not> resets (EscDispatch fc im)" "grows a g"
  moreover have "(of_char fc :: nat) = 99 \<longleftrightarrow> fc = CHR ''c''"
    using of_char_eq_iff [of fc "CHR ''c''"] by simp
  ultimately show ?thesis by (simp add: handleEsc_def setTabStop_def Let_def)
qed

lemma grows_action: "\<not> resets act \<Longrightarrow> grows a g \<Longrightarrow> grows a (processAction e pre act g)"
  by (cases act) (simp_all add: processAction_def Let_def)

end
