(* ===== verification/SessionProps.thy ===== *)
theory SessionProps
  imports SessionSample GridGrow GridProps
begin

text \<open>
  The properties of saved sessions, each a few steps over the lemmas of the session theories,
  with witnesses on a small grid, a big-endian stream and a packer that stores.
\<close>

section \<open>What was saved comes back\<close>

lemma wf_line:
  assumes "grid_wf g" "k < nat (m_rows g)"
  shows "line_ok (m_cols g) (lineAt g (int k))"
  unfolding lineAt_def
  by (rule lines_ok_vget [of "m_rows g"]) (use assms in \<open>auto simp: wf_defs\<close>)

lemma line_ok_length: "line_ok c l \<Longrightarrow> length (cells l) = nat c"
  by (metis line_ok_def nat_int)

lemma screenCells_line:
  assumes "grid_wf g" "row < nat (m_rows g)"
  shows "screenCells g (int row) = cells (lineAt g (int row))"
proof (rule nth_equalityI)
  have len: "length (cells (lineAt g (int row))) = nat (m_cols g)"
    by (rule line_ok_length [OF wf_line [OF assms]])
  then show "length (screenCells g (int row)) = length (cells (lineAt g (int row)))" by simp
  fix k assume "k < length (screenCells g (int row))"
  then have k: "k < nat (m_cols g)" by simp
  have "clamp (int row) 0 (m_rows g - 1) = int row" "clamp (int k) 0 (m_cols g - 1) = int k"
    using assms(2) k by auto
  then show "screenCells g (int row) ! k = cells (lineAt g (int row)) ! k"
    using k by (simp add: screenCells_def cellAt_def vget_def)
qed

lemma lineAt_nth: "lineAt g (int k) = m_screenLines g ! k"
  by (simp add: lineAt_def vget_def)

definition showsSaved :: "grid \<Rightarrow> grid \<Rightarrow> bool" where
  "showsSaved g h \<longleftrightarrow>
     m_rows h = m_rows g \<and> m_cols h = m_cols g \<and>
     m_cursorRow h = m_cursorRow g \<and> m_cursorCol h = m_cursorCol g \<and>
     (\<forall>row < nat (m_rows g).
        cells (lineAt h (int row)) = map savedCell (cells (lineAt g (int row))) \<and>
        (\<forall>col. combGet (combining (lineAt h (int row))) col = combGet (combining (lineAt g (int row))) col))"

lemma savedSession_ok:
  assumes "grid_wf g" "qds_ok q" "restorable g cwd pinned" "n \<le> length (m_scrollback g)"
  shows "session_ok (savedSession g cwd pinned n)"
  using parse_serialized [OF assms(2-4)] by (rule parseStream_ok)

lemma commit_shows:
  assumes g: "grid_wf g" and h: "grid_wf h" and ok: "session_ok (savedSession g cwd pinned n)"
  shows "showsSaved g (commit (savedSession g cwd pinned n) h)"
proof -
  let ?s = "savedSession g cwd pinned n"
  let ?b = "fold pushScrollbackLine (s_scrollback ?s) (resize (s_rows ?s) (s_cols ?s) h)"
  have b: "grid_wf ?b"
    using h session_comb [OF ok] ok by (intro wf_push_all wf_resize) (auto simp: session_ok_def)
  have cur: "cursor_ok (m_rows g) (m_cols g) (m_cursorRow g) (m_cursorCol g)" using wf_parts(3) [OF g] .
  have row: "cells (lineAt (commit ?s h) (int k)) = map savedCell (cells (lineAt g (int k))) \<and>
      (\<forall>col. combGet (combining (lineAt (commit ?s h) (int k))) col = combGet (combining (lineAt g (int k))) col)"
    if k: "k < nat (m_rows g)" for k
  proof -
    have sk: "k < length (s_screen ?s)" "s_screen ?s ! k = savedRow g (int k)"
      using k by (simp_all add: savedSession_def)
    have gl: "line_ok (m_cols g) (lineAt g (int k))"
      by (rule wf_line [OF g k])
    have bl: "line_ok (m_cols ?b) (lineAt ?b (int k))"
      by (rule wf_line [OF b]) (use k in \<open>simp add: savedSession_def\<close>)
    have "lineAt (commit ?s h) (int k) = overlay (savedRow g (int k)) (lineAt ?b (int k))"
      using commit_row [OF h ok sk(1)] sk(2) by (simp only: lineAt_nth)
    moreover have "length (cells (lineAt ?b (int k))) \<le> length (cells (savedRow g (int k)))"
      using line_ok_length [OF bl] by (simp add: savedRow_def line0_def savedSession_def)
    ultimately show ?thesis
      using gl screenCells_line [OF g k]
      by (simp add: overlay_def savedRow_def line0_def combGet_savedComb line_ok_def comb_ok_def)
  qed
  then show ?thesis
    using cur by (simp add: showsSaved_def commit_fields) (simp add: savedSession_def cursor_ok_def)
qed

text \<open>
  C3. A session saved with the default caps comes back, if the grid is within what the reader
  accepts (\<open>restorable\<close>) and its screen alone fits the caps (\<open>screen_fits\<close>): \<open>restore\<close> succeeds
  on any grid, which then has the saved dimensions, cursor, cells (their code points, colours,
  six attributes and width flags), combining characters and window title (without a lone high
  surrogate at its end; an empty one leaves the title as it is). The working directory and
  pinned title are returned. The history is that of the resized grid followed by the saved lines,
  each without its trailing blanks, and the oldest lines are dropped only as far as the caps of
  the grid require.
\<close>
theorem session_saved_restored:
  assumes "qds_ok q" "packer_ok z" "session g" "restorable g cwd pinned" "screen_fits q z g cwd pinned"
    "session h"
  shows "let n = firstKept q z g cwd pinned MAX_RESTORE_RAW_BYTES MAX_RESTORE_FILE_BYTES;
             r = restore q z (serialize q z g cwd pinned MAX_RESTORE_RAW_BYTES MAX_RESTORE_FILE_BYTES) h;
             w = fst (snd r); h0 = resize (m_rows g) (m_cols g) h;
             lines = map savedLine (drop n (m_scrollback g))
         in fst r \<and> showsSaved g w \<and> snd (snd r) = (cwd, pinned) \<and>
            m_windowTitle w = (if m_windowTitle g = [] then m_windowTitle h0 else dropHigh (m_windowTitle g)) \<and>
            cutTo h0 (m_scrollback h0 @ map (keptRow h0) lines) (m_scrollback w) \<and>
            suffix (viewsOf w) (viewsOf h0 @ map rowView lines)"
proof -
  define n where "n = firstKept q z g cwd pinned MAX_RESTORE_RAW_BYTES MAX_RESTORE_FILE_BYTES"
  let ?s = "savedSession g cwd pinned n" and ?h = "resize (m_rows g) (m_cols g) h"
  note wf = session_wf [OF assms(3)] session_wf [OF assms(6)]
  have nn: "0 \<le> MAX_RESTORE_FILE_BYTES" by (simp add: MAX_RESTORE_FILE_BYTES_def)
  have "n \<le> length (m_scrollback g)"
    unfolding n_def by (rule firstKept_result(2) [OF assms(2) nn])
  then have ok: "session_ok ?s" by (rule savedSession_ok [OF wf(1) assms(1,4)])
  have r: "restore q z (serialize q z g cwd pinned MAX_RESTORE_RAW_BYTES MAX_RESTORE_FILE_BYTES) h =
      (True, commit ?s h, cwd, pinned)"
    using parse_saved_file [OF assms(1,2,4,5)] by (simp add: restore_def savedSession_def flip: n_def)
  have s: "s_rows ?s = m_rows g" "s_cols ?s = m_cols g" "s_title ?s = m_windowTitle g"
    "s_scrollback ?s = map savedLine (drop n (m_scrollback g))"
    by (simp_all add: savedSession_def)
  have "grid_wf ?h"
    using wf(2) ok s(1,2) by (intro wf_resize) (auto simp: session_ok_def)
  from push_all_cut [OF this session_comb [OF ok]]
  have cut: "cutTo ?h (m_scrollback ?h @ map (keptRow ?h) (s_scrollback ?s)) (m_scrollback (commit ?s h))"
    by (simp add: commit_fields s(1,2))
  then have "suffix (viewsOf (commit ?s h)) (viewsOf ?h @ map rowView (s_scrollback ?s))"
    using map_mono_suffix [OF cutTo_suffix, of ?h _ _ rowView] by (fastforce simp: viewsOf_def comp_def keptRow_view)
  moreover have "m_windowTitle (commit ?s h) =
      (if m_windowTitle g = [] then m_windowTitle ?h else dropHigh (m_windowTitle g))"
    using commit_title [of ?s h] commit_untitled [of ?s h] wf_parts(16) [OF wf(1)]
    by (simp add: s misc_ok_def)
  ultimately show ?thesis
    using commit_shows [OF wf ok] cut by (simp add: Let_def r s(4) flip: n_def)
qed

definition saveGrid :: grid where
  "saveGrid = applyOp (Act env0 None (PrintRun [0x41, 0x42])) grid0"

lemma session_saveGrid: "session saveGrid"
  unfolding saveGrid_def by (rule session.Step [OF session_grid0]) simp

lemma saveGrid_size: "m_rows saveGrid = 4" "m_cols saveGrid = 8"
proof -
  have "grows grid0 saveGrid"
    unfolding saveGrid_def applyOp.simps by (rule grows_action [OF _ grows_refl]) simp
  then show "m_rows saveGrid = 4" "m_cols saveGrid = 8" by (simp_all add: grows_def grid0_fields)
qed

lemma saveGrid_history: "m_scrollback saveGrid = []"
  by code_simp

lemma saveGrid_bytes: "fixedBytes saveGrid (asc ''/a'') [] = 496"
  by code_simp

lemma saveGrid_restorable: "restorable saveGrid (asc ''/a'') []"
proof -
  have "cursor_ok 4 8 (m_cursorRow saveGrid) (m_cursorCol saveGrid)"
    using session_wf [OF session_saveGrid] by (simp add: wf_defs saveGrid_size)
  then have "0 < m_rows saveGrid \<and> m_rows saveGrid \<le> kMaxRestoreRows \<and> 0 < m_cols saveGrid \<and>
      m_cols saveGrid \<le> kMaxRestoreCols \<and> int32 (m_cursorRow saveGrid) \<and> int32 (m_cursorCol saveGrid)"
    by (simp add: saveGrid_size cursor_ok_def int32_def kMaxRestoreRows_def kMaxRestoreCols_def)
  moreover have "m_windowTitle saveGrid = [] \<and> map combining (m_screenLines saveGrid) = replicate 4 []"
    by code_simp
  moreover from this have "combining (lineAt saveGrid (int row)) = []" if "row < 4" for row
    using that by (metis length_map length_replicate lineAt_nth nth_map nth_replicate)
  ultimately show ?thesis
    by (simp add: restorable_def comb_fits_def saveGrid_size saveGrid_history kMaxRestoreScrollbackLines_def kMaxRestoreCombiningCells_def)
qed

lemma saveGrid_fits: "screen_fits beStream storePacker saveGrid (asc ''/a'') []"
proof -
  note f = saveGrid_bytes
  then have f2: "fixedBytes saveGrid [47, 97] [] = 496" by simp
  have "int (length (serializeStream beStream saveGrid (asc ''/a'') [] (length (m_scrollback saveGrid)))) = 496"
    using serializeStream_size [OF beStream_ok restorable_fits [OF saveGrid_restorable]] f by simp
  then show ?thesis
    by (simp add: screen_fits_def f2 packFrom_def storePacker_def sealedSize_def be32_def
        ENVELOPE_HEADER_SIZE_def MAX_RESTORE_FILE_BYTES_def MAX_RESTORE_RAW_BYTES_def MAX_UNCOMPRESSED_def)
qed

theorem session_saved_restored_witness:
  "fst (restore beStream storePacker
     (serialize beStream storePacker saveGrid (asc ''/a'') [] MAX_RESTORE_RAW_BYTES MAX_RESTORE_FILE_BYTES) grid0)"
  using session_saved_restored [OF beStream_ok storePacker_ok session_saveGrid saveGrid_restorable
      saveGrid_fits session_grid0]
  by (simp add: Let_def)


section \<open>Any file at all\<close>

text \<open>
  C5. Whatever bytes a session file holds, restoring it keeps the grid's invariant: the
  dimensions stay within 2000 by 4000 when it is accepted, and when it is refused the grid is
  untouched and both strings are empty.
\<close>
theorem restore_any_bytes:
  assumes "session g"
  shows "let r = restore q z input g in
    grid_wf (fst (snd r)) \<and>
    (if fst r then 1 \<le> m_rows (fst (snd r)) \<and> m_rows (fst (snd r)) \<le> 2000 \<and>
                   1 \<le> m_cols (fst (snd r)) \<and> m_cols (fst (snd r)) \<le> 4000
     else r = (False, g, [], []))"
proof (cases "parseFile q z input")
  case None
  then show ?thesis using session_wf [OF assms] by (simp add: restore_def)
next
  case (Some s)
  have ok: "session_ok s" using Some by (rule parseFile_ok)
  then show ?thesis
    using wf_commit [OF session_wf [OF assms] ok]
    by (simp add: restore_def Some commit_fields session_ok_def kMaxRestoreRows_def kMaxRestoreCols_def)
qed

theorem restore_any_bytes_witness:
  "grid_wf (fst (snd (restore beStream storePacker [1, 2, 3] grid0)))"
  using restore_any_bytes [OF session_grid0, of beStream storePacker "[1, 2, 3]"] by (simp add: Let_def)

section \<open>Sizes\<close>

text \<open>
  C31. What \<open>serialize\<close> writes stays within both caps unless no scrollback line is kept; the
  number of the stream's bytes is the formula's; the lines kept before compression are the most
  that fit; and the trim loop ends after at most nine passes.
\<close>
theorem serialize_bounded:
  assumes "qds_ok q" "packer_ok z" "stream_fits g cwd pinned" "0 \<le> maxFile"
  shows "let n = firstKept q z g cwd pinned maxRaw maxFile;
             m = firstLineWithin g cwd pinned maxRaw in
    m \<le> n \<and> n \<le> length (m_scrollback g) \<and>
    int (length (serializeStream q g cwd pinned n)) =
      fixedBytes g cwd pinned + sum_list (map lineBytes (drop n (m_scrollback g))) \<and>
    (n < length (m_scrollback g) \<longrightarrow>
       int (length (serializeStream q g cwd pinned n)) \<le> maxRaw \<and>
       int (length (serialize q z g cwd pinned maxRaw maxFile)) \<le> maxFile) \<and>
    (0 < m \<longrightarrow> maxRaw < fixedBytes g cwd pinned + sum_list (map lineBytes (drop (m - 1) (m_scrollback g)))) \<and>
    snd (trimLoop z (packFrom q z g cwd pinned) maxFile (int (length (m_scrollback g))) 0 (int m)) \<le> 9"
proof -
  define n where "n = firstKept q z g cwd pinned maxRaw maxFile"
  define m where "m = firstLineWithin g cwd pinned maxRaw"
  have k: "m \<le> n" "n \<le> length (m_scrollback g)"
    "sealedSize (packFrom q z g cwd pinned n) \<le> maxFile \<or> n = length (m_scrollback g)"
    unfolding n_def m_def by (rule firstKept_result [OF assms(2,4)])+
  have "int (length (serialize q z g cwd pinned maxRaw maxFile)) = sealedSize (packFrom q z g cwd pinned n)"
    unfolding serialize_def n_def by (rule envelope_header_length [OF assms(1,2)])
  moreover have "int (length (serializeStream q g cwd pinned n)) \<le> maxRaw" if "n < length (m_scrollback g)"
    using kept_stream_size [OF assms(1,3) _ that] k(1) by (simp add: m_def)
  moreover have "0 < m \<longrightarrow>
      maxRaw < fixedBytes g cwd pinned + sum_list (map lineBytes (drop (m - 1) (m_scrollback g)))"
    using firstLoop_maximal [of "length (m_scrollback g)" "m_scrollback g" maxRaw "fixedBytes g cwd pinned"]
    by (simp add: m_def firstLineWithin_def)
  moreover have "snd (trimLoop z (packFrom q z g cwd pinned) maxFile (int (length (m_scrollback g))) 0 (int m)) \<le> 9"
    by (rule trimLoop_passes) (simp_all add: m_def firstLineWithin_def firstLoop_le)
  ultimately show ?thesis
    using k serializeStream_size [OF assms(1,3) k(2)] by (auto simp: Let_def simp flip: n_def m_def)
qed

theorem serialize_bounded_witness:
  "int (length (serializeStream beStream saveGrid (asc ''/a'') []
     (firstKept beStream storePacker saveGrid (asc ''/a'') [] 1000 1000))) = 496"
proof -
  note f = saveGrid_bytes and s = saveGrid_history
  have p: "0 \<le> (1000 :: int)" by simp
  note r = serialize_bounded [OF beStream_ok storePacker_ok restorable_fits [OF saveGrid_restorable] p,
      where maxRaw = 1000, unfolded f s Let_def]
  show ?thesis using conjunct1 [OF conjunct2 [OF conjunct2 [OF r]]] by simp
qed

section \<open>Damaged files\<close>

lemma unwrap_parts:
  assumes "qds_ok q" "length sha = 32" "unwrap q z (putU32 q ENVELOPE_MAGIC @ putU32 q w @ sha @
      putU32 q n @ body) = Some c"
  shows "w = ENVELOPE_VERSION" "uint n = int (length body)" "sha256 z body = sha"
  using assms
  by (auto simp: unwrap_def u32Or0_def qds_simps ENVELOPE_HEADER_SIZE_def Let_def split: if_splits)

definition sealHeader :: "qds \<Rightarrow> packer \<Rightarrow> bytes \<Rightarrow> bytes" where
  "sealHeader q z c = putU32 q ENVELOPE_MAGIC @ putU32 q ENVELOPE_VERSION @ sha256 z c @
     putU32 q (word_of_nat (length c))"

lemma sealHeader: "seal q z c = sealHeader q z c @ c"
  by (simp add: seal_def sealHeader_def)

lemma length_sealHeader: "qds_ok q \<Longrightarrow> packer_ok z \<Longrightarrow> length (sealHeader q z c) = 44"
  by (simp add: sealHeader_def qds_simps packer_ok_def)

lemma header_accepts:
  assumes "qds_ok q" "packer_ok z" "sealedSize c \<le> MAX_RESTORE_FILE_BYTES"
    "parseFile q z (sealHeader q z c @ body) = Some s"
  shows "length body = length c" "sha256 z body = sha256 z c"
proof -
  have "length c < 2 ^ LENGTH(32)"
    using assms(3) by (simp add: sealedSize_def MAX_RESTORE_FILE_BYTES_def ENVELOPE_HEADER_SIZE_def)
  then have u: "uint (word_of_nat (length c) :: u32) = int (length c)"
    by (simp only: unsigned_of_nat take_bit_nat_eq_self)
  have s: "length (sha256 z c) = 32" using assms(2) by (simp add: packer_ok_def)
  obtain c' where "unwrap q z (putU32 q ENVELOPE_MAGIC @ putU32 q ENVELOPE_VERSION @ sha256 z c @
      putU32 q (word_of_nat (length c)) @ body) = Some c'"
    using assms(4) by (auto simp: parseFile_def sealHeader_def bind_eq_Some_conv split: if_splits)
  note p = unwrap_parts [OF assms(1) s this]
  show "length body = length c" using p(2) u by simp
  show "sha256 z body = sha256 z c" by (rule p(3))
qed

lemma short_file_refused:
  assumes "qds_ok q" "packer_ok z" "\<forall>w r. claimedLength (putU32 q w @ r) = w" "k < 44"
  shows "parseFile q z (take k (seal q z c)) = None"
proof -
  have u: "unwrap q z (take k (seal q z c)) = Some (take k (seal q z c))"
    using assms(4) by (simp add: unwrap_def ENVELOPE_HEADER_SIZE_def)
  have "inflate z (take k (seal q z c)) = None"
  proof (cases "4 \<le> k")
    case True
    have "take k (seal q z c) = putU32 q ENVELOPE_MAGIC @ drop 4 (take k (seal q z c))"
      using True assms(1) by (simp add: seal_def qds_simps)
    then have "claimedLength (take k (seal q z c)) = ENVELOPE_MAGIC" using assms(3) by metis
    then show ?thesis by (simp add: inflate_def ENVELOPE_MAGIC_def MAX_UNCOMPRESSED_def)
  qed (simp add: inflate_def)
  then show ?thesis by (simp add: parseFile_def u)
qed

text \<open>
  C22. A damaged file is refused and the grid left alone: a sealed file cut anywhere, one with
  bytes after its end, one whose payload was replaced by other bytes with another hash, and any
  file that starts as an envelope whose version, hash or length field is not that of its payload.
  (A file that does not start with the magic number is read as a legacy one, without a hash.)
\<close>
theorem damaged_file_refused:
  assumes "qds_ok q" "packer_ok z" "\<forall>w r. claimedLength (putU32 q w @ r) = w"
    "sealedSize c \<le> MAX_RESTORE_FILE_BYTES"
  shows "(\<forall>k < length (seal q z c). restore q z (take k (seal q z c)) g = (False, g, [], [])) \<and>
    (\<forall>extra. extra \<noteq> [] \<longrightarrow> restore q z (seal q z c @ extra) g = (False, g, [], [])) \<and>
    (\<forall>c'. sha256 z c' \<noteq> sha256 z c \<longrightarrow> restore q z (take 44 (seal q z c) @ c') g = (False, g, [], [])) \<and>
    (\<forall>w sha n c'. length sha = 32 \<and>
        (w \<noteq> ENVELOPE_VERSION \<or> sha \<noteq> sha256 z c' \<or> uint n \<noteq> int (length c')) \<longrightarrow>
       restore q z (putU32 q ENVELOPE_MAGIC @ putU32 q w @ sha @ putU32 q n @ c') g = (False, g, [], []))"
proof -
  note h = length_sealHeader [OF assms(1,2)] and acc = header_accepts [OF assms(1,2,4)]
  have none: "parseFile q z (sealHeader q z c @ b) = None"
    if "length b \<noteq> length c \<or> sha256 z b \<noteq> sha256 z c" for b
    using that acc [of b] by (cases "parseFile q z (sealHeader q z c @ b)") auto
  have "parseFile q z (take k (seal q z c)) = None" if "k < length (seal q z c)" for k
  proof (cases "k < 44")
    case True
    then show ?thesis by (rule short_file_refused [OF assms(1-3)])
  next
    case False
    then have "take k (seal q z c) = sealHeader q z c @ take (k - 44) c" by (simp add: sealHeader h)
    then show ?thesis using none [of "take (k - 44) c"] that False by (simp add: sealHeader h)
  qed
  moreover have "parseFile q z (seal q z c @ extra) = None" if "extra \<noteq> []" for extra
    using none [of "c @ extra"] that by (simp add: sealHeader)
  moreover have "parseFile q z (take 44 (seal q z c) @ c') = None" if "sha256 z c' \<noteq> sha256 z c" for c'
    using none [of c'] that by (simp add: sealHeader h)
  moreover have "parseFile q z (putU32 q ENVELOPE_MAGIC @ putU32 q w @ sha @ putU32 q n @ c') = None"
    if "length sha = 32" "w \<noteq> ENVELOPE_VERSION \<or> sha \<noteq> sha256 z c' \<or> uint n \<noteq> int (length c')" for w sha n c'
  proof -
    have "unwrap q z (putU32 q ENVELOPE_MAGIC @ putU32 q w @ sha @ putU32 q n @ c') = None"
    proof (rule ccontr)
      assume "\<not> ?thesis"
      then obtain c where "unwrap q z (putU32 q ENVELOPE_MAGIC @ putU32 q w @ sha @ putU32 q n @ c') = Some c"
        by blast
      from unwrap_parts [OF assms(1) that(1) this] that(2) show False by simp
    qed
    then show ?thesis by (simp add: parseFile_def)
  qed
  ultimately show ?thesis by (simp add: restore_def)
qed

theorem damaged_file_refused_witness:
  "restore beStream storePacker (take 50 (seal beStream storePacker [1, 2, 3, 4, 5, 6, 7])) grid0 =
   (False, grid0, [], [])"
proof -
  have be: "\<forall>w r. claimedLength (putU32 beStream w @ r) = w"
    by (simp add: beStream_def claimedLength_be32)
  have c: "sealedSize [1, 2, 3, 4, 5, 6, 7] \<le> MAX_RESTORE_FILE_BYTES"
    by (simp add: sealedSize_def ENVELOPE_HEADER_SIZE_def MAX_RESTORE_FILE_BYTES_def)
  have len: "50 < length (seal beStream storePacker [1, 2, 3, 4, 5, 6, 7])"
    by (simp add: sealHeader length_sealHeader [OF beStream_ok storePacker_ok])
  show ?thesis
    using conjunct1 [OF damaged_file_refused [OF beStream_ok storePacker_ok be c]] len by blast
qed

section \<open>A grid the reader's caps do not allow\<close>

text \<open>
  \<open>serialize\<close> does not look at the reader's caps on rows and columns: the file of a grid with
  more than 2000 rows or 4000 columns is always refused.
\<close>
theorem oversized_grid_refused:
  assumes "qds_ok q" "packer_ok z" "stream_fits g cwd pinned" "screen_fits q z g cwd pinned"
    "m_rows g > kMaxRestoreRows \<or> m_cols g > kMaxRestoreCols"
  shows "restore q z (serialize q z g cwd pinned MAX_RESTORE_RAW_BYTES MAX_RESTORE_FILE_BYTES) h =
    (False, h, [], [])"
proof -
  define n where "n = firstKept q z g cwd pinned MAX_RESTORE_RAW_BYTES MAX_RESTORE_FILE_BYTES"
  have d: "int32 (m_rows g)" "int32 (m_cols g)" "int32 (m_cursorRow g)" "int32 (m_cursorCol g)"
    using assms(3) by (simp_all add: stream_fits_def)
  have "parseStream q (serializeStream q g cwd pinned n) = None"
    using assms(1,5) d
    by (auto simp: parseStream_def serializeStream_def readHeader_def streamHeader_def qds_simps i32.rd_put)
  then show ?thesis
    using saved_file_raw [OF assms(1-4)] by (simp add: restore_def parseFile_def Let_def flip: n_def)
qed

definition wideGrid :: grid where "wideGrid = TerminalGrid env0 1 4001"

lemma wideGrid_fields:
  "m_rows wideGrid = 1" "m_cols wideGrid = 4001" "m_cursorRow wideGrid = 0" "m_cursorCol wideGrid = 0"
  "m_scrollback wideGrid = []" "m_windowTitle wideGrid = []" "combining (lineAt wideGrid 0) = []"
  by (simp_all add: wideGrid_def TerminalGrid_def grid_members_def initTabStops_def Let_def lineAt_def
      vget_def)

lemma wideGrid_fits: "stream_fits wideGrid [] []"
  by (simp add: stream_fits_def wideGrid_fields int32_def comb_fits_def kMaxRestoreCombiningCells_def)

lemma wideGrid_screen: "screen_fits beStream storePacker wideGrid [] []"
proof -
  have f: "fixedBytes wideGrid [] [] = 52065"
    by (simp add: fixedBytes_def rowBytes_def wideGrid_fields stringBytes_def combBytes_def)
  then have "int (length (serializeStream beStream wideGrid [] [] 0)) = 52065"
    using serializeStream_size [OF beStream_ok wideGrid_fits] wideGrid_fields(5) by simp
  then show ?thesis
    by (simp add: screen_fits_def f wideGrid_fields packFrom_def storePacker_def sealedSize_def be32_def
        ENVELOPE_HEADER_SIZE_def MAX_RESTORE_FILE_BYTES_def MAX_RESTORE_RAW_BYTES_def MAX_UNCOMPRESSED_def)
qed

theorem oversized_grid_refused_witness:
  "restore beStream storePacker
     (serialize beStream storePacker wideGrid [] [] MAX_RESTORE_RAW_BYTES MAX_RESTORE_FILE_BYTES) grid0 =
   (False, grid0, [], [])"
  by (rule oversized_grid_refused [OF beStream_ok storePacker_ok wideGrid_fits wideGrid_screen])
    (simp add: wideGrid_fields kMaxRestoreRows_def kMaxRestoreCols_def)

section \<open>Files\<close>

text \<open>
  C9. Through every step of an atomic write, and so after a crash at any of them, the file is
  the old one or the complete new one; the result says which it is at the end; a write that
  opened its temp file leaves none behind, unless \<open>QFile\<close> does not take the descriptor or the
  file cannot be removed; no other file changes; and under \<open>Refuse\<close> the data
  is at no moment in a file others can read.
\<close>
theorem atomic_write:
  assumes "tmp \<noteq> path"
  shows "let r = writeFileAtomicOwnerOnly sc perms path tmp bs d0;
             final = last (snd r) in
    (\<forall>d \<in> set (snd r). (d path = d0 path \<or> map_option contents (d path) = Some bs) \<and>
       (perms = Refuse \<longrightarrow>
          (\<forall>f. d tmp = Some f \<longrightarrow> contents f = [] \<or> ownerOnly f \<or> d tmp = d0 tmp) \<and>
          (\<forall>f. d path = Some f \<longrightarrow> ownerOnly f \<or> d path = d0 path))) \<and>
    (if fst r then map_option contents (final path) = Some bs else final path = d0 path) \<and>
    (sc_open sc \<and> sc_fdopen sc \<and> sc_unlink sc \<longrightarrow> final tmp = None) \<and>
    (\<forall>other. other \<noteq> path \<longrightarrow> other \<noteq> tmp \<longrightarrow> final other = d0 other)"
  using write_atomic [OF assms] write_private [OF assms] write_result [OF assms]
  unfolding Let_def afterWrite_def by (auto split: if_split)

definition calls0 :: syscalls where
  "calls0 = \<lparr>sc_open = True, sc_fdopen = True, sc_fchmod = True, sc_written = 3, sc_flush = True,
     sc_rename = True, sc_chmod = True, sc_unlink = True\<rparr>"

theorem atomic_write_witness:
  "list_all (\<lambda>d. d [1] = None \<or> map_option contents (d [1]) = Some [7, 8, 9])
     (snd (writeFileAtomicOwnerOnly calls0 Refuse [1] [2] [7, 8, 9] Map.empty))"
proof -
  have "[2 :: u16] \<noteq> [1]" by simp
  from atomic_write [OF this, of calls0 Refuse "[7, 8, 9]" Map.empty] show ?thesis
    unfolding Let_def list_all_iff by simp
qed

text \<open>
  C8. Queued saves land in call order: however the worker's progress interleaves with the
  calls, once it is idle the disk is the one left by saving, refusing or removing at the moment
  of each call.
\<close>
theorem queued_saves_in_order:
  "sessionRun e ops s t \<Longrightarrow>
   ss_disk (waitForPendingSaves e t) = fold (specOp e) ops (ss_disk (waitForPendingSaves e s))"
  using sessionRun_spec [of e ops s t] by (simp add: settledDisk_def)

definition sessionEnv :: session_env where
  "sessionEnv = \<lparr>se_qds = beStream, se_packer = storePacker, se_dir = asc ''/s'', se_pid = asc ''7''\<rparr>"

definition idle :: sessions where
  "idle = \<lparr>ss_disk = Map.empty, ss_overshot = {}, ss_pending = None\<rparr>"

theorem queued_saves_in_order_witness:
  "ss_disk (waitForPendingSaves sessionEnv
     (saveSessionAsync sessionEnv calls0 (asc ''b'') grid0 [] [] 1000
       (saveSessionAsync sessionEnv calls0 (asc ''a'') grid0 [] [] 1000 idle))) =
   fold (specOp sessionEnv)
     [SaveQueued calls0 (asc ''a'') grid0 [] [] 1000, SaveQueued calls0 (asc ''b'') grid0 [] [] 1000]
     (ss_disk (waitForPendingSaves sessionEnv idle))"
  by (rule queued_saves_in_order, rule sessionRun.Call, rule sessionRun.Call, simp only: sessionOp.simps,
      rule sessionRun.Stop)


lemma corrupt_not_tmp: "tmpPath pid path \<noteq> corruptName path stamp k"
proof -
  obtain ds where ds: "ds \<noteq> []" "list_all isDigitQ ds" "numberQ stamp = (if stamp < 0 then 0x2D # ds else ds)"
    using numberQ_form [of stamp] by metis
  obtain ks where ks: "ks \<noteq> []" "list_all isDigitQ ks" "numberQ (int k) = ks"
    using numberQ_form [of "int k"] by (metis of_nat_less_0_iff)
  have "isDigitQ (last ds)" "isDigitQ (last ks)" using ds(1,2) ks(1,2) by (simp_all add: list_all_iff)
  then have "isDigitQ (last (corruptName path stamp k))"
    using ds ks by (auto simp: corruptName_def numberQ_def)
  moreover have "\<not> isDigitQ (last (tmpPath pid path))" by (simp add: tmpPath_def isDigitQ_def)
  ultimately show ?thesis by auto
qed

text \<open>A refused file, some name for its copy being free and writable, is copied aside, and a save leaves the copy.\<close>

lemma rotate_copies:
  assumes "d path = Some f" "k < 10" "d (corruptName path stamp k) = None" "copyOk (corruptName path stamp k)"
    and "\<And>j x. j < 10 \<Longrightarrow> d (corruptName path stamp j) = None \<Longrightarrow>
      corruptName path stamp j \<notin> set (drop 5 (siblings (d(corruptName path stamp j \<mapsto> x)) path))"
  shows "\<exists>j < 10. d (corruptName path stamp j) = None \<and>
    snd (rotateCorruptFileAside copyOk siblings stamp path d) (corruptName path stamp j) = Some f"
proof -
  obtain j where j: "j < 10" "d (corruptName path stamp j) = None"
      "copyAside copyOk path stamp [0 ..< 10] d = Some (corruptName path stamp j, d(corruptName path stamp j \<mapsto> f))"
    using copyAside_copies [of d path f k "[0 ..< 10]" stamp copyOk] assms(1-4) by auto
  then show ?thesis using assms(5) [OF j(1,2), of f] by (auto simp: rotateCorruptFileAside_def removeAll)
qed

lemma save_leaves_copy:
  "path = sessionPath (se_dir e) tabId \<Longrightarrow> ss_pending s = None \<Longrightarrow>
   ss_disk (saveSession e sc tabId g cwd pinned s) (corruptName path stamp k) = ss_disk s (corruptName path stamp k)"
  using write_result(4) [of "tmpPath (se_pid e) path" path "corruptName path stamp k" sc Refuse]
    corrupt_not_tmp [of "se_pid e" path stamp k]
  by (auto simp: saveSession_def writeBlob_def Let_def corruptName_def)

text \<open>
  C32. A session file that is refused is not lost. The grid is untouched, the file keeps its
  content, and of the other files at most copies of refused files are removed; none is changed.
  If one of the ten names tried is free and can be written, a copy of the file is there under
  such a name, and a later save of the session leaves it there (the listing of copies names
  the one just made among its first five, being newest first). A file that is accepted leaves
  the disk as it was.
\<close>
theorem refused_file_kept:
  fixes e tabId d stamp siblings
  defines "path \<equiv> sessionPath (se_dir e) tabId"
  assumes "\<forall>d p. \<forall>f \<in> set (siblings d p). \<exists>t. f = p @ asc ''.corrupt-'' @ t"
    and "\<forall>k x. k < 10 \<and> d (corruptName path stamp k) = None \<longrightarrow>
      corruptName path stamp k \<notin> set (drop 5 (siblings (d(corruptName path stamp k \<mapsto> x)) path))"
  shows "let r = loadSession e copyOk siblings stamp readable tabId g cwd pinned d in
    (fst (fst r) \<longrightarrow> snd r = d) \<and>
    (\<not> fst (fst r) \<longrightarrow> fst (snd (fst r)) = g \<and> (path \<noteq> [] \<longrightarrow> snd r path = d path) \<and>
       (\<forall>f. d f \<noteq> None \<longrightarrow> snd r f = d f \<or> snd r f = None \<and> (\<exists>t. f = path @ asc ''.corrupt-'' @ t)) \<and>
       (path \<noteq> [] \<and> d path \<noteq> None \<and> readable \<and>
        (\<exists>k < 10. d (corruptName path stamp k) = None \<and> copyOk (corruptName path stamp k)) \<longrightarrow>
        (\<exists>k < 10. d (corruptName path stamp k) = None \<and> snd r (corruptName path stamp k) = d path \<and>
           (\<forall>sc h c p s. ss_pending s = None \<and> ss_disk s = snd r \<longrightarrow>
              ss_disk (saveSession e sc tabId h c p s) (corruptName path stamp k) = d path))))"
proof -
  have rot: "snd (rotateCorruptFileAside copyOk siblings stamp path d) f = d f \<or>
      snd (rotateCorruptFileAside copyOk siblings stamp path d) f = None \<and>
      (\<exists>t. f = path @ asc ''.corrupt-'' @ t)" if "d f \<noteq> None" for f
    using that assms(2) by (intro rotate_keeps) auto
  have neq: "path \<noteq> path @ asc ''.corrupt-'' @ t" for t by simp
  show ?thesis
  proof (cases "d path")
    case None
    then show ?thesis by (simp add: loadSession_def Let_def path_def)
  next
    case (Some old)
    let ?d = "snd (rotateCorruptFileAside copyOk siblings stamp path d)"
    have keep: "?d path = d path"
      using rot [of path] Some neq by auto
    have grid: "fst (snd (restore q z b g)) = g" if "\<not> fst (restore q z b g)" for q z b
      using that by (simp add: restore_def split: option.splits)
    have copy: "\<exists>k < 10. d (corruptName path stamp k) = None \<and> ?d (corruptName path stamp k) = d path \<and>
        (\<forall>sc h c p s. ss_pending s = None \<and> ss_disk s = ?d \<longrightarrow>
           ss_disk (saveSession e sc tabId h c p s) (corruptName path stamp k) = d path)"
      if k: "k < 10" "d (corruptName path stamp k) = None" "copyOk (corruptName path stamp k)" for k
    proof -
      obtain j where "j < 10" "d (corruptName path stamp j) = None" "?d (corruptName path stamp j) = Some old"
        using rotate_copies [of d path old k stamp copyOk siblings] Some k assms(3) by blast
      moreover from this have "ss_disk (saveSession e sc tabId h c p s) (corruptName path stamp j) = d path"
        if "ss_pending s = None" "ss_disk s = ?d" for sc h c p s
        using save_leaves_copy [OF path_def [THEN meta_eq_to_obj_eq] that(1), of sc h c p stamp j] that(2) Some by simp
      ultimately show ?thesis using Some by auto
    qed
    have l: "loadSession e copyOk siblings stamp readable tabId g cwd pinned d =
        (if path = [] \<or> \<not> readable then ((False, g, cwd, pinned), d)
         else (let r = (if int (length (contents old)) \<le> MAX_RESTORE_FILE_BYTES
                        then restore (se_qds e) (se_packer e) (contents old) g
                        else (False, g, cwd, pinned))
               in (r, if fst r then d else ?d)))"
      using Some by (simp add: loadSession_def Let_def path_def)
    show ?thesis
    proof (cases "path = [] \<or> \<not> readable")
      case True
      then show ?thesis unfolding l by auto
    next
      case False
      then show ?thesis using rot keep grid copy unfolding l Let_def by (simp split: if_split) blast
    qed
  qed
qed

theorem refused_file_kept_witness:
  "let d = [sessionPath (asc ''/s'') (asc ''a'') \<mapsto> \<lparr>contents = [1, 2], ownerOnly = True\<rparr>];
       r = loadSession sessionEnv (\<lambda>_. True) (\<lambda>_ p. [corruptName p 5 0]) 5 True (asc ''a'') grid0 [] [] d
   in fst (fst r) \<or> (\<exists>k < 10. snd r (corruptName (sessionPath (asc ''/s'') (asc ''a'')) 5 k) =
        Some \<lparr>contents = [1, 2], ownerOnly = True\<rparr>)"
proof -
  let ?p = "sessionPath (asc ''/s'') (asc ''a'')"
  let ?d = "[?p \<mapsto> \<lparr>contents = [1, 2], ownerOnly = True\<rparr>] :: disk"
  have l: "\<forall>d p. \<forall>f \<in> set ((\<lambda>(_ :: disk) p. [corruptName p 5 0]) d p). \<exists>t. f = p @ asc ''.corrupt-'' @ t"
    by (auto simp: corruptName_def)
  have p: "sessionPath (se_dir sessionEnv) (asc ''a'') = ?p" "?p \<noteq> []" "?d (corruptName ?p 5 0) = None"
    by (simp_all add: sessionEnv_def sessionPath_def validId_def idCore_def isAlnumHyphen_def corruptName_def)
  note r = refused_file_kept [OF l, of ?d sessionEnv "asc ''a''" 5 "\<lambda>_. True" True grid0 "[]" "[]",
      unfolded Let_def p(1)]
  have "\<exists>k < 10. ?d (corruptName ?p 5 k) = None \<and> (\<lambda>_. True) (corruptName ?p 5 k)"
    using p(3) by (intro exI [of _ 0]) simp
  with r p(2) show ?thesis unfolding Let_def by (auto 0 3)
qed

section \<open>The tab order\<close>

lemma nth_filter_take:
  "k < length xs \<Longrightarrow> P (xs ! k) \<Longrightarrow>
   length (filter P (take k xs)) < length (filter P xs) \<and>
   filter P xs ! length (filter P (take k xs)) = xs ! k"
proof (induction xs arbitrary: k)
  case (Cons x xs)
  then show ?case by (cases k) auto
qed simp

text \<open>
  A saved tab order comes back: the tabs whose session file still exists, in order, and the
  active tab is the one saved whenever it is among them; the index is always in range.
\<close>
theorem tab_order_restored:
  assumes "list_all plainId ids" "- (2 ^ 31) \<le> active" "active < 2 ^ 31"
  shows "let r = loadTabOrder present (Some (tabOrderText ids active)) a0 in
    fst r = filter present ids \<and> 0 \<le> snd r \<and> snd r < max 1 (int (length (fst r))) \<and>
    (0 \<le> active \<and> active < int (length ids) \<and> present (ids ! nat active) \<longrightarrow>
       fst r ! nat (snd r) = ids ! nat active)"
proof -
  let ?k = "keepTabs present active 0 ids ([], 0)"
  have r: "loadTabOrder present (Some (tabOrderText ids active)) a0 =
      (filter present ids, if filter present ids = [] then 0
         else clamp (snd ?k) 0 (int (length (filter present ids)) - 1))"
    using tab_order_parsed [OF assms, of a0] keepTabs_valid [of present active 0 ids "([], 0)"]
    by (simp add: loadTabOrder_def Let_def split_beta)
  have "clamp (snd ?k) 0 (int (length (filter present ids)) - 1) =
      int (length (filter present (take (nat active) ids)))" "filter present ids \<noteq> []"
    "filter present ids ! length (filter present (take (nat active) ids)) = ids ! nat active"
    if a: "0 \<le> active" "active < int (length ids)" "present (ids ! nat active)"
  proof -
    have k: "nat active < length ids" using a by simp
    note n = nth_filter_take [OF k, of present, OF a(3)]
    have "snd ?k = int (length (filter present (take (nat active) ids)))"
      using keepTabs_active [of "nat active" ids present 0 "([], 0)"] k a by simp
    then show "clamp (snd ?k) 0 (int (length (filter present ids)) - 1) =
      int (length (filter present (take (nat active) ids)))" using n by simp
    show "filter present ids \<noteq> []" using n by auto
    show "filter present ids ! length (filter present (take (nat active) ids)) = ids ! nat active"
      using n by simp
  qed
  moreover have "0 \<le> clamp x 0 (int (length xs) - 1) \<and>
      clamp x 0 (int (length xs) - 1) < max 1 (int (length xs))"
    if "xs \<noteq> []" for x and xs :: "qstring list"
    using that by (cases xs) (simp_all add: clamp_def)
  ultimately show ?thesis by (auto simp: r Let_def)
qed

theorem tab_order_restored_witness:
  "loadTabOrder (\<lambda>t. t \<noteq> asc ''b'') (Some (tabOrderText [asc ''a'', asc ''b'', asc ''c-1''] 2)) 0 =
     ([asc ''a'', asc ''c-1''], 1)"
proof -
  let ?r = "loadTabOrder (\<lambda>t. t \<noteq> asc ''b'') (Some (tabOrderText [asc ''a'', asc ''b'', asc ''c-1''] 2)) 0"
  have p: "list_all plainId [asc ''a'', asc ''b'', asc ''c-1'']"
    by (simp add: plainId_def isAlnumHyphen_def)
  have "- (2 ^ 31) \<le> (2 :: int)" "(2 :: int) < 2 ^ 31" by simp_all
  note t = tab_order_restored [OF p this, of "\<lambda>t. t \<noteq> asc ''b''" 0]
  have "fst ?r = [asc ''a'', asc ''c-1'']" "0 \<le> snd ?r" "snd ?r < 2" "fst ?r ! nat (snd ?r) = asc ''c-1''"
    using t unfolding Let_def by auto
  moreover from this have "snd ?r = 1" by (cases "snd ?r = 0") auto
  ultimately show ?thesis by (simp add: prod_eq_iff)
qed

section \<open>Session paths\<close>

text \<open>
  A session path stays in the sessions directory: what follows the directory is a slash
  and a file name without a slash that is neither dot nor dot-dot, and different ids have
  different files, whose id \<open>savedSessions\<close> recovers.
\<close>
theorem session_path_confined:
  assumes "sessionPath dir tabId \<noteq> []"
  shows "sessionPath dir tabId = dir @ asc ''/'' @ sessionFile tabId \<and>
    0x2F \<notin> set (sessionFile tabId) \<and> sessionFile tabId \<noteq> asc ''.'' \<and> sessionFile tabId \<noteq> asc ''..'' \<and>
    sessionIdOf (sessionFile tabId) = tabId \<and>
    (\<forall>other. sessionPath dir other = sessionPath dir tabId \<longrightarrow> other = tabId)"
proof -
  have v: "validId tabId" using assms by (simp add: sessionPath_def split: if_splits)
  have "u \<noteq> 0x2F" if "u \<in> set tabId" for u
  proof -
    have "u \<in> set (idCore tabId) \<or> u = 0x0A"
      using that by (cases tabId rule: rev_cases) (auto simp: idCore_def split: if_splits)
    then show ?thesis using v alnum_class [of u] by (auto simp: validId_def list_all_iff)
  qed
  then have "0x2F \<notin> set (sessionFile tabId)" by (auto simp: sessionFile_def)
  moreover have "sessionPath dir other = sessionPath dir tabId \<longrightarrow> other = tabId" for other
    using v by (auto simp: sessionPath_def split: if_splits)
  ultimately show ?thesis
    using v by (simp add: sessionPath_def sessionFile_def sessionIdOf_def)
qed

theorem session_path_confined_witness:
  "sessionPath (asc ''/s'') (asc ''a-1'') = asc ''/s'' @ asc ''/'' @ sessionFile (asc ''a-1'')"
proof -
  have "sessionPath (asc ''/s'') (asc ''a-1'') \<noteq> []"
    by (simp add: sessionPath_def validId_def idCore_def isAlnumHyphen_def)
  from session_path_confined [OF this] show ?thesis by blast
qed

text \<open>The pattern lets a final line feed through.\<close>

lemma session_path_line_feed: "sessionPath dir (asc ''a'' @ [0x0A]) = dir @ asc ''/session_a'' @ [0x0A] @ asc ''.dat''"
  by (simp add: sessionPath_def validId_def idCore_def isAlnumHyphen_def)

end
