(* ===== verification/TermPaste.thy ===== *)
theory TermPaste
  imports SessionTabs VtStream
begin

text \<open>
  Pasting: the markers \<open>stripBracketedPasteMarkers\<close> takes out (\<open>src/src/bracketedpaste.h\<close>),
  the shell quoting of pasted paths (\<open>src/src/shellutils.h\<close>), the risk check and the
  confirmation of \<open>TerminalWidget::pasteToTerminal\<close>, and the bytes \<open>performPaste\<close> hands to the
  worker (\<open>src/src/terminalwidget.cpp\<close>).
\<close>

section \<open>Removing text\<close>

definition ascii :: "string \<Rightarrow> u8 list" where
  "ascii s = map byte_of_char s"

text \<open>\<open>QByteArray::replace(m, "")\<close> for a marker that is not empty: from the left, not overlapping.\<close>

function stripMarker :: "'a list \<Rightarrow> 'a list \<Rightarrow> 'a list" where
  "stripMarker m s =
     (if s = [] then []
      else if m \<noteq> [] \<and> take (length m) s = m then stripMarker m (drop (length m) s)
      else hd s # stripMarker m (tl s))"
  by pat_completeness auto
termination by (relation "measure (\<lambda>(m, s). length s)") auto

declare stripMarker.simps [simp del]

definition esc :: u8 where "esc = 0x1B"

definition pasteStart :: "u8 list" where "pasteStart = esc # ascii ''[200~''"
definition pasteEnd :: "u8 list" where "pasteEnd = esc # ascii ''[201~''"

definition kMarkers :: "u8 list list" where
  "kMarkers = [pasteStart, pasteEnd, 0xC2 # 0x9B # ascii ''200~'', 0xC2 # 0x9B # ascii ''201~'',
     0x9B # ascii ''200~'', 0x9B # ascii ''201~'']"

definition stripPass :: "u8 list \<Rightarrow> u8 list" where
  "stripPass s = fold stripMarker kMarkers s"

lemma stripMarker_length: "length (stripMarker m s) \<le> length s"
proof (induction m s rule: stripMarker.induct)
  case (1 m s)
  show ?case
  proof (cases s)
    case (Cons a r)
    then show ?thesis using 1 by (subst stripMarker.simps) (auto intro: le_trans)
  qed (simp add: stripMarker.simps)
qed

lemma fold_stripMarker_length: "length (fold stripMarker ms s) \<le> length s"
  by (induction ms arbitrary: s) (auto intro: le_trans stripMarker_length)

function stripBracketedPasteMarkers :: "u8 list \<Rightarrow> u8 list" where
  "stripBracketedPasteMarkers s =
     (let t = stripPass s in if length t = length s then t else stripBracketedPasteMarkers t)"
  by pat_completeness auto
termination
proof (relation "measure length")
  fix s t assume "t = stripPass s" "length t \<noteq> length s"
  then show "(t, s) \<in> measure length"
    using fold_stripMarker_length [of kMarkers s] by (simp add: stripPass_def)
qed simp

declare stripBracketedPasteMarkers.simps [simp del]

section \<open>Shell quoting\<close>

definition shellSafe :: "u16 \<Rightarrow> bool" where
  "shellSafe u \<longleftrightarrow> 0x41 \<le> u \<and> u \<le> 0x5A \<or> 0x61 \<le> u \<and> u \<le> 0x7A \<or> 0x30 \<le> u \<and> u \<le> 0x39 \<or>
     u \<in> set (asc ''_-./:@%+,'')"

definition shellQuote :: "qstring \<Rightarrow> qstring" where
  "shellQuote s =
     (if s = [] then [0x27, 0x27]
      else if list_all shellSafe s then s
      else [0x27] @ concat (map (\<lambda>u. if u = 0x27 then [0x27, 0x5C, 0x27, 0x27] else [u]) s) @ [0x27])"

text \<open>
  How a POSIX shell reads one word made of plain characters, single-quoted text and
  backslash-escaped characters; \<open>None\<close> where the word would end, expand or stay open.
\<close>

fun shellWord :: "bool \<Rightarrow> qstring \<Rightarrow> qstring option" where
  "shellWord True [] = None"
| "shellWord True (u # us) = (if u = 0x27 then shellWord False us else map_option ((#) u) (shellWord True us))"
| "shellWord False [] = Some []"
| "shellWord False (u # us) =
     (if u = 0x27 then shellWord True us
      else if u = 0x5C then (case us of [] \<Rightarrow> None | v # vs \<Rightarrow> map_option ((#) v) (shellWord False vs))
      else if shellSafe u then map_option ((#) u) (shellWord False us) else None)"

section \<open>What is pasted for a clipboard\<close>

fun joinQ :: "qstring \<Rightarrow> qstring list \<Rightarrow> qstring" where
  "joinQ sep [] = []"
| "joinQ sep [s] = s"
| "joinQ sep (s # t # ts) = s @ sep @ joinQ sep (t # ts)"

text \<open>
  A URL of the clipboard, as far as the source looks: the local path of a file URL with the
  lower-case suffix of its file name, \<open>None\<close> for any other URL. \<open>formats\<close> is what the image
  plugins of Qt support.
\<close>

definition imagePathsFromUrls :: "(qstring \<Rightarrow> bool) \<Rightarrow> (qstring \<times> qstring) option list \<Rightarrow> qstring" where
  "imagePathsFromUrls formats urls =
     (let paths = concat (map (\<lambda>u. case u of None \<Rightarrow> []
            | Some (path, suf) \<Rightarrow> if formats suf then [shellQuote path] else []) urls)
      in joinQ [0x20] paths)"

definition pasteTextForMime ::
  "(qstring \<Rightarrow> bool) \<Rightarrow> ((qstring \<times> qstring) option list option \<times> qstring option) option \<Rightarrow> qstring" where
  "pasteTextForMime formats mime =
     (case mime of
        None \<Rightarrow> []
      | Some (urls, text) \<Rightarrow>
          (let paths = (case urls of None \<Rightarrow> [] | Some us \<Rightarrow> imagePathsFromUrls formats us)
           in if paths \<noteq> [] then paths else (case text of None \<Rightarrow> [] | Some t \<Rightarrow> t)))"

section \<open>Risk\<close>

datatype paste_risk = HasNewline | HasSudo | PipesToShell | HasControl

text \<open>\<open>QByteArray::contains\<close>.\<close>

fun containsBytes :: "'a list \<Rightarrow> 'a list \<Rightarrow> bool" where
  "containsBytes m [] = (m = [])"
| "containsBytes m (b # bs) = (take (length m) (b # bs) = m \<or> containsBytes m bs)"

definition controlByte :: "u8 \<Rightarrow> bool" where
  "controlByte b \<longleftrightarrow> b < 0x20 \<and> b \<noteq> 9 \<and> b \<noteq> 10 \<and> b \<noteq> 13 \<or> b = 0x7F"

text \<open>\<open>pipeRun\<close> is whether Qt's engine matches the pattern for a download piped to a shell.\<close>

definition pasteRiskReasons :: "(u8 list \<Rightarrow> bool) \<Rightarrow> bool \<Rightarrow> u8 list \<Rightarrow> paste_risk list" where
  "pasteRiskReasons pipeRun confirmMultiline bs =
     (if \<not> confirmMultiline then []
      else
        (if 10 \<in> set bs \<or> 13 \<in> set bs then [HasNewline] else []) @
        (if containsBytes (ascii ''sudo '') bs \<or> take 5 bs = ascii ''sudo'' @ [9] then [HasSudo] else []) @
        (if pipeRun bs then [PipesToShell] else []) @
        (if list_ex controlByte bs then [HasControl] else []))"

section \<open>The confirmation's preview\<close>

text \<open>CR LF and CR become LF; at most twenty lines are shown, each of at most 120 characters.\<close>

fun normaliseNewlines :: "qstring \<Rightarrow> qstring" where
  "normaliseNewlines (a # b # us) =
     (if a = 0x0D \<and> b = 0x0A then 0x0A # normaliseNewlines us
      else (if a = 0x0D then 0x0A else a) # normaliseNewlines (b # us))"
| "normaliseNewlines [a] = [if a = 0x0D then 0x0A else a]"
| "normaliseNewlines [] = []"

fun splitQ :: "u16 \<Rightarrow> qstring \<Rightarrow> qstring list" where
  "splitQ c [] = [[]]"
| "splitQ c (u # us) =
     (if u = c then [] # splitQ c us
      else (case splitQ c us of [] \<Rightarrow> [[u]] | l # ls \<Rightarrow> (u # l) # ls))"

definition previewMaxLines :: nat where "previewMaxLines = 20"

definition shortenLine :: "qstring \<Rightarrow> qstring" where
  "shortenLine ln = (if length ln > 120 then take 117 ln @ asc ''...'' else ln)"

definition moreLines :: "nat \<Rightarrow> qstring" where
  "moreLines n = [0x2026] @ asc '' ('' @ numberQ (int n) @ asc '' more lines)''"

definition previewLines :: "qstring \<Rightarrow> qstring list" where
  "previewLines text =
     (let lines = splitQ 0x0A (normaliseNewlines text)
      in map shortenLine (take previewMaxLines lines) @
         (if length lines > previewMaxLines
          then [moreLines (length (filter (\<lambda>u. u = 0x0A) (normaliseNewlines text)) + 1 - previewMaxLines)]
          else []))"

section \<open>Pasting\<close>

text \<open>What the widget asks of the worker, in order.\<close>

datatype worker_call = WritePaste "u8 list" | WriteBytes "u8 list"

definition pastePayload :: "grid \<Rightarrow> u8 list \<Rightarrow> u8 list" where
  "pastePayload g bs =
     (if m_bracketedPaste g then pasteStart @ stripBracketedPasteMarkers bs @ pasteEnd else bs)"

definition performPaste :: "bool \<Rightarrow> grid \<Rightarrow> u8 list \<Rightarrow> worker_call list" where
  "performPaste hasPty g bs = (if \<not> hasPty \<or> bs = [] then [] else [WritePaste (pastePayload g bs)])"

text \<open>
  \<open>pasteToTerminal\<close>: the calls made at once, and the confirmation it opens instead, with the
  bytes and the Enter it holds back.
\<close>

record paste_dialog =
  pd_reasons :: "paste_risk list"
  pd_payload :: "u8 list"
  pd_submit :: bool

definition submitCalls :: "bool \<Rightarrow> worker_call list" where
  "submitCalls submitAfter = (if submitAfter then [WriteBytes [13]] else [])"

definition pasteToTerminal ::
  "(u8 list \<Rightarrow> bool) \<Rightarrow> bool \<Rightarrow> bool \<Rightarrow> grid \<Rightarrow> u8 list \<Rightarrow> bool \<Rightarrow> worker_call list \<times> paste_dialog option" where
  "pasteToTerminal pipeRun confirmMultiline hasPty g bs submitAfter =
     (if \<not> hasPty \<or> bs = [] then ([], None)
      else (let reasons = pasteRiskReasons pipeRun confirmMultiline bs
            in if reasons = [] then (performPaste hasPty g bs @ submitCalls submitAfter, None)
               else ([], Some \<lparr>pd_reasons = reasons, pd_payload = bs, pd_submit = submitAfter\<rparr>)))"

text \<open>The answer; the grid and the terminal are those of the moment it is given.\<close>

definition answerPaste :: "bool \<Rightarrow> bool \<Rightarrow> grid \<Rightarrow> paste_dialog \<Rightarrow> worker_call list" where
  "answerPaste accepted hasPty g d =
     (if accepted then performPaste hasPty g (pd_payload d) @ submitCalls (pd_submit d) else [])"


section \<open>No marker is left\<close>

lemma stripMarker_same:
  assumes "m \<noteq> []" "length (stripMarker m s) = length s"
  shows "stripMarker m s = s \<and> \<not> sublist m s"
  using assms
proof (induction m s rule: stripMarker.induct)
  case (1 m s)
  show ?case
  proof (cases s)
    case Nil
    then show ?thesis using 1(3) by (simp add: stripMarker.simps)
  next
    case (Cons a r)
    show ?thesis
    proof (cases "take (length m) s = m")
      case True
      then have "stripMarker m s = stripMarker m (drop (length m) s)"
        using Cons 1(3) by (subst stripMarker.simps) simp
      moreover have "length (stripMarker m (drop (length m) s)) \<le> length (drop (length m) s)"
        by (rule stripMarker_length)
      moreover have "length (drop (length m) s) < length s" using 1(3) Cons by (cases m) auto
      ultimately have False using 1(4) by (metis leD)
      then show ?thesis ..
    next
      case False
      then have r: "stripMarker m s = a # stripMarker m r"
        using Cons by (subst stripMarker.simps) simp
      then have "length (stripMarker m r) = length r" using 1(4) Cons by simp
      then have "stripMarker m r = r \<and> \<not> sublist m r" using 1(2) [of ] False Cons 1(3) by simp
      moreover have "\<not> prefix m s" using False by (auto simp: prefix_def)
      ultimately show ?thesis using r Cons by (simp add: sublist_Cons_right)
    qed
  qed
qed

lemma fold_stripMarker_same:
  assumes "length (fold stripMarker ms s) = length s" "[] \<notin> set ms"
  shows "fold stripMarker ms s = s \<and> (\<forall>m \<in> set ms. \<not> sublist m s)"
  using assms
proof (induction ms arbitrary: s)
  case (Cons m ms)
  have "length (stripMarker m s) = length s"
    using Cons.prems(1) fold_stripMarker_length [of ms "stripMarker m s"] stripMarker_length [of m s] by simp
  then have "stripMarker m s = s \<and> \<not> sublist m s" using Cons.prems(2) by (intro stripMarker_same) auto
  then show ?case using Cons by simp
qed simp

lemma kMarkers_nonempty: "[] \<notin> set kMarkers"
  by (simp add: kMarkers_def pasteStart_def pasteEnd_def)

lemma strip_clean: "m \<in> set kMarkers \<Longrightarrow> \<not> sublist m (stripBracketedPasteMarkers s)"
proof (induction s rule: stripBracketedPasteMarkers.induct)
  case (1 s)
  show ?case
  proof (cases "length (stripPass s) = length s")
    case True
    then have "stripPass s = s \<and> (\<forall>m \<in> set kMarkers. \<not> sublist m s)"
      unfolding stripPass_def by (rule fold_stripMarker_same [OF _ kMarkers_nonempty])
    then show ?thesis using 1(2) True by (subst stripBracketedPasteMarkers.simps) (simp add: Let_def)
  next
    case False
    then show ?thesis using 1 by (subst stripBracketedPasteMarkers.simps) (simp add: Let_def)
  qed
qed

text \<open>Text without markers is pasted as it is; stripping only ever deletes.\<close>

lemma stripMarker_absent: "m \<noteq> [] \<Longrightarrow> \<not> sublist m s \<Longrightarrow> stripMarker m s = s"
proof (induction s)
  case (Cons a s)
  then have "take (length m) (a # s) \<noteq> m" by (metis sublist_take)
  then show ?case using Cons by (subst stripMarker.simps) (simp add: sublist_Cons_right)
qed (simp add: stripMarker.simps)

lemma fold_stripMarker_absent:
  "[] \<notin> set ms \<Longrightarrow> \<forall>m \<in> set ms. \<not> sublist m s \<Longrightarrow> fold stripMarker ms s = s"
  by (induction ms) (auto simp: stripMarker_absent)

lemma strip_plain: "\<forall>m \<in> set kMarkers. \<not> sublist m s \<Longrightarrow> stripBracketedPasteMarkers s = s"
  by (subst stripBracketedPasteMarkers.simps)
    (simp add: Let_def stripPass_def fold_stripMarker_absent kMarkers_nonempty)

lemma stripMarker_subseq: "subseq (stripMarker m s) s"
proof (induction m s rule: stripMarker.induct)
  case (1 m s)
  show ?case
  proof (cases "s = []")
    case False
    then obtain a r where s: "s = a # r" by (cases s) auto
    show ?thesis
    proof (cases "m \<noteq> [] \<and> take (length m) s = m")
      case True
      then have "stripMarker m s = stripMarker m (drop (length m) s)"
        using False by (subst stripMarker.simps) simp
      moreover have "subseq (drop (length m) s) s" by (metis subseq_drop_many subseq_order.refl append_take_drop_id)
      ultimately show ?thesis using 1(1) [OF False True] subseq_order.trans by metis
    next
      case F: False
      then have "stripMarker m s = a # stripMarker m r" using s by (subst stripMarker.simps) auto
      then show ?thesis using 1(2) [OF False F] s by simp
    qed
  qed (simp add: stripMarker.simps)
qed

lemma fold_stripMarker_subseq: "subseq (fold stripMarker ms s) s"
  by (induction ms arbitrary: s) (auto intro: subseq_order.trans stripMarker_subseq)

lemma strip_subseq: "subseq (stripBracketedPasteMarkers s) s"
proof (induction s rule: stripBracketedPasteMarkers.induct)
  case (1 s)
  have "subseq (stripPass s) s" unfolding stripPass_def by (rule fold_stripMarker_subseq)
  then show ?case
    using 1 by (subst stripBracketedPasteMarkers.simps) (auto simp: Let_def intro: subseq_order.trans)
qed

section \<open>The end marker closes the paste\<close>

lemma marker_tail: "m \<in> set kMarkers \<Longrightarrow> esc \<notin> set (tl m)"
  by (auto simp: kMarkers_def pasteStart_def pasteEnd_def ascii_def esc_def byte_of_char_def)

lemma marker_in_end:
  assumes "m \<in> set kMarkers" "pasteEnd = x @ m @ y"
  shows "m = pasteEnd \<and> x = [] \<and> y = []"
proof -
  have len: "length pasteEnd = length x + length m + length y" using assms(2) by (metis length_append add.assoc)
  have sub: "set m \<subseteq> set pasteEnd" using assms(2) by (metis Un_upper1 Un_upper2 set_append subset_trans)
  have "m = pasteStart \<or> m = pasteEnd"
    using assms(1) sub
    by (auto simp: kMarkers_def pasteStart_def pasteEnd_def ascii_def esc_def byte_of_char_def)
  moreover have "length pasteStart = length pasteEnd" "pasteStart \<noteq> pasteEnd"
    by (simp_all add: pasteStart_def pasteEnd_def ascii_def byte_of_char_def)
  ultimately show ?thesis using len assms(2) by auto
qed

lemma marker_at_end:
  assumes "m \<in> set kMarkers" "\<not> sublist m body" "body @ pasteEnd = x @ m @ y"
  shows "m = pasteEnd \<and> x = body \<and> y = []"
proof -
  have "(\<exists>u. body = x @ u \<and> u @ pasteEnd = m @ y) \<or> (\<exists>u. body @ u = x \<and> pasteEnd = u @ m @ y)"
    using assms(3) by (simp add: append_eq_append_conv2) metis
  then show ?thesis
  proof (elim disjE exE conjE)
    fix u assume u: "body = x @ u" "u @ pasteEnd = m @ y"
    show ?thesis
    proof (cases "u = []")
      case True
      then show ?thesis using u marker_in_end [OF assms(1), of "[]" y] by simp
    next
      case False
      have "length u < length m"
      proof (rule ccontr)
        assume "\<not> length u < length m"
        then have "take (length m) u = m" using arg_cong [OF u(2), of "take (length m)"] by simp
        then have "sublist m u" by (metis sublist_take)
        then show False using assms(2) u(1) by (metis append_assoc sublist_def)
      qed
      then obtain w where w: "m = u @ w" "w \<noteq> []" "pasteEnd = w @ y"
        using u(2) by (auto simp: append_eq_append_conv2)
      then have "hd w = esc" by (cases w) (auto simp: pasteEnd_def)
      then have "esc \<in> set (tl m)" using w(1,2) False hd_in_set [of w] by (cases u) auto
      then show ?thesis using marker_tail [OF assms(1)] by blast
    qed
  next
    fix u assume "body @ u = x" "pasteEnd = u @ m @ y"
    then show ?thesis using marker_in_end [OF assms(1)] by fastforce
  qed
qed

section \<open>A quoted word is one word\<close>

lemma shellSafe_plain: "shellSafe u \<Longrightarrow> u \<noteq> 0x27 \<and> u \<noteq> 0x5C"
  by (auto simp: shellSafe_def)

lemma shellWord_safe: "list_all shellSafe s \<Longrightarrow> shellWord False s = Some s"
  by (induction s) (auto dest: shellSafe_plain)

lemma shellWord_quoted:
  "shellWord True (concat (map (\<lambda>u. if u = 0x27 then [0x27, 0x5C, 0x27, 0x27] else [u]) s) @ [0x27]) = Some s"
  by (induction s) simp_all

lemma shellWord_shellQuote: "shellWord False (shellQuote s) = Some s"
  using shellWord_quoted [of s] by (simp add: shellQuote_def shellWord_safe)

section \<open>The preview\<close>

lemma normalise_clean: "0x0D \<notin> set (normaliseNewlines s)"
  by (induction s rule: normaliseNewlines.induct) auto

lemma normalise_newline: "0x0A \<in> set s \<or> 0x0D \<in> set s \<longleftrightarrow> 0x0A \<in> set (normaliseNewlines s)"
  by (induction s rule: normaliseNewlines.induct) auto

lemma splitQ_count: "length (splitQ c s) = length (filter (\<lambda>u. u = c) s) + 1"
  by (induction s) (auto split: list.split)

lemma shortenLine_length: "length (shortenLine ln) \<le> 120"
  by (simp add: shortenLine_def asc_def)

lemma preview_newline:
  assumes "0x0A \<in> set s \<or> 0x0D \<in> set s"
  shows "2 \<le> length (previewLines s)"
proof -
  have "0x0A \<in> set (normaliseNewlines s)" using assms by (simp only: normalise_newline)
  then have "filter (\<lambda>u. u = 0x0A) (normaliseNewlines s) \<noteq> []" by (auto simp: filter_empty_conv)
  then show ?thesis
    by (auto simp: previewLines_def Let_def splitQ_count previewMaxLines_def neq_Nil_conv)
qed

end
