(* ===== verification/TermKeys.thy ===== *)
theory TermKeys
  imports TermPaste
begin

text \<open>
  Keys of \<open>src/src/terminalwidget.cpp\<close>: the legacy and the Kitty encoding of a key event
  (\<open>encodeKey\<close> and its parts), what sending a key does (\<open>sendKeyData\<close>), and the tracker of
  typed \<open>/model\<close> commands (\<open>src/src/modelcommandtracker.h\<close>).
\<close>

section \<open>Key events\<close>

text \<open>The keys the source names; letters count from A, and \<open>KOther\<close> is every other key.\<close>

datatype qt_key =
    KReturn | KEnter | KBackspace | KTab | KBacktab | KEscape
  | KUp | KDown | KRight | KLeft | KHome | KEnd | KInsert | KDelete | KPageUp | KPageDown
  | KF1 | KF2 | KF3 | KF4 | KF5 | KF6 | KF7 | KF8 | KF9 | KF10 | KF11 | KF12
  | KLetter nat | KBracketLeft | KBackslash | KBracketRight | KOther

record key_event =
  ev_key :: qt_key
  ev_shift :: bool
  ev_alt :: bool
  ev_ctrl :: bool
  ev_meta :: bool
  ev_text :: qstring

text \<open>Qt's UTF-8 encoder and \<open>QChar::toLower\<close> are parameters.\<close>

record key_env =
  ke_utf8 :: "qstring \<Rightarrow> u8 list"
  ke_lower :: "u16 \<Rightarrow> u16"
  ke_isPrint :: "u16 \<Rightarrow> bool"

definition csi :: "string \<Rightarrow> u8 list" where
  "csi s = esc # ascii (CHR ''['' # s)"

definition ss3 :: "string \<Rightarrow> u8 list" where
  "ss3 s = esc # ascii (CHR ''O'' # s)"

section \<open>Kitty encoding\<close>

definition modVal :: "key_event \<Rightarrow> int" where
  "modVal ev = 1 + (if ev_shift ev then 1 else 0) + (if ev_alt ev then 2 else 0) +
     (if ev_ctrl ev then 4 else 0) + (if ev_meta ev then 8 else 0)"

text \<open>The first \<open>switch\<close>: a final letter, a number before a tilde, or a key code.\<close>

datatype kitty_form = LegacyFinal char | LegacyNumber int | KeyCode int

fun kittyForm :: "qt_key \<Rightarrow> kitty_form" where
  "kittyForm KUp = LegacyFinal CHR ''A''"
| "kittyForm KDown = LegacyFinal CHR ''B''"
| "kittyForm KRight = LegacyFinal CHR ''C''"
| "kittyForm KLeft = LegacyFinal CHR ''D''"
| "kittyForm KHome = LegacyFinal CHR ''H''"
| "kittyForm KEnd = LegacyFinal CHR ''F''"
| "kittyForm KF1 = LegacyFinal CHR ''P''"
| "kittyForm KF2 = LegacyFinal CHR ''Q''"
| "kittyForm KF4 = LegacyFinal CHR ''S''"
| "kittyForm KF3 = LegacyNumber 13"
| "kittyForm KF5 = LegacyNumber 15"
| "kittyForm KF6 = LegacyNumber 17"
| "kittyForm KF7 = LegacyNumber 18"
| "kittyForm KF8 = LegacyNumber 19"
| "kittyForm KF9 = LegacyNumber 20"
| "kittyForm KF10 = LegacyNumber 21"
| "kittyForm KF11 = LegacyNumber 23"
| "kittyForm KF12 = LegacyNumber 24"
| "kittyForm KInsert = LegacyNumber 2"
| "kittyForm KDelete = LegacyNumber 3"
| "kittyForm KPageUp = LegacyNumber 5"
| "kittyForm KPageDown = LegacyNumber 6"
| "kittyForm KEscape = KeyCode 27"
| "kittyForm KReturn = KeyCode 13"
| "kittyForm KEnter = KeyCode 13"
| "kittyForm KTab = KeyCode 9"
| "kittyForm KBacktab = KeyCode 9"
| "kittyForm KBackspace = KeyCode 127"
| "kittyForm _ = KeyCode 0"

definition kittyU :: "int \<Rightarrow> int \<Rightarrow> u8 list" where
  "kittyU code modv = csi (toString code @ (if modv > 1 then CHR '';'' # toString modv else []) @ ''u'')"

text \<open>The first unit of the text in lower case; \<open>None\<close> without text.\<close>

definition textUnit :: "key_env \<Rightarrow> key_event \<Rightarrow> int option" where
  "textUnit ke ev = (case ev_text ev of [] \<Rightarrow> None | u # _ \<Rightarrow> Some (uint (ke_lower ke u)))"

definition kittyText :: "key_env \<Rightarrow> int \<Rightarrow> int \<Rightarrow> key_event \<Rightarrow> u8 list" where
  "kittyText ke flags code ev =
     (let modv = modVal ev in
      if code \<in> {13, 9, 127} \<and> flags AND 8 = 0 then []
      else if code = 27 \<and> flags AND 1 \<noteq> 0 \<and> flags AND 8 = 0 then kittyU 27 modv
      else if flags AND 8 \<noteq> 0 then
        (let code = (if code = 0 then textUnit ke ev else Some code)
         in case code of None \<Rightarrow> [] | Some c \<Rightarrow> if c > 0 then kittyU c modv else [])
      else if flags AND 1 \<noteq> 0 \<and> code = 0 then
        (case textUnit ke ev of None \<Rightarrow> []
         | Some c \<Rightarrow> if modv > 1 \<and> c \<ge> 0x20 then kittyU c modv else [])
      else [])"

definition encodeKittyKey :: "key_env \<Rightarrow> grid \<Rightarrow> key_event \<Rightarrow> u8 list" where
  "encodeKittyKey ke g ev =
     (let flags = m_kittyKeyFlags g; modv = modVal ev in
      if flags = 0 then []
      else (case kittyForm (ev_key ev) of
              LegacyFinal c \<Rightarrow>
                if modv \<le> 1 then csi [c] else csi (''1;'' @ toString modv @ [c])
            | LegacyNumber n \<Rightarrow>
                if modv \<le> 1 then csi (toString n @ ''~'')
                else csi (toString n @ CHR '';'' # toString modv @ ''~'')
            | KeyCode code \<Rightarrow> kittyText ke flags code ev))"

section \<open>Legacy encoding\<close>

definition encodeLegacyKey :: "key_env \<Rightarrow> grid \<Rightarrow> key_event \<Rightarrow> u8 list" where
  "encodeLegacyKey ke g ev =
     (let arrow = (if m_applicationCursorKeys g then ss3 else csi) in
      case ev_key ev of
        KReturn \<Rightarrow> [13] | KEnter \<Rightarrow> [13] | KBackspace \<Rightarrow> [0x7F] | KTab \<Rightarrow> [9]
      | KBacktab \<Rightarrow> csi ''Z'' | KEscape \<Rightarrow> [esc]
      | KUp \<Rightarrow> arrow ''A'' | KDown \<Rightarrow> arrow ''B'' | KRight \<Rightarrow> arrow ''C'' | KLeft \<Rightarrow> arrow ''D''
      | KHome \<Rightarrow> arrow ''H'' | KEnd \<Rightarrow> arrow ''F''
      | KInsert \<Rightarrow> csi ''2~'' | KDelete \<Rightarrow> csi ''3~'' | KPageUp \<Rightarrow> csi ''5~'' | KPageDown \<Rightarrow> csi ''6~''
      | KF1 \<Rightarrow> ss3 ''P'' | KF2 \<Rightarrow> ss3 ''Q'' | KF3 \<Rightarrow> ss3 ''R'' | KF4 \<Rightarrow> ss3 ''S''
      | KF5 \<Rightarrow> csi ''15~'' | KF6 \<Rightarrow> csi ''17~'' | KF7 \<Rightarrow> csi ''18~'' | KF8 \<Rightarrow> csi ''19~''
      | KF9 \<Rightarrow> csi ''20~'' | KF10 \<Rightarrow> csi ''21~'' | KF11 \<Rightarrow> csi ''23~'' | KF12 \<Rightarrow> csi ''24~''
      | _ \<Rightarrow> ke_utf8 ke (ev_text ev))"

definition shiftEnter :: "key_event \<Rightarrow> bool" where
  "shiftEnter ev \<longleftrightarrow> (ev_key ev = KReturn \<or> ev_key ev = KEnter) \<and> ev_shift ev \<and> \<not> ev_ctrl ev"

definition ctrlBytes :: "qt_key \<Rightarrow> u8 list" where
  "ctrlBytes k =
     (case k of
        KLeft \<Rightarrow> csi ''1;5D'' | KRight \<Rightarrow> csi ''1;5C'' | KUp \<Rightarrow> csi ''1;5A'' | KDown \<Rightarrow> csi ''1;5B''
      | KLetter n \<Rightarrow> [word_of_nat (n + 1)]
      | KBracketLeft \<Rightarrow> [esc] | KBackslash \<Rightarrow> [0x1C] | KBracketRight \<Rightarrow> [0x1D]
      | _ \<Rightarrow> [])"

definition encodeEarlyKey :: "key_env \<Rightarrow> grid \<Rightarrow> key_event \<Rightarrow> u8 list" where
  "encodeEarlyKey ke g ev =
     (if shiftEnter ev then
        (if m_bracketedPaste g then pasteStart @ [10] @ pasteEnd else [0x16, 10])
      else
        (let kitty = (if m_kittyKeyFlags g > 0 then encodeKittyKey ke g ev else [])
         in if kitty \<noteq> [] then kitty
            else if ev_ctrl ev \<and> \<not> ev_shift ev then ctrlBytes (ev_key ev) else []))"

definition encodeKey :: "key_env \<Rightarrow> grid \<Rightarrow> key_event \<Rightarrow> u8 list" where
  "encodeKey ke g ev =
     (let early = encodeEarlyKey ke g ev in if early = [] then encodeLegacyKey ke g ev else early)"

section \<open>Typed model commands\<close>

record model_tracker =
  mt_len :: int
  mt_mismatchAt :: int

definition tracker0 :: model_tracker where
  "tracker0 = \<lparr>mt_len = 0, mt_mismatchAt = -1\<rparr>"

datatype typed_key = TText | TBackspace | TTab | TEnter | TOther

definition kPrefix :: qstring where "kPrefix = asc ''/mo''"

definition typedChar :: "u16 \<Rightarrow> model_tracker \<Rightarrow> model_tracker" where
  "typedChar c t =
     (let t = (if mt_mismatchAt t < 0 \<and> mt_len t < vsize kPrefix \<and> c \<noteq> vget kPrefix (mt_len t)
               then t\<lparr>mt_mismatchAt := mt_len t\<rparr> else t)
      in t\<lparr>mt_len := mt_len t + 1\<rparr>)"

fun feedModelCommandKey :: "typed_key \<Rightarrow> qstring \<Rightarrow> model_tracker \<Rightarrow> bool \<times> model_tracker" where
  "feedModelCommandKey TText text t = (False, fold typedChar text t)"
| "feedModelCommandKey TBackspace text t =
     (let t = (if mt_len t > 0 then t\<lparr>mt_len := mt_len t - 1\<rparr> else t)
      in (False, if mt_mismatchAt t \<ge> mt_len t then t\<lparr>mt_mismatchAt := -1\<rparr> else t))"
| "feedModelCommandKey TTab text t = (False, t)"
| "feedModelCommandKey TEnter text t = (mt_mismatchAt t < 0 \<and> mt_len t \<ge> vsize kPrefix, tracker0)"
| "feedModelCommandKey TOther text t = (False, t\<lparr>mt_mismatchAt := 0\<rparr>)"

definition typedKind :: "key_env \<Rightarrow> key_event \<Rightarrow> typed_key" where
  "typedKind ke ev =
     (let plain = (\<not> (ev_shift ev \<or> ev_ctrl ev \<or> ev_alt ev \<or> ev_meta ev));
          printable = (ev_text ev \<noteq> [] \<and> list_all (ke_isPrint ke) (ev_text ev))
      in if (ev_key ev = KReturn \<or> ev_key ev = KEnter) \<and> plain then TEnter
         else if ev_key ev = KBackspace \<and> plain then TBackspace
         else if ev_key ev = KTab \<and> plain then TTab
         else if printable \<and> \<not> (ev_ctrl ev \<or> ev_alt ev) then TText
         else TOther)"

text \<open>The tracker and the time stamp of the last submitted command.\<close>

definition noteModelCommandKey :: "key_env \<Rightarrow> int \<Rightarrow> key_event \<Rightarrow> model_tracker \<times> int \<Rightarrow> model_tracker \<times> int" where
  "noteModelCommandKey ke now ev st =
     (let (hit, t) = feedModelCommandKey (typedKind ke ev) (ev_text ev) (fst st)
      in (t, if hit then now else snd st))"

section \<open>Encodings that cannot be mistaken\<close>

lemma ascii_simps [simp]:
  "ascii [] = []" "ascii (c # cs) = byte_of_char c # ascii cs" "ascii (s @ t) = ascii s @ ascii t"
  by (simp_all add: ascii_def)

lemma ascii_inj [simp]: "ascii s = ascii t \<longleftrightarrow> s = t"
  unfolding ascii_def by (rule inj_map_eq_map) (metis char_of_byte_of_char injI)

lemma csi_inj [simp]: "csi s = csi t \<longleftrightarrow> s = t"
  by (simp add: csi_def)

lemma modVal_range: "1 \<le> modVal ev \<and> modVal ev \<le> 16"
  by (simp add: modVal_def)

lemma modVal_inj:
  "modVal a = modVal b \<longleftrightarrow> ev_shift a = ev_shift b \<and> ev_alt a = ev_alt b \<and> ev_ctrl a = ev_ctrl b \<and> ev_meta a = ev_meta b"
  by (cases "ev_shift a"; cases "ev_alt a"; cases "ev_ctrl a"; cases "ev_meta a";
      cases "ev_shift b"; cases "ev_alt b"; cases "ev_ctrl b"; cases "ev_meta b")
    (simp_all add: modVal_def)

end
