(* ===== verification/TermMouse.thy ===== *)
theory TermMouse
  imports TermKeys
begin

text \<open>
  Mouse reports of \<open>src/src/terminalwidget.cpp\<close>: \<open>pixelToCell\<close>, \<open>sendMouseEvent\<close>,
  \<open>emitMouseReport\<close> and \<open>clickToMoveCursor\<close>.
\<close>

definition mouseReportingActive :: "grid \<Rightarrow> bool" where
  "mouseReportingActive g \<longleftrightarrow> m_mouseButtonMode g \<or> m_mouseMotionMode g \<or> m_mouseAnyMode g"

text \<open>C++ division rounds towards zero.\<close>

definition cdiv :: "int \<Rightarrow> int \<Rightarrow> int" where
  "cdiv a b = (if a < 0 then - ((- a) div b) else a div b)"

record cell_metrics =
  cm_padding :: int
  cm_width :: int
  cm_height :: int

text \<open>The global line and the column under a point; \<open>m_scrollOffset\<close> is how far the view is scrolled up.\<close>

definition pixelToCell :: "cell_metrics \<Rightarrow> grid \<Rightarrow> int \<Rightarrow> int \<Rightarrow> int \<Rightarrow> int \<times> int" where
  "pixelToCell cm g scrollOffset x y =
     (let col = clamp (cdiv (x - cm_padding cm) (cm_width cm)) 0 (m_cols g - 1);
          vr = clamp (cdiv (y - cm_padding cm) (cm_height cm)) 0 (m_rows g - 1)
      in (int (length (m_scrollback g)) - scrollOffset + vr, col))"

text \<open>The bytes of a report, none when it is not sent.\<close>

definition emitMouseReport ::
  "bool \<Rightarrow> grid \<Rightarrow> int \<Rightarrow> int \<Rightarrow> int \<Rightarrow> int \<Rightarrow> bool \<Rightarrow> bool \<Rightarrow> u8 list" where
  "emitMouseReport hasPty g button col row mods press release =
     (if \<not> hasPty \<or> row < 1 \<or> row > m_rows g then []
      else if m_mouseSgrMode g then
        (let btn = button + mods;
             btn = (if \<not> press \<and> \<not> release \<and> button < 32 then btn + 32 else btn)
         in csi (''<'' @ toString btn @ CHR '';'' # toString col @ CHR '';'' # toString row @
                 (if release then ''m'' else ''M'')))
      else if release then []
      else csi ''M'' @ [word_of_int (button + mods + 32), word_of_int (min col 223 + 32),
             word_of_int (min row 223 + 32)])"

datatype mouse_button = NoButton | LeftButton | MiddleButton | RightButton

record mouse_event =
  me_x :: int
  me_y :: int
  me_button :: mouse_button
  me_buttons :: "mouse_button set"
  me_shift :: bool
  me_alt :: bool
  me_ctrl :: bool

definition mouseButton :: "mouse_event \<Rightarrow> bool \<Rightarrow> bool \<Rightarrow> int" where
  "mouseButton ev press release =
     (if me_button ev = LeftButton \<or> LeftButton \<in> me_buttons ev then 0
      else if me_button ev = MiddleButton \<or> MiddleButton \<in> me_buttons ev then 1
      else if me_button ev = RightButton \<or> RightButton \<in> me_buttons ev then 2
      else if \<not> press \<and> \<not> release then 35 else 0)"

definition mouseMods :: "mouse_event \<Rightarrow> int" where
  "mouseMods ev = (if me_shift ev then 4 else 0) + (if me_alt ev then 8 else 0) + (if me_ctrl ev then 16 else 0)"

definition sendMouseEvent ::
  "cell_metrics \<Rightarrow> bool \<Rightarrow> grid \<Rightarrow> int \<Rightarrow> mouse_event \<Rightarrow> bool \<Rightarrow> bool \<Rightarrow> u8 list" where
  "sendMouseEvent cm hasPty g scrollOffset ev press release =
     (if \<not> hasPty then []
      else (let (line, c) = pixelToCell cm g scrollOffset (me_x ev) (me_y ev);
                col = c + 1;
                row = line - int (length (m_scrollback g)) + scrollOffset + 1
            in if row < 1 \<or> row > m_rows g then []
               else emitMouseReport hasPty g (mouseButton ev press release) col row (mouseMods ev) press release))"

text \<open>Arrow keys for a click on the prompt's own line, at most 200.\<close>

definition clickToMoveCursor :: "bool \<Rightarrow> grid \<Rightarrow> int \<Rightarrow> int \<Rightarrow> u8 list" where
  "clickToMoveCursor hasPty g col row =
     (let cursorLine = int (length (m_scrollback g)) + m_cursorRow g;
          inPrompt = list_ex (\<lambda>r. startLine r \<le> cursorLine \<and> cursorLine \<le> endLine r \<and> \<not> hasOutput r)
            (m_promptRegions (applyPromptRegionShift g));
          delta = col - m_cursorCol g;
          form = (if m_applicationCursorKeys g then ss3 else csi);
          arrow = (if delta > 0 then form ''C'' else form ''D'')
      in if \<not> hasPty \<or> \<not> inPrompt \<or> int (length (m_scrollback g)) + row \<noteq> cursorLine \<or> delta = 0 then []
         else concat (replicate (nat (min \<bar>delta\<bar> 200)) arrow))"

section \<open>Reports\<close>

lemma mouseMods_range: "0 \<le> mouseMods ev \<and> mouseMods ev \<le> 28"
  by (simp add: mouseMods_def)

lemma mouseButton_range: "mouseButton ev press release \<in> {0, 1, 2, 35}"
  by (simp add: mouseButton_def)

lemma pixel_row:
  "0 < m_rows g \<Longrightarrow> 0 < m_cols g \<Longrightarrow>
   (let (line, c) = pixelToCell cm g so x y
    in 0 \<le> c \<and> c < m_cols g \<and> 1 \<le> line - int (length (m_scrollback g)) + so + 1 \<and>
       line - int (length (m_scrollback g)) + so + 1 \<le> m_rows g)"
  by (simp add: pixelToCell_def Let_def clamp_def)

text \<open>In the byte form every coordinate fits its byte.\<close>

lemma x10_bytes:
  assumes "m_rows g \<ge> row" "row \<ge> 1" "\<not> m_mouseSgrMode g" "1 \<le> col" "button \<in> {0, 1, 2, 35, 64, 65, 66, 67}"
    "0 \<le> mods" "mods \<le> 28"
  shows "map uint (drop 3 (emitMouseReport True g button col row mods press False)) =
    [button + mods + 32, min col 223 + 32, min row 223 + 32]"
proof -
  have u: "uint (word_of_int n :: u8) = n" if "0 \<le> n" "n < 256" for n
    using that by (simp add: uint_word_of_int_eq take_bit_int_eq_self)
  have b: "uint (word_of_int (button + mods + 32) :: u8) = button + mods + 32"
    "uint (word_of_int (min col 223 + 32) :: u8) = min col 223 + 32"
    "uint (word_of_int (min row 223 + 32) :: u8) = min row 223 + 32"
    by (rule u; use assms in auto)+
  have "emitMouseReport True g button col row mods press False = csi ''M'' @
      [word_of_int (button + mods + 32), word_of_int (min col 223 + 32), word_of_int (min row 223 + 32)]"
    using assms(1-3) by (simp add: emitMouseReport_def)
  then show ?thesis
    by (simp only: b csi_def ascii_simps append_Cons append_Nil drop_Suc_Cons drop0 list.map numeral_3_eq_3)
qed

end
