(* ===== verification/TermProps.thy ===== *)
theory TermProps
  imports TermMouse VtParserRoundtrip GridProps
begin

text \<open>
  The properties of keyboard, mouse and paste input, with their witnesses.
\<close>

section \<open>Paste\<close>

text \<open>
  C10. Pasted text cannot leave the paste. With bracketed paste on, what reaches the child is
  the start marker, a body and the end marker; the body holds no start or end marker in any of
  the three encodings, and even the bytes at the seam form none, so the reader of the terminal
  sees the paste end exactly at the last marker. The body is the clipboard's bytes with some
  left out, and all of them when they hold no marker.
\<close>
theorem paste_cannot_escape:
  assumes "m_bracketedPaste g"
  shows "\<exists>body. pastePayload g bs = pasteStart @ body @ pasteEnd \<and> subseq body bs \<and>
      (\<forall>m \<in> set kMarkers. \<forall>x y. body @ pasteEnd = x @ m @ y \<longrightarrow> m = pasteEnd \<and> x = body \<and> y = []) \<and>
      ((\<forall>m \<in> set kMarkers. \<not> sublist m bs) \<longrightarrow> body = bs)"
proof (intro exI conjI)
  show "pastePayload g bs = pasteStart @ stripBracketedPasteMarkers bs @ pasteEnd"
    using assms by (simp add: pastePayload_def)
qed (auto intro: strip_subseq strip_plain dest: marker_at_end [OF _ strip_clean])

lemma bracketed_grid0: "m_bracketedPaste (grid0\<lparr>m_bracketedPaste := True\<rparr>)"
  by simp

theorem paste_cannot_escape_witness:
  "\<exists>body. pastePayload (grid0\<lparr>m_bracketedPaste := True\<rparr>) (ascii ''ls'' @ pasteEnd) =
        pasteStart @ body @ pasteEnd \<and> subseq body (ascii ''ls'' @ pasteEnd)"
  using paste_cannot_escape [OF bracketed_grid0, of "ascii ''ls'' @ pasteEnd"] by blast

lemma containsBytes_sublist: "containsBytes m s \<longleftrightarrow> sublist m s"
proof (induction s)
  case (Cons a s)
  have "take (length m) (a # s) = m \<longleftrightarrow> prefix m (a # s)"
    by (metis append_eq_conv_conj append_take_drop_id prefix_def)
  then show ?case using Cons by (simp add: sublist_Cons_right)
qed auto

text \<open>
  With the confirmation on, bytes reach the child without a question only when they hold
  no line break, no \<open>sudo\<close> and no control character but TAB; a risky paste sends nothing until
  it is accepted, nothing at all when it is refused, and when accepted exactly the bytes of
  an unasked paste followed by the Enter that was asked for.
\<close>
theorem risky_paste_waits:
  "case pasteToTerminal pipeRun True True g bs submitAfter of
     (calls, None) \<Rightarrow>
       calls = performPaste True g bs @ (if bs = [] then [] else submitCalls submitAfter) \<and>
       10 \<notin> set bs \<and> 13 \<notin> set bs \<and> \<not> sublist (ascii ''sudo '') bs \<and> \<not> list_ex controlByte bs \<and> \<not> pipeRun bs \<or> bs = [] \<and> calls = []
   | (calls, Some d) \<Rightarrow>
       calls = [] \<and> answerPaste False True g d = [] \<and>
       answerPaste True True g d = WritePaste (pastePayload g bs) # submitCalls submitAfter"
  by (auto simp: pasteToTerminal_def pasteRiskReasons_def Let_def answerPaste_def performPaste_def
      containsBytes_sublist split: if_splits)

text \<open>
  The preview of a confirmation does not hide line breaks: text with a CR or an LF shows at
  least two lines, at most twenty lines of text are shown, each of at most 120 characters, and
  a further line counts the rest.
\<close>
theorem preview_shows_lines:
  "(0x0A \<in> set s \<or> 0x0D \<in> set s \<longrightarrow> 2 \<le> length (previewLines s)) \<and>
   list_all (\<lambda>ln. length ln \<le> 120) (take 20 (previewLines s)) \<and> length (previewLines s) \<le> 21"
  using preview_newline [of s]
  by (auto simp: previewLines_def Let_def previewMaxLines_def list_all_iff shortenLine_length
      dest: in_set_takeD split: if_splits)

theorem preview_shows_lines_witness: "2 \<le> length (previewLines [0x61, 0x0D, 0x62])"
  using preview_shows_lines [of "[0x61, 0x0D, 0x62]"] by simp

section \<open>Quoted paths\<close>

text \<open>A POSIX shell's reading of a line: words separated by single spaces.\<close>

fun shellLine :: "bool \<Rightarrow> qstring \<Rightarrow> qstring list option" where
  "shellLine True [] = None"
| "shellLine True (u # us) =
     (if u = 0x27 then shellLine False us
      else map_option (\<lambda>ws. (u # hd ws) # tl ws) (shellLine True us))"
| "shellLine False [] = Some [[]]"
| "shellLine False (u # us) =
     (if u = 0x27 then shellLine True us
      else if u = 0x5C then
        (case us of [] \<Rightarrow> None
         | v # vs \<Rightarrow> map_option (\<lambda>ws. (v # hd ws) # tl ws) (shellLine False vs))
      else if u = 0x20 then map_option ((#) []) (shellLine False us)
      else if shellSafe u then map_option (\<lambda>ws. (u # hd ws) # tl ws) (shellLine False us)
      else None)"

definition putFront :: "qstring \<Rightarrow> qstring list \<Rightarrow> qstring list" where
  "putFront s ws = (s @ hd ws) # tl ws"

lemma putFront_simps: "putFront [] (w # ws) = w # ws"
  "putFront (u # s) ws = (u # hd (putFront s ws)) # tl (putFront s ws)"
  by (simp_all add: putFront_def)

lemma shellLine_nonempty: "shellLine q t = Some ws \<Longrightarrow> ws \<noteq> []"
  by (induction q t arbitrary: ws rule: shellLine.induct)
    (auto split: if_splits list.splits)

lemma putFront_none: "map_option (putFront []) (shellLine q t) = shellLine q t"
proof (cases "shellLine q t")
  case (Some ws)
  then show ?thesis by (cases ws) (use shellLine_nonempty [OF Some] in \<open>simp_all add: putFront_simps\<close>)
qed simp

lemma shellLine_safe:
  "list_all shellSafe s \<Longrightarrow> shellLine False (s @ t) = map_option (putFront s) (shellLine False t)"
proof (induction s)
  case Nil
  then show ?case by (simp add: putFront_none)
next
  case (Cons u s)
  have "u \<noteq> 0x20" using Cons.prems by (auto simp: shellSafe_def asc_def)
  then show ?case
    using Cons shellSafe_plain [of u] by (simp add: option.map_comp o_def putFront_simps)
qed

lemma shellLine_quoted:
  "shellLine True (concat (map (\<lambda>u. if u = 0x27 then [0x27, 0x5C, 0x27, 0x27] else [u]) s) @ 0x27 # t) =
   map_option (putFront s) (shellLine False t)"
proof (induction s)
  case Nil
  then show ?case by (simp add: putFront_none)
qed (simp_all add: option.map_comp o_def putFront_simps)

lemma shellLine_shellQuote:
  "shellLine False (shellQuote s @ t) = map_option (putFront s) (shellLine False t)"
  using shellLine_quoted [of s t] shellLine_safe [of s t]
  by (auto simp: shellQuote_def)

text \<open>
  C33. Quoting is exact: however the paths are spelled (spaces, quotes, globs, line breaks), the
  shell reads the quoted paths joined by spaces back as exactly those paths, one word each.
\<close>
theorem quoted_paths_read_back:
  assumes "paths \<noteq> []"
  shows "shellLine False (joinQ [0x20] (map shellQuote paths)) = Some paths"
  using assms
proof (induction paths)
  case (Cons p ps)
  then show ?case
    using shellLine_shellQuote [of p "[]"]
    by (cases ps) (simp_all add: putFront_def shellLine_shellQuote)
qed simp

theorem quoted_paths_read_back_witness:
  "shellLine False (joinQ [0x20] (map shellQuote [asc ''a b'', asc ''it's''])) = Some [asc ''a b'', asc ''it's'']"
  by (rule quoted_paths_read_back) simp

section \<open>Keys\<close>

text \<open>
  Shift+Enter inserts a line break and never submits: in every mode (Kitty flags included)
  no carriage return is sent. Plain Enter sends exactly a carriage return unless the child asked
  for all keys as escape codes.
\<close>
theorem shift_enter_never_submits:
  "(shiftEnter ev \<longrightarrow> 13 \<notin> set (encodeKey ke g ev) \<and> 10 \<in> set (encodeKey ke g ev)) \<and>
   (ev_key ev \<in> {KReturn, KEnter} \<and> \<not> shiftEnter ev \<and> m_kittyKeyFlags g AND 8 = 0 \<longrightarrow> encodeKey ke g ev = [13])"
  by (auto simp: encodeKey_def encodeEarlyKey_def shiftEnter_def pasteStart_def pasteEnd_def esc_def
      byte_of_char_def encodeLegacyKey_def encodeKittyKey_def kittyText_def ctrlBytes_def Let_def)

definition returnKey :: key_event where
  "returnKey = \<lparr>ev_key = KReturn, ev_shift = True, ev_alt = False, ev_ctrl = False, ev_meta = False, ev_text = [13]\<rparr>"

theorem shift_enter_never_submits_witness: "13 \<notin> set (encodeKey ke grid0 returnKey)"
  using shift_enter_never_submits [of returnKey ke grid0] by (simp add: returnKey_def shiftEnter_def)

text \<open>Numbers written by \<open>toString\<close> are the digits the parser reads.\<close>

lemma ascii_natDigits: "ascii (natDigits n) = dec_bytes n"
proof (induction n rule: natDigits.induct)
  case (1 n)
  have d: "byte_of_char (char_of (48 + n mod 10)) = word_of_nat (48 + n mod 10)"
    by (simp add: byte_of_char_def)
  show ?case
    by (subst natDigits.simps, subst dec_bytes.simps) (use 1 d in \<open>auto simp: add.commute\<close>)
qed

definition kittyParams :: "kitty_form \<Rightarrow> int \<Rightarrow> nat list" where
  "kittyParams form modv =
     (case form of
        LegacyFinal c \<Rightarrow> if modv \<le> 1 then [] else [1, nat modv]
      | LegacyNumber n \<Rightarrow> if modv \<le> 1 then [nat n] else [nat n, nat modv]
      | KeyCode c \<Rightarrow> if modv > 1 then [nat c, nat modv] else [nat c])"

definition kittyFinal :: "kitty_form \<Rightarrow> char" where
  "kittyFinal form = (case form of LegacyFinal c \<Rightarrow> c | LegacyNumber _ \<Rightarrow> CHR ''~'' | KeyCode _ \<Rightarrow> CHR ''u'')"

definition kittyEvent :: "key_env \<Rightarrow> key_event \<Rightarrow> kitty_form" where
  "kittyEvent ke ev =
     (if kittyForm (ev_key ev) = KeyCode 0 then KeyCode (case textUnit ke ev of None \<Rightarrow> 0 | Some c \<Rightarrow> c)
      else kittyForm (ev_key ev))"

lemma kittyForm_cases:
  "(\<exists>c. kittyForm k = LegacyFinal c \<and> c \<in> set ''ABCDHFPQS'') \<or>
   (\<exists>n. kittyForm k = LegacyNumber n \<and> 0 < n \<and> n \<le> 24) \<or> (\<exists>n. kittyForm k = KeyCode n \<and> 0 \<le> n \<and> n \<le> 127)"
  by (cases k) simp_all

lemma byte_of_char_literals [simp]:
  "byte_of_char CHR ''['' = 0x5B" "byte_of_char CHR '';'' = 0x3B" "byte_of_char CHR ''1'' = 0x31"
  by (simp_all add: byte_of_char_def)

lemma dec_bytes_1: "dec_bytes (Suc 0) = [0x31]"
  by (simp add: dec_bytes.simps)

lemma ascii_toString: "0 \<le> n \<Longrightarrow> ascii (toString n) = dec_bytes (nat n)"
  by (simp add: toString_def ascii_natDigits)

lemma kitty_text:
  assumes "encodeKittyKey ke g ev \<noteq> []"
  shows "encodeKittyKey ke g ev =
    csi_text (kittyParams (kittyEvent ke ev) (modVal ev)) (byte_of_char (kittyFinal (kittyEvent ke ev)))"
proof -
  have m: "0 \<le> modVal ev" "nat (modVal ev) = nat (modVal ev)" using modVal_range [of ev] by simp_all
  have f: "m_kittyKeyFlags g \<noteq> 0" using assms by (auto simp: encodeKittyKey_def)
  have t: "0 \<le> c" if "textUnit ke ev = Some c" for c
    using that by (auto simp: textUnit_def split: list.splits)
  consider c where "kittyForm (ev_key ev) = LegacyFinal c"
    | n where "kittyForm (ev_key ev) = LegacyNumber n" "0 < n"
    | n where "kittyForm (ev_key ev) = KeyCode n" "0 \<le> n"
    using kittyForm_cases [of "ev_key ev"] by blast
  then show ?thesis
  proof cases
    case 1
    then show ?thesis
      using f m by (simp add: encodeKittyKey_def Let_def kittyEvent_def kittyParams_def kittyFinal_def
          csi_def csi_text_def esc_def ascii_toString dec_bytes_1)
  next
    case 2
    then show ?thesis
      using f m by (simp add: encodeKittyKey_def Let_def kittyEvent_def kittyParams_def kittyFinal_def
          csi_def csi_text_def esc_def ascii_toString)
  next
    case 3
    have u: "kittyU c (modVal ev) = csi_text (kittyParams (KeyCode c) (modVal ev)) (byte_of_char CHR ''u'')"
      if "0 \<le> c" for c
      using that m by (simp add: kittyU_def kittyParams_def csi_def csi_text_def esc_def ascii_toString)
    have "encodeKittyKey ke g ev = kittyText ke (m_kittyKeyFlags g) n ev"
      using f 3 by (simp add: encodeKittyKey_def Let_def)
    then show ?thesis
      using 3 assms u [of n] t u
      by (auto simp: kittyText_def Let_def kittyEvent_def kittyFinal_def
          split: option.splits if_splits)
  qed
qed

lemma kittyParams_ok:
  assumes "\<forall>c. textUnit ke ev = Some c \<longrightarrow> c \<le> kMaxParamValue"
  shows "length (kittyParams (kittyEvent ke ev) (modVal ev)) \<le> kMaxParams"
    "list_all (\<lambda>n. int n \<le> kMaxParamValue) (kittyParams (kittyEvent ke ev) (modVal ev))"
  using kittyForm_cases [of "ev_key ev"] modVal_range [of ev] assms
  by (auto simp: kittyParams_def kittyEvent_def kMaxParams_def kMaxParamValue_def split: option.splits)

lemma kittyFinal_range: "64 \<le> unat (byte_of_char (kittyFinal (kittyEvent ke ev)))"
  "unat (byte_of_char (kittyFinal (kittyEvent ke ev))) < 127"
  using kittyForm_cases [of "ev_key ev"]
  by (auto simp: kittyFinal_def kittyEvent_def byte_of_char_def)

lemma kitty_feed:
  assumes "encodeKittyKey ke g ev \<noteq> []"
    and "\<forall>c. textUnit ke ev = Some c \<longrightarrow> c \<le> kMaxParamValue"
  shows "fst (feedAll (encodeKittyKey ke g ev) vt_init) =
      [CsiDispatch (kittyFinal (kittyEvent ke ev)) (map int (kittyParams (kittyEvent ke ev) (modVal ev)))
         (map (\<lambda>_. False) (kittyParams (kittyEvent ke ev) (modVal ev))) '''' False]"
proof -
  have "\<not> isStringState (m_state vt_init)" "m_utf8Remaining vt_init = 0"
    by (simp_all add: vt_init_def isStringState_def)
  then show ?thesis
    using csi_feed kittyParams_ok [OF assms(2)] kittyFinal_range unfolding kitty_text [OF assms(1)]
    by (metis char_of_byte_of_char)
qed

lemma kittyParams_inj:
  assumes "kittyFinal (kittyEvent ke a) = kittyFinal (kittyEvent ke b)"
    and "kittyParams (kittyEvent ke a) (modVal a) = kittyParams (kittyEvent ke b) (modVal b)"
  shows "kittyEvent ke a = kittyEvent ke b \<and> modVal a = modVal b"
proof -
  have form: "(\<exists>c. kittyEvent ke e = LegacyFinal c \<and> c \<in> set ''ABCDHFPQS'') \<or>
      (\<exists>n. kittyEvent ke e = LegacyNumber n \<and> 0 < n) \<or> (\<exists>n. kittyEvent ke e = KeyCode n \<and> 0 \<le> n)" for e
    using kittyForm_cases [of "ev_key e"]
    by (auto simp: kittyEvent_def textUnit_def split: option.splits list.splits)
  then show ?thesis
    using form [of a] form [of b] modVal_range [of a] modVal_range [of b] assms
    by (elim disjE exE conjE) (auto simp: kittyFinal_def kittyParams_def split: if_splits)
qed

text \<open>The keys with an encoding of their own; every other key is known by its text.\<close>

definition namedKey :: "qt_key \<Rightarrow> bool" where
  "namedKey k \<longleftrightarrow> (case k of KLetter n \<Rightarrow> False | KBracketLeft \<Rightarrow> False | KBackslash \<Rightarrow> False
     | KBracketRight \<Rightarrow> False | KOther \<Rightarrow> False | _ \<Rightarrow> True)"

definition sameNamed :: "qt_key \<Rightarrow> qt_key \<Rightarrow> bool" where
  "sameNamed k k' \<longleftrightarrow> k = k' \<or> {k, k'} = {KReturn, KEnter} \<or> {k, k'} = {KTab, KBacktab}"

lemma namedKey_form: "namedKey k \<longleftrightarrow> kittyForm k \<noteq> KeyCode 0"
  by (cases k) (simp_all add: namedKey_def)

lemma kittyForm_inj: "namedKey k \<Longrightarrow> kittyForm k' = kittyForm k \<Longrightarrow> sameNamed k' k"
  by (cases k; cases k') (simp_all add: namedKey_def sameNamed_def insert_commute)

lemma kittyText_unit: "encodeKittyKey ke g ev \<noteq> [] \<Longrightarrow> \<not> namedKey (ev_key ev) \<Longrightarrow> \<exists>c. textUnit ke ev = Some c"
  by (auto simp: encodeKittyKey_def kittyText_def namedKey_form Let_def split: option.splits if_splits)

lemma kittyEvent_named: "kittyEvent ke ev = (if namedKey (ev_key ev) then kittyForm (ev_key ev)
     else KeyCode (case textUnit ke ev of None \<Rightarrow> 0 | Some c \<Rightarrow> c))"
  by (simp add: kittyEvent_def namedKey_form)

text \<open>
  C34. A key in the Kitty encoding reads back: the terminal's own parser, fed the bytes, dispatches
  one control sequence with the key's final, its number and its modifiers. Two key events with
  the same bytes have the same modifiers and, if both are keys with an encoding of their own, are
  the same key (the two Enter keys count as one, and so do Tab and Backtab); if both are known
  by their text, have the same first unit in lower case; otherwise the text is the key's own
  control code, as for Ctrl+M and Enter. (First units above \<open>kMaxParamValue\<close>, the parser's cap on
  parameters, are left out.)
\<close>
theorem kitty_read_back:
  assumes "encodeKittyKey ke g a \<noteq> []"
    and "\<forall>c. textUnit ke a = Some c \<longrightarrow> c \<le> kMaxParamValue"
    and "\<forall>c. textUnit ke b = Some c \<longrightarrow> c \<le> kMaxParamValue"
  shows "fst (feedAll (encodeKittyKey ke g a) vt_init) =
      [CsiDispatch (kittyFinal (kittyEvent ke a)) (map int (kittyParams (kittyEvent ke a) (modVal a)))
         (map (\<lambda>_. False) (kittyParams (kittyEvent ke a) (modVal a))) '''' False] \<and>
    (encodeKittyKey ke g b = encodeKittyKey ke g a \<longrightarrow>
      ev_shift a = ev_shift b \<and> ev_alt a = ev_alt b \<and> ev_ctrl a = ev_ctrl b \<and> ev_meta a = ev_meta b \<and>
      kittyEvent ke a = kittyEvent ke b \<and>
      (if namedKey (ev_key a) \<and> namedKey (ev_key b) then sameNamed (ev_key a) (ev_key b)
       else if namedKey (ev_key a) then \<exists>c. kittyForm (ev_key a) = KeyCode c \<and> textUnit ke b = Some c
       else if namedKey (ev_key b) then \<exists>c. kittyForm (ev_key b) = KeyCode c \<and> textUnit ke a = Some c
       else textUnit ke a = textUnit ke b))"
proof (intro conjI impI)
  show "fst (feedAll (encodeKittyKey ke g a) vt_init) =
      [CsiDispatch (kittyFinal (kittyEvent ke a)) (map int (kittyParams (kittyEvent ke a) (modVal a)))
         (map (\<lambda>_. False) (kittyParams (kittyEvent ke a) (modVal a))) '''' False]"
    by (rule kitty_feed [OF assms(1,2)])
next
  assume e: "encodeKittyKey ke g b = encodeKittyKey ke g a"
  have "kittyFinal (kittyEvent ke a) = kittyFinal (kittyEvent ke b)"
    "kittyParams (kittyEvent ke a) (modVal a) = kittyParams (kittyEvent ke b) (modVal b)"
    using kitty_feed [OF assms(1,2)] kitty_feed [of ke g b] assms(1,3) e
    by (simp_all add: inj_map_eq_map inj_on_def)
  then have k: "kittyEvent ke a = kittyEvent ke b \<and> modVal a = modVal b" by (rule kittyParams_inj)
  then show "ev_shift a = ev_shift b" "ev_alt a = ev_alt b"
    "ev_ctrl a = ev_ctrl b" "ev_meta a = ev_meta b" "kittyEvent ke a = kittyEvent ke b"
    by (simp_all add: modVal_inj)
  have t: "\<exists>c. textUnit ke a = Some c" if "\<not> namedKey (ev_key a)" using kittyText_unit [OF assms(1) that] .
  have u: "\<exists>c. textUnit ke b = Some c" if "\<not> namedKey (ev_key b)"
    using kittyText_unit [OF _ that] assms(1) e by metis
  show "if namedKey (ev_key a) \<and> namedKey (ev_key b) then sameNamed (ev_key a) (ev_key b)
       else if namedKey (ev_key a) then \<exists>c. kittyForm (ev_key a) = KeyCode c \<and> textUnit ke b = Some c
       else if namedKey (ev_key b) then \<exists>c. kittyForm (ev_key b) = KeyCode c \<and> textUnit ke a = Some c
       else textUnit ke a = textUnit ke b"
    using k t u kittyForm_inj [of "ev_key b" "ev_key a"] by (auto simp: kittyEvent_named)
qed

definition keyEnv0 :: key_env where
  "keyEnv0 = \<lparr>ke_utf8 = map ucast, ke_lower = (\<lambda>u. if 0x41 \<le> u \<and> u \<le> 0x5A then u + 32 else u),
     ke_isPrint = (\<lambda>u. 0x20 \<le> u)\<rparr>"

definition keyAlt :: "u16 \<Rightarrow> key_event" where
  "keyAlt u = \<lparr>ev_key = KLetter 0, ev_shift = False, ev_alt = True, ev_ctrl = False, ev_meta = False, ev_text = [u]\<rparr>"

theorem kitty_read_back_witness:
  "fst (feedAll (encodeKittyKey keyEnv0 (grid0\<lparr>m_kittyKeyFlags := 1\<rparr>) (keyAlt 0x61)) vt_init) =
      [CsiDispatch CHR ''u'' [97, 3] [False, False] '''' False]"
proof -
  have t: "textUnit keyEnv0 (keyAlt u) = Some (uint (ke_lower keyEnv0 u))" for u
    by (simp add: textUnit_def keyAlt_def)
  have u: "ke_lower keyEnv0 0x61 = 0x61" by (simp add: keyEnv0_def)
  have m: "modVal (keyAlt 0x61) = 3" by (simp add: modVal_def keyAlt_def)
  have "encodeKittyKey keyEnv0 (grid0\<lparr>m_kittyKeyFlags := 1\<rparr>) (keyAlt 0x61) \<noteq> []"
    using t [of "0x61"] m by (simp add: encodeKittyKey_def kittyText_def Let_def u kittyU_def csi_def keyAlt_def)
  then show ?thesis
    using kitty_read_back [of keyEnv0 "grid0\<lparr>m_kittyKeyFlags := 1\<rparr>" "keyAlt 0x61" "keyAlt 0x61"] t [of "0x61"] m
    by (simp add: u kMaxParamValue_def kittyEvent_def kittyFinal_def kittyParams_def) (simp add: keyAlt_def kittyFinal_def kittyParams_def)
qed

text \<open>
  In disambiguate mode (flag 1) the wrong keys are escaped: Shift with a printable key and
  nothing else is sent as a \<open>CSI u\<close> sequence although its text is unambiguous, while Ctrl with a
  letter, whose text is a control character, is sent as the bare control byte.
\<close>
theorem disambiguate_escapes_shift_not_ctrl:
  assumes "m_kittyKeyFlags g AND 1 \<noteq> 0" "m_kittyKeyFlags g AND 8 = 0" "m_kittyKeyFlags g > 0"
    "ev_key ev = KLetter n" "ev_text ev = [u]" "\<not> ev_alt ev" "\<not> ev_meta ev"
  shows "(ev_shift ev \<and> \<not> ev_ctrl ev \<and> 0x20 \<le> uint (ke_lower ke u) \<longrightarrow>
      encodeKey ke g ev = csi (toString (uint (ke_lower ke u)) @ '';2u'')) \<and>
    (ev_ctrl ev \<and> \<not> ev_shift ev \<and> uint (ke_lower ke u) < 0x20 \<longrightarrow> encodeKey ke g ev = [word_of_nat (n + 1)])"
  using assms
  by (auto simp: encodeKey_def encodeEarlyKey_def shiftEnter_def encodeKittyKey_def kittyText_def Let_def
      textUnit_def modVal_def kittyU_def csi_def ctrlBytes_def toString_def natDigits.simps byte_of_char_def)

lemma keyEnv0_lower: "uint (ke_lower keyEnv0 1) = 1" "uint (ke_lower keyEnv0 0x41) = 97"
    "toString 97 = ''97''"
  by code_simp+

theorem disambiguate_escapes_shift_not_ctrl_witness:
  "encodeKey keyEnv0 (grid0\<lparr>m_kittyKeyFlags := 1\<rparr>) ((keyAlt 1)\<lparr>ev_alt := False, ev_ctrl := True\<rparr>) = [1] \<and>
   encodeKey keyEnv0 (grid0\<lparr>m_kittyKeyFlags := 1\<rparr>) ((keyAlt 0x41)\<lparr>ev_alt := False, ev_shift := True\<rparr>) = csi ''97;2u''"
  using disambiguate_escapes_shift_not_ctrl
      [where g = "grid0\<lparr>m_kittyKeyFlags := 1\<rparr>" and ev = "(keyAlt 1)\<lparr>ev_alt := False, ev_ctrl := True\<rparr>"
         and n = 0 and u = 1 and ke = keyEnv0]
    disambiguate_escapes_shift_not_ctrl
      [where g = "grid0\<lparr>m_kittyKeyFlags := 1\<rparr>" and ev = "(keyAlt 0x41)\<lparr>ev_alt := False, ev_shift := True\<rparr>"
         and n = 0 and u = "0x41" and ke = keyEnv0]
  by (simp add: keyAlt_def keyEnv0_lower)

section \<open>Typed model commands\<close>

text \<open>What the tracker abstracts: the characters of the line.\<close>

fun typeLine :: "typed_key \<Rightarrow> qstring \<Rightarrow> qstring \<Rightarrow> bool \<times> qstring" where
  "typeLine TText text l = (False, l @ text)"
| "typeLine TBackspace text l = (False, butlast l)"
| "typeLine TTab text l = (False, l)"
| "typeLine TEnter text l = (take 3 l = kPrefix, [])"
| "typeLine TOther text l = (False, l)"

fun typeKeys :: "('s \<Rightarrow> bool \<times> 's) list \<Rightarrow> 's \<Rightarrow> bool list \<times> 's" where
  "typeKeys [] s = ([], s)"
| "typeKeys (f # fs) s = (let (hit, s) = f s; (hits, s) = typeKeys fs s in (hit # hits, s))"

fun mismatch :: "int \<Rightarrow> 'a list \<Rightarrow> 'a list \<Rightarrow> int" where
  "mismatch n [] ps = -1"
| "mismatch n (c # cs) [] = -1"
| "mismatch n (c # cs) (p # ps) = (if c \<noteq> p then n else mismatch (n + 1) cs ps)"

lemma mismatch_range:
  "0 \<le> n \<Longrightarrow> mismatch n l p = -1 \<or> n \<le> mismatch n l p \<and> mismatch n l p < n + int (length l)"
  by (induction n l p rule: mismatch.induct) auto

lemma mismatch_snoc:
  "0 \<le> n \<Longrightarrow> mismatch n (l @ [c]) p =
     (if mismatch n l p < 0 \<and> length l < length p \<and> c \<noteq> p ! length l then n + int (length l) else mismatch n l p)"
proof (induction n l p rule: mismatch.induct)
  case (1 n ps)
  then show ?case by (cases ps) auto
qed auto

lemma mismatch_none:
  "0 \<le> n \<Longrightarrow> mismatch n l p < 0 \<and> length p \<le> length l \<longleftrightarrow> take (length p) l = p"
  by (induction n l p rule: mismatch.induct) auto

lemma kPrefix_units: "kPrefix = [0x2F, 0x6D, 0x6F]"
  by code_simp

definition track_line :: "qstring \<Rightarrow> model_tracker \<Rightarrow> bool" where
  "track_line l t \<longleftrightarrow> t = \<lparr>mt_len = int (length l), mt_mismatchAt = mismatch 0 l kPrefix\<rparr>"

lemma track_char: "track_line l t \<Longrightarrow> track_line (l @ [c]) (typedChar c t)"
  by (simp add: track_line_def typedChar_def mismatch_snoc vget_def vsize_def Let_def)

lemma track_text: "track_line l t \<Longrightarrow> track_line (l @ w) (fold typedChar w t)"
proof (induction w arbitrary: l t)
  case (Cons c w)
  then show ?case using Cons.IH [OF track_char [OF Cons.prems, of c]] by simp
qed simp

lemma track_back:
  assumes "track_line l t"
  shows "track_line (butlast l) (snd (feedModelCommandKey TBackspace w t))"
proof (cases l rule: rev_cases)
  case Nil
  then show ?thesis using assms by (simp add: track_line_def Let_def)
next
  case (snoc l' c)
  then show ?thesis
    using assms mismatch_range [of 0 l' kPrefix] by (auto simp: track_line_def mismatch_snoc Let_def)
qed

lemma track_step:
  assumes "track_line l t" "k \<noteq> TOther"
  shows "fst (feedModelCommandKey k w t) = fst (typeLine k w l) \<and>
    track_line (snd (typeLine k w l)) (snd (feedModelCommandKey k w t))"
proof (cases k)
  case TBackspace
  then show ?thesis using track_back [OF assms(1), of w] by (simp add: Let_def)
next
  case TEnter
  have "length kPrefix = 3" by (simp add: kPrefix_units)
  then show ?thesis
    using TEnter assms(1) mismatch_none [of 0 l kPrefix]
    by (auto simp: track_line_def tracker0_def vsize_def)
qed (use assms track_text in auto)

lemma typeKeys_append:
  "typeKeys (fs @ gs) s = (fst (typeKeys fs s) @ fst (typeKeys gs (snd (typeKeys fs s))), snd (typeKeys gs (snd (typeKeys fs s))))"
  by (induction fs arbitrary: s) (simp_all add: Let_def split_def)

lemma typeKeys_length: "length (fst (typeKeys fs s)) = length fs"
  by (induction fs arbitrary: s) (simp_all add: Let_def split_def)

text \<open>Enter starts a fresh line, and a line once unknown stays so without a Backspace.\<close>

lemma track_fresh:
  assumes "pre = [] \<or> fst (last pre) = TEnter"
  shows "snd (typeKeys (map (\<lambda>(k, w). feedModelCommandKey k w) pre) tracker0) = tracker0"
proof (cases pre rule: rev_cases)
  case (snoc xs x)
  then have "fst x = TEnter" using assms by simp
  then show ?thesis using snoc by (cases x) (simp add: typeKeys_append)
qed simp

lemma char_unknown: "mt_mismatchAt t = 0 \<Longrightarrow> mt_mismatchAt (fold typedChar w t) = 0"
  by (induction w arbitrary: t) (simp_all add: typedChar_def Let_def)

lemma track_unknown:
  assumes "mt_mismatchAt t = 0" "\<forall>(k, w) \<in> set ys. k \<noteq> TBackspace \<and> k \<noteq> TEnter"
  shows "mt_mismatchAt (snd (typeKeys (map (\<lambda>(k, w). feedModelCommandKey k w) ys) t)) = 0"
  using assms
proof (induction ys arbitrary: t)
  case (Cons y ys)
  obtain k w where y: "y = (k, w)" by (cases y)
  have "mt_mismatchAt (snd (feedModelCommandKey k w t)) = 0"
    using Cons.prems y char_unknown [of t w] by (cases k) auto
  from Cons.IH [OF this] show ?case using Cons.prems(2) y by (simp add: Let_def split_def)
qed simp

text \<open>
  C35. The tracker of typed \<open>/model\<close> commands, which keeps two numbers and no text, answers as if it
  kept the line. Whatever was typed up to some Enter, for keys after it that are text, Backspace,
  Tab and Enter each Enter is reported exactly when the line typed since the last one, with the
  erased characters gone, starts with \<open>/mo\<close>. And a line with another key in it (a cursor move, a
  control key) that has no Backspace after that key is not reported.
\<close>
theorem tracker_follows_line:
  assumes "pre = [] \<or> fst (last pre) = TEnter" "\<forall>(k, w) \<in> set keys. k \<noteq> TOther"
    and "\<forall>(k, w) \<in> set ys. k \<noteq> TBackspace \<and> k \<noteq> TEnter"
  shows "drop (length pre) (fst (typeKeys (map (\<lambda>(k, w). feedModelCommandKey k w) (pre @ keys)) tracker0)) =
      fst (typeKeys (map (\<lambda>(k, w). typeLine k w) keys) []) \<and>
    \<not> last (fst (typeKeys (map (\<lambda>(k, w). feedModelCommandKey k w) (xs @ (TOther, u) # ys @ [(TEnter, u')])) tracker0))"
proof
  have "fst (typeKeys (map (\<lambda>(k, w). feedModelCommandKey k w) keys) t) =
      fst (typeKeys (map (\<lambda>(k, w). typeLine k w) keys) l)" if "track_line l t" for t l
    using assms(2) that
  proof (induction keys arbitrary: t l)
    case (Cons key keys)
    obtain k w where k: "key = (k, w)" by (cases key)
    have "fst (feedModelCommandKey k w t) = fst (typeLine k w l)"
      "track_line (snd (typeLine k w l)) (snd (feedModelCommandKey k w t))"
      using track_step [OF Cons.prems(2), of k w] Cons.prems(1) k by auto
    then show ?case
      using Cons.IH [of "snd (typeLine k w l)" "snd (feedModelCommandKey k w t)"] Cons.prems(1) k
      by (simp add: Let_def split_def)
  qed simp
  moreover have "track_line [] tracker0" by (simp add: track_line_def tracker0_def)
  ultimately show "drop (length pre) (fst (typeKeys (map (\<lambda>(k, w). feedModelCommandKey k w) (pre @ keys)) tracker0)) =
      fst (typeKeys (map (\<lambda>(k, w). typeLine k w) keys) [])"
    using track_fresh [OF assms(1)] by (simp add: typeKeys_append typeKeys_length)
  let ?s = "snd (typeKeys (map (\<lambda>(k, w). feedModelCommandKey k w) xs) tracker0)"
  have "mt_mismatchAt (snd (typeKeys (map (\<lambda>(k, w). feedModelCommandKey k w) ys) (?s\<lparr>mt_mismatchAt := 0\<rparr>))) = 0"
    by (rule track_unknown [OF _ assms(3)]) simp
  then show "\<not> last (fst (typeKeys (map (\<lambda>(k, w). feedModelCommandKey k w) (xs @ (TOther, u) # ys @ [(TEnter, u')])) tracker0))"
    by (simp add: typeKeys_append Let_def split_def)
qed

theorem tracker_follows_line_witness:
  "let pre = [(TOther, []), (TEnter, [])];
       keys = [(TText, asc ''/mx''), (TBackspace, []), (TText, asc ''o''), (TEnter, [])]
   in drop (length pre) (fst (typeKeys (map (\<lambda>(k, w). feedModelCommandKey k w) (pre @ keys)) tracker0)) =
        [False, False, False, True]"
proof -
  let ?pre = "[(TOther, []), (TEnter, [])] :: (typed_key \<times> qstring) list"
  let ?keys = "[(TText, asc ''/mx''), (TBackspace, []), (TText, asc ''o''), (TEnter, [])]"
  have "?pre = [] \<or> fst (last ?pre) = TEnter" "\<forall>(k, w) \<in> set ?keys. k \<noteq> TOther"
    "\<forall>(k, w) \<in> set ([] :: (typed_key \<times> qstring) list). k \<noteq> TBackspace \<and> k \<noteq> TEnter" by simp_all
  note r = conjunct1 [OF tracker_follows_line [OF this]]
  have "fst (typeKeys (map (\<lambda>(k, w). typeLine k w) ?keys) []) = [False, False, False, True]"
    by (simp add: kPrefix_units)
  then show ?thesis unfolding Let_def r .
qed

text \<open>
  A line made unknown by a cursor move or a history key counts again after one Backspace: the
  keys Up, Backspace, \<open>/mo\<close>, Enter are reported as a typed model command, whatever the line held.
\<close>
theorem unknown_line_counts:
  "fst (typeKeys [feedModelCommandKey TOther [], feedModelCommandKey TBackspace [],
      feedModelCommandKey TText kPrefix, feedModelCommandKey TEnter []] tracker0) =
   [False, False, False, True]"
  by code_simp

section \<open>Mouse\<close>

text \<open>
  Wherever the pointer is, a mouse report names a cell of the screen: column and row lie
  between one and the grid's size however far the view is scrolled, and in the byte form the
  three bytes are at least 32 and the coordinates are clamped so that none wraps.
\<close>
theorem mouse_report_in_range:
  assumes "0 < m_rows g" "0 < m_cols g"
  shows "\<exists>col row. 1 \<le> col \<and> col \<le> m_cols g \<and> 1 \<le> row \<and> row \<le> m_rows g \<and>
    sendMouseEvent cm True g so ev press release =
      emitMouseReport True g (mouseButton ev press release) col row (mouseMods ev) press release \<and>
    (\<not> m_mouseSgrMode g \<and> \<not> release \<longrightarrow>
      map uint (drop 3 (sendMouseEvent cm True g so ev press release)) =
        [mouseButton ev press release + mouseMods ev + 32, min col 223 + 32, min row 223 + 32])"
proof -
  obtain line c where p: "pixelToCell cm g so (me_x ev) (me_y ev) = (line, c)" by fastforce
  let ?row = "line - int (length (m_scrollback g)) + so + 1"
  have r: "0 \<le> c" "c < m_cols g" "1 \<le> ?row" "?row \<le> m_rows g"
    using pixel_row [OF assms, where cm = cm and so = so and x = "me_x ev" and y = "me_y ev"] p by simp_all
  have e: "sendMouseEvent cm True g so ev press release =
      emitMouseReport True g (mouseButton ev press release) (c + 1) ?row (mouseMods ev) press release"
    using r p by (simp add: sendMouseEvent_def Let_def)
  have "mouseButton ev press release \<in> {0, 1, 2, 35, 64, 65, 66, 67}"
    using mouseButton_range [of ev press release] by auto
  then have "\<not> m_mouseSgrMode g \<and> \<not> release \<longrightarrow>
      map uint (drop 3 (sendMouseEvent cm True g so ev press release)) =
        [mouseButton ev press release + mouseMods ev + 32, min (c + 1) 223 + 32, min ?row 223 + 32]"
    using e r x10_bytes [where g = g and row = ?row and col = "c + 1"] mouseMods_range [of ev] by auto
  then show ?thesis using r e by (intro exI [of _ "c + 1"] exI [of _ ?row]) auto
qed

definition mouse0 :: mouse_event where
  "mouse0 = \<lparr>me_x = 900, me_y = -3, me_button = LeftButton, me_buttons = {}, me_shift = False, me_alt = False, me_ctrl = False\<rparr>"

theorem mouse_report_in_range_witness:
  "\<exists>col row. 1 \<le> col \<and> col \<le> m_cols grid0 \<and> 1 \<le> row \<and> row \<le> m_rows grid0 \<and>
    sendMouseEvent \<lparr>cm_padding = 4, cm_width = 8, cm_height = 16\<rparr> True grid0 0 mouse0 True False =
      emitMouseReport True grid0 (mouseButton mouse0 True False) col row (mouseMods mouse0) True False"
  using mouse_report_in_range
      [where g = grid0 and cm = "\<lparr>cm_padding = 4, cm_width = 8, cm_height = 16\<rparr>" and so = 0 and ev = mouse0
        and press = True and release = False] grid0_fields
  by auto

text \<open>
  In the byte form a drag cannot be told from a press, and a release is never reported.
\<close>
theorem byte_drag_is_press:
  assumes "\<not> m_mouseSgrMode g"
  shows "emitMouseReport hasPty g button col row mods False False = emitMouseReport hasPty g button col row mods True False \<and>
    emitMouseReport hasPty g button col row mods press True = []"
  using assms by (simp add: emitMouseReport_def)

theorem byte_drag_is_press_witness:
  "emitMouseReport True grid0 0 1 1 0 False True = []"
proof -
  have "\<not> m_mouseSgrMode grid0" by code_simp
  then show ?thesis by (rule byte_drag_is_press [THEN conjunct2])
qed

end
