(* ===== verification/TermView.thy ===== *)
theory TermView
  imports GridGrow TermMouse VtStreamRun
begin

text \<open>
  The view of \<open>TerminalWidget\<close> on its grid (\<open>src/src/terminalwidget.cpp\<close>): the scroll offset,
  the frozen copy of the screen shown while the reader is scrolled up or the child updates
  synchronously, the batch handler, and every gesture that scrolls.
\<close>

section \<open>State\<close>

text \<open>What the view tells the rest of the window.\<close>

datatype view_signal = TitleChanged qstring | CommandFailed int

record term_view =
  m_grid :: grid
  m_scrollOffset :: int
  m_frozenScreenRows :: "cell list list"
  m_frozenScreenCombining :: "combining_map list"
  m_frozenCursorRow :: int
  m_frozenCursorCol :: int
  m_syncOutputActive :: bool
  m_syncTimer :: bool
  m_newOutputMarkerLine :: int
  m_lastTitle :: qstring
  m_lastTrackedExitCode :: int
  m_bookmarks :: "int list"
  m_hasSelection :: bool
  m_selStart :: "int \<times> int"
  m_selEnd :: "int \<times> int"
  m_signals :: "view_signal list"

definition scrollbackSize :: "term_view \<Rightarrow> int" where
  "scrollbackSize v = int (length (m_scrollback (m_grid v)))"

section \<open>The frozen screen\<close>

definition captureScreenSnapshot :: "term_view \<Rightarrow> term_view" where
  "captureScreenSnapshot v =
     (let g = m_grid v; rows = [0 .. m_rows g - 1] in
      v\<lparr>m_frozenScreenRows := map (\<lambda>r. map (cellAt g r) [0 .. m_cols g - 1]) rows,
        m_frozenScreenCombining := map (\<lambda>r. combining (lineAt g r)) rows,
        m_frozenCursorRow := m_cursorRow g, m_frozenCursorCol := m_cursorCol g\<rparr>)"

definition clearScreenSnapshot :: "term_view \<Rightarrow> term_view" where
  "clearScreenSnapshot v =
     v\<lparr>m_frozenScreenRows := [], m_frozenScreenCombining := [], m_frozenCursorRow := 0, m_frozenCursorCol := 0\<rparr>"

definition effectiveCursorRow :: "term_view \<Rightarrow> int" where
  "effectiveCursorRow v =
     (if m_frozenScreenRows v = [] then m_cursorRow (m_grid v) else m_frozenCursorRow v)"

definition effectiveCursorCol :: "term_view \<Rightarrow> int" where
  "effectiveCursorCol v =
     (if m_frozenScreenRows v = [] then m_cursorCol (m_grid v) else m_frozenCursorCol v)"

text \<open>The scroll bar and the buttons it also sets are display.\<close>

definition updateScrollBar :: "term_view \<Rightarrow> term_view" where
  "updateScrollBar v =
     (let maxScroll = scrollbackSize v;
          v = (if m_scrollOffset v > maxScroll then v\<lparr>m_scrollOffset := maxScroll\<rparr> else v);
          v = (if m_scrollOffset v < 0 then v\<lparr>m_scrollOffset := 0\<rparr> else v);
          wantFrozen = (m_scrollOffset v > 0 \<or> m_syncOutputActive v);
          haveFrozen = (m_frozenScreenRows v \<noteq> [])
      in if wantFrozen \<and> \<not> haveFrozen then captureScreenSnapshot v
         else if \<not> wantFrozen \<and> haveFrozen then clearScreenSnapshot v else v)"

section \<open>Reading\<close>

text \<open>Lines of the scrollback and rows of the screen in one numbering.\<close>

definition s_blankCell :: cell where "s_blankCell = cell0\<lparr>codepoint := 0x20\<rparr>"

definition cellAtGlobal :: "term_view \<Rightarrow> int \<Rightarrow> int \<Rightarrow> cell" where
  "cellAtGlobal v globalLine col =
     (let g = m_grid v; sb = scrollbackSize v; sr = globalLine - sb in
      if 0 \<le> globalLine \<and> globalLine < sb then
        (let line = cells (vget (m_scrollback g) globalLine)
         in if 0 \<le> col \<and> col < vsize line then vget line col else s_blankCell)
      else if 0 \<le> sr \<and> sr < m_rows g \<and> 0 \<le> col \<and> col < m_cols g then
        (if m_frozenScreenRows v \<noteq> [] \<and> sr < vsize (m_frozenScreenRows v) \<and>
            col < vsize (vget (m_frozenScreenRows v) sr)
         then vget (vget (m_frozenScreenRows v) sr) col else cellAt g sr col)
      else s_blankCell)"

definition combiningAt :: "term_view \<Rightarrow> int \<Rightarrow> int \<Rightarrow> u32 list option" where
  "combiningAt v globalLine col =
     (let g = m_grid v; sb = scrollbackSize v; sr = globalLine - sb;
          table = (if 0 \<le> globalLine \<and> globalLine < sb then combining (vget (m_scrollback g) globalLine)
                   else if 0 \<le> sr \<and> sr < m_rows g then
                     (if m_frozenScreenCombining v \<noteq> [] \<and> sr < vsize (m_frozenScreenCombining v)
                      then vget (m_frozenScreenCombining v) sr else combining (lineAt g sr))
                   else [])
      in map_of table col)"

section \<open>A batch\<close>

definition clearSelection :: "term_view \<Rightarrow> term_view" where
  "clearSelection v = v\<lparr>m_hasSelection := False, m_selStart := (-1, -1), m_selEnd := (-1, -1)\<rparr>"

text \<open>\<open>CSI ? ... 2026 ... h\<close>.\<close>

fun entersSync :: "shipped \<Rightarrow> bool" where
  "entersSync (Shipped (CsiDispatch fc ps cs im tr)) = (im = ''?'' \<and> fc = CHR ''h'' \<and> 2026 \<in> set ps)"
| "entersSync _ = False"

definition batchEntersSyncOutput :: "vt_batch \<Rightarrow> bool" where
  "batchEntersSyncOutput b = list_ex entersSync (b_actions b)"

text \<open>
  The pinned view moves with the lines pushed under it, the first of them marked.
\<close>

definition followPushed :: "nat \<Rightarrow> term_view \<Rightarrow> term_view" where
  "followPushed pushedBefore v =
     (if m_scrollOffset v > 0 then
        (let added64 = (int (m_scrollbackPushed (m_grid v)) - int pushedBefore) mod 2 ^ 64;
             sb = scrollbackSize v
         in if added64 > 0 then
              (let added = (if added64 > sb then sb else added64)
               in v\<lparr>m_scrollOffset := min (m_scrollOffset v + added) sb,
                    m_newOutputMarkerLine :=
                      (if m_newOutputMarkerLine v < 0 then sb + m_rows (m_grid v) - 1
                       else m_newOutputMarkerLine v)\<rparr>)
            else v)
      else v\<lparr>m_newOutputMarkerLine := -1\<rparr>)"

definition noteTitle :: "term_view \<Rightarrow> term_view" where
  "noteTitle v =
     (let title = m_windowTitle (m_grid v)
      in if title \<noteq> m_lastTitle v
         then v\<lparr>m_lastTitle := title, m_signals := m_signals v @ [TitleChanged title]\<rparr> else v)"

definition noteSync :: "term_view \<Rightarrow> term_view" where
  "noteSync v =
     (let wasSync = m_syncOutputActive v;
          v = v\<lparr>m_syncOutputActive := m_synchronizedOutput (m_grid v)\<rparr>
      in if \<not> m_syncOutputActive v then
           (let v = (if m_scrollOffset v = 0 \<and> m_frozenScreenRows v \<noteq> [] then clearScreenSnapshot v else v)
            in v\<lparr>m_syncTimer := False\<rparr>)
         else if \<not> wasSync then v\<lparr>m_syncTimer := True\<rparr> else v)"

definition noteExitCode :: "term_view \<Rightarrow> term_view" where
  "noteExitCode v =
     (let code = m_lastExitCode (m_grid v)
      in if code \<noteq> 0 \<and> code \<noteq> m_lastTrackedExitCode v
         then v\<lparr>m_lastTrackedExitCode := code, m_signals := m_signals v @ [CommandFailed code]\<rparr>
         else if code = 0 then v\<lparr>m_lastTrackedExitCode := 0\<rparr> else v)"

definition beforeBatch :: "vt_batch \<Rightarrow> term_view \<Rightarrow> term_view" where
  "beforeBatch b v =
     (let v = (if clearSelectionHint b then clearSelection v else v);
          v = v\<lparr>m_grid := setScrollbackInsertPaused (m_scrollOffset v > 0) (m_grid v)\<rparr>
      in if (m_syncOutputActive v \<or> batchEntersSyncOutput b) \<and> m_frozenScreenRows v = []
         then captureScreenSnapshot v else v)"

definition onVtBatch :: "env \<Rightarrow> vt_batch \<Rightarrow> term_view \<Rightarrow> term_view" where
  "onVtBatch e b v0 =
     (let v = beforeBatch b v0;
          pushedBefore = m_scrollbackPushed (m_grid v);
          v = v\<lparr>m_grid := applyBatch e b (m_grid v)\<rparr>
      in noteExitCode (updateScrollBar (noteSync (noteTitle (followPushed pushedBefore v)))))"

section \<open>Synchronized output that does not end\<close>

definition syncTimeout :: "term_view \<Rightarrow> term_view" where
  "syncTimeout v0 =
     (let v = v0\<lparr>m_syncTimer := False\<rparr> in
      if m_syncOutputActive v then
        (let v = v\<lparr>m_syncOutputActive := False\<rparr>;
             v = (if m_scrollOffset v = 0 \<and> m_frozenScreenRows v \<noteq> [] then clearScreenSnapshot v else v)
         in if m_synchronizedOutput (m_grid v)
            then v\<lparr>m_grid := forceClearSynchronizedOutput (m_grid v)\<rparr> else v)
      else v)"

section \<open>Scrolling\<close>

definition scrollTo :: "int \<Rightarrow> term_view \<Rightarrow> term_view" where
  "scrollTo offset v = updateScrollBar (v\<lparr>m_scrollOffset := offset\<rparr>)"

definition scrollBarMoved :: "int \<Rightarrow> term_view \<Rightarrow> term_view" where
  "scrollBarMoved value v = scrollTo (scrollbackSize v - value) v"

definition scrollToBottom :: "term_view \<Rightarrow> term_view" where
  "scrollToBottom v = scrollTo 0 (v\<lparr>m_newOutputMarkerLine := -1\<rparr>)"

text \<open>
  The wheel: the gesture freezes the view before any line moves; the timer then moves it by whole
  lines, \<open>intStep\<close> being what the animation's arithmetic on doubles gives.
\<close>

definition wheelStarted :: "bool \<Rightarrow> term_view \<Rightarrow> term_view" where
  "wheelStarted targetUp v =
     (if m_scrollOffset v = 0 \<and> targetUp \<and> m_frozenScreenRows v = []
      then (captureScreenSnapshot v)\<lparr>m_grid := setScrollbackInsertPaused True (m_grid v)\<rparr> else v)"

definition smoothScrollStep :: "int \<Rightarrow> term_view \<Rightarrow> term_view" where
  "smoothScrollStep intStep v =
     (if intStep \<noteq> 0 then scrollTo (clamp (m_scrollOffset v + intStep) 0 (scrollbackSize v)) v else v)"

definition smoothScrollDone :: "term_view \<Rightarrow> term_view" where
  "smoothScrollDone v = updateScrollBar v"

text \<open>
  The keys of \<open>keyPressEvent\<close> that scroll. A key that is neither a scroll key nor a navigation
  key of the window brings the view back to the bottom.
\<close>

definition scrollKey :: "qt_key \<Rightarrow> bool" where
  "scrollKey k \<longleftrightarrow> k = KHome \<or> k = KEnd \<or> k = KPageUp \<or> k = KPageDown"

text \<open>Up, Down, J, K, C, F and G.\<close>

definition navKey :: "qt_key \<Rightarrow> bool" where
  "navKey k \<longleftrightarrow> k \<in> {KUp, KDown, KLetter 9, KLetter 10, KLetter 2, KLetter 5, KLetter 6}"

definition snapToBottom :: "key_event \<Rightarrow> term_view \<Rightarrow> term_view" where
  "snapToBottom ev v =
     (let shiftOnlyScroll = (ev_shift ev \<and> m_kittyKeyFlags (m_grid v) = 0 \<and> scrollKey (ev_key ev));
          ctrlShiftNav = (ev_ctrl ev \<and> ev_shift ev \<and> navKey (ev_key ev))
      in if \<not> shiftOnlyScroll \<and> \<not> ctrlShiftNav then scrollToBottom v else v)"

definition shiftScroll :: "qt_key \<Rightarrow> term_view \<Rightarrow> term_view" where
  "shiftScroll k v =
     (if k = KHome then scrollTo (scrollbackSize v) v
      else if k = KEnd then scrollTo 0 v
      else if k = KPageUp then scrollTo (min (m_scrollOffset v + m_rows (m_grid v)) (scrollbackSize v)) v
      else scrollTo (max (m_scrollOffset v - m_rows (m_grid v)) 0) v)"

text \<open>The first prompt above the top line but one, or the first below the top line plus one.\<close>

definition navigatePrompt :: "int \<Rightarrow> term_view \<Rightarrow> term_view" where
  "navigatePrompt direction v0 =
     (let v = v0\<lparr>m_grid := applyPromptRegionShift (m_grid v0)\<rparr>;
          starts = map startLine (m_promptRegions (m_grid v));
          sb = scrollbackSize v;
          viewTop = sb - m_scrollOffset v
      in if starts = [] then v
         else if direction < 0 then
           (case find (\<lambda>l. l < viewTop - 1) (rev starts) of
              Some l \<Rightarrow> scrollTo (clamp (sb - l) 0 sb) v
            | None \<Rightarrow> scrollTo sb v)
         else
           (case find (\<lambda>l. l > viewTop + 1) starts of
              Some l \<Rightarrow> scrollTo (clamp (sb - l) 0 sb) v
            | None \<Rightarrow> scrollTo 0 v))"

definition toggleBookmark :: "term_view \<Rightarrow> term_view" where
  "toggleBookmark v =
     (let line = scrollbackSize v + m_cursorRow (m_grid v)
      in if line \<in> set (m_bookmarks v) then v\<lparr>m_bookmarks := remove1 line (m_bookmarks v)\<rparr>
         else v\<lparr>m_bookmarks := sort (m_bookmarks v @ [line])\<rparr>)"

definition nextBookmark :: "term_view \<Rightarrow> term_view" where
  "nextBookmark v =
     (let sb = scrollbackSize v; viewTop = sb - m_scrollOffset v
      in if m_bookmarks v = [] then v
         else (case find (\<lambda>bm. bm > viewTop + 1) (m_bookmarks v) of
                 Some bm \<Rightarrow> scrollTo (clamp (sb - bm) 0 sb) v
               | None \<Rightarrow> scrollTo (clamp (sb - hd (m_bookmarks v)) 0 sb) v))"

definition prevBookmark :: "term_view \<Rightarrow> term_view" where
  "prevBookmark v =
     (let sb = scrollbackSize v; viewTop = sb - m_scrollOffset v
      in if m_bookmarks v = [] then v
         else (case find (\<lambda>bm. bm < viewTop - 1) (rev (m_bookmarks v)) of
                 Some bm \<Rightarrow> scrollTo (clamp (sb - bm) 0 sb) v
               | None \<Rightarrow> scrollTo (clamp (sb - last (m_bookmarks v)) 0 sb) v))"

text \<open>A match outside the view is brought to its middle.\<close>

definition scrollToMatch :: "int \<Rightarrow> term_view \<Rightarrow> term_view" where
  "scrollToMatch globalLine v =
     (let sb = scrollbackSize v; rows = m_rows (m_grid v);
          viewStart = sb - m_scrollOffset v;
          viewEnd = viewStart + rows - 1
      in if globalLine < viewStart \<or> globalLine > viewEnd
         then scrollTo (clamp (sb - globalLine + cdiv rows 2) 0 sb) v else v)"

text \<open>Dragging a selection past an edge.\<close>

definition selectionScroll :: "cell_metrics \<Rightarrow> int \<Rightarrow> int \<times> int \<Rightarrow> term_view \<Rightarrow> term_view" where
  "selectionScroll cm direction mouse v0 =
     (if direction = 0 then v0
      else (let v = v0\<lparr>m_scrollOffset := clamp (m_scrollOffset v0 + direction * 2) 0 (scrollbackSize v0)\<rparr>;
                v = v\<lparr>m_selEnd := pixelToCell cm (m_grid v) (m_scrollOffset v) (fst mouse) (snd mouse)\<rparr>;
                v = v\<lparr>m_hasSelection := (m_selStart v \<noteq> m_selEnd v)\<rparr>
            in updateScrollBar v))"

section \<open>Sizes\<close>

text \<open>The widget in pixels, the parts beside the grid taken off; none fits less than 10 by 3.\<close>

record widget_size =
  ws_width :: int
  ws_height :: int
  ws_scrollBar :: int
  ws_searchBar :: int

definition recalcGridSize :: "cell_metrics \<Rightarrow> widget_size \<Rightarrow> term_view \<Rightarrow> term_view" where
  "recalcGridSize cm ws v =
     (let availW = ws_width ws - cm_padding cm * 2 - ws_scrollBar ws;
          availH = ws_height ws - cm_padding cm * 2 - ws_searchBar ws;
          cols = max (cdiv availW (cm_width cm)) 10;
          rows = max (cdiv availH (cm_height cm)) 3;
          changed = (rows \<noteq> m_rows (m_grid v) \<or> cols \<noteq> m_cols (m_grid v));
          preLayout = (ws_width ws < 20 \<and> ws_height ws < 20)
      in if preLayout \<and> changed then v
         else
           (let v = (if changed then
                       (let v = clearScreenSnapshot (v\<lparr>m_grid := resize rows cols (m_grid v)\<rparr>)
                        in if m_syncOutputActive v then captureScreenSnapshot v else v)
                     else v)
            in updateScrollBar v))"

section \<open>Runs\<close>

datatype view_op =
    Batch env vt_batch
  | SyncTimeout
  | ScrollBarMoved int
  | ScrollToBottom
  | WheelStarted bool
  | SmoothScrollStep int
  | SmoothScrollDone
  | KeyPressed key_event
  | ShiftScroll qt_key
  | NavigatePrompt int
  | ToggleBookmark
  | NextBookmark
  | PrevBookmark
  | ScrollToMatch int
  | SelectionScroll cell_metrics int "int \<times> int"
  | Recalc cell_metrics widget_size

fun viewOp :: "view_op \<Rightarrow> term_view \<Rightarrow> term_view" where
  "viewOp (Batch e b) v = onVtBatch e b v"
| "viewOp SyncTimeout v = syncTimeout v"
| "viewOp (ScrollBarMoved n) v = scrollBarMoved n v"
| "viewOp ScrollToBottom v = scrollToBottom v"
| "viewOp (WheelStarted up) v = wheelStarted up v"
| "viewOp (SmoothScrollStep n) v = smoothScrollStep n v"
| "viewOp SmoothScrollDone v = smoothScrollDone v"
| "viewOp (KeyPressed ev) v = snapToBottom ev v"
| "viewOp (ShiftScroll k) v = shiftScroll k v"
| "viewOp (NavigatePrompt d) v = navigatePrompt d v"
| "viewOp ToggleBookmark v = toggleBookmark v"
| "viewOp NextBookmark v = nextBookmark v"
| "viewOp PrevBookmark v = prevBookmark v"
| "viewOp (ScrollToMatch l) v = scrollToMatch l v"
| "viewOp (SelectionScroll cm d m) v = selectionScroll cm d m v"
| "viewOp (Recalc cm ws) v = recalcGridSize cm ws v"

end
