(* ===== verification/TermViewInv.thy ===== *)
theory TermViewInv
  imports TermView SessionRestore
begin

text \<open>
  The view's invariant, kept by every gesture and batch; what a reader sees across a batch; and
  the frozen screen of synchronized output.
\<close>

section \<open>The invariant\<close>

definition frozen_ok :: "term_view \<Rightarrow> bool" where
  "frozen_ok v \<longleftrightarrow>
     (m_frozenScreenRows v = [] \<and> m_frozenScreenCombining v = []) \<or>
     (int (length (m_frozenScreenRows v)) = m_rows (m_grid v) \<and>
      length (m_frozenScreenCombining v) = length (m_frozenScreenRows v) \<and>
      list_all (\<lambda>row. int (length row) = m_cols (m_grid v)) (m_frozenScreenRows v))"

definition view_base :: "term_view \<Rightarrow> bool" where
  "view_base v \<longleftrightarrow> grid_wf (m_grid v) \<and> frozen_ok v \<and> sorted (m_bookmarks v) \<and>
     (m_syncOutputActive v \<longrightarrow> m_syncTimer v)"

definition view_ok :: "term_view \<Rightarrow> bool" where
  "view_ok v \<longleftrightarrow> view_base v \<and> 0 \<le> m_scrollOffset v \<and> m_scrollOffset v \<le> scrollbackSize v \<and>
     (m_scrollOffset v > 0 \<or> m_syncOutputActive v \<longrightarrow> m_frozenScreenRows v \<noteq> [])"

lemma captured_ok: "grid_wf (m_grid v) \<Longrightarrow> frozen_ok (captureScreenSnapshot v) \<and> m_frozenScreenRows (captureScreenSnapshot v) \<noteq> []"
  using wf_dims [of "m_grid v"]
  by (auto simp: frozen_ok_def captureScreenSnapshot_def Let_def list_all_iff)

lemma snapshot_frame [simp]:
  "m_grid (captureScreenSnapshot v) = m_grid v" "m_scrollOffset (captureScreenSnapshot v) = m_scrollOffset v"
  "m_syncOutputActive (captureScreenSnapshot v) = m_syncOutputActive v"
  "m_syncTimer (captureScreenSnapshot v) = m_syncTimer v" "m_bookmarks (captureScreenSnapshot v) = m_bookmarks v"
  "m_grid (clearScreenSnapshot v) = m_grid v" "m_scrollOffset (clearScreenSnapshot v) = m_scrollOffset v"
  "m_syncOutputActive (clearScreenSnapshot v) = m_syncOutputActive v"
  "m_syncTimer (clearScreenSnapshot v) = m_syncTimer v" "m_bookmarks (clearScreenSnapshot v) = m_bookmarks v"
  "m_frozenScreenRows (clearScreenSnapshot v) = []" "frozen_ok (clearScreenSnapshot v)"
  "scrollbackSize (captureScreenSnapshot v) = scrollbackSize v"
  "scrollbackSize (clearScreenSnapshot v) = scrollbackSize v"
  by (simp_all add: captureScreenSnapshot_def clearScreenSnapshot_def frozen_ok_def scrollbackSize_def Let_def)

lemma base_upd [simp]:
  "view_base (v\<lparr>m_scrollOffset := n\<rparr>) = view_base v" "view_base (v\<lparr>m_newOutputMarkerLine := n\<rparr>) = view_base v"
  "view_base (v\<lparr>m_lastTitle := t\<rparr>) = view_base v" "view_base (v\<lparr>m_signals := s\<rparr>) = view_base v"
  "view_base (v\<lparr>m_lastTrackedExitCode := n\<rparr>) = view_base v" "view_base (v\<lparr>m_hasSelection := b\<rparr>) = view_base v"
  "view_base (v\<lparr>m_selStart := p\<rparr>) = view_base v" "view_base (v\<lparr>m_selEnd := p\<rparr>) = view_base v"
  by (simp_all add: view_base_def frozen_ok_def)

lemma size_upd [simp]:
  "scrollbackSize (v\<lparr>m_scrollOffset := n\<rparr>) = scrollbackSize v"
  "scrollbackSize (v\<lparr>m_newOutputMarkerLine := n\<rparr>) = scrollbackSize v"
  "scrollbackSize (v\<lparr>m_lastTitle := t\<rparr>) = scrollbackSize v" "scrollbackSize (v\<lparr>m_signals := s\<rparr>) = scrollbackSize v"
  "scrollbackSize (v\<lparr>m_lastTrackedExitCode := n\<rparr>) = scrollbackSize v"
  "scrollbackSize (v\<lparr>m_syncOutputActive := b\<rparr>) = scrollbackSize v"
  "scrollbackSize (v\<lparr>m_syncTimer := b\<rparr>) = scrollbackSize v"
  by (simp_all add: scrollbackSize_def)

lemma base_capture: "view_base v \<Longrightarrow> view_base (captureScreenSnapshot v)"
  using captured_ok [of v] by (simp add: view_base_def)

lemma base_clear: "view_base v \<Longrightarrow> view_base (clearScreenSnapshot v)"
  by (simp add: view_base_def)

lemma base_wf: "view_base v \<Longrightarrow> grid_wf (m_grid v)"
  by (simp add: view_base_def)

text \<open>The scroll bar clamps the offset, then keeps the snapshot exactly while it is wanted.\<close>

lemma updateScrollBar_eq:
  "updateScrollBar v =
     (let w = v\<lparr>m_scrollOffset := max 0 (min (m_scrollOffset v) (scrollbackSize v))\<rparr>
      in if m_scrollOffset w > 0 \<or> m_syncOutputActive w
         then (if m_frozenScreenRows w = [] then captureScreenSnapshot w else w)
         else (if m_frozenScreenRows w \<noteq> [] then clearScreenSnapshot w else w))"
proof -
  let ?c = "v\<lparr>m_scrollOffset := max 0 (min (m_scrollOffset v) (scrollbackSize v))\<rparr>"
  let ?u = "if m_scrollOffset v > scrollbackSize v then v\<lparr>m_scrollOffset := scrollbackSize v\<rparr> else v"
  have "0 \<le> scrollbackSize v" by (simp add: scrollbackSize_def)
  then have c: "(if m_scrollOffset ?u < 0 then ?u\<lparr>m_scrollOffset := 0\<rparr> else ?u) = ?c" by auto
  have i: "(if P \<and> \<not> Q then a else if \<not> P \<and> Q then b else d) =
      (if P then (if \<not> Q then a else d) else (if Q then b else d))" for P Q and a b d :: term_view by simp
  show ?thesis
    unfolding updateScrollBar_def Let_def c i not_not ..
qed

lemma updateScrollBar_ok:
  assumes "view_base v"
  shows "view_ok (updateScrollBar v)"
proof -
  let ?w = "v\<lparr>m_scrollOffset := max 0 (min (m_scrollOffset v) (scrollbackSize v))\<rparr>"
  have b: "view_base ?w" "0 \<le> m_scrollOffset ?w" "m_scrollOffset ?w \<le> scrollbackSize ?w"
    using assms by (simp_all add: scrollbackSize_def)
  have c: "m_frozenScreenRows (captureScreenSnapshot ?w) \<noteq> []"
    using captured_ok [of ?w] base_wf [OF assms] by simp
  show ?thesis
    using b c base_capture [OF b(1)] base_clear [OF b(1)]
    unfolding updateScrollBar_eq Let_def view_ok_def by (auto split: if_splits)
qed

lemma scrollTo_ok: "view_base v \<Longrightarrow> view_ok (scrollTo n v)"
  by (simp add: scrollTo_def updateScrollBar_ok)

lemma ok_base: "view_ok v \<Longrightarrow> view_base v"
  by (simp add: view_ok_def)

section \<open>Every operation keeps it\<close>

lemma flag_setters [simp]:
  "m_rows (setScrollbackInsertPaused b g) = m_rows g" "m_cols (setScrollbackInsertPaused b g) = m_cols g"
  "m_scrollback (setScrollbackInsertPaused b g) = m_scrollback g"
  "m_rows (forceClearSynchronizedOutput g) = m_rows g" "m_cols (forceClearSynchronizedOutput g) = m_cols g"
  "m_scrollback (forceClearSynchronizedOutput g) = m_scrollback g"
  by (simp_all add: setScrollbackInsertPaused_def forceClearSynchronizedOutput_def)

lemma base_grid: "view_base v \<Longrightarrow> grid_wf g \<Longrightarrow> m_rows g = m_rows (m_grid v) \<Longrightarrow> m_cols g = m_cols (m_grid v) \<Longrightarrow>
    view_base (v\<lparr>m_grid := g\<rparr>)"
  by (simp add: view_base_def frozen_ok_def)

lemma action_dims:
  "grid_wf g \<Longrightarrow> m_rows (processAction e pre a g) = m_rows g \<and> m_cols (processAction e pre a g) = m_cols g"
proof (cases "resets a")
  case True
  assume "grid_wf g"
  then have "grid_wf ((bumpRevision g)\<lparr>m_wrapNext := False\<rparr>)" by (simp add: wf_bumpRevision wf_wrapNext)
  note r = reset_fields(15,16) [OF this, where e = e]
  show ?thesis
    using True r by (cases a) (auto simp: processAction_def handleEsc_def Let_def bumpRevision_def)
next
  case False
  then show ?thesis using grows_action [OF False grows_refl [of g], where e = e and pre = pre] by (simp add: grows_def)
qed

lemma batch_ok:
  "grid_wf g \<Longrightarrow> grid_wf (applyBatch e b g) \<and> m_rows (applyBatch e b g) = m_rows g \<and>
    m_cols (applyBatch e b g) = m_cols g"
proof -
  have "grid_wf (fold (\<lambda>(pre, a). processAction e pre a) xs g) \<and>
      m_rows (fold (\<lambda>(pre, a). processAction e pre a) xs g) = m_rows g \<and>
      m_cols (fold (\<lambda>(pre, a). processAction e pre a) xs g) = m_cols g" if "grid_wf g" for xs
    using that
  proof (induction xs arbitrary: g)
    case (Cons x xs)
    then show ?case
      using Cons.IH [OF wf_processAction [OF Cons.prems]] action_dims [OF Cons.prems] by (cases x) simp
  qed simp
  then show "grid_wf g \<Longrightarrow> ?thesis" by (simp add: applyBatch_def)
qed

lemma base_selection: "view_base (clearSelection v) = view_base v"
  by (simp add: clearSelection_def)

lemma base_before: "view_base v \<Longrightarrow> view_base (beforeBatch b v)"
proof -
  assume v: "view_base v"
  have "view_base (w\<lparr>m_grid := setScrollbackInsertPaused p (m_grid w)\<rparr>)" if "view_base w" for w p
    using that base_wf [OF that]
    by (intro base_grid) (simp_all add: wf_flags)
  then show ?thesis using v by (auto simp: beforeBatch_def Let_def base_selection intro!: base_capture)
qed

lemma base_follow: "view_base (followPushed n v) = view_base v"
  by (simp add: followPushed_def Let_def)

lemma base_title: "view_base (noteTitle v) = view_base v"
  by (simp add: noteTitle_def Let_def)

lemma base_exit: "view_base (noteExitCode v) = view_base v" "view_ok (noteExitCode v) = view_ok v"
  by (simp_all add: noteExitCode_def view_ok_def Let_def)

lemma base_sync: "view_base v \<Longrightarrow> view_base (noteSync v)"
  by (auto simp: noteSync_def Let_def view_base_def frozen_ok_def clearScreenSnapshot_def)

lemma onVtBatch_ok: "view_base v \<Longrightarrow> view_ok (onVtBatch e b v)"
proof -
  assume "view_base v"
  then have w: "view_base (beforeBatch b v)" by (rule base_before)
  have "view_base ((beforeBatch b v)\<lparr>m_grid := applyBatch e b (m_grid (beforeBatch b v))\<rparr>)"
    using batch_ok [OF base_wf [OF w]] by (intro base_grid [OF w]) auto
  then show ?thesis
    by (simp add: onVtBatch_def Let_def base_exit updateScrollBar_ok base_sync base_title base_follow)
qed

lemma syncTimeout_ok: "view_ok v \<Longrightarrow> view_ok (syncTimeout v)"
  by (auto simp: syncTimeout_def Let_def view_ok_def view_base_def frozen_ok_def clearScreenSnapshot_def
      scrollbackSize_def wf_flags)

lemma wheelStarted_ok: "view_ok v \<Longrightarrow> view_ok (wheelStarted up v)"
proof -
  assume v: "view_ok v"
  have "view_base (w\<lparr>m_grid := setScrollbackInsertPaused p (m_grid w)\<rparr>)" if "view_base w" for w p
    using that base_wf [OF that]
    by (intro base_grid) (simp_all add: wf_flags)
  from this [OF base_capture [OF ok_base [OF v]], of True] show ?thesis
    using v captured_ok [OF base_wf [OF ok_base [OF v]]]
    by (auto simp: wheelStarted_def view_ok_def scrollbackSize_def)
qed

lemma toggle_ok: "view_ok v \<Longrightarrow> view_ok (toggleBookmark v)"
  by (auto simp: toggleBookmark_def Let_def view_ok_def view_base_def frozen_ok_def scrollbackSize_def
      intro: sorted_remove1)

lemma navigate_ok: "view_ok v \<Longrightarrow> view_ok (navigatePrompt d v)"
proof -
  assume v: "view_ok v"
  have b: "view_base (v\<lparr>m_grid := applyPromptRegionShift (m_grid v)\<rparr>)"
    using base_wf [OF ok_base [OF v]] wf_promptShift
    by (intro base_grid [OF ok_base [OF v]]) (auto simp: applyPromptRegionShift_def)
  then have "view_ok (v\<lparr>m_grid := applyPromptRegionShift (m_grid v)\<rparr>)"
    using v by (auto simp: view_ok_def scrollbackSize_def applyPromptRegionShift_def)
  then show ?thesis
    using scrollTo_ok [OF b] by (auto simp: navigatePrompt_def Let_def split: option.split)
qed

lemma recalc_ok: "view_ok v \<Longrightarrow> view_ok (recalcGridSize cm ws v)"
proof -
  assume v: "view_ok v"
  have r: "view_base (clearScreenSnapshot (v\<lparr>m_grid := resize (max a 3) (max b 10) (m_grid v)\<rparr>))" for a b
    using ok_base [OF v] wf_resize [of "m_grid v" "max a 3" "max b 10"] by (auto simp: view_base_def)
  note r base_capture [OF r]
  then show ?thesis
    using v ok_base [OF v]
    by (auto simp: recalcGridSize_def Let_def intro!: updateScrollBar_ok)
qed

lemma viewOp_ok: "view_ok v \<Longrightarrow> view_ok (viewOp op v)"
proof (cases op)
  case (SelectionScroll cm d m)
  then show "view_ok v \<Longrightarrow> ?thesis"
    by (auto simp: selectionScroll_def Let_def dest!: ok_base intro!: updateScrollBar_ok)
qed (auto simp: onVtBatch_ok ok_base syncTimeout_ok scrollBarMoved_def scrollToBottom_def scrollTo_ok
    wheelStarted_ok smoothScrollStep_def smoothScrollDone_def updateScrollBar_ok snapToBottom_def shiftScroll_def
    navigate_ok toggle_ok nextBookmark_def prevBookmark_def scrollToMatch_def recalc_ok Let_def
    split: option.split)

section \<open>What a batch does to the view\<close>

lemma grows_batch:
  assumes "list_all (\<lambda>(pre, a). \<not> resets a) (batchActions b)"
  shows "grows g (applyBatch e b g)"
proof -
  have "grows g (fold (\<lambda>(pre, a). processAction e pre a) xs h)"
    if "list_all (\<lambda>(pre, a). \<not> resets a) xs" "grows g h" for xs h
    using that by (induction xs arbitrary: h) (auto simp: grows_action)
  then show ?thesis using assms by (simp add: applyBatch_def)
qed

lemma title_frame [simp]:
  "m_grid (noteTitle v) = m_grid v" "m_scrollOffset (noteTitle v) = m_scrollOffset v"
  "m_frozenScreenRows (noteTitle v) = m_frozenScreenRows v"
  "m_frozenScreenCombining (noteTitle v) = m_frozenScreenCombining v"
  "m_syncOutputActive (noteTitle v) = m_syncOutputActive v"
  "m_frozenCursorRow (noteTitle v) = m_frozenCursorRow v" "m_frozenCursorCol (noteTitle v) = m_frozenCursorCol v"
  by (simp_all add: noteTitle_def Let_def)

lemma exit_frame [simp]:
  "m_grid (noteExitCode v) = m_grid v" "m_scrollOffset (noteExitCode v) = m_scrollOffset v"
  "m_frozenScreenRows (noteExitCode v) = m_frozenScreenRows v"
  "m_frozenScreenCombining (noteExitCode v) = m_frozenScreenCombining v"
  "m_frozenCursorRow (noteExitCode v) = m_frozenCursorRow v" "m_frozenCursorCol (noteExitCode v) = m_frozenCursorCol v"
  by (simp_all add: noteExitCode_def Let_def)

lemma sync_frame [simp]:
  "m_grid (noteSync v) = m_grid v" "m_scrollOffset (noteSync v) = m_scrollOffset v"
  "m_syncOutputActive (noteSync v) = m_synchronizedOutput (m_grid v)"
  by (simp_all add: noteSync_def clearScreenSnapshot_def Let_def)

lemma follow_frame [simp]:
  "m_grid (followPushed n v) = m_grid v" "m_frozenScreenRows (followPushed n v) = m_frozenScreenRows v"
  "m_frozenScreenCombining (followPushed n v) = m_frozenScreenCombining v"
  "m_frozenCursorRow (followPushed n v) = m_frozenCursorRow v" "m_frozenCursorCol (followPushed n v) = m_frozenCursorCol v"
  "m_syncOutputActive (followPushed n v) = m_syncOutputActive v"
  by (simp_all add: followPushed_def Let_def)

lemmas note_frame = title_frame exit_frame sync_frame follow_frame

lemma noteSync_frozen:
  assumes "m_scrollOffset v \<noteq> 0 \<or> m_synchronizedOutput (m_grid v)"
  shows "m_frozenScreenRows (noteSync v) = m_frozenScreenRows v"
    "m_frozenScreenCombining (noteSync v) = m_frozenScreenCombining v"
    "m_frozenCursorRow (noteSync v) = m_frozenCursorRow v" "m_frozenCursorCol (noteSync v) = m_frozenCursorCol v"
  using assms by (auto simp: noteSync_def Let_def)

lemma bar_frame [simp]:
  "m_grid (updateScrollBar v) = m_grid v" "m_syncOutputActive (updateScrollBar v) = m_syncOutputActive v"
  unfolding updateScrollBar_eq Let_def
  by (simp_all only: if_distrib [of m_grid] if_distrib [of m_syncOutputActive] snapshot_frame if_cancel) simp_all

lemma onVtBatch_grid: "m_grid (onVtBatch e b v) = applyBatch e b (m_grid (beforeBatch b v))"
  by (simp only: onVtBatch_def Let_def note_frame bar_frame) simp

lemma bar_offset: "m_scrollOffset (updateScrollBar v) = max 0 (min (m_scrollOffset v) (scrollbackSize v))"
  unfolding updateScrollBar_eq Let_def
  by (simp only: if_distrib [of m_scrollOffset] snapshot_frame if_cancel) simp

text \<open>A wanted snapshot that is there stays; the offset of a view in range stays.\<close>

lemma updateScrollBar_keep:
  assumes "0 \<le> m_scrollOffset v" "m_scrollOffset v \<le> scrollbackSize v" "m_frozenScreenRows v \<noteq> []"
    "m_scrollOffset v > 0 \<or> m_syncOutputActive v"
  shows "updateScrollBar v = v"
  using assms by (auto simp: updateScrollBar_def Let_def)

end
