(* ===== verification/TermViewProps.thy ===== *)
theory TermViewProps
  imports TermViewInv GridProps StreamProps
begin

text \<open>
  The properties of the view: its invariant, the reader's view across a batch, the frozen screen
  of synchronized output, and navigation.
\<close>

section \<open>Any run\<close>

text \<open>
  C12. Whatever the reader does and whatever arrives, in any order, the view stays sound: the grid
  keeps its invariant, the offset lies between the bottom and the oldest line, the snapshot is
  there while the view is scrolled up or output is synchronized and has the grid's size, the
  timer that ends synchronized output runs while it lasts, and bookmarks stay sorted.
\<close>
theorem view_invariant: "view_ok v \<Longrightarrow> view_ok (fold viewOp ops v)"
  by (induction ops arbitrary: v) (simp_all add: viewOp_ok)

definition view0 :: term_view where
  "view0 = \<lparr>m_grid = grid0, m_scrollOffset = 0, m_frozenScreenRows = [], m_frozenScreenCombining = [],
     m_frozenCursorRow = 0, m_frozenCursorCol = 0, m_syncOutputActive = False, m_syncTimer = False,
     m_newOutputMarkerLine = -1, m_lastTitle = [], m_lastTrackedExitCode = 0, m_bookmarks = [],
     m_hasSelection = False, m_selStart = (-1, -1), m_selEnd = (-1, -1), m_signals = []\<rparr>"

lemma view0_ok: "view_ok view0"
  by (simp add: view_ok_def view_base_def view0_def frozen_ok_def wf_grid0 scrollbackSize_def)

definition textBatch :: vt_batch where
  "textBatch = \<lparr>b_actions = [Shipped (Print 0x41), Shipped (Execute CHR 0x0A)], rawBytes = [0x41, 0x0A],
     clearSelectionHint = True, wallClockMs = 0, images = []\<rparr>"

theorem view_invariant_witness:
  "view_ok (fold viewOp [Batch env0 textBatch, ShiftScroll KHome, Batch env0 textBatch, SyncTimeout] view0)"
  by (rule view_invariant) (rule view0_ok)

text \<open>A scroll by one line, and a view one line up for the witnesses.\<close>

lemma scroll_one:
  assumes "grid_wf g" "m_scrollTop g = 0" "m_scrollBottom g = m_rows g - 1" "\<not> m_altScreenActive g"
    "\<not> m_csiClearRedrawActive g" "int (length (m_scrollback g)) + 1 \<le> m_maxScrollback g"
    "m_scrollbackBytes g + m_cols g * sizeofCell \<le> byteCap g"
  shows "length (m_scrollback (scrollUp e 1 g)) = length (m_scrollback g) + 1"
    "m_scrollbackPushed (scrollUp e 1 g) = m_scrollbackPushed g + 1"
    "m_scrollbackBytes (scrollUp e 1 g) \<le> m_scrollbackBytes g + m_cols g * sizeofCell"
proof -
  let ?p = "scrollPrep e 1 g"
  let ?s = "pushTopRow 0 ?p"
  have c: "scrollCount 1 g = 1" using wf_dims(1) [OF assms(1)] assms(2,3) by (simp add: scrollCount_def)
  have push: "scrollPush e 1 g" using assms(2,4,5)
    by (simp add: scrollPush_def csiClearWindow_def moveActiveLink_def markAllScreenDirty_def Let_def)
  have p: "m_scrollbackPushed ?p = m_scrollbackPushed g"
    by (simp add: scrollPrep_def csiClearWindow_def moveActiveLink_def markAllScreenDirty_def Let_def)
  have lines: "list_all (line_ok (m_cols g)) (m_screenLines (markAllScreenDirty g))"
    using assms(1) by (auto simp: wf_defs lines_ok_def list_all_iff)
  have fold1: "fold pushTopRow [0..0] ?p = ?s" by simp
  have v: "viewsOf ?s = viewsOf g @ map rowView (take 1 (m_screenLines g))"
    "m_scrollbackBytes ?s \<le> m_scrollbackBytes g + m_cols g * sizeofCell"
    using pushRows_views [of 1 ?p "m_cols g"] lines wf_dims(1) [OF assms(1)] wf_screen_length [OF assms(1)]
    by (simp_all add: viewsOf_def take_map o_def)
  have len: "length (m_scrollback ?s) = length (m_scrollback g) + 1"
    using arg_cong [OF v(1), of length] wf_dims(1) [OF assms(1)] wf_screen_length [OF assms(1)]
    by (simp add: viewsOf_def)
  have pushed: "m_scrollbackPushed ?s = m_scrollbackPushed g + 1"
    by (cases "trimmedForScrollback (lineAt ?p 0) ?p") 
      (auto simp: pushTopRow_def Let_def appendScrollback_def p dest: arg_cong [of _ _ "\<lambda>x. m_scrollbackPushed (snd x)"])
  have sv: "salvageTopRows (scrollPush e 1 g) (m_scrollTop g) (scrollCount 1 g) ?p = ?s"
    using push c assms(2) by (simp add: salvageTopRows_def)
  have inv: "grid_inv ?s"
    using inv_salvage [of ?p 0 1 True] wf_scrollPrep [OF assms(1), of e 1] wf_dims(1) [OF assms(1)] wf_screen_length [OF assms(1)]
    by (simp add: grid_wf_def salvageTopRows_def)
  have "onlyHist ?p ?s" using onlyHist_salvage [of ?p True 0 1] by (simp add: salvageTopRows_def)
  then have "evictLoop ?s = ?s"
    using assms(6,7) v(2) len by (intro evict_none) (simp_all add: onlyHist_simps byteCap_def)
  then have saved: "scrollSaved e 1 g = ?s"
    using trim_evict [OF inv_hist [OF inv]] by (simp add: scrollSaved_def sv)
  have pushedEnd: "m_scrollbackPushed (refillRows a 1 h) = m_scrollbackPushed h" "m_scrollbackBytes (refillRows a 1 h) = m_scrollbackBytes h"
     "m_scrollback (refillRows a 1 h) = m_scrollback h" for a h
    by (simp_all add: refillRows_def refillRow_def takeBlankedCellsRow_def updLine_def Let_def hlInRange_def split: prod.splits option.splits)
  show "length (m_scrollback (scrollUp e 1 g)) = length (m_scrollback g) + 1"
    "m_scrollbackPushed (scrollUp e 1 g) = m_scrollbackPushed g + 1"
    "m_scrollbackBytes (scrollUp e 1 g) \<le> m_scrollbackBytes g + m_cols g * sizeofCell"
    using v(2) len pushed
    by (simp_all add: scrollUp_steps [OF assms(1)] c saved pushedEnd rotateRegion_def)
qed

definition csiBatch :: "char \<Rightarrow> int \<Rightarrow> string \<Rightarrow> vt_batch" where
  "csiBatch c n im = \<lparr>b_actions = [Shipped (CsiDispatch c [n] [False] im False)], rawBytes = [],
     clearSelectionHint = False, wallClockMs = 0, images = []\<rparr>"

lemma csi_batch: "applyBatch env0 (csiBatch c n im) g = handleCsi env0 c [n] [False] im False (bumpRevision g)"
  by (simp add: applyBatch_def csiBatch_def batchActions_def processAction_def)


definition grid1 :: grid where
  "grid1 = grid0\<lparr>m_scrollback := [line0], m_scrollbackHyperlinks := [[]]\<rparr>"

lemma grid1_wf: "grid_wf grid1"
  using wf_grid0 by (simp add: grid1_def wf_defs hist_ok_def grid0_fields line0_def cellBytes_def cap_ok_def)

lemma grid1_pushed: "m_scrollbackPushed grid1 = 0" "m_rows grid1 = 4" "m_cols grid1 = 8"
  by (simp_all add: grid1_def grid0_fields)
    (simp add: grid0_def TerminalGrid_def grid_members_def initTabStops_def Let_def)

definition view1 :: term_view where "view1 = viewOp (ScrollBarMoved 0) (view0\<lparr>m_grid := grid1\<rparr>)"

lemma view1_grid: "m_grid view1 = grid1" "m_scrollOffset view1 = 1"
  by (simp_all add: view1_def scrollBarMoved_def scrollTo_def updateScrollBar_def Let_def view0_def
     scrollbackSize_def grid1_def captureScreenSnapshot_def)

lemma view1_batch:
  "m_scrollbackPushed (m_grid (onVtBatch env0 (csiBatch CHR ''S'' 1 []) view1)) = m_scrollbackPushed grid1 + 1"
  "scrollbackSize (onVtBatch env0 (csiBatch CHR ''S'' 1 []) view1) = 2"
proof -
  let ?g = "(bumpRevision (setScrollbackInsertPaused True grid1))\<lparr>m_wrapNext := False\<rparr>"
  have b: "m_grid (beforeBatch (csiBatch CHR ''S'' 1 []) view1) = setScrollbackInsertPaused True grid1"
    by (auto simp: beforeBatch_def Let_def csiBatch_def view1_grid captureScreenSnapshot_def)
  have w: "m_grid (onVtBatch env0 (csiBatch CHR ''S'' 1 []) view1) = scrollUp env0 1 ?g"
    unfolding onVtBatch_grid b csi_batch
    by (simp add: handleCsi_def Let_def csiCursor_def csiEdit_def csiParamOr_def)
  have wf: "grid_wf ?g"
    using grid1_wf by (simp add: bumpRevision_def setScrollbackInsertPaused_def wf_defs)
  show "m_scrollbackPushed (m_grid (onVtBatch env0 (csiBatch CHR ''S'' 1 []) view1)) = m_scrollbackPushed grid1 + 1"
    "scrollbackSize (onVtBatch env0 (csiBatch CHR ''S'' 1 []) view1) = 2"
    unfolding scrollbackSize_def w
    using scroll_one(1,2) [OF wf, of env0]
    by (simp_all add: bumpRevision_def setScrollbackInsertPaused_def grid1_def grid0_fields sizeofCell_def byteCap_def)
qed

lemma view1_ok: "view_ok view1"
  unfolding view1_def
  by (rule viewOp_ok) (use view0_ok grid1_wf in \<open>simp add: view_ok_def view_base_def view0_def frozen_ok_def scrollbackSize_def\<close>)

lemma csiBatch_acts: "list_all (\<lambda>(pre, a). \<not> resets a) (batchActions (csiBatch c n im))"
  by (simp add: csiBatch_def batchActions_def)

section \<open>The reader's view\<close>

definition viewCell :: "term_view \<Rightarrow> int \<Rightarrow> int \<Rightarrow> cell" where
  "viewCell v row col = cellAtGlobal v (scrollbackSize v - m_scrollOffset v + row) col"

text \<open>
  A batch met while scrolled up: the history grows under the view, the offset follows it as far as
  the history goes, and the snapshot stays while the offset fits.
\<close>

lemma pinned_batch:
  fixes e b v
  defines "w \<equiv> onVtBatch e b v"
  defines "n \<equiv> m_scrollbackPushed (m_grid w) - m_scrollbackPushed (m_grid v)"
  assumes v: "view_ok v" "m_scrollOffset v > 0"
    and acts: "list_all (\<lambda>(pre, a). \<not> resets a) (batchActions b)"
    and small: "m_scrollbackPushed (m_grid w) < 2 ^ 64"
  shows "grows (m_grid v) (m_grid w)" "m_scrollOffset w = min (m_scrollOffset v + int n) (scrollbackSize w)"
    "m_scrollOffset v + int n \<le> scrollbackSize w \<Longrightarrow> m_frozenScreenRows w = m_frozenScreenRows v"
proof -
  let ?b = "beforeBatch b v"
  let ?g = "applyBatch e b (m_grid ?b)"
  let ?f = "followPushed (m_scrollbackPushed (m_grid ?b)) (?b\<lparr>m_grid := ?g\<rparr>)"
  have fz: "m_frozenScreenRows v \<noteq> []" using v by (simp add: view_ok_def)
  have b: "m_grid ?b = setScrollbackInsertPaused True (m_grid v)" "m_scrollOffset ?b = m_scrollOffset v"
    "m_frozenScreenRows ?b = m_frozenScreenRows v"
    using v(2) fz by (auto simp: beforeBatch_def Let_def clearSelection_def)
  have "grows (m_grid ?b) ?g" by (rule grows_batch [OF acts])
  moreover have "grows (m_grid v) (m_grid ?b)" by (simp add: b(1) setScrollbackInsertPaused_def)
  ultimately have g: "grows (m_grid v) ?g" using grows_trans by blast
  have w: "m_grid w = ?g"
    unfolding w_def by (rule onVtBatch_grid)
  show "grows (m_grid v) (m_grid w)" using g w by simp
  have le: "m_scrollbackPushed (m_grid v) \<le> m_scrollbackPushed ?g" using g by (auto simp: grows_def)
  have p: "m_scrollbackPushed (m_grid ?b) = m_scrollbackPushed (m_grid v)"
    by (simp add: b(1) setScrollbackInsertPaused_def)
  have added: "(int (m_scrollbackPushed ?g) - int (m_scrollbackPushed (m_grid v))) mod 2 ^ 64 = int n"
    using small le unfolding n_def w by (simp add: mod_pos_pos_trivial of_nat_diff)
  have sz: "scrollbackSize w = int (length (m_scrollback ?g))" by (simp add: scrollbackSize_def w)
  have off: "min (m_scrollOffset ?f) (scrollbackSize w) = min (m_scrollOffset v + int n) (scrollbackSize w)"
    "0 \<le> m_scrollOffset ?f"
    using v(2) b(2) added by (auto simp: followPushed_def Let_def p scrollbackSize_def w)
  let ?s = "noteSync (noteTitle ?f)"
  have e: "w = noteExitCode (updateScrollBar ?s)" by (simp add: w_def onVtBatch_def Let_def)
  have "scrollbackSize ?s = scrollbackSize w" by (simp add: scrollbackSize_def w)
  then have "m_scrollOffset (updateScrollBar ?s) = min (m_scrollOffset ?f) (scrollbackSize w)"
    using off(2) sz by (simp add: bar_offset)
  then show "m_scrollOffset w = min (m_scrollOffset v + int n) (scrollbackSize w)"
    unfolding e off(1) [symmetric, unfolded e] by simp
  assume room: "m_scrollOffset v + int n \<le> scrollbackSize w"
  have pos: "m_scrollOffset ?f = m_scrollOffset v + int n"
    using v(2) b(2) added room by (auto simp: followPushed_def Let_def p scrollbackSize_def w)
  have fr: "m_frozenScreenRows ?s = m_frozenScreenRows v"
    using noteSync_frozen(1) [of "noteTitle ?f"] pos v(2) b(3) by simp
  have "updateScrollBar ?s = ?s"
    using pos v(2) fr fz room sz by (intro updateScrollBar_keep) (simp_all add: scrollbackSize_def)
  then show "m_frozenScreenRows w = m_frozenScreenRows v" using fr unfolding e by simp
qed

lemma grown_line:
  assumes "grows g h" "int (length (m_scrollback h)) = int (length (m_scrollback g)) + n - int k"
    and "n = int (m_scrollbackPushed h) - int (m_scrollbackPushed g)" "int k \<le> i" "i < int (length (m_scrollback g))"
  shows "vget (m_scrollback h) (i - int k) = vget (m_scrollback g) i"
proof -
  obtain j new where h: "m_scrollback h = drop j (m_scrollback g @ new)" "j \<le> length (m_scrollback g) + length new"
      "m_scrollbackPushed h = m_scrollbackPushed g + length new"
    using assms(1) by (auto simp: grows_def)
  then have "j = k" using assms(2,3) by simp
  then have "m_scrollback h ! nat (i - int k) = (m_scrollback g @ new) ! (k + nat (i - int k))"
    unfolding h(1) using h(2) \<open>j = k\<close> by (subst nth_drop) simp_all
  also have "k + nat (i - int k) = nat i" using assms(4) by simp
  finally show ?thesis using assms(4,5) by (simp add: vget_def nth_append)
qed

text \<open>
  C11. A reader's view stands still: while the view is scrolled up, a batch (of anything but a
  reset) that pushes \<open>n\<close> lines moves the offset by \<open>n\<close>, as far as the history goes, and the
  lines of history on the view stay on it, cell by cell and mark by mark. They keep their rows
  while the offset fits in the history; where the caps, or CSI 3 J, removed lines of the view,
  the rest moves up by exactly as many rows (the counter of pushed lines being below \<open>2 ^ 64\<close>).
\<close>
theorem scrolled_view_stands_still:
  fixes e b v
  defines "w \<equiv> onVtBatch e b v"
  defines "n \<equiv> m_scrollbackPushed (m_grid w) - m_scrollbackPushed (m_grid v)"
  defines "up \<equiv> m_scrollOffset v + int n - m_scrollOffset w"
  assumes "view_ok v" "m_scrollOffset v > 0"
    and "list_all (\<lambda>(pre, a). \<not> resets a) (batchActions b)"
    and "m_scrollbackPushed (m_grid w) < 2 ^ 64"
  shows "m_scrollOffset w = min (m_scrollOffset v + int n) (scrollbackSize w) \<and>
    (up = 0 \<longleftrightarrow> m_scrollOffset v + int n \<le> scrollbackSize w) \<and>
    (\<forall>row col. 0 \<le> row \<and> row + up < m_scrollOffset v \<longrightarrow> viewCell w row col = viewCell v (row + up) col \<and>
      combiningAt w (scrollbackSize w - m_scrollOffset w + row) col =
        combiningAt v (scrollbackSize v - m_scrollOffset v + (row + up)) col)"
proof -
  have p: "grows (m_grid v) (m_grid w)" "m_scrollOffset w = min (m_scrollOffset v + int n) (scrollbackSize w)"
    using pinned_batch(1,2) [of v b e] assms by (simp_all add: w_def n_def)
  have le: "m_scrollbackPushed (m_grid v) \<le> m_scrollbackPushed (m_grid w)" using p(1) by (auto simp: grows_def)
  have range: "0 \<le> m_scrollOffset v" "m_scrollOffset v \<le> scrollbackSize v" using assms(4) by (simp_all add: view_ok_def)
  obtain k new where h: "m_scrollback (m_grid w) = drop k (m_scrollback (m_grid v) @ new)"
      "k \<le> length (m_scrollback (m_grid v)) + length new"
      "m_scrollbackPushed (m_grid w) = m_scrollbackPushed (m_grid v) + length new"
    using p(1) by (auto simp: grows_def)
  then have k: "scrollbackSize w = scrollbackSize v + int n - int k"
    by (simp add: scrollbackSize_def n_def)
  have up: "0 \<le> up" "scrollbackSize w - m_scrollOffset w = scrollbackSize v - m_scrollOffset v + up - int k"
    "m_scrollOffset w \<le> scrollbackSize w"
    using p(2) k by (simp_all add: up_def)
  have line: "vget (m_scrollback (m_grid w)) (scrollbackSize w - m_scrollOffset w + row) =
      vget (m_scrollback (m_grid v)) (scrollbackSize v - m_scrollOffset v + (row + up)) \<and>
      0 \<le> scrollbackSize w - m_scrollOffset w + row \<and> scrollbackSize w - m_scrollOffset w + row < scrollbackSize w \<and>
      0 \<le> scrollbackSize v - m_scrollOffset v + (row + up) \<and>
      scrollbackSize v - m_scrollOffset v + (row + up) < scrollbackSize v"
    if "0 \<le> row" "row + up < m_scrollOffset v" for row
  proof -
    let ?i = "scrollbackSize v - m_scrollOffset v + (row + up)"
    have i: "scrollbackSize w - m_scrollOffset w + row = ?i - int k" "int k \<le> ?i" "0 \<le> ?i" "?i < scrollbackSize v"
      "?i - int k < scrollbackSize w"
      using k up range that by (simp_all add: up_def)
    have "vget (m_scrollback (m_grid w)) (?i - int k) = vget (m_scrollback (m_grid v)) ?i"
      using grown_line [OF p(1), of "int n" k ?i] k i(2,4) le by (simp add: scrollbackSize_def n_def)
    then show ?thesis using i(3,4,5) i(2) unfolding i(1) by (intro conjI) (assumption | linarith)+
  qed
  then have cells: "\<forall>row col. 0 \<le> row \<and> row + up < m_scrollOffset v \<longrightarrow> viewCell w row col = viewCell v (row + up) col \<and>
      combiningAt w (scrollbackSize w - m_scrollOffset w + row) col =
        combiningAt v (scrollbackSize v - m_scrollOffset v + (row + up)) col"
    by (simp add: viewCell_def cellAtGlobal_def combiningAt_def Let_def)
  have "up = 0 \<longleftrightarrow> m_scrollOffset v + int n \<le> scrollbackSize w" using p(2) by (auto simp: up_def)
  then show ?thesis using p(2) cells by blast
qed

theorem scrolled_view_stands_still_witness:
  "m_scrollOffset (onVtBatch env0 (csiBatch CHR ''S'' 1 []) view1) = 2 \<and>
   viewCell (onVtBatch env0 (csiBatch CHR ''S'' 1 []) view1) 0 3 = viewCell view1 0 3"
  using scrolled_view_stands_still [of view1 "csiBatch CHR ''S'' 1 []" env0] view1_ok
  by (simp add: view1_grid view1_batch csiBatch_acts grid1_pushed)

text \<open>
  The rest of the view does not stand still: the rows below the history come from the
  snapshot, which a push does not shift, so each shows what was shown that many rows above,
  the pushed lines appearing a second time.
\<close>
theorem partly_scrolled_view_repeats:
  fixes e b v
  defines "w \<equiv> onVtBatch e b v"
  defines "n \<equiv> m_scrollbackPushed (m_grid w) - m_scrollbackPushed (m_grid v)"
  assumes "view_ok v" "m_scrollOffset v > 0"
    and "list_all (\<lambda>(pre, a). \<not> resets a) (batchActions b)"
    and "m_scrollbackPushed (m_grid w) < 2 ^ 64"
    and "m_scrollOffset v + int n \<le> scrollbackSize w"
    and "m_scrollOffset v + int n \<le> row" "row < m_rows (m_grid v)" "0 \<le> col" "col < m_cols (m_grid v)"
  shows "viewCell w row col = viewCell v (row - int n) col"
proof -
  have p: "grows (m_grid v) (m_grid w)" "m_scrollOffset w = m_scrollOffset v + int n"
      "m_frozenScreenRows w = m_frozenScreenRows v"
    using pinned_batch [of v b e] assms by (simp_all add: w_def n_def)
  have d: "m_rows (m_grid w) = m_rows (m_grid v)" "m_cols (m_grid w) = m_cols (m_grid v)"
    using p(1) by (simp_all add: grows_def)
  have f: "m_frozenScreenRows v \<noteq> []" "vsize (m_frozenScreenRows v) = m_rows (m_grid v)"
      "list_all (\<lambda>r. vsize r = m_cols (m_grid v)) (m_frozenScreenRows v)"
    using assms(3,4) by (auto simp: view_ok_def view_base_def frozen_ok_def vsize_def)
  let ?sr = "row - int n - m_scrollOffset v"
  have sr: "0 \<le> ?sr" "?sr < m_rows (m_grid v)" using assms by simp_all
  then have "vsize (vget (m_frozenScreenRows v) ?sr) = m_cols (m_grid v)"
    using f(2,3) by (simp add: vget_def vsize_def list_all_length)
  then show ?thesis
    using sr assms p(2,3) d f(1,2) by (simp add: viewCell_def cellAtGlobal_def Let_def)
qed

theorem partly_scrolled_view_repeats_witness:
  "viewCell (onVtBatch env0 (csiBatch CHR ''S'' 1 []) view1) 2 3 = viewCell view1 1 3"
  using partly_scrolled_view_repeats [of view1 "csiBatch CHR ''S'' 1 []" env0 2 3] view1_ok
  by (simp add: view1_grid view1_batch csiBatch_acts grid1_pushed)

section \<open>Synchronized output\<close>

lemma captured_cell:
  assumes "0 \<le> r" "r < m_rows (m_grid v)" "0 \<le> c" "c < m_cols (m_grid v)"
  shows "vget (vget (m_frozenScreenRows (captureScreenSnapshot v)) r) c = cellAt (m_grid v) r c"
  using assms by (simp add: captureScreenSnapshot_def Let_def vget_def)

lemma before_frozen:
  assumes "m_frozenScreenRows v \<noteq> []"
  shows "m_frozenScreenRows (beforeBatch b v) = m_frozenScreenRows v"
    "m_frozenCursorRow (beforeBatch b v) = m_frozenCursorRow v"
    "m_frozenCursorCol (beforeBatch b v) = m_frozenCursorCol v"
  using assms by (auto simp: beforeBatch_def Let_def clearSelection_def)

lemma before_captures:
  assumes "m_frozenScreenRows v = []" "m_syncOutputActive v \<or> batchEntersSyncOutput b"
  shows "m_frozenScreenRows (beforeBatch b v) = m_frozenScreenRows (captureScreenSnapshot v)"
    "m_frozenCursorRow (beforeBatch b v) = m_cursorRow (m_grid v)"
    "m_frozenCursorCol (beforeBatch b v) = m_cursorCol (m_grid v)"
  using assms
  by (auto simp: beforeBatch_def Let_def clearSelection_def captureScreenSnapshot_def setScrollbackInsertPaused_def
      cellAt_def lineAt_def)

lemma before_frame:
  "m_scrollOffset (beforeBatch b v) = m_scrollOffset v" "m_rows (m_grid (beforeBatch b v)) = m_rows (m_grid v)"
  "m_cols (m_grid (beforeBatch b v)) = m_cols (m_grid v)"
  by (simp_all add: beforeBatch_def Let_def clearSelection_def)

text \<open>A batch under synchronized output at the bottom of the view leaves what is shown to the snapshot.\<close>

lemma synchronized_batch:
  assumes "view_ok v" "m_scrollOffset v = 0" "m_syncOutputActive v \<or> batchEntersSyncOutput b"
    and "m_synchronizedOutput (m_grid (onVtBatch e b v))"
  defines "w \<equiv> onVtBatch e b v"
  shows "m_scrollOffset w = 0" "m_syncOutputActive w" "m_frozenScreenRows w = m_frozenScreenRows (beforeBatch b v)"
    "m_frozenCursorRow w = m_frozenCursorRow (beforeBatch b v)"
    "m_frozenCursorCol w = m_frozenCursorCol (beforeBatch b v)" "m_frozenScreenRows w \<noteq> []"
proof -
  let ?b = "beforeBatch b v"
  let ?f = "followPushed (m_scrollbackPushed (m_grid ?b)) (?b\<lparr>m_grid := applyBatch e b (m_grid ?b)\<rparr>)"
  let ?s = "noteSync (noteTitle ?f)"
  have fr: "m_frozenScreenRows ?b \<noteq> []"
    using before_frozen(1) [of v b] before_captures(1) [of v b, OF _ assms(3)]
      captured_ok [OF base_wf [OF ok_base [OF assms(1)]]] by (cases "m_frozenScreenRows v = []") simp_all
  have sync: "m_synchronizedOutput (applyBatch e b (m_grid ?b))" using assms(4) by (simp add: onVtBatch_grid)
  have off: "m_scrollOffset ?f = 0" using assms(2) by (simp add: followPushed_def Let_def before_frame)
  have kept: "m_frozenScreenRows ?s = m_frozenScreenRows ?b" "m_frozenCursorRow ?s = m_frozenCursorRow ?b"
      "m_frozenCursorCol ?s = m_frozenCursorCol ?b"
    using noteSync_frozen [of "noteTitle ?f"] sync by simp_all
  have "updateScrollBar ?s = ?s"
    using off fr kept(1) sync by (intro updateScrollBar_keep) (simp_all add: scrollbackSize_def)
  then have w: "w = noteExitCode ?s" by (simp add: w_def onVtBatch_def Let_def)
  have "m_syncOutputActive (noteExitCode u) = m_syncOutputActive u" for u
    by (simp add: noteExitCode_def Let_def)
  then show "m_scrollOffset w = 0" "m_syncOutputActive w" "m_frozenScreenRows w = m_frozenScreenRows ?b"
    "m_frozenCursorRow w = m_frozenCursorRow ?b" "m_frozenCursorCol w = m_frozenCursorCol ?b"
    "m_frozenScreenRows w \<noteq> []"
    using w off kept fr sync by simp_all
qed

text \<open>
  C16. Synchronized output is not torn: while the child holds it, or begins it in this batch, and
  still holds it at the end, no batch changes a cell of the screen or the cursor as shown; and
  however long the child holds it, when the timer fires a view at the bottom reads the live
  screen again.
\<close>
theorem synchronized_output_not_torn:
  assumes "view_ok v" "m_scrollOffset v = 0" "m_syncOutputActive v \<or> batchEntersSyncOutput b"
    and "m_synchronizedOutput (m_grid (onVtBatch e b v))"
  shows "(\<forall>row col. 0 \<le> row \<and> row < m_rows (m_grid v) \<and> 0 \<le> col \<and> col < m_cols (m_grid v) \<longrightarrow>
      viewCell (onVtBatch e b v) row col = viewCell v row col) \<and>
    effectiveCursorRow (onVtBatch e b v) = effectiveCursorRow v \<and>
    effectiveCursorCol (onVtBatch e b v) = effectiveCursorCol v \<and>
    m_frozenScreenRows (syncTimeout (onVtBatch e b v)) = []"
proof -
  let ?w = "onVtBatch e b v"
  note w = synchronized_batch [OF assms]
  have base: "grid_wf (m_grid (beforeBatch b v))" "frozen_ok (beforeBatch b v)"
    using base_before [OF ok_base [OF assms(1)], of b] by (simp_all add: view_base_def)
  have dims: "m_rows (m_grid ?w) = m_rows (m_grid v)" "m_cols (m_grid ?w) = m_cols (m_grid v)"
    using batch_ok [OF base(1), of e b] by (simp_all add: onVtBatch_grid before_frame)
  have shown: "viewCell ?w row col = vget (vget (m_frozenScreenRows (beforeBatch b v)) row) col"
    if "0 \<le> row" "row < m_rows (m_grid v)" "0 \<le> col" "col < m_cols (m_grid v)" for row col
    using that w(1,3,6) dims base(2)
    by (auto simp: viewCell_def cellAtGlobal_def Let_def frozen_ok_def vget_def vsize_def list_all_length before_frame)
  have "viewCell ?w row col = viewCell v row col"
    if c: "0 \<le> row" "row < m_rows (m_grid v)" "0 \<le> col" "col < m_cols (m_grid v)" for row col
  proof (cases "m_frozenScreenRows v = []")
    case True
    then show ?thesis
      using shown [OF c] before_captures(1) [OF True assms(3)] captured_cell [OF c] c assms(2)
      by (simp add: viewCell_def cellAtGlobal_def Let_def)
  next
    case False
    have "frozen_ok v" using assms(1) by (simp add: view_ok_def view_base_def)
    then show ?thesis
      using shown [OF c] before_frozen(1) [OF False] c assms(2) False
      by (auto simp: viewCell_def cellAtGlobal_def Let_def frozen_ok_def vget_def vsize_def list_all_length)
  qed
  moreover have "effectiveCursorRow ?w = effectiveCursorRow v" "effectiveCursorCol ?w = effectiveCursorCol v"
    using w before_frozen [of v b] before_captures [of v b, OF _ assms(3)]
    by (cases "m_frozenScreenRows v = []"; simp add: effectiveCursorRow_def effectiveCursorCol_def)+
  moreover have "m_frozenScreenRows (syncTimeout ?w) = []"
    using w(1,2) by (simp add: syncTimeout_def Let_def)
  ultimately show ?thesis by blast
qed

theorem synchronized_output_not_torn_witness:
  "viewCell (onVtBatch env0 (csiBatch CHR ''h'' 2026 ''?'') view0) 1 2 = viewCell view0 1 2"
proof -
  let ?b = "csiBatch CHR ''h'' 2026 ''?''"
  have s: "batchEntersSyncOutput ?b" by (simp add: batchEntersSyncOutput_def csiBatch_def)
  have g: "m_synchronizedOutput (m_grid (onVtBatch env0 ?b view0))"
    unfolding onVtBatch_grid csi_batch
    by (simp add: handleCsi_def Let_def csiCursor_def csiEdit_def csiModes_def setModes_def setMode_def)
  show ?thesis
    using synchronized_output_not_torn [OF view0_ok _ disjI2 [OF s] g]
    by (simp add: view0_def grid0_fields)
qed

text \<open>
  The snapshot the wheel takes before the first line moves does not survive a batch: while the
  offset is still zero, the batch takes it away at its end, so the race it is meant to close
  stays open.
\<close>
theorem wheel_snapshot_dropped:
  assumes "m_scrollOffset v = 0" "\<not> m_synchronizedOutput (m_grid (onVtBatch e b (wheelStarted True v)))"
  shows "m_frozenScreenRows (onVtBatch e b (wheelStarted True v)) = []"
proof -
  let ?v = "wheelStarted True v"
  let ?b = "beforeBatch b ?v"
  let ?f = "followPushed (m_scrollbackPushed (m_grid ?b)) (?b\<lparr>m_grid := applyBatch e b (m_grid ?b)\<rparr>)"
  let ?s = "noteSync (noteTitle ?f)"
  have "m_scrollOffset ?v = 0" using assms(1) by (simp add: wheelStarted_def)
  then have off: "m_scrollOffset ?f = 0" by (simp add: followPushed_def Let_def before_frame)
  have sync: "\<not> m_synchronizedOutput (applyBatch e b (m_grid ?b))" using assms(2) by (simp add: onVtBatch_grid)
  have "m_frozenScreenRows ?s = []"
    using off sync by (auto simp: noteSync_def Let_def)
  moreover have "m_scrollOffset ?s = 0" using off by simp
  ultimately have "m_frozenScreenRows (updateScrollBar ?s) = []"
    using sync by (simp add: updateScrollBar_eq Let_def scrollbackSize_def)
  then show ?thesis by (simp add: onVtBatch_def Let_def)
qed

lemma grid0_sync: "\<not> m_synchronizedOutput grid0"
  by (simp add: grid0_def TerminalGrid_def grid_members_def initTabStops_def Let_def)

lemma before_sync: "m_synchronizedOutput (m_grid (beforeBatch b v)) = m_synchronizedOutput (m_grid v)"
  by (simp add: beforeBatch_def Let_def clearSelection_def setScrollbackInsertPaused_def)

lemma started_sync: "m_synchronizedOutput (m_grid (wheelStarted u v)) = m_synchronizedOutput (m_grid v)"
  by (simp add: wheelStarted_def setScrollbackInsertPaused_def captureScreenSnapshot_def)

theorem wheel_snapshot_dropped_witness:
  "m_frozenScreenRows (onVtBatch env0 (csiBatch CHR ''C'' 1 []) (wheelStarted True view0)) = []"
proof (rule wheel_snapshot_dropped)
  show "\<not> m_synchronizedOutput (m_grid (onVtBatch env0 (csiBatch CHR ''C'' 1 []) (wheelStarted True view0)))"
    unfolding onVtBatch_grid
    by (simp add: csi_batch handleCsi_def csiCursor_def moveCursor_def setCursorPos_def Let_def bumpRevision_def before_sync started_sync)
      (simp add: view0_def grid0_sync)
qed (simp add: view0_def)

end
