(* ===== verification/TermText.thy ===== *)
theory TermText
  imports TermViewInv
begin

text \<open>
  The text of a line of \<open>TerminalWidget\<close> (\<open>src/src/terminalwidget.cpp\<close>): \<open>cellText\<close>,
  \<open>lineText\<close> with its fast path for history lines, the map \<open>lineColumns\<close> from text offsets to
  columns, and the accessible text with its carets and rectangles. A \<open>QString\<close> is its UTF-16
  units.
\<close>

section \<open>Units of a code point\<close>

text \<open>\<open>lineText\<close>'s \<open>put\<close>: the casts to \<open>char16_t\<close> keep the low 16 bits.\<close>

definition putCp :: "u32 \<Rightarrow> qstring" where
  "putCp cp =
     (if cp < 0x10000 then [ucast cp]
      else (let d = cp - 0x10000
            in [ucast (0xD800 + drop_bit 10 d), ucast (0xDC00 + (d AND 0x3FF))]))"

text \<open>\<open>QString::fromUcs4\<close> of one code point: what is no scalar value becomes U+FFFD.\<close>

definition scalarCp :: "u32 \<Rightarrow> bool" where
  "scalarCp cp \<longleftrightarrow> cp \<le> 0x10FFFF \<and> \<not> (0xD800 \<le> cp \<and> cp \<le> 0xDFFF)"

definition a11yPut :: "u32 \<Rightarrow> qstring" where
  "a11yPut cp = putCp (if scalarCp cp then cp else 0xFFFD)"

definition cellText :: "term_view \<Rightarrow> int \<Rightarrow> int \<Rightarrow> qstring" where
  "cellText v l c =
     (let cp = codepoint (cellAtGlobal v l c)
      in if cp = 0x20 \<or> cp = 0 then []
         else a11yPut cp @ concat (map a11yPut (case combiningAt v l c of None \<Rightarrow> [] | Some cs \<Rightarrow> cs)))"

section \<open>The text of a line\<close>

text \<open>The code points a cell contributes: an empty cell is a space, then the combining marks.\<close>

definition cellCps :: "term_view \<Rightarrow> int \<Rightarrow> int \<Rightarrow> u32 list" where
  "cellCps v l c =
     (let cp = codepoint (cellAtGlobal v l c)
      in (if cp = 0 then 0x20 else cp) # (case combiningAt v l c of None \<Rightarrow> [] | Some cs \<Rightarrow> cs))"

definition cellUnits :: "term_view \<Rightarrow> int \<Rightarrow> int \<Rightarrow> qstring" where
  "cellUnits v l c = concat (map putCp (cellCps v l c))"

definition columns :: "int \<Rightarrow> int list" where
  "columns n = [0 .. n - 1]"

definition lineTextCells :: "term_view \<Rightarrow> int \<Rightarrow> qstring" where
  "lineTextCells v l = concat (map (cellUnits v l) (columns (m_cols (m_grid v))))"

text \<open>
  The path for history: a buffer of the worst-case size, written through a pointer and cut to what
  was written. A write past the buffer is \<open>None\<close>.
\<close>

type_synonym text_buf = "qstring \<times> nat"

definition putUnit :: "u16 \<Rightarrow> text_buf \<Rightarrow> text_buf option" where
  "putUnit u b = (if snd b < length (fst b) then Some ((fst b)[snd b := u], snd b + 1) else None)"

fun putUnits :: "qstring \<Rightarrow> text_buf \<Rightarrow> text_buf option" where
  "putUnits [] b = Some b"
| "putUnits (u # us) b = Option.bind (putUnit u b) (putUnits us)"

fun putCps :: "u32 list \<Rightarrow> text_buf \<Rightarrow> text_buf option" where
  "putCps [] b = Some b"
| "putCps (cp # cps) b = Option.bind (putUnits (putCp cp) b) (putCps cps)"

definition historyCps :: "cell list \<Rightarrow> combining_map \<Rightarrow> int \<Rightarrow> int \<Rightarrow> u32 list" where
  "historyCps cs comb stored c =
     (let cp = (if c < stored then codepoint (vget cs c) else 0x20);
          cp = (if cp = 0 then 0x20 else cp)
      in cp # (if comb \<noteq> [] then (case map_of comb c of None \<Rightarrow> [] | Some ms \<Rightarrow> ms) else []))"

fun historyLoop :: "cell list \<Rightarrow> combining_map \<Rightarrow> int \<Rightarrow> int list \<Rightarrow> text_buf \<Rightarrow> text_buf option" where
  "historyLoop cs comb stored [] b = Some b"
| "historyLoop cs comb stored (c # r) b =
     Option.bind (putCps (historyCps cs comb stored c) b) (historyLoop cs comb stored r)"

definition historyCapacity :: "int \<Rightarrow> combining_map \<Rightarrow> int" where
  "historyCapacity cols comb = cols * 2 + sum_list (map (\<lambda>e. vsize (snd e) * 2) comb)"

definition historyText :: "term_view \<Rightarrow> int \<Rightarrow> qstring option" where
  "historyText v l =
     (let cols = m_cols (m_grid v);
          line = vget (m_scrollback (m_grid v)) l;
          stored = min cols (vsize (cells line));
          buf = replicate (nat (historyCapacity cols (combining line))) 0
      in map_option (\<lambda>(t, out). take out t)
           (historyLoop (cells line) (combining line) stored (columns cols) (buf, 0)))"

definition lineText :: "term_view \<Rightarrow> int \<Rightarrow> qstring option" where
  "lineText v l =
     (if 0 \<le> l \<and> l < scrollbackSize v then historyText v l else Some (lineTextCells v l))"

subsection \<open>The fast path\<close>

lemma putUnits_ok:
  "out + length us \<le> length t \<Longrightarrow>
   \<exists>t'. putUnits us (t, out) = Some (t', out + length us) \<and> length t' = length t \<and>
     take (out + length us) t' = take out t @ us"
proof (induction us arbitrary: t out)
  case (Cons u us)
  have "take (Suc out) (t[out := u]) = take out t @ [u]"
    using Cons.prems by (simp add: take_Suc_conv_app_nth)
  then show ?case
    using Cons.IH [of "Suc out" "t[out := u]"] Cons.prems by (auto simp: putUnit_def)
qed simp

lemma putUnits_append: "putUnits (a @ b) s = Option.bind (putUnits a s) (putUnits b)"
  by (induction a arbitrary: s) (simp_all add: bind_assoc split: bind_splits)

lemma putCps_units: "putCps cps = putUnits (concat (map putCp cps))"
proof (induction cps)
  case (Cons cp cps)
  show ?case by (rule ext) (simp add: Cons.IH putUnits_append)
qed (simp add: fun_eq_iff)

lemma historyLoop_units:
  "historyLoop cs comb stored ks =
   putUnits (concat (map (\<lambda>c. concat (map putCp (historyCps cs comb stored c))) ks))"
proof (induction ks)
  case (Cons k ks)
  show ?case by (rule ext) (simp add: Cons.IH putUnits_append putCps_units)
qed (simp add: fun_eq_iff)

lemma putCp_length: "length (putCp cp) \<le> 2"
  by (simp add: putCp_def Let_def)

lemma units_length: "length (concat (map putCp cps)) \<le> 2 * length cps"
  using putCp_length by (induction cps) (auto intro: le_trans add_mono)

lemma marks_bound:
  "distinct ks \<Longrightarrow>
   sum_list (map (\<lambda>c. length (case map_of comb c of None \<Rightarrow> [] | Some ms \<Rightarrow> ms)) ks) \<le>
   sum_list (map (\<lambda>e. length (snd e)) (comb :: combining_map))"
proof (induction comb arbitrary: ks)
  case (Cons e comb)
  let ?f = "\<lambda>m c. length (case map_of m c of None \<Rightarrow> [] | Some ms \<Rightarrow> ms)"
  have "sum_list (map (?f (e # comb)) ks) \<le> length (snd e) + sum_list (map (?f comb) ks)"
    using Cons.prems
  proof (induction ks)
    case (Cons k ks)
    show ?case
    proof (cases "k = fst e")
      case True
      then have "sum_list (map (?f (e # comb)) ks) = sum_list (map (?f comb) ks)"
        using Cons.prems by (intro arg_cong [where f = sum_list]) (auto split: prod.splits)
      moreover have "?f (e # comb) k = length (snd e)" using True by (cases e) simp
      ultimately show ?thesis by simp
    qed (use Cons in \<open>cases e; simp\<close>)
  qed simp
  then show ?case using Cons.IH [OF Cons.prems] by simp
qed simp

lemma history_fits:
  assumes "0 \<le> cols"
  shows "length (concat (map (\<lambda>c. concat (map putCp (historyCps cs comb stored c))) (columns cols)))
    \<le> nat (historyCapacity cols comb)"
proof -
  let ?m = "\<lambda>c. length (case map_of comb c of None \<Rightarrow> [] | Some ms \<Rightarrow> ms)"
  have "length (concat (map putCp (historyCps cs comb stored c))) \<le> 2 + 2 * ?m c" for c
  proof -
    have "length (historyCps cs comb stored c) \<le> 1 + ?m c" by (simp add: historyCps_def Let_def)
    then show ?thesis using units_length [of "historyCps cs comb stored c"] by linarith
  qed
  then have "length (concat (map (\<lambda>c. concat (map putCp (historyCps cs comb stored c))) ks))
      \<le> 2 * length ks + 2 * sum_list (map ?m ks)" for ks
  proof (induction ks)
    case (Cons k ks)
    show ?case using Cons.prems [of k] Cons.IH [OF Cons.prems] by simp
  qed simp
  from this [of "columns cols"] have "length (concat (map (\<lambda>c. concat (map putCp (historyCps cs comb stored c))) (columns cols)))
      \<le> 2 * length (columns cols) + 2 * sum_list (map (\<lambda>e. length (snd e)) comb)"
    using marks_bound [of "columns cols" comb] by (simp add: columns_def)
  moreover have "int (sum_list (map (\<lambda>e. length (snd e)) comb)) * 2 = sum_list (map (\<lambda>e. vsize (snd e) * 2) comb)"
    by (induction comb) (simp_all add: vsize_def algebra_simps)
  ultimately show ?thesis using assms by (simp add: historyCapacity_def columns_def)
qed

lemma historyCps_cell:
  assumes "0 \<le> l" "l < scrollbackSize v" "0 \<le> c" "c < m_cols (m_grid v)"
  shows "historyCps (cells (vget (m_scrollback (m_grid v)) l)) (combining (vget (m_scrollback (m_grid v)) l))
      (min (m_cols (m_grid v)) (vsize (cells (vget (m_scrollback (m_grid v)) l)))) c = cellCps v l c"
  using assms
  by (auto simp: historyCps_def cellCps_def cellAtGlobal_def combiningAt_def Let_def s_blankCell_def)

lemma lineText_cells:
  assumes "0 \<le> m_cols (m_grid v)"
  shows "lineText v l = Some (lineTextCells v l)"
proof (cases "0 \<le> l \<and> l < scrollbackSize v")
  case True
  let ?line = "vget (m_scrollback (m_grid v)) l" and ?n = "m_cols (m_grid v)"
  let ?us = "concat (map (\<lambda>c. concat (map putCp (historyCps (cells ?line) (combining ?line)
    (min ?n (vsize (cells ?line))) c))) (columns ?n))"
  have "?us = lineTextCells v l"
    unfolding lineTextCells_def cellUnits_def
    by (rule arg_cong [where f = concat], rule map_cong [OF refl])
      (use True in \<open>simp add: columns_def historyCps_cell\<close>)
  moreover have "\<exists>t. historyLoop (cells ?line) (combining ?line) (min ?n (vsize (cells ?line))) (columns ?n)
      (replicate (nat (historyCapacity ?n (combining ?line))) 0, 0) = Some (t, length ?us) \<and> take (length ?us) t = ?us"
    using putUnits_ok [of 0 ?us "replicate (nat (historyCapacity ?n (combining ?line))) 0"]
      history_fits [OF assms]
    unfolding historyLoop_units by auto
  ultimately show ?thesis using True by (auto simp: lineText_def historyText_def Let_def)
qed (auto simp: lineText_def)

section \<open>From text to columns\<close>

record line_columns =
  lc_start :: "int list"
  lc_last :: "int list"

definition unitsOf :: "u32 \<Rightarrow> nat" where
  "unitsOf cp = (if cp \<ge> 0x10000 then 2 else 1)"

definition unitCount :: "term_view \<Rightarrow> int \<Rightarrow> int \<Rightarrow> nat" where
  "unitCount v l c = sum_list (map unitsOf (cellCps v l c))"

text \<open>The last cell of the glyph of a cell: a wide character covers its continuation.\<close>

definition glyphLast :: "term_view \<Rightarrow> int \<Rightarrow> int \<Rightarrow> int" where
  "glyphLast v l c =
     (if isWideChar (cellAtGlobal v l c) \<and> c + 1 < m_cols (m_grid v) \<and>
         isWideCont (cellAtGlobal v l (c + 1)) then c + 1 else c)"

definition lineColumns :: "term_view \<Rightarrow> int \<Rightarrow> line_columns" where
  "lineColumns v l =
     (let cols = columns (m_cols (m_grid v))
      in \<lparr>lc_start = concat (map (\<lambda>c. replicate (unitCount v l c) c) cols) @ [m_cols (m_grid v)],
          lc_last = concat (map (\<lambda>c. replicate (unitCount v l c) (glyphLast v l c)) cols)\<rparr>)"

definition columnAt :: "line_columns \<Rightarrow> int \<Rightarrow> int" where
  "columnAt lc off =
     (if lc_start lc = [] then 0 else vget (lc_start lc) (clamp off 0 (vsize (lc_start lc) - 1)))"

definition lastColumnBefore :: "line_columns \<Rightarrow> int \<Rightarrow> int" where
  "lastColumnBefore lc e =
     (if lc_last lc = [] then 0
      else if e \<le> 0 then columnAt lc 0 - 1
      else vget (lc_last lc) (min e (vsize (lc_last lc)) - 1))"

text \<open>\<open>std::lower_bound\<close> on a sorted range.\<close>

definition offsetAt :: "line_columns \<Rightarrow> int \<Rightarrow> int" where
  "offsetAt lc col = vsize (takeWhile (\<lambda>x. x < col) (lc_start lc))"

subsection \<open>Offsets and columns agree\<close>

lemma unitCount_units: "unitCount v l c = length (cellUnits v l c)"
proof -
  have "unitsOf = length \<circ> putCp" by (auto simp: fun_eq_iff unitsOf_def putCp_def Let_def not_le)
  then show ?thesis by (simp add: unitCount_def cellUnits_def length_concat)
qed

lemma unitCount_pos: "0 < unitCount v l c"
  by (simp add: unitCount_def cellCps_def Let_def unitsOf_def)

lemma lc_lengths:
  "length (lc_last (lineColumns v l)) = length (lineTextCells v l)"
  "length (lc_start (lineColumns v l)) = length (lineTextCells v l) + 1"
  by (simp_all add: lineColumns_def Let_def lineTextCells_def length_concat o_def unitCount_units)

lemma columns_split: "0 \<le> c \<Longrightarrow> c \<le> n \<Longrightarrow> columns n = columns c @ [c .. n - 1]"
  by (cases "c = n") (simp_all add: columns_def upto_split1 [of 0 c "n - 1"])

text \<open>The units before a column.\<close>

definition unitsBefore :: "term_view \<Rightarrow> int \<Rightarrow> int \<Rightarrow> qstring" where
  "unitsBefore v l c = concat (map (cellUnits v l) (columns c))"

lemma offsetAt_units:
  assumes "0 \<le> c" "c \<le> m_cols (m_grid v)"
  shows "offsetAt (lineColumns v l) c = vsize (unitsBefore v l c)"
proof -
  let ?n = "m_cols (m_grid v)" and ?r = "\<lambda>c. replicate (unitCount v l c) c"
  let ?a = "concat (map ?r (columns c))" and ?b = "concat (map ?r [c .. ?n - 1]) @ [?n]"
  have s: "lc_start (lineColumns v l) = ?a @ ?b"
    using columns_split [OF assms] by (simp add: lineColumns_def Let_def)
  have "takeWhile (\<lambda>x. x < c) (?a @ ?b) = ?a @ takeWhile (\<lambda>x. x < c) ?b"
    by (rule takeWhile_append2) (auto simp: columns_def)
  moreover have "takeWhile (\<lambda>x. x < c) ?b = []"
    using assms(2) unitCount_pos [of v l c]
    by (cases "c = ?n") (auto simp: takeWhile_eq_Nil_iff upto_rec1 hd_append)
  ultimately show ?thesis
    by (simp add: offsetAt_def s vsize_def unitsBefore_def length_concat o_def unitCount_units)
qed


lemma columns_Suc: "0 \<le> c \<Longrightarrow> columns (c + 1) = columns c @ [c]"
  by (simp add: columns_def upto_rec2)

lemma units_split:
  assumes "0 \<le> c" "c < m_cols (m_grid v)"
  shows "lineTextCells v l = unitsBefore v l c @ cellUnits v l c @ concat (map (cellUnits v l) [c + 1 .. m_cols (m_grid v) - 1])"
  using columns_split [of "c + 1" "m_cols (m_grid v)"] assms
  by (simp add: lineTextCells_def unitsBefore_def columns_Suc)

lemma unitsBefore_Suc: "0 \<le> c \<Longrightarrow> unitsBefore v l (c + 1) = unitsBefore v l c @ cellUnits v l c"
  by (simp add: unitsBefore_def columns_Suc)

lemma unitsBefore_all: "unitsBefore v l (m_cols (m_grid v)) = lineTextCells v l"
  by (simp add: unitsBefore_def lineTextCells_def)

text \<open>The column of a unit.\<close>

lemma unit_column:
  assumes "i < length (unitsBefore v l n)" "0 \<le> n"
  obtains c where "0 \<le> c" "c < n" "length (unitsBefore v l c) \<le> i" "i < length (unitsBefore v l (c + 1))"
  using assms
proof (induction "nat n" arbitrary: n thesis)
  case 0
  then show ?case by (simp add: unitsBefore_def columns_def)
next
  case (Suc k)
  then have n: "0 \<le> n - 1" "n - 1 + 1 = n" "k = nat (n - 1)" by simp_all
  show ?case
  proof (cases "i < length (unitsBefore v l (n - 1))")
    case True
    show ?thesis
      by (rule Suc.hyps(1) [OF n(3) _ True n(1)]) (use Suc.prems(1) in force)
  next
    case False
    show ?thesis by (rule Suc.prems(1) [of "n - 1"]) (use False Suc.prems(2) n in simp_all)
  qed
qed

lemma replicates_split:
  assumes "0 \<le> c" "c < m_cols (m_grid v)"
  shows "concat (map (\<lambda>c. replicate (unitCount v l c) (h c)) (columns (m_cols (m_grid v)))) =
    concat (map (\<lambda>c. replicate (unitCount v l c) (h c)) (columns c)) @ replicate (unitCount v l c) (h c) @
    concat (map (\<lambda>c. replicate (unitCount v l c) (h c)) [c + 1 .. m_cols (m_grid v) - 1])"
  using columns_split [of "c + 1" "m_cols (m_grid v)"] assms by (simp add: columns_Suc)

lemma replicates_length:
  "length (concat (map (\<lambda>c. replicate (unitCount v l c) (h c)) (columns c))) = length (unitsBefore v l c)"
  by (simp add: unitsBefore_def length_concat o_def unitCount_units)

lemma replicates_nth:
  assumes "0 \<le> c" "c < m_cols (m_grid v)" "length (unitsBefore v l c) \<le> i" "i < length (unitsBefore v l (c + 1))"
  shows "concat (map (\<lambda>c. replicate (unitCount v l c) (h c)) (columns (m_cols (m_grid v)))) ! i = h c"
proof -
  have "i - length (unitsBefore v l c) < unitCount v l c"
    using assms by (simp add: unitsBefore_Suc unitCount_units)
  then show ?thesis
    unfolding replicates_split [OF assms(1,2)] nth_append replicates_length using assms(3) by simp
qed

lemma unit_cell:
  assumes "0 \<le> c" "c < m_cols (m_grid v)" "length (unitsBefore v l c) \<le> i" "i < length (unitsBefore v l (c + 1))"
  shows "lc_start (lineColumns v l) ! i = c" "lc_last (lineColumns v l) ! i = glyphLast v l c"
proof -
  have "length (unitsBefore v l (c + 1)) \<le> length (lineTextCells v l)"
    using units_split [OF assms(1,2), of l] unitsBefore_Suc [OF assms(1), of v l] by simp
  then have "i < length (concat (map (\<lambda>c. replicate (unitCount v l c) c) (columns (m_cols (m_grid v)))))"
    using assms(4) by (simp add: replicates_length unitsBefore_all)
  then show "lc_start (lineColumns v l) ! i = c"
    using replicates_nth [OF assms, where h = "\<lambda>c. c"] by (simp add: lineColumns_def Let_def nth_append)
  show "lc_last (lineColumns v l) ! i = glyphLast v l c"
    using replicates_nth [OF assms, where h = "glyphLast v l"] by (simp add: lineColumns_def Let_def)
qed

lemma columnAt_offsetAt:
  assumes "0 \<le> c" "c < m_cols (m_grid v)"
  shows "columnAt (lineColumns v l) (offsetAt (lineColumns v l) c) = c"
proof -
  have b: "length (unitsBefore v l c) < length (unitsBefore v l (c + 1))"
    using unitCount_pos [of v l c] by (simp add: unitsBefore_Suc [OF assms(1)] unitCount_units)
  have "length (unitsBefore v l c) < length (lineTextCells v l)"
    using unitCount_pos [of v l c] by (simp add: units_split [OF assms] unitCount_units)
  then show ?thesis
    using unit_cell(1) [OF assms le_refl b] lc_lengths(2) [of v l] assms
    by (auto simp: columnAt_def offsetAt_units clamp_def vsize_def vget_def)
qed

lemma unitsBefore_mono:
  assumes "0 \<le> a" "a \<le> b"
  shows "length (unitsBefore v l a) \<le> length (unitsBefore v l b)"
  using columns_split [OF assms] by (simp add: unitsBefore_def)

lemma column_le:
  assumes "0 \<le> c" "0 \<le> d" "length (unitsBefore v l c) \<le> i" "i \<le> j" "j < length (unitsBefore v l (d + 1))"
  shows "c \<le> d"
proof (rule ccontr)
  assume "\<not> c \<le> d"
  then have "length (unitsBefore v l (d + 1)) \<le> length (unitsBefore v l c)"
    using assms(2) by (intro unitsBefore_mono) simp_all
  then show False using assms(3-5) by simp
qed

text \<open>A span of the text lies on the cells from the column of its start to the last one before its end.\<close>

lemma span_columns:
  assumes "0 \<le> s" "s < e" "e \<le> vsize (lineTextCells v l)" "0 \<le> m_cols (m_grid v)"
  defines "lc \<equiv> lineColumns v l"
  shows "0 \<le> columnAt lc s" "columnAt lc s \<le> lastColumnBefore lc e" "lastColumnBefore lc e < m_cols (m_grid v)"
    "s \<le> k \<Longrightarrow> k < e \<Longrightarrow> columnAt lc s \<le> columnAt lc k \<and> columnAt lc k \<le> lastColumnBefore lc e"
proof -
  let ?n = "m_cols (m_grid v)"
  have all: "length (unitsBefore v l ?n) = length (lineTextCells v l)" by (simp add: unitsBefore_all)
  have col: "\<exists>c. 0 \<le> c \<and> c < ?n \<and> length (unitsBefore v l c) \<le> nat i \<and> nat i < length (unitsBefore v l (c + 1)) \<and>
      columnAt lc i = c \<and> vget (lc_last lc) i = glyphLast v l c" if "0 \<le> i" "i < vsize (lineTextCells v l)" for i
  proof -
    have "nat i < length (unitsBefore v l ?n)" using that by (simp add: all vsize_def nat_less_iff)
    then obtain c where c: "0 \<le> c" "c < ?n" "length (unitsBefore v l c) \<le> nat i" "nat i < length (unitsBefore v l (c + 1))"
      by (rule unit_column) (use assms(4) in auto)
    then show ?thesis
      using unit_cell [OF c] that lc_lengths(2) [of v l]
      by (auto simp: lc_def columnAt_def clamp_def vget_def vsize_def)
  qed
  have last: "lastColumnBefore lc e = vget (lc_last lc) (e - 1)"
    using assms lc_lengths(1) [of v l] by (auto simp: lastColumnBefore_def lc_def vsize_def min_def)
  obtain d where d: "0 \<le> d" "d < ?n" "nat (e - 1) < length (unitsBefore v l (d + 1))"
      "vget (lc_last lc) (e - 1) = glyphLast v l d" using col [of "e - 1"] assms by auto
  have g: "d \<le> glyphLast v l d" "glyphLast v l d < ?n" using d(2) by (simp_all add: glyphLast_def)
  obtain c where c: "0 \<le> c" "length (unitsBefore v l c) \<le> nat s" "columnAt lc s = c" "nat s < length (unitsBefore v l (c + 1))"
    using col [of s] assms by auto
  have "c \<le> d" by (rule column_le [OF c(1) d(1) c(2) _ d(3)]) (use assms in simp)
  then show "0 \<le> columnAt lc s" "columnAt lc s \<le> lastColumnBefore lc e" "lastColumnBefore lc e < ?n"
    using c g d(4) last by simp_all
  assume k: "s \<le> k" "k < e"
  obtain a where a: "0 \<le> a" "length (unitsBefore v l a) \<le> nat k" "nat k < length (unitsBefore v l (a + 1))" "columnAt lc k = a"
    using col [of k] k assms by auto
  have "c \<le> a" by (rule column_le [OF c(1) a(1) c(2) _ a(3)]) (use k in simp)
  moreover have "a \<le> d" by (rule column_le [OF a(1) d(1) a(2) _ d(3)]) (use k assms in simp)
  ultimately show "columnAt lc s \<le> columnAt lc k \<and> columnAt lc k \<le> lastColumnBefore lc e"
    using a(4) c(3) d(4) g(1) last by simp
qed


section \<open>The accessible text\<close>

definition firstVisibleGlobalLine :: "term_view \<Rightarrow> int" where
  "firstVisibleGlobalLine v = scrollbackSize v - m_scrollOffset v"

text \<open>Whether a cell shows: neither empty nor a space, or with a combining mark.\<close>

definition nonBlankAt :: "term_view \<Rightarrow> int \<Rightarrow> int \<Rightarrow> bool" where
  "nonBlankAt v l c =
     (let cp = codepoint (cellAtGlobal v l c)
      in \<not> (cp = 0 \<or> cp = 0x20) \<or> (case combiningAt v l c of None \<Rightarrow> False | Some ms \<Rightarrow> ms \<noteq> []))"

definition a11yLastNonBlankCol :: "term_view \<Rightarrow> int \<Rightarrow> int" where
  "a11yLastNonBlankCol v l =
     (case find (nonBlankAt v l) (rev (columns (m_cols (m_grid v)))) of None \<Rightarrow> -1 | Some c \<Rightarrow> c)"

definition a11yCell :: "term_view \<Rightarrow> int \<Rightarrow> int \<Rightarrow> qstring" where
  "a11yCell v l c = concat (map a11yPut (cellCps v l c))"

definition a11yComposeCols :: "term_view \<Rightarrow> int \<Rightarrow> int \<Rightarrow> int \<Rightarrow> qstring" where
  "a11yComposeCols v l b e = concat (map (a11yCell v l) [b .. e - 1])"

definition dropEmptyTail :: "qstring list \<Rightarrow> qstring list" where
  "dropEmptyTail ls = rev (dropWhile (\<lambda>l. l = []) (rev ls))"

definition a11yLine :: "term_view \<Rightarrow> int \<Rightarrow> qstring" where
  "a11yLine v l =
     (let last = a11yLastNonBlankCol v l in if last < 0 then [] else a11yComposeCols v l 0 (last + 1))"

definition a11yViewportLines :: "term_view \<Rightarrow> qstring list" where
  "a11yViewportLines v =
     dropEmptyTail (map (\<lambda>r. a11yLine v (firstVisibleGlobalLine v + r)) (columns (m_rows (m_grid v))))"

text \<open>\<open>QStringList::join('\n')\<close>.\<close>

fun joinLines :: "qstring list \<Rightarrow> qstring" where
  "joinLines [] = []"
| "joinLines [l] = l"
| "joinLines (l # ls) = l @ 0x0A # joinLines ls"

definition accessibleText :: "term_view \<Rightarrow> qstring" where
  "accessibleText v = joinLines (a11yViewportLines v)"

text \<open>The units of the first lines, each with its line feed.\<close>

definition linesLen :: "qstring list \<Rightarrow> int" where
  "linesLen ls = sum_list (map (\<lambda>l. vsize l + 1) ls)"

definition accessibleCaretOffset :: "term_view \<Rightarrow> int" where
  "accessibleCaretOffset v =
     (let lines = a11yViewportLines v;
          total = sum_list (map vsize lines) + (if lines = [] then 0 else vsize lines - 1);
          caretRow = effectiveCursorRow v + m_scrollOffset v
      in if caretRow < 0 \<or> caretRow \<ge> vsize lines then total
         else
           (let l = firstVisibleGlobalLine v + caretRow;
                last = a11yLastNonBlankCol v l;
                caretCol = effectiveCursorCol v;
                caretCol = (if caretCol > last + 1 then last + 1 else caretCol);
                caretCol = (if caretCol < 0 then 0 else caretCol)
            in linesLen (take (nat caretRow) lines) + vsize (a11yComposeCols v l 0 caretCol)))"

text \<open>The cell, in pixels from the corner, of a unit of the accessible text.\<close>

record q_rect =
  qr_x :: int
  qr_y :: int
  qr_width :: int
  qr_height :: int

fun cellOfUnit :: "term_view \<Rightarrow> int \<Rightarrow> int \<Rightarrow> int list \<Rightarrow> int \<Rightarrow> int option" where
  "cellOfUnit v l inLine [] used = None"
| "cellOfUnit v l inLine (c # cs) used =
     (let clen = vsize (a11yComposeCols v l c (c + 1))
      in if inLine < used + clen then Some c else cellOfUnit v l inLine cs (used + clen))"

fun rectLoop :: "cell_metrics \<Rightarrow> term_view \<Rightarrow> int \<Rightarrow> qstring list \<Rightarrow> int \<Rightarrow> int \<Rightarrow> q_rect option" where
  "rectLoop cm v off [] i acc = None"
| "rectLoop cm v off (l # ls) i acc =
     (if off \<ge> acc \<and> off < acc + vsize l then
        (case cellOfUnit v (firstVisibleGlobalLine v + i) (off - acc) (columns (m_cols (m_grid v))) 0 of
           Some c \<Rightarrow> Some \<lparr>qr_x = cm_padding cm + c * cm_width cm, qr_y = cm_padding cm + i * cm_height cm,
                       qr_width = cm_width cm, qr_height = cm_height cm\<rparr>
         | None \<Rightarrow> None)
      else if ls \<noteq> [] \<and> off = acc + vsize l then None
      else rectLoop cm v off ls (i + 1) (acc + vsize l + (if ls \<noteq> [] then 1 else 0)))"

definition accessibleRectForOffset :: "cell_metrics \<Rightarrow> term_view \<Rightarrow> int \<Rightarrow> q_rect option" where
  "accessibleRectForOffset cm v off =
     (if off < 0 \<or> cm_width cm \<le> 0 \<or> cm_height cm \<le> 0 then None
      else rectLoop cm v off (a11yViewportLines v) 0 0)"

definition accessibleOffsetAt :: "cell_metrics \<Rightarrow> term_view \<Rightarrow> int \<Rightarrow> int \<Rightarrow> int" where
  "accessibleOffsetAt cm v x y =
     (if cm_width cm \<le> 0 \<or> cm_height cm \<le> 0 then -1
      else if x < cm_padding cm \<or> y < cm_padding cm then -1
      else
        (let col = cdiv (x - cm_padding cm) (cm_width cm);
             row = cdiv (y - cm_padding cm) (cm_height cm);
             lines = a11yViewportLines v
         in if row < 0 \<or> row \<ge> vsize lines then -1
            else if col < 0 \<or> col \<ge> m_cols (m_grid v) then -1
            else
              (let prefix = vsize (a11yComposeCols v (firstVisibleGlobalLine v + row) 0 col)
               in if prefix \<ge> vsize (vget lines row) then -1
                  else linesLen (take (nat row) lines) + prefix)))"


subsection \<open>Offsets and rectangles\<close>

lemma vsize_simps [simp]: "vsize [] = 0" "vsize (x # xs) = vsize xs + 1" "0 \<le> vsize xs"
  "vsize (xs @ ys) = vsize xs + vsize ys"
  by (simp_all add: vsize_def)

lemma linesLen_simps [simp]: "linesLen [] = 0" "linesLen (l # ls) = vsize l + 1 + linesLen ls"
  by (simp_all add: linesLen_def)

lemma linesLen_nonneg [simp]: "0 \<le> linesLen ls"
  by (induction ls) simp_all

abbreviation prefixLen :: "term_view \<Rightarrow> int \<Rightarrow> int \<Rightarrow> int" where
  "prefixLen v l c \<equiv> vsize (a11yComposeCols v l 0 c)"

lemma a11yPut_pos: "a11yPut cp \<noteq> []"
  by (simp add: a11yPut_def putCp_def Let_def)

lemma compose_Suc: "b \<le> c \<Longrightarrow> a11yComposeCols v l b (c + 1) = a11yComposeCols v l b c @ a11yCell v l c"
  by (simp add: a11yComposeCols_def upto_rec2)

lemma compose_one: "a11yComposeCols v l c (c + 1) = a11yCell v l c"
  by (simp add: a11yComposeCols_def)

lemma a11yCell_pos: "0 < vsize (a11yCell v l c)"
proof -
  have "a11yCell v l c \<noteq> []" using a11yPut_pos by (simp add: a11yCell_def cellCps_def Let_def)
  then show ?thesis by (simp add: vsize_def)
qed

lemma prefixLen_Suc: "0 \<le> c \<Longrightarrow> prefixLen v l (c + 1) = prefixLen v l c + vsize (a11yCell v l c)"
  by (simp add: compose_Suc)

lemma prefixLen_mono:
  assumes "0 \<le> a" "a \<le> b"
  shows "prefixLen v l a \<le> prefixLen v l b"
proof -
  have "a11yComposeCols v l 0 b = a11yComposeCols v l 0 a @ a11yComposeCols v l a b"
    using columns_split [OF assms] by (simp add: a11yComposeCols_def columns_def)
  then show ?thesis by simp
qed

lemma prefixLen_unique:
  assumes "0 \<le> a" "0 \<le> b" "prefixLen v l a \<le> x" "x < prefixLen v l (a + 1)" "prefixLen v l b \<le> x" "x < prefixLen v l (b + 1)"
  shows "a = b"
  using prefixLen_mono [of "a + 1" b v l] prefixLen_mono [of "b + 1" a v l] assms by linarith

lemma cellOfUnit_iff:
  assumes "0 \<le> b" "prefixLen v l b \<le> x"
  shows "cellOfUnit v l x [b .. n - 1] (prefixLen v l b) = Some c \<longleftrightarrow>
    b \<le> c \<and> c < n \<and> prefixLen v l c \<le> x \<and> x < prefixLen v l (c + 1)"
  using assms
proof (induction "nat (n - b)" arbitrary: b)
  case 0
  then show ?case by simp
next
  case (Suc k)
  have up: "[b .. n - 1] = b # [b + 1 .. n - 1]" using Suc.hyps(2) by (simp add: upto_rec1)
  have p: "prefixLen v l (b + 1) = prefixLen v l b + vsize (a11yCell v l b)" by (rule prefixLen_Suc [OF Suc.prems(1)])
  show ?case
  proof (cases "x < prefixLen v l (b + 1)")
    case True
    have "c = b" if "b \<le> c" "prefixLen v l c \<le> x"
      using prefixLen_mono [of "b + 1" c v l] that True Suc.prems by linarith
    then show ?thesis using True Suc.prems Suc.hyps(2) up p by (auto simp: compose_one)
  next
    case False
    have lhs: "cellOfUnit v l x [b .. n - 1] (prefixLen v l b) = cellOfUnit v l x [b + 1 .. n - 1] (prefixLen v l (b + 1))"
      using False unfolding up p by (simp add: compose_one)
    have ih: "cellOfUnit v l x [b + 1 .. n - 1] (prefixLen v l (b + 1)) = Some c \<longleftrightarrow>
        b + 1 \<le> c \<and> c < n \<and> prefixLen v l c \<le> x \<and> x < prefixLen v l (c + 1)"
      by (rule Suc.hyps(1)) (use False Suc.hyps(2) Suc.prems(1) in simp_all)
    show ?thesis unfolding lhs ih by (cases "c = b") (use False in auto)
  qed
qed

lemma cellOfUnit_columns:
  "0 \<le> x \<Longrightarrow> cellOfUnit v l x (columns n) 0 = Some c \<longleftrightarrow> 0 \<le> c \<and> c < n \<and> prefixLen v l c \<le> x \<and> x < prefixLen v l (c + 1)"
  using cellOfUnit_iff [of 0 v l x n c] by (simp add: columns_def a11yComposeCols_def)

definition cellRect :: "cell_metrics \<Rightarrow> int \<Rightarrow> int \<Rightarrow> q_rect" where
  "cellRect cm r c = \<lparr>qr_x = cm_padding cm + c * cm_width cm, qr_y = cm_padding cm + r * cm_height cm,
     qr_width = cm_width cm, qr_height = cm_height cm\<rparr>"

text \<open>The line and cell of an offset.\<close>

definition rectAt :: "cell_metrics \<Rightarrow> term_view \<Rightarrow> int \<Rightarrow> qstring list \<Rightarrow> int \<Rightarrow> int \<Rightarrow> nat \<Rightarrow> q_rect \<Rightarrow> bool" where
  "rectAt cm v off ls i acc k rect \<longleftrightarrow>
     k < length ls \<and> acc + linesLen (take k ls) \<le> off \<and> off < acc + linesLen (take k ls) + vsize (ls ! k) \<and>
     (\<exists>c. cellOfUnit v (firstVisibleGlobalLine v + (i + int k)) (off - (acc + linesLen (take k ls)))
        (columns (m_cols (m_grid v))) 0 = Some c \<and> rect = cellRect cm (i + int k) c)"

lemma rectAt_Suc: "rectAt cm v off (l # ls) i acc (Suc k) rect \<longleftrightarrow> rectAt cm v off ls (i + 1) (acc + vsize l + 1) k rect"
  by (simp add: rectAt_def algebra_simps)

lemma rectAt_0: "rectAt cm v off (l # ls) i acc 0 rect \<longleftrightarrow> acc \<le> off \<and> off < acc + vsize l \<and>
    (\<exists>c. cellOfUnit v (firstVisibleGlobalLine v + i) (off - acc) (columns (m_cols (m_grid v))) 0 = Some c \<and>
      rect = cellRect cm i c)"
  by (simp add: rectAt_def)

lemma rectAt_late: "rectAt cm v off ls i acc k rect \<Longrightarrow> acc \<le> off"
  using linesLen_nonneg [of "take k ls"] unfolding rectAt_def by linarith

lemma rectLoop_iff: "rectLoop cm v off ls i acc = Some rect \<longleftrightarrow> (\<exists>k. rectAt cm v off ls i acc k rect)"
proof (induction ls arbitrary: i acc)
  case Nil
  then show ?case by (simp add: rectAt_def)
next
  case (Cons l ls)
  let ?later = "\<exists>k. rectAt cm v off ls (i + 1) (acc + vsize l + 1) k rect"
  have split: "(\<exists>k. rectAt cm v off (l # ls) i acc k rect) \<longleftrightarrow> rectAt cm v off (l # ls) i acc 0 rect \<or> ?later"
    by (metis not0_implies_Suc rectAt_Suc)
  have late: "\<not> ?later" if "off \<le> acc + vsize l" using that by (auto dest!: rectAt_late)
  consider "acc \<le> off \<and> off < acc + vsize l" | "off = acc + vsize l" "ls \<noteq> []"
    | "\<not> (acc \<le> off \<and> off < acc + vsize l)" "off \<noteq> acc + vsize l" "ls \<noteq> []"
    | "\<not> (acc \<le> off \<and> off < acc + vsize l)" "ls = []" by blast
  then show ?case
  proof cases
    case 1
    then have "\<not> ?later" by (intro late) simp
    moreover have "rectLoop cm v off (l # ls) i acc = Some rect \<longleftrightarrow> rectAt cm v off (l # ls) i acc 0 rect"
      using 1 by (auto simp: rectAt_0 cellRect_def split: option.splits)
    ultimately show ?thesis unfolding split by blast
  next
    case 2
    then have "\<not> ?later" by (intro late) simp
    then show ?thesis unfolding split using 2 by (simp add: rectAt_0)
  next
    case 3
    then have "rectLoop cm v off (l # ls) i acc = rectLoop cm v off ls (i + 1) (acc + vsize l + 1)" by (auto simp: add.assoc)
    then show ?thesis unfolding split using 3(1) Cons.IH by (auto simp: rectAt_0)
  next
    case 4
    then have "\<not> ?later" by (simp add: rectAt_def)
    then show ?thesis unfolding split using 4 by (auto simp: rectAt_0)
  qed
qed

subsection \<open>The lines of the view\<close>

lemma viewport_prefix:
  obtains n where "n \<le> nat (m_rows (m_grid v))"
    "a11yViewportLines v = map (\<lambda>r. a11yLine v (firstVisibleGlobalLine v + r)) (columns (int n))"
proof -
  let ?f = "\<lambda>r. a11yLine v (firstVisibleGlobalLine v + r)"
  let ?ls = "map ?f (columns (m_rows (m_grid v)))"
  define n where "n = length (dropEmptyTail ?ls)"
  have "rev ?ls = takeWhile (\<lambda>l. l = []) (rev ?ls) @ dropWhile (\<lambda>l. l = []) (rev ?ls)" by simp
  then have e: "?ls = dropEmptyTail ?ls @ rev (takeWhile (\<lambda>l. l = []) (rev ?ls))"
    unfolding dropEmptyTail_def by (metis rev_append rev_rev_ident)
  then have t: "dropEmptyTail ?ls = take n ?ls" unfolding n_def by (metis append_eq_conv_conj)
  have n: "n \<le> nat (m_rows (m_grid v))" using arg_cong [OF e, of length] unfolding n_def by (simp add: columns_def)
  have "columns (m_rows (m_grid v)) = columns (int n) @ [int n .. m_rows (m_grid v) - 1]" if "0 < n"
  proof -
    have "int n \<le> m_rows (m_grid v)" using n that by arith
    then show ?thesis using columns_split [of "int n" "m_rows (m_grid v)"] by simp
  qed
  then have "take n (columns (m_rows (m_grid v))) = columns (int n)"
    by (cases "n = 0") (simp_all add: columns_def)
  then show thesis by (intro that [OF n]) (simp add: a11yViewportLines_def t take_map)
qed

lemma viewport_line:
  assumes "k < length (a11yViewportLines v)"
  shows "a11yViewportLines v ! k = a11yLine v (firstVisibleGlobalLine v + int k)"
proof -
  obtain n where "a11yViewportLines v = map (\<lambda>r. a11yLine v (firstVisibleGlobalLine v + r)) (columns (int n))"
    by (rule viewport_prefix)
  then show ?thesis using assms by (simp add: columns_def)
qed

lemma find_mem: "find P xs = Some x \<Longrightarrow> x \<in> set xs \<and> P x"
  by (induction xs) (auto split: if_splits)

lemma last_nonblank: "-1 \<le> a11yLastNonBlankCol v l" "0 \<le> m_cols (m_grid v) \<Longrightarrow> a11yLastNonBlankCol v l < m_cols (m_grid v)"
  by (auto simp: a11yLastNonBlankCol_def columns_def split: option.splits dest!: find_mem)

lemma a11yLine_prefix: "a11yLine v l = a11yComposeCols v l 0 (a11yLastNonBlankCol v l + 1)"
  using last_nonblank(1) [of v l] by (auto simp: a11yLine_def Let_def a11yComposeCols_def)

lemma linesLen_append: "linesLen (a @ b) = linesLen a + linesLen b"
  by (simp add: linesLen_def)

lemma joinLines_length: "vsize (joinLines ls) = (if ls = [] then 0 else linesLen ls - 1)"
  by (induction ls rule: joinLines.induct) simp_all

lemma lines_bound:
  assumes "k < length ls"
  shows "linesLen (take k ls) + vsize (ls ! k) \<le> vsize (joinLines ls)"
proof -
  have "linesLen ls = linesLen (take k ls) + (vsize (ls ! k) + 1) + linesLen (drop (Suc k) ls)"
    using arg_cong [OF id_take_nth_drop [OF assms], of linesLen] by (simp only: linesLen_append linesLen_simps)
  then show ?thesis using assms linesLen_nonneg [of "drop (Suc k) ls"] by (auto simp: joinLines_length)
qed

lemma cdiv_cell:
  assumes "0 < w" "0 \<le> c" "0 \<le> d" "d < w"
  shows "cdiv (c * w + d) w = c"
proof -
  have "\<not> c * w + d < 0" using mult_nonneg_nonneg [of c w] assms by linarith
  then show ?thesis using assms by (simp add: cdiv_def)
qed

text \<open>A point of a rectangle is the first unit of its cell.\<close>

lemma rect_point:
  assumes "accessibleRectForOffset cm v off = Some rect" "0 \<le> dx" "dx < qr_width rect" "0 \<le> dy" "dy < qr_height rect"
  shows "0 \<le> accessibleOffsetAt cm v (qr_x rect + dx) (qr_y rect + dy)"
    "accessibleOffsetAt cm v (qr_x rect + dx) (qr_y rect + dy) \<le> off"
    "accessibleRectForOffset cm v (accessibleOffsetAt cm v (qr_x rect + dx) (qr_y rect + dy)) = Some rect"
proof -
  let ?ls = "a11yViewportLines v" and ?top = "firstVisibleGlobalLine v" and ?n = "m_cols (m_grid v)"
  have w: "0 < cm_width cm" "0 < cm_height cm" "0 \<le> off"
    using assms(1) by (auto simp: accessibleRectForOffset_def split: if_splits)
  obtain k where k: "rectAt cm v off ?ls 0 0 k rect"
    using assms(1) w by (auto simp: accessibleRectForOffset_def rectLoop_iff split: if_splits)
  let ?l = "?top + int k" and ?acc = "linesLen (take k ?ls)"
  obtain c where c: "k < length ?ls" "?acc \<le> off" "off < ?acc + vsize (?ls ! k)"
      "cellOfUnit v ?l (off - ?acc) (columns ?n) 0 = Some c" "rect = cellRect cm (int k) c"
    using k by (auto simp: rectAt_def)
  have cell: "0 \<le> c" "c < ?n" "prefixLen v ?l c \<le> off - ?acc" "off - ?acc < prefixLen v ?l (c + 1)"
    using c(4) cellOfUnit_columns [of "off - ?acc"] c(2) by simp_all
  have pos: "cdiv (qr_x rect + dx - cm_padding cm) (cm_width cm) = c"
      "cdiv (qr_y rect + dy - cm_padding cm) (cm_height cm) = int k"
    using assms(2-5) w cell(1) by (simp_all add: c(5) cellRect_def cdiv_cell)
  have inside: "\<not> (qr_x rect + dx < cm_padding cm \<or> qr_y rect + dy < cm_padding cm)"
  proof -
    have "0 \<le> c * cm_width cm" "0 \<le> int k * cm_height cm" using w cell(1) by (simp_all add: mult_nonneg_nonneg)
    then show ?thesis using assms(2,4) by (simp add: c(5) cellRect_def)
  qed
  have line: "vget ?ls (int k) = ?ls ! k" "int k < vsize ?ls" using c(1) by (simp_all add: vget_def vsize_def)
  have o: "accessibleOffsetAt cm v (qr_x rect + dx) (qr_y rect + dy) = ?acc + prefixLen v ?l c"
    using w inside cell c(2,3) line by (simp add: accessibleOffsetAt_def Let_def pos)
  then show "0 \<le> accessibleOffsetAt cm v (qr_x rect + dx) (qr_y rect + dy)"
    "accessibleOffsetAt cm v (qr_x rect + dx) (qr_y rect + dy) \<le> off"
    using cell by simp_all
  have "rectAt cm v (?acc + prefixLen v ?l c) ?ls 0 0 k rect"
    using c cell cellOfUnit_columns [of "prefixLen v ?l c"] a11yCell_pos [of v ?l c]
    by (auto simp: rectAt_def prefixLen_Suc)
  moreover have "\<not> ?acc + prefixLen v ?l c < 0"
    using linesLen_nonneg [of "take k ?ls"] vsize_simps(3) [of "a11yComposeCols v ?l 0 c"] by linarith
  ultimately show "accessibleRectForOffset cm v (accessibleOffsetAt cm v (qr_x rect + dx) (qr_y rect + dy)) = Some rect"
    using w by (auto simp: accessibleRectForOffset_def o rectLoop_iff)
qed

lemma caret_bounds:
  assumes "0 \<le> m_cols (m_grid v)"
  shows "0 \<le> accessibleCaretOffset v \<and> accessibleCaretOffset v \<le> vsize (accessibleText v)"
proof -
  let ?ls = "a11yViewportLines v" and ?row = "effectiveCursorRow v + m_scrollOffset v"
  have total: "sum_list (map vsize ls) + (if ls = [] then 0 else vsize ls - 1) = vsize (joinLines ls)" for ls :: "qstring list"
    by (induction ls rule: joinLines.induct) (simp_all add: vsize_def)
  show ?thesis
  proof (cases "?row < 0 \<or> ?row \<ge> vsize ?ls")
    case True
    then have "accessibleCaretOffset v = vsize (accessibleText v)"
      unfolding accessibleCaretOffset_def Let_def accessibleText_def total [symmetric] by simp
    then show ?thesis by simp
  next
    case False
    let ?l = "firstVisibleGlobalLine v + ?row"
    have i: "int (nat ?row) = ?row" using False by simp
    then have "int (nat ?row) < int (length ?ls)" using False unfolding vsize_def by linarith
    then have row: "nat ?row < length ?ls" by (simp only: of_nat_less_iff)
    define c where "c = max 0 (min (effectiveCursorCol v) (a11yLastNonBlankCol v ?l + 1))"
    have "accessibleCaretOffset v = linesLen (take (nat ?row) ?ls) + prefixLen v ?l c"
      using False by (simp add: accessibleCaretOffset_def Let_def c_def max_def min_def)
    moreover have "prefixLen v ?l c \<le> vsize (?ls ! nat ?row)"
    proof -
      have "?ls ! nat ?row = a11yLine v ?l" using viewport_line [OF row] i by simp
      then show ?thesis
        using prefixLen_mono [of c "a11yLastNonBlankCol v ?l + 1" v ?l] last_nonblank(1) [of v ?l]
        by (simp add: a11yLine_prefix c_def)
    qed
    moreover have "linesLen (take (nat ?row) ?ls) + vsize (?ls ! nat ?row) \<le> vsize (accessibleText v)"
      unfolding accessibleText_def by (rule lines_bound [OF row])
    ultimately show ?thesis using linesLen_nonneg [of "take (nat ?row) ?ls"] vsize_simps(3) [of "a11yComposeCols v ?l 0 c"] by linarith
  qed
qed

end
