(* ===== verification/TermSelect.thy ===== *)
theory TermSelect
  imports TermText
begin

text \<open>
  The selection of \<open>TerminalWidget\<close> (\<open>src/src/terminalwidget.cpp\<close>): its order and extent, its
  text with the capped assembly of \<open>src/src/selectiontail.h\<close>, what is put on the clipboard, and
  the HTML of the rich copy.
\<close>

section \<open>Order and extent\<close>

record ordered_selection =
  sel_startLine :: int
  sel_startCol :: int
  sel_endLine :: int
  sel_endCol :: int
  sel_rectColMin :: int
  sel_rectColMax :: int
  sel_rect :: bool

text \<open>\<open>m_rectSelection\<close> is an argument.\<close>

definition orderedSelection :: "bool \<Rightarrow> term_view \<Rightarrow> ordered_selection" where
  "orderedSelection rect v =
     (let a = m_selStart v; b = m_selEnd v;
          swap = (fst a > fst b \<or> fst a = fst b \<and> snd a > snd b);
          (s, e) = (if swap then (b, a) else (a, b))
      in \<lparr>sel_startLine = fst s, sel_startCol = snd s, sel_endLine = fst e, sel_endCol = snd e,
          sel_rectColMin = min (snd a) (snd b), sel_rectColMax = max (snd a) (snd b), sel_rect = rect\<rparr>)"

definition selContains :: "ordered_selection \<Rightarrow> int \<Rightarrow> int \<Rightarrow> bool" where
  "selContains sel l c =
     (if l < sel_startLine sel \<or> l > sel_endLine sel then False
      else if sel_rect sel then c \<ge> sel_rectColMin sel \<and> c \<le> sel_rectColMax sel
      else if sel_startLine sel = sel_endLine sel then c \<ge> sel_startCol sel \<and> c \<le> sel_endCol sel
      else if l = sel_startLine sel then c \<ge> sel_startCol sel
      else if l = sel_endLine sel then c \<le> sel_endCol sel
      else True)"

text \<open>The first and last column copied from a line.\<close>

definition selColumns :: "int \<Rightarrow> ordered_selection \<Rightarrow> int \<Rightarrow> int \<times> int" where
  "selColumns cols sel l =
     (if sel_rect sel then (sel_rectColMin sel, min (sel_rectColMax sel) (cols - 1))
      else (if l = sel_startLine sel then sel_startCol sel else 0,
            if l = sel_endLine sel then sel_endCol sel else cols - 1))"

section \<open>The text\<close>

definition chopSpaces :: "qstring \<Rightarrow> qstring" where
  "chopSpaces t = rev (dropWhile (\<lambda>u. u = 0x20) (rev t))"

definition selectionLine :: "ordered_selection \<Rightarrow> term_view \<Rightarrow> int \<Rightarrow> qstring" where
  "selectionLine sel v l =
     (let (startCol, endCol) = selColumns (m_cols (m_grid v)) sel l
      in chopSpaces (a11yComposeCols v l startCol (endCol + 1)))"

text \<open>
  \<open>assembleSelectionTail\<close>: lines from the last one backwards until \<open>maxChars\<close> are held; the
  lines gathered and the number of leading lines never built.
\<close>

fun tailLoop :: "(int \<Rightarrow> qstring) \<Rightarrow> int \<Rightarrow> int \<Rightarrow> int list \<Rightarrow> qstring list \<Rightarrow> int \<Rightarrow> qstring list \<times> int" where
  "tailLoop buildLine first maxChars [] ls held = (ls, 0)"
| "tailLoop buildLine first maxChars (l # r) ls held =
     (let t = buildLine l; ls = ls @ [t]; held = held + vsize t + 1
      in if maxChars \<ge> 0 \<and> held \<ge> maxChars \<and> l > first then (ls, l - first)
         else tailLoop buildLine first maxChars r ls held)"

definition assembleSelectionTail :: "int \<Rightarrow> int \<Rightarrow> (int \<Rightarrow> qstring) \<Rightarrow> int \<Rightarrow> qstring \<times> int" where
  "assembleSelectionTail first z buildLine maxChars =
     (let (ls, skipped) = tailLoop buildLine first maxChars (rev [first .. z]) [] 0
      in (joinLines (rev ls), skipped))"

definition selectedTail :: "bool \<Rightarrow> term_view \<Rightarrow> int \<Rightarrow> qstring \<times> int" where
  "selectedTail rect v maxChars =
     (if m_hasSelection v then
        (let sel = orderedSelection rect v
         in assembleSelectionTail (sel_startLine sel) (sel_endLine sel) (selectionLine sel v) maxChars)
      else ([], 0))"

definition selectedText :: "bool \<Rightarrow> term_view \<Rightarrow> qstring" where
  "selectedText rect v = fst (selectedTail rect v (-1))"

section \<open>The clipboard\<close>

datatype clip_target = ClipMain | ClipSelection

datatype clip_write = ClipText clip_target qstring | ClipMime qstring "qstring option"

definition publishSelection :: "bool \<Rightarrow> bool \<Rightarrow> term_view \<Rightarrow> clip_write list" where
  "publishSelection autoCopyOnSelect rect v =
     (let t = selectedText rect v
      in if t = [] then []
         else ClipText ClipSelection t # (if autoCopyOnSelect then [ClipText ClipMain t] else []))"

definition copySelection :: "bool \<Rightarrow> term_view \<Rightarrow> clip_write list" where
  "copySelection rect v =
     (if \<not> m_hasSelection v then []
      else (let t = selectedText rect v in if t = [] then [] else [ClipText ClipMain t]))"

section \<open>The rich copy\<close>

definition kRichCopyCellCap :: int where "kRichCopyCellCap = 200000"

text \<open>\<open>QColor::name()\<close>; an invalid colour has the channels of black.\<close>

definition hexUnit :: "int \<Rightarrow> u16" where
  "hexUnit d = (if d < 10 then word_of_int (0x30 + d) else word_of_int (0x61 + d - 10))"

definition hexPair :: "int \<Rightarrow> qstring" where
  "hexPair n = [hexUnit (n div 16), hexUnit (n mod 16)]"

definition colorName :: "qcolor \<Rightarrow> qstring" where
  "colorName c = asc ''#'' @ hexPair (qred c) @ hexPair (qgreen c) @ hexPair (qblue c)"

definition cellStyle :: "grid \<Rightarrow> cell_attrs \<Rightarrow> qstring" where
  "cellStyle g a =
     (let (fg, bg) = (if c_inverse a then (c_bg a, c_fg a) else (c_fg a, c_bg a));
          fg = toQColor fg; bg = toQColor bg
      in asc ''color:'' @ colorName fg @ asc '';''
         @ (if bg \<noteq> m_defaultBg g then asc ''background:'' @ colorName bg @ asc '';'' else [])
         @ (if c_bold a then asc ''font-weight:bold;'' else [])
         @ (if c_italic a then asc ''font-style:italic;'' else []))"

text \<open>\<open>QString::toHtmlEscaped\<close>.\<close>

definition escapeUnit :: "u16 \<Rightarrow> qstring" where
  "escapeUnit u =
     (if u = 0x3C then asc ''&lt;'' else if u = 0x3E then asc ''&gt;''
      else if u = 0x26 then asc ''&amp;'' else if u = 0x22 then asc ''&quot;'' else [u])"

definition htmlEscaped :: "qstring \<Rightarrow> qstring" where
  "htmlEscaped t = concat (map escapeUnit t)"

record rich_run =
  rr_html :: qstring
  rr_style :: qstring
  rr_text :: qstring

definition spanOpen :: "qstring \<Rightarrow> qstring" where
  "spanOpen style = asc ''<span style='' @ [0x27] @ style @ [0x27] @ asc ''>''"

definition flushRun :: "rich_run \<Rightarrow> rich_run" where
  "flushRun s =
     (if rr_text s = [] then s
      else s\<lparr>rr_html := rr_html s @ spanOpen (rr_style s) @ htmlEscaped (rr_text s) @ asc ''</span>'',
             rr_text := []\<rparr>)"

definition richCell :: "term_view \<Rightarrow> int \<Rightarrow> int \<Rightarrow> rich_run \<Rightarrow> rich_run" where
  "richCell v l c s =
     (let cell = cellAtGlobal v l c; cp = codepoint cell in
      if isWideCont cell then s
      else if cp = 0 \<or> cp = 0x20 then (let s = flushRun s in s\<lparr>rr_html := rr_html s @ [0x20]\<rparr>)
      else
        (let style = cellStyle (m_grid v) (attrs cell);
             s = (if style \<noteq> rr_style s then (flushRun s)\<lparr>rr_style := style\<rparr> else s)
         in s\<lparr>rr_text := rr_text s @ a11yPut cp\<rparr>))"

definition richLine :: "ordered_selection \<Rightarrow> term_view \<Rightarrow> int \<Rightarrow> qstring \<Rightarrow> qstring" where
  "richLine sel v l html =
     (let (colStart, colEnd) = selColumns (m_cols (m_grid v)) sel l;
          s = flushRun (fold (richCell v l) [colStart .. colEnd]
                \<lparr>rr_html = html, rr_style = [], rr_text = []\<rparr>)
      in rr_html s @ (if l < sel_endLine sel then [0x0A] else []))"

definition richHtml :: "ordered_selection \<Rightarrow> term_view \<Rightarrow> qstring" where
  "richHtml sel v =
     fold (richLine sel v) [sel_startLine sel .. sel_endLine sel]
       (asc ''<pre style='' @ [0x27] @ asc ''font-family: monospace;'' @ [0x27] @ asc ''>'') @ asc ''</pre>''"

definition copySelectionRich :: "bool \<Rightarrow> term_view \<Rightarrow> clip_write list" where
  "copySelectionRich rect v =
     (if \<not> m_hasSelection v then []
      else
        (let sel = orderedSelection rect v;
             selCells = (sel_endLine sel - sel_startLine sel + 1) * m_cols (m_grid v)
         in [ClipMime (selectedText rect v)
               (if selCells \<le> kRichCopyCellCap then Some (richHtml sel v) else None)]))"

section \<open>Reading HTML\<close>

text \<open>
  What a reader of the rich copy sees: tags are dropped, the four entities decoded.
\<close>

definition entity :: "qstring \<Rightarrow> (u16 \<times> nat) option" where
  "entity us =
     (if take 3 us = asc ''lt;'' then Some (0x3C, 3)
      else if take 3 us = asc ''gt;'' then Some (0x3E, 3)
      else if take 4 us = asc ''amp;'' then Some (0x26, 4)
      else if take 5 us = asc ''quot;'' then Some (0x22, 5) else None)"

function htmlRead :: "bool \<Rightarrow> qstring \<Rightarrow> qstring" where
  "htmlRead inTag [] = []"
| "htmlRead True (u # us) = htmlRead (u \<noteq> 0x3E) us"
| "htmlRead False (u # us) =
     (if u = 0x3C then htmlRead True us
      else if u = 0x26 then
        (case entity us of None \<Rightarrow> u # htmlRead False us | Some (c, n) \<Rightarrow> c # htmlRead False (drop n us))
      else u # htmlRead False us)"
  by pat_completeness auto
termination by (relation "measure (\<lambda>(b, us). length us)") auto

lemma read_escaped: "htmlRead False (htmlEscaped t @ rest) = t @ htmlRead False rest"
proof (induction t)
  case (Cons u t)
  show ?case
    by (auto simp: htmlEscaped_def escapeUnit_def asc_def entity_def Cons.IH [unfolded htmlEscaped_def])
qed (simp add: htmlEscaped_def)

lemma read_tag: "0x3E \<notin> set tag \<Longrightarrow> htmlRead True (tag @ 0x3E # rest) = htmlRead False rest"
  by (induction tag) auto


section \<open>What is highlighted is what is copied\<close>

lemma ordered:
  "sel_startLine (orderedSelection rect v) < sel_endLine (orderedSelection rect v) \<or>
   sel_startLine (orderedSelection rect v) = sel_endLine (orderedSelection rect v) \<and>
   sel_startCol (orderedSelection rect v) \<le> sel_endCol (orderedSelection rect v)"
  by (simp add: orderedSelection_def Let_def linorder_not_less) linarith

lemma contains_columns:
  assumes "sel_startLine sel \<le> l" "l \<le> sel_endLine sel" "0 \<le> c" "c < cols"
  shows "selContains sel l c \<longleftrightarrow> fst (selColumns cols sel l) \<le> c \<and> c \<le> snd (selColumns cols sel l)"
  using assms by (auto simp: selContains_def selColumns_def)

section \<open>The tail\<close>

lemma tailLoop_lines:
  assumes "ls = map f (rev [m + 1 .. z])" "first - 1 \<le> m" "m \<le> z"
    "held = sum_list (map (\<lambda>t. vsize t + 1) ls)"
  obtains k where "0 \<le> k" "k \<le> max 0 (z - first)" "tailLoop f first n (rev [first .. m]) ls held = (map f (rev [first + k .. z]), k)"
    "k > 0 \<Longrightarrow> n \<ge> 0 \<and> n \<le> sum_list (map (\<lambda>t. vsize t + 1) (map f (rev [first + k .. z])))"
    "n < 0 \<Longrightarrow> k = 0"
  using assms
proof (induction "nat (m - first + 1)" arbitrary: m ls held thesis)
  case 0
  then have "m = first - 1" by simp
  then show ?case by (intro 0(2) [of 0]) (simp_all add: 0)
next
  case (Suc j)
  have up: "rev [first .. m] = m # rev [first .. m - 1]" using Suc.hyps(2) by (simp add: upto_rec2)
  have ls: "ls @ [f m] = map f (rev [m .. z])" using Suc.prems(2,4) by (simp add: upto_rec1)
  have held: "held + vsize (f m) + 1 = sum_list (map (\<lambda>t. vsize t + 1) (ls @ [f m]))"
    using Suc.prems(5) by simp
  show ?case
  proof (cases "n \<ge> 0 \<and> held + vsize (f m) + 1 \<ge> n \<and> m > first")
    case True
    show ?thesis
      by (rule Suc.prems(1) [of "m - first"])
        (use True Suc.prems(4) held in \<open>simp_all add: up Let_def flip: ls\<close>)
  next
    case False
    have step: "tailLoop f first n (rev [first .. m]) ls held =
        tailLoop f first n (rev [first .. m - 1]) (ls @ [f m]) (held + vsize (f m) + 1)"
      unfolding up tailLoop.simps Let_def using False by (simp only: if_False)
    show ?thesis
    proof (rule Suc.hyps(1) [of "m - 1" "ls @ [f m]" "held + vsize (f m) + 1"])
      show "j = nat (m - 1 - first + 1)" using Suc.hyps(2) by simp
      show "ls @ [f m] = map f (rev [m - 1 + 1 .. z])" by (simp add: ls)
      show "first - 1 \<le> m - 1" using Suc.hyps(2) by simp
      show "m - 1 \<le> z" using Suc.prems(4) by simp
      show "held + vsize (f m) + 1 = sum_list (map (\<lambda>t. vsize t + 1) (ls @ [f m]))" by (rule held)
    qed (rule Suc.prems(1), simp_all add: step)
  qed
qed

lemma joinLines_append: "a \<noteq> [] \<Longrightarrow> b \<noteq> [] \<Longrightarrow> joinLines (a @ b) = joinLines a @ 0x0A # joinLines b"
proof (induction a rule: joinLines.induct)
  case (2 l)
  then show ?case by (cases b) simp_all
qed simp_all

lemma assemble_tail:
  assumes "first \<le> z"
  obtains k where "0 \<le> k" "k \<le> z - first"
    "assembleSelectionTail first z f n = (joinLines (map f [first + k .. z]), k)"
    "k > 0 \<Longrightarrow> n \<ge> 0 \<and> n \<le> vsize (joinLines (map f [first + k .. z])) + 1"
    "n < 0 \<Longrightarrow> k = 0"
proof -
  obtain k where k: "0 \<le> k" "k \<le> max 0 (z - first)"
      "tailLoop f first n (rev [first .. z]) [] 0 = (map f (rev [first + k .. z]), k)"
      "k > 0 \<Longrightarrow> n \<ge> 0 \<and> n \<le> sum_list (map (\<lambda>t. vsize t + 1) (map f (rev [first + k .. z])))"
      "n < 0 \<Longrightarrow> k = 0"
    by (rule tailLoop_lines [of "[]" f z z first 0 n]) (use assms in auto)
  have "sum_list (map (\<lambda>t. vsize t + 1) (map f (rev xs))) = linesLen (map f xs)" for xs
    by (simp add: linesLen_def rev_map [symmetric] o_def)
  then show thesis
    using k assms by (intro that [of k]) (auto simp: assembleSelectionTail_def rev_map joinLines_length)
qed

section \<open>Markup\<close>

text \<open>HTML that ends outside tags and entities: what it reads as, whatever follows.\<close>

definition reads :: "qstring \<Rightarrow> qstring \<Rightarrow> bool" where
  "reads h t \<longleftrightarrow> (\<forall>rest. htmlRead False (h @ rest) = t @ htmlRead False rest)"

lemma reads_append: "reads h t \<Longrightarrow> reads h' t' \<Longrightarrow> reads (h @ h') (t @ t')"
  by (simp add: reads_def)

lemma reads_escaped: "reads (htmlEscaped t) t"
  by (simp add: reads_def read_escaped)

lemma reads_tag: "0x3E \<notin> set tag \<Longrightarrow> reads (0x3C # tag @ [0x3E]) []"
  by (simp add: reads_def read_tag)

lemma reads_unit: "u \<noteq> 0x3C \<Longrightarrow> u \<noteq> 0x26 \<Longrightarrow> reads [u] [u]"
  by (simp add: reads_def)

lemma reads_span: "0x3E \<notin> set style \<Longrightarrow> reads (spanOpen style) []" "reads (asc ''</span>'') []"
proof -
  show "reads (spanOpen style) []" if "0x3E \<notin> set style"
    using reads_tag [of "asc ''span style='' @ [0x27] @ style @ [0x27]"] that by (simp add: spanOpen_def asc_def)
  show "reads (asc ''</span>'') []" using reads_tag [of "asc ''/span''"] by (simp add: asc_def)
qed

lemma hexPair_plain: "0 \<le> n \<Longrightarrow> n < 256 \<Longrightarrow> 0x3E \<notin> set (hexPair n)"
proof -
  have "hexUnit d \<noteq> 0x3E" if "0 \<le> d" "d < 16" for d
  proof -
    have "d \<in> {0, 1, 2, 3, 4, 5, 6, 7, 8, 9, 10, 11, 12, 13, 14, 15}" using that by (simp only: insert_iff empty_iff) presburger
    then show ?thesis by (auto simp: hexUnit_def)
  qed
  moreover assume "0 \<le> n" "n < 256"
  ultimately show ?thesis by (auto simp: hexPair_def)
qed


lemma colorName_plain: "0x3E \<notin> set (colorName c)"
proof -
  have "uint (x AND 0xFF) < 256" for x :: u32
  proof -
    have "x AND 0xFF \<le> 0xFF" by (rule word_and_le1)
    then show ?thesis by (simp add: word_le_def)
  qed
  then have "0 \<le> qred c" "qred c < 256" "0 \<le> qgreen c" "qgreen c < 256" "0 \<le> qblue c" "qblue c < 256"
    by (simp_all add: qred_def qgreen_def qblue_def split: qcolor.splits)
  then show ?thesis by (simp add: colorName_def hexPair_plain asc_def)
qed

lemma cellStyle_plain: "0x3E \<notin> set (cellStyle g a)"
  by (simp add: cellStyle_def Let_def colorName_plain asc_def split: prod.splits)

text \<open>What a cell shows in the rich copy, and what the run has shown so far.\<close>

definition richView :: "term_view \<Rightarrow> int \<Rightarrow> int \<Rightarrow> qstring" where
  "richView v l c =
     (let cell = cellAtGlobal v l c; cp = codepoint cell
      in if isWideCont cell then [] else if cp = 0 \<or> cp = 0x20 then [0x20] else a11yPut cp)"

definition runReads :: "rich_run \<Rightarrow> qstring \<Rightarrow> bool" where
  "runReads s t \<longleftrightarrow> 0x3E \<notin> set (rr_style s) \<and> (\<exists>h. reads (rr_html s) h \<and> t = h @ rr_text s)"

lemma flush_reads: "runReads s t \<Longrightarrow> runReads (flushRun s) t \<and> reads (rr_html (flushRun s)) t \<and> rr_text (flushRun s) = []"
proof -
  assume "runReads s t"
  then obtain h where h: "0x3E \<notin> set (rr_style s)" "reads (rr_html s) h" "t = h @ rr_text s"
    by (auto simp: runReads_def)
  have "reads (rr_html s @ spanOpen (rr_style s) @ htmlEscaped (rr_text s) @ asc ''</span>'') (h @ [] @ rr_text s @ [])"
    by (intro reads_append h reads_span reads_escaped)
  then show ?thesis using h by (auto simp: flushRun_def runReads_def)
qed

lemma richCell_reads:
  assumes "runReads s t"
  shows "runReads (richCell v l c s) (t @ richView v l c)"
proof -
  let ?cell = "cellAtGlobal v l c"
  let ?cp = "codepoint ?cell" and ?style = "cellStyle (m_grid v) (attrs ?cell)"
  have f: "runReads (flushRun s) t" "reads (rr_html (flushRun s)) t" "rr_text (flushRun s) = []"
    using flush_reads [OF assms] by simp_all
  consider "isWideCont ?cell" | "\<not> isWideCont ?cell" "?cp = 0 \<or> ?cp = 0x20"
    | "\<not> isWideCont ?cell" "\<not> (?cp = 0 \<or> ?cp = 0x20)" by blast
  then show ?thesis
  proof cases
    case 1
    then show ?thesis using assms by (simp add: richCell_def richView_def Let_def)
  next
    case 2
    have "reads (rr_html (flushRun s) @ [0x20]) (t @ [0x20])"
      by (intro reads_append f(2) reads_unit) simp_all
    then show ?thesis using 2 f(1,3) by (auto simp: richCell_def richView_def Let_def runReads_def)
  next
    case 3
    define r where "r = (if ?style \<noteq> rr_style s then (flushRun s)\<lparr>rr_style := ?style\<rparr> else s)"
    have "runReads r t" using assms f cellStyle_plain by (auto simp: r_def runReads_def)
    moreover have "richCell v l c s = r\<lparr>rr_text := rr_text r @ a11yPut ?cp\<rparr>"
      using 3 by (simp add: richCell_def Let_def r_def)
    ultimately show ?thesis using 3 by (auto simp: richView_def Let_def runReads_def)
  qed
qed

lemma richCells_reads: "runReads s t \<Longrightarrow> runReads (fold (richCell v l) cs s) (t @ concat (map (richView v l) cs))"
proof (induction cs arbitrary: s t)
  case (Cons c cs)
  show ?case using Cons.IH [OF richCell_reads [OF Cons.prems]] by simp
qed simp

definition richRow :: "ordered_selection \<Rightarrow> term_view \<Rightarrow> int \<Rightarrow> qstring" where
  "richRow sel v l =
     (let (a, b) = selColumns (m_cols (m_grid v)) sel l in concat (map (richView v l) [a .. b]))"

lemma richLine_reads:
  assumes "reads h t"
  shows "reads (richLine sel v l h) (t @ richRow sel v l @ (if l < sel_endLine sel then [0x0A] else []))"
proof -
  obtain a b where ab: "selColumns (m_cols (m_grid v)) sel l = (a, b)" by fastforce
  let ?s0 = "\<lparr>rr_html = h, rr_style = [], rr_text = []\<rparr>"
  have "runReads ?s0 t" using assms by (simp add: runReads_def)
  from flush_reads [OF richCells_reads [OF this]]
  have "reads (rr_html (flushRun (fold (richCell v l) [a .. b] ?s0))) (t @ richRow sel v l)"
    by (simp add: richRow_def ab)
  moreover have "reads [0x0A] [0x0A]" by (rule reads_unit) simp_all
  ultimately show ?thesis
    using reads_append [of _ "t @ richRow sel v l" "[0x0A]" "[0x0A]"] by (simp add: richLine_def ab Let_def)
qed

lemma richLines_reads:
  assumes "reads h t" "l \<le> sel_endLine sel"
  shows "reads (fold (richLine sel v) [l .. sel_endLine sel] h) (t @ joinLines (map (richRow sel v) [l .. sel_endLine sel]))"
  using assms
proof (induction "nat (sel_endLine sel - l)" arbitrary: l h t)
  case 0
  then have "l = sel_endLine sel" by simp
  then show ?case using richLine_reads [OF 0(2), of sel v l] by simp
next
  case (Suc k)
  then have l: "l < sel_endLine sel" by simp
  have up: "[l .. sel_endLine sel] = l # [l + 1 .. sel_endLine sel]" "[l + 1 .. sel_endLine sel] \<noteq> []"
    using l by (simp_all add: upto_rec1)
  then obtain x xs where x: "[l + 1 .. sel_endLine sel] = x # xs" by (cases "[l + 1 .. sel_endLine sel]") auto
  have "reads (fold (richLine sel v) [l + 1 .. sel_endLine sel] (richLine sel v l h))
      ((t @ richRow sel v l @ [0x0A]) @ joinLines (map (richRow sel v) [l + 1 .. sel_endLine sel]))"
    using richLine_reads [OF Suc.prems(1), of sel v l] l Suc.hyps(2)
    by (intro Suc.hyps(1)) simp_all
  then show ?case unfolding up(1) by (simp add: x)
qed

lemma richHtml_reads:
  assumes "sel_startLine sel \<le> sel_endLine sel"
  shows "htmlRead False (richHtml sel v) = joinLines (map (richRow sel v) [sel_startLine sel .. sel_endLine sel])"
proof -
  have "reads (asc ''<pre style='' @ [0x27] @ asc ''font-family: monospace;'' @ [0x27] @ asc ''>'') []"
    using reads_tag [of "asc ''pre style='' @ [0x27] @ asc ''font-family: monospace;'' @ [0x27]"] by (simp add: asc_def)
  from richLines_reads [OF this assms, of v] show ?thesis
    using reads_tag [of "asc ''/pre''"] unfolding richHtml_def reads_def by (simp add: asc_def)
qed

end
