(* ===== verification/TermSearch.thy ===== *)
theory TermSearch
  imports TermSelect
begin

text \<open>
  Searching in \<open>TerminalWidget\<close> (\<open>src/src/terminalwidget.cpp\<close>): the pattern of the search box
  with the hardening of \<open>src/src/regexharden.cpp\<close>, the matches in grid columns, stepping
  through them, and the bracket that matches the one at the cursor. The regular expression
  engine is a parameter.
\<close>

section \<open>The pattern\<close>

definition startsWithQ :: "qstring \<Rightarrow> qstring \<Rightarrow> bool" where
  "startsWithQ s p \<longleftrightarrow> take (length p) s = p"

definition hardenUserRegex :: "qstring \<Rightarrow> qstring" where
  "hardenUserRegex p =
     (if p = [] then []
      else if startsWithQ p (asc ''(*LIMIT_'') then p
      else asc ''(*LIMIT_MATCH=100000)'' @ p)"

text \<open>
  \<open>se_escape\<close> is \<open>QRegularExpression::escape\<close>; \<open>se_compile\<close> takes case sensitivity and a
  pattern and is \<open>None\<close> when the pattern is not valid, else the start and end of every match in
  a text, in the order of \<open>globalMatch\<close>.
\<close>

record search_engine =
  se_escape :: "qstring \<Rightarrow> qstring"
  se_compile :: "bool \<Rightarrow> qstring \<Rightarrow> (qstring \<Rightarrow> (int \<times> int) list) option"

definition engine_ok :: "search_engine \<Rightarrow> bool" where
  "engine_ok E \<longleftrightarrow> (\<forall>cs p re t. se_compile E cs p = Some re \<longrightarrow>
     list_all (\<lambda>(s, e). 0 \<le> s \<and> s \<le> e \<and> e \<le> vsize t) (re t))"

record search_box =
  sb_text :: qstring
  sb_regexMode :: bool
  sb_wholeWord :: bool
  sb_caseSensitive :: bool

definition effectivePattern :: "search_engine \<Rightarrow> search_box \<Rightarrow> qstring" where
  "effectivePattern E b =
     (let p = (if sb_regexMode b then sb_text b else se_escape E (sb_text b));
          p = (if sb_wholeWord b
               then [0x5C, 0x62] @ asc ''(?:'' @ p @ asc '')'' @ [0x5C, 0x62] else p)
      in hardenUserRegex p)"

section \<open>The matches\<close>

record search_match =
  sm_globalLine :: int
  sm_col :: int
  sm_length :: int

record search_state =
  ss_matches :: "search_match list"
  ss_current :: int
  ss_invalid :: bool
  ss_label :: qstring

definition lineMatches :: "(qstring \<Rightarrow> (int \<times> int) list) \<Rightarrow> term_view \<Rightarrow> int \<Rightarrow> search_match list" where
  "lineMatches re v l =
     (let t = chopSpaces (the (lineText v l));
          lc = lineColumns v l
      in map (\<lambda>(s, e). let startCol = columnAt lc s; lastCol = lastColumnBefore lc e
              in \<lparr>sm_globalLine = l, sm_col = startCol, sm_length = lastCol - startCol + 1\<rparr>)
           (filter (\<lambda>(s, e). e - s > 0) (re t)))"

definition numQ :: "int \<Rightarrow> qstring" where
  "numQ n = asc (toString n)"

definition searchLabel :: "int \<Rightarrow> int \<Rightarrow> qstring" where
  "searchLabel a b = numQ a @ asc ''/'' @ numQ b"

definition firstFrom :: "int \<Rightarrow> search_match list \<Rightarrow> int" where
  "firstFrom center ms =
     (let k = length (takeWhile (\<lambda>m. sm_globalLine m < center) ms)
      in if k < length ms then int k else 0)"

definition scrollToCurrent :: "search_state \<Rightarrow> term_view \<Rightarrow> term_view" where
  "scrollToCurrent s v =
     (if ss_current s < 0 then v else scrollToMatch (sm_globalLine (vget (ss_matches s) (ss_current s))) v)"

definition performSearch :: "search_engine \<Rightarrow> search_box \<Rightarrow> term_view \<Rightarrow> search_state \<times> term_view" where
  "performSearch E b v =
     (if sb_text b = [] then
        (\<lparr>ss_matches = [], ss_current = -1, ss_invalid = False, ss_label = asc ''0/0''\<rparr>, v)
      else
        (case se_compile E (sb_caseSensitive b) (effectivePattern E b) of
           None \<Rightarrow> (\<lparr>ss_matches = [], ss_current = -1, ss_invalid = True, ss_label = asc ''!/!''\<rparr>, v)
         | Some re \<Rightarrow>
             (let totalLines = scrollbackSize v + m_rows (m_grid v);
                  ms = concat (map (lineMatches re v) (columns totalLines));
                  cur = (if ms = [] then -1
                         else firstFrom (scrollbackSize v - m_scrollOffset v + cdiv (m_rows (m_grid v)) 2) ms);
                  s = \<lparr>ss_matches = ms, ss_current = cur, ss_invalid = False,
                       ss_label = searchLabel (if ms = [] then 0 else cur + 1) (vsize ms)\<rparr>
              in (s, if ms = [] then v else scrollToCurrent s v))))"

definition stepTo :: "int \<Rightarrow> search_state \<Rightarrow> search_state" where
  "stepTo i s = s\<lparr>ss_current := i, ss_label := searchLabel (i + 1) (vsize (ss_matches s))\<rparr>"

definition searchNext :: "search_state \<times> term_view \<Rightarrow> search_state \<times> term_view" where
  "searchNext sv =
     (let (s, v) = sv in
      if ss_matches s = [] then sv
      else (let s = stepTo ((ss_current s + 1) mod vsize (ss_matches s)) s in (s, scrollToCurrent s v)))"

definition searchPrev :: "search_state \<times> term_view \<Rightarrow> search_state \<times> term_view" where
  "searchPrev sv =
     (let (s, v) = sv in
      if ss_matches s = [] then sv
      else (let s = stepTo ((ss_current s - 1 + vsize (ss_matches s)) mod vsize (ss_matches s)) s
            in (s, scrollToCurrent s v)))"

text \<open>\<open>std::lower_bound\<close> on the line, then the matches of the line.\<close>

definition isCellSearchMatch :: "search_state \<Rightarrow> int \<Rightarrow> int \<Rightarrow> bool" where
  "isCellSearchMatch s l c =
     (if ss_matches s = [] then False
      else list_ex (\<lambda>m. c \<ge> sm_col m \<and> c < sm_col m + sm_length m)
             (takeWhile (\<lambda>m. sm_globalLine m = l)
               (dropWhile (\<lambda>m. sm_globalLine m < l) (ss_matches s))))"

definition isCellCurrentMatch :: "search_state \<Rightarrow> int \<Rightarrow> int \<Rightarrow> bool" where
  "isCellCurrentMatch s l c =
     (if ss_current s < 0 \<or> ss_current s \<ge> vsize (ss_matches s) then False
      else (let m = vget (ss_matches s) (ss_current s)
            in sm_globalLine m = l \<and> c \<ge> sm_col m \<and> c < sm_col m + sm_length m))"

section \<open>Brackets\<close>

definition getCellCodepoint :: "term_view \<Rightarrow> int \<Rightarrow> int \<Rightarrow> u32" where
  "getCellCodepoint v l c = codepoint (cellAtGlobal v l c)"

record bracket_pair =
  bp_line1 :: int
  bp_col1 :: int
  bp_line2 :: int
  bp_col2 :: int

definition noPair :: bracket_pair where
  "noPair = \<lparr>bp_line1 = -1, bp_col1 = -1, bp_line2 = -1, bp_col2 = -1\<rparr>"

definition bracketKinds :: "(u32 \<times> u32) list" where
  "bracketKinds = [(0x28, 0x29), (0x5B, 0x5D), (0x7B, 0x7D)]"

definition scanSpan :: "int \<Rightarrow> int" where
  "scanSpan rows = max 64 (rows * 8)"

text \<open>Right and down from a position: the loop of the opening bracket.\<close>

function scanForward :: "(int \<Rightarrow> int \<Rightarrow> u32) \<Rightarrow> u32 \<Rightarrow> u32 \<Rightarrow> int \<Rightarrow> int \<Rightarrow> int \<Rightarrow> int \<Rightarrow> int \<Rightarrow> int \<Rightarrow> (int \<times> int) option" where
  "scanForward cell op cl cols lines maxGl gl col depth =
     (if gl < lines \<and> gl \<le> maxGl \<and> depth > 0 then
        (if col \<ge> cols then scanForward cell op cl cols lines maxGl (gl + 1) 0 depth
         else
           (let c = cell gl col;
                depth = (if c = op then depth + 1 else if c = cl then depth - 1 else depth)
            in if depth = 0 then Some (gl, col)
               else scanForward cell op cl cols lines maxGl gl (col + 1) depth))
      else None)"
  by pat_completeness auto
termination
  by (relation "measures [\<lambda>(cell, op, cl, cols, lines, maxGl, gl, col, depth). nat (lines - gl),
      \<lambda>(cell, op, cl, cols, lines, maxGl, gl, col, depth). nat (cols - col)]") auto

declare scanForward.simps [simp del]

text \<open>Left and up: the loop of the closing bracket.\<close>

function scanBackward :: "(int \<Rightarrow> int \<Rightarrow> u32) \<Rightarrow> u32 \<Rightarrow> u32 \<Rightarrow> int \<Rightarrow> int \<Rightarrow> int \<Rightarrow> int \<Rightarrow> int \<Rightarrow> (int \<times> int) option" where
  "scanBackward cell op cl cols minGl gl col depth =
     (if gl \<ge> 0 \<and> gl \<ge> minGl \<and> depth > 0 then
        (if col < 0 then scanBackward cell op cl cols minGl (gl - 1) (cols - 1) depth
         else
           (let c = cell gl col;
                depth = (if c = cl then depth + 1 else if c = op then depth - 1 else depth)
            in if depth = 0 then Some (gl, col)
               else scanBackward cell op cl cols minGl gl (col - 1) depth))
      else None)"
  by pat_completeness auto
termination
  by (relation "measures [\<lambda>(cell, op, cl, cols, minGl, gl, col, depth). nat (gl + 1),
      \<lambda>(cell, op, cl, cols, minGl, gl, col, depth). nat (col + 1)]") auto

declare scanBackward.simps [simp del]

definition computeBracket :: "term_view \<Rightarrow> bracket_pair" where
  "computeBracket v =
     (let g = m_grid v; sb = scrollbackSize v; rows = m_rows g; cols = m_cols g;
          gl = sb + m_cursorRow g; col = m_cursorCol g;
          ch = getCellCodepoint v gl col
      in case find (\<lambda>(op, cl). ch = op) bracketKinds of
           Some (op, cl) \<Rightarrow>
             (case scanForward (getCellCodepoint v) op cl cols (sb + rows) (gl + scanSpan rows) gl (col + 1) 1 of
                Some (l, c) \<Rightarrow> \<lparr>bp_line1 = gl, bp_col1 = col, bp_line2 = l, bp_col2 = c\<rparr>
              | None \<Rightarrow> noPair)
         | None \<Rightarrow>
             (case find (\<lambda>(op, cl). ch = cl) bracketKinds of
                Some (op, cl) \<Rightarrow>
                  (case scanBackward (getCellCodepoint v) op cl cols (gl - scanSpan rows) gl (col - 1) 1 of
                     Some (l, c) \<Rightarrow> \<lparr>bp_line1 = l, bp_col1 = c, bp_line2 = gl, bp_col2 = col\<rparr>
                   | None \<Rightarrow> noPair)
              | None \<Rightarrow> noPair))"

text \<open>The cache: kept while nothing was written, pushed or moved.\<close>

record bracket_cache =
  bc_pushed :: nat
  bc_row :: int
  bc_col :: int
  bc_pair :: bracket_pair

definition findMatchingBracket :: "bool \<Rightarrow> term_view \<Rightarrow> bracket_cache \<Rightarrow> bracket_pair \<times> bracket_cache" where
  "findMatchingBracket spanCacheDirty v k =
     (let g = m_grid v in
      if \<not> spanCacheDirty \<and> m_scrollbackPushed g = bc_pushed k \<and>
         m_cursorRow g = bc_row k \<and> m_cursorCol g = bc_col k then (bc_pair k, k)
      else (let p = computeBracket v
            in (p, \<lparr>bc_pushed = m_scrollbackPushed g, bc_row = m_cursorRow g, bc_col = m_cursorCol g,
                    bc_pair = p\<rparr>)))"


section \<open>The matches lie on the grid\<close>

lemma chop_length: "vsize (chopSpaces t) \<le> vsize t"
  using length_dropWhile_le [of "\<lambda>u. u = 0x20" "rev t"] by (simp add: chopSpaces_def vsize_def)

definition match_ok :: "int \<Rightarrow> search_match \<Rightarrow> bool" where
  "match_ok cols m \<longleftrightarrow> 0 \<le> sm_col m \<and> 1 \<le> sm_length m \<and> sm_col m + sm_length m \<le> cols"

lemma lineMatches_ok:
  assumes "engine_ok E" "se_compile E cs p = Some re" "0 \<le> m_cols (m_grid v)" "m \<in> set (lineMatches re v l)"
  shows "sm_globalLine m = l" "match_ok (m_cols (m_grid v)) m"
proof -
  let ?t = "chopSpaces (lineTextCells v l)" and ?lc = "lineColumns v l"
  obtain s e where se: "(s, e) \<in> set (re ?t)" "s < e"
      "m = \<lparr>sm_globalLine = l, sm_col = columnAt ?lc s, sm_length = lastColumnBefore ?lc e - columnAt ?lc s + 1\<rparr>"
    using assms(4) by (auto simp: lineMatches_def Let_def lineText_cells [OF assms(3)])
  have "0 \<le> s" "e \<le> vsize (lineTextCells v l)"
    using assms(1,2) se(1) chop_length [of "lineTextCells v l"]
    by (fastforce simp: engine_ok_def list_all_iff)+
  from span_columns(1-3) [OF this(1) se(2) this(2) assms(3)]
  show "sm_globalLine m = l" "match_ok (m_cols (m_grid v)) m"
    by (simp_all add: se(3) match_ok_def)
qed

lemma sorted_constant: "(\<And>x. x \<in> set xs \<Longrightarrow> g x = (l :: int)) \<Longrightarrow> sorted (map g xs)"
  by (induction xs) auto

lemma sorted_lines:
  assumes "\<And>l m. m \<in> set (f l) \<Longrightarrow> sm_globalLine m = l" "sorted ls"
  shows "sorted (map sm_globalLine (concat (map f ls)))"
  using assms(2)
proof (induction ls)
  case (Cons l ls)
  have "sorted (map sm_globalLine (f l))" by (rule sorted_constant [OF assms(1)])
  moreover have "l \<le> sm_globalLine m" if "m \<in> set (concat (map f ls))" for m
    using that assms(1) Cons.prems by auto
  ultimately show ?case using Cons assms(1) by (auto simp: sorted_append)
qed simp

lemma firstFrom_range: "ms \<noteq> [] \<Longrightarrow> 0 \<le> firstFrom c ms \<and> firstFrom c ms < vsize ms"
  by (auto simp: firstFrom_def Let_def vsize_def)

text \<open>Binary search on sorted lines finds what a scan of all matches finds.\<close>

lemma sorted_line_matches:
  "sorted (map sm_globalLine ms) \<Longrightarrow>
   takeWhile (\<lambda>m. sm_globalLine m = l) (dropWhile (\<lambda>m. sm_globalLine m < l) ms) = filter (\<lambda>m. sm_globalLine m = l) ms"
proof (induction ms)
  case (Cons m ms)
  show ?case
  proof (cases "sm_globalLine m < l")
    case False
    have drop: "dropWhile (\<lambda>m. sm_globalLine m < l) ms = ms"
      using Cons.prems False by (cases ms) auto
    show ?thesis
    proof (cases "sm_globalLine m = l")
      case True
      then show ?thesis using Cons drop by simp
    next
      case ne: False
      then have "filter (\<lambda>m. sm_globalLine m = l) ms = []"
        using Cons.prems False by (auto simp: filter_empty_conv)
      then show ?thesis using False ne by simp
    qed
  qed (use Cons in simp)
qed simp

section \<open>The current match is shown\<close>

lemma scrollTo_offset: "m_scrollOffset (scrollTo n v) = max 0 (min n (scrollbackSize v))"
  by (simp add: scrollTo_def updateScrollBar_eq Let_def)

lemma scrollTo_grid: "m_grid (scrollTo n v) = m_grid v"
  by (simp add: scrollTo_def)

lemma match_shown:
  assumes "0 \<le> l" "l < scrollbackSize v + m_rows (m_grid v)" "1 \<le> m_rows (m_grid v)"
  defines "w \<equiv> scrollToMatch l v"
  shows "scrollbackSize w - m_scrollOffset w \<le> l \<and> l < scrollbackSize w - m_scrollOffset w + m_rows (m_grid w)"
proof -
  let ?sb = "scrollbackSize v" and ?r = "m_rows (m_grid v)"
  have r: "1 \<le> ?r \<Longrightarrow> 0 \<le> cdiv ?r 2 \<and> cdiv ?r 2 < ?r" by (auto simp: cdiv_def)
  show ?thesis
  proof (cases "l < ?sb - m_scrollOffset v \<or> l > ?sb - m_scrollOffset v + ?r - 1")
    case True
    have "scrollbackSize w = ?sb" "m_grid w = m_grid v"
        "m_scrollOffset w = max 0 (min (clamp (?sb - l + cdiv ?r 2) 0 ?sb) ?sb)"
      using True by (simp_all add: w_def scrollToMatch_def Let_def scrollTo_offset scrollTo_grid scrollbackSize_def)
    then show ?thesis using r assms(1,2,3) by (auto simp: clamp_def)
  next
    case False
    then show ?thesis by (simp add: w_def scrollToMatch_def Let_def)
  qed
qed

section \<open>Scanning for a bracket\<close>

text \<open>The scan as a search along a list for the place where the depth reaches zero.\<close>

fun depthScan :: "('a \<Rightarrow> int) \<Rightarrow> 'a list \<Rightarrow> int \<Rightarrow> 'a option" where
  "depthScan w [] d = None"
| "depthScan w (x # xs) d = (if d + w x = 0 then Some x else depthScan w xs (d + w x))"

lemma depthScan_map: "depthScan w (map f xs) d = map_option f (depthScan (\<lambda>x. w (f x)) xs d)"
  by (induction xs arbitrary: d) auto

lemma depthScan_cong: "(\<And>x. x \<in> set xs \<Longrightarrow> w x = w' x) \<Longrightarrow> depthScan w xs d = depthScan w' xs d"
  by (induction xs arbitrary: d) auto

definition weightOf :: "u32 \<Rightarrow> u32 \<Rightarrow> u32 \<Rightarrow> int" where
  "weightOf op cl c = (if c = op then 1 else if c = cl then -1 else 0)"

text \<open>Cells in reading order are numbered by \<open>line * cols + column\<close>.\<close>

definition cellAtPos :: "int \<Rightarrow> int \<Rightarrow> int \<times> int" where
  "cellAtPos cols p = (p div cols, p mod cols)"

lemma pos_cell: "0 \<le> c \<Longrightarrow> c < cols \<Longrightarrow> cellAtPos cols (l * cols + c) = (l, c)"
  by (simp add: cellAtPos_def)

lemma scanForward_list:
  assumes "0 < cols" "0 \<le> col" "col \<le> cols" "depth > 0" "op \<noteq> cl"
  shows "scanForward cell op cl cols lines maxGl gl col depth =
    depthScan (\<lambda>(l, c). weightOf op cl (cell l c))
      (map (cellAtPos cols) [gl * cols + col .. (min (lines - 1) maxGl + 1) * cols - 1]) depth"
  using assms
proof (induction cell op cl cols lines maxGl gl col depth rule: scanForward.induct)
  case (1 cell op cl cols lines maxGl gl col depth)
  let ?stop = "(min (lines - 1) maxGl + 1) * cols - 1"
  show ?case
  proof (cases "gl < lines \<and> gl \<le> maxGl")
    case False
    then have "(min (lines - 1) maxGl + 1) * cols \<le> gl * cols"
      using 1(3) by (intro mult_right_mono) auto
    then have "[gl * cols + col .. ?stop] = []" using 1(4) by simp
    moreover have "scanForward cell op cl cols lines maxGl gl col depth = None"
      using False by (subst scanForward.simps) (rule if_not_P, blast)
    ultimately show ?thesis by simp
  next
    case True
    show ?thesis
    proof (cases "col \<ge> cols")
      case True': True
      then have "col = cols" using 1(5) by simp
      then show ?thesis
        using True 1(1) 1(3,6,7) True' by (subst scanForward.simps) (simp add: algebra_simps)
    next
      case False
      have "(gl + 1) * cols \<le> (min (lines - 1) maxGl + 1) * cols"
        using True 1(3) by (intro mult_right_mono) auto
      then have up: "[gl * cols + col .. ?stop] = (gl * cols + col) # [gl * cols + (col + 1) .. ?stop]"
        using False by (simp add: upto_rec1 algebra_simps)
      have w: "(if cell gl col = op then depth + 1 else if cell gl col = cl then depth - 1 else depth) =
          depth + weightOf op cl (cell gl col)" by (simp add: weightOf_def)
      have pos: "depth + weightOf op cl (cell gl col) \<noteq> 0 \<Longrightarrow> depth + weightOf op cl (cell gl col) > 0"
        using 1(6) by (auto simp: weightOf_def split: if_splits)
      show ?thesis
      proof (cases "depth + weightOf op cl (cell gl col) = 0")
        case zero: True
        then show ?thesis
          using True False 1(4,6) unfolding up
          by (subst scanForward.simps) (simp add: Let_def w pos_cell)
      next
        case nz: False
        have "scanForward cell op cl cols lines maxGl gl (col + 1) (depth + weightOf op cl (cell gl col)) =
          depthScan (\<lambda>(l, c). weightOf op cl (cell l c))
            (map (cellAtPos cols) [gl * cols + (col + 1) .. ?stop]) (depth + weightOf op cl (cell gl col))"
          using 1(2) [OF _ _ refl] True False 1(3-7) nz pos by (simp add: w)
        then show ?thesis
          using True False nz 1(4,6) unfolding up
          by (subst scanForward.simps) (simp add: Let_def w pos_cell)
      qed
    qed
  qed
qed


lemma scanBackward_list:
  assumes "0 < cols" "-1 \<le> col" "col < cols" "depth > 0" "op \<noteq> cl"
  shows "scanBackward cell op cl cols minGl gl col depth =
    depthScan (\<lambda>(l, c). weightOf cl op (cell l c))
      (map (cellAtPos cols) (rev [max 0 minGl * cols .. gl * cols + col])) depth"
  using assms
proof (induction cell op cl cols minGl gl col depth rule: scanBackward.induct)
  case (1 cell op cl cols minGl gl col depth)
  let ?lo = "max 0 minGl * cols"
  show ?case
  proof (cases "gl \<ge> 0 \<and> gl \<ge> minGl")
    case False
    then have "(gl + 1) * cols \<le> max 0 minGl * cols"
      using 1(3) by (intro mult_right_mono) auto
    then have "[?lo .. gl * cols + col] = []" using 1(5) by (simp add: algebra_simps)
    moreover have "scanBackward cell op cl cols minGl gl col depth = None"
      using False by (subst scanBackward.simps) (rule if_not_P, blast)
    ultimately show ?thesis by simp
  next
    case True
    show ?thesis
    proof (cases "col < 0")
      case True': True
      then have "col = -1" using 1(4) by simp
      then show ?thesis
        using True 1(1) 1(3,6,7) True' by (subst scanBackward.simps) (simp add: algebra_simps)
    next
      case False
      have "max 0 minGl * cols \<le> gl * cols"
        using True 1(3) by (intro mult_right_mono) auto
      then have up: "rev [?lo .. gl * cols + col] = (gl * cols + col) # rev [?lo .. gl * cols + (col - 1)]"
        using False by (simp add: upto_rec2 algebra_simps)
      have w: "(if cell gl col = cl then depth + 1 else if cell gl col = op then depth - 1 else depth) =
          depth + weightOf cl op (cell gl col)" by (simp add: weightOf_def)
      have pos: "depth + weightOf cl op (cell gl col) \<noteq> 0 \<Longrightarrow> depth + weightOf cl op (cell gl col) > 0"
        using 1(6) by (auto simp: weightOf_def split: if_splits)
      show ?thesis
      proof (cases "depth + weightOf cl op (cell gl col) = 0")
        case zero: True
        then show ?thesis
          using True False 1(5,6) unfolding up
          by (subst scanBackward.simps) (simp add: Let_def w pos_cell)
      next
        case nz: False
        have "scanBackward cell op cl cols minGl gl (col - 1) (depth + weightOf cl op (cell gl col)) =
          depthScan (\<lambda>(l, c). weightOf cl op (cell l c))
            (map (cellAtPos cols) (rev [?lo .. gl * cols + (col - 1)])) (depth + weightOf cl op (cell gl col))"
          using 1(2) [OF _ _ refl] True False 1(3-7) nz pos by (simp add: w)
        then show ?thesis
          using True False nz 1(5,6) unfolding up
          by (subst scanBackward.simps) (simp add: Let_def w pos_cell)
      qed
    qed
  qed
qed

subsection \<open>Where the scan ends\<close>

abbreviation span :: "(int \<Rightarrow> int) \<Rightarrow> int \<Rightarrow> int \<Rightarrow> int" where
  "span w a b \<equiv> sum_list (map w [a .. b])"

lemma span_left: "a \<le> b \<Longrightarrow> span w a b = w a + span w (a + 1) b"
  by (simp add: upto_rec1)

lemma span_right: "a \<le> b \<Longrightarrow> span w a b = span w a (b - 1) + w b"
  by (simp add: upto_rec2)

lemma span_split: "a \<le> m \<Longrightarrow> m \<le> b + 1 \<Longrightarrow> span w a b = span w a (m - 1) + span w m b"
  using upto_split1 [of a m b] by (cases "m = b + 1") simp_all

lemma scan_up_iff:
  assumes "d > 0" "\<And>x. w x \<ge> -1"
  shows "depthScan w [a .. b] d = Some q \<longleftrightarrow>
    a \<le> q \<and> q \<le> b \<and> d + span w a q = 0 \<and> (\<forall>r. a \<le> r \<and> r < q \<longrightarrow> d + span w a r > 0)"
  using assms(1)
proof (induction "nat (b - a + 1)" arbitrary: a d)
  case 0
  then show ?case by simp
next
  case (Suc k)
  have up: "[a .. b] = a # [a + 1 .. b]" using Suc.hyps(2) by (simp add: upto_rec1)
  have s: "span w a r = w a + span w (a + 1) r" if "a \<le> r" for r by (rule span_left [OF that])
  show ?case
  proof (cases "d + w a = 0")
    case True
    then have z: "d + span w a a = 0" by simp
    then show ?thesis unfolding up using True Suc.hyps(2) by (auto dest: spec [where x = a] intro: antisym)
  next
    case False
    then have d: "d + w a > 0" using Suc.prems assms(2) [of a] by linarith
    have ih: "depthScan w [a + 1 .. b] (d + w a) = Some q \<longleftrightarrow>
        a + 1 \<le> q \<and> q \<le> b \<and> d + w a + span w (a + 1) q = 0 \<and>
        (\<forall>r. a + 1 \<le> r \<and> r < q \<longrightarrow> d + w a + span w (a + 1) r > 0)"
      by (rule Suc.hyps(1)) (use Suc.hyps(2) d in simp_all)
    have "(\<forall>r. a + 1 \<le> r \<and> r < q \<longrightarrow> d + w a + span w (a + 1) r > 0) \<longleftrightarrow>
        (\<forall>r. a \<le> r \<and> r < q \<longrightarrow> d + span w a r > 0)" if "a + 1 \<le> q"
    proof (intro iffI allI impI)
      fix r assume h: "\<forall>r. a + 1 \<le> r \<and> r < q \<longrightarrow> d + w a + span w (a + 1) r > 0" "a \<le> r \<and> r < q"
      show "d + span w a r > 0"
      proof (cases "r = a")
        case False
        then have "d + w a + span w (a + 1) r > 0" using h by simp
        then show ?thesis using s [of r] h(2) by linarith
      qed (use d in simp)
    next
      fix r assume h: "\<forall>r. a \<le> r \<and> r < q \<longrightarrow> d + span w a r > 0" "a + 1 \<le> r \<and> r < q"
      then have "d + span w a r > 0" by simp
      then show "d + w a + span w (a + 1) r > 0" using s [of r] h(2) by linarith
    qed
    moreover have "q \<noteq> a" if "d + span w a q = 0" using that d by auto
    ultimately show ?thesis unfolding up using False ih s by (auto simp: add.assoc)
  qed
qed

lemma scan_down_iff:
  assumes "d > 0" "\<And>x. w x \<ge> -1"
  shows "depthScan w (rev [a .. b]) d = Some q \<longleftrightarrow>
    a \<le> q \<and> q \<le> b \<and> d + span w q b = 0 \<and> (\<forall>r. q < r \<and> r \<le> b \<longrightarrow> d + span w r b > 0)"
proof -
  define w' where "w' = (\<lambda>x. w (- x))"
  have neg: "rev [a .. b] = map uminus [- b .. - a]" for a b :: int
  proof (induction "nat (b - a + 1)" arbitrary: b)
    case (Suc k)
    have "rev [a .. b] = b # rev [a .. b - 1]" "[- b .. - a] = - b # [- (b - 1) .. - a]"
      using Suc.hyps(2) by (simp_all add: upto_rec1 [of "- b"] upto_rec2 [of a b])
    moreover have "rev [a .. b - 1] = map uminus [- (b - 1) .. - a]"
      by (rule Suc.hyps(1)) (use Suc.hyps(2) in simp)
    ultimately show ?case by simp
  qed simp
  have sp: "span w r b = span w' (- b) (- r)" for r
  proof -
    have "span w r b = sum_list (map w (rev [r .. b]))" by (simp add: rev_map [symmetric])
    then show ?thesis by (simp add: neg w'_def o_def)
  qed
  have "depthScan w (rev [a .. b]) d = map_option uminus (depthScan w' [- b .. - a] d)"
    by (simp add: neg depthScan_map w'_def)
  then have "depthScan w (rev [a .. b]) d = Some q \<longleftrightarrow> depthScan w' [- b .. - a] d = Some (- q)" by auto
  also have "\<dots> \<longleftrightarrow> - b \<le> - q \<and> - q \<le> - a \<and> d + span w' (- b) (- q) = 0 \<and>
      (\<forall>r. - b \<le> r \<and> r < - q \<longrightarrow> d + span w' (- b) r > 0)"
    by (rule scan_up_iff) (use assms in \<open>simp_all add: w'_def\<close>)
  also have "(\<forall>r. - b \<le> r \<and> r < - q \<longrightarrow> d + span w' (- b) r > 0) \<longleftrightarrow> (\<forall>r. q < r \<and> r \<le> b \<longrightarrow> d + span w r b > 0)"
    unfolding sp by (metis minus_le_iff minus_less_iff minus_minus neg_le_iff_le neg_less_iff_less)
  finally show ?thesis by (auto simp: sp)
qed


subsection \<open>A pair\<close>

definition matched :: "(int \<Rightarrow> int) \<Rightarrow> int \<Rightarrow> int \<Rightarrow> bool" where
  "matched w p q \<longleftrightarrow> p < q \<and> w p = 1 \<and> w q = -1 \<and> span w (p + 1) (q - 1) = 0 \<and>
     (\<forall>r. p < r \<and> r < q \<longrightarrow> span w (p + 1) r \<ge> 0)"

lemma up_matched:
  assumes "\<And>x. w x \<ge> -1" "w p = 1"
  shows "depthScan w [p + 1 .. b] 1 = Some q \<longleftrightarrow> q \<le> b \<and> matched w p q"
proof -
  have s: "span w (p + 1) q = span w (p + 1) (q - 1) + w q" if "p < q" using that by (simp add: span_right)
  have "1 + span w (p + 1) q = 0 \<and> (\<forall>r. p + 1 \<le> r \<and> r < q \<longrightarrow> 1 + span w (p + 1) r > 0) \<longleftrightarrow>
      w q = -1 \<and> span w (p + 1) (q - 1) = 0 \<and> (\<forall>r. p < r \<and> r < q \<longrightarrow> span w (p + 1) r \<ge> 0)"
    if "p < q"
  proof (intro iffI conjI)
    assume h: "1 + span w (p + 1) q = 0 \<and> (\<forall>r. p + 1 \<le> r \<and> r < q \<longrightarrow> 1 + span w (p + 1) r > 0)"
    then have "1 + span w (p + 1) (q - 1) > 0" using that by (cases "p + 1 = q") auto
    then show "w q = -1" "span w (p + 1) (q - 1) = 0" using h s [OF that] assms(1) [of q] by linarith+
    show "\<forall>r. p < r \<and> r < q \<longrightarrow> span w (p + 1) r \<ge> 0"
    proof (intro allI impI)
      fix r assume "p < r \<and> r < q"
      then have "1 + span w (p + 1) r > 0" using h by simp
      then show "span w (p + 1) r \<ge> 0" by linarith
    qed
  next
    assume h: "w q = -1 \<and> span w (p + 1) (q - 1) = 0 \<and> (\<forall>r. p < r \<and> r < q \<longrightarrow> span w (p + 1) r \<ge> 0)"
    then show "1 + span w (p + 1) q = 0" using s [OF that] by simp
    show "\<forall>r. p + 1 \<le> r \<and> r < q \<longrightarrow> 1 + span w (p + 1) r > 0"
    proof (intro allI impI)
      fix r assume "p + 1 \<le> r \<and> r < q"
      then have "span w (p + 1) r \<ge> 0" using h by simp
      then show "1 + span w (p + 1) r > 0" by linarith
    qed
  qed
  moreover have "depthScan w [p + 1 .. b] 1 = Some q \<longleftrightarrow>
      p + 1 \<le> q \<and> q \<le> b \<and> 1 + span w (p + 1) q = 0 \<and> (\<forall>r. p + 1 \<le> r \<and> r < q \<longrightarrow> 1 + span w (p + 1) r > 0)"
    by (rule scan_up_iff) (use assms(1) in simp_all)
  ultimately show ?thesis using assms(2) by (auto simp: matched_def)
qed

lemma span_neg: "span (\<lambda>x. - w x) a b = - span w a b"
  by (simp add: uminus_sum_list_map o_def)

lemma down_matched:
  assumes "\<And>x. w x \<le> 1" "w q = -1"
  shows "depthScan (\<lambda>x. - w x) (rev [a .. q - 1]) 1 = Some p \<longleftrightarrow> a \<le> p \<and> matched w p q"
proof -
  have cut: "span w (p + 1) (q - 1) = span w (p + 1) (r - 1) + span w r (q - 1)" if "p < r" "r \<le> q" for r
    by (rule span_split) (use that in simp_all)
  have first: "span w p (q - 1) = w p + span w (p + 1) (q - 1)" if "p < q"
    by (rule span_left) (use that in simp)
  have "1 - span w p (q - 1) = 0 \<and> (\<forall>r. p < r \<and> r \<le> q - 1 \<longrightarrow> 1 - span w r (q - 1) > 0) \<longleftrightarrow>
      w p = 1 \<and> span w (p + 1) (q - 1) = 0 \<and> (\<forall>r. p < r \<and> r < q \<longrightarrow> span w (p + 1) r \<ge> 0)"
    if "p < q"
  proof (intro iffI conjI)
    assume h: "1 - span w p (q - 1) = 0 \<and> (\<forall>r. p < r \<and> r \<le> q - 1 \<longrightarrow> 1 - span w r (q - 1) > 0)"
    have "1 - span w (p + 1) (q - 1) > 0"
      using h that by (cases "p + 1 = q") (auto dest: spec [where x = "p + 1"])
    then show p: "w p = 1" "span w (p + 1) (q - 1) = 0" using h first [OF that] assms(1) [of p] by linarith+
    show "\<forall>r. p < r \<and> r < q \<longrightarrow> span w (p + 1) r \<ge> 0"
    proof (intro allI impI)
      fix r assume r: "p < r \<and> r < q"
      have "1 - span w (r + 1) (q - 1) > 0"
        using h r by (cases "r + 1 = q") (auto dest: spec [where x = "r + 1"])
      then show "span w (p + 1) r \<ge> 0" using cut [of "r + 1"] r p(2) by simp
    qed
  next
    assume h: "w p = 1 \<and> span w (p + 1) (q - 1) = 0 \<and> (\<forall>r. p < r \<and> r < q \<longrightarrow> span w (p + 1) r \<ge> 0)"
    then show "1 - span w p (q - 1) = 0" using first [OF that] by simp
    show "\<forall>r. p < r \<and> r \<le> q - 1 \<longrightarrow> 1 - span w r (q - 1) > 0"
    proof (intro allI impI)
      fix r assume r: "p < r \<and> r \<le> q - 1"
      have "span w (p + 1) (r - 1) \<ge> 0" using h r by (cases "r = p + 1") simp_all
      then show "1 - span w r (q - 1) > 0" using cut [of r] r h by simp
    qed
  qed
  moreover have "depthScan (\<lambda>x. - w x) (rev [a .. q - 1]) 1 = Some p \<longleftrightarrow>
      a \<le> p \<and> p \<le> q - 1 \<and> 1 + span (\<lambda>x. - w x) p (q - 1) = 0 \<and>
      (\<forall>r. p < r \<and> r \<le> q - 1 \<longrightarrow> 1 + span (\<lambda>x. - w x) r (q - 1) > 0)"
    by (rule scan_down_iff) (use assms(1) in simp_all)
  ultimately show ?thesis using assms(2) by (auto simp: matched_def span_neg)
qed

text \<open>The weights of the cells of a view, in reading order.\<close>

definition bracketWeight :: "term_view \<Rightarrow> u32 \<Rightarrow> u32 \<Rightarrow> int \<Rightarrow> int" where
  "bracketWeight v op cl p = (case cellAtPos (m_cols (m_grid v)) p of (l, c) \<Rightarrow> weightOf op cl (getCellCodepoint v l c))"

lemma bracketWeight_cell:
  "0 \<le> c \<Longrightarrow> c < m_cols (m_grid v) \<Longrightarrow>
   bracketWeight v op cl (l * m_cols (m_grid v) + c) = weightOf op cl (getCellCodepoint v l c)"
  by (simp add: bracketWeight_def pos_cell)

lemma bracketWeight_fun:
  "bracketWeight v op cl = (\<lambda>x. case cellAtPos (m_cols (m_grid v)) x of (l, c) \<Rightarrow> weightOf op cl (getCellCodepoint v l c))"
  "op \<noteq> cl \<Longrightarrow> (\<lambda>x. - bracketWeight v op cl x) =
     (\<lambda>x. case cellAtPos (m_cols (m_grid v)) x of (l, c) \<Rightarrow> weightOf cl op (getCellCodepoint v l c))"
  by (auto simp: fun_eq_iff bracketWeight_def weightOf_def split: prod.splits)

lemma bracketWeight_range: "-1 \<le> bracketWeight v op cl p" "bracketWeight v op cl p \<le> 1"
  by (auto simp: bracketWeight_def weightOf_def split: prod.splits)

lemma forward_iff:
  assumes "op \<noteq> cl" "0 \<le> c" "c < m_cols (m_grid v)" "getCellCodepoint v l c = op"
    "0 \<le> c'" "c' < m_cols (m_grid v)"
  defines "n \<equiv> m_cols (m_grid v)"
  shows "scanForward (getCellCodepoint v) op cl n lines maxGl l (c + 1) 1 = Some (l', c') \<longleftrightarrow>
    l' < lines \<and> l' \<le> maxGl \<and> matched (bracketWeight v op cl) (l * n + c) (l' * n + c')"
proof -
  let ?w = "bracketWeight v op cl" and ?e = "(min (lines - 1) maxGl + 1) * n - 1"
  have n: "0 < n" using assms(2,3) by (simp add: n_def)
  have "scanForward (getCellCodepoint v) op cl n lines maxGl l (c + 1) 1 =
      map_option (cellAtPos n) (depthScan ?w [l * n + c + 1 .. ?e] 1)"
    using scanForward_list [OF n, of "c + 1" 1 op cl "getCellCodepoint v" lines maxGl l] assms(1-3)
    by (simp add: depthScan_map bracketWeight_fun(1) n_def add.assoc)
  moreover have "cellAtPos n q = (l', c') \<longleftrightarrow> q = l' * n + c'" for q
    using n assms(5,6) by (auto simp: cellAtPos_def n_def mult.commute)
  ultimately have "scanForward (getCellCodepoint v) op cl n lines maxGl l (c + 1) 1 = Some (l', c') \<longleftrightarrow>
      depthScan ?w [l * n + c + 1 .. ?e] 1 = Some (l' * n + c')" by auto
  also have "\<dots> \<longleftrightarrow> l' * n + c' \<le> ?e \<and> matched ?w (l * n + c) (l' * n + c')"
    by (rule up_matched)
      (use assms(1-4) bracketWeight_range in \<open>simp_all add: n_def bracketWeight_cell weightOf_def\<close>)
  also have "l' * n + c' \<le> ?e \<longleftrightarrow> l' \<le> min (lines - 1) maxGl"
  proof
    assume "l' * n + c' \<le> ?e"
    then have "l' * n < (min (lines - 1) maxGl + 1) * n" using assms(5) by simp
    then show "l' \<le> min (lines - 1) maxGl" using n by (simp add: mult_less_cancel_right)
  next
    assume "l' \<le> min (lines - 1) maxGl"
    then have "(l' + 1) * n \<le> (min (lines - 1) maxGl + 1) * n" using n by (intro mult_right_mono) simp_all
    then show "l' * n + c' \<le> ?e" using assms(6) by (simp add: n_def algebra_simps)
  qed
  finally show ?thesis by auto
qed


lemma backward_iff:
  assumes "op \<noteq> cl" "0 \<le> c" "c < m_cols (m_grid v)" "getCellCodepoint v l c = cl"
    "0 \<le> c'" "c' < m_cols (m_grid v)"
  defines "n \<equiv> m_cols (m_grid v)"
  shows "scanBackward (getCellCodepoint v) op cl n minGl l (c - 1) 1 = Some (l', c') \<longleftrightarrow>
    0 \<le> l' \<and> minGl \<le> l' \<and> matched (bracketWeight v op cl) (l' * n + c') (l * n + c)"
proof -
  let ?w = "bracketWeight v op cl"
  have n: "0 < n" using assms(2,3) by (simp add: n_def)
  have "scanBackward (getCellCodepoint v) op cl n minGl l (c - 1) 1 =
      map_option (cellAtPos n) (depthScan (\<lambda>x. - ?w x) (rev [max 0 minGl * n .. l * n + c - 1]) 1)"
    unfolding bracketWeight_fun(2) [OF assms(1)]
    using scanBackward_list [OF n, of "c - 1" 1 op cl "getCellCodepoint v" minGl l] assms(1-3)
    by (simp add: depthScan_map n_def diff_add_eq add_diff_eq)
  moreover have "cellAtPos n q = (l', c') \<longleftrightarrow> q = l' * n + c'" for q
    using n assms(5,6) by (auto simp: cellAtPos_def n_def mult.commute)
  ultimately have "scanBackward (getCellCodepoint v) op cl n minGl l (c - 1) 1 = Some (l', c') \<longleftrightarrow>
      depthScan (\<lambda>x. - ?w x) (rev [max 0 minGl * n .. l * n + c - 1]) 1 = Some (l' * n + c')" by auto
  also have "\<dots> \<longleftrightarrow> max 0 minGl * n \<le> l' * n + c' \<and> matched ?w (l' * n + c') (l * n + c)"
    by (rule down_matched)
      (use assms(1-4) bracketWeight_range in \<open>simp_all add: n_def bracketWeight_cell weightOf_def\<close>)
  also have "max 0 minGl * n \<le> l' * n + c' \<longleftrightarrow> max 0 minGl \<le> l'"
  proof
    assume "max 0 minGl * n \<le> l' * n + c'"
    then have "max 0 minGl * n < (l' + 1) * n" using assms(6) by (simp add: n_def algebra_simps)
    then show "max 0 minGl \<le> l'" using n by (simp add: mult_less_cancel_right)
  next
    assume "max 0 minGl \<le> l'"
    then have "max 0 minGl * n \<le> l' * n" using n by (intro mult_right_mono) simp_all
    then show "max 0 minGl * n \<le> l' * n + c'" using assms(5) by simp
  qed
  finally show ?thesis by auto
qed

lemma scan_columns:
  assumes "0 < n" "op \<noteq> cl"
  shows "0 \<le> c \<Longrightarrow> c < n \<Longrightarrow> scanForward cell op cl n lines maxGl l (c + 1) 1 = Some (l', c') \<Longrightarrow> 0 \<le> c' \<and> c' < n"
    "0 \<le> c \<Longrightarrow> c < n \<Longrightarrow> scanBackward cell op cl n minGl l (c - 1) 1 = Some (l', c') \<Longrightarrow> 0 \<le> c' \<and> c' < n"
  using assms scanForward_list [of n "c + 1" 1 op cl cell lines maxGl l]
    scanBackward_list [of n "c - 1" 1 op cl cell minGl l]
  by (auto simp: depthScan_map cellAtPos_def)

lemma bracketKinds_find:
  assumes "(op, cl) \<in> set bracketKinds"
  shows "op \<noteq> cl" "find (\<lambda>(a, b). op = a) bracketKinds = Some (op, cl)"
    "find (\<lambda>(a, b). cl = a) bracketKinds = None" "find (\<lambda>(a, b). cl = b) bracketKinds = Some (op, cl)"
  using assms by (auto simp: bracketKinds_def)

section \<open>Partners\<close>

definition partners :: "term_view \<Rightarrow> bracket_pair \<Rightarrow> bool" where
  "partners v p \<longleftrightarrow> (\<exists>(op, cl) \<in> set bracketKinds.
     getCellCodepoint v (bp_line1 p) (bp_col1 p) = op \<and> getCellCodepoint v (bp_line2 p) (bp_col2 p) = cl \<and>
     0 \<le> bp_line1 p \<and> bp_line2 p < scrollbackSize v + m_rows (m_grid v) \<and>
     bp_line2 p \<le> bp_line1 p + scanSpan (m_rows (m_grid v)) \<and>
     0 \<le> bp_col1 p \<and> bp_col1 p < m_cols (m_grid v) \<and> 0 \<le> bp_col2 p \<and> bp_col2 p < m_cols (m_grid v) \<and>
     matched (bracketWeight v op cl) (bp_line1 p * m_cols (m_grid v) + bp_col1 p)
       (bp_line2 p * m_cols (m_grid v) + bp_col2 p))"

definition atCursor :: "term_view \<Rightarrow> int \<Rightarrow> int \<Rightarrow> bool" where
  "atCursor v l c \<longleftrightarrow> l = scrollbackSize v + m_cursorRow (m_grid v) \<and> c = m_cursorCol (m_grid v)"

lemma matched_codes:
  assumes "matched (bracketWeight v op cl) (a * m_cols (m_grid v) + b) (c * m_cols (m_grid v) + d)"
    "0 \<le> b" "b < m_cols (m_grid v)" "0 \<le> d" "d < m_cols (m_grid v)"
  shows "getCellCodepoint v a b = op" "getCellCodepoint v c d = cl"
  using assms by (auto simp: matched_def bracketWeight_cell weightOf_def split: if_splits)

text \<open>
  The pair found is the one pair of partners with an end at the cursor; none is found when there
  is none.
\<close>

lemma bracket_iff:
  assumes "0 \<le> m_cursorRow (m_grid v)" "m_cursorRow (m_grid v) < m_rows (m_grid v)"
    "0 \<le> m_cursorCol (m_grid v)" "m_cursorCol (m_grid v) < m_cols (m_grid v)" "p \<noteq> noPair"
  shows "computeBracket v = p \<longleftrightarrow>
    partners v p \<and> (atCursor v (bp_line1 p) (bp_col1 p) \<or> atCursor v (bp_line2 p) (bp_col2 p))"
proof -
  let ?gl = "scrollbackSize v + m_cursorRow (m_grid v)" and ?col = "m_cursorCol (m_grid v)"
  let ?n = "m_cols (m_grid v)" and ?s = "scanSpan (m_rows (m_grid v))"
  let ?lines = "scrollbackSize v + m_rows (m_grid v)" and ?ch = "getCellCodepoint v ?gl ?col"
  have sb: "0 \<le> scrollbackSize v" by (simp add: scrollbackSize_def)
  have n: "0 < ?n" using assms(3,4) by simp
  obtain a b c d where p: "p = \<lparr>bp_line1 = a, bp_col1 = b, bp_line2 = c, bp_col2 = d\<rparr>" by (cases p)
  have np: "\<not> (a = -1 \<and> b = -1 \<and> c = -1 \<and> d = -1)" using assms(5) by (auto simp: p noPair_def)
  consider (Open) op cl where "(op, cl) \<in> set bracketKinds" "?ch = op"
    | (Close) op cl where "(op, cl) \<in> set bracketKinds" "?ch = cl"
    | (Neither) "\<forall>(op, cl) \<in> set bracketKinds. ?ch \<noteq> op \<and> ?ch \<noteq> cl" by fastforce
  then show ?thesis
  proof cases
    case Open
    note k = bracketKinds_find [OF Open(1)]
    have other: "op' = op \<and> cl' = cl \<and> ?ch \<noteq> cl'" if "(op', cl') \<in> set bracketKinds" "?ch = op' \<or> ?ch = cl'" for op' cl'
      using that Open by (auto simp: bracketKinds_def)
    have "computeBracket v = p \<longleftrightarrow> a = ?gl \<and> b = ?col \<and>
        scanForward (getCellCodepoint v) op cl ?n ?lines (?gl + ?s) ?gl (?col + 1) 1 = Some (c, d)"
      using np by (auto simp: computeBracket_def Let_def Open(2) k(2) p noPair_def split: option.splits)
    moreover have "scanForward (getCellCodepoint v) op cl ?n ?lines (?gl + ?s) ?gl (?col + 1) 1 = Some (c, d) \<longleftrightarrow>
        0 \<le> d \<and> d < ?n \<and> c < ?lines \<and> c \<le> ?gl + ?s \<and>
        matched (bracketWeight v op cl) (?gl * ?n + ?col) (c * ?n + d)"
      using forward_iff [OF k(1) assms(3,4) Open(2), of d ?lines "?gl + ?s" c]
        scan_columns(1) [OF n k(1) assms(3,4)] by blast
    ultimately have c: "computeBracket v = p \<longleftrightarrow> a = ?gl \<and> b = ?col \<and> 0 \<le> d \<and> d < ?n \<and> c < ?lines \<and> c \<le> ?gl + ?s \<and>
        matched (bracketWeight v op cl) (?gl * ?n + ?col) (c * ?n + d)" by blast
    show ?thesis
    proof
      assume "computeBracket v = p"
      then have h: "a = ?gl" "b = ?col" "0 \<le> d" "d < ?n" "c < ?lines" "c \<le> ?gl + ?s"
          "matched (bracketWeight v op cl) (?gl * ?n + ?col) (c * ?n + d)" unfolding c by blast+
      then show "partners v p \<and> (atCursor v (bp_line1 p) (bp_col1 p) \<or> atCursor v (bp_line2 p) (bp_col2 p))"
        using Open assms(1,3,4) sb matched_codes(2) [OF h(7) assms(3,4) h(3,4)]
        by (auto simp: partners_def p atCursor_def intro!: bexI [of _ "(op, cl)"])
    next
      assume "partners v p \<and> (atCursor v (bp_line1 p) (bp_col1 p) \<or> atCursor v (bp_line2 p) (bp_col2 p))"
      then obtain op' cl' where h: "(op', cl') \<in> set bracketKinds" "getCellCodepoint v a b = op'" "getCellCodepoint v c d = cl'"
          "c < ?lines" "c \<le> a + ?s" "0 \<le> d" "d < ?n" "matched (bracketWeight v op' cl') (a * ?n + b) (c * ?n + d)"
          "a = ?gl \<and> b = ?col \<or> c = ?gl \<and> d = ?col"
        by (auto simp: partners_def p atCursor_def)
      then show "computeBracket v = p" unfolding c using other [OF h(1)] by auto
    qed
  next
    case Close
    note k = bracketKinds_find [OF Close(1)]
    have other: "op' = op \<and> cl' = cl \<and> ?ch \<noteq> op'" if "(op', cl') \<in> set bracketKinds" "?ch = op' \<or> ?ch = cl'" for op' cl'
      using that Close by (auto simp: bracketKinds_def)
    have "computeBracket v = p \<longleftrightarrow> c = ?gl \<and> d = ?col \<and>
        scanBackward (getCellCodepoint v) op cl ?n (?gl - ?s) ?gl (?col - 1) 1 = Some (a, b)"
      using np by (auto simp: computeBracket_def Let_def Close(2) k(3,4) p noPair_def split: option.splits)
    moreover have "scanBackward (getCellCodepoint v) op cl ?n (?gl - ?s) ?gl (?col - 1) 1 = Some (a, b) \<longleftrightarrow>
        0 \<le> b \<and> b < ?n \<and> 0 \<le> a \<and> ?gl - ?s \<le> a \<and>
        matched (bracketWeight v op cl) (a * ?n + b) (?gl * ?n + ?col)"
      using backward_iff [OF k(1) assms(3,4) Close(2), of b "?gl - ?s" a]
        scan_columns(2) [OF n k(1) assms(3,4)] by blast
    ultimately have c: "computeBracket v = p \<longleftrightarrow> c = ?gl \<and> d = ?col \<and> 0 \<le> b \<and> b < ?n \<and> 0 \<le> a \<and> ?gl - ?s \<le> a \<and>
        matched (bracketWeight v op cl) (a * ?n + b) (?gl * ?n + ?col)" by blast
    show ?thesis
    proof
      assume "computeBracket v = p"
      then have h: "c = ?gl" "d = ?col" "0 \<le> b" "b < ?n" "0 \<le> a" "?gl - ?s \<le> a"
          "matched (bracketWeight v op cl) (a * ?n + b) (?gl * ?n + ?col)" unfolding c by blast+
      then show "partners v p \<and> (atCursor v (bp_line1 p) (bp_col1 p) \<or> atCursor v (bp_line2 p) (bp_col2 p))"
        using Close assms(2-4) matched_codes(1) [OF h(7) h(3,4) assms(3,4)]
        by (auto simp: partners_def p atCursor_def intro!: bexI [of _ "(op, cl)"])
    next
      assume "partners v p \<and> (atCursor v (bp_line1 p) (bp_col1 p) \<or> atCursor v (bp_line2 p) (bp_col2 p))"
      then obtain op' cl' where h: "(op', cl') \<in> set bracketKinds" "getCellCodepoint v a b = op'" "getCellCodepoint v c d = cl'"
          "0 \<le> a" "c \<le> a + ?s" "0 \<le> b" "b < ?n" "matched (bracketWeight v op' cl') (a * ?n + b) (c * ?n + d)"
          "a = ?gl \<and> b = ?col \<or> c = ?gl \<and> d = ?col"
        by (auto simp: partners_def p atCursor_def)
      then show "computeBracket v = p" unfolding c using other [OF h(1)] by auto
    qed
  next
    case Neither
    then have "find (\<lambda>(a, b). ?ch = a) bracketKinds = None" "find (\<lambda>(a, b). ?ch = b) bracketKinds = None"
      by (auto simp: bracketKinds_def)
    then have "computeBracket v = noPair" by (simp add: computeBracket_def Let_def)
    moreover have "\<not> (partners v p \<and> (atCursor v (bp_line1 p) (bp_col1 p) \<or> atCursor v (bp_line2 p) (bp_col2 p)))"
      using Neither by (auto simp: partners_def p atCursor_def)
    ultimately show ?thesis using assms(5) by auto
  qed
qed

text \<open>The partner's partner: with the cursor at the other end the same pair is found.\<close>

definition cursorTo :: "int \<Rightarrow> int \<Rightarrow> term_view \<Rightarrow> term_view" where
  "cursorTo l c v = v\<lparr>m_grid := (m_grid v)\<lparr>m_cursorRow := l - scrollbackSize v, m_cursorCol := c\<rparr>\<rparr>"

lemma cursorTo_frame:
  "getCellCodepoint (cursorTo l c v) = getCellCodepoint v" "scrollbackSize (cursorTo l c v) = scrollbackSize v"
  "m_rows (m_grid (cursorTo l c v)) = m_rows (m_grid v)" "m_cols (m_grid (cursorTo l c v)) = m_cols (m_grid v)"
  by (simp_all add: fun_eq_iff cursorTo_def getCellCodepoint_def cellAtGlobal_def scrollbackSize_def Let_def
      cellAt_def lineAt_def cong: if_cong split del: if_split)

lemma partners_cursorTo: "partners (cursorTo l c v) p = partners v p"
  by (simp add: partners_def cursorTo_frame bracketWeight_fun(1))

lemma bracket_partner:
  assumes "0 \<le> m_cursorRow (m_grid v)" "m_cursorRow (m_grid v) < m_rows (m_grid v)"
    "0 \<le> m_cursorCol (m_grid v)" "m_cursorCol (m_grid v) < m_cols (m_grid v)" "computeBracket v = p" "p \<noteq> noPair"
  shows "computeBracket (cursorTo (bp_line2 p) (bp_col2 p) v) = p"
    "bp_line1 p \<ge> scrollbackSize v \<Longrightarrow> computeBracket (cursorTo (bp_line1 p) (bp_col1 p) v) = p"
proof -
  have h: "partners v p" "atCursor v (bp_line1 p) (bp_col1 p) \<or> atCursor v (bp_line2 p) (bp_col2 p)"
    using bracket_iff [OF assms(1-4,6)] assms(5) by auto
  have r: "0 \<le> bp_line1 p" "bp_line2 p < scrollbackSize v + m_rows (m_grid v)"
      "0 \<le> bp_col1 p" "bp_col1 p < m_cols (m_grid v)" "0 \<le> bp_col2 p" "bp_col2 p < m_cols (m_grid v)"
    using h(1) by (auto simp: partners_def)
  have "bp_line1 p * m_cols (m_grid v) + bp_col1 p < bp_line2 p * m_cols (m_grid v) + bp_col2 p"
    using h(1) by (auto simp: partners_def matched_def)
  then have "bp_line1 p * m_cols (m_grid v) < (bp_line2 p + 1) * m_cols (m_grid v)"
    using r by (simp add: algebra_simps)
  then have le: "bp_line1 p \<le> bp_line2 p" using r(3,4) by (simp add: mult_less_cancel_right)
  have on: "scrollbackSize v \<le> bp_line2 p" using h(2) le assms(1) by (auto simp: atCursor_def)
  have at: "atCursor (cursorTo l c v) l c" for l c by (simp add: atCursor_def cursorTo_frame) (simp add: cursorTo_def)
  have move: "computeBracket (cursorTo l c v) = p"
    if "scrollbackSize v \<le> l" "l < scrollbackSize v + m_rows (m_grid v)" "0 \<le> c" "c < m_cols (m_grid v)"
      "atCursor (cursorTo l c v) (bp_line1 p) (bp_col1 p) \<or> atCursor (cursorTo l c v) (bp_line2 p) (bp_col2 p)" for l c
  proof -
    have "m_cursorRow (m_grid (cursorTo l c v)) = l - scrollbackSize v" "m_cursorCol (m_grid (cursorTo l c v)) = c"
      by (simp_all add: cursorTo_def)
    then show ?thesis
      using bracket_iff [of "cursorTo l c v" p] that h(1) assms(6) by (simp add: cursorTo_frame partners_cursorTo)
  qed
  show "computeBracket (cursorTo (bp_line2 p) (bp_col2 p) v) = p"
    by (rule move) (use on r at in simp_all)
  show "computeBracket (cursorTo (bp_line1 p) (bp_col1 p) v) = p" if "bp_line1 p \<ge> scrollbackSize v"
    by (rule move) (use that le r at in simp_all)
qed

end
