(* ===== verification/TermBlocks.thy ===== *)
theory TermBlocks
  imports TermSearch
begin

text \<open>
  Command blocks of \<open>TerminalWidget\<close> (\<open>src/src/terminalwidget.cpp\<close>): the prompt region of a
  line, the text of a command and of its output, copying, re-running with its confirmation, and
  folding. \<open>promptRegions()\<close> first applies the pending shift of the regions.
\<close>

section \<open>Blocks\<close>

definition shifted :: "term_view \<Rightarrow> term_view" where
  "shifted v = v\<lparr>m_grid := applyPromptRegionShift (m_grid v)\<rparr>"

definition regionsOf :: "term_view \<Rightarrow> prompt_region list" where
  "regionsOf v = m_promptRegions (m_grid (shifted v))"

fun regionIndexFrom :: "int \<Rightarrow> int \<Rightarrow> prompt_region list \<Rightarrow> int \<Rightarrow> int" where
  "regionIndexFrom gridEnd l [] i = -1"
| "regionIndexFrom gridEnd l (r # rs) i =
     (let lim = (case rs of [] \<Rightarrow> gridEnd | r' # _ \<Rightarrow> startLine r')
      in if l \<ge> startLine r \<and> l < lim then i else regionIndexFrom gridEnd l rs (i + 1))"

definition gridEnd :: "term_view \<Rightarrow> int" where
  "gridEnd v = scrollbackSize v + m_rows (m_grid v)"

definition promptRegionIndexAtLine :: "term_view \<Rightarrow> int \<Rightarrow> int" where
  "promptRegionIndexAtLine v l = regionIndexFrom (gridEnd v) l (regionsOf v) 0"

definition outputLines :: "int \<Rightarrow> term_view \<Rightarrow> int \<times> int" where
  "outputLines ix v = fst (promptRegionOutputLines ix (m_grid v))"

section \<open>Text of a block\<close>

definition lineTextQ :: "term_view \<Rightarrow> int \<Rightarrow> qstring" where
  "lineTextQ v l = the (lineText v l)"

definition chopBlanks :: "qstring \<Rightarrow> qstring" where
  "chopBlanks t = rev (dropWhile (\<lambda>u. isSpaceQ u \<and> u \<noteq> 0x0A) (rev t))"

text \<open>The prompt before the command is taken off its first line.\<close>

definition commandLine :: "term_view \<Rightarrow> prompt_region \<Rightarrow> int \<Rightarrow> qstring" where
  "commandLine v pr l =
     (let line = lineTextQ v l;
          line = (if l = endLine pr then
                    (let from = (if vsize line = m_cols (m_grid v) then commandStartCol pr
                                 else offsetAt (lineColumns v l) (commandStartCol pr))
                     in if from > 0 \<and> from < vsize line then drop (nat from) line
                        else if from \<ge> vsize line then [] else line)
                  else line)
      in chopBlanks line)"

definition commandEndLine :: "prompt_region list \<Rightarrow> int \<Rightarrow> int" where
  "commandEndLine rs ix =
     (let pr = vget rs ix in
      if outputStartLine pr > endLine pr then outputStartLine pr - 1
      else if ix + 1 < vsize rs \<and> startLine (vget rs (ix + 1)) > endLine pr
        then startLine (vget rs (ix + 1)) - 1
      else endLine pr)"

definition commandTextAt :: "int \<Rightarrow> term_view \<Rightarrow> qstring" where
  "commandTextAt ix v =
     (let rs = regionsOf v in
      if ix < 0 \<or> ix \<ge> vsize rs then []
      else
        (let pr = vget rs ix
         in fold (\<lambda>l cmd. (if cmd \<noteq> [] then cmd @ [0x0A] else cmd) @ commandLine v pr l)
              [endLine pr .. commandEndLine rs ix] []))"

definition outputTextAt :: "int \<Rightarrow> term_view \<Rightarrow> qstring" where
  "outputTextAt ix v =
     (let rs = regionsOf v in
      if ix < 0 \<or> ix \<ge> vsize rs then []
      else if \<not> hasOutput (vget rs ix) then []
      else
        (let (outStart, outEnd) = outputLines ix v
         in if outStart \<ge> outEnd then []
            else fold (\<lambda>l t. t @ chopBlanks (lineTextQ v l) @ [0x0A]) [outStart .. outEnd - 1] []))"

definition lastCommandOutput :: "int \<Rightarrow> term_view \<Rightarrow> qstring" where
  "lastCommandOutput commandOutputStartLine v =
     (let startL = commandOutputStartLine in
      if startL < 0 then []
      else
        (let endL = scrollbackSize v + m_cursorRow (m_grid v);
             startL = (if endL - startL > 100 then endL - 100 else startL)
         in trimmedQ (concat (map (\<lambda>l. lineTextQ v l @ [0x0A]) [startL .. endL - 1]))))"

section \<open>Copying\<close>

text \<open>The newest finished block with output; the characters copied, or -1.\<close>

definition lastFinished :: "(prompt_region \<Rightarrow> bool) \<Rightarrow> prompt_region list \<Rightarrow> int option" where
  "lastFinished P rs = find (\<lambda>i. P (vget rs i)) (rev (columns (vsize rs)))"

definition copyLastCommandOutput :: "term_view \<Rightarrow> int \<times> clip_write list" where
  "copyLastCommandOutput v =
     (case lastFinished (\<lambda>pr. commandEndMs pr > 0 \<and> hasOutput pr) (regionsOf v) of
        None \<Rightarrow> (-1, [])
      | Some i \<Rightarrow> (let t = outputTextAt i v in if t = [] then (-1, []) else (vsize t, [ClipText ClipMain t])))"

definition selectCommandOutput :: "int \<Rightarrow> bool \<Rightarrow> term_view \<Rightarrow> term_view \<times> clip_write list" where
  "selectCommandOutput l rect v =
     (let ix = promptRegionIndexAtLine v l in
      if ix < 0 then (v, [])
      else
        (let (outFirst, outEnd) = outputLines ix v in
         if outFirst \<ge> outEnd then (v, [])
         else
           (let v = v\<lparr>m_hasSelection := True, m_selStart := (outFirst, 0),
                      m_selEnd := (outEnd - 1, m_cols (m_grid v) - 1)\<rparr>
            in (v, copySelection rect v))))"

section \<open>Re-running\<close>

text \<open>
  What is written to the shell, or the command a confirmation shows; accepting it writes.
  \<open>toUtf8\<close> is Qt's.
\<close>

datatype rerun = RerunNothing | RerunWritten "worker_call list" | RerunAsked qstring

definition enterCalls :: "u8 list \<Rightarrow> worker_call list" where
  "enterCalls bytes = [WriteBytes bytes, WriteBytes [13]]"

definition rerunCommandAt :: "(qstring \<Rightarrow> u8 list) \<Rightarrow> bool \<Rightarrow> int \<Rightarrow> term_view \<Rightarrow> rerun" where
  "rerunCommandAt toUtf8 hasPty ix v =
     (let cmd = commandTextAt ix v in
      if cmd = [] \<or> \<not> hasPty then RerunNothing
      else if m_osc133Key (m_grid v) \<noteq> [] then RerunWritten (enterCalls (toUtf8 cmd))
      else RerunAsked cmd)"

definition rerunAccepted :: "(qstring \<Rightarrow> u8 list) \<Rightarrow> qstring \<Rightarrow> worker_call list" where
  "rerunAccepted toUtf8 cmd = enterCalls (toUtf8 cmd)"

definition rerunLastCommand :: "(qstring \<Rightarrow> u8 list) \<Rightarrow> bool \<Rightarrow> term_view \<Rightarrow> int \<times> rerun" where
  "rerunLastCommand toUtf8 hasPty v =
     (case lastFinished (\<lambda>pr. commandEndMs pr > 0) (regionsOf v) of
        None \<Rightarrow> (-1, RerunNothing)
      | Some i \<Rightarrow> (i, rerunCommandAt toUtf8 hasPty i v))"

section \<open>Folding\<close>

definition foldable :: "prompt_region \<Rightarrow> bool" where
  "foldable pr \<longleftrightarrow> hasOutput pr \<and> \<not> commandEndMs pr = 0"

definition toggleFoldAt :: "int \<Rightarrow> term_view \<Rightarrow> term_view" where
  "toggleFoldAt ix v0 =
     (let v = shifted v0; rs = m_promptRegions (m_grid v) in
      if ix < 0 \<or> ix \<ge> vsize rs then v
      else if \<not> hasOutput (vget rs ix) \<or> commandEndMs (vget rs ix) = 0 then v
      else v\<lparr>m_grid := (m_grid v)\<lparr>m_promptRegions :=
             vupd ix (\<lambda>pr. pr\<lparr>folded := \<not> folded pr\<rparr>) rs\<rparr>\<rparr>)"

fun toggleFirst :: "int \<Rightarrow> prompt_region list \<Rightarrow> prompt_region list" where
  "toggleFirst l [] = []"
| "toggleFirst l (pr # rs) =
     (if l \<ge> startLine pr \<and> hasOutput pr \<and> commandEndMs pr > 0
      then pr\<lparr>folded := \<not> folded pr\<rparr> # rs else pr # toggleFirst l rs)"

definition toggleFoldAtCursor :: "term_view \<Rightarrow> term_view" where
  "toggleFoldAtCursor v0 =
     (let v = shifted v0;
          l = scrollbackSize v + m_cursorRow (m_grid v)
      in v\<lparr>m_grid := (m_grid v)\<lparr>m_promptRegions := toggleFirst l (m_promptRegions (m_grid v))\<rparr>\<rparr>)"

section \<open>Facts\<close>

subsection \<open>The block of a line\<close>

text \<open>Blocks in order of their lines: each line is in at most one, and the index says which.\<close>

definition blockEnd :: "int \<Rightarrow> prompt_region list \<Rightarrow> nat \<Rightarrow> int" where
  "blockEnd gEnd rs k = (if k + 1 < length rs then startLine (rs ! (k + 1)) else gEnd)"

definition inBlock :: "int \<Rightarrow> prompt_region list \<Rightarrow> int \<Rightarrow> nat \<Rightarrow> bool" where
  "inBlock gEnd rs l k \<longleftrightarrow> k < length rs \<and> startLine (rs ! k) \<le> l \<and> l < blockEnd gEnd rs k"

lemma inBlock_Cons:
  "inBlock gEnd (r # rs) l 0 \<longleftrightarrow> startLine r \<le> l \<and> l < (case rs of [] \<Rightarrow> gEnd | r' # _ \<Rightarrow> startLine r')"
  "inBlock gEnd (r # rs) l (Suc k) \<longleftrightarrow> inBlock gEnd rs l k"
  by (cases rs; simp add: inBlock_def blockEnd_def)+

lemma regionIndexFrom_found:
  "inBlock gEnd rs l k \<Longrightarrow> (\<And>j. j < k \<Longrightarrow> \<not> inBlock gEnd rs l j) \<Longrightarrow> regionIndexFrom gEnd l rs i = i + int k"
proof (induction rs arbitrary: i k)
  case (Cons r rs)
  show ?case
  proof (cases k)
    case 0
    then show ?thesis using Cons.prems(1) by (simp add: inBlock_Cons)
  next
    case (Suc m)
    have "regionIndexFrom gEnd l rs (i + 1) = i + 1 + int m"
    proof (rule Cons.IH)
      show "inBlock gEnd rs l m" using Cons.prems(1) Suc by (simp add: inBlock_Cons)
      show "\<not> inBlock gEnd rs l j" if "j < m" for j
        using Cons.prems(2) [of "Suc j"] that Suc by (simp add: inBlock_Cons)
    qed
    then show ?thesis using Cons.prems(2) [of 0] Suc by (auto simp: inBlock_Cons Let_def)
  qed
qed (simp add: inBlock_def)

lemma regionIndexFrom_none: "(\<And>k. \<not> inBlock gEnd rs l k) \<Longrightarrow> regionIndexFrom gEnd l rs i = -1"
proof (induction rs arbitrary: i)
  case (Cons r rs)
  have "\<not> inBlock gEnd rs l k" for k using Cons.prems [of "Suc k"] by (simp add: inBlock_Cons)
  from Cons.IH [OF this] show ?case using Cons.prems [of 0] by (auto simp: inBlock_Cons Let_def)
qed simp

lemma inBlock_unique:
  assumes "sorted (map startLine rs)" "inBlock gEnd rs l j" "inBlock gEnd rs l k"
  shows "j = k"
proof -
  have "\<not> j < k" if "inBlock gEnd rs l j" "inBlock gEnd rs l k" for j k
  proof
    assume "j < k"
    then have "startLine (rs ! (j + 1)) \<le> startLine (rs ! k)"
      using sorted_nth_mono [OF assms(1), of "j + 1" k] that(2) by (simp add: inBlock_def)
    then show False using that \<open>j < k\<close> by (simp add: inBlock_def blockEnd_def)
  qed
  from this [OF assms(2,3)] this [OF assms(3,2)] show ?thesis by simp
qed

text \<open>On the first line of a command the two ways to find where it starts agree.\<close>

lemma one_unit_cells:
  assumes "0 \<le> m_cols (m_grid v)" "vsize (lineTextCells v l) = m_cols (m_grid v)" "0 \<le> c" "c \<le> m_cols (m_grid v)"
  shows "vsize (unitsBefore v l c) = c"
proof -
  have ge: "c - a \<le> vsize (concat (map (cellUnits v l) [a .. c - 1]))" if "a \<le> c" for a c
    using that
  proof (induction "nat (c - a)" arbitrary: c)
    case (Suc k)
    have "c - 1 - a \<le> vsize (concat (map (cellUnits v l) [a .. c - 1 - 1]))"
      by (rule Suc.hyps(1)) (use Suc.hyps(2) in simp_all)
    moreover have "1 \<le> vsize (cellUnits v l (c - 1))"
      using unitCount_pos [of v l "c - 1"] by (simp add: unitCount_units vsize_def Suc_le_eq)
    ultimately show ?case using Suc.hyps(2) by (simp add: upto_rec2)
  qed simp
  have "lineTextCells v l = unitsBefore v l c @ concat (map (cellUnits v l) [c .. m_cols (m_grid v) - 1])"
    using columns_split [OF assms(3,4)] by (simp add: lineTextCells_def unitsBefore_def)
  moreover have "c \<le> vsize (unitsBefore v l c)" using ge [of 0 c] assms(3) by (simp add: unitsBefore_def columns_def)
  moreover have "m_cols (m_grid v) - c \<le> vsize (concat (map (cellUnits v l) [c .. m_cols (m_grid v) - 1]))"
    using ge [of c "m_cols (m_grid v)"] assms(4) by simp
  ultimately show ?thesis using assms(2) by simp
qed

lemma command_start:
  assumes "0 \<le> m_cols (m_grid v)" "vsize (lineTextCells v l) = m_cols (m_grid v)" "0 \<le> c" "c \<le> m_cols (m_grid v)"
  shows "offsetAt (lineColumns v l) c = c"
  using one_unit_cells [OF assms] offsetAt_units [OF assms(3,4)] by simp

end
