(* ===== verification/TermTextProps.thy ===== *)
theory TermTextProps
  imports TermBlocks TermViewProps
begin

text \<open>
  The properties of the text of the view: its lines, columns and accessible offsets, the
  selection, the search, brackets and command blocks.
\<close>

section \<open>Lines\<close>

text \<open>
  C14. The fast path of \<open>lineText\<close> for history writes only inside its buffer and gives, unit for
  unit, what the walk over the cells gives.
\<close>
theorem history_text_in_buffer:
  "0 \<le> m_cols (m_grid v) \<Longrightarrow> lineText v l = Some (lineTextCells v l)"
  by (rule lineText_cells)

theorem history_text_in_buffer_witness: "lineText view1 0 = Some (lineTextCells view1 0)"
  by (rule history_text_in_buffer) (simp add: view1_grid grid1_pushed)

text \<open>
  C15. Offsets into the text of a line and columns of the grid convert without loss: the units from
  the offset of a column are those of its cell, and that offset leads back to the column; a
  span of the text covers exactly columns inside the grid, every unit of it among them.
\<close>
theorem text_offsets_are_columns:
  fixes v l
  assumes "0 \<le> m_cols (m_grid v)"
  defines "lc \<equiv> lineColumns v l" and "t \<equiv> lineTextCells v l"
  shows "(\<forall>c. 0 \<le> c \<and> c < m_cols (m_grid v) \<longrightarrow>
       take (length (cellUnits v l c)) (drop (nat (offsetAt lc c)) t) = cellUnits v l c \<and>
       columnAt lc (offsetAt lc c) = c) \<and>
     (\<forall>s e. 0 \<le> s \<and> s < e \<and> e \<le> vsize t \<longrightarrow>
       0 \<le> columnAt lc s \<and> lastColumnBefore lc e < m_cols (m_grid v) \<and>
       (\<forall>k. s \<le> k \<and> k < e \<longrightarrow> columnAt lc s \<le> columnAt lc k \<and> columnAt lc k \<le> lastColumnBefore lc e))"
proof -
  have "take (length (cellUnits v l c)) (drop (nat (offsetAt lc c)) t) = cellUnits v l c \<and>
      columnAt lc (offsetAt lc c) = c" if "0 \<le> c" "c < m_cols (m_grid v)" for c
  proof
    show "take (length (cellUnits v l c)) (drop (nat (offsetAt lc c)) t) = cellUnits v l c"
      using offsetAt_units [of c v l] that units_split [OF that, of l] by (simp add: lc_def t_def vsize_def)
    show "columnAt lc (offsetAt lc c) = c" unfolding lc_def by (rule columnAt_offsetAt [OF that])
  qed
  moreover have "0 \<le> columnAt lc s \<and> lastColumnBefore lc e < m_cols (m_grid v) \<and>
      (\<forall>k. s \<le> k \<and> k < e \<longrightarrow> columnAt lc s \<le> columnAt lc k \<and> columnAt lc k \<le> lastColumnBefore lc e)"
    if "0 \<le> s" "s < e" "e \<le> vsize t" for s e
    using span_columns [OF that(1,2) that(3) [unfolded t_def] assms(1)] by (simp add: lc_def)
  ultimately show ?thesis by blast
qed

theorem text_offsets_are_columns_witness:
  "columnAt (lineColumns view0 2) (offsetAt (lineColumns view0 2) 5) = 5"
  using text_offsets_are_columns [of view0 2] by (simp add: view0_def grid0_fields)

text \<open>
  C36. Assistive technology finds its way back: the caret lies within the accessible text, and any
  point of the rectangle given for an offset leads to the first unit of the same cell, which
  has the same rectangle.
\<close>
theorem accessible_offsets_read_back:
  "0 \<le> m_cols (m_grid v) \<Longrightarrow>
   0 \<le> accessibleCaretOffset v \<and> accessibleCaretOffset v \<le> vsize (accessibleText v) \<and>
   (\<forall>cm off rect dx dy. accessibleRectForOffset cm v off = Some rect \<and>
      0 \<le> dx \<and> dx < qr_width rect \<and> 0 \<le> dy \<and> dy < qr_height rect \<longrightarrow>
      0 \<le> accessibleOffsetAt cm v (qr_x rect + dx) (qr_y rect + dy) \<and>
      accessibleOffsetAt cm v (qr_x rect + dx) (qr_y rect + dy) \<le> off \<and>
      accessibleRectForOffset cm v (accessibleOffsetAt cm v (qr_x rect + dx) (qr_y rect + dy)) = Some rect)"
  using caret_bounds rect_point by blast

theorem accessible_offsets_read_back_witness: "0 \<le> accessibleCaretOffset view1"
  using accessible_offsets_read_back [of view1] by (simp add: view1_grid grid1_pushed)

section \<open>Selection\<close>

text \<open>
  What is highlighted is what is copied: the text a line of the selection contributes, before
  its trailing spaces are cut, is that of exactly the cells \<open>contains\<close> highlights.
\<close>
theorem selection_copies_highlight:
  fixes rect v
  defines "sel \<equiv> orderedSelection rect v"
  assumes "sel_startLine sel \<le> l" "l \<le> sel_endLine sel" "0 \<le> m_cols (m_grid v)"
    and "0 \<le> snd (m_selStart v)" "snd (m_selStart v) < m_cols (m_grid v)"
    and "0 \<le> snd (m_selEnd v)" "snd (m_selEnd v) < m_cols (m_grid v)"
  shows "selectionLine sel v l =
    chopSpaces (concat (map (a11yCell v l) (filter (selContains sel l) (columns (m_cols (m_grid v))))))"
proof -
  let ?n = "m_cols (m_grid v)"
  obtain a b where ab: "selColumns ?n sel l = (a, b)" by fastforce
  have r: "0 \<le> a" "b < ?n"
    using ab assms(4-8) by (auto simp: selColumns_def sel_def orderedSelection_def Let_def split: if_splits)
  have "filter (selContains sel l) (columns ?n) = filter (\<lambda>c. a \<le> c \<and> c \<le> b) (columns ?n)"
    by (rule filter_cong [OF refl]) (use contains_columns [OF assms(2,3), of _ ?n] in \<open>auto simp: ab columns_def\<close>)
  also have "\<dots> = [a .. b]"
    by (rule sorted_distinct_set_unique) (use r in \<open>auto simp: columns_def intro: sorted_wrt_filter\<close>)
  finally show ?thesis by (simp add: selectionLine_def ab a11yComposeCols_def)
qed

definition selView :: term_view where
  "selView = view1\<lparr>m_hasSelection := True, m_selStart := (2, 6), m_selEnd := (0, 3)\<rparr>"

lemma selView_fields:
  "m_grid selView = grid1" "m_selStart selView = (2, 6)" "m_selEnd selView = (0, 3)" "m_hasSelection selView"
  by (simp_all add: selView_def view1_grid)

theorem selection_copies_highlight_witness:
  "selectionLine (orderedSelection False selView) selView 1 =
   chopSpaces (concat (map (a11yCell selView 1) (filter (selContains (orderedSelection False selView) 1) (columns 8))))"
  using selection_copies_highlight [of False selView 1]
  by (simp add: selView_fields grid1_pushed orderedSelection_def)

text \<open>
  C37. The capped selection is the end of the whole one, cut at a line: nothing is skipped without
  a cap, and if lines are skipped what is kept is one character short of the cap at most.
\<close>
theorem selection_tail_is_suffix:
  fixes rect v
  assumes "m_hasSelection v"
  defines "f \<equiv> selectionLine (orderedSelection rect v) v"
    and "a \<equiv> sel_startLine (orderedSelection rect v)" and "z \<equiv> sel_endLine (orderedSelection rect v)"
  shows "\<exists>k. 0 \<le> k \<and> k \<le> z - a \<and> selectedText rect v = joinLines (map f [a .. z]) \<and>
    selectedTail rect v n = (joinLines (map f [a + k .. z]), k) \<and>
    selectedText rect v = (if k = 0 then [] else joinLines (map f [a .. a + k - 1]) @ [0x0A]) @ fst (selectedTail rect v n) \<and>
    (k > 0 \<longrightarrow> n \<le> vsize (fst (selectedTail rect v n)) + 1)"
proof -
  have az: "a \<le> z" using ordered [of rect v] by (auto simp: a_def z_def)
  obtain k where k: "0 \<le> k" "k \<le> z - a" "assembleSelectionTail a z f n = (joinLines (map f [a + k .. z]), k)"
      "k > 0 \<Longrightarrow> n \<ge> 0 \<and> n \<le> vsize (joinLines (map f [a + k .. z])) + 1"
    using assemble_tail [OF az, of f n] by metis
  obtain j where j: "assembleSelectionTail a z f (-1) = (joinLines (map f [a + j .. z]), j)" "j = 0"
    using assemble_tail [OF az, of f "-1"] by (metis neg_less_0_iff_less zero_less_one)
  have s: "selectedTail rect v m = assembleSelectionTail a z f m" for m
    using assms(1) by (simp add: selectedTail_def f_def a_def z_def Let_def)
  have "joinLines (map f [a .. z]) =
      (if k = 0 then [] else joinLines (map f [a .. a + k - 1]) @ [0x0A]) @ joinLines (map f [a + k .. z])"
  proof (cases "k = 0")
    case False
    then have "[a .. z] = [a .. a + k - 1] @ [a + k .. z]" using k(1,2) by (simp add: upto_split1 [of a "a + k" z])
    moreover have "[a .. a + k - 1] \<noteq> []" "[a + k .. z] \<noteq> []" using False k(1,2) by auto
    ultimately show ?thesis using False by (simp add: joinLines_append)
  qed simp
  then show ?thesis using k j s by (intro exI [of _ k]) (auto simp: selectedText_def)
qed

theorem selection_tail_is_suffix_witness:
  "\<exists>p. selectedText False selView = p @ fst (selectedTail False selView 5)"
  using selection_tail_is_suffix [OF selView_fields(4), of False 5] by blast

text \<open>
  C38. No cell can put markup into the rich copy: read as HTML, it is the characters of the selected
  cells, lines joined by line feeds, and nothing else.
\<close>
theorem rich_copy_reads_as_text:
  "m_hasSelection v \<Longrightarrow> copySelectionRich rect v = [ClipMime t (Some h)] \<Longrightarrow>
   htmlRead False h = joinLines (map (richRow (orderedSelection rect v) v)
     [sel_startLine (orderedSelection rect v) .. sel_endLine (orderedSelection rect v)])"
  using richHtml_reads [of "orderedSelection rect v" v] ordered [of rect v]
  by (auto simp: copySelectionRich_def Let_def split: if_splits)

theorem rich_copy_reads_as_text_witness:
  "htmlRead False (richHtml (orderedSelection False selView) selView) =
   joinLines (map (richRow (orderedSelection False selView) selView) [0, 1, 2])"
proof -
  have "copySelectionRich False selView = [ClipMime (selectedText False selView) (Some (richHtml (orderedSelection False selView) selView))]"
    by (simp add: copySelectionRich_def Let_def selView_fields kRichCopyCellCap_def grid1_pushed orderedSelection_def)
  from rich_copy_reads_as_text [OF selView_fields(4) this] show ?thesis
    by (simp add: orderedSelection_def selView_fields upto.simps)
qed

section \<open>Search\<close>

text \<open>
  C39. Whatever the pattern, every match lies on the grid and the matches come in order of lines, so
  that the binary search of \<open>isCellSearchMatch\<close> answers as a scan of all of them; and when
  there is a match, the current one is one of them and its line is brought into view.
\<close>
theorem search_matches_on_grid:
  fixes E b v
  assumes "engine_ok E" "view_ok v"
  defines "s \<equiv> fst (performSearch E b v)" and "w \<equiv> snd (performSearch E b v)"
  shows "(\<forall>m \<in> set (ss_matches s). 0 \<le> sm_globalLine m \<and> sm_globalLine m < gridEnd v \<and>
       match_ok (m_cols (m_grid v)) m) \<and>
     sorted (map sm_globalLine (ss_matches s)) \<and>
     (\<forall>l c. isCellSearchMatch s l c \<longleftrightarrow>
       (\<exists>m \<in> set (ss_matches s). sm_globalLine m = l \<and> sm_col m \<le> c \<and> c < sm_col m + sm_length m)) \<and>
     (ss_matches s \<noteq> [] \<longrightarrow> 0 \<le> ss_current s \<and> ss_current s < vsize (ss_matches s) \<and>
       firstVisibleGlobalLine w \<le> sm_globalLine (vget (ss_matches s) (ss_current s)) \<and>
       sm_globalLine (vget (ss_matches s) (ss_current s)) < firstVisibleGlobalLine w + m_rows (m_grid w))"
proof -
  have wf: "grid_wf (m_grid v)" using assms(2) by (simp add: view_ok_def view_base_def)
  have d: "1 \<le> m_rows (m_grid v)" "0 \<le> m_cols (m_grid v)" using wf_dims [OF wf] by simp_all
  show ?thesis
  proof (cases "ss_matches s = []")
    case True
    then show ?thesis by (simp add: isCellSearchMatch_def)
  next
    case False
    then obtain re where re: "sb_text b \<noteq> []" "se_compile E (sb_caseSensitive b) (effectivePattern E b) = Some re"
      by (auto simp: s_def performSearch_def split: if_splits option.splits)
    define M where "M = concat (map (lineMatches re v) (columns (gridEnd v)))"
    let ?c = "firstFrom (scrollbackSize v - m_scrollOffset v + cdiv (m_rows (m_grid v)) 2) M"
    have "ss_matches s = M" using re by (simp add: s_def performSearch_def Let_def flip: gridEnd_def M_def)
    then have ms: "ss_matches s = M" "M \<noteq> []" using False by simp_all
    have P: "ss_current s = ?c" "w = scrollToCurrent s v"
      using re ms(2)
      by (simp_all add: s_def w_def performSearch_def Let_def del: concat_eq_Nil_conv flip: gridEnd_def M_def)
    note lm = lineMatches_ok [OF assms(1) re(2) d(2)]
    have "\<forall>m \<in> set M. 0 \<le> sm_globalLine m \<and> sm_globalLine m < gridEnd v \<and> match_ok (m_cols (m_grid v)) m"
      using lm by (fastforce simp: M_def columns_def)
    moreover have sorted: "sorted (map sm_globalLine M)"
      unfolding M_def by (rule sorted_lines) (use lm in \<open>auto simp: columns_def\<close>)
    moreover have "isCellSearchMatch s l c \<longleftrightarrow>
        (\<exists>m \<in> set M. sm_globalLine m = l \<and> sm_col m \<le> c \<and> c < sm_col m + sm_length m)" for l c
    proof -
      have "isCellSearchMatch s l c = list_ex (\<lambda>m. c \<ge> sm_col m \<and> c < sm_col m + sm_length m)
          (filter (\<lambda>m. sm_globalLine m = l) M)"
        using False unfolding isCellSearchMatch_def ms(1) by (simp only: sorted_line_matches [OF sorted] if_False)
      then show ?thesis by (auto simp: list_ex_iff)
    qed
    moreover have cur: "0 \<le> ss_current s" "ss_current s < vsize M"
      using firstFrom_range [OF ms(2)] by (simp_all add: P(1))
    moreover have "w = scrollToMatch (sm_globalLine (vget M (ss_current s))) v"
      using cur(1) by (simp add: P(2) scrollToCurrent_def ms)
    ultimately show ?thesis
      using match_shown [of "sm_globalLine (vget M (ss_current s))" v] d(1) unfolding ms(1)
      by (auto simp: firstVisibleGlobalLine_def gridEnd_def vget_def vsize_def nat_less_iff)
  qed
qed

definition engine0 :: search_engine where
  "engine0 = \<lparr>se_escape = id, se_compile = (\<lambda>cs p. Some (\<lambda>t. if t = [] then [] else [(0, 1)]))\<rparr>"

theorem search_matches_on_grid_witness:
  "sorted (map sm_globalLine (ss_matches (fst (performSearch engine0 \<lparr>sb_text = [0x41], sb_regexMode = False,
     sb_wholeWord = False, sb_caseSensitive = True\<rparr> view1))))"
proof -
  have "engine_ok engine0" by (auto simp: engine_ok_def engine0_def vsize_def Suc_le_eq)
  from search_matches_on_grid [OF this view1_ok] show ?thesis by blast
qed

text \<open>
  Stepping through the matches goes around: a step forward and a step back select the match one
  started from, and as many steps as there are matches do too.
\<close>
theorem search_steps_cycle:
  assumes "ss_matches s \<noteq> []" "0 \<le> ss_current s" "ss_current s < vsize (ss_matches s)"
  shows "ss_current (fst (searchPrev (searchNext (s, v)))) = ss_current s \<and>
    ss_current (fst (searchNext (searchPrev (s, v)))) = ss_current s \<and>
    ss_current (fst ((searchNext ^^ length (ss_matches s)) (s, v))) = ss_current s"
proof -
  let ?n = "vsize (ss_matches s)"
  have n: "0 < ?n" using assms by simp
  have next1: "fst (searchNext (s, v)) = stepTo ((ss_current s + 1) mod vsize (ss_matches s)) s"
    if "ss_matches s \<noteq> []" for s v using that by (simp add: searchNext_def Let_def)
  have prev1: "fst (searchPrev (s, v)) = stepTo ((ss_current s - 1 + vsize (ss_matches s)) mod vsize (ss_matches s)) s"
    if "ss_matches s \<noteq> []" for s v using that by (simp add: searchPrev_def Let_def)
  have st: "ss_matches (stepTo i s) = ss_matches s" "ss_current (stepTo i s) = i" for i s by (simp_all add: stepTo_def)
  have k: "ss_matches (fst ((searchNext ^^ k) (s, v))) = ss_matches s \<and>
      ss_current (fst ((searchNext ^^ k) (s, v))) = (ss_current s + int k) mod ?n" for k
  proof (induction k)
    case (Suc k)
    obtain s' v' where sv: "(searchNext ^^ k) (s, v) = (s', v')" by fastforce
    then have "fst ((searchNext ^^ Suc k) (s, v)) = stepTo ((ss_current s' + 1) mod ?n) s'"
      using Suc next1 [of s' v'] assms(1) by simp
    then show ?case using Suc sv by (simp add: st mod_add_left_eq mod_add_right_eq ac_simps)
  qed (use assms in simp)
  have cur: "(ss_current s + int (length (ss_matches s))) mod ?n = ss_current s"
    using assms(2,3) by (simp add: vsize_def)
  obtain s1 v1 where n1: "searchNext (s, v) = (s1, v1)" by fastforce
  obtain s2 v2 where p1: "searchPrev (s, v) = (s2, v2)" by fastforce
  have "s1 = stepTo ((ss_current s + 1) mod ?n) s" "s2 = stepTo ((ss_current s - 1 + ?n) mod ?n) s"
    using next1 [OF assms(1), of v] prev1 [OF assms(1), of v] n1 p1 by simp_all
  then show ?thesis
    using k [of "length (ss_matches s)"] cur assms n next1 [of s2 v2] prev1 [of s1 v1]
    by (simp add: n1 p1 st mod_diff_left_eq mod_add_left_eq)
qed

definition search0 :: search_state where
  "search0 = \<lparr>ss_matches = [\<lparr>sm_globalLine = 0, sm_col = 1, sm_length = 2\<rparr>, \<lparr>sm_globalLine = 3, sm_col = 0, sm_length = 4\<rparr>],
     ss_current = 1, ss_invalid = False, ss_label = []\<rparr>"

theorem search_steps_cycle_witness: "ss_current (fst (searchPrev (searchNext (search0, view1)))) = 1"
  using search_steps_cycle [of search0 view1] by (simp add: search0_def)

section \<open>Brackets\<close>

text \<open>
  C40. The bracket found is the partner: a pair is found exactly when the cursor is on a bracket
  whose partner - the matching one of its kind with everything between balanced - lies within
  the scan window, and then with the cursor on the other end the same pair is found.
\<close>
theorem bracket_found_is_partner:
  assumes "grid_wf (m_grid v)" "p \<noteq> noPair"
  shows "(computeBracket v = p \<longleftrightarrow>
      partners v p \<and> (atCursor v (bp_line1 p) (bp_col1 p) \<or> atCursor v (bp_line2 p) (bp_col2 p))) \<and>
    (computeBracket v = p \<longrightarrow> computeBracket (cursorTo (bp_line2 p) (bp_col2 p) v) = p \<and>
      (bp_line1 p \<ge> scrollbackSize v \<longrightarrow> computeBracket (cursorTo (bp_line1 p) (bp_col1 p) v) = p))"
proof -
  have c: "0 \<le> m_cursorRow (m_grid v)" "m_cursorRow (m_grid v) < m_rows (m_grid v)"
      "0 \<le> m_cursorCol (m_grid v)" "m_cursorCol (m_grid v) < m_cols (m_grid v)"
    using assms(1) by (simp_all add: wf_defs cursor_ok_def)
  show ?thesis using bracket_iff [OF c assms(2)] bracket_partner [OF c _ assms(2)] by blast
qed

theorem bracket_found_is_partner_witness:
  "computeBracket view0 = \<lparr>bp_line1 = 0, bp_col1 = 0, bp_line2 = 0, bp_col2 = 5\<rparr> \<longleftrightarrow>
   partners view0 \<lparr>bp_line1 = 0, bp_col1 = 0, bp_line2 = 0, bp_col2 = 5\<rparr> \<and>
   (atCursor view0 0 0 \<or> atCursor view0 0 5)"
  using bracket_found_is_partner [of view0 "\<lparr>bp_line1 = 0, bp_col1 = 0, bp_line2 = 0, bp_col2 = 5\<rparr>"] wf_grid0
  by (simp add: view0_def noPair_def)

section \<open>Command blocks\<close>

text \<open>
  Nothing unsigned is re-run unasked: without a signing key re-running a block writes nothing
  to the shell but asks, showing the very command that accepting writes; with or without one,
  what is written is the command of the block and one Enter.
\<close>
theorem rerun_asks_unless_signed:
  "case rerunCommandAt toUtf8 pty ix v of
     RerunNothing \<Rightarrow> commandTextAt ix v = [] \<or> \<not> pty
   | RerunWritten calls \<Rightarrow> m_osc133Key (m_grid v) \<noteq> [] \<and> calls = enterCalls (toUtf8 (commandTextAt ix v))
   | RerunAsked cmd \<Rightarrow> m_osc133Key (m_grid v) = [] \<and> cmd = commandTextAt ix v \<and>
       rerunAccepted toUtf8 cmd = enterCalls (toUtf8 (commandTextAt ix v))"
  by (simp add: rerunCommandAt_def rerunAccepted_def Let_def)

text \<open>
  With blocks in the order of their lines, a line belongs to the one block whose range it lies
  in and to no block outside all ranges; the start of a command is found the same way from a
  column and from a text offset.
\<close>
theorem block_of_line:
  assumes "sorted (map startLine (regionsOf v))" "0 \<le> m_cols (m_grid v)"
  shows "(inBlock (gridEnd v) (regionsOf v) l k \<longrightarrow> promptRegionIndexAtLine v l = int k) \<and>
    ((\<forall>k. \<not> inBlock (gridEnd v) (regionsOf v) l k) \<longrightarrow> promptRegionIndexAtLine v l = -1) \<and>
    (\<forall>c. vsize (lineTextCells v l) = m_cols (m_grid v) \<and> 0 \<le> c \<and> c \<le> m_cols (m_grid v) \<longrightarrow>
      offsetAt (lineColumns v l) c = c)"
proof -
  have "promptRegionIndexAtLine v l = int k" if "inBlock (gridEnd v) (regionsOf v) l k"
    using regionIndexFrom_found [OF that, of 0] inBlock_unique [OF assms(1) that]
    by (auto simp: promptRegionIndexAtLine_def)
  then show ?thesis
    using regionIndexFrom_none command_start [OF assms(2)] by (auto simp: promptRegionIndexAtLine_def)
qed

text \<open>
  Folding at the cursor folds the oldest finished block with output: a later block is never
  toggled, even when the cursor is in it.
\<close>
theorem fold_at_cursor_folds_oldest:
  assumes "i < j" "j < length (regionsOf v)" "foldable (regionsOf v ! i)" "commandEndMs (regionsOf v ! i) > 0"
    "startLine (regionsOf v ! i) \<le> scrollbackSize v + m_cursorRow (m_grid v)"
  shows "m_promptRegions (m_grid (toggleFoldAtCursor v)) ! j = regionsOf v ! j"
proof -
  have "toggleFirst l rs ! j = rs ! j"
    if "i < j" "j < length rs" "hasOutput (rs ! i)" "commandEndMs (rs ! i) > 0" "startLine (rs ! i) \<le> l" for l rs i j
    using that
  proof (induction l rs arbitrary: i j rule: toggleFirst.induct)
    case (2 l pr rs)
    show ?case
    proof (cases "l \<ge> startLine pr \<and> hasOutput pr \<and> commandEndMs pr > 0")
      case True
      then show ?thesis using 2(2) by (simp add: nth_Cons')
    next
      case False
      then obtain i' j' where ij: "i = Suc i'" "j = Suc j'" using 2(2,4-6) by (cases i; cases j) auto
      have "toggleFirst l rs ! j' = rs ! j'" by (rule 2(1) [OF False, of i']) (use 2(2-6) ij in simp_all)
      then show ?thesis using False ij by simp
    qed
  qed simp
  moreover have "scrollbackSize (shifted v) + m_cursorRow (m_grid (shifted v)) = scrollbackSize v + m_cursorRow (m_grid v)"
    by (simp add: shifted_def scrollbackSize_def applyPromptRegionShift_def)
  ultimately show ?thesis
    using assms by (simp add: toggleFoldAtCursor_def Let_def regionsOf_def foldable_def)
qed

end
