(* ===== verification/TermSpans.thy ===== *)
theory TermSpans
  imports TermBlocks
begin

text \<open>
  Links in the text of \<open>TerminalWidget\<close> (\<open>src/src/terminalwidget.cpp\<close>): the spans of a line,
  the check of a link before it is opened, the quick-select labels, and the caches of spans with
  their invalidation. Regular expressions, URL parsing and address parsing are parameters.
\<close>

section \<open>The spans of a line\<close>

record url_span =
  us_startCol :: int
  us_endCol :: int
  us_url :: qstring
  us_isFilePath :: bool
  us_isOsc8 :: bool

text \<open>
  The matches of \<open>urlRe\<close> as start and end; those of \<open>filePathRe\<close> as start and end of the path
  (group 1) and start of the line number (group 3, -1 when absent).
\<close>

record link_engine =
  le_urls :: "qstring \<Rightarrow> (int \<times> int) list"
  le_paths :: "qstring \<Rightarrow> (int \<times> int \<times> int) list"
  le_fromStd :: "string \<Rightarrow> qstring"

definition matches_ok :: "link_engine \<Rightarrow> bool" where
  "matches_ok E \<longleftrightarrow> (\<forall>t. list_all (\<lambda>(s, e). 0 \<le> s \<and> s < e \<and> e \<le> vsize t) (le_urls E t) \<and>
     list_all (\<lambda>(s, e, n). 0 \<le> s \<and> s < e \<and> e \<le> vsize t) (le_paths E t))"

definition qmid :: "qstring \<Rightarrow> int \<Rightarrow> int \<Rightarrow> qstring" where
  "qmid t a n = take (nat n) (drop (nat a) t)"

text \<open>Full stops, commas and colons at the end of a URL are left out, but not its first unit.\<close>

function trimUrl :: "int \<Rightarrow> int \<Rightarrow> qstring \<Rightarrow> qstring \<times> int" where
  "trimUrl s e url =
     (if e - 1 > s \<and> url \<noteq> [] \<and> last url \<in> {0x2E, 0x2C, 0x3A} then trimUrl s (e - 1) (butlast url) else (url, e))"
  by pat_completeness auto
termination by (relation "measure (\<lambda>(s, e, url). length url)") auto

declare trimUrl.simps [simp del]

definition hlSpansAt :: "term_view \<Rightarrow> int \<Rightarrow> hyperlink_span list" where
  "hlSpansAt v l =
     (let g = m_grid v; sb = scrollbackSize v; sr = l - sb;
          get = (\<lambda>hs i. if 0 \<le> i \<and> i < vsize hs then vget hs i else [])
      in if 0 \<le> l \<and> l < sb then get (m_scrollbackHyperlinks g) l
         else if 0 \<le> sr \<and> sr < m_rows g then get (m_screenHyperlinks g) sr else [])"

definition urlSpan :: "line_columns \<Rightarrow> qstring \<Rightarrow> int \<times> int \<Rightarrow> url_span" where
  "urlSpan lc t m =
     (let (s, e0) = m; (url, e) = trimUrl s e0 (qmid t s (e0 - s))
      in \<lparr>us_startCol = columnAt lc s, us_endCol = lastColumnBefore lc e, us_url = url,
          us_isFilePath = False, us_isOsc8 = False\<rparr>)"

definition overlaps :: "int \<Rightarrow> int \<Rightarrow> url_span \<Rightarrow> bool" where
  "overlaps a b s \<longleftrightarrow> a \<le> us_endCol s \<and> b \<ge> us_startCol s"

definition addPath :: "line_columns \<Rightarrow> qstring \<Rightarrow> int \<times> int \<times> int \<Rightarrow> url_span list \<Rightarrow> url_span list" where
  "addPath lc t m spans =
     (let (s, e, n) = m; path = qmid t s (e - s);
          a = columnAt lc s; b = lastColumnBefore lc e
      in if list_ex (overlaps a b) spans then spans
         else if 0x2F \<in> set path \<or> n \<ge> 0
           then spans @ [\<lparr>us_startCol = a, us_endCol = b, us_url = path, us_isFilePath = True, us_isOsc8 = False\<rparr>]
         else spans)"

definition detectUrls :: "link_engine \<Rightarrow> term_view \<Rightarrow> int \<Rightarrow> url_span list" where
  "detectUrls E v l =
     (let osc8 = map (\<lambda>h. \<lparr>us_startCol = startCol h, us_endCol = endCol h, us_url = le_fromStd E (uri h),
                        us_isFilePath = False, us_isOsc8 = True\<rparr>) (hlSpansAt v l);
          t = lineTextQ v l; lc = lineColumns v l
      in fold (addPath lc t) (le_paths E t) (osc8 @ map (urlSpan lc t) (le_urls E t)))"

section \<open>Opening a link\<close>

datatype hyperlink_warning = WarnNone | LabelHostMismatch | SuspiciousDestination

text \<open>
  \<open>he_host\<close> is \<open>QUrl(url).host().toLower()\<close>, \<open>he_aceHost\<close> the same fully encoded,
  \<open>he_labelHost\<close> the lower-cased first match of \<open>hostRe\<close> in a label (empty without one), and
  \<open>he_rawAddress\<close> whether a host is an IP address that is neither loopback nor link-local.
\<close>

record host_engine =
  he_host :: "qstring \<Rightarrow> qstring"
  he_aceHost :: "qstring \<Rightarrow> qstring"
  he_labelHost :: "qstring \<Rightarrow> qstring"
  he_rawAddress :: "qstring \<Rightarrow> bool"

definition stripWww :: "qstring \<Rightarrow> qstring" where
  "stripWww h = (if startsWithQ h (asc ''www.'') then drop 4 h else h)"

definition containsQ :: "qstring \<Rightarrow> qstring \<Rightarrow> bool" where
  "containsQ t p \<longleftrightarrow> list_ex (\<lambda>i. startsWithQ (drop i t) p) [0 ..< Suc (length t)]"

definition classifyHyperlink :: "host_engine \<Rightarrow> qstring \<Rightarrow> qstring \<Rightarrow> hyperlink_warning" where
  "classifyHyperlink H label url =
     (let actualHost = he_host H url; visibleHost = he_labelHost H label in
      if actualHost = [] then WarnNone
      else if visibleHost \<noteq> [] then
        (if stripWww visibleHost = stripWww actualHost then WarnNone else LabelHostMismatch)
      else if containsQ (he_aceHost H url) (asc ''xn--'') then SuspiciousDestination
      else if list_ex (\<lambda>u. u > 127) actualHost then SuspiciousDestination
      else if he_rawAddress H actualHost then SuspiciousDestination
      else WarnNone)"

text \<open>The label is the text of the cells the span covers.\<close>

definition linkLabel :: "term_view \<Rightarrow> int \<Rightarrow> url_span \<Rightarrow> qstring" where
  "linkLabel v l s =
     (let lc = lineColumns v l; from = offsetAt lc (us_startCol s)
      in qmid (lineTextQ v l) from (offsetAt lc (us_endCol s + 1) - from))"

datatype link_action = OpenUrl qstring | AskFirst hyperlink_warning qstring | OpenFile qstring | CopyText qstring

definition openHyperlink :: "host_engine \<Rightarrow> term_view \<Rightarrow> int \<Rightarrow> url_span \<Rightarrow> link_action" where
  "openHyperlink H v l s =
     (let warn = (if us_isOsc8 s then classifyHyperlink H (linkLabel v l s) (us_url s) else WarnNone)
      in if warn \<noteq> WarnNone then AskFirst warn (us_url s) else OpenUrl (us_url s))"

section \<open>Quick select\<close>

record quick_label =
  ql_globalLine :: int
  ql_startCol :: int
  ql_endCol :: int
  ql_url :: qstring
  ql_label :: qstring
  ql_isFilePath :: bool

definition quickLabels :: qstring where
  "quickLabels = asc ''asdfghjklqwertyuiopzxcvbnm''"

text \<open>A label is taken for each thing found, while there are any.\<close>

definition quickAdd :: "int \<Rightarrow> int \<Rightarrow> int \<Rightarrow> qstring \<Rightarrow> bool \<Rightarrow> quick_label list \<Rightarrow> quick_label list" where
  "quickAdd l a b url isPath qs =
     qs @ [\<lparr>ql_globalLine = l, ql_startCol = a, ql_endCol = b, ql_url = url,
            ql_label = take 1 (drop (length qs) quickLabels), ql_isFilePath = isPath\<rparr>]"

definition quickSpan :: "int \<Rightarrow> url_span \<Rightarrow> quick_label list \<Rightarrow> quick_label list" where
  "quickSpan l s qs =
     (if length qs \<ge> length quickLabels then qs
      else quickAdd l (us_startCol s) (us_endCol s) (us_url s) (us_isFilePath s) qs)"

definition quickMatch :: "line_columns \<Rightarrow> qstring \<Rightarrow> int \<Rightarrow> int \<times> int \<Rightarrow> quick_label list \<Rightarrow> quick_label list" where
  "quickMatch lc t l m qs =
     (let (s, e) = m; a = columnAt lc s; b = lastColumnBefore lc e in
      if length qs \<ge> length quickLabels then qs
      else if list_ex (\<lambda>q. ql_globalLine q = l \<and> a \<le> ql_endCol q \<and> b \<ge> ql_startCol q) qs then qs
      else quickAdd l a b (qmid t s (e - s)) False qs)"

text \<open>One line: its links, then commit hashes, addresses and mail addresses.\<close>

definition quickLine ::
  "(int \<Rightarrow> url_span list) \<Rightarrow> (qstring \<Rightarrow> (int \<times> int) list) list \<Rightarrow> term_view \<Rightarrow> int \<Rightarrow> quick_label list \<Rightarrow> quick_label list" where
  "quickLine spansOf extra v l qs0 =
     (if length qs0 \<ge> length quickLabels then qs0
      else
        (let qs = fold (quickSpan l) (spansOf l) qs0 in
         if length qs \<ge> length quickLabels then qs
         else (let t = lineTextQ v l; lc = lineColumns v l
               in fold (\<lambda>rx qs. fold (quickMatch lc t l) (rx t) qs) extra qs)))"

record quick_state =
  qk_active :: bool
  qk_input :: qstring
  qk_labels :: "quick_label list"

definition enterUrlQuickSelect ::
  "(int \<Rightarrow> url_span list) \<Rightarrow> (qstring \<Rightarrow> (int \<times> int) list) list \<Rightarrow> term_view \<Rightarrow> quick_state" where
  "enterUrlQuickSelect spansOf extra v =
     (let viewStart = scrollbackSize v - m_scrollOffset v;
          qs = fold (quickLine spansOf extra v) [viewStart .. viewStart + m_rows (m_grid v) - 1] []
      in \<lparr>qk_active = (qs \<noteq> []), qk_input = [], qk_labels = qs\<rparr>)"

definition exitUrlQuickSelect :: "quick_state \<Rightarrow> quick_state" where
  "exitUrlQuickSelect s = s\<lparr>qk_active := False, qk_input := [], qk_labels := []\<rparr>"

text \<open>
  A key while labels are shown. The label found is a reference into the vector of labels, read
  after \<open>exitUrlQuickSelect\<close> has cleared the vector: a read past its end is \<open>Dangling\<close>.
\<close>

datatype quick_outcome = Quiet | Chosen link_action | Dangling

definition chooseLabel :: "quick_label \<Rightarrow> link_action" where
  "chooseLabel q =
     (if ql_isFilePath q then OpenFile (ql_url q)
      else if startsWithQ (ql_url q) (asc ''http://'') \<or> startsWithQ (ql_url q) (asc ''https://'')
        then OpenUrl (ql_url q)
      else CopyText (ql_url q))"

definition labelAt :: "quick_state \<Rightarrow> nat \<Rightarrow> quick_label option" where
  "labelAt s i = (if i < length (qk_labels s) then Some (qk_labels s ! i) else None)"

fun findLabel :: "qstring \<Rightarrow> quick_label list \<Rightarrow> nat \<Rightarrow> nat option" where
  "findLabel inp [] i = None"
| "findLabel inp (q # qs) i = (if ql_label q = inp then Some i else findLabel inp qs (i + 1))"

definition quickSelectKey :: "(u16 \<Rightarrow> bool) \<Rightarrow> bool \<Rightarrow> qstring \<Rightarrow> quick_state \<Rightarrow> quick_outcome \<times> quick_state" where
  "quickSelectKey isLetter isEscape ch s =
     (if isEscape then (Quiet, exitUrlQuickSelect s)
      else if ch \<noteq> [] \<and> isLetter (hd ch) then
        (let s = s\<lparr>qk_input := qk_input s @ ch\<rparr> in
         case findLabel (qk_input s) (qk_labels s) 0 of
           None \<Rightarrow> (Quiet, s)
         | Some i \<Rightarrow>
             (let s = exitUrlQuickSelect s
              in (case labelAt s i of None \<Rightarrow> Dangling | Some q \<Rightarrow> Chosen (chooseLabel q), s)))
      else (Quiet, s))"

section \<open>The caches\<close>

text \<open>
  The spans painted before, by global line, and the two counters of the last paint. \<open>'a\<close> is what
  a line's entry holds.
\<close>

record 'a span_caches =
  sc_urls :: "int \<rightharpoonup> url_span list"
  sc_hl :: "int \<rightharpoonup> 'a"
  sc_lastPushed :: nat
  sc_lastSize :: int

definition kSpanCacheBandCap :: int where "kSpanCacheBandCap = 4096"

definition screenLineDirty :: "grid \<Rightarrow> int \<Rightarrow> bool" where
  "screenLineDirty g r = (if 0 \<le> r \<and> r < m_rows g then dirty (vget (m_screenLines g) r) else False)"

definition dropLines :: "int set \<Rightarrow> 'a span_caches \<Rightarrow> 'a span_caches" where
  "dropLines S k = k\<lparr>sc_urls := sc_urls k |` (- S), sc_hl := sc_hl k |` (- S)\<rparr>"

definition dirtyLines :: "term_view \<Rightarrow> int set" where
  "dirtyLines v = set (map (\<lambda>r. scrollbackSize v + r)
     (filter (screenLineDirty (m_grid v)) (columns (m_rows (m_grid v)))))"

definition invalidateSpanCaches :: "term_view \<Rightarrow> 'a span_caches \<Rightarrow> 'a span_caches \<times> term_view" where
  "invalidateSpanCaches v k0 =
     (let sb = scrollbackSize v; rows = m_rows (m_grid v);
          k = dropLines (dirtyLines v) k0;
          pushedNow = m_scrollbackPushed (m_grid v);
          k = (if pushedNow \<noteq> sc_lastPushed k then
                 (let pushDelta = (int pushedNow - int (sc_lastPushed k)) mod 2 ^ 64;
                      oldSize = sc_lastSize k;
                      pureAppend = (oldSize \<ge> 0 \<and> sb = (oldSize + pushDelta) mod 2 ^ 64);
                      bandWidth = sb + rows - oldSize;
                      k = (if pureAppend \<and> bandWidth \<ge> 0 \<and> bandWidth \<le> kSpanCacheBandCap
                           then dropLines (set [oldSize .. sb + rows - 1]) k
                           else k\<lparr>sc_urls := Map.empty, sc_hl := Map.empty\<rparr>)
                  in k\<lparr>sc_lastPushed := pushedNow, sc_lastSize := sb\<rparr>)
               else k)
      in (k, v\<lparr>m_grid := clearAllScreenDirty (m_grid v)\<rparr>))"

definition urlSpansForLine :: "link_engine \<Rightarrow> term_view \<Rightarrow> int \<Rightarrow> 'a span_caches \<Rightarrow> url_span list \<times> 'a span_caches" where
  "urlSpansForLine E v l k =
     (case sc_urls k l of
        Some s \<Rightarrow> (s, k)
      | None \<Rightarrow> (let s = detectUrls E v l in (s, k\<lparr>sc_urls := (sc_urls k)(l \<mapsto> s)\<rparr>)))"

text \<open>Highlight rules: the matches of each rule in order, with its colours.\<close>

record highlight_rule =
  hr_matches :: "qstring \<Rightarrow> (int \<times> int) list"
  hr_fg :: qcolor
  hr_bg :: qcolor

record highlight_span =
  hs_startCol :: int
  hs_endCol :: int
  hs_fg :: qcolor
  hs_bg :: qcolor

definition highlightLine :: "highlight_rule list \<Rightarrow> term_view \<Rightarrow> int \<Rightarrow> highlight_span list" where
  "highlightLine rules v l =
     (let t = lineTextQ v l; lc = lineColumns v l
      in concat (map (\<lambda>r. map (\<lambda>(s, e). \<lparr>hs_startCol = columnAt lc s, hs_endCol = lastColumnBefore lc e,
                             hs_fg = hr_fg r, hs_bg = hr_bg r\<rparr>)
                           (filter (\<lambda>(s, e). \<not> e - s \<le> 0) (hr_matches r t))) rules))"

definition highlightsForLine ::
  "highlight_rule list \<Rightarrow> term_view \<Rightarrow> int \<Rightarrow> highlight_span list span_caches \<Rightarrow>
   highlight_span list \<times> highlight_span list span_caches" where
  "highlightsForLine rules v l k =
     (if rules = [] then ([], k)
      else (case sc_hl k l of
              Some s \<Rightarrow> (s, k)
            | None \<Rightarrow> (let s = highlightLine rules v l in (s, k\<lparr>sc_hl := (sc_hl k)(l \<mapsto> s)\<rparr>))))"


section \<open>Where spans lie\<close>

lemma trimUrl_end: "s < e \<Longrightarrow> s < snd (trimUrl s e url) \<and> snd (trimUrl s e url) \<le> e"
proof (induction s e url rule: trimUrl.induct)
  case (1 s e url)
  show ?case
  proof (cases "e - 1 > s \<and> url \<noteq> [] \<and> last url \<in> {0x2E, 0x2C, 0x3A}")
    case True
    then have "s < snd (trimUrl s (e - 1) (butlast url)) \<and> snd (trimUrl s (e - 1) (butlast url)) \<le> e - 1"
      by (intro 1(1)) simp_all
    then show ?thesis using True by (subst (1 2) trimUrl.simps) simp
  next
    case False
    then have "trimUrl s e url = (url, e)" by (simp only: trimUrl.simps [of s e url] False if_False)
    then show ?thesis using 1(2) by simp
  qed
qed

definition span_on :: "int \<Rightarrow> url_span \<Rightarrow> bool" where
  "span_on cols s \<longleftrightarrow> 0 \<le> us_startCol s \<and> us_startCol s \<le> us_endCol s \<and> us_endCol s < cols"

lemma urlSpan_on:
  assumes "0 \<le> s" "s < e" "e \<le> vsize (lineTextCells v l)" "0 \<le> m_cols (m_grid v)"
  shows "span_on (m_cols (m_grid v)) (urlSpan (lineColumns v l) t (s, e))"
proof -
  obtain url e' where t: "trimUrl s e (qmid t s (e - s)) = (url, e')" by fastforce
  then have "s < e'" "e' \<le> e" using trimUrl_end [OF assms(2), of "qmid t s (e - s)"] by simp_all
  then show ?thesis
    using span_columns(1-3) [of s e' v l] assms by (simp add: span_on_def urlSpan_def t)
qed

definition paths_apart :: "url_span list \<Rightarrow> bool" where
  "paths_apart ss \<longleftrightarrow> (\<forall>i j. i < j \<and> j < length ss \<and> us_isFilePath (ss ! j) \<longrightarrow>
     \<not> overlaps (us_startCol (ss ! j)) (us_endCol (ss ! j)) (ss ! i))"

lemma paths_apart_snoc:
  "paths_apart (ss @ [s]) \<longleftrightarrow> paths_apart ss \<and>
     (us_isFilePath s \<longrightarrow> \<not> list_ex (overlaps (us_startCol s) (us_endCol s)) ss)"
proof
  assume h: "paths_apart (ss @ [s])"
  have n: "(ss @ [s]) ! i = ss ! i" if "i < length ss" for i using that by (simp add: nth_append)
  have "paths_apart ss"
    unfolding paths_apart_def
  proof (intro allI impI)
    fix i j assume ij: "i < j \<and> j < length ss \<and> us_isFilePath (ss ! j)"
    show "\<not> overlaps (us_startCol (ss ! j)) (us_endCol (ss ! j)) (ss ! i)"
      using h [unfolded paths_apart_def, rule_format, of i j] ij n [of i] n [of j] by simp
  qed
  moreover have "\<not> overlaps (us_startCol s) (us_endCol s) x" if "us_isFilePath s" "x \<in> set ss" for x
  proof -
    obtain i where "i < length ss" "x = ss ! i" using \<open>x \<in> set ss\<close> by (auto simp: in_set_conv_nth)
    then show ?thesis
      using h [unfolded paths_apart_def, rule_format, of i "length ss"] that(1) n [of i] by simp
  qed
  ultimately show "paths_apart ss \<and> (us_isFilePath s \<longrightarrow> \<not> list_ex (overlaps (us_startCol s) (us_endCol s)) ss)"
    by (auto simp: list_ex_iff)
next
  assume "paths_apart ss \<and> (us_isFilePath s \<longrightarrow> \<not> list_ex (overlaps (us_startCol s) (us_endCol s)) ss)"
  then show "paths_apart (ss @ [s])"
    unfolding paths_apart_def by (auto simp: nth_append list_ex_iff less_Suc_eq)
qed

lemma addPath_ok:
  fixes t :: qstring and n :: int
  assumes "0 \<le> s" "s < e" "e \<le> vsize (lineTextCells v l)" "0 \<le> m_cols (m_grid v)"
    "paths_apart ss" "\<forall>x \<in> set ss. us_isOsc8 x \<or> span_on (m_cols (m_grid v)) x"
  defines "ss' \<equiv> addPath (lineColumns v l) t (s, e, n) ss"
  shows "paths_apart ss'" "\<forall>x \<in> set ss'. us_isOsc8 x \<or> span_on (m_cols (m_grid v)) x"
  using span_columns(1-3) [OF assms(1-4)] assms(5,6)
  by (auto simp: ss'_def addPath_def Let_def paths_apart_snoc span_on_def)

lemma paths_apart_none: "(\<And>x. x \<in> set ss \<Longrightarrow> \<not> us_isFilePath x) \<Longrightarrow> paths_apart ss"
  by (auto simp: paths_apart_def)

lemma detect_ok:
  assumes "matches_ok E" "0 \<le> m_cols (m_grid v)"
  shows "paths_apart (detectUrls E v l) \<and> (\<forall>x \<in> set (detectUrls E v l). us_isOsc8 x \<or> span_on (m_cols (m_grid v)) x)"
proof -
  let ?t = "lineTextCells v l" and ?lc = "lineColumns v l"
  have t: "lineTextQ v l = ?t" by (simp add: lineTextQ_def lineText_cells [OF assms(2)])
  let ?start = "map (\<lambda>h. \<lparr>us_startCol = startCol h, us_endCol = endCol h, us_url = le_fromStd E (uri h),
      us_isFilePath = False, us_isOsc8 = True\<rparr>) (hlSpansAt v l) @ map (urlSpan ?lc ?t) (le_urls E ?t)"
  have urls: "\<forall>(s, e) \<in> set (le_urls E ?t). 0 \<le> s \<and> s < e \<and> e \<le> vsize ?t"
    using assms(1) by (auto simp: matches_ok_def list_all_iff)
  have paths: "\<forall>(s, e, n) \<in> set (le_paths E ?t). 0 \<le> s \<and> s < e \<and> e \<le> vsize ?t"
    using assms(1) by (auto simp: matches_ok_def list_all_iff)
  have s1: "\<forall>x \<in> set ?start. us_isOsc8 x \<or> span_on (m_cols (m_grid v)) x"
    using urls urlSpan_on [OF _ _ _ assms(2)] by auto
  have s2: "paths_apart ?start"
    by (rule paths_apart_none) (auto simp: urlSpan_def split: prod.splits)
  have "paths_apart (fold (addPath ?lc ?t) ms ss) \<and>
      (\<forall>x \<in> set (fold (addPath ?lc ?t) ms ss). us_isOsc8 x \<or> span_on (m_cols (m_grid v)) x)"
    if "\<forall>(s, e, n) \<in> set ms. 0 \<le> s \<and> s < e \<and> e \<le> vsize ?t" "paths_apart ss"
      "\<forall>x \<in> set ss. us_isOsc8 x \<or> span_on (m_cols (m_grid v)) x" for ms ss
    using that
  proof (induction ms arbitrary: ss)
    case (Cons m ms)
    obtain s e n where m: "m = (s, e, n)" by (cases m)
    show ?case
      using Cons.IH addPath_ok [OF _ _ _ assms(2) Cons.prems(2,3), of s e l ?t n] Cons.prems(1) by (simp add: m)
  qed simp
  from this [OF paths s2 s1] show ?thesis by (simp add: detectUrls_def Let_def t)
qed

section \<open>The label of a link\<close>

lemma label_units:
  assumes "0 \<le> us_startCol s" "us_startCol s \<le> us_endCol s" "us_endCol s < m_cols (m_grid v)"
  shows "linkLabel v l s = concat (map (cellUnits v l) [us_startCol s .. us_endCol s])"
proof -
  let ?a = "us_startCol s" and ?b = "us_endCol s + 1" and ?n = "m_cols (m_grid v)"
  have "[?a .. ?n - 1] = [?a .. us_endCol s] @ [?b .. ?n - 1]"
    by (rule upto_split2) (use assms in auto)
  then have "columns ?n = columns ?a @ [?a .. us_endCol s] @ [?b .. ?n - 1]"
    using columns_split [of ?a ?n] assms by simp
  then have t: "lineTextCells v l = unitsBefore v l ?a @ concat (map (cellUnits v l) [?a .. us_endCol s]) @
      concat (map (cellUnits v l) [?b .. ?n - 1])"
    by (simp add: lineTextCells_def unitsBefore_def)
  have "columns ?b = columns ?a @ [?a .. us_endCol s]" using columns_split [of ?a ?b] assms by simp
  then have u: "unitsBefore v l ?b = unitsBefore v l ?a @ concat (map (cellUnits v l) [?a .. us_endCol s])"
    by (simp add: unitsBefore_def)
  have "lineTextQ v l = lineTextCells v l" using assms by (simp add: lineTextQ_def lineText_cells)
  then show ?thesis
    using offsetAt_units [of ?a v l] offsetAt_units [of ?b v l] assms
    by (simp add: linkLabel_def Let_def qmid_def t u vsize_def)
qed

section \<open>Lines that stay\<close>

lemma line_stays:
  assumes "0 \<le> l" "l < scrollbackSize v" "l < scrollbackSize w" "m_cols (m_grid w) = m_cols (m_grid v)"
    "vget (m_scrollback (m_grid w)) l = vget (m_scrollback (m_grid v)) l" "0 \<le> m_cols (m_grid v)"
  shows "lineTextQ w l = lineTextQ v l" "lineColumns w l = lineColumns v l"
proof -
  have c: "cellAtGlobal w l = cellAtGlobal v l" "combiningAt w l = combiningAt v l"
    using assms by (simp_all add: fun_eq_iff cellAtGlobal_def combiningAt_def Let_def)
  have cps: "cellCps w l = cellCps v l" by (simp add: fun_eq_iff cellCps_def c)
  have u: "cellUnits w l = cellUnits v l" "unitCount w l = unitCount v l" "glyphLast w l = glyphLast v l"
    by (simp_all add: fun_eq_iff cellUnits_def unitCount_def glyphLast_def cps c assms(4))
  show "lineTextQ w l = lineTextQ v l"
    using lineText_cells [of w l] lineText_cells [of v l] assms(4,6) by (simp add: lineTextQ_def lineTextCells_def u)
  show "lineColumns w l = lineColumns v l" by (simp add: lineColumns_def u assms(4))
qed

text \<open>The highlights kept for lines of the history are those of the lines.\<close>

definition hl_sound :: "highlight_rule list \<Rightarrow> term_view \<Rightarrow> highlight_span list span_caches \<Rightarrow> bool" where
  "hl_sound rules v k \<longleftrightarrow> (\<forall>l s. 0 \<le> l \<and> l < scrollbackSize v \<and> sc_hl k l = Some s \<longrightarrow> s = highlightLine rules v l)"

lemma dropLines_simps [simp]:
  "sc_hl (dropLines S k) = sc_hl k |` (- S)" "sc_urls (dropLines S k) = sc_urls k |` (- S)"
  "sc_lastPushed (dropLines S k) = sc_lastPushed k" "sc_lastSize (dropLines S k) = sc_lastSize k"
  by (simp_all add: dropLines_def)

lemma dirty_below: "l < scrollbackSize v \<Longrightarrow> l \<notin> dirtyLines v"
  by (auto simp: dirtyLines_def columns_def)

text \<open>
  The counters belong to the last paint; an emptied history leaves the old size behind until the
  next push.
\<close>

definition cache_ok :: "highlight_rule list \<Rightarrow> term_view \<Rightarrow> highlight_span list span_caches \<Rightarrow> bool" where
  "cache_ok rules v k \<longleftrightarrow> hl_sound rules v k \<and> sc_lastPushed k = m_scrollbackPushed (m_grid v) \<and>
     0 \<le> sc_lastSize k \<and> (sc_lastSize k = scrollbackSize v \<or> scrollbackSize v = 0)"

text \<open>An interval that only pushes and evicts, painted after it.\<close>

lemma invalidate_sound:
  assumes "grows (m_grid v) (m_grid w)" "cache_ok rules v k" "0 \<le> m_cols (m_grid v)" "0 \<le> m_rows (m_grid v)"
    "sc_lastSize k + int (m_scrollbackPushed (m_grid w)) < 2 ^ 64"
    "m_scrollbackPushed (m_grid w) = m_scrollbackPushed (m_grid v) \<Longrightarrow> scrollbackSize w = scrollbackSize v \<or> scrollbackSize w = 0"
  shows "hl_sound rules w (fst (invalidateSpanCaches w k))"
  unfolding hl_sound_def
proof (intro allI impI)
  fix l s
  assume l: "0 \<le> l \<and> l < scrollbackSize w \<and> sc_hl (fst (invalidateSpanCaches w k)) l = Some s"
  note ok = assms(2) [unfolded cache_ok_def]
  obtain j new where h: "m_scrollback (m_grid w) = drop j (m_scrollback (m_grid v) @ new)"
      "j \<le> length (m_scrollback (m_grid v)) + length new"
      "m_scrollbackPushed (m_grid w) = m_scrollbackPushed (m_grid v) + length new"
      "m_rows (m_grid w) = m_rows (m_grid v)" "m_cols (m_grid w) = m_cols (m_grid v)"
    using assms(1) by (auto simp: grows_def)
  have size: "scrollbackSize w = scrollbackSize v + int (length new) - int j" using h(1,2) by (simp add: scrollbackSize_def)
  let ?L = "sc_lastSize k"
  let ?d = "int (m_scrollbackPushed (m_grid w)) - int (m_scrollbackPushed (m_grid v))"
  have d: "?d mod 2 ^ 64 = int (length new)" "(?L + ?d mod 2 ^ 64) mod 2 ^ 64 = ?L + int (length new)"
    using h(3) assms(5) ok by (simp_all add: mod_pos_pos_trivial)
  have "j = 0 \<and> l < scrollbackSize v \<and> sc_hl k l = Some s"
  proof (cases "new = []")
    case True
    then have "j = 0" using assms(6) h(3) size l by auto
    then show ?thesis
      using l True h(3) size dirty_below [of l w] ok
      by (auto simp: invalidateSpanCaches_def Let_def restrict_map_def split: if_splits)
  next
    case False
    then have ne: "m_scrollbackPushed (m_grid w) \<noteq> m_scrollbackPushed (m_grid v)" using h(3) by simp
    show ?thesis
    proof (cases "scrollbackSize w = ?L + int (length new)")
      case True
      then have "?L = scrollbackSize v \<and> j = 0" using size ok by auto
      moreover have "l \<notin> set [?L .. scrollbackSize w + m_rows (m_grid w) - 1] \<and> sc_hl k l = Some s"
        using l ne True dirty_below [of l w] d ok
        by (auto simp: invalidateSpanCaches_def Let_def restrict_map_def split: if_splits)
      ultimately show ?thesis using l assms(4) h(4) by auto
    next
      case notApp: False
      then have "sc_hl (fst (invalidateSpanCaches w k)) = Map.empty"
        using ne d ok by (simp add: invalidateSpanCaches_def Let_def)
      then show ?thesis using l by simp
    qed
  qed
  moreover from this have "vget (m_scrollback (m_grid w)) l = vget (m_scrollback (m_grid v)) l"
    using l h(1) by (simp add: vget_def nth_append scrollbackSize_def nat_less_iff)
  ultimately show "s = highlightLine rules w l"
    using ok assms(3) l line_stays [of l v w] h(5) by (simp add: hl_sound_def highlightLine_def)
qed

lemma invalidate_counters:
  assumes "cache_ok rules v k" "m_scrollbackPushed (m_grid w) = m_scrollbackPushed (m_grid v) \<Longrightarrow> scrollbackSize w = scrollbackSize v \<or> scrollbackSize w = 0"
  defines "k' \<equiv> fst (invalidateSpanCaches w k)"
  shows "sc_lastPushed k' = m_scrollbackPushed (m_grid w)" "0 \<le> sc_lastSize k'"
    "sc_lastSize k' = scrollbackSize w \<or> scrollbackSize w = 0"
  using assms(1,2) by (auto simp: k'_def cache_ok_def invalidateSpanCaches_def Let_def scrollbackSize_def)

text \<open>Entries of lines below the screen outlive a change that pushes nothing.\<close>

lemma unpushed_entries_stay:
  assumes "m_scrollbackPushed (m_grid w) = sc_lastPushed k" "l < scrollbackSize w"
  shows "sc_hl (fst (invalidateSpanCaches w k)) l = sc_hl k l" "sc_urls (fst (invalidateSpanCaches w k)) l = sc_urls k l"
  using dirty_below [of l w] assms by (simp_all add: invalidateSpanCaches_def Let_def restrict_map_def)

lemma evict_pushed: "m_scrollbackPushed (evictLoop g) = m_scrollbackPushed g"
proof (induction g rule: evictLoop.induct)
  case (1 g)
  show ?case
  proof (cases "m_scrollback g")
    case Nil
    then show ?thesis by (subst evictLoop.simps) simp
  next
    case (Cons front rest)
    then show ?thesis using 1 [OF _ Cons] by (subst evictLoop.simps) (simp add: returnCellsRow_def)
  qed
qed

text \<open>Painting clears the marks of the rows and changes no line of the history.\<close>

lemma painted:
  fixes v :: term_view and k :: "'a span_caches"
  defines "p \<equiv> snd (invalidateSpanCaches v k)"
  shows "scrollbackSize p = scrollbackSize v" "m_scrollbackPushed (m_grid p) = m_scrollbackPushed (m_grid v)"
    "m_cols (m_grid p) = m_cols (m_grid v)" "m_scrollback (m_grid p) = m_scrollback (m_grid v)"
  by (simp_all add: p_def invalidateSpanCaches_def Let_def clearAllScreenDirty_def scrollbackSize_def)

lemma painted_sound:
  "0 \<le> m_cols (m_grid v) \<Longrightarrow> hl_sound rules v k' \<Longrightarrow> hl_sound rules (snd (invalidateSpanCaches v k)) k'"
  using line_stays [of _ v "snd (invalidateSpanCaches v k)"] by (simp add: hl_sound_def highlightLine_def painted)

section \<open>Labels\<close>

definition labelled :: "quick_label list \<Rightarrow> bool" where
  "labelled qs \<longleftrightarrow> length qs \<le> length quickLabels \<and> map ql_label qs = map (\<lambda>u. [u]) (take (length qs) quickLabels)"

lemma labelled_add: "labelled qs \<Longrightarrow> length qs < length quickLabels \<Longrightarrow> labelled (quickAdd l a b u p qs)"
  by (auto simp: labelled_def quickAdd_def take_Suc_conv_app_nth hd_drop_conv_nth take_Suc)

lemma labelled_fold: "(\<And>x s. labelled s \<Longrightarrow> labelled (f x s)) \<Longrightarrow> labelled qs \<Longrightarrow> labelled (fold f xs qs)"
  by (induction xs arbitrary: qs) auto

lemma labelled_span: "labelled qs \<Longrightarrow> labelled (quickSpan l s qs)"
  by (simp add: quickSpan_def labelled_add)

lemma labelled_match: "labelled qs \<Longrightarrow> labelled (quickMatch lc t l m qs)"
  by (auto simp: quickMatch_def Let_def labelled_add split: prod.splits)

lemma labelled_line: "labelled qs \<Longrightarrow> labelled (quickLine spansOf extra v l qs)"
  by (auto simp: quickLine_def Let_def intro!: labelled_fold labelled_span labelled_match)

lemma quickLabels_distinct: "distinct quickLabels"
  by (simp add: quickLabels_def asc_def)

lemma labelled_enter: "labelled (qk_labels (enterUrlQuickSelect spansOf extra v))"
  by (auto simp: enterUrlQuickSelect_def Let_def labelled_def [of "[]"] intro!: labelled_fold labelled_line)

lemma findLabel_at:
  assumes "distinct (map ql_label qs)" "i < length qs"
  shows "findLabel (ql_label (qs ! i)) qs n = Some (n + i)"
  using assms
proof (induction qs arbitrary: i n)
  case (Cons q qs)
  then show ?case by (cases i) (auto dest: nth_mem)
qed simp

end
