(* ===== verification/TermSpanProps.thy ===== *)
theory TermSpanProps
  imports TermSpans TermTextProps
begin

text \<open>
  The properties of links, quick select and the caches of spans.
\<close>

section \<open>Links\<close>

text \<open>
  The spans found in the text of a line lie on the line, for every engine whose matches lie in
  the text it is given, and a file path never overlaps a span found before it.
\<close>
theorem detected_spans_on_line:
  assumes "matches_ok E" "0 \<le> m_cols (m_grid v)"
  shows "paths_apart (detectUrls E v l) \<and>
    (\<forall>s \<in> set (detectUrls E v l). us_isOsc8 s \<or> span_on (m_cols (m_grid v)) s)"
  by (rule detect_ok [OF assms])

definition linkEngine0 :: link_engine where
  "linkEngine0 = \<lparr>le_urls = (\<lambda>t. if vsize t < 5 then [] else [(0, 5)]),
     le_paths = (\<lambda>t. if vsize t < 3 then [] else [(2, 3, -1)]), le_fromStd = asc\<rparr>"

theorem detected_spans_on_line_witness: "paths_apart (detectUrls linkEngine0 view1 0)"
proof -
  have "matches_ok linkEngine0" by (simp add: matches_ok_def linkEngine0_def)
  from detected_spans_on_line [OF this, of view1 0] show ?thesis by (simp add: view1_grid grid1_pushed)
qed



definition declared0 :: url_span where
  "declared0 = \<lparr>us_startCol = 1, us_endCol = 3, us_url = asc ''https://a.org'', us_isFilePath = False, us_isOsc8 = True\<rparr>"


section \<open>Quick select\<close>

text \<open>
  Quick select shows at most 26 labels, one letter each and no letter twice, so a letter that
  is shown picks exactly the thing it is shown on.
\<close>
theorem quick_labels_distinct:
  fixes spansOf extra v
  defines "qs \<equiv> qk_labels (enterUrlQuickSelect spansOf extra v)"
  shows "length qs \<le> 26 \<and> distinct (map ql_label qs) \<and> (\<forall>q \<in> set qs. length (ql_label q) = 1) \<and>
    (\<forall>i < length qs. findLabel (ql_label (qs ! i)) qs 0 = Some i)"
proof -
  have l: "length qs \<le> length quickLabels" "map ql_label qs = map (\<lambda>u. [u]) (take (length qs) quickLabels)"
    using labelled_enter [of spansOf extra v] by (simp_all add: labelled_def qs_def)
  have "distinct (map ql_label qs)"
    unfolding l(2) using quickLabels_distinct by (auto simp: distinct_map inj_on_def)
  moreover have "\<forall>w \<in> set (map ql_label qs). length w = 1" unfolding l(2) by auto
  moreover have "length quickLabels = 26" by (simp add: quickLabels_def asc_def)
  ultimately show ?thesis using l(1) findLabel_at [of qs _ 0] by auto
qed

theorem quick_labels_distinct_witness:
  "length (qk_labels (enterUrlQuickSelect (\<lambda>l. [declared0]) [] view1)) \<le> 26"
  using quick_labels_distinct by blast

text \<open>
  The letter of a label ends quick select, which empties the labels, and only then is the label
  read: what it does is not decided by the label that was shown.
\<close>
theorem quick_select_reads_cleared:
  assumes "isLetter c" "i < length (qk_labels s)" "findLabel (qk_input s @ [c]) (qk_labels s) 0 = Some i"
  shows "quickSelectKey isLetter False [c] s = (Dangling, exitUrlQuickSelect (s\<lparr>qk_input := qk_input s @ [c]\<rparr>))"
  using assms by (simp add: quickSelectKey_def Let_def labelAt_def exitUrlQuickSelect_def)

definition quick0 :: quick_state where
  "quick0 = \<lparr>qk_active = True, qk_input = [], qk_labels = quickAdd 0 1 3 (asc ''https://a.org'') False []\<rparr>"

theorem quick_select_reads_cleared_witness:
  "fst (quickSelectKey (\<lambda>c. True) False (asc ''a'') quick0) = Dangling"
  using quick_select_reads_cleared [of "\<lambda>c. True" 97 0 quick0]
  by (simp add: quick0_def quickAdd_def quickLabels_def asc_def)

section \<open>The caches\<close>


definition rule0 :: highlight_rule where
  "rule0 = \<lparr>hr_matches = (\<lambda>t. [(0, 2)]), hr_fg = QInvalid, hr_bg = QInvalid\<rparr>"

definition cache1 :: "highlight_span list span_caches" where
  "cache1 = \<lparr>sc_urls = Map.empty, sc_hl = [0 \<mapsto> highlightLine [rule0] view1 0], sc_lastPushed = 0, sc_lastSize = 1\<rparr>"


text \<open>
  A smaller history limit pushes nothing: the oldest lines go and every line gets a new number,
  but the next paint keeps all entries of the history under their old numbers.
\<close>
theorem smaller_history_keeps_entries:
  fixes v n k
  assumes "grid_wf (m_grid v)" "sc_lastPushed k = m_scrollbackPushed (m_grid v)"
  defines "w \<equiv> v\<lparr>m_grid := setMaxScrollback n (m_grid v)\<rparr>"
  shows "\<exists>d. m_scrollback (m_grid w) = drop d (m_scrollback (m_grid v)) \<and>
    scrollbackSize v - int d \<le> clamp n 1000 1000000 \<and>
    (\<forall>l < scrollbackSize w. sc_hl (fst (invalidateSpanCaches w k)) l = sc_hl k l \<and>
       sc_urls (fst (invalidateSpanCaches w k)) l = sc_urls k l)"
proof -
  let ?g = "(bumpRevision (m_grid v))\<lparr>m_maxScrollback := clamp n 1000 1000000\<rparr>"
  have inv: "hist_inv ?g"
    using assms(1) by (intro inv_hist) (auto simp: wf_defs bumpRevision_def intro: hist_ok_config(1))
  have w: "m_grid w = evictLoop ?g" by (simp add: w_def setMaxScrollback_def trim_evict [OF inv])
  obtain d where d: "m_scrollback (m_grid w) = drop d (m_scrollback (m_grid v))" "d \<le> length (m_scrollback (m_grid v))"
    using evictLoop_drop [OF inv] unfolding w by (auto simp: bumpRevision_def)
  have "m_maxScrollback (m_grid w) = clamp n 1000 1000000"
    using onlyHist_evictLoop [of ?g] unfolding w by (simp add: onlyHist_simps)
  then have "scrollbackSize v - int d \<le> clamp n 1000 1000000"
    using evictLoop_hist [OF inv] d unfolding w [symmetric]
    by (simp add: hist_cap_def cap_ok_def scrollbackSize_def)
  moreover have "m_scrollbackPushed (m_grid w) = sc_lastPushed k"
    using evict_pushed [of ?g] assms(2) unfolding w by (simp add: bumpRevision_def)
  ultimately show ?thesis using d(1) unpushed_entries_stay by blast
qed

definition grid1001 :: grid where
  "grid1001 = grid0\<lparr>m_scrollback := replicate 1001 line0, m_scrollbackHyperlinks := replicate 1001 []\<rparr>"

lemma grid1001_wf: "grid_wf grid1001"
  using wf_grid0
  by (simp add: grid1001_def wf_defs hist_ok_def grid0_fields line0_def cellBytes_def cap_ok_def sum_list_replicate list_all_iff)

lemma grid1001_cut: "length (m_scrollback (setMaxScrollback 1000 grid1001)) = 1000"
proof -
  let ?g = "(bumpRevision grid1001)\<lparr>m_maxScrollback := clamp 1000 1000 1000000\<rparr>"
  have inv: "hist_inv ?g"
    using grid1001_wf by (intro inv_hist) (auto simp: wf_defs bumpRevision_def intro: hist_ok_config(1))
  obtain d where d: "m_scrollback (evictLoop ?g) = drop d (replicate 1001 line0)" "d \<le> 1001"
      "d > 0 \<longrightarrow> \<not> cap_ok (drop (d - 1) (replicate 1001 line0))
        (sum_list (map cellBytes (drop (d - 1) (replicate 1001 line0)))) 1000 256"
    using evictLoop_drop [OF inv] by (auto simp: bumpRevision_def grid1001_def grid0_fields clamp_def)
  have "int (length (m_scrollback (evictLoop ?g))) \<le> 1000"
    using evictLoop_hist [OF inv] onlyHist_evictLoop [of ?g] by (simp add: hist_cap_def cap_ok_def onlyHist_simps clamp_def)
  then have "d = 1" using d by (cases "d \<ge> 2") (auto simp: cap_ok_def sum_list_replicate line0_def cellBytes_def)
  then show ?thesis using d(1) trim_evict [OF inv] by (simp add: setMaxScrollback_def)
qed

theorem smaller_history_keeps_entries_witness:
  "sc_hl (fst (invalidateSpanCaches (view0\<lparr>m_grid := setMaxScrollback 1000 grid1001\<rparr>)
     (cache1\<lparr>sc_lastPushed := m_scrollbackPushed grid1001\<rparr>))) 0 = Some (highlightLine [rule0] view1 0)"
proof -
  have "\<forall>l < scrollbackSize (view0\<lparr>m_grid := setMaxScrollback 1000 grid1001\<rparr>).
      sc_hl (fst (invalidateSpanCaches (view0\<lparr>m_grid := setMaxScrollback 1000 grid1001\<rparr>)
        (cache1\<lparr>sc_lastPushed := m_scrollbackPushed grid1001\<rparr>))) l = sc_hl cache1 l"
    using smaller_history_keeps_entries [of "view0\<lparr>m_grid := grid1001\<rparr>"
        "cache1\<lparr>sc_lastPushed := m_scrollbackPushed grid1001\<rparr>" 1000] grid1001_wf by auto
  then show ?thesis by (simp add: scrollbackSize_def grid1001_cut cache1_def)
qed

end
