(* ===== verification/Spec2Isabelle.thy ===== *)
theory Spec2Isabelle
  imports VtParserRoundtrip StreamProps SessionProps TermProps TermViewProps TermTextProps TermSpanProps
begin

text \<open>
  A verification library for Ants Terminal (C++/Qt, \<open>src/src/\<close>): the bytes a child process writes
  are read by the PTY, parsed by \<open>VtParser\<close> on the parse worker, and the parsed actions, shipped
  in batches, drive \<open>TerminalGrid\<close>, which holds the screen, the scrollback and every terminal
  mode; \<open>TerminalWidget\<close> shows the grid, turns keys, mouse and pastes into bytes for the child, and
  finds text in it; \<open>SessionManager\<close> saves a grid to disk and restores it.

  \<^bold>\<open>The parser\<close> (\<open>vtparser.h\<close>, \<open>vtparser.cpp\<close>). \<open>VtScan\<close> has the three bodies of the
  printable-run scan; \<open>VtParser\<close> the state machine, the UTF-8 decoder and the string
  accumulators, with the callback as the list of emitted actions; \<open>VtParserInv\<close> its invariant
  and the contract of its output; \<open>VtParserFeed\<close> the equality of the fast path with the
  byte-at-a-time machine, chunk independence and resynchronisation; \<open>VtParserRoundtrip\<close> the
  round trips. \<open>Transducer\<close> states the two contracts of a step function as locales.

  \<^bold>\<open>The grid\<close> (\<open>terminalgrid.h\<close>, \<open>terminalgrid.cpp\<close>, \<open>inlineimagedecode.h\<close>,
  \<open>inlineimagedecode.cpp\<close>). \<open>GridTypes\<close> and \<open>GridState\<close> are the structs and the data members
  under their own names, the constructor, and the record of what the grid reads from outside;
  \<open>GridScrollback\<close> the row pool, eviction and prompt regions; \<open>GridEdit\<close> erasing, shifting,
  scrolling; \<open>GridPrint\<close> printing and C0 controls; \<open>GridSgr\<close>, \<open>GridAlt\<close>, \<open>GridCsi\<close>,
  \<open>GridOsc\<close>, \<open>GridDcs\<close>, \<open>GridApc\<close> the dispatchers; \<open>InlineImage\<close> the image helpers;
  \<open>GridResize\<close> the reflow; \<open>GridAction\<close> ESC, RIS and \<open>processAction\<close>; \<open>GridRun\<close> the public
  mutators and sessions. \<open>GridInv\<close> holds the invariant; \<open>GridEditInv\<close>, \<open>GridPrintInv\<close>,
  \<open>GridActionInv\<close> and \<open>GridResizeInv\<close> show that every operation keeps it. The theory groups
  behind the properties: \<open>GridPrintEq\<close> (the coalesced run path), \<open>GridReflow\<close> (joining and
  rewrapping), \<open>GridHistory\<close> (the transcript that scrolling refines), \<open>GridFrame\<close> and \<open>GridGuard\<close>
  (what drawing and what no action changes), \<open>GridThrottle\<close> (budgets per minute and second), \<open>GridModes\<close> (modes,
  saved cursor, reset), \<open>GridLimits\<close> (work of the Sixel decoder, titles), \<open>GridGrow\<close> (history only
  grows at its end and loses its oldest lines); \<open>GridProps\<close> to \<open>GridProps4\<close> hold the properties.

  \<^bold>\<open>The stream\<close> (\<open>ptyhandler\<close>, \<open>vtstream\<close>). \<open>Pty\<close> has the child environment, the write queue
  with each error branch, and the notifiers; \<open>VtStream\<close> the parse worker: batches, run pointers as
  64-bit addresses, flow control, pastes; \<open>VtStreamRun\<close> the worker and the event loop as a step
  relation. \<open>VtStreamFrame\<close>, \<open>VtStreamInv\<close> and \<open>VtStreamFlow\<close> hold the invariants, \<open>StreamProps\<close>
  the properties.

  \<^bold>\<open>Sessions\<close> (\<open>sessionmanager\<close>, \<open>secureio.h\<close>, \<open>configbackup.h\<close>). \<open>SessionCodec\<close> and
  \<open>SessionStream\<close> write a grid, \<open>SessionRestore\<close> reads it with every refusal; \<open>SessionFiles\<close> has the
  atomic write, the queue of saves and the rotation of refused files, \<open>SessionTabs\<close> the tab order
  and the sweep. \<open>SessionGrid\<close> shows what a restored grid is, \<open>SessionSample\<close> has concrete sessions,
  \<open>SessionProps\<close> the properties. The encodings of \<open>QDataStream\<close>, compression and SHA-256 are
  parameters with the laws named in \<open>SessionCodec\<close> and \<open>SessionRestore\<close>; system calls answer as a
  record says. The loop that trims a session to its size makes at most nine passes.

  \<^bold>\<open>The widget\<close> (\<open>terminalwidget.h\<close>, \<open>terminalwidget.cpp\<close>, \<open>bracketedpaste.h\<close>, \<open>shellutils.h\<close>,
  \<open>modelcommandtracker.h\<close>, \<open>selectiontail.h\<close>, \<open>regexharden.cpp\<close>). \<open>TermPaste\<close>, \<open>TermKeys\<close> and
  \<open>TermMouse\<close> produce bytes for the child. \<open>TermView\<close> is the view: scroll offset, frozen screen,
  synchronized output, navigation, with a batch applied as \<open>onVtBatch\<close> does; \<open>TermViewInv\<close> its
  invariant. \<open>TermText\<close> has the text of a line, its map to columns and the accessible text;
  \<open>TermSelect\<close> the selection and what is copied; \<open>TermSearch\<close> search and brackets; \<open>TermBlocks\<close>
  command blocks; \<open>TermSpans\<close> links, quick select and the caches of spans. \<open>TermProps\<close>,
  \<open>TermViewProps\<close>, \<open>TermTextProps\<close> and \<open>TermSpanProps\<close> hold the properties. Regular expressions
  and URL parsing are parameters; where a proof needs that matches lie in the text, the
  hypothesis says so.

  \<^bold>\<open>Correspondence.\<close> A class is a record whose fields carry the member names with the prefix
  \<open>m_\<close>; an operation is a function from the old state to the new one; a callback is an event
  appended to \<open>m_events\<close>; a vector indexed by \<open>int\<close> is a list read with \<open>vget\<close> and written with
  \<open>vupd\<close>, and the invariant shows the indices are in range; \<open>uint32_t\<close> code points, packed
  colours, UTF-16 units and the 64-bit image budget are words; \<open>int\<close> is \<open>int\<close> where the code clamps
  it first (the column of the Sixel sizing pass, which it does not clamp, is named in \<open>GridDcs\<close>).
  Loops are structural or carry a measure, so every operation of the model returns.

  \<^bold>\<open>Parameters.\<close> The record \<open>env\<close> holds what is not in the repository: the clocks, \<open>wcwidth\<close>,
  Qt's UTF-8 and base64 codecs and image readers, the HMAC and hash functions, and the edits
  the line-completion callback makes. Nothing is assumed of them.

  \<^bold>\<open>Not modelled.\<close> The debug log; starting, forking and ending the child; painting, dialogs and
  the double-precision wheel animation of \<open>terminalwidget.cpp\<close>; the trigger rules; and the rest of
  the application (main window, remote-control server, roadmap store, audit tools, configuration,
  plugins), which the components list names.
\<close>

section \<open>The parser\<close>

text \<open>
  C24. Whatever bytes a child process sends, in whatever buffers they arrive, the parser stays
  within its bounds (at most 32 parameters of at most 16384, eight intermediate bytes, 10 MiB
  per string, three pending UTF-8 bytes) and every action it emits is one its consumers
  accept: printed code points are Unicode scalar values outside the control ranges, printed
  runs are non-empty printable ASCII, final bytes are in range, and the parameter and
  separator vectors have equal length.
\<close>
theorem parser_stream_ok:
  "list_all action_ok (fst (feedChunks arch chunks vt_init)) \<and>
   parser_inv (snd (feedChunks arch chunks vt_init))"
  by (rule feedChunks_inv [OF parser_inv_init])

text \<open>
  C25. The printable-ASCII fast path of \<open>feed\<close> is invisible: with every coalesced run expanded
  to single characters, a buffer produces the actions of the byte-at-a-time machine and leaves
  the same state, for each SIMD body the scan can be compiled to.
\<close>
theorem feed_fast_path:
  "expand (fst (feed arch bs p)) = fst (feedAll bs p) \<and> snd (feed arch bs p) = snd (feedAll bs p)"
  by (simp add: feed_output feed_state)

text \<open>
  How the PTY cuts the stream into buffers does not matter: two cuttings of the same bytes
  print the same actions, up to the coalescing of runs, and leave the same parser state.
\<close>
theorem feed_chunk_invariant:
  "concat cs = concat ds \<Longrightarrow>
   expand (fst (feedChunks arch cs p)) = expand (fst (feedChunks arch' ds p)) \<and>
   snd (feedChunks arch cs p) = snd (feedChunks arch' ds p)"
  by (simp add: feedChunks_feedAll)

theorem feed_chunk_invariant_witness:
  "expand (fst (feedChunks ScalarOnly [[0x1B], [0x5B, 0x41, 0x42]] vt_init)) =
     expand (fst (feedChunks SSE2 [[0x1B, 0x5B], [], [0x41, 0x42]] vt_init)) \<and>
   snd (feedChunks ScalarOnly [[0x1B], [0x5B, 0x41, 0x42]] vt_init) =
     snd (feedChunks SSE2 [[0x1B, 0x5B], [], [0x41, 0x42]] vt_init)"
  by (rule feed_chunk_invariant) simp

text \<open>
  CAN (0x18) and SUB (0x1A) resynchronise the parser from any state, however an earlier
  sequence left it: the bytes after one produce what they produce on a fresh parser.
\<close>
theorem can_sub_resync:
  assumes "b = 0x18 \<or> b = 0x1A"
  shows "fst (feedAll bs (snd (feedByte b p))) = fst (feedAll bs vt_init)"
  by (rule ground_output) (simp_all add: abort_feedByte [OF assms])

theorem can_sub_resync_witness:
  "fst (feedAll [0x41] (snd (feedByte 0x18 (snd (feedAll [0x1B, 0x50, 0x71] vt_init))))) =
   fst (feedAll [0x41] vt_init)"
  by (rule can_sub_resync) simp

text \<open>
  The SSE2 and NEON bodies of the run scan return the index the scalar loop returns: the
  number of leading bytes in 0x20..0x7E.
\<close>
theorem scan_bodies_agree:
  "scanSafeAsciiRun arch bs = scanScalar bs \<and>
   scanSafeAsciiRun arch bs = length (takeWhile safeByte bs)"
  by (simp add: scan_equivalent scanScalar_takeWhile)

text \<open>
  UTF-8 round trip: the bytes \<open>appendUtf8\<close> writes for a scalar value above ASCII, fed to a
  parser with no pending bytes, hand exactly that code point to the state machine.
\<close>
theorem utf8_roundtrip:
  assumes "scalar_value ch" "0x80 \<le> ch" "m_utf8Remaining p = 0"
    "appendUtf8 [] ch kMaxStringBytes = Some s"
  shows "feedAll (map byte_of_char s) p = processChar ch (utf8_decoded ch p)"
  using utf8_decode [OF assms(1-3)] assms(4)
  by (auto simp: appendUtf8_def byte_of_cast_char o_def split: if_splits)

theorem utf8_roundtrip_witness:
  "feedAll (map byte_of_char [CHR 0xE2, CHR 0x82, CHR 0xAC]) vt_init =
   processChar 0x20AC (utf8_decoded 0x20AC vt_init)"
  by (rule utf8_roundtrip)
    (simp_all add: scalar_value_def vt_init_def appendUtf8_def utf8_need_def utf8_bytes_def
      kMaxStringBytes_def cast_char_def, code_simp)

text \<open>
  A control sequence means what it says: \<open>ESC [ p1 ; ... ; pk f\<close> with at most 32 decimal
  parameters of at most 16384, met outside a string, dispatches the final byte once with
  exactly those parameters and returns to ground.
\<close>
theorem csi_roundtrip:
  assumes "\<not> isStringState (m_state p)" "m_utf8Remaining p = 0" "length ns \<le> kMaxParams"
    "list_all (\<lambda>n. int n \<le> kMaxParamValue) ns" "64 \<le> unat f" "unat f < 127"
  shows "fst (feedAll (csi_text ns f) p) =
      [CsiDispatch (char_of_byte f) (map int ns) (map (\<lambda>_. False) ns) '''' False]
    \<and> m_state (snd (feedAll (csi_text ns f) p)) = Ground"
  using assms by (rule csi_feed)

theorem csi_roundtrip_witness:
  "fst (feedAll (csi_text [12, 7] 0x48) vt_init) =
      [CsiDispatch (char_of_byte 0x48) (map int [12, 7]) (map (\<lambda>_. False) [12 :: nat, 7]) '''' False]
    \<and> m_state (snd (feedAll (csi_text [12, 7] 0x48) vt_init)) = Ground"
  by (rule csi_roundtrip)
    (simp_all add: vt_init_def isStringState_def kMaxParams_def kMaxParamValue_def)

text \<open>
  An OSC string of ASCII text (without BEL, CAN, SUB and ESC) up to the 10 MiB cap is
  delivered whole, once, and not marked truncated.
\<close>
theorem osc_roundtrip:
  assumes "\<not> isStringState (m_state p)" "m_utf8Remaining p = 0" "list_all osc_char s"
    "length s \<le> kMaxStringBytes"
  shows "fst (feedAll (osc_text s) p) = [OscEnd s False]
    \<and> m_state (snd (feedAll (osc_text s) p)) = Ground"
  using assms by (rule osc_feed)

theorem osc_roundtrip_witness:
  "fst (feedAll (osc_text ''0;ants'') vt_init) = [OscEnd ''0;ants'' False]
    \<and> m_state (snd (feedAll (osc_text ''0;ants'') vt_init)) = Ground"
  by (rule osc_roundtrip)
    (simp_all add: vt_init_def isStringState_def osc_char_def kMaxStringBytes_def)

text \<open>
  After the ESC that ends an OSC, DCS, APC, SOS or PM string the next character never
  dispatches anything: it is the ST terminator, re-arms a string, or is discarded. A payload
  cannot smuggle an escape sequence (a reset, say) past its own end.
\<close>
theorem string_esc_peek_silent:
  assumes "peekState (m_state p)"
  shows "fst (processChar ch p) = [] \<and> stringBody (m_state (snd (processChar ch p)))"
  using assms by (rule peek_processChar)

theorem string_esc_peek_silent_witness:
  "fst (processChar 0x63 (vt_init\<lparr>m_state := OscStringEsc\<rparr>)) = [] \<and>
   stringBody (m_state (snd (processChar 0x63 (vt_init\<lparr>m_state := OscStringEsc\<rparr>))))"
  by (rule string_esc_peek_silent) (simp add: peekState_def)

end
